(* ===== verification/Comp_Prelude.thy ===== *)
theory Comp_Prelude
  imports Main "HOL-Library.Word"
begin

text \<open>
  Shared vocabulary of the development: the part of the C library that
  \<^verbatim>\<open>src/compartment.h\<close> relies on (character classes, \<^verbatim>\<open>strcasecmp\<close>,
  \<^verbatim>\<open>strtol\<close>, \<^verbatim>\<open>strtoul\<close>, \<^verbatim>\<open>strtok\<close>), the names of the machine types, and the
  generic lemmas the component theories share.

  A C string is an Isabelle \<^typ>\<open>string\<close> that holds no NUL character.  A pointer into such a
  string (an \<^verbatim>\<open>endptr\<close>) is the suffix it points at, so two pointers into one string are
  equal exactly when the suffixes have the same length.  \<^verbatim>\<open>long\<close> and \<^verbatim>\<open>unsigned long\<close>
  are 64 bits wide (the LP64 targets the sources name: x86-64, aarch64, riscv64, s390x,
  ppc64le, loongarch64).  \<^verbatim>\<open>strtol\<close> has the C17 prefixes (no \<^verbatim>\<open>0b\<close>) and sets \<^verbatim>\<open>errno\<close>
  on overflow only, as glibc does.
\<close>

named_theorems keeps_limits \<open>operations on the configuration keep the array limits\<close>

type_synonym u8 = "8 word"
type_synonym u16 = "16 word"
type_synonym u32 = "32 word"
type_synonym u64 = "64 word"

section \<open>Characters and strings\<close>

abbreviation TAB :: char where "TAB \<equiv> CHR 0x09"
abbreviation NL :: char where "NL \<equiv> CHR 0x0A"
abbreviation CR :: char where "CR \<equiv> CHR 0x0D"
abbreviation NUL :: char where "NUL \<equiv> CHR 0x00"

definition is_blank :: "char \<Rightarrow> bool" where
  "is_blank c \<longleftrightarrow> c = CHR '' '' \<or> c = TAB"

definition is_space :: "char \<Rightarrow> bool" where
  "is_space c \<longleftrightarrow> c \<in> {CHR '' '', TAB, NL, CHR 0x0B, CHR 0x0C, CR}"

definition to_lower :: "char \<Rightarrow> char" where
  "to_lower c = (let n = (of_char c :: nat) in if 65 \<le> n \<and> n \<le> 90 then char_of (n + 32) else c)"

definition strcaseeq :: "string \<Rightarrow> string \<Rightarrow> bool" where
  "strcaseeq a b \<longleftrightarrow> map to_lower a = map to_lower b"

definition has_prefix :: "string \<Rightarrow> string \<Rightarrow> bool" where
  "has_prefix p s \<longleftrightarrow> take (length p) s = p"

definition rdropWhile :: "(char \<Rightarrow> bool) \<Rightarrow> string \<Rightarrow> string" where
  "rdropWhile P s = rev (dropWhile P (rev s))"

text \<open>What the C functions see of a buffer: everything before the first NUL.\<close>

definition cstr :: "string \<Rightarrow> string" where
  "cstr s = takeWhile (\<lambda>c. c \<noteq> NUL) s"

text \<open>The character at an index of a C string: NUL at its end.\<close>

definition char_at :: "string \<Rightarrow> nat \<Rightarrow> char" where
  "char_at s i = (if i < length s then s ! i else NUL)"

text \<open>\<^verbatim>\<open>strrchr(s, c)\<close>, as the length of the part before the last occurrence.\<close>

fun last_index :: "char \<Rightarrow> string \<Rightarrow> nat option" where
  "last_index c [] = None"
| "last_index c (x # xs) =
     (case last_index c xs of
        Some i \<Rightarrow> Some (Suc i)
      | None \<Rightarrow> if x = c then Some 0 else None)"

text \<open>\<^verbatim>\<open>strtok\<close> over a whole string: the non-empty runs between separators.\<close>

fun tokens_acc :: "(char \<Rightarrow> bool) \<Rightarrow> string \<Rightarrow> string \<Rightarrow> string list" where
  "tokens_acc sep acc [] = (if acc = [] then [] else [rev acc])"
| "tokens_acc sep acc (c # cs) =
     (if sep c then (if acc = [] then [] else [rev acc]) @ tokens_acc sep [] cs
      else tokens_acc sep (c # acc) cs)"

definition tokens :: "(char \<Rightarrow> bool) \<Rightarrow> string \<Rightarrow> string list" where
  "tokens sep s = tokens_acc sep [] s"

text \<open>One \<^verbatim>\<open>strtok_r\<close>: the token and what the save pointer points at afterwards.\<close>

definition strtok :: "(char \<Rightarrow> bool) \<Rightarrow> string \<Rightarrow> (string \<times> string) option" where
  "strtok sep s =
     (let s1 = dropWhile sep s
      in if s1 = [] then None
         else Some (takeWhile (\<lambda>c. \<not> sep c) s1, drop 1 (dropWhile (\<lambda>c. \<not> sep c) s1)))"

section \<open>Numbers\<close>

definition digit_val :: "char \<Rightarrow> nat option" where
  "digit_val c =
     (let n = (of_char c :: nat) in
      if 48 \<le> n \<and> n \<le> 57 then Some (n - 48)
      else if 97 \<le> n \<and> n \<le> 122 then Some (n - 87)
      else if 65 \<le> n \<and> n \<le> 90 then Some (n - 55)
      else None)"

definition is_digit :: "nat \<Rightarrow> char \<Rightarrow> bool" where
  "is_digit b c = (case digit_val c of None \<Rightarrow> False | Some d \<Rightarrow> d < b)"

definition digits_val :: "nat \<Rightarrow> string \<Rightarrow> nat" where
  "digits_val b ds = fold (\<lambda>c acc. acc * b + the (digit_val c)) ds 0"

definition strip_sign :: "string \<Rightarrow> bool \<times> string" where
  "strip_sign s =
     (case s of
        c # cs \<Rightarrow> if c = CHR ''-'' then (True, cs) else if c = CHR ''+'' then (False, cs) else (False, s)
      | [] \<Rightarrow> (False, s))"

definition strip_base :: "nat \<Rightarrow> string \<Rightarrow> nat \<times> string" where
  "strip_base base s =
     (if base \<noteq> 0 then (base, s)
      else case s of
        z # x # d # r \<Rightarrow>
          if z = CHR ''0'' \<and> (x = CHR ''x'' \<or> x = CHR ''X'') \<and> is_digit 16 d then (16, d # r)
          else if z = CHR ''0'' then (8, s) else (10, s)
      | z # r \<Rightarrow> if z = CHR ''0'' then (8, s) else (10, s)
      | [] \<Rightarrow> (10, s))"

text \<open>
  The scan both conversions share: sign, magnitude and the rest of the string, or
  \<^term>\<open>None\<close> when there is no digit to convert (the C functions then store the start of
  the string in \<^verbatim>\<open>endptr\<close>).
\<close>

definition scan_int :: "nat \<Rightarrow> string \<Rightarrow> (bool \<times> nat \<times> string) option" where
  "scan_int base s =
     (let (neg, s2) = strip_sign (dropWhile is_space s);
          (b, s3) = strip_base base s2;
          ds = takeWhile (is_digit b) s3
      in if ds = [] then None else Some (neg, digits_val b ds, dropWhile (is_digit b) s3))"

definition LONG_MAX :: int where "LONG_MAX = 2 ^ 63 - 1"
definition LONG_MIN :: int where "LONG_MIN = - (2 ^ 63)"
definition ULONG_MAX :: int where "ULONG_MAX = 2 ^ 64 - 1"

text \<open>Result, \<^verbatim>\<open>endptr\<close>, and whether \<^verbatim>\<open>errno\<close> was set to \<^verbatim>\<open>ERANGE\<close>.\<close>

definition strtol :: "nat \<Rightarrow> string \<Rightarrow> int \<times> string \<times> bool" where
  "strtol base s =
     (case scan_int base s of
        None \<Rightarrow> (0, s, False)
      | Some (neg, m, rest) \<Rightarrow>
          let v = (if neg then - int m else int m)
          in if v > LONG_MAX then (LONG_MAX, rest, True)
             else if v < LONG_MIN then (LONG_MIN, rest, True)
             else (v, rest, False))"

definition strtoul :: "nat \<Rightarrow> string \<Rightarrow> int \<times> string \<times> bool" where
  "strtoul base s =
     (case scan_int base s of
        None \<Rightarrow> (0, s, False)
      | Some (neg, m, rest) \<Rightarrow>
          if int m > ULONG_MAX then (ULONG_MAX, rest, True)
          else ((if neg then (- int m) mod 2 ^ 64 else int m), rest, False))"

text \<open>Error numbers and the path limit of the target system.\<close>

definition ENOENT :: nat where "ENOENT = 2"
definition EEXIST :: nat where "EEXIST = 17"
definition EINVAL :: nat where "EINVAL = 22"
definition ENOTDIR :: nat where "ENOTDIR = 20"
definition PATH_MAX :: nat where "PATH_MAX = 4096"

text \<open>\<^verbatim>\<open>%llu\<close> / \<^verbatim>\<open>%u\<close> / \<^verbatim>\<open>%d\<close> output.\<close>

fun show_nat :: "nat \<Rightarrow> string" where
  "show_nat n = (if n < 10 then [char_of (48 + n)] else show_nat (n div 10) @ [char_of (48 + n mod 10)])"

declare show_nat.simps [simp del]

section \<open>Shared lemmas\<close>

lemma strip_sign_length: "length (snd (strip_sign s)) \<le> length s"
  by (auto simp: strip_sign_def split: list.splits)

lemma strip_base_length: "length (snd (strip_base b s)) \<le> length s"
  by (auto simp: strip_base_def split: list.splits)

text \<open>A conversion that succeeds moves \<^verbatim>\<open>endptr\<close> forward.\<close>

lemma dropWhile_shorter: "takeWhile P s \<noteq> [] \<Longrightarrow> length (dropWhile P s) < length s"
  by (cases s) (auto simp: length_dropWhile_le le_imp_less_Suc split: if_splits)

lemma scan_int_consumes:
  assumes "scan_int base s = Some (neg, m, rest)"
  shows "length rest < length s"
proof -
  obtain n s2 where s2: "strip_sign (dropWhile is_space s) = (n, s2)" by fastforce
  obtain b s3 where s3: "strip_base base s2 = (b, s3)" by fastforce
  from s2 have "length s2 \<le> length s"
    using strip_sign_length [of "dropWhile is_space s"] length_dropWhile_le [of is_space s] by simp
  moreover from s3 have "length s3 \<le> length s2" using strip_base_length [of base s2] by simp
  moreover from assms s2 s3 have "length rest < length s3"
    by (auto simp: scan_int_def Let_def dropWhile_shorter split: if_splits)
  ultimately show ?thesis by simp
qed

lemma has_prefix_append [simp]: "has_prefix p (p @ s)"
  by (simp add: has_prefix_def)

lemma has_prefix_iff: "has_prefix p s \<longleftrightarrow> (\<exists>r. s = p @ r)"
  by (auto simp: has_prefix_def) (metis append_take_drop_id)

lemma rdropWhile_last: "rdropWhile P s \<noteq> [] \<Longrightarrow> \<not> P (last (rdropWhile P s))"
  by (simp add: rdropWhile_def last_rev hd_dropWhile)

lemma cstr_no_NUL [simp]: "NUL \<notin> set (cstr s)"
  by (auto simp: cstr_def dest: set_takeWhileD)

lemma cstr_id [simp]: "NUL \<notin> set s \<Longrightarrow> cstr s = s"
  by (simp add: cstr_def takeWhile_eq_all_conv) blast

lemma find_SomeD: "find P xs = Some x \<Longrightarrow> x \<in> set xs \<and> P x"
  by (auto simp: find_Some_iff)

end
