(* ===== verification/Syscall_Tables.thy ===== *)
theory Syscall_Tables
  imports Comp_Prelude
begin

text \<open>
  The name tables of \<^verbatim>\<open>src/compartment.h\<close>: system calls (\<^verbatim>\<open>syscall_table\<close>,
  \<^verbatim>\<open>resolve_syscall\<close>), capabilities (\<^verbatim>\<open>cap_table\<close>, \<^verbatim>\<open>resolve_cap\<close>) and the built-in
  deny-list.  The \<^verbatim>\<open>__NR_*\<close> numbers come from \<^verbatim>\<open><sys/syscall.h>\<close>, which is not part of the
  sources, so they are a parameter: a \<^verbatim>\<open>target\<close> gives, for each name, the number the macro
  has, or \<^term>\<open>None\<close> where the header does not define the macro.  An entry under
  \<^verbatim>\<open>#ifdef __NR_x\<close> is marked \<^verbatim>\<open>guarded\<close>; the others must exist for the file to compile,
  which \<^verbatim>\<open>target_ok\<close> records.
\<close>

section \<open>Target\<close>

record target =
  nr_of :: "string \<Rightarrow> int option"    \<comment> \<open>\<^verbatim>\<open>__NR_*\<close>\<close>
  x86_64 :: bool                      \<comment> \<open>\<^verbatim>\<open>__x86_64__\<close>\<close>
  audit_arch :: u32                   \<comment> \<open>the \<^verbatim>\<open>AUDIT_ARCH_*\<close> of the build\<close>

abbreviation always :: "string \<Rightarrow> string \<times> bool" where "always n \<equiv> (n, False)"
abbreviation guarded :: "string \<Rightarrow> string \<times> bool" where "guarded n \<equiv> (n, True)"

section \<open>System calls\<close>

text \<open>File I/O, file metadata, directories and filesystem.\<close>

definition syscalls_file :: "(string \<times> bool) list" where
  "syscalls_file =
    [always ''openat'', always ''close'', always ''lseek'', always ''pread64'',
     always ''pwrite64'', always ''readv'', always ''writev'', always ''pipe2'',
     always ''dup'', always ''dup3'', always ''fcntl'', always ''read'', always ''write'',
     always ''ioctl'', guarded ''open'', guarded ''dup2'', guarded ''pipe'',
     guarded ''fadvise64'', guarded ''close_range'', guarded ''openat2'', always ''fstat'',
     always ''newfstatat'', always ''faccessat'', always ''readlinkat'', always ''getcwd'',
     guarded ''stat'', guarded ''lstat'', guarded ''access'', guarded ''readlink'',
     guarded ''statx'', guarded ''faccessat2'', always ''getdents64'', always ''statfs'',
     always ''fstatfs'', always ''chdir'', always ''mkdirat'', always ''unlinkat'',
     always ''fchmod'', always ''fchown'', always ''umask'', guarded ''mkdir'',
     guarded ''rmdir'', guarded ''unlink'', guarded ''rename'', guarded ''renameat2'',
     guarded ''chmod'', guarded ''chown'', guarded ''mknod'', always ''mknodat'']"

text \<open>Memory, signals, sockets, event and notification descriptors.\<close>

definition syscalls_mem_signal_net :: "(string \<times> bool) list" where
  "syscalls_mem_signal_net =
    [always ''mmap'', always ''mprotect'', always ''munmap'', always ''brk'',
     always ''mremap'', always ''madvise'', always ''rt_sigaction'', always ''rt_sigprocmask'',
     always ''rt_sigreturn'', always ''rt_sigpending'', always ''rt_sigsuspend'',
     always ''rt_sigtimedwait'', always ''rt_sigqueueinfo'', always ''rt_tgsigqueueinfo'',
     always ''sigaltstack'', always ''kill'', always ''tkill'', always ''tgkill'',
     always ''pause'', always ''restart_syscall'', guarded ''signalfd4'', guarded ''signalfd'',
     always ''socket'', always ''socketpair'', always ''bind'', always ''listen'',
     always ''accept4'', always ''connect'', always ''getsockname'', always ''getpeername'',
     always ''setsockopt'', always ''getsockopt'', always ''sendto'', always ''recvfrom'',
     always ''sendmsg'', always ''recvmsg'', always ''sendmmsg'', always ''recvmmsg'',
     always ''shutdown'', guarded ''accept'', guarded ''socketcall'', always ''epoll_create1'',
     always ''epoll_ctl'', always ''epoll_pwait'', always ''eventfd2'',
     always ''timerfd_create'', always ''timerfd_settime'', always ''timerfd_gettime'',
     guarded ''epoll_create'', guarded ''epoll_wait'', guarded ''epoll_pwait2'',
     guarded ''eventfd'', guarded ''inotify_init1'', guarded ''inotify_add_watch'',
     guarded ''inotify_rm_watch'']"

text \<open>Process, scheduling, time, multiplexing, threading, random.\<close>

definition syscalls_process :: "(string \<times> bool) list" where
  "syscalls_process =
    [always ''execve'', always ''exit'', always ''exit_group'', always ''clone'',
     always ''wait4'', always ''waitid'', always ''getpid'', always ''getppid'',
     always ''gettid'', always ''getuid'', always ''getgid'', always ''geteuid'',
     always ''getegid'', always ''setuid'', always ''setgid'', always ''setgroups'',
     always ''setsid'', always ''getsid'', always ''setpgid'', always ''getpgid'',
     always ''getgroups'', always ''sysinfo'', always ''prctl'', always ''uname'',
     guarded ''getpgrp'', guarded ''fork'', guarded ''vfork'', guarded ''clone3'',
     guarded ''execveat'', guarded ''arch_prctl'', always ''sched_yield'',
     always ''sched_getaffinity'', always ''sched_setaffinity'', always ''prlimit64'',
     guarded ''getrlimit'', always ''clock_gettime'', always ''clock_getres'',
     always ''clock_nanosleep'', always ''nanosleep'', guarded ''gettimeofday'',
     always ''ppoll'', always ''pselect6'', guarded ''select'', guarded ''poll'',
     always ''futex'', always ''set_tid_address'', always ''set_robust_list'',
     guarded ''rseq'', guarded ''membarrier'', always ''getrandom'']"

text \<open>The deny-list group.\<close>

definition syscalls_dangerous :: "(string \<times> bool) list" where
  "syscalls_dangerous =
    [always ''ptrace'', always ''mount'', always ''umount2'', always ''reboot'',
     always ''kexec_load'', always ''init_module'', always ''finit_module'',
     always ''delete_module'', always ''pivot_root'', always ''chroot'', always ''unshare'',
     always ''setns'', always ''keyctl'', always ''add_key'', always ''request_key'',
     always ''bpf'', always ''userfaultfd'', always ''perf_event_open'',
     always ''personality'', always ''process_vm_readv'', always ''process_vm_writev'',
     always ''acct'', always ''swapon'', always ''swapoff'', always ''settimeofday'',
     always ''clock_settime'', always ''clock_adjtime'', always ''adjtimex'',
     always ''vhangup'', guarded ''quotactl'', guarded ''kexec_file_load'',
     guarded ''lookup_dcookie'', guarded ''mbind'', guarded ''move_pages'', guarded ''ioperm'',
     guarded ''iopl'', guarded ''nfsservctl'', guarded ''io_uring_setup'',
     guarded ''io_uring_enter'', guarded ''io_uring_register'', guarded ''open_by_handle_at'',
     guarded ''name_to_handle_at'', guarded ''open_tree'', guarded ''move_mount'',
     guarded ''fsopen'', guarded ''fsmount'', guarded ''fsconfig'', guarded ''fspick'',
     guarded ''mount_setattr'', guarded ''pidfd_getfd'']"

definition syscall_names :: "(string \<times> bool) list" where
  "syscall_names = syscalls_file @ syscalls_mem_signal_net @ syscalls_process @ syscalls_dangerous"

text \<open>The table the preprocessor leaves: the entries whose macro is defined, in order.\<close>

definition syscall_table :: "target \<Rightarrow> (string \<times> int) list" where
  "syscall_table t =
     List.map_filter (\<lambda>(n, g). map_option (\<lambda>nr. (n, nr)) (nr_of t n)) syscall_names"

definition target_ok :: "target \<Rightarrow> bool" where
  "target_ok t \<longleftrightarrow>
     (\<forall>(n, g) \<in> set syscall_names.
        (\<not> g \<longrightarrow> nr_of t n \<noteq> None) \<and>
        (\<forall>nr. nr_of t n = Some nr \<longrightarrow> 0 \<le> nr \<and> nr < 0x40000000))"

text \<open>
  Name lookup first; then a number in C notation, followed by blanks and the end of the
  string or a comment.  \<^verbatim>\<open>-1\<close> otherwise.
\<close>

definition resolve_syscall :: "target \<Rightarrow> string \<Rightarrow> int" where
  "resolve_syscall t name =
     (case map_of (syscall_table t) name of
        Some nr \<Rightarrow> nr
      | None \<Rightarrow>
          let (nr, end, erange) = strtol 0 name
          in if length end \<noteq> length name \<and> 0 \<le> nr \<and> nr \<le> 0x7fffffff then
               (case dropWhile is_blank end of
                  [] \<Rightarrow> nr
                | c # _ \<Rightarrow> if c = CHR ''#'' then nr else - 1)
             else - 1)"

section \<open>Capabilities\<close>

definition cap_table :: "(string \<times> int) list" where
  "cap_table =
    [(''chown'', 0), (''dac_override'', 1), (''dac_read_search'', 2), (''fowner'', 3),
     (''fsetid'', 4), (''kill'', 5), (''setgid'', 6), (''setuid'', 7), (''setpcap'', 8),
     (''linux_immutable'', 9), (''net_bind_service'', 10), (''net_broadcast'', 11),
     (''net_admin'', 12), (''net_raw'', 13), (''ipc_lock'', 14), (''ipc_owner'', 15),
     (''sys_module'', 16), (''sys_rawio'', 17), (''sys_chroot'', 18), (''sys_ptrace'', 19),
     (''sys_pacct'', 20), (''sys_admin'', 21), (''sys_boot'', 22), (''sys_nice'', 23),
     (''sys_resource'', 24), (''sys_time'', 25), (''sys_tty_config'', 26), (''mknod'', 27),
     (''lease'', 28), (''audit_write'', 29), (''audit_control'', 30), (''setfcap'', 31),
     (''mac_override'', 32), (''mac_admin'', 33), (''syslog'', 34), (''wake_alarm'', 35),
     (''block_suspend'', 36), (''audit_read'', 37), (''perfmon'', 38), (''bpf'', 39),
     (''checkpoint_restore'', 40)]"

definition resolve_cap :: "string \<Rightarrow> int" where
  "resolve_cap name =
     (let n = (if strcaseeq (take 4 name) ''cap_'' then drop 4 name else name)
      in case find (\<lambda>(c, nr). strcaseeq c n) cap_table of
           Some (c, nr) \<Rightarrow> nr
         | None \<Rightarrow>
             let (nr, end, erange) = strtol 0 name
             in if length end \<noteq> length name \<and> 0 \<le> nr \<and> nr \<le> 63 then nr else - 1)"

section \<open>Built-in deny-list\<close>

definition builtin_denylist :: "target \<Rightarrow> string list" where
  "builtin_denylist t =
    [''ptrace'', ''process_vm_readv'', ''process_vm_writev'', ''mount'', ''umount2'',
     ''pivot_root'', ''chroot'', ''unshare'', ''setns'', ''mount_setattr'', ''open_tree'',
     ''move_mount'', ''fsopen'', ''fsmount'', ''fsconfig'', ''fspick'', ''open_by_handle_at'',
     ''name_to_handle_at'', ''reboot'', ''kexec_load'', ''kexec_file_load'', ''init_module'',
     ''finit_module'', ''delete_module'', ''keyctl'', ''add_key'', ''request_key'', ''bpf'',
     ''userfaultfd'', ''perf_event_open'', ''io_uring_setup'', ''io_uring_enter'',
     ''io_uring_register'', ''acct'', ''swapon'', ''swapoff'', ''settimeofday'',
     ''clock_settime'', ''clock_adjtime'', ''adjtimex'', ''pidfd_getfd'']
     @ (if x86_64 t then [''ioperm'', ''iopl''] else [])"

section \<open>Lemmas\<close>

lemma map_of_names:
  "map_of (List.map_filter (\<lambda>(n, g). map_option (\<lambda>nr. (n, nr)) (f n)) ns) m =
     (if m \<in> fst ` set ns then f m else None)"
  by (induction ns) (auto simp: map_filter_simps split: option.splits)

text \<open>The number a name has does not depend on where the table lists it.\<close>

lemma syscall_table_lookup:
  "map_of (syscall_table t) n = (if n \<in> fst ` set syscall_names then nr_of t n else None)"
  unfolding syscall_table_def by (rule map_of_names)

lemma resolve_syscall_listed:
  "n \<in> fst ` set syscall_names \<Longrightarrow> nr_of t n = Some nr \<Longrightarrow> resolve_syscall t n = nr"
  by (simp add: resolve_syscall_def syscall_table_lookup)

lemma resolve_syscall_bounds:
  assumes "target_ok t"
  shows "- 1 \<le> resolve_syscall t n \<and> resolve_syscall t n \<le> 0x7fffffff"
proof (cases "map_of (syscall_table t) n")
  case None
  then show ?thesis
    by (auto simp: resolve_syscall_def Let_def split: prod.splits list.splits)
next
  case (Some nr)
  then have "n \<in> fst ` set syscall_names" "nr_of t n = Some nr"
    by (auto simp: syscall_table_lookup split: if_splits)
  with assms have "0 \<le> nr \<and> nr < 0x40000000" by (fastforce simp: target_ok_def)
  with Some show ?thesis by (simp add: resolve_syscall_def)
qed

lemma denylist_dangerous: "set (builtin_denylist t) \<subseteq> fst ` set syscalls_dangerous"
  by (cases "x86_64 t") (simp_all add: builtin_denylist_def syscalls_dangerous_def)

lemma denylist_in_table: "n \<in> set (builtin_denylist t) \<Longrightarrow> n \<in> fst ` set syscall_names"
  using denylist_dangerous by (auto simp: syscall_names_def)

lemma cap_table_lower: "list_all (\<lambda>(c, nr). map to_lower c = c \<and> take 4 c \<noteq> ''cap_'') cap_table"
  by code_simp

lemma cap_table_distinct: "distinct (map fst cap_table)"
  by (simp add: cap_table_def)

lemma find_key:
  "distinct (map fst xs) \<Longrightarrow> (c, v) \<in> set xs \<Longrightarrow> find (\<lambda>(c', v'). c' = c) xs = Some (c, v)"
  by (induction xs) (auto simp: rev_image_eqI split: prod.splits)

lemma find_cap:
  assumes "(c, nr) \<in> set cap_table" and "strcaseeq x c"
  shows "find (\<lambda>(c', nr'). strcaseeq c' x) cap_table = Some (c, nr)"
proof -
  have "map to_lower x = c"
    using assms cap_table_lower by (auto simp: strcaseeq_def list_all_iff)
  then have "find (\<lambda>(c', nr'). strcaseeq c' x) cap_table = find (\<lambda>(c', nr'). c' = c) cap_table"
    using cap_table_lower by (intro find_cong) (auto simp: strcaseeq_def list_all_iff)
  also have "\<dots> = Some (c, nr)" by (rule find_key [OF cap_table_distinct assms(1)])
  finally show ?thesis .
qed

lemma cap_no_prefix:
  assumes "(c, nr) \<in> set cap_table" and "strcaseeq x c"
  shows "\<not> strcaseeq (take 4 x) ''cap_''"
proof -
  have low: "map to_lower x = c" "take 4 c \<noteq> ''cap_''"
    using assms cap_table_lower by (auto simp: strcaseeq_def list_all_iff)
  moreover have "map to_lower ''cap_'' = ''cap_''" by code_simp
  ultimately show ?thesis by (auto simp: strcaseeq_def take_map)
qed

lemma resolve_cap_numeric:
  "find (\<lambda>(c, nr). strcaseeq c (if strcaseeq (take 4 n) ''cap_'' then drop 4 n else n)) cap_table = None \<Longrightarrow>
   resolve_cap n \<in> {- 1..63}"
  by (auto simp: resolve_cap_def Let_def split: prod.splits)

lemma cap_table_range: "list_all (\<lambda>(c, nr). 0 \<le> nr \<and> nr \<le> 40) cap_table"
  by (simp add: cap_table_def)

lemma resolve_cap_bounds: "resolve_cap n \<in> {- 1..63}"
proof (cases "find (\<lambda>(c, nr). strcaseeq c (if strcaseeq (take 4 n) ''cap_'' then drop 4 n else n)) cap_table")
  case None
  then show ?thesis by (rule resolve_cap_numeric)
next
  case (Some p)
  then have "p \<in> set cap_table" by (metis find_Some_iff nth_mem)
  with Some cap_table_range show ?thesis
    by (auto simp: resolve_cap_def Let_def list_all_iff split: prod.splits)
qed

end
