(* ===== verification/Policy_Config.thy ===== *)
theory Policy_Config
  imports Syscall_Tables
begin

unbundle bit_operations_syntax

text \<open>
  The policy record of \<^verbatim>\<open>src/compartment.h\<close> (\<^verbatim>\<open>Config\<close>) and the functions that add to it.
  Each fixed array with its counter is one list, so the counter is its length and the
  array bound (\<^verbatim>\<open>MAX_*\<close>) is the invariant \<^verbatim>\<open>cfg_limits\<close>.  A function that prints a
  diagnostic and returns \<^verbatim>\<open>-1\<close> is \<^term>\<open>None\<close>; the text of diagnostics is not modelled, so
  the \<^verbatim>\<open>where\<close> / \<^verbatim>\<open>what\<close> arguments that only feed them are left out.  \<^verbatim>\<open>int\<close> fields used as
  truth values are \<^typ>\<open>bool\<close>, a pointer that may be \<^verbatim>\<open>NULL\<close> is an \<^typ>\<open>'a option\<close>.

  Two strings of the policy, \<^verbatim>\<open>workdir\<close> and \<^verbatim>\<open>audit_log_dir\<close>, are freed when they are replaced, also
  while a copy of the record still points to them, so the record carries their addresses and the
  part of the heap they live in: the next fresh address and the addresses freed so far, in order
  (\<^verbatim>\<open>strmem\<close>).  No other string is freed before the process ends; those are values only.

  The interface \<^verbatim>\<open>bounded_append\<close> is what all the array appends promise; its client lemmas
  (a whole list of rules is taken, or refused, and never cut short) are proved once and
  used for every array.
\<close>

section \<open>Constants and data\<close>

definition MAX_PATHS :: nat where "MAX_PATHS = 64"
definition MAX_BLOCKED_SC :: nat where "MAX_BLOCKED_SC = 256"
definition MAX_ALLOWED_SC :: nat where "MAX_ALLOWED_SC = 512"
definition MAX_ENV_VARS :: nat where "MAX_ENV_VARS = 64"
definition MAX_NET_PORTS :: nat where "MAX_NET_PORTS = 64"
definition MAX_LINE :: nat where "MAX_LINE = 1024"
definition MAX_INHERIT_DEPTH :: nat where "MAX_INHERIT_DEPTH = 2"

lemmas limit_defs = MAX_PATHS_def MAX_BLOCKED_SC_def MAX_ALLOWED_SC_def MAX_ENV_VARS_def
  MAX_NET_PORTS_def MAX_LINE_def MAX_INHERIT_DEPTH_def

datatype SeccompAction = SECCOMP_DEFAULT_ERRNO | SECCOMP_DEFAULT_KILL | SECCOMP_DEFAULT_LOG

datatype PathMode = PATH_RO | PATH_RW | PATH_EXEC | PATH_RWX

record PathRule =
  pr_path :: string
  pr_mode :: PathMode
  pr_optional :: bool
  pr_owned :: bool

record MountFlagRule =
  mf_path :: string
  mf_flags :: u64

record strmem =
  sm_next :: nat
  sm_freed :: "nat list"

record Config =
  paths :: "PathRule list"
  net_bind_ports :: "int list"
  net_connect_ports :: "int list"
  net_default_deny :: bool
  blocked_syscalls :: "int list"
  allowed_syscalls :: "int list"
  seccomp_allow_mode :: bool
  seccomp_default :: SeccompAction
  env_deny :: "(string \<times> bool) list"       \<comment> \<open>name and its \<^verbatim>\<open>env_deny_owned\<close> bit\<close>
  env_allow :: "(string \<times> bool) list"      \<comment> \<open>name and its \<^verbatim>\<open>env_allow_owned\<close> bit\<close>
  env_allow_mode :: bool
  use_landlock :: bool
  use_seccomp :: bool
  use_no_new_privs :: bool
  use_env_sanitize :: bool
  dry_run :: bool
  verbose :: bool
  audit :: bool
  audit_log_fd :: int
  audit_log_dir :: "string option"
  workdir :: "string option"
  profile_name :: "string option"
  profile_source :: "string option"
  allow_insecure :: bool
  rootdir :: "string option"
  cfg_uid :: u32
  cfg_gid :: u32
  username :: "string option"
  netns :: "string option"
  cgroups :: "string list"
  cap_allowed_names :: "string list"
  loopback :: bool
  mount_masks :: "string list"
  rootdir_flags :: u64
  mount_flags :: "MountFlagRule list"
  uid_map :: "string option"
  gid_map :: "string option"
  cap_drop_names :: "string list"
  masks :: "(string \<times> bool) list"          \<comment> \<open>path and its \<^verbatim>\<open>mask_optional\<close> bit\<close>
  workdir_ptr :: nat                          \<comment> \<open>the address of \<^verbatim>\<open>workdir\<close>, when it is not \<^verbatim>\<open>NULL\<close>\<close>
  audit_log_ptr :: nat                        \<comment> \<open>the address of \<^verbatim>\<open>audit_log_dir\<close>, when it is not \<^verbatim>\<open>NULL\<close>\<close>
  cfg_mem :: strmem

definition cfg_limits :: "Config \<Rightarrow> bool" where
  "cfg_limits c \<longleftrightarrow>
     length (paths c) \<le> MAX_PATHS \<and>
     length (net_bind_ports c) \<le> MAX_NET_PORTS \<and>
     length (net_connect_ports c) \<le> MAX_NET_PORTS \<and>
     length (blocked_syscalls c) \<le> MAX_BLOCKED_SC \<and>
     length (allowed_syscalls c) \<le> MAX_ALLOWED_SC \<and>
     length (env_deny c) \<le> MAX_ENV_VARS \<and>
     length (env_allow c) \<le> MAX_ENV_VARS \<and>
     length (cgroups c) \<le> MAX_PATHS \<and>
     length (cap_allowed_names c) \<le> MAX_ENV_VARS \<and>
     length (mount_masks c) \<le> MAX_PATHS \<and>
     length (mount_flags c) \<le> MAX_PATHS \<and>
     length (cap_drop_names c) \<le> MAX_ENV_VARS \<and>
     length (masks c) \<le> MAX_PATHS"

text \<open>The record both tools start from before a profile or an option is read: all zero.\<close>

definition empty_config :: Config where
  "empty_config =
     \<lparr>paths = [], net_bind_ports = [], net_connect_ports = [], net_default_deny = False,
      blocked_syscalls = [], allowed_syscalls = [], seccomp_allow_mode = False,
      seccomp_default = SECCOMP_DEFAULT_ERRNO, env_deny = [], env_allow = [], env_allow_mode = False,
      use_landlock = False, use_seccomp = False, use_no_new_privs = False, use_env_sanitize = False,
      dry_run = False, verbose = False, audit = False, audit_log_fd = - 1, audit_log_dir = None,
      workdir = None, profile_name = None, profile_source = None, allow_insecure = False,
      rootdir = None, cfg_uid = 0, cfg_gid = 0, username = None, netns = None, cgroups = [],
      cap_allowed_names = [], loopback = False, mount_masks = [], rootdir_flags = 0,
      mount_flags = [], uid_map = None, gid_map = None, cap_drop_names = [], masks = [],
      workdir_ptr = 0, audit_log_ptr = 0, cfg_mem = \<lparr>sm_next = 0, sm_freed = []\<rparr>\<rparr>"

lemma empty_config_arrays [simp]:
  "paths empty_config = []" "blocked_syscalls empty_config = []" "allowed_syscalls empty_config = []"
  "env_deny empty_config = []" "env_allow empty_config = []" "masks empty_config = []"
  "net_bind_ports empty_config = []" "net_connect_ports empty_config = []"
  "mount_flags empty_config = []" "cgroups empty_config = []" "cap_allowed_names empty_config = []"
  "mount_masks empty_config = []" "cap_drop_names empty_config = []"
  by (simp_all add: empty_config_def)

lemma empty_config_limits [simp]: "cfg_limits empty_config"
  by (simp add: cfg_limits_def)

section \<open>The two strings that are freed when they are replaced\<close>

text \<open>\<^verbatim>\<open>free\<close> of a string that may be \<^verbatim>\<open>NULL\<close>, and \<^verbatim>\<open>xstrdup\<close>: a fresh address.\<close>

definition free_str :: "string option \<Rightarrow> nat \<Rightarrow> strmem \<Rightarrow> strmem" where
  "free_str s p m = (if s = None then m else m\<lparr>sm_freed := p # sm_freed m\<rparr>)"

definition xstrdup :: "strmem \<Rightarrow> nat \<times> strmem" where
  "xstrdup m = (sm_next m, m\<lparr>sm_next := Suc (sm_next m)\<rparr>)"

definition replace_workdir :: "string \<Rightarrow> Config \<Rightarrow> Config" where
  "replace_workdir v c =
     (case xstrdup (free_str (workdir c) (workdir_ptr c) (cfg_mem c)) of
        (p, m) \<Rightarrow> c\<lparr>workdir := Some v, workdir_ptr := p, cfg_mem := m\<rparr>)"

definition replace_audit_log :: "string \<Rightarrow> Config \<Rightarrow> Config" where
  "replace_audit_log v c =
     (case xstrdup (free_str (audit_log_dir c) (audit_log_ptr c) (cfg_mem c)) of
        (p, m) \<Rightarrow> c\<lparr>audit_log_dir := Some v, audit := True, audit_log_ptr := p, cfg_mem := m\<rparr>)"

lemmas replace_defs = replace_workdir_def replace_audit_log_def xstrdup_def free_str_def

lemma replace_shapes:
  "replace_workdir v c = c\<lparr>workdir := Some v, workdir_ptr := workdir_ptr (replace_workdir v c),
     cfg_mem := cfg_mem (replace_workdir v c)\<rparr>"
  "replace_audit_log v c = c\<lparr>audit_log_dir := Some v, audit := True,
     audit_log_ptr := audit_log_ptr (replace_audit_log v c), cfg_mem := cfg_mem (replace_audit_log v c)\<rparr>"
  by (simp_all add: replace_defs)

text \<open>
  The strings a policy points to are alive and apart, and no address was freed twice
  (\<^verbatim>\<open>strings_live\<close>).  A rejected load may end this for the policy of its caller, but the record of
  freed addresses itself stays sane (\<^verbatim>\<open>mem_sane\<close>).
\<close>

definition mem_sane :: "strmem \<Rightarrow> bool" where
  "mem_sane m \<longleftrightarrow> distinct (sm_freed m) \<and> (\<forall>p \<in> set (sm_freed m). p < sm_next m)"

definition live :: "string option \<Rightarrow> nat \<Rightarrow> strmem \<Rightarrow> bool" where
  "live s p m \<longleftrightarrow> s \<noteq> None \<longrightarrow> p < sm_next m \<and> p \<notin> set (sm_freed m)"

definition strings_live :: "Config \<Rightarrow> bool" where
  "strings_live c \<longleftrightarrow> mem_sane (cfg_mem c) \<and> live (workdir c) (workdir_ptr c) (cfg_mem c) \<and>
     live (audit_log_dir c) (audit_log_ptr c) (cfg_mem c) \<and>
     (workdir c \<noteq> None \<and> audit_log_dir c \<noteq> None \<longrightarrow> workdir_ptr c \<noteq> audit_log_ptr c)"

lemmas live_defs = strings_live_def mem_sane_def live_def

lemma replace_live: "strings_live c \<Longrightarrow> strings_live (replace_workdir v c) \<and> strings_live (replace_audit_log v c)"
  by (auto simp: live_defs replace_defs less_Suc_eq)

lemma empty_config_live [simp]: "strings_live empty_config"
  by (simp add: live_defs empty_config_def)

section \<open>Appending to the policy arrays\<close>

text \<open>A trailing \<^verbatim>\<open>?\<close> (not the whole string) marks a rule optional and is cut off.\<close>

definition is_optional_path :: "string \<Rightarrow> bool" where
  "is_optional_path p \<longleftrightarrow> 1 < length p \<and> last p = CHR ''?''"

definition trim_optional :: "string \<Rightarrow> string" where
  "trim_optional p = (if is_optional_path p then butlast p else p)"

definition path_rule :: "PathMode \<Rightarrow> bool \<Rightarrow> string \<Rightarrow> PathRule" where
  "path_rule mode dup p =
     \<lparr>pr_path = trim_optional p, pr_mode = mode, pr_optional = is_optional_path p,
      pr_owned = is_optional_path p \<or> dup\<rparr>"

definition cfg_add_path :: "string \<Rightarrow> PathMode \<Rightarrow> bool \<Rightarrow> Config \<Rightarrow> Config option" where
  "cfg_add_path p mode dup c =
     (if length (paths c) \<ge> MAX_PATHS then None
      else Some (c\<lparr>paths := paths c @ [path_rule mode dup p]\<rparr>))"

text \<open>
  The port is checked before the limit.  \<^verbatim>\<open>end\<close> is moved past blanks before it is compared
  with \<^verbatim>\<open>val\<close>, as in the source.
\<close>

definition parse_port :: "string \<Rightarrow> int option" where
  "parse_port val =
     (let (port, end, erange) = strtol 10 val;
          end' = dropWhile is_blank end
      in if erange \<or> length end' = length val \<or> end' \<noteq> [] \<or> port < 0 \<or> port > 65535
         then None else Some port)"

definition cfg_add_net_port :: "string \<Rightarrow> int list \<Rightarrow> int list option" where
  "cfg_add_net_port val arr =
     (case parse_port val of
        None \<Rightarrow> None
      | Some port \<Rightarrow> if length arr \<ge> MAX_NET_PORTS then None else Some (arr @ [port]))"

definition cfg_add_blocked :: "int \<Rightarrow> Config \<Rightarrow> Config option" where
  "cfg_add_blocked nr c =
     (if length (blocked_syscalls c) \<ge> MAX_BLOCKED_SC then None
      else Some (c\<lparr>blocked_syscalls := blocked_syscalls c @ [nr]\<rparr>))"

definition cfg_add_allowed :: "int \<Rightarrow> Config \<Rightarrow> Config option" where
  "cfg_add_allowed nr c =
     (if length (allowed_syscalls c) \<ge> MAX_ALLOWED_SC then None
      else Some (c\<lparr>allowed_syscalls := allowed_syscalls c @ [nr], seccomp_allow_mode := True\<rparr>))"

fun cfg_add_denylist_from :: "target \<Rightarrow> string list \<Rightarrow> Config \<Rightarrow> Config option" where
  "cfg_add_denylist_from t [] c = Some c"
| "cfg_add_denylist_from t (n # ns) c =
     (let nr = resolve_syscall t n
      in if nr < 0 then cfg_add_denylist_from t ns c
         else case cfg_add_blocked nr c of
                None \<Rightarrow> None
              | Some c' \<Rightarrow> cfg_add_denylist_from t ns c')"

definition cfg_add_builtin_denylist :: "target \<Rightarrow> Config \<Rightarrow> Config option" where
  "cfg_add_builtin_denylist t c = cfg_add_denylist_from t (builtin_denylist t) c"

definition cfg_add_env_deny :: "bool \<Rightarrow> string \<Rightarrow> Config \<Rightarrow> Config option" where
  "cfg_add_env_deny dup name c =
     (if length (env_deny c) \<ge> MAX_ENV_VARS then None
      else Some (c\<lparr>env_deny := env_deny c @ [(name, dup)]\<rparr>))"

definition cfg_add_env_allow :: "bool \<Rightarrow> string \<Rightarrow> Config \<Rightarrow> Config option" where
  "cfg_add_env_allow dup name c =
     (if length (env_allow c) \<ge> MAX_ENV_VARS then None
      else Some (c\<lparr>env_allow := env_allow c @ [(name, dup)], env_allow_mode := True\<rparr>))"

definition cfg_add_str :: "nat \<Rightarrow> string \<Rightarrow> string list \<Rightarrow> string list option" where
  "cfg_add_str limit val arr = (if length arr \<ge> limit then None else Some (arr @ [val]))"

definition cfg_add_mask :: "string \<Rightarrow> Config \<Rightarrow> Config option" where
  "cfg_add_mask p c =
     (if length (masks c) \<ge> MAX_PATHS then None
      else if p = [] \<or> hd p \<noteq> CHR ''/'' then None
      else Some (c\<lparr>masks := masks c @ [(trim_optional p, is_optional_path p)]\<rparr>))"

section \<open>Mount flags\<close>

definition COMPARTMENT_MS_RDONLY :: u64 where "COMPARTMENT_MS_RDONLY = 1"
definition COMPARTMENT_MS_NOSUID :: u64 where "COMPARTMENT_MS_NOSUID = 2"
definition COMPARTMENT_MS_NODEV :: u64 where "COMPARTMENT_MS_NODEV = 4"
definition COMPARTMENT_MS_NOEXEC :: u64 where "COMPARTMENT_MS_NOEXEC = 8"

lemmas ms_defs = COMPARTMENT_MS_RDONLY_def COMPARTMENT_MS_NOSUID_def COMPARTMENT_MS_NODEV_def
  COMPARTMENT_MS_NOEXEC_def

definition mount_flag_for_directive :: "string \<Rightarrow> u64" where
  "mount_flag_for_directive s =
     (if s = ''ro'' then COMPARTMENT_MS_RDONLY
      else if s = ''nosuid'' then COMPARTMENT_MS_NOSUID
      else if s = ''nodev'' then COMPARTMENT_MS_NODEV
      else if s = ''noexec'' then COMPARTMENT_MS_NOEXEC
      else 0)"

fun or_mount_flags :: "string list \<Rightarrow> u64 \<Rightarrow> u64 option" where
  "or_mount_flags [] flags = Some flags"
| "or_mount_flags (tok # toks) flags =
     (if mount_flag_for_directive tok = 0 then None
      else or_mount_flags toks (flags OR mount_flag_for_directive tok))"

definition is_flag_sep :: "char \<Rightarrow> bool" where
  "is_flag_sep c \<longleftrightarrow> c = CHR '','' \<or> is_blank c"

definition parse_mount_flag_list :: "string \<Rightarrow> u64 option" where
  "parse_mount_flag_list val =
     (if length val \<ge> MAX_LINE then None
      else let toks = tokens is_flag_sep val
           in if toks = [] then None else or_mount_flags toks 0)"

text \<open>Two rules for one path are merged; the limit is checked before the search.\<close>

fun merge_mount_flag :: "string \<Rightarrow> u64 \<Rightarrow> MountFlagRule list \<Rightarrow> MountFlagRule list option" where
  "merge_mount_flag p f [] = None"
| "merge_mount_flag p f (r # rs) =
     (if mf_path r = p then Some (r\<lparr>mf_flags := mf_flags r OR f\<rparr> # rs)
      else map_option (\<lambda>rs'. r # rs') (merge_mount_flag p f rs))"

definition cfg_add_mount_flag :: "string \<Rightarrow> u64 \<Rightarrow> Config \<Rightarrow> Config option" where
  "cfg_add_mount_flag p f c =
     (if length (mount_flags c) \<ge> MAX_PATHS then None
      else case merge_mount_flag p f (mount_flags c) of
             Some rs \<Rightarrow> Some (c\<lparr>mount_flags := rs\<rparr>)
           | None \<Rightarrow> Some (c\<lparr>mount_flags := mount_flags c @ [\<lparr>mf_path = p, mf_flags = f\<rparr>]\<rparr>))"

section \<open>Switches\<close>

definition parse_bool :: "string \<Rightarrow> bool option" where
  "parse_bool val =
     (if strcaseeq val ''on'' \<or> strcaseeq val ''yes'' \<or> strcaseeq val ''true'' \<or> val = ''1''
      then Some True
      else if strcaseeq val ''off'' \<or> strcaseeq val ''no'' \<or> strcaseeq val ''false'' \<or> val = ''0''
      then Some False
      else None)"

text \<open>A profile may turn a mechanism on; everything else, \<^verbatim>\<open>off\<close> included, is refused.\<close>

definition profile_switch :: "string \<Rightarrow> bool option" where
  "profile_switch val =
     (case parse_bool val of
        None \<Rightarrow> None
      | Some on \<Rightarrow> if \<not> on then None else Some True)"

section \<open>The append interface\<close>

text \<open>Perform a list of additions in order and stop at the first one that is refused.\<close>

fun try_all :: "('b \<Rightarrow> 'c \<Rightarrow> 'c option) \<Rightarrow> 'b list \<Rightarrow> 'c \<Rightarrow> 'c option" where
  "try_all add [] c = Some c"
| "try_all add (x # xs) c = (case add x c of None \<Rightarrow> None | Some c' \<Rightarrow> try_all add xs c')"

text \<open>The outcome of such a list of additions: all of it is stored, or it is refused.\<close>

definition taken_or_refused ::
  "('c \<Rightarrow> 'a list) \<Rightarrow> ('b \<Rightarrow> 'c \<Rightarrow> 'c option) \<Rightarrow> ('b \<Rightarrow> 'a) \<Rightarrow> ('b \<Rightarrow> bool) \<Rightarrow> nat \<Rightarrow> 'b list \<Rightarrow> 'c \<Rightarrow> bool"
where
  "taken_or_refused arr add item acceptable limit xs c \<longleftrightarrow>
     (case try_all add xs c of
        None \<Rightarrow> \<not> list_all acceptable xs \<or> limit < length (arr c) + length xs
      | Some c' \<Rightarrow> list_all acceptable xs \<and> arr c' = arr c @ map item xs \<and> length (arr c') \<le> limit)"

text \<open>
  What every array of the policy promises: an addition is refused exactly when the array is
  full or the item is not acceptable, and otherwise stores the item at the end.
\<close>

locale bounded_append =
  fixes arr :: "'c \<Rightarrow> 'a list"
    and add :: "'b \<Rightarrow> 'c \<Rightarrow> 'c option"
    and item :: "'b \<Rightarrow> 'a"
    and acceptable :: "'b \<Rightarrow> bool"
    and limit :: nat
  assumes refused: "add x c = None \<longleftrightarrow> limit \<le> length (arr c) \<or> \<not> acceptable x"
    and stored: "add x c = Some c' \<Longrightarrow> arr c' = arr c @ [item x]"
begin

lemma add_within: "add x c = Some c' \<Longrightarrow> length (arr c') \<le> limit"
  using refused [of x c] by (simp add: stored)

lemma add_all_complete: "try_all add xs c = Some c' \<Longrightarrow> arr c' = arr c @ map item xs"
  by (induction xs arbitrary: c) (auto simp: stored split: option.splits)

lemma add_all_refused:
  "length (arr c) \<le> limit \<Longrightarrow>
   try_all add xs c = None \<longleftrightarrow> \<not> list_all acceptable xs \<or> limit < length (arr c) + length xs"
proof (induction xs arbitrary: c)
  case Nil
  then show ?case by simp
next
  case (Cons x xs)
  show ?case
  proof (cases "add x c")
    case None
    then show ?thesis using refused [of x c] by auto
  next
    case (Some c')
    then have "length (arr c') = Suc (length (arr c))" "acceptable x" "length (arr c') \<le> limit"
      using refused [of x c] add_within [OF Some] by (auto simp: stored)
    with Some Cons.IH show ?thesis by simp
  qed
qed

lemma add_all_spec:
  assumes "length (arr c) \<le> limit"
  shows "taken_or_refused arr add item acceptable limit xs c"
  using add_all_refused [OF assms, of xs] add_all_complete [of xs c]
  by (auto simp: taken_or_refused_def split: option.splits)

end

interpretation path_array: bounded_append paths "\<lambda>p. cfg_add_path p mode dup"
  "path_rule mode dup" "\<lambda>_. True" MAX_PATHS for mode dup
  by unfold_locales (auto simp: cfg_add_path_def split: if_splits)

interpretation blocked_array: bounded_append blocked_syscalls cfg_add_blocked
  "\<lambda>nr. nr" "\<lambda>_. True" MAX_BLOCKED_SC
  by unfold_locales (auto simp: cfg_add_blocked_def split: if_splits)

interpretation allowed_array: bounded_append allowed_syscalls cfg_add_allowed
  "\<lambda>nr. nr" "\<lambda>_. True" MAX_ALLOWED_SC
  by unfold_locales (auto simp: cfg_add_allowed_def split: if_splits)

interpretation env_deny_array: bounded_append env_deny "cfg_add_env_deny dup"
  "\<lambda>n. (n, dup)" "\<lambda>_. True" MAX_ENV_VARS for dup
  by unfold_locales (auto simp: cfg_add_env_deny_def split: if_splits)

interpretation env_allow_array: bounded_append env_allow "cfg_add_env_allow dup"
  "\<lambda>n. (n, dup)" "\<lambda>_. True" MAX_ENV_VARS for dup
  by unfold_locales (auto simp: cfg_add_env_allow_def split: if_splits)

interpretation mask_array: bounded_append masks cfg_add_mask
  "\<lambda>p. (trim_optional p, is_optional_path p)" "\<lambda>p. p \<noteq> [] \<and> hd p = CHR ''/''" MAX_PATHS
  by unfold_locales (auto simp: cfg_add_mask_def split: if_splits)

interpretation port_array: bounded_append "\<lambda>a. a" cfg_add_net_port
  "\<lambda>v. the (parse_port v)" "\<lambda>v. parse_port v \<noteq> None" MAX_NET_PORTS
  by unfold_locales (auto simp: cfg_add_net_port_def split: option.splits if_splits)

interpretation str_array: bounded_append "\<lambda>a. a" "cfg_add_str limit"
  "\<lambda>v. v" "\<lambda>_. True" limit for limit
  by unfold_locales (auto simp: cfg_add_str_def split: if_splits)

section \<open>Lemmas on the additions\<close>

lemmas cfg_add_defs = cfg_add_path_def cfg_add_blocked_def cfg_add_allowed_def
  cfg_add_env_deny_def cfg_add_env_allow_def cfg_add_mask_def cfg_add_mount_flag_def

lemma cfg_add_path_limits [keeps_limits]:
  "cfg_limits c \<Longrightarrow> cfg_add_path p m d c = Some c' \<Longrightarrow> cfg_limits c'"
  by (auto simp: cfg_limits_def cfg_add_path_def split: if_splits)

lemma cfg_add_blocked_limits [keeps_limits]:
  "cfg_limits c \<Longrightarrow> cfg_add_blocked nr c = Some c' \<Longrightarrow> cfg_limits c'"
  by (auto simp: cfg_limits_def cfg_add_blocked_def split: if_splits)

lemma cfg_add_allowed_limits [keeps_limits]:
  "cfg_limits c \<Longrightarrow> cfg_add_allowed nr c = Some c' \<Longrightarrow> cfg_limits c'"
  by (auto simp: cfg_limits_def cfg_add_allowed_def split: if_splits)

lemma cfg_add_env_deny_limits [keeps_limits]:
  "cfg_limits c \<Longrightarrow> cfg_add_env_deny d n c = Some c' \<Longrightarrow> cfg_limits c'"
  by (auto simp: cfg_limits_def cfg_add_env_deny_def split: if_splits)

lemma cfg_add_env_allow_limits [keeps_limits]:
  "cfg_limits c \<Longrightarrow> cfg_add_env_allow d n c = Some c' \<Longrightarrow> cfg_limits c'"
  by (auto simp: cfg_limits_def cfg_add_env_allow_def split: if_splits)

lemma cfg_add_mask_limits [keeps_limits]:
  "cfg_limits c \<Longrightarrow> cfg_add_mask p c = Some c' \<Longrightarrow> cfg_limits c'"
  by (auto simp: cfg_limits_def cfg_add_mask_def split: if_splits)

lemma merge_mount_flag_length: "merge_mount_flag p f rs = Some rs' \<Longrightarrow> length rs' = length rs"
  by (induction rs arbitrary: rs') (auto split: if_splits)

lemma cfg_add_mount_flag_limits [keeps_limits]:
  "cfg_limits c \<Longrightarrow> cfg_add_mount_flag p f c = Some c' \<Longrightarrow> cfg_limits c'"
  by (auto simp: cfg_limits_def cfg_add_mount_flag_def merge_mount_flag_length
      split: if_splits option.splits)

text \<open>The flags a path ends up with, over all rules that name it.\<close>

fun flags_of_path :: "string \<Rightarrow> MountFlagRule list \<Rightarrow> u64" where
  "flags_of_path p [] = 0"
| "flags_of_path p (r # rs) = (if mf_path r = p then mf_flags r else 0) OR flags_of_path p rs"

lemma flags_of_path_append [simp]:
  "flags_of_path p (rs @ rs') = flags_of_path p rs OR flags_of_path p rs'"
  by (induction rs) (simp_all add: or.assoc)

lemma merge_mount_flag_None: "merge_mount_flag p f rs = None \<longleftrightarrow> p \<notin> mf_path ` set rs"
  by (induction rs) auto

lemma merge_mount_flag_paths: "merge_mount_flag p f rs = Some rs' \<Longrightarrow> map mf_path rs' = map mf_path rs"
  by (induction rs arbitrary: rs') (auto split: if_splits)

lemma merge_mount_flag_flags:
  "merge_mount_flag p f rs = Some rs' \<Longrightarrow>
   flags_of_path q rs' = flags_of_path q rs OR (if q = p then f else 0)"
proof (induction rs arbitrary: rs')
  case Nil
  then show ?case by simp
next
  case (Cons r rs)
  show ?case
  proof (cases "mf_path r = p")
    case True
    have "(mf_flags r OR f) OR x = (mf_flags r OR x) OR f" for x
      by (metis or.assoc or.commute)
    with True Cons.prems show ?thesis by (auto simp: or.assoc)
  next
    case False
    with Cons.prems obtain rs'' where rs'': "merge_mount_flag p f rs = Some rs''" "rs' = r # rs''"
      by auto
    from Cons.IH [OF rs''(1)] rs''(2) show ?thesis by (simp add: or.assoc)
  qed
qed

lemma denylist_not_numeric: "list_all (\<lambda>n. scan_int 0 n = None) (builtin_denylist t)"
  by (cases "x86_64 t"; simp only: builtin_denylist_def if_True if_False) (code_simp, code_simp)

lemma resolve_denylist:
  "n \<in> set (builtin_denylist t) \<Longrightarrow>
   resolve_syscall t n = (case nr_of t n of Some nr \<Rightarrow> nr | None \<Rightarrow> - 1)"
  using denylist_not_numeric [of t] denylist_in_table [of n t]
  by (auto simp: resolve_syscall_def syscall_table_lookup strtol_def list_all_iff split: option.splits)

lemma denylist_from_resolved:
  assumes "target_ok t" and "set ns \<subseteq> set (builtin_denylist t)"
  shows "cfg_add_denylist_from t ns c = try_all cfg_add_blocked (List.map_filter (nr_of t) ns) c"
  using assms(2)
proof (induction ns arbitrary: c)
  case Nil
  then show ?case by (simp add: map_filter_simps)
next
  case (Cons n ns)
  then have n: "n \<in> set (builtin_denylist t)" by simp
  have "0 \<le> nr" if "nr_of t n = Some nr" for nr
    using assms(1) denylist_in_table [OF n] that by (fastforce simp: target_ok_def)
  then show ?case
    using Cons resolve_denylist [OF n]
    by (cases "nr_of t n") (auto simp: Let_def map_filter_simps split: option.splits)
qed

lemma try_all_blocked:
  "try_all cfg_add_blocked ns c =
     (if length (blocked_syscalls c) + length ns \<le> MAX_BLOCKED_SC \<or> ns = []
      then Some (c\<lparr>blocked_syscalls := blocked_syscalls c @ ns\<rparr>) else None)"
  by (induction ns arbitrary: c) (auto simp: cfg_add_blocked_def)

lemma mount_flag_bit:
  "mount_flag_for_directive tok \<noteq> 0 \<Longrightarrow>
   bit (mount_flag_for_directive tok) n \<longleftrightarrow>
     (n = 0 \<and> tok = ''ro'') \<or> (n = 1 \<and> tok = ''nosuid'') \<or> (n = 2 \<and> tok = ''nodev'') \<or>
     (n = 3 \<and> tok = ''noexec'')"
proof -
  have pow: "bit (2 ^ m :: u64) n \<longleftrightarrow> m < 64 \<and> n = m" for m
    by (auto simp: bit_exp_iff)
  have b: "bit (1::u64) n \<longleftrightarrow> n = 0" "bit (2::u64) n \<longleftrightarrow> n = 1" "bit (4::u64) n \<longleftrightarrow> n = 2"
    "bit (8::u64) n \<longleftrightarrow> n = 3"
    using pow [of 0] pow [of 1] pow [of 2] pow [of 3] by simp_all
  assume "mount_flag_for_directive tok \<noteq> 0"
  then show ?thesis
    by (auto simp: mount_flag_for_directive_def ms_defs b simp del: bit_numeral_word_iff split: if_splits)
qed

lemma or_mount_flags_bits:
  "or_mount_flags toks a = Some f \<Longrightarrow>
   bit f n \<longleftrightarrow> bit a n \<or>
     (n = 0 \<and> ''ro'' \<in> set toks) \<or> (n = 1 \<and> ''nosuid'' \<in> set toks) \<or>
     (n = 2 \<and> ''nodev'' \<in> set toks) \<or> (n = 3 \<and> ''noexec'' \<in> set toks)"
proof (induction toks arbitrary: a)
  case Nil
  then show ?case by simp
next
  case (Cons tok toks)
  then have nz: "mount_flag_for_directive tok \<noteq> 0"
    and rest: "or_mount_flags toks (a OR mount_flag_for_directive tok) = Some f"
    by (auto split: if_splits)
  from Cons.IH [OF rest] show ?case
    by (auto simp: bit_or_iff mount_flag_bit [OF nz])
qed

lemma parse_port_blank:
  assumes "v \<noteq> []" and "\<forall>c \<in> set v. is_blank c"
  shows "parse_port v = Some 0"
proof -
  have "dropWhile is_blank v = []" using assms(2) by simp
  moreover have "dropWhile is_space v = []"
    using assms(2) by (auto simp: is_blank_def is_space_def)
  then have "scan_int 10 v = None"
    by (simp only: scan_int_def) (simp add: strip_sign_def strip_base_def)
  ultimately show ?thesis
    using assms(1) by (simp add: parse_port_def strtol_def)
qed

section \<open>Properties\<close>

text \<open>
  Appending any list of rules to a policy array whose bound holds either stores every
  rule, in order, after the ones already there, within the bound of the array, or is refused;
  and it is refused only when the rules do not all fit (for masks and ports: or one of them is
  not acceptable).  No array is ever silently cut short.
\<close>

theorem policy_arrays_never_truncate:
  assumes "cfg_limits c"
  shows "taken_or_refused paths (\<lambda>p. cfg_add_path p mode dup) (path_rule mode dup) (\<lambda>_. True) MAX_PATHS ps c
    \<and> taken_or_refused blocked_syscalls cfg_add_blocked (\<lambda>nr. nr) (\<lambda>_. True) MAX_BLOCKED_SC nrs c
    \<and> taken_or_refused allowed_syscalls cfg_add_allowed (\<lambda>nr. nr) (\<lambda>_. True) MAX_ALLOWED_SC nrs c
    \<and> taken_or_refused env_deny (cfg_add_env_deny dup) (\<lambda>n. (n, dup)) (\<lambda>_. True) MAX_ENV_VARS names c
    \<and> taken_or_refused env_allow (cfg_add_env_allow dup) (\<lambda>n. (n, dup)) (\<lambda>_. True) MAX_ENV_VARS names c
    \<and> taken_or_refused masks cfg_add_mask (\<lambda>p. (trim_optional p, is_optional_path p))
        (\<lambda>p. p \<noteq> [] \<and> hd p = CHR ''/'') MAX_PATHS ms c
    \<and> taken_or_refused (\<lambda>a. a) cfg_add_net_port (\<lambda>v. the (parse_port v)) (\<lambda>v. parse_port v \<noteq> None)
        MAX_NET_PORTS ports (net_bind_ports c)"
  using assms unfolding cfg_limits_def
  by (intro conjI path_array.add_all_spec blocked_array.add_all_spec allowed_array.add_all_spec
      env_deny_array.add_all_spec env_allow_array.add_all_spec mask_array.add_all_spec
      port_array.add_all_spec) auto

text \<open>Witness: two syscalls and one mask on the empty policy, where both are taken.\<close>

theorem policy_arrays_never_truncate_witness:
  "cfg_limits empty_config
   \<and> taken_or_refused blocked_syscalls cfg_add_blocked (\<lambda>nr. nr) (\<lambda>_. True) MAX_BLOCKED_SC [101, 165] empty_config
   \<and> try_all cfg_add_blocked [101, 165] empty_config = Some (empty_config\<lparr>blocked_syscalls := [101, 165]\<rparr>)"
  using policy_arrays_never_truncate [OF empty_config_limits, of PATH_RO False "[]" "[101, 165]" "[]" "[]" "[]"]
  by (simp add: cfg_add_blocked_def MAX_BLOCKED_SC_def)

text \<open>
  On a target whose headers define the listed macros consistently, and with room left for
  it, adding the built-in deny-list succeeds and appends the number of every deny-list entry
  the target has, in order, changing nothing else of the policy.
\<close>

theorem builtin_denylist_complete:
  assumes "target_ok t"
    and "length (blocked_syscalls c) + length (builtin_denylist t) \<le> MAX_BLOCKED_SC"
  shows "cfg_add_builtin_denylist t c =
           Some (c\<lparr>blocked_syscalls := blocked_syscalls c @ List.map_filter (nr_of t) (builtin_denylist t)\<rparr>)"
proof -
  have "length (List.map_filter (nr_of t) (builtin_denylist t)) \<le> length (builtin_denylist t)"
    by (simp add: List.map_filter_def)
  then show ?thesis
    using assms(2) denylist_from_resolved [OF assms(1), of "builtin_denylist t" c]
    by (simp add: cfg_add_builtin_denylist_def try_all_blocked)
qed

text \<open>Witness: a target on which every macro is defined, as 7.\<close>

theorem builtin_denylist_complete_witness:
  "cfg_add_builtin_denylist \<lparr>nr_of = (\<lambda>_. Some 7), x86_64 = False, audit_arch = 0\<rparr> empty_config =
     Some (empty_config\<lparr>blocked_syscalls := replicate 41 7\<rparr>)"
proof -
  let ?t = "\<lparr>nr_of = (\<lambda>_. Some 7), x86_64 = False, audit_arch = 0\<rparr>"
  have "target_ok ?t" by (simp add: target_ok_def)
  moreover have "length (blocked_syscalls empty_config) + length (builtin_denylist ?t) \<le> MAX_BLOCKED_SC"
    by (simp add: builtin_denylist_def MAX_BLOCKED_SC_def)
  ultimately have "cfg_add_builtin_denylist ?t empty_config =
      Some (empty_config\<lparr>blocked_syscalls := blocked_syscalls empty_config
        @ List.map_filter (nr_of ?t) (builtin_denylist ?t)\<rparr>)"
    by (rule builtin_denylist_complete)
  moreover have "List.map_filter (nr_of ?t) (builtin_denylist ?t) = replicate 41 7"
    by (simp add: builtin_denylist_def map_filter_simps numeral_eq_Suc)
  ultimately show ?thesis by simp
qed

text \<open>
  Adding a mount flag for a path unions it into the flags that path has and leaves the
  flags of every other path as they were; a path is never listed twice.
\<close>

theorem mount_flag_merge:
  assumes "distinct (map mf_path (mount_flags c))"
    and "cfg_add_mount_flag p f c = Some c'"
  shows "distinct (map mf_path (mount_flags c'))
    \<and> flags_of_path q (mount_flags c') = flags_of_path q (mount_flags c) OR (if q = p then f else 0)"
proof (cases "merge_mount_flag p f (mount_flags c)")
  case None
  with assms merge_mount_flag_None [of p f "mount_flags c"] show ?thesis
    by (auto simp: cfg_add_mount_flag_def split: if_splits)
next
  case (Some rs)
  with assms show ?thesis
    by (auto simp: cfg_add_mount_flag_def merge_mount_flag_paths merge_mount_flag_flags split: if_splits)
qed

text \<open>Witness: \<^verbatim>\<open>mount-ro /usr\<close> and then \<^verbatim>\<open>mount-noexec /usr\<close>.\<close>

theorem mount_flag_merge_witness:
  "let c = empty_config\<lparr>mount_flags := [\<lparr>mf_path = ''/usr'', mf_flags = 1\<rparr>]\<rparr>;
       c' = c\<lparr>mount_flags := [\<lparr>mf_path = ''/usr'', mf_flags = 9\<rparr>]\<rparr>
   in distinct (map mf_path (mount_flags c)) \<and> cfg_add_mount_flag ''/usr'' 8 c = Some c'
      \<and> flags_of_path ''/usr'' (mount_flags c') = flags_of_path ''/usr'' (mount_flags c) OR 8"
proof -
  let ?c = "empty_config\<lparr>mount_flags := [\<lparr>mf_path = ''/usr'', mf_flags = 1\<rparr>]\<rparr>"
  let ?c' = "?c\<lparr>mount_flags := [\<lparr>mf_path = ''/usr'', mf_flags = 9\<rparr>]\<rparr>"
  have d: "distinct (map mf_path (mount_flags ?c))" by simp
  have a: "cfg_add_mount_flag ''/usr'' 8 ?c = Some ?c'"
    by (simp add: cfg_add_mount_flag_def MAX_PATHS_def)
  show ?thesis using mount_flag_merge [OF d a, of "''/usr''"] d a by (simp add: Let_def)
qed

text \<open>
  A mount flag list is accepted only if it has at least one entry, and the mask it
  yields has exactly the bits of the flags that are listed: bit 0 for \<^verbatim>\<open>ro\<close>, 1 for \<^verbatim>\<open>nosuid\<close>,
  2 for \<^verbatim>\<open>nodev\<close>, 3 for \<^verbatim>\<open>noexec\<close>, and no other.
\<close>

theorem mount_flag_list_bits:
  assumes "parse_mount_flag_list val = Some f"
  shows "tokens is_flag_sep val \<noteq> [] \<and>
    (bit f n \<longleftrightarrow>
       (n = 0 \<and> ''ro'' \<in> set (tokens is_flag_sep val)) \<or>
       (n = 1 \<and> ''nosuid'' \<in> set (tokens is_flag_sep val)) \<or>
       (n = 2 \<and> ''nodev'' \<in> set (tokens is_flag_sep val)) \<or>
       (n = 3 \<and> ''noexec'' \<in> set (tokens is_flag_sep val)))"
  using assms or_mount_flags_bits [of "tokens is_flag_sep val" 0 f n]
  by (simp add: parse_mount_flag_list_def Let_def split: if_splits)

theorem mount_flag_list_bits_witness:
  "parse_mount_flag_list ''ro, noexec'' = Some 9 \<and> bit (9::u64) 3"
proof -
  have "parse_mount_flag_list ''ro, noexec'' = Some 9" by code_simp
  moreover have "''noexec'' \<in> set (tokens is_flag_sep ''ro, noexec'')" by code_simp
  ultimately show ?thesis using mount_flag_list_bits [of "''ro, noexec''" 9 3] by simp
qed

text \<open>
  A port value that is accepted is between 0 and 65535; but a value of blanks alone is
  accepted, as port 0, because \<^verbatim>\<open>cfg_add_net_port\<close> skips blanks before it tests whether
  \<^verbatim>\<open>strtol\<close> consumed anything.
\<close>

theorem port_range_and_blank:
  "(parse_port v = Some p \<longrightarrow> 0 \<le> p \<and> p \<le> 65535)
   \<and> (v \<noteq> [] \<and> (\<forall>c \<in> set v. is_blank c) \<longrightarrow> cfg_add_net_port v [] = Some [0])"
  by (auto simp: cfg_add_net_port_def parse_port_blank MAX_NET_PORTS_def)
    (auto simp: parse_port_def Let_def split: prod.splits if_splits)

theorem port_range_and_blank_witness:
  "parse_port ''443'' = Some 443 \<and> (443::int) \<le> 65535 \<and> cfg_add_net_port '' '' [] = Some [0]"
proof -
  have "parse_port ''443'' = Some 443" by code_simp
  then show ?thesis
    using port_range_and_blank [of "''443''" 443] port_range_and_blank [of "'' ''" 0]
    by (simp add: is_blank_def)
qed

end
