(* ===== verification/Seccomp_Filter.thy ===== *)
theory Seccomp_Filter
  imports Policy_Config
begin

text \<open>
  The system-call filter of \<^verbatim>\<open>src/compartment.h\<close>: \<^verbatim>\<open>build_seccomp_bpf\<close> writes a classic BPF
  program, \<^verbatim>\<open>apply_seccomp\<close> chooses its list and actions from the policy.  The program is the
  list of \<^verbatim>\<open>struct sock_filter\<close> the source fills in, opcodes and jump offsets included, and it
  is given the meaning the kernel documents for classic BPF (\<^verbatim>\<open>run_filter\<close>: absolute loads
  from \<^verbatim>\<open>struct seccomp_data\<close>, forward conditional jumps, return).  The two library calls the
  function makes, \<^verbatim>\<open>calloc\<close> and \<^verbatim>\<open>prctl(PR_SET_SECCOMP)\<close>, are parameters.
\<close>

section \<open>Classic BPF\<close>

record sock_filter =
  sf_code :: u16
  sf_jt :: u8
  sf_jf :: u8
  sf_k :: u32

record seccomp_data =
  sd_nr :: u32
  sd_arch :: u32
  sd_arg0 :: u64                      \<comment> \<open>the only argument a filter here looks at\<close>

definition BPF_LD_W_ABS :: u16 where "BPF_LD_W_ABS = 0x20"
definition BPF_JMP_JEQ_K :: u16 where "BPF_JMP_JEQ_K = 0x15"
definition BPF_JMP_JSET_K :: u16 where "BPF_JMP_JSET_K = 0x45"
definition BPF_RET_K :: u16 where "BPF_RET_K = 0x06"

lemmas opcode_defs = BPF_LD_W_ABS_def BPF_JMP_JEQ_K_def BPF_JMP_JSET_K_def BPF_RET_K_def

definition BPF_STMT :: "u16 \<Rightarrow> u32 \<Rightarrow> sock_filter" where
  "BPF_STMT code k = \<lparr>sf_code = code, sf_jt = 0, sf_jf = 0, sf_k = k\<rparr>"

definition BPF_JUMP :: "u16 \<Rightarrow> u32 \<Rightarrow> u8 \<Rightarrow> u8 \<Rightarrow> sock_filter" where
  "BPF_JUMP code k jt jf = \<lparr>sf_code = code, sf_jt = jt, sf_jf = jf, sf_k = k\<rparr>"

text \<open>\<^verbatim>\<open>offsetof(struct seccomp_data, nr)\<close>, \<^verbatim>\<open>arch\<close> and the two halves of \<^verbatim>\<open>args[0]\<close>.\<close>

definition load_abs :: "seccomp_data \<Rightarrow> u32 \<Rightarrow> u32 option" where
  "load_abs d off = (if off = 0 then Some (sd_nr d) else if off = 4 then Some (sd_arch d)
     else if off = 16 then Some (ucast (sd_arg0 d)) else if off = 20 then Some (ucast (drop_bit 32 (sd_arg0 d))) else None)"

text \<open>
  Running a program from a given instruction on: a jump goes forward over the rest of the
  program, so the rest is the program counter.  \<^term>\<open>None\<close> is a program the kernel would
  refuse to load (it falls off the end or uses an unknown instruction).
\<close>

function run_filter :: "seccomp_data \<Rightarrow> sock_filter list \<Rightarrow> u32 \<Rightarrow> u32 option" where
  "run_filter d [] a = None"
| "run_filter d (i # is) a =
     (if sf_code i = BPF_LD_W_ABS then
        (case load_abs d (sf_k i) of None \<Rightarrow> None | Some v \<Rightarrow> run_filter d is v)
      else if sf_code i = BPF_JMP_JEQ_K then
        run_filter d (drop (unat (if a = sf_k i then sf_jt i else sf_jf i)) is) a
      else if sf_code i = BPF_JMP_JSET_K then
        run_filter d (drop (unat (if a AND sf_k i \<noteq> 0 then sf_jt i else sf_jf i)) is) a
      else if sf_code i = BPF_RET_K then Some (sf_k i)
      else None)"
  by pat_completeness auto
termination
  by (relation "measure (\<lambda>(d, is, a). length is)") auto

section \<open>Actions\<close>

definition SECCOMP_RET_KILL_PROCESS :: u32 where "SECCOMP_RET_KILL_PROCESS = 0x80000000"
definition SECCOMP_RET_ERRNO :: u32 where "SECCOMP_RET_ERRNO = 0x00050000"
definition SECCOMP_RET_LOG :: u32 where "SECCOMP_RET_LOG = 0x7ffc0000"
definition SECCOMP_RET_ALLOW :: u32 where "SECCOMP_RET_ALLOW = 0x7fff0000"
definition EPERM_NO :: u32 where "EPERM_NO = 1"

lemmas action_defs = SECCOMP_RET_KILL_PROCESS_def SECCOMP_RET_ERRNO_def SECCOMP_RET_LOG_def
  SECCOMP_RET_ALLOW_def EPERM_NO_def

definition seccomp_deny_action :: "Config \<Rightarrow> u32" where
  "seccomp_deny_action c =
     (case seccomp_default c of
        SECCOMP_DEFAULT_KILL \<Rightarrow> SECCOMP_RET_KILL_PROCESS
      | SECCOMP_DEFAULT_LOG \<Rightarrow> SECCOMP_RET_LOG
      | SECCOMP_DEFAULT_ERRNO \<Rightarrow> SECCOMP_RET_ERRNO OR (EPERM_NO AND 0xFFFF))"

definition seccomp_action_name :: "Config \<Rightarrow> string" where
  "seccomp_action_name c =
     (case seccomp_default c of
        SECCOMP_DEFAULT_KILL \<Rightarrow> ''kill''
      | SECCOMP_DEFAULT_LOG \<Rightarrow> ''log''
      | SECCOMP_DEFAULT_ERRNO \<Rightarrow> ''errno'')"

section \<open>The program\<close>

definition X32_BIT :: u32 where "X32_BIT = 0x40000000"

fun rule_insns :: "u32 \<Rightarrow> int list \<Rightarrow> sock_filter list" where
  "rule_insns match [] = []"
| "rule_insns match (nr # nrs) =
     BPF_JUMP BPF_JMP_JEQ_K (word_of_int nr) 0 1 # BPF_STMT BPF_RET_K match # rule_insns match nrs"

definition x32_insns :: "target \<Rightarrow> sock_filter list" where
  "x32_insns t =
     (if x86_64 t
      then [BPF_JUMP BPF_JMP_JSET_K X32_BIT 0 1, BPF_STMT BPF_RET_K SECCOMP_RET_KILL_PROCESS]
      else [])"

definition seccomp_prog :: "target \<Rightarrow> int list \<Rightarrow> u32 \<Rightarrow> u32 \<Rightarrow> sock_filter list" where
  "seccomp_prog t syscalls match dflt =
     [BPF_STMT BPF_LD_W_ABS 4,
      BPF_JUMP BPF_JMP_JEQ_K (audit_arch t) 1 0,
      BPF_STMT BPF_RET_K SECCOMP_RET_KILL_PROCESS,
      BPF_STMT BPF_LD_W_ABS 0]
     @ x32_insns t
     @ rule_insns match syscalls
     @ [BPF_STMT BPF_RET_K dflt]"

text \<open>The number of instructions \<^verbatim>\<open>calloc\<close> is asked for.\<close>

definition prog_len :: "target \<Rightarrow> int list \<Rightarrow> nat" where
  "prog_len t syscalls = 4 + (if x86_64 t then 2 else 0) + length syscalls * 2 + 1"

record seccomp_env =
  calloc_ok :: "nat \<Rightarrow> bool"
  prctl_seccomp :: "u16 \<Rightarrow> sock_filter list \<Rightarrow> int"

text \<open>The return value and the program handed to the kernel, if any.\<close>

definition build_seccomp_bpf ::
  "seccomp_env \<Rightarrow> target \<Rightarrow> int list \<Rightarrow> u32 \<Rightarrow> u32 \<Rightarrow> int \<times> sock_filter list option"
where
  "build_seccomp_bpf e t syscalls match dflt =
     (if \<not> calloc_ok e (prog_len t syscalls) then (- 1, None)
      else let f = seccomp_prog t syscalls match dflt;
               r = prctl_seccomp e (word_of_nat (length f)) f
           in (r, if r = 0 then Some f else None))"

definition apply_seccomp :: "seccomp_env \<Rightarrow> target \<Rightarrow> Config \<Rightarrow> int \<times> sock_filter list option" where
  "apply_seccomp e t c =
     (let deny = seccomp_deny_action c
      in if seccomp_allow_mode c then
           (if allowed_syscalls c = [] then (- 1, None)
            else let (r, f) = build_seccomp_bpf e t (allowed_syscalls c) SECCOMP_RET_ALLOW deny
                 in if r \<noteq> 0 then (- 1, f) else (0, f))
         else
           (if blocked_syscalls c = [] then (0, None)
            else let (r, f) = build_seccomp_bpf e t (blocked_syscalls c) deny SECCOMP_RET_ALLOW
                 in if r \<noteq> 0 then (- 1, f) else (0, f)))"

section \<open>What a policy asks for\<close>

text \<open>
  The action the policy means for a system call: a foreign architecture and, on x86-64, the
  x32 numbering are killed; otherwise the list decides.
\<close>

definition seccomp_verdict :: "target \<Rightarrow> Config \<Rightarrow> seccomp_data \<Rightarrow> u32" where
  "seccomp_verdict t c d =
     (if sd_arch d \<noteq> audit_arch t then SECCOMP_RET_KILL_PROCESS
      else if x86_64 t \<and> sd_nr d AND X32_BIT \<noteq> 0 then SECCOMP_RET_KILL_PROCESS
      else if seccomp_allow_mode c then
        (if sd_nr d \<in> word_of_int ` set (allowed_syscalls c) then SECCOMP_RET_ALLOW
         else seccomp_deny_action c)
      else
        (if sd_nr d \<in> word_of_int ` set (blocked_syscalls c) then seccomp_deny_action c
         else SECCOMP_RET_ALLOW))"

section \<open>Lemmas\<close>

lemma insn_simps [simp]:
  "sf_code (BPF_STMT code k) = code" "sf_k (BPF_STMT code k) = k"
  "sf_code (BPF_JUMP code k jt jf) = code" "sf_k (BPF_JUMP code k jt jf) = k"
  "sf_jt (BPF_JUMP code k jt jf) = jt" "sf_jf (BPF_JUMP code k jt jf) = jf"
  by (simp_all add: BPF_STMT_def BPF_JUMP_def)

lemma opcode_distinct [simp]:
  "BPF_LD_W_ABS \<noteq> BPF_JMP_JEQ_K" "BPF_LD_W_ABS \<noteq> BPF_JMP_JSET_K" "BPF_LD_W_ABS \<noteq> BPF_RET_K"
  "BPF_JMP_JEQ_K \<noteq> BPF_LD_W_ABS" "BPF_JMP_JEQ_K \<noteq> BPF_JMP_JSET_K" "BPF_JMP_JEQ_K \<noteq> BPF_RET_K"
  "BPF_JMP_JSET_K \<noteq> BPF_LD_W_ABS" "BPF_JMP_JSET_K \<noteq> BPF_JMP_JEQ_K" "BPF_JMP_JSET_K \<noteq> BPF_RET_K"
  "BPF_RET_K \<noteq> BPF_LD_W_ABS" "BPF_RET_K \<noteq> BPF_JMP_JEQ_K" "BPF_RET_K \<noteq> BPF_JMP_JSET_K"
  by (simp_all add: opcode_defs)

text \<open>The rule block: the first listed number that equals the accumulator decides.\<close>

lemma run_rules:
  "run_filter d (rule_insns m nrs @ [BPF_STMT BPF_RET_K df]) a =
     Some (if a \<in> word_of_int ` set nrs then m else df)"
  by (induction nrs) auto

lemma run_seccomp_prog:
  "run_filter d (seccomp_prog t nrs m df) a =
     Some (if sd_arch d \<noteq> audit_arch t then SECCOMP_RET_KILL_PROCESS
           else if x86_64 t \<and> sd_nr d AND X32_BIT \<noteq> 0 then SECCOMP_RET_KILL_PROCESS
           else if sd_nr d \<in> word_of_int ` set nrs then m else df)"
  by (simp add: seccomp_prog_def x32_insns_def load_abs_def run_rules)

lemma rule_insns_length [simp]: "length (rule_insns m nrs) = 2 * length nrs"
  by (induction nrs) auto

lemma seccomp_prog_length: "length (seccomp_prog t nrs m df) = prog_len t nrs"
  by (simp add: seccomp_prog_def prog_len_def x32_insns_def)

lemma apply_seccomp_filter:
  "apply_seccomp e t c = (r, Some f) \<Longrightarrow>
   (seccomp_allow_mode c \<and> allowed_syscalls c \<noteq> [] \<and>
      f = seccomp_prog t (allowed_syscalls c) SECCOMP_RET_ALLOW (seccomp_deny_action c)) \<or>
   (\<not> seccomp_allow_mode c \<and> blocked_syscalls c \<noteq> [] \<and>
      f = seccomp_prog t (blocked_syscalls c) (seccomp_deny_action c) SECCOMP_RET_ALLOW)"
  by (auto simp: apply_seccomp_def build_seccomp_bpf_def Let_def split: if_splits)

lemma deny_action_cases:
  "seccomp_deny_action c \<in> {SECCOMP_RET_KILL_PROCESS, SECCOMP_RET_LOG, 0x00050001}"
  by (cases "seccomp_default c") (simp_all add: seccomp_deny_action_def action_defs)

section \<open>Properties\<close>

text \<open>
  C3: the program \<^verbatim>\<open>apply_seccomp\<close> installs computes, on every system call, exactly the
  action the policy means (\<^verbatim>\<open>seccomp_verdict\<close>), whatever the accumulator holds at the start;
  in particular it always returns an action.
\<close>

theorem seccomp_filter_implements_policy:
  assumes "apply_seccomp e t c = (r, Some f)"
  shows "run_filter d f a = Some (seccomp_verdict t c d)"
  using apply_seccomp_filter [OF assms]
  by (elim disjE conjE) (simp_all add: run_seccomp_prog seccomp_verdict_def)

definition demo_target :: target where
  "demo_target = \<lparr>nr_of = (\<lambda>n. if n = ''ptrace'' then Some 101 else Some 0), x86_64 = True,
                  audit_arch = 0xC000003E\<rparr>"

definition demo_env :: seccomp_env where
  "demo_env = \<lparr>calloc_ok = (\<lambda>_. True), prctl_seccomp = (\<lambda>_ _. 0)\<rparr>"

theorem seccomp_filter_implements_policy_witness:
  "let c = empty_config\<lparr>blocked_syscalls := [101]\<rparr>;
       f = seccomp_prog demo_target [101] 0x00050001 SECCOMP_RET_ALLOW
   in apply_seccomp demo_env demo_target c = (0, Some f)
      \<and> run_filter \<lparr>sd_nr = 101, sd_arch = 0xC000003E, sd_arg0 = 0\<rparr> f 0 = Some 0x00050001"
proof -
  let ?c = "empty_config\<lparr>blocked_syscalls := [101]\<rparr>"
  let ?f = "seccomp_prog demo_target [101] 0x00050001 SECCOMP_RET_ALLOW"
  have a: "apply_seccomp demo_env demo_target ?c = (0, Some ?f)"
    by (simp add: apply_seccomp_def build_seccomp_bpf_def demo_env_def seccomp_deny_action_def
        empty_config_def action_defs)
  show ?thesis
    using seccomp_filter_implements_policy [OF a, of "\<lparr>sd_nr = 101, sd_arch = 0xC000003E, sd_arg0 = 0\<rparr>" 0] a
    by (simp add: Let_def seccomp_verdict_def demo_target_def X32_BIT_def seccomp_deny_action_def
        empty_config_def action_defs)
qed

text \<open>
  The program never outgrows its buffer or its 16-bit length: for a policy within the array
  bounds it has exactly the number of instructions allocated, at most 1031, which is below
  the kernel's limit of 4096 and is not truncated by the cast to \<^verbatim>\<open>unsigned short\<close>.
\<close>

theorem seccomp_program_fits:
  assumes "cfg_limits c" and "nrs = (if seccomp_allow_mode c then allowed_syscalls c else blocked_syscalls c)"
  shows "length (seccomp_prog t nrs m df) = prog_len t nrs \<and> prog_len t nrs \<le> 1031
    \<and> unat (word_of_nat (length (seccomp_prog t nrs m df)) :: u16) = prog_len t nrs"
proof -
  have "prog_len t nrs \<le> 1031"
    using assms by (auto simp: cfg_limits_def prog_len_def limit_defs split: if_splits)
  then show ?thesis by (simp add: seccomp_prog_length unat_of_nat)
qed

theorem seccomp_program_fits_witness:
  "prog_len demo_target [101] = 9 \<and> prog_len demo_target [101] \<le> 1031"
  using seccomp_program_fits [of "empty_config\<lparr>blocked_syscalls := [101]\<rparr>" "[101]" demo_target 0 0]
  by (simp add: cfg_limits_def limit_defs prog_len_def demo_target_def empty_config_def)

text \<open>
  \<^verbatim>\<open>seccomp-default log\<close> makes the filter permit everything of the native ABI: whatever the
  lists say, no system call of the build's architecture and numbering gets an action other
  than allow or log, and both let the call through.
\<close>

theorem seccomp_log_permits:
  assumes "seccomp_default c = SECCOMP_DEFAULT_LOG"
    and "sd_arch d = audit_arch t" and "sd_nr d AND X32_BIT = 0"
  shows "seccomp_verdict t c d \<in> {SECCOMP_RET_ALLOW, SECCOMP_RET_LOG}"
  using assms by (auto simp: seccomp_verdict_def seccomp_deny_action_def)

theorem seccomp_log_permits_witness:
  "seccomp_verdict demo_target
     (empty_config\<lparr>blocked_syscalls := [101], seccomp_default := SECCOMP_DEFAULT_LOG\<rparr>)
     \<lparr>sd_nr = 101, sd_arch = 0xC000003E, sd_arg0 = 0\<rparr> \<in> {SECCOMP_RET_ALLOW, SECCOMP_RET_LOG}"
  using seccomp_log_permits [of
      "empty_config\<lparr>blocked_syscalls := [101], seccomp_default := SECCOMP_DEFAULT_LOG\<rparr>"
      "\<lparr>sd_nr = 101, sd_arch = 0xC000003E, sd_arg0 = 0\<rparr>" demo_target]
  by (simp add: demo_target_def X32_BIT_def)

text \<open>
  \<^verbatim>\<open>apply_seccomp\<close> fails closed: with an empty allow-list, a failed allocation or a kernel
  that refuses the program it returns -1 and no filter; it returns 0 only with the filter in
  place, or in deny-list mode with nothing to block.
\<close>

theorem apply_seccomp_outcome:
  "case apply_seccomp e t c of
     (r, Some f) \<Rightarrow> r = 0
   | (r, None) \<Rightarrow> (r = - 1 \<or> r = 0) \<and> (r = 0 \<longleftrightarrow> \<not> seccomp_allow_mode c \<and> blocked_syscalls c = [])"
  by (auto simp: apply_seccomp_def build_seccomp_bpf_def Let_def split: option.splits)

end
