(* ===== verification/Env_Sanitize.thy ===== *)
theory Env_Sanitize
  imports Policy_Config
begin

text \<open>
  Environment sanitising (\<^verbatim>\<open>env_name_matches\<close>, \<^verbatim>\<open>sanitize_env\<close> in \<^verbatim>\<open>src/compartment.h\<close>).  The
  environment is the list \<^verbatim>\<open>environ\<close> points at, one string per entry.  The source restarts its
  scan after every \<^verbatim>\<open>unsetenv\<close>, which removes every entry of that name; the loop is kept as it
  is, and its termination and its closed form are proved.
\<close>

section \<open>Definitions\<close>

definition env_name_matches :: "string \<Rightarrow> string \<Rightarrow> bool" where
  "env_name_matches pattern name =
     (if pattern \<noteq> [] \<and> last pattern = CHR ''*'' then has_prefix (butlast pattern) name
      else pattern = name)"

definition entry_name :: "string \<Rightarrow> string" where
  "entry_name e = takeWhile (\<lambda>c. c \<noteq> CHR ''='') e"

definition any_match :: "string list \<Rightarrow> string \<Rightarrow> bool" where
  "any_match pats name = list_ex (\<lambda>p. env_name_matches p name) pats"

text \<open>An entry without \<^verbatim>\<open>=\<close> or with an empty name is skipped.\<close>

definition is_victim :: "string list \<Rightarrow> bool \<Rightarrow> string \<Rightarrow> bool" where
  "is_victim pats keep_on_match e \<longleftrightarrow>
     CHR ''='' \<in> set e \<and> entry_name e \<noteq> [] \<and> any_match pats (entry_name e) \<noteq> keep_on_match"

text \<open>\<^verbatim>\<open>unsetenv\<close>: every entry \<^verbatim>\<open>name=...\<close> goes.\<close>

definition unsetenv :: "string \<Rightarrow> string list \<Rightarrow> string list" where
  "unsetenv name env = filter (\<lambda>e. \<not> has_prefix (name @ ''='') e) env"

lemma entry_name_prefix: "CHR ''='' \<in> set e \<Longrightarrow> has_prefix (entry_name e @ ''='') e"
proof -
  assume "CHR ''='' \<in> set e"
  then have ne: "dropWhile (\<lambda>c. c \<noteq> CHR ''='') e \<noteq> []"
    by (auto simp: dropWhile_eq_Nil_conv)
  then have "hd (dropWhile (\<lambda>c. c \<noteq> CHR ''='') e) = CHR ''=''"
    using hd_dropWhile [OF ne] by simp
  with ne obtain r where "dropWhile (\<lambda>c. c \<noteq> CHR ''='') e = CHR ''='' # r"
    by (cases "dropWhile (\<lambda>c. c \<noteq> CHR ''='') e") auto
  then have "e = entry_name e @ CHR ''='' # r"
    using takeWhile_dropWhile_id [of "\<lambda>c. c \<noteq> CHR ''=''" e] by (simp add: entry_name_def)
  then show ?thesis unfolding has_prefix_iff by (metis append.assoc append_Cons append_Nil)
qed

function sanitize_loop :: "string list \<Rightarrow> bool \<Rightarrow> string list \<Rightarrow> string list" where
  "sanitize_loop pats keep env =
     (case find (is_victim pats keep) env of
        None \<Rightarrow> env
      | Some victim \<Rightarrow> sanitize_loop pats keep (unsetenv (entry_name victim) env))"
  by pat_completeness auto
termination
proof (relation "measure (\<lambda>(pats, keep, env). length env)", goal_cases)
  case 1
  show ?case by simp
next
  case (2 pats keep env victim)
  then have "victim \<in> set env" and "is_victim pats keep victim"
    by (auto simp: find_Some_iff)
  then have "has_prefix (entry_name victim @ ''='') victim"
    by (auto simp: is_victim_def intro: entry_name_prefix)
  with \<open>victim \<in> set env\<close> have "length (unsetenv (entry_name victim) env) < length env"
    by (auto simp: unsetenv_def intro: length_filter_less)
  then show ?case by simp
qed

declare sanitize_loop.simps [simp del]

definition sanitize_env :: "Config \<Rightarrow> string list \<Rightarrow> string list" where
  "sanitize_env c env =
     (if env_allow_mode c then sanitize_loop (map fst (env_allow c)) True env
      else sanitize_loop (map fst (env_deny c)) False env)"

section \<open>Lemmas\<close>

lemma same_name:
  assumes "CHR ''='' \<notin> set n" and "has_prefix (n @ ''='') e"
  shows "entry_name e = n \<and> CHR ''='' \<in> set e"
proof -
  obtain r where "e = n @ CHR ''='' # r" using assms(2) by (auto simp: has_prefix_iff)
  with assms(1) show ?thesis by (auto simp: entry_name_def takeWhile_append takeWhile_eq_all_conv)
qed

lemma entry_name_no_eq: "CHR ''='' \<notin> set (entry_name e)"
  by (auto simp: entry_name_def dest: set_takeWhileD)

text \<open>An entry removed together with a victim has the victim's name, so it is one too.\<close>

lemma unset_victims:
  assumes "is_victim pats keep v" and "has_prefix (entry_name v @ ''='') e"
  shows "is_victim pats keep e"
  using assms same_name [OF entry_name_no_eq assms(2)] by (auto simp: is_victim_def)

lemma sanitize_loop_filter:
  "sanitize_loop pats keep env = filter (\<lambda>e. \<not> is_victim pats keep e) env"
proof (induction pats keep env rule: sanitize_loop.induct)
  case (1 pats keep env)
  show ?case
  proof (cases "find (is_victim pats keep) env")
    case None
    then have "\<forall>e \<in> set env. \<not> is_victim pats keep e" by (auto simp: find_None_iff)
    with None show ?thesis by (simp add: sanitize_loop.simps [of pats keep env])
  next
    case (Some v)
    then have "is_victim pats keep v" by (auto simp: find_Some_iff)
    then have "filter (\<lambda>e. \<not> is_victim pats keep e) (unsetenv (entry_name v) env) =
        filter (\<lambda>e. \<not> is_victim pats keep e) env"
      by (auto simp: unsetenv_def intro!: filter_cong dest: unset_victims)
    with Some 1 [OF Some] show ?thesis by (simp add: sanitize_loop.simps [of pats keep env])
  qed
qed

section \<open>Properties\<close>

text \<open>
  C24: \<^verbatim>\<open>sanitize_env\<close> terminates, and what it leaves is the environment with exactly the
  unwanted entries removed, in order: in allow-list mode the variables that match no pattern,
  in deny-list mode the ones that match a pattern; entries without \<^verbatim>\<open>=\<close> or with an empty name
  stay.
\<close>

theorem sanitize_env_exact:
  "sanitize_env c env =
     filter (\<lambda>e. if CHR ''='' \<in> set e \<and> entry_name e \<noteq> []
       then (if env_allow_mode c then any_match (map fst (env_allow c)) (entry_name e)
             else \<not> any_match (map fst (env_deny c)) (entry_name e))
       else True) env"
  by (auto simp: sanitize_env_def sanitize_loop_filter is_victim_def intro!: filter_cong)

text \<open>
  With \<^verbatim>\<open>LD_*\<close> on the deny-list no variable whose name starts with \<^verbatim>\<open>LD_\<close> survives, whatever
  follows, also when a variable occurs more than once.
\<close>

theorem sanitize_env_prefix_family:
  assumes "\<not> env_allow_mode c" and "(''LD_*'', owned) \<in> set (env_deny c)"
  shows "\<not> (\<exists>e \<in> set (sanitize_env c env). has_prefix ''LD_'' (entry_name e) \<and> CHR ''='' \<in> set e)"
proof -
  have "any_match (map fst (env_deny c)) n" if "has_prefix ''LD_'' n" for n
    using assms(2) that by (force simp: any_match_def list_ex_iff env_name_matches_def)
  moreover have "entry_name e \<noteq> []" if "has_prefix ''LD_'' (entry_name e)" for e
    using that by (auto simp: has_prefix_def)
  ultimately show ?thesis using assms(1)
    by (auto simp: sanitize_env_def sanitize_loop_filter is_victim_def)
qed

theorem sanitize_env_prefix_family_witness:
  "sanitize_env (empty_config\<lparr>env_deny := [(''LD_*'', False)]\<rparr>)
     [''A=1'', ''LD_PRELOAD=x'', ''LD_AUDIT=y'', ''LD_PRELOAD=z''] = [''A=1'']
   \<and> \<not> (\<exists>e \<in> set (sanitize_env (empty_config\<lparr>env_deny := [(''LD_*'', False)]\<rparr>) [''A=1'', ''LD_PRELOAD=x'']).
          has_prefix ''LD_'' (entry_name e) \<and> CHR ''='' \<in> set e)"
proof
  show "sanitize_env (empty_config\<lparr>env_deny := [(''LD_*'', False)]\<rparr>)
     [''A=1'', ''LD_PRELOAD=x'', ''LD_AUDIT=y'', ''LD_PRELOAD=z''] = [''A=1'']"
    by (simp add: sanitize_env_def sanitize_loop_filter empty_config_def is_victim_def entry_name_def
        any_match_def env_name_matches_def has_prefix_def)
  show "\<not> (\<exists>e \<in> set (sanitize_env (empty_config\<lparr>env_deny := [(''LD_*'', False)]\<rparr>) [''A=1'', ''LD_PRELOAD=x'']).
          has_prefix ''LD_'' (entry_name e) \<and> CHR ''='' \<in> set e)"
    by (rule sanitize_env_prefix_family [where owned = False]) (simp_all add: empty_config_def)
qed

end
