(* ===== verification/Landlock_Rules.thy ===== *)
theory Landlock_Rules
  imports Policy_Config "HOL-Library.Sublist"
begin

text \<open>
  The Landlock part of \<^verbatim>\<open>src/compartment.h\<close>: which rights a rule carries
  (\<^verbatim>\<open>landlock_file_rights\<close>, the mode switch of \<^verbatim>\<open>apply_landlock\<close>), how rules are installed
  (\<^verbatim>\<open>landlock_add_path\<close>, \<^verbatim>\<open>landlock_add_port\<close>, \<^verbatim>\<open>apply_landlock\<close>) and the check that refuses a
  policy Landlock cannot express (\<^verbatim>\<open>config_check_additive\<close>).  Access masks are 64-bit words
  with the bit numbers of \<^verbatim>\<open><linux/landlock.h>\<close>.

  The kernel and the file system are the parameter \<^verbatim>\<open>ll_env\<close>: the ABI version, what opening a
  path gives, and whether each Landlock call succeeds.  The value of \<^verbatim>\<open>apply_landlock\<close> is its
  return code with the ruleset that was enforced, if one was.
\<close>

section \<open>Rights\<close>

definition ACCESS_FS_EXECUTE :: u64 where "ACCESS_FS_EXECUTE = 0x1"
definition ACCESS_FS_WRITE_FILE :: u64 where "ACCESS_FS_WRITE_FILE = 0x2"
definition ACCESS_FS_READ_FILE :: u64 where "ACCESS_FS_READ_FILE = 0x4"
definition ACCESS_FS_READ_DIR :: u64 where "ACCESS_FS_READ_DIR = 0x8"
definition ACCESS_FS_REMOVE_DIR :: u64 where "ACCESS_FS_REMOVE_DIR = 0x10"
definition ACCESS_FS_REMOVE_FILE :: u64 where "ACCESS_FS_REMOVE_FILE = 0x20"
definition ACCESS_FS_MAKE_CHAR :: u64 where "ACCESS_FS_MAKE_CHAR = 0x40"
definition ACCESS_FS_MAKE_DIR :: u64 where "ACCESS_FS_MAKE_DIR = 0x80"
definition ACCESS_FS_MAKE_REG :: u64 where "ACCESS_FS_MAKE_REG = 0x100"
definition ACCESS_FS_MAKE_SOCK :: u64 where "ACCESS_FS_MAKE_SOCK = 0x200"
definition ACCESS_FS_MAKE_FIFO :: u64 where "ACCESS_FS_MAKE_FIFO = 0x400"
definition ACCESS_FS_MAKE_BLOCK :: u64 where "ACCESS_FS_MAKE_BLOCK = 0x800"
definition ACCESS_FS_MAKE_SYM :: u64 where "ACCESS_FS_MAKE_SYM = 0x1000"
definition ACCESS_FS_REFER :: u64 where "ACCESS_FS_REFER = 0x2000"
definition ACCESS_FS_TRUNCATE :: u64 where "ACCESS_FS_TRUNCATE = 0x4000"
definition ACCESS_FS_IOCTL_DEV :: u64 where "ACCESS_FS_IOCTL_DEV = 0x8000"
definition ACCESS_NET_BIND_TCP :: u64 where "ACCESS_NET_BIND_TCP = 0x1"
definition ACCESS_NET_CONNECT_TCP :: u64 where "ACCESS_NET_CONNECT_TCP = 0x2"

lemmas access_defs = ACCESS_FS_EXECUTE_def ACCESS_FS_WRITE_FILE_def ACCESS_FS_READ_FILE_def
  ACCESS_FS_READ_DIR_def ACCESS_FS_REMOVE_DIR_def ACCESS_FS_REMOVE_FILE_def ACCESS_FS_MAKE_CHAR_def
  ACCESS_FS_MAKE_DIR_def ACCESS_FS_MAKE_REG_def ACCESS_FS_MAKE_SOCK_def ACCESS_FS_MAKE_FIFO_def
  ACCESS_FS_MAKE_BLOCK_def ACCESS_FS_MAKE_SYM_def ACCESS_FS_REFER_def ACCESS_FS_TRUNCATE_def
  ACCESS_FS_IOCTL_DEV_def ACCESS_NET_BIND_TCP_def ACCESS_NET_CONNECT_TCP_def

definition landlock_file_rights :: "int \<Rightarrow> u64" where
  "landlock_file_rights abi =
     (ACCESS_FS_EXECUTE OR ACCESS_FS_READ_FILE OR ACCESS_FS_WRITE_FILE)
     OR (if abi \<ge> 3 then ACCESS_FS_TRUNCATE else 0)
     OR (if abi \<ge> 5 then ACCESS_FS_IOCTL_DEV else 0)"

definition handled_fs :: "int \<Rightarrow> u64" where
  "handled_fs abi =
     (ACCESS_FS_READ_FILE OR ACCESS_FS_READ_DIR OR ACCESS_FS_WRITE_FILE OR ACCESS_FS_REMOVE_DIR
      OR ACCESS_FS_REMOVE_FILE OR ACCESS_FS_MAKE_CHAR OR ACCESS_FS_MAKE_REG OR ACCESS_FS_MAKE_DIR
      OR ACCESS_FS_MAKE_SYM OR ACCESS_FS_MAKE_BLOCK OR ACCESS_FS_MAKE_SOCK OR ACCESS_FS_MAKE_FIFO
      OR ACCESS_FS_EXECUTE)
     OR (if abi \<ge> 2 then ACCESS_FS_REFER else 0)
     OR (if abi \<ge> 3 then ACCESS_FS_TRUNCATE else 0)
     OR (if abi \<ge> 5 then ACCESS_FS_IOCTL_DEV else 0)"

definition read_access :: u64 where
  "read_access = ACCESS_FS_READ_FILE OR ACCESS_FS_READ_DIR"

definition write_access :: "int \<Rightarrow> u64" where
  "write_access abi =
     (ACCESS_FS_WRITE_FILE OR ACCESS_FS_REMOVE_DIR OR ACCESS_FS_REMOVE_FILE OR ACCESS_FS_MAKE_CHAR
      OR ACCESS_FS_MAKE_REG OR ACCESS_FS_MAKE_DIR OR ACCESS_FS_MAKE_SYM OR ACCESS_FS_MAKE_BLOCK
      OR ACCESS_FS_MAKE_SOCK OR ACCESS_FS_MAKE_FIFO)
     OR (if abi \<ge> 2 then ACCESS_FS_REFER else 0)
     OR (if abi \<ge> 3 then ACCESS_FS_TRUNCATE else 0)
     OR (if abi \<ge> 5 then ACCESS_FS_IOCTL_DEV else 0)"

definition mode_access :: "int \<Rightarrow> PathMode \<Rightarrow> u64" where
  "mode_access abi m =
     (case m of
        PATH_RO \<Rightarrow> read_access OR ACCESS_FS_EXECUTE
      | PATH_RW \<Rightarrow> read_access OR write_access abi
      | PATH_EXEC \<Rightarrow> ACCESS_FS_READ_FILE OR ACCESS_FS_EXECUTE OR ACCESS_FS_READ_DIR
      | PATH_RWX \<Rightarrow> read_access OR write_access abi OR ACCESS_FS_EXECUTE)"

definition wanted_net :: "Config \<Rightarrow> u64" where
  "wanted_net c =
     (if net_default_deny c then ACCESS_NET_BIND_TCP OR ACCESS_NET_CONNECT_TCP else 0)
     OR (if net_bind_ports c \<noteq> [] then ACCESS_NET_BIND_TCP else 0)
     OR (if net_connect_ports c \<noteq> [] then ACCESS_NET_CONNECT_TCP else 0)"

definition handled_net :: "int \<Rightarrow> Config \<Rightarrow> u64" where
  "handled_net abi c = (if wanted_net c \<noteq> 0 \<and> abi < 4 then 0 else wanted_net c)"

section \<open>Environment\<close>

record ll_env =
  ll_abi :: int                                   \<comment> \<open>negative: Landlock is not available\<close>
  ll_open :: "string \<Rightarrow> nat + bool option"        \<comment> \<open>\<^verbatim>\<open>errno\<close>, or whether \<^verbatim>\<open>fstat\<close> shows a directory\<close>
  ll_create :: "u64 \<Rightarrow> u64 \<Rightarrow> nat \<Rightarrow> bool"        \<comment> \<open>handled fs, handled net, attribute size\<close>
  ll_add_path :: "string \<Rightarrow> u64 \<Rightarrow> bool"
  ll_add_port :: "int \<Rightarrow> u64 \<Rightarrow> bool"
  ll_restrict :: bool
  ll_realpath :: "string \<Rightarrow> string option"

record ruleset =
  rs_fs :: u64
  rs_net :: u64
  rs_paths :: "(string \<times> u64) list"
  rs_ports :: "(int \<times> u64) list"

section \<open>Installing rules\<close>

definition landlock_add_path :: "ll_env \<Rightarrow> PathRule \<Rightarrow> u64 \<Rightarrow> u64 \<Rightarrow> int \<times> (string \<times> u64) option" where
  "landlock_add_path e r access file_rights =
     (case ll_open e (pr_path r) of
        Inl errno \<Rightarrow> if errno = ENOENT \<and> pr_optional r then (0, None) else (- 1, None)
      | Inr None \<Rightarrow> (- 1, None)
      | Inr (Some is_dir) \<Rightarrow>
          let a = (if is_dir then access else access AND file_rights)
          in if a = 0 then (- 1, None)
             else if ll_add_path e (pr_path r) a then (1, Some (pr_path r, a))
             else (- 1, None))"

definition landlock_add_port :: "ll_env \<Rightarrow> int \<Rightarrow> u64 \<Rightarrow> int" where
  "landlock_add_port e port access = (if ll_add_port e port access then 0 else - 1)"

fun add_path_rules :: "ll_env \<Rightarrow> PathRule list \<Rightarrow> (string \<times> u64) list option" where
  "add_path_rules e [] = Some []"
| "add_path_rules e (r # rs) =
     (case landlock_add_path e r (mode_access (ll_abi e) (pr_mode r)) (landlock_file_rights (ll_abi e)) of
        (ret, rule) \<Rightarrow>
          if ret < 0 then None
          else map_option (\<lambda>rest. (case rule of None \<Rightarrow> [] | Some x \<Rightarrow> [x]) @ rest) (add_path_rules e rs))"

fun add_port_rules :: "ll_env \<Rightarrow> u64 \<Rightarrow> int list \<Rightarrow> (int \<times> u64) list option" where
  "add_port_rules e access [] = Some []"
| "add_port_rules e access (p # ps) =
     (if landlock_add_port e p access \<noteq> 0 then None
      else map_option (\<lambda>rest. (p, access) # rest) (add_port_rules e access ps))"

definition attr_size :: "u64 \<Rightarrow> nat" where
  "attr_size net = (if net \<noteq> 0 then 16 else 8)"

definition apply_landlock :: "ll_env \<Rightarrow> Config \<Rightarrow> int \<times> ruleset option" where
  "apply_landlock e c =
     (let abi = ll_abi e; fs = handled_fs abi; net = handled_net abi c
      in if abi < 0 then (- 1, None)
         else if paths c = [] then (- 1, None)
         else if \<not> ll_create e fs net (attr_size net) then (- 1, None)
         else case add_path_rules e (paths c) of
           None \<Rightarrow> (- 1, None)
         | Some prules \<Rightarrow>
             (case (if net AND ACCESS_NET_BIND_TCP \<noteq> 0
                    then add_port_rules e ACCESS_NET_BIND_TCP (net_bind_ports c) else Some []) of
                None \<Rightarrow> (- 1, None)
              | Some bind \<Rightarrow>
                  (case (if net AND ACCESS_NET_CONNECT_TCP \<noteq> 0
                         then add_port_rules e ACCESS_NET_CONNECT_TCP (net_connect_ports c) else Some []) of
                     None \<Rightarrow> (- 1, None)
                   | Some conn \<Rightarrow>
                       if \<not> ll_restrict e then (- 1, None)
                       else (0, Some \<lparr>rs_fs = fs, rs_net = net, rs_paths = prules,
                                      rs_ports = bind @ conn\<rparr>))))"

section \<open>The additivity check\<close>

text \<open>\<^verbatim>\<open>realpath\<close>, or the path itself cut to the buffer.\<close>

definition canon :: "ll_env \<Rightarrow> string \<Rightarrow> string" where
  "canon e p = (case ll_realpath e p of Some r \<Rightarrow> r | None \<Rightarrow> take (PATH_MAX - 1) p)"

fun strip_slashes :: "string \<Rightarrow> nat \<Rightarrow> nat" where
  "strip_slashes p (Suc (Suc n)) =
     (if p ! Suc n = CHR ''/'' then strip_slashes p (Suc n) else Suc (Suc n))"
| "strip_slashes p n = n"

definition path_inside :: "string \<Rightarrow> string \<Rightarrow> bool" where
  "path_inside inner outer =
     (let olen = strip_slashes outer (length outer)
      in if take olen inner \<noteq> take olen outer then False
         else if olen = 1 \<and> char_at outer 0 = CHR ''/'' then char_at inner 1 \<noteq> NUL
         else char_at inner olen = CHR ''/'')"

definition is_writable_mode :: "PathMode \<Rightarrow> bool" where
  "is_writable_mode m \<longleftrightarrow> m = PATH_RW \<or> m = PATH_RWX"

definition additive_conflict :: "ll_env \<Rightarrow> PathRule list \<Rightarrow> nat \<Rightarrow> nat \<Rightarrow> bool" where
  "additive_conflict e ps i j \<longleftrightarrow>
     pr_mode (ps ! i) = PATH_RO \<and> i \<noteq> j \<and> is_writable_mode (pr_mode (ps ! j)) \<and>
     path_inside (canon e (pr_path (ps ! i))) (canon e (pr_path (ps ! j)))"

definition config_check_additive :: "ll_env \<Rightarrow> Config \<Rightarrow> int" where
  "config_check_additive e c =
     (if list_ex (\<lambda>i. list_ex (\<lambda>j. additive_conflict e (paths c) i j) [0..<length (paths c)])
           [0..<length (paths c)]
      then - 1 else 0)"

section \<open>Lemmas on rights\<close>

lemma abi_cases:
  obtains "abi < 2" | "abi = 2" | "2 < abi \<and> abi < 5" | "(5::int) \<le> abi"
  by linarith

lemmas rights_defs = mode_access_def read_access_def write_access_def handled_fs_def
  landlock_file_rights_def

lemma mode_access_handled: "mode_access abi m AND NOT (handled_fs abi) = 0"
  by (rule abi_cases [of abi]; cases m; simp add: rights_defs access_defs)

lemma rw_no_execute: "mode_access abi PATH_RW AND ACCESS_FS_EXECUTE = 0"
  by (rule abi_cases [of abi]; simp add: rights_defs access_defs)

lemma ro_no_write: "m = PATH_RO \<or> m = PATH_EXEC \<Longrightarrow> mode_access abi m AND write_access abi = 0"
  by (rule abi_cases [of abi]; elim disjE; simp add: rights_defs access_defs)

lemma file_rights_nonzero: "mode_access abi m AND landlock_file_rights abi \<noteq> 0"
  by (rule abi_cases [of abi]; cases m; simp add: rights_defs access_defs)

lemma mode_access_nonzero: "mode_access abi m \<noteq> 0"
  using file_rights_nonzero [of abi m] by auto

text \<open>A rule narrowed to the file rights keeps no bit it did not have.\<close>

lemma and_mono_zero: "a AND x = 0 \<Longrightarrow> (a AND y) AND (x :: u64) = 0"
proof -
  assume "a AND x = 0"
  moreover have "(a AND y) AND x = (a AND x) AND y" by (simp add: and.assoc and.commute and.left_commute)
  ultimately show ?thesis by simp
qed

section \<open>Lemmas on installation\<close>

text \<open>The rule a path rule stands for, when its path can be opened.\<close>

definition expected_rule :: "ll_env \<Rightarrow> PathRule \<Rightarrow> (string \<times> u64) option" where
  "expected_rule e r =
     (case ll_open e (pr_path r) of
        Inr (Some is_dir) \<Rightarrow>
          Some (pr_path r,
                if is_dir then mode_access (ll_abi e) (pr_mode r)
                else mode_access (ll_abi e) (pr_mode r) AND landlock_file_rights (ll_abi e))
      | _ \<Rightarrow> None)"

lemma landlock_add_path_cases:
  "landlock_add_path e r (mode_access (ll_abi e) (pr_mode r)) (landlock_file_rights (ll_abi e)) = (ret, rule) \<Longrightarrow>
   0 \<le> ret \<Longrightarrow>
   rule = expected_rule e r \<and> (rule = None \<longrightarrow> pr_optional r \<and> ll_open e (pr_path r) = Inl ENOENT)"
  by (auto simp: landlock_add_path_def expected_rule_def Let_def
      split: sum.splits option.splits if_splits)

lemma landlock_add_path_fails:
  "landlock_add_path e r (mode_access (ll_abi e) (pr_mode r)) (landlock_file_rights (ll_abi e)) = (ret, rule) \<Longrightarrow>
   ret < 0 \<longleftrightarrow>
     (case expected_rule e r of
        None \<Rightarrow> \<not> (pr_optional r \<and> ll_open e (pr_path r) = Inl ENOENT)
      | Some (p, a) \<Rightarrow> \<not> ll_add_path e p a)"
  by (auto simp: landlock_add_path_def expected_rule_def Let_def mode_access_nonzero file_rights_nonzero
      split: sum.splits option.splits if_splits)

lemma add_path_rules_Some:
  "add_path_rules e rs = Some prs \<Longrightarrow>
   prs = List.map_filter (expected_rule e) rs \<and>
   (\<forall>r \<in> set rs. expected_rule e r = None \<longrightarrow> pr_optional r \<and> ll_open e (pr_path r) = Inl ENOENT)"
proof (induction rs arbitrary: prs)
  case Nil
  then show ?case by (simp add: map_filter_simps)
next
  case (Cons r rs)
  obtain ret rule where step: "landlock_add_path e r (mode_access (ll_abi e) (pr_mode r))
      (landlock_file_rights (ll_abi e)) = (ret, rule)" by fastforce
  with Cons.prems obtain rest where rest: "add_path_rules e rs = Some rest" "\<not> ret < 0"
    and prs: "prs = (case rule of None \<Rightarrow> [] | Some x \<Rightarrow> [x]) @ rest"
    by (auto split: if_splits)
  from landlock_add_path_cases [OF step] rest(2) Cons.IH [OF rest(1)] show ?case
    by (auto simp: prs map_filter_simps split: option.splits)
qed

lemma add_path_rules_None:
  "add_path_rules e rs = None \<longleftrightarrow>
   (\<exists>r \<in> set rs. case expected_rule e r of
        None \<Rightarrow> \<not> (pr_optional r \<and> ll_open e (pr_path r) = Inl ENOENT)
      | Some (p, a) \<Rightarrow> \<not> ll_add_path e p a)"
proof (induction rs)
  case Nil
  then show ?case by simp
next
  case (Cons r rs)
  obtain ret rule where step: "landlock_add_path e r (mode_access (ll_abi e) (pr_mode r))
      (landlock_file_rights (ll_abi e)) = (ret, rule)" by fastforce
  from landlock_add_path_fails [OF step] Cons.IH show ?case by (auto simp: step)
qed

lemma add_port_rules_Some:
  "add_port_rules e a ps = Some rs \<Longrightarrow> rs = map (\<lambda>p. (p, a)) ps"
  by (induction ps arbitrary: rs) (auto split: if_splits)

lemma apply_landlock_enforced:
  assumes "apply_landlock e c = (r, Some rs)"
  shows "r = 0 \<and> 0 \<le> ll_abi e \<and> paths c \<noteq> [] \<and> rs_fs rs = handled_fs (ll_abi e)
    \<and> rs_net rs = handled_net (ll_abi e) c
    \<and> add_path_rules e (paths c) = Some (rs_paths rs)
    \<and> rs_ports rs =
        (if rs_net rs AND ACCESS_NET_BIND_TCP \<noteq> 0 then map (\<lambda>p. (p, ACCESS_NET_BIND_TCP)) (net_bind_ports c) else [])
        @ (if rs_net rs AND ACCESS_NET_CONNECT_TCP \<noteq> 0 then map (\<lambda>p. (p, ACCESS_NET_CONNECT_TCP)) (net_connect_ports c) else [])"
  using assms
  by (auto simp: apply_landlock_def Let_def dest!: add_port_rules_Some split: if_splits option.splits)

section \<open>Lemmas on paths\<close>

text \<open>A canonical path, from its components.\<close>

definition comp_ok :: "string \<Rightarrow> bool" where
  "comp_ok c \<longleftrightarrow> c \<noteq> [] \<and> CHR ''/'' \<notin> set c \<and> NUL \<notin> set c"

definition slashed :: "string list \<Rightarrow> string" where
  "slashed cs = concat (map (\<lambda>c. CHR ''/'' # c) cs)"

definition render :: "string list \<Rightarrow> string" where
  "render cs = (if cs = [] then ''/'' else slashed cs)"

lemma slashed_simps [simp]:
  "slashed [] = []" "slashed (c # cs) = CHR ''/'' # c @ slashed cs"
  "slashed (cs @ ds) = slashed cs @ slashed ds"
  by (simp_all add: slashed_def)

lemma slashed_hd: "cs \<noteq> [] \<Longrightarrow> \<exists>r. slashed cs = CHR ''/'' # r"
  by (cases cs) auto

lemma component_split:
  assumes "CHR ''/'' \<notin> set c" and "CHR ''/'' \<notin> set d" and "c @ CHR ''/'' # x = d @ CHR ''/'' # y"
  shows "c = d \<and> x = y"
proof -
  have "takeWhile (\<lambda>z. z \<noteq> CHR ''/'') (c @ CHR ''/'' # x) = c"
    and "takeWhile (\<lambda>z. z \<noteq> CHR ''/'') (d @ CHR ''/'' # y) = d"
    using assms(1,2) by (auto simp: takeWhile_append takeWhile_eq_all_conv)
  with assms(3) show ?thesis by simp
qed

lemma slashed_prefix:
  assumes "list_all comp_ok co" and "list_all comp_ok ci" and "slashed ci = slashed co @ CHR ''/'' # r"
  shows "\<exists>ds. ds \<noteq> [] \<and> ci = co @ ds"
  using assms
proof (induction co arbitrary: ci)
  case Nil
  then show ?case by (cases ci) auto
next
  case (Cons c cs)
  from Cons.prems(3) obtain d ds where ci: "ci = d # ds" by (cases ci) auto
  from Cons.prems ci have eq: "d @ slashed ds = c @ slashed cs @ CHR ''/'' # r"
    and ok: "comp_ok c" "comp_ok d" "list_all comp_ok cs" "list_all comp_ok ds" by auto
  obtain x where x: "slashed cs @ CHR ''/'' # r = CHR ''/'' # x"
    using slashed_hd [of cs] by (cases cs) auto
  have "ds \<noteq> []"
  proof
    assume "ds = []"
    with eq have "CHR ''/'' \<in> set d" by simp
    with ok(2) show False by (simp add: comp_ok_def)
  qed
  then obtain y where y: "slashed ds = CHR ''/'' # y" using slashed_hd by blast
  with x eq ok have "d = c \<and> y = x"
    by (intro component_split) (auto simp: comp_ok_def)
  with x y ok Cons.IH [of ds] ci show ?case by auto
qed

lemma slashed_last: "cs \<noteq> [] \<Longrightarrow> list_all comp_ok cs \<Longrightarrow> last (slashed cs) \<noteq> CHR ''/''"
proof (induction cs)
  case (Cons c cs)
  then have "c \<noteq> []" "CHR ''/'' \<notin> set c" by (auto simp: comp_ok_def)
  then have "last c \<noteq> CHR ''/''" by (metis last_in_set)
  with Cons \<open>c \<noteq> []\<close> show ?case
    by (cases "cs = []") (auto simp: last_append dest: slashed_hd)
qed simp

lemma slashed_length: "cs \<noteq> [] \<Longrightarrow> list_all comp_ok cs \<Longrightarrow> 2 \<le> length (slashed cs)"
  by (cases cs) (auto simp: comp_ok_def Suc_le_eq)

lemma strip_slashes_id: "p \<noteq> [] \<Longrightarrow> last p \<noteq> CHR ''/'' \<Longrightarrow> strip_slashes p (length p) = length p"
  by (cases "(p, length p)" rule: strip_slashes.cases) (auto simp: last_conv_nth)

lemma prefix_then_slash:
  "take (length o') i = o' \<and> char_at i (length o') = CHR ''/'' \<longleftrightarrow> (\<exists>r. i = o' @ CHR ''/'' # r)"
proof
  assume a: "take (length o') i = o' \<and> char_at i (length o') = CHR ''/''"
  then have "length o' < length i" by (auto simp: char_at_def split: if_splits)
  with a have "drop (length o') i = CHR ''/'' # drop (Suc (length o')) i"
    by (simp add: char_at_def Cons_nth_drop_Suc [symmetric])
  with a show "\<exists>r. i = o' @ CHR ''/'' # r" by (metis append_take_drop_id)
qed (auto simp: char_at_def nth_append)

lemma path_inside_components:
  assumes "list_all comp_ok ci" and "list_all comp_ok co"
  shows "path_inside (render ci) (render co) \<longleftrightarrow> strict_prefix co ci"
proof (cases "co = []")
  case True
  have "slashed ci ! Suc 0 \<noteq> NUL" if ne: "ci \<noteq> []"
  proof -
    obtain c cs where ci: "ci = c # cs" using ne by (cases ci) auto
    with assms(1) have "c \<noteq> []" "NUL \<notin> set c" by (auto simp: comp_ok_def)
    then have "c ! 0 \<noteq> NUL" using nth_mem [of 0 c] by fastforce
    with \<open>c \<noteq> []\<close> show ?thesis by (simp add: ci nth_append)
  qed
  moreover have "1 < length (slashed ci)" "hd (slashed ci) = CHR ''/''" if "ci \<noteq> []"
    using that slashed_length [OF that assms(1)] by (cases ci; auto)+
  moreover have "take 1 (slashed ci) = ''/''" if "ci \<noteq> []" using that by (cases ci) auto
  ultimately show ?thesis using True
    by (cases "ci = []") (auto simp: path_inside_def render_def char_at_def Let_def strict_prefix_def)
next
  case False
  have len: "strip_slashes (slashed co) (length (slashed co)) = length (slashed co)"
    using slashed_length [OF False assms(2)] slashed_last [OF False assms(2)]
    by (intro strip_slashes_id) auto
  have "length (slashed co) \<noteq> 1" using slashed_length [OF False assms(2)] by simp
  with False len have "path_inside (render ci) (render co) \<longleftrightarrow> (\<exists>r. render ci = slashed co @ CHR ''/'' # r)"
    by (simp add: path_inside_def render_def Let_def prefix_then_slash [symmetric])
  also have "\<dots> \<longleftrightarrow> (\<exists>ds. ds \<noteq> [] \<and> ci = co @ ds)"
  proof
    assume "\<exists>r. render ci = slashed co @ CHR ''/'' # r"
    then obtain r where r: "render ci = slashed co @ CHR ''/'' # r" by blast
    then have "length (render ci) \<ge> 3" using slashed_length [OF False assms(2)] by simp
    then have "ci \<noteq> []" by (auto simp: render_def)
    with r show "\<exists>ds. ds \<noteq> [] \<and> ci = co @ ds"
      using slashed_prefix [OF assms(2,1)] by (simp add: render_def)
  next
    assume "\<exists>ds. ds \<noteq> [] \<and> ci = co @ ds"
    then show "\<exists>r. render ci = slashed co @ CHR ''/'' # r"
      using slashed_hd by (fastforce simp: render_def)
  qed
  also have "\<dots> \<longleftrightarrow> strict_prefix co ci" by (auto simp: strict_prefix_def prefix_def)
  finally show ?thesis .
qed

section \<open>Properties\<close>

text \<open>
  C20: when \<^verbatim>\<open>apply_landlock\<close> enforces a ruleset, the rules in it are, in order, exactly the rules
  of the policy whose path opens, each with the rights of its mode (narrowed to the file
  rights for a non-directory); a rule is missing only if it is optional and its path does not
  exist.  No rule is dropped silently.
\<close>

theorem landlock_rules_complete:
  assumes "apply_landlock e c = (r, Some rs)"
  shows "rs_paths rs = List.map_filter (expected_rule e) (paths c)
    \<and> (\<forall>rule \<in> set (paths c). expected_rule e rule = None \<longrightarrow>
          pr_optional rule \<and> ll_open e (pr_path rule) = Inl ENOENT)"
  using apply_landlock_enforced [OF assms] add_path_rules_Some by blast

definition demo_ll :: ll_env where
  "demo_ll = \<lparr>ll_abi = 4, ll_open = (\<lambda>p. if p = ''/lib32'' then Inl 2 else Inr (Some (p \<noteq> ''/bin/ls''))),
     ll_create = (\<lambda>_ _ _. True), ll_add_path = (\<lambda>_ _. True), ll_add_port = (\<lambda>_ _. True),
     ll_restrict = True, ll_realpath = Some\<rparr>"

definition demo_paths :: Config where
  "demo_paths = empty_config\<lparr>paths := [path_rule PATH_RO True ''/usr'', path_rule PATH_RO True ''/lib32?'',
     path_rule PATH_EXEC True ''/bin/ls'', path_rule PATH_RW True ''/work''], net_connect_ports := [443]\<rparr>"

definition demo_rules :: ruleset where
  "demo_rules = \<lparr>rs_fs = handled_fs 4, rs_net = 2,
     rs_paths = [(''/usr'', 0xD), (''/bin/ls'', 0x5), (''/work'', 0x7FFE)], rs_ports = [(443, 2)]\<rparr>"

lemma demo_applied: "apply_landlock demo_ll demo_paths = (0, Some demo_rules)"
  by (simp add: apply_landlock_def demo_ll_def demo_paths_def demo_rules_def landlock_add_path_def
      path_rule_def trim_optional_def is_optional_path_def ENOENT_def rights_defs access_defs Let_def
      handled_net_def wanted_net_def landlock_add_port_def empty_config_def)

theorem landlock_rules_complete_witness:
  "apply_landlock demo_ll demo_paths = (0, Some demo_rules)
   \<and> rs_paths demo_rules = List.map_filter (expected_rule demo_ll) (paths demo_paths)"
  using landlock_rules_complete [OF demo_applied] demo_applied by simp

text \<open>
  Write-xor-execute and least privilege of the installed rules: every installed rule belongs to a rule of
  the policy for that path; it carries at least one right and only handled rights; a \<^verbatim>\<open>rw\<close> rule
  never carries execute, and a \<^verbatim>\<open>ro\<close> or \<^verbatim>\<open>exec\<close> rule never carries a write right.
\<close>

theorem landlock_rights_confined:
  assumes "apply_landlock e c = (r, Some rs)" and "(p, a) \<in> set (rs_paths rs)"
  shows "\<exists>rule \<in> set (paths c). pr_path rule = p \<and> a \<noteq> 0 \<and> a AND NOT (rs_fs rs) = 0
    \<and> (pr_mode rule = PATH_RW \<longrightarrow> a AND ACCESS_FS_EXECUTE = 0)
    \<and> (pr_mode rule = PATH_RO \<or> pr_mode rule = PATH_EXEC \<longrightarrow> a AND write_access (ll_abi e) = 0)"
proof -
  have fs: "rs_fs rs = handled_fs (ll_abi e)" and "rs_paths rs = List.map_filter (expected_rule e) (paths c)"
    using apply_landlock_enforced [OF assms(1)] add_path_rules_Some by blast+
  with assms(2) obtain rule where rule: "rule \<in> set (paths c)" "expected_rule e rule = Some (p, a)"
    by (auto simp: List.map_filter_def)
  let ?m = "mode_access (ll_abi e) (pr_mode rule)"
  from rule(2) have p: "pr_path rule = p"
    and a: "a = ?m \<or> a = ?m AND landlock_file_rights (ll_abi e)"
    by (auto simp: expected_rule_def split: sum.splits option.splits if_splits)
  have "a AND x = 0" if "?m AND x = 0" for x
    using a and_mono_zero [OF that] that by auto
  then show ?thesis
    using rule(1) p a fs mode_access_nonzero [of "ll_abi e"] file_rights_nonzero [of "ll_abi e"]
      mode_access_handled [of "ll_abi e"] rw_no_execute [of "ll_abi e"] ro_no_write [of "pr_mode rule" "ll_abi e"]
    by (intro bexI [of _ rule]) auto
qed

theorem landlock_rights_confined_witness:
  "(''/work'', 0x7FFE) \<in> set (rs_paths demo_rules)
   \<and> (\<exists>rule \<in> set (paths demo_paths). pr_path rule = ''/work'' \<and> (0x7FFE::u64) \<noteq> 0)"
  using landlock_rights_confined [OF demo_applied, of "''/work''" "0x7FFE"]
  by (auto simp: demo_rules_def)

text \<open>
  \<^verbatim>\<open>apply_landlock\<close> returns 0 exactly with an enforced ruleset and -1 without one, and it
  does enforce one when Landlock is there, the policy has a path, every rule can be installed
  (or is optional and absent) and the kernel accepts the ruleset.
\<close>

theorem apply_landlock_outcome:
  "(case apply_landlock e c of (r, None) \<Rightarrow> r = - 1 | (r, Some rs) \<Rightarrow> r = 0)
   \<and> (0 \<le> ll_abi e \<and> paths c \<noteq> [] \<and> (\<forall>fs net n. ll_create e fs net n) \<and> ll_restrict e
      \<and> (\<forall>p a. ll_add_port e p a) \<and> (\<forall>p a. ll_add_path e p a)
      \<and> (\<forall>rule \<in> set (paths c). expected_rule e rule = None \<longrightarrow>
            pr_optional rule \<and> ll_open e (pr_path rule) = Inl ENOENT)
      \<longrightarrow> fst (apply_landlock e c) = 0)"
proof
  show "case apply_landlock e c of (r, None) \<Rightarrow> r = - 1 | (r, Some rs) \<Rightarrow> r = 0"
    by (auto simp: apply_landlock_def Let_def split: option.splits if_splits)
next
  have ports: "\<exists>rs. add_port_rules e a ps = Some rs" if "\<forall>p a. ll_add_port e p a" for a ps
    using that by (induction ps) (auto simp: landlock_add_port_def)
  show "0 \<le> ll_abi e \<and> paths c \<noteq> [] \<and> (\<forall>fs net n. ll_create e fs net n) \<and> ll_restrict e
      \<and> (\<forall>p a. ll_add_port e p a) \<and> (\<forall>p a. ll_add_path e p a)
      \<and> (\<forall>rule \<in> set (paths c). expected_rule e rule = None \<longrightarrow>
            pr_optional rule \<and> ll_open e (pr_path rule) = Inl ENOENT)
      \<longrightarrow> fst (apply_landlock e c) = 0" (is "?hyps \<longrightarrow> ?ok")
  proof
    assume h: ?hyps
    then have "add_path_rules e (paths c) \<noteq> None"
      unfolding add_path_rules_None by (auto split: option.splits)
    moreover have "\<exists>rs. add_port_rules e a ps = Some rs" for a ps
      by (rule ports) (use h in simp)
    then obtain b n where "add_port_rules e ACCESS_NET_BIND_TCP (net_bind_ports c) = Some b"
      "add_port_rules e ACCESS_NET_CONNECT_TCP (net_connect_ports c) = Some n"
      by meson
    ultimately show ?ok using h by (auto simp: apply_landlock_def Let_def)
  qed
qed

theorem apply_landlock_outcome_witness: "fst (apply_landlock demo_ll demo_paths) = 0"
proof -
  have "\<forall>rule \<in> set (paths demo_paths). expected_rule demo_ll rule = None \<longrightarrow>
      pr_optional rule \<and> ll_open demo_ll (pr_path rule) = Inl ENOENT"
    by (simp add: demo_paths_def demo_ll_def expected_rule_def path_rule_def trim_optional_def
        is_optional_path_def ENOENT_def)
  then show ?thesis using apply_landlock_outcome [of demo_ll demo_paths]
    by (simp add: demo_ll_def demo_paths_def)
qed

text \<open>
  The network rights handled are those the policy names, and only on ABI 4 or later:
  binding is handled exactly when \<^verbatim>\<open>net-default deny\<close> or a \<^verbatim>\<open>net-bind\<close> port is given, connecting
  likewise; and the port rules are the listed ports, each with its own right.
\<close>

theorem landlock_net_policy:
  assumes "apply_landlock e c = (r, Some rs)"
  shows "(rs_net rs AND ACCESS_NET_BIND_TCP \<noteq> 0 \<longleftrightarrow>
            4 \<le> ll_abi e \<and> (net_default_deny c \<or> net_bind_ports c \<noteq> []))
    \<and> (rs_net rs AND ACCESS_NET_CONNECT_TCP \<noteq> 0 \<longleftrightarrow>
            4 \<le> ll_abi e \<and> (net_default_deny c \<or> net_connect_ports c \<noteq> []))
    \<and> set (rs_ports rs) =
        (if 4 \<le> ll_abi e
         then (\<lambda>p. (p, ACCESS_NET_BIND_TCP)) ` set (net_bind_ports c)
              \<union> (\<lambda>p. (p, ACCESS_NET_CONNECT_TCP)) ` set (net_connect_ports c)
         else {})"
  using apply_landlock_enforced [OF assms]
  by (auto simp: handled_net_def wanted_net_def access_defs split: if_splits)

theorem landlock_net_policy_witness:
  "rs_net demo_rules AND ACCESS_NET_BIND_TCP = 0 \<and> set (rs_ports demo_rules) = {(443, 2)}"
  using landlock_net_policy [OF demo_applied]
  by (simp add: demo_ll_def demo_paths_def access_defs empty_config_def)

text \<open>
  C25: on canonical paths \<^verbatim>\<open>config_check_additive\<close> refuses a policy exactly when some \<^verbatim>\<open>ro\<close> rule
  names a strict descendant, component by component, of the path of a \<^verbatim>\<open>rw\<close> or \<^verbatim>\<open>rwx\<close> rule; so
  \<^verbatim>\<open>/a/bc\<close> is not taken to be inside \<^verbatim>\<open>/a/b\<close>, and the root directory contains everything but
  itself.
\<close>

theorem additive_check_exact:
  assumes "\<forall>rule \<in> set (paths c). canon e (pr_path rule) = render (comps rule) \<and> list_all comp_ok (comps rule)"
  shows "config_check_additive e c = - 1 \<longleftrightarrow>
    (\<exists>r \<in> set (paths c). \<exists>w \<in> set (paths c). pr_mode r = PATH_RO \<and> is_writable_mode (pr_mode w)
       \<and> strict_prefix (comps w) (comps r))"
proof -
  have inside: "path_inside (canon e (pr_path r)) (canon e (pr_path w)) \<longleftrightarrow> strict_prefix (comps w) (comps r)"
    if "r \<in> set (paths c)" "w \<in> set (paths c)" for r w
    using assms that by (simp add: path_inside_components)
  have conflict: "additive_conflict e (paths c) i j \<longleftrightarrow>
      pr_mode (paths c ! i) = PATH_RO \<and> is_writable_mode (pr_mode (paths c ! j))
      \<and> strict_prefix (comps (paths c ! j)) (comps (paths c ! i))"
    if "i < length (paths c)" "j < length (paths c)" for i j
    using inside [OF nth_mem nth_mem, OF that] by (auto simp: additive_conflict_def)
  have "config_check_additive e c = - 1 \<longleftrightarrow>
      (\<exists>i < length (paths c). \<exists>j < length (paths c). additive_conflict e (paths c) i j)"
    by (simp add: config_check_additive_def list_ex_iff) (meson atLeastLessThan_iff zero_le)
  also have "\<dots> \<longleftrightarrow> (\<exists>i < length (paths c). \<exists>j < length (paths c).
      pr_mode (paths c ! i) = PATH_RO \<and> is_writable_mode (pr_mode (paths c ! j))
      \<and> strict_prefix (comps (paths c ! j)) (comps (paths c ! i)))"
    using conflict by meson
  finally show ?thesis by (metis in_set_conv_nth)
qed

theorem additive_check_exact_witness:
  "let c = empty_config\<lparr>paths := [path_rule PATH_RW True ''/w'', path_rule PATH_RO True ''/w/s'']\<rparr>
   in config_check_additive demo_ll c = - 1"
proof -
  let ?comps = "\<lambda>r. if pr_path r = ''/w'' then [''w''] else [''w'', ''s'']"
  let ?c = "empty_config\<lparr>paths := [path_rule PATH_RW True ''/w'', path_rule PATH_RO True ''/w/s'']\<rparr>"
  have h: "\<forall>rule \<in> set (paths ?c). canon demo_ll (pr_path rule) = render (?comps rule)
      \<and> list_all comp_ok (?comps rule)"
    by (simp add: canon_def demo_ll_def path_rule_def trim_optional_def is_optional_path_def
        render_def comp_ok_def)
  show ?thesis using additive_check_exact [OF h]
    by (simp add: Let_def path_rule_def trim_optional_def is_optional_path_def is_writable_mode_def)
qed

end
