(* ===== verification/Profile_Source.thy ===== *)
theory Profile_Source
  imports Policy_Config
begin

text \<open>
  Where a profile comes from and how its text becomes directives: the trust checks of
  \<^verbatim>\<open>src/compartment.h\<close> (\<^verbatim>\<open>profile_fd_trusted\<close>, \<^verbatim>\<open>profile_dir_trusted\<close>, \<^verbatim>\<open>profile_fopen_trusted\<close>), the
  sanity check on the home directory, the expansion of \<^verbatim>\<open>$HOME\<close> and \<^verbatim>\<open>$USER\<close>, and the reading
  of lines at the head of the loop of \<^verbatim>\<open>load_profile_into\<close>.

  Files, directories, the environment and the password database are the parameter \<^verbatim>\<open>host\<close>.
  A profile is read in one pass, so an open file is the bytes its reads deliver.
\<close>

section \<open>The host\<close>

definition S_IFMT :: u32 where "S_IFMT = 0xF000"
definition S_IFDIR :: u32 where "S_IFDIR = 0x4000"
definition S_IFREG :: u32 where "S_IFREG = 0x8000"
definition S_IFLNK :: u32 where "S_IFLNK = 0xA000"
definition S_ISVTX :: u32 where "S_ISVTX = 0x200"
definition S_IWGRP :: u32 where "S_IWGRP = 0x10"
definition S_IWOTH :: u32 where "S_IWOTH = 0x2"

lemmas mode_defs = S_IFMT_def S_IFDIR_def S_IFREG_def S_ISVTX_def S_IWGRP_def S_IWOTH_def

record fstat =
  st_mode :: u32
  st_uid :: u32

record pfile =
  pf_stat :: "fstat option"          \<comment> \<open>\<^term>\<open>None\<close>: \<^verbatim>\<open>fstat\<close> fails\<close>
  pf_stream :: bool                  \<comment> \<open>whether \<^verbatim>\<open>fdopen\<close> succeeds\<close>
  pf_data :: string

record host =
  h_target :: target
  h_uid :: u32                                  \<comment> \<open>\<^verbatim>\<open>getuid()\<close>\<close>
  h_HOME :: "string option"                     \<comment> \<open>\<^verbatim>\<open>getenv("HOME")\<close>\<close>
  h_USER :: "string option"
  h_pw_name :: "string option"                  \<comment> \<open>\<^verbatim>\<open>getpwuid(getuid())->pw_name\<close>\<close>
  h_stat :: "string \<Rightarrow> fstat option"
  h_open :: "string \<Rightarrow> nat + pfile"             \<comment> \<open>\<^verbatim>\<open>errno\<close>, or the file\<close>
  h_opendir :: "string \<Rightarrow> fstat option option"  \<comment> \<open>\<^verbatim>\<open>open(.., O_DIRECTORY)\<close>, then \<^verbatim>\<open>fstat\<close>\<close>
  h_realpath :: "string \<Rightarrow> string option"

section \<open>Flags and results\<close>

definition PROFILE_SEARCH_USER :: u32 where "PROFILE_SEARCH_USER = 1"
definition PROFILE_OWNER_ROOT :: u32 where "PROFILE_OWNER_ROOT = 2"
definition PROFILE_TOOL_ROOT :: u32 where "PROFILE_TOOL_ROOT = 4"

lemmas profile_flag_defs = PROFILE_SEARCH_USER_def PROFILE_OWNER_ROOT_def PROFILE_TOOL_ROOT_def

datatype profile_rc = PROFILE_OK | PROFILE_NOT_FOUND | PROFILE_ERROR

section \<open>Home directory and variables\<close>

definition home_dir_usable :: "host \<Rightarrow> string option \<Rightarrow> string option" where
  "home_dir_usable h home =
     (case home of
        None \<Rightarrow> None
      | Some d \<Rightarrow>
          if d = [] then None
          else if hd d \<noteq> CHR ''/'' then None
          else if d = ''/'' then None
          else case h_stat h d of
            None \<Rightarrow> None
          | Some st \<Rightarrow>
              if st_mode st AND S_IFMT \<noteq> S_IFDIR then None
              else if st_uid st \<noteq> h_uid h then None
              else Some d)"

definition user_name :: "host \<Rightarrow> string option" where
  "user_name h =
     (case (case h_USER h of Some u \<Rightarrow> Some u | None \<Rightarrow> h_pw_name h) of
        Some u \<Rightarrow> if u = [] then None else Some u
      | None \<Rightarrow> None)"

text \<open>
  The copying loop of \<^verbatim>\<open>expand_var\<close>, with a buffer of \<^verbatim>\<open>bufsz\<close> bytes of which \<^verbatim>\<open>acc\<close> is
  written.  \<^term>\<open>None\<close> stands for the NULL the function returns.
\<close>

function expand_loop :: "string option \<Rightarrow> string option \<Rightarrow> nat \<Rightarrow> string \<Rightarrow> string \<Rightarrow> string option" where
  "expand_loop home user bufsz acc [] = Some acc"
| "expand_loop home user bufsz acc (c # p) =
     (if length acc \<ge> bufsz - 1 then None
      else if has_prefix ''$HOME'' (c # p) then
        (case home of
           None \<Rightarrow> None
         | Some d \<Rightarrow> if length acc + length d \<ge> bufsz then None
                   else expand_loop home user bufsz (acc @ d) (drop 4 p))
      else if has_prefix ''$USER'' (c # p) then
        (case user of
           None \<Rightarrow> None
         | Some u \<Rightarrow> if length acc + length u \<ge> bufsz then None
                   else expand_loop home user bufsz (acc @ u) (drop 4 p))
      else expand_loop home user bufsz (acc @ [c]) p)"
  by pat_completeness auto
termination by (relation "measure (\<lambda>(_, _, _, _, p). length p)") auto

definition expand_var :: "host \<Rightarrow> string \<Rightarrow> string option" where
  "expand_var h s =
     (if CHR ''$'' \<notin> set s then Some s
      else expand_loop (home_dir_usable h (h_HOME h)) (user_name h) PATH_MAX [] s)"

section \<open>Trust\<close>

definition profile_fd_trusted :: "host \<Rightarrow> u32 \<Rightarrow> u32 \<Rightarrow> fstat option \<Rightarrow> bool" where
  "profile_fd_trusted h flags want_type st =
     (case st of
        None \<Rightarrow> False
      | Some s \<Rightarrow>
          if st_mode s AND S_IFMT \<noteq> want_type then False
          else if st_uid s \<noteq> 0 \<and> (flags AND PROFILE_OWNER_ROOT \<noteq> 0 \<or> st_uid s \<noteq> h_uid h) then False
          else let bad = (if want_type = S_IFDIR \<and> st_mode s AND S_ISVTX \<noteq> 0 then 0
                          else st_mode s AND (S_IWGRP OR S_IWOTH))
               in bad = 0)"

definition dir_of :: "string \<Rightarrow> string" where
  "dir_of path =
     (case last_index (CHR ''/'') path of
        None \<Rightarrow> ''.''
      | Some i \<Rightarrow> if i = 0 then ''/'' else take i path)"

definition profile_dir_trusted :: "host \<Rightarrow> u32 \<Rightarrow> string \<Rightarrow> bool" where
  "profile_dir_trusted h flags path =
     (if length path \<ge> PATH_MAX then False
      else case h_opendir h (dir_of path) of
        None \<Rightarrow> False
      | Some st \<Rightarrow> profile_fd_trusted h flags S_IFDIR st)"

definition profile_fopen_trusted :: "host \<Rightarrow> u32 \<Rightarrow> string \<Rightarrow> profile_rc + string" where
  "profile_fopen_trusted h flags path =
     (case h_open h path of
        Inl errno \<Rightarrow> if errno = ENOENT \<or> errno = ENOTDIR then Inl PROFILE_NOT_FOUND else Inl PROFILE_ERROR
      | Inr f \<Rightarrow>
          if \<not> profile_fd_trusted h flags S_IFREG (pf_stat f) then Inl PROFILE_ERROR
          else if \<not> profile_dir_trusted h flags path then Inl PROFILE_ERROR
          else if (case h_realpath h path of
                     Some r \<Rightarrow> r \<noteq> path \<and> \<not> profile_dir_trusted h flags r
                   | None \<Rightarrow> False) then Inl PROFILE_ERROR
          else if \<not> pf_stream f then Inl PROFILE_ERROR
          else Inr (pf_data f))"

section \<open>Lines\<close>

text \<open>
  One \<^verbatim>\<open>fgets(line, size, fp)\<close>: the bytes stored, and the rest of the file.  It stops after a
  newline or when \<^verbatim>\<open>size - 1\<close> bytes are stored.
\<close>

fun fgets :: "nat \<Rightarrow> string \<Rightarrow> string \<times> string" where
  "fgets (Suc (Suc n)) (c # s) =
     (if c = NL then ([c], s) else let (l, r) = fgets (Suc n) s in (c # l, r))"
| "fgets _ s = ([], s)"

lemma fgets_split: "fgets n s = (l, r) \<Longrightarrow> s = l @ r"
  by (induction n s arbitrary: l r rule: fgets.induct) (auto split: if_splits prod.splits)

lemma fgets_consumes: "1 < n \<Longrightarrow> s \<noteq> [] \<Longrightarrow> fst (fgets n s) \<noteq> []"
  by (cases "(n, s)" rule: fgets.cases) (auto split: prod.splits)

lemma fgets_newline:
  "NL \<notin> set l \<Longrightarrow> length l < n - 1 \<Longrightarrow> fgets n (l @ NL # s) = (l @ [NL], s)"
proof (induction l arbitrary: n)
  case Nil
  then have n: "n = Suc (Suc (n - 2))" by simp
  show ?case by (subst n) simp
next
  case (Cons c l)
  then have n: "n = Suc (Suc (n - 2))" and "c \<noteq> NL" by auto
  moreover from Cons have "fgets (Suc (n - 2)) (l @ NL # s) = (l @ [NL], s)" by simp
  ultimately show ?case by (metis (no_types, lifting) append_Cons case_prod_conv fgets.simps(1))
qed

lemma fgets_full:
  "NL \<notin> set l \<Longrightarrow> length l = n \<Longrightarrow> fgets (Suc n) (l @ s) = (l, s)"
  by (induction l arbitrary: n) auto

text \<open>The end-of-file flag after that call: it is set when the call ran into the end.\<close>

definition feof_after :: "nat \<Rightarrow> string \<Rightarrow> string \<Rightarrow> bool" where
  "feof_after bufsz l r \<longleftrightarrow> r = [] \<and> length l < bufsz - 1 \<and> (l = [] \<or> last l \<noteq> NL)"

function profile_lines :: "string \<Rightarrow> (string \<times> bool) list" where
  "profile_lines s =
     (if s = [] then []
      else let (l, r) = fgets MAX_LINE s in (l, feof_after MAX_LINE l r) # profile_lines r)"
  by pat_completeness auto
termination
proof (relation "measure length")
  fix s l r x y
  assume s: "s \<noteq> []" and xy: "x = fgets MAX_LINE s" "(l, r) = x"
  have "fst (fgets MAX_LINE s) \<noteq> []" by (rule fgets_consumes) (simp_all add: s MAX_LINE_def)
  then have "l \<noteq> []" using xy by (metis fst_conv)
  then show "(r, s) \<in> measure length" using fgets_split [of MAX_LINE s l r] xy by simp
qed simp

declare profile_lines.simps [simp del]

definition strip_newline :: "string \<Rightarrow> string" where
  "strip_newline s = rdropWhile (\<lambda>c. c = NL \<or> c = CR) s"

text \<open>Cut the line at a \<^verbatim>\<open>#\<close> that starts a token; the flag says that the previous byte is blank.\<close>

fun strip_comment :: "bool \<Rightarrow> string \<Rightarrow> string" where
  "strip_comment b [] = []"
| "strip_comment b (c # cs) = (if c = CHR ''#'' \<and> b then [] else c # strip_comment (is_blank c) cs)"

text \<open>\<^verbatim>\<open>sscanf(s, "%63s %1023[^\n]", directive, value)\<close>, or \<^term>\<open>None\<close> when it converts nothing.\<close>

definition scan_directive :: "string \<Rightarrow> (string \<times> string) option" where
  "scan_directive s =
     (let s1 = dropWhile is_space s;
          d = take 63 (takeWhile (\<lambda>c. \<not> is_space c) s1)
      in if d = [] then None
         else Some (d, take 1023 (takeWhile (\<lambda>c. c \<noteq> NL) (dropWhile is_space (drop (length d) s1)))))"

text \<open>
  The head of the loop body, for the bytes of one \<^verbatim>\<open>fgets\<close>: \<^term>\<open>None\<close> for a line that is
  too long or cannot be expanded, \<^term>\<open>Some None\<close> for a line to skip, and else the directive
  with its expanded value.
\<close>

definition read_directive :: "host \<Rightarrow> string \<times> bool \<Rightarrow> (string \<times> string) option option" where
  "read_directive h ln =
     (let line = strip_newline (cstr (fst ln))
      in if 0 < length line \<and> length line \<ge> MAX_LINE - 1 \<and> \<not> snd ln then None
         else let s = dropWhile is_blank (rdropWhile is_blank (strip_comment True line))
              in if s = [] then Some None
                 else case scan_directive s of
                   None \<Rightarrow> Some None
                 | Some (d, value) \<Rightarrow>
                     (case expand_var h value of
                        None \<Rightarrow> None
                      | Some val \<Rightarrow> Some (Some (d, val))))"

end
