(* ===== verification/Profile_Loader.thy ===== *)
theory Profile_Loader
  imports Profile_Source Seccomp_Filter "HOL-Library.Sublist"
begin

text \<open>
  The profile loader of \<^verbatim>\<open>src/compartment.h\<close>: the directives (the body of the loop of
  \<^verbatim>\<open>load_profile_into\<close>), the transaction around a file (\<^verbatim>\<open>load_profile_file\<close>), the search path
  (\<^verbatim>\<open>resolve_and_load_profile\<close>) and \<^verbatim>\<open>inherit\<close>, which recurses into them.  The recursion of the
  source is bounded by \<^verbatim>\<open>MAX_INHERIT_DEPTH\<close>; here it is structural in the number of levels
  left, and \<^verbatim>\<open>load_profile_into_depth\<close> gives the equation of the source back.

  A function of the source returns a code and has changed the record it points to, also when it
  fails, so here it returns both.  Most strings are leaked when they are replaced; the two that are
  freed, \<^verbatim>\<open>workdir\<close> and \<^verbatim>\<open>audit_log_dir\<close>, have their addresses in the record, and what a rejected load
  did to the heap is not undone.  Diagnostics are not modelled.
\<close>

section \<open>Which tool owns which directive\<close>

definition directive_is_root_only :: "string \<Rightarrow> bool" where
  "directive_is_root_only d \<longleftrightarrow>
     d \<in> set [''rootdir'', ''uid'', ''gid'', ''username'', ''netns'', ''cgroup'', ''cap-allow'',
              ''loopback'', ''uid-map'', ''gid-map'', ''mount-mask'', ''rootdir-flags'']
     \<or> has_prefix ''mount-'' d"

definition directive_is_user_only :: "string \<Rightarrow> bool" where
  "directive_is_user_only d \<longleftrightarrow> d \<in> set [''workdir'', ''cap-drop'', ''cap-bounding'', ''mask'']"

section \<open>Directives\<close>

text \<open>\<^verbatim>\<open>uid\<close> and \<^verbatim>\<open>gid\<close>: \<^verbatim>\<open>strtoul\<close> with its checks.\<close>

definition parse_id :: "string \<Rightarrow> u32 option" where
  "parse_id val =
     (let (v, endptr, erange) = strtoul 10 val
      in if erange \<or> endptr = val \<or> endptr \<noteq> [] \<or> v > 2 ^ 32 - 1 then None
         else Some (word_of_int v))"

text \<open>One \<^verbatim>\<open>%llu\<close> of \<^verbatim>\<open>sscanf\<close>: the value and the rest of the input.\<close>

definition scanf_llu :: "string \<Rightarrow> (int \<times> string) option" where
  "scanf_llu s =
     (case scan_int 10 s of
        None \<Rightarrow> None
      | Some _ \<Rightarrow> (let (v, rest, _) = strtoul 10 s in Some (v, rest)))"

definition UID_LIMIT :: int where "UID_LIMIT = 2 ^ 32"

definition parse_id_map :: "string \<Rightarrow> (int \<times> int \<times> int) option" where
  "parse_id_map val =
     (case scanf_llu val of
        None \<Rightarrow> None
      | Some (inside, r1) \<Rightarrow>
          (case scanf_llu r1 of
             None \<Rightarrow> None
           | Some (outside, r2) \<Rightarrow>
               (case scanf_llu r2 of
                  None \<Rightarrow> None
                | Some (count, r3) \<Rightarrow>
                    if dropWhile is_space r3 \<noteq> [] \<or> count = 0 \<or>
                       inside \<ge> UID_LIMIT \<or> outside \<ge> UID_LIMIT \<or> count > UID_LIMIT \<or>
                       inside + count > UID_LIMIT \<or> outside + count > UID_LIMIT then None
                    else Some (inside, outside, count))))"

definition show_id_map :: "int \<times> int \<times> int \<Rightarrow> string" where
  "show_id_map mp =
     (case mp of (inside, outside, count) \<Rightarrow>
        show_nat (nat inside) @ '' '' @ show_nat (nat outside) @ '' '' @ show_nat (nat count) @ [NL])"

text \<open>
  The chain of directives, in the order of the source, cut into four parts.  \<^term>\<open>None\<close> is
  a line that rejects the profile.
\<close>

definition directive_root :: "string \<Rightarrow> string \<Rightarrow> Config \<Rightarrow> Config option" where
  "directive_root d val c =
     (if d = ''rootdir'' then Some (c\<lparr>rootdir := Some val\<rparr>)
      else if d = ''uid'' then map_option (\<lambda>v. c\<lparr>cfg_uid := v\<rparr>) (parse_id val)
      else if d = ''gid'' then map_option (\<lambda>v. c\<lparr>cfg_gid := v\<rparr>) (parse_id val)
      else if d = ''username'' then Some (c\<lparr>username := Some val\<rparr>)
      else if d = ''netns'' then Some (c\<lparr>netns := Some val\<rparr>)
      else if d = ''cgroup'' then
        map_option (\<lambda>l. c\<lparr>cgroups := l\<rparr>) (cfg_add_str MAX_PATHS val (cgroups c))
      else if d = ''cap-allow'' then
        map_option (\<lambda>l. c\<lparr>cap_allowed_names := l\<rparr>) (cfg_add_str MAX_ENV_VARS val (cap_allowed_names c))
      else if d = ''loopback'' then map_option (\<lambda>b. c\<lparr>loopback := b\<rparr>) (parse_bool val)
      else if d = ''uid-map'' \<or> d = ''gid-map'' then
        (case parse_id_map val of
           None \<Rightarrow> None
         | Some mp \<Rightarrow> if hd d = CHR ''u'' then Some (c\<lparr>uid_map := Some (show_id_map mp)\<rparr>)
                     else Some (c\<lparr>gid_map := Some (show_id_map mp)\<rparr>))
      else if d = ''mount-mask'' then
        map_option (\<lambda>l. c\<lparr>mount_masks := l\<rparr>) (cfg_add_str MAX_PATHS val (mount_masks c))
      else if d = ''rootdir-flags'' then
        map_option (\<lambda>f. c\<lparr>rootdir_flags := rootdir_flags c OR f\<rparr>) (parse_mount_flag_list val)
      else if has_prefix ''mount-'' d \<and> mount_flag_for_directive (drop 6 d) \<noteq> 0 then
        cfg_add_mount_flag val (mount_flag_for_directive (drop 6 d)) c
      else None)"

text \<open>An addition that may be refused: the code and the record.\<close>

definition applied :: "Config \<Rightarrow> Config option \<Rightarrow> profile_rc \<times> Config" where
  "applied c r = (case r of None \<Rightarrow> (PROFILE_ERROR, c) | Some c' \<Rightarrow> (PROFILE_OK, c'))"

lemma applied_simps [simp]: "applied c None = (PROFILE_ERROR, c)" "applied c (Some c') = (PROFILE_OK, c')"
  by (simp_all add: applied_def)

definition directive_inherit_caps ::
  "(string \<Rightarrow> Config \<Rightarrow> profile_rc \<times> Config) \<Rightarrow> string \<Rightarrow> string \<Rightarrow> Config \<Rightarrow> profile_rc \<times> Config" where
  "directive_inherit_caps inh d val c =
     (if d = ''inherit'' then inh val c
      else if d = ''cap-drop'' \<or> d = ''cap-bounding'' then
        (if resolve_cap val < 0 then (PROFILE_ERROR, c)
         else applied c (map_option (\<lambda>l. c\<lparr>cap_drop_names := l\<rparr>)
                (cfg_add_str MAX_ENV_VARS val (cap_drop_names c))))
      else if d = ''mask'' then applied c (cfg_add_mask val c)
      else applied c (directive_root d val c))"

definition directive_env_switches ::
  "(string \<Rightarrow> Config \<Rightarrow> profile_rc \<times> Config) \<Rightarrow> string \<Rightarrow> string \<Rightarrow> Config \<Rightarrow> profile_rc \<times> Config" where
  "directive_env_switches inh d val c =
     (if d = ''env-deny'' then applied c (cfg_add_env_deny True val c)
      else if d = ''env-allow'' then applied c (cfg_add_env_allow True val c)
      else if d = ''env-mode'' then
        (if val = ''allow'' \<or> val = ''allowlist'' then (PROFILE_OK, c\<lparr>env_allow_mode := True\<rparr>)
         else if val = ''deny'' \<or> val = ''denylist'' then (PROFILE_OK, c\<lparr>env_allow_mode := False\<rparr>)
         else (PROFILE_ERROR, c))
      else if d = ''workdir'' then (PROFILE_OK, replace_workdir val c)
      else if d = ''landlock'' then applied c (map_option (\<lambda>b. c\<lparr>use_landlock := b\<rparr>) (profile_switch val))
      else if d = ''seccomp'' then applied c (map_option (\<lambda>b. c\<lparr>use_seccomp := b\<rparr>) (profile_switch val))
      else if d = ''no-new-privs'' then
        applied c (map_option (\<lambda>b. c\<lparr>use_no_new_privs := b\<rparr>) (profile_switch val))
      else if d = ''env-sanitize'' then
        applied c (map_option (\<lambda>b. c\<lparr>use_env_sanitize := b\<rparr>) (profile_switch val))
      else if d = ''audit'' then applied c (map_option (\<lambda>b. c\<lparr>audit := b\<rparr>) (parse_bool val))
      else if d = ''audit-log'' then (PROFILE_OK, replace_audit_log val c)
      else directive_inherit_caps inh d val c)"

definition apply_directive ::
  "target \<Rightarrow> (string \<Rightarrow> Config \<Rightarrow> profile_rc \<times> Config) \<Rightarrow> string \<Rightarrow> string \<Rightarrow> Config \<Rightarrow> profile_rc \<times> Config" where
  "apply_directive t inh d val c =
     (if d = ''ro'' then applied c (cfg_add_path val PATH_RO True c)
      else if d = ''rw'' then applied c (cfg_add_path val PATH_RW True c)
      else if d = ''exec'' then applied c (cfg_add_path val PATH_EXEC True c)
      else if d = ''rwx'' then applied c (cfg_add_path val PATH_RWX True c)
      else if d = ''block'' then
        (let nr = resolve_syscall t val in if nr \<ge> 0 then applied c (cfg_add_blocked nr c) else (PROFILE_OK, c))
      else if d = ''allow'' then
        (let nr = resolve_syscall t val in if nr \<ge> 0 then applied c (cfg_add_allowed nr c) else (PROFILE_OK, c))
      else if d = ''net-bind'' then
        applied c (map_option (\<lambda>ps. c\<lparr>net_bind_ports := ps\<rparr>) (cfg_add_net_port val (net_bind_ports c)))
      else if d = ''net-connect'' then
        applied c (map_option (\<lambda>ps. c\<lparr>net_connect_ports := ps\<rparr>) (cfg_add_net_port val (net_connect_ports c)))
      else if d = ''net-default'' then
        (if val = ''deny'' then (PROFILE_OK, c\<lparr>net_default_deny := True\<rparr>)
         else if val = ''ignore'' then (if net_default_deny c then (PROFILE_ERROR, c) else (PROFILE_OK, c))
         else (PROFILE_ERROR, c))
      else if d = ''seccomp-default'' then
        (if val = ''errno'' then (PROFILE_OK, c\<lparr>seccomp_default := SECCOMP_DEFAULT_ERRNO\<rparr>)
         else if val = ''kill'' then (PROFILE_OK, c\<lparr>seccomp_default := SECCOMP_DEFAULT_KILL\<rparr>)
         else if val = ''log'' then (PROFILE_OK, c\<lparr>seccomp_default := SECCOMP_DEFAULT_LOG\<rparr>)
         else (PROFILE_ERROR, c))
      else if d = ''seccomp-mode'' then
        (if val = ''allow'' \<or> val = ''allowlist'' then (PROFILE_OK, c\<lparr>seccomp_allow_mode := True\<rparr>)
         else if val = ''deny'' \<or> val = ''denylist'' then (PROFILE_OK, c\<lparr>seccomp_allow_mode := False\<rparr>)
         else (PROFILE_ERROR, c))
      else directive_env_switches inh d val c)"

section \<open>Files\<close>

text \<open>One turn of the loop of \<^verbatim>\<open>load_profile_into\<close>.\<close>

definition process_line ::
  "host \<Rightarrow> u32 \<Rightarrow> (string \<Rightarrow> Config \<Rightarrow> profile_rc \<times> Config) \<Rightarrow> string \<times> bool \<Rightarrow> Config \<Rightarrow> profile_rc \<times> Config" where
  "process_line h flags inh ln c =
     (case read_directive h ln of
        None \<Rightarrow> (PROFILE_ERROR, c)
      | Some None \<Rightarrow> (PROFILE_OK, c)
      | Some (Some (d, val)) \<Rightarrow>
          let is_root_tool = (flags AND PROFILE_TOOL_ROOT \<noteq> 0)
          in if \<not> is_root_tool \<and> directive_is_root_only d then (PROFILE_OK, c)
             else if is_root_tool \<and> directive_is_user_only d then (PROFILE_OK, c)
             else apply_directive (h_target h) inh d val c)"

text \<open>A rejected profile leaves the lines before the bad one applied to the scratch policy.\<close>

fun process_lines ::
  "host \<Rightarrow> u32 \<Rightarrow> (string \<Rightarrow> Config \<Rightarrow> profile_rc \<times> Config) \<Rightarrow> (string \<times> bool) list \<Rightarrow> Config \<Rightarrow> profile_rc \<times> Config" where
  "process_lines h flags inh [] c = (PROFILE_OK, c)"
| "process_lines h flags inh (ln # lns) c =
     (case process_line h flags inh ln c of
        (rc, c') \<Rightarrow> if rc \<noteq> PROFILE_OK then (PROFILE_ERROR, c') else process_lines h flags inh lns c')"

definition parse_profile ::
  "host \<Rightarrow> (string \<Rightarrow> Config \<Rightarrow> profile_rc \<times> Config) \<Rightarrow> u32 \<Rightarrow> string \<Rightarrow> Config \<Rightarrow> profile_rc \<times> Config" where
  "parse_profile h inh flags path c =
     (case profile_fopen_trusted h flags path of
        Inl orc \<Rightarrow> (orc, c)
      | Inr data \<Rightarrow> process_lines h flags inh (profile_lines data) c)"

text \<open>The bodies of the mutually recursive functions, over the \<^verbatim>\<open>load_profile_into\<close> they call.\<close>

type_synonym loader = "u32 \<Rightarrow> string \<Rightarrow> Config \<Rightarrow> profile_rc \<times> Config"

text \<open>
  The scratch record is a copy of the caller's that shares its strings.  When it is dropped the
  caller has its own record back, over the heap as the load left it.
\<close>

definition load_file_with :: "loader \<Rightarrow> loader" where
  "load_file_with into flags path c =
     (let (rc, tmp) = into flags path c
      in if rc = PROFILE_OK then (rc, tmp) else (rc, c\<lparr>cfg_mem := cfg_mem tmp\<rparr>))"

definition set_source :: "string \<Rightarrow> profile_rc \<times> Config \<Rightarrow> profile_rc \<times> Config" where
  "set_source path res =
     (case res of (r, c) \<Rightarrow> if r = PROFILE_OK then (r, c\<lparr>profile_source := Some path\<rparr>) else (r, c))"

definition resolve_user_with :: "host \<Rightarrow> loader \<Rightarrow> loader" where
  "resolve_user_with h into flags name c =
     (if flags AND PROFILE_SEARCH_USER = 0 then (PROFILE_NOT_FOUND, c)
      else case h_HOME h of
        None \<Rightarrow> (PROFILE_NOT_FOUND, c)
      | Some home \<Rightarrow>
          if home = [] \<or> hd home \<noteq> CHR ''/'' then (PROFILE_NOT_FOUND, c)
          else let path = home @ ''/.config/compartment/'' @ name @ ''.conf''
               in if length path < PATH_MAX then set_source path (load_file_with into flags path c)
                  else (PROFILE_NOT_FOUND, c))"

definition resolve_with :: "host \<Rightarrow> loader \<Rightarrow> loader" where
  "resolve_with h into flags name c =
     (if CHR ''/'' \<in> set name then set_source name (load_file_with into flags name c)
      else let path = ''/etc/compartment/'' @ name @ ''.conf'';
               etc = (if length path < PATH_MAX
                      then set_source path (load_file_with into (flags AND NOT PROFILE_SEARCH_USER) path c)
                      else (PROFILE_NOT_FOUND, c))
           in if fst etc \<noteq> PROFILE_NOT_FOUND then etc
              else resolve_user_with h into flags name (snd etc))"

definition inherit_sibling :: "string \<Rightarrow> string \<Rightarrow> string option" where
  "inherit_sibling path val =
     (if CHR ''/'' \<in> set val then None
      else let dir_copy = take (PATH_MAX - 1) path
           in case last_index (CHR ''/'') dir_copy of
                None \<Rightarrow> None
              | Some i \<Rightarrow> let sibling = take i dir_copy @ ''/'' @ val @ ''.conf''
                         in if length sibling < PATH_MAX then Some sibling else None)"

definition inherit_with :: "host \<Rightarrow> loader \<Rightarrow> u32 \<Rightarrow> string \<Rightarrow> string \<Rightarrow> Config \<Rightarrow> profile_rc \<times> Config" where
  "inherit_with h into flags path val c =
     (let first = (case inherit_sibling path val of
                     None \<Rightarrow> (PROFILE_NOT_FOUND, c)
                   | Some sibling \<Rightarrow> load_file_with into flags sibling c);
          found = (if fst first = PROFILE_NOT_FOUND then resolve_with h into flags val (snd first) else first)
      in if fst found = PROFILE_OK then found else (PROFILE_ERROR, snd found))"

text \<open>The argument is the number of levels of \<^verbatim>\<open>inherit\<close> still allowed.\<close>

primrec load_into_levels :: "nat \<Rightarrow> host \<Rightarrow> loader" where
  "load_into_levels 0 h = (\<lambda>flags path c. parse_profile h (\<lambda>val c. (PROFILE_ERROR, c)) flags path c)"
| "load_into_levels (Suc n) h =
     (\<lambda>flags path c. parse_profile h (inherit_with h (load_into_levels n h) flags path) flags path c)"

definition load_profile_into :: "host \<Rightarrow> nat \<Rightarrow> loader" where
  "load_profile_into h depth = load_into_levels (MAX_INHERIT_DEPTH - depth) h"

definition load_profile_file :: "host \<Rightarrow> nat \<Rightarrow> loader" where
  "load_profile_file h depth = load_file_with (load_profile_into h depth)"

definition resolve_and_load_profile :: "host \<Rightarrow> nat \<Rightarrow> loader" where
  "resolve_and_load_profile h depth = resolve_with h (load_profile_into h depth)"

text \<open>The recursion the source writes.\<close>

lemma load_profile_into_depth:
  "load_profile_into h depth flags path c =
     parse_profile h
       (\<lambda>val c. if depth \<ge> MAX_INHERIT_DEPTH then (PROFILE_ERROR, c)
                else inherit_with h (load_profile_into h (depth + 1)) flags path val c)
       flags path c"
proof (cases "MAX_INHERIT_DEPTH - depth")
  case 0
  then show ?thesis by (simp add: load_profile_into_def)
next
  case (Suc n)
  then have "MAX_INHERIT_DEPTH - (depth + 1) = n" "\<not> depth \<ge> MAX_INHERIT_DEPTH" by simp_all
  with Suc show ?thesis by (simp add: load_profile_into_def)
qed

section \<open>A profile that is not found changes nothing\<close>

definition not_found_clean :: "loader \<Rightarrow> bool" where
  "not_found_clean into \<longleftrightarrow> (\<forall>flags path c. fst (into flags path c) = PROFILE_NOT_FOUND \<longrightarrow> snd (into flags path c) = c)"

lemma not_found_cleanD: "not_found_clean into \<Longrightarrow> fst (into flags path c) = PROFILE_NOT_FOUND \<Longrightarrow> snd (into flags path c) = c"
  by (simp add: not_found_clean_def)

lemma process_lines_rc: "fst (process_lines h flags inh lns c) = PROFILE_OK \<or>
   fst (process_lines h flags inh lns c) = PROFILE_ERROR"
  by (induction lns arbitrary: c) (auto split: prod.splits)

lemma parse_profile_not_found:
  "fst (parse_profile h inh flags path c) = PROFILE_NOT_FOUND \<Longrightarrow> snd (parse_profile h inh flags path c) = c"
  using process_lines_rc [of h flags inh "profile_lines (projr (profile_fopen_trusted h flags path))" c]
  by (auto simp: parse_profile_def split: sum.splits)

lemma load_into_levels_clean: "not_found_clean (load_into_levels n h)"
  by (cases n) (auto simp: not_found_clean_def intro: parse_profile_not_found)

lemma load_file_with_not_found:
  "not_found_clean into \<Longrightarrow> fst (load_file_with into flags path c) = PROFILE_NOT_FOUND \<Longrightarrow>
   snd (load_file_with into flags path c) = c"
  by (simp add: load_file_with_def case_prod_beta not_found_cleanD split: if_splits)

lemma set_source_fst [simp]: "fst (set_source p res) = fst res"
  by (simp add: set_source_def case_prod_beta)

lemma set_source_rollback: "fst res \<noteq> PROFILE_OK \<Longrightarrow> set_source p res = res"
  by (simp add: set_source_def case_prod_beta)

lemma sourced_file_not_found:
  "not_found_clean into \<Longrightarrow> fst (load_file_with into flags path c) = PROFILE_NOT_FOUND \<Longrightarrow>
   snd (set_source p (load_file_with into flags path c)) = c"
  by (simp add: set_source_rollback load_file_with_not_found)

lemma resolve_user_with_not_found:
  "not_found_clean into \<Longrightarrow> fst (resolve_user_with h into flags name c) = PROFILE_NOT_FOUND \<Longrightarrow>
   snd (resolve_user_with h into flags name c) = c"
  by (auto simp: resolve_user_with_def Let_def sourced_file_not_found split: option.splits if_splits)

text \<open>So the lookup in the home directory starts from the policy the caller gave.\<close>

lemma resolve_with_clean:
  "not_found_clean into \<Longrightarrow>
   resolve_with h into flags name c =
     (if CHR ''/'' \<in> set name then set_source name (load_file_with into flags name c)
      else let path = ''/etc/compartment/'' @ name @ ''.conf'';
               etc = (if length path < PATH_MAX
                      then set_source path (load_file_with into (flags AND NOT PROFILE_SEARCH_USER) path c)
                      else (PROFILE_NOT_FOUND, c))
           in if fst etc \<noteq> PROFILE_NOT_FOUND then etc else resolve_user_with h into flags name c)"
  by (simp add: resolve_with_def Let_def sourced_file_not_found)

lemma resolve_with_not_found:
  "not_found_clean into \<Longrightarrow> fst (resolve_with h into flags name c) = PROFILE_NOT_FOUND \<Longrightarrow>
   snd (resolve_with h into flags name c) = c"
  by (simp add: resolve_with_clean Let_def sourced_file_not_found resolve_user_with_not_found split: if_splits)

lemma inherit_with_clean:
  "not_found_clean into \<Longrightarrow>
   inherit_with h into flags path val c =
     (let first = (case inherit_sibling path val of
                     None \<Rightarrow> (PROFILE_NOT_FOUND, c)
                   | Some sibling \<Rightarrow> load_file_with into flags sibling c);
          found = (if fst first = PROFILE_NOT_FOUND then resolve_with h into flags val c else first)
      in if fst found = PROFILE_OK then found else (PROFILE_ERROR, snd found))"
  by (simp add: inherit_with_def Let_def load_file_with_not_found split: option.split)

section \<open>The edits a directive can make\<close>

inductive cfg_edit :: "Config \<Rightarrow> Config \<Rightarrow> bool" where
  edit_none: "cfg_edit c c"
| edit_path: "cfg_add_path p m True c = Some c' \<Longrightarrow> cfg_edit c c'"
| edit_blocked: "cfg_add_blocked nr c = Some c' \<Longrightarrow> cfg_edit c c'"
| edit_allowed: "cfg_add_allowed nr c = Some c' \<Longrightarrow> cfg_edit c c'"
| edit_env_deny: "cfg_add_env_deny True v c = Some c' \<Longrightarrow> cfg_edit c c'"
| edit_env_allow: "cfg_add_env_allow True v c = Some c' \<Longrightarrow> cfg_edit c c'"
| edit_mask: "cfg_add_mask v c = Some c' \<Longrightarrow> cfg_edit c c'"
| edit_mount_flag: "cfg_add_mount_flag v f c = Some c' \<Longrightarrow> cfg_edit c c'"
| edit_bind: "cfg_add_net_port v (net_bind_ports c) = Some l \<Longrightarrow> cfg_edit c (c\<lparr>net_bind_ports := l\<rparr>)"
| edit_connect: "cfg_add_net_port v (net_connect_ports c) = Some l \<Longrightarrow> cfg_edit c (c\<lparr>net_connect_ports := l\<rparr>)"
| edit_cap_drop: "cfg_add_str MAX_ENV_VARS v (cap_drop_names c) = Some l \<Longrightarrow> cfg_edit c (c\<lparr>cap_drop_names := l\<rparr>)"
| edit_cap_allow: "cfg_add_str MAX_ENV_VARS v (cap_allowed_names c) = Some l \<Longrightarrow> cfg_edit c (c\<lparr>cap_allowed_names := l\<rparr>)"
| edit_cgroup: "cfg_add_str MAX_PATHS v (cgroups c) = Some l \<Longrightarrow> cfg_edit c (c\<lparr>cgroups := l\<rparr>)"
| edit_mount_mask: "cfg_add_str MAX_PATHS v (mount_masks c) = Some l \<Longrightarrow> cfg_edit c (c\<lparr>mount_masks := l\<rparr>)"
| edit_net_deny: "cfg_edit c (c\<lparr>net_default_deny := True\<rparr>)"
| edit_landlock: "cfg_edit c (c\<lparr>use_landlock := True\<rparr>)"
| edit_seccomp: "cfg_edit c (c\<lparr>use_seccomp := True\<rparr>)"
| edit_no_new_privs: "cfg_edit c (c\<lparr>use_no_new_privs := True\<rparr>)"
| edit_env_sanitize: "cfg_edit c (c\<lparr>use_env_sanitize := True\<rparr>)"
| edit_seccomp_default: "cfg_edit c (c\<lparr>seccomp_default := a\<rparr>)"
| edit_seccomp_mode: "cfg_edit c (c\<lparr>seccomp_allow_mode := b\<rparr>)"
| edit_env_mode: "cfg_edit c (c\<lparr>env_allow_mode := b\<rparr>)"
| edit_workdir: "cfg_edit c (replace_workdir v c)"
| edit_audit: "cfg_edit c (c\<lparr>audit := b\<rparr>)"
| edit_audit_log: "cfg_edit c (replace_audit_log v c)"
| edit_rootdir: "cfg_edit c (c\<lparr>rootdir := w\<rparr>)"
| edit_uid: "cfg_edit c (c\<lparr>cfg_uid := u\<rparr>)"
| edit_gid: "cfg_edit c (c\<lparr>cfg_gid := u\<rparr>)"
| edit_username: "cfg_edit c (c\<lparr>username := w\<rparr>)"
| edit_netns: "cfg_edit c (c\<lparr>netns := w\<rparr>)"
| edit_loopback: "cfg_edit c (c\<lparr>loopback := b\<rparr>)"
| edit_uid_map: "parse_id_map v = Some mp \<Longrightarrow> cfg_edit c (c\<lparr>uid_map := Some (show_id_map mp)\<rparr>)"
| edit_gid_map: "parse_id_map v = Some mp \<Longrightarrow> cfg_edit c (c\<lparr>gid_map := Some (show_id_map mp)\<rparr>)"
| edit_rootdir_flags: "parse_mount_flag_list v = Some f \<Longrightarrow> cfg_edit c (c\<lparr>rootdir_flags := rootdir_flags c OR f\<rparr>)"

lemma profile_switch_on: "profile_switch val = Some b \<Longrightarrow> b"
  by (auto simp: profile_switch_def split: option.splits if_splits)

lemmas edit_adds = edit_path edit_blocked edit_allowed edit_env_deny edit_env_allow edit_mask
  edit_mount_flag edit_bind edit_connect edit_cap_drop edit_cap_allow edit_cgroup edit_mount_mask

lemmas edit_sets = edit_none edit_net_deny edit_landlock edit_seccomp edit_no_new_privs
  edit_env_sanitize edit_seccomp_default edit_seccomp_mode edit_env_mode edit_workdir edit_audit
  edit_audit_log edit_rootdir edit_uid edit_gid edit_username edit_netns edit_loopback edit_uid_map
  edit_gid_map edit_rootdir_flags

lemma if_SomeE: "(if b then x else y) = Some z \<Longrightarrow> (b \<Longrightarrow> x = Some z \<Longrightarrow> P) \<Longrightarrow> (y = Some z \<Longrightarrow> P) \<Longrightarrow> P"
  by (cases b) auto

lemma directive_root_edits: "directive_root d val c = Some c' \<Longrightarrow> cfg_edit c c'"
  unfolding directive_root_def
  by (elim if_SomeE; (drule edit_adds, assumption)?; auto split: option.splits if_splits dest: edit_adds intro: edit_sets)

text \<open>
  What a directive other than \<^verbatim>\<open>inherit\<close> does: one edit, or it rejects the line and changes nothing.
\<close>

definition one_edit :: "Config \<Rightarrow> profile_rc \<times> Config \<Rightarrow> bool" where
  "one_edit c r \<longleftrightarrow> (if fst r = PROFILE_OK then cfg_edit c (snd r) else r = (PROFILE_ERROR, c))"

lemma one_edit_pair [simp]:
  "one_edit c (PROFILE_ERROR, c') \<longleftrightarrow> c' = c" "one_edit c (PROFILE_OK, c') \<longleftrightarrow> cfg_edit c c'"
  by (simp_all add: one_edit_def)

lemma one_edit_applied: "(\<And>c'. r = Some c' \<Longrightarrow> cfg_edit c c') \<Longrightarrow> one_edit c (applied c r)"
  by (cases r) (simp_all add: applied_def one_edit_def)

lemma one_edit_map: "(\<And>x. r = Some x \<Longrightarrow> cfg_edit c (f x)) \<Longrightarrow> one_edit c (applied c (map_option f r))"
  by (rule one_edit_applied) auto

lemma one_edit_switch:
  "cfg_edit c (f True) \<Longrightarrow> one_edit c (applied c (map_option f (profile_switch val)))"
  by (rule one_edit_map) (metis profile_switch_on)

lemma one_edits:
  "one_edit c (applied c (cfg_add_path val m True c))" "one_edit c (applied c (cfg_add_blocked nr c))"
  "one_edit c (applied c (cfg_add_allowed nr c))" "one_edit c (applied c (cfg_add_env_deny True val c))"
  "one_edit c (applied c (cfg_add_env_allow True val c))" "one_edit c (applied c (cfg_add_mask val c))"
  "one_edit c (applied c (directive_root d val c))"
  "one_edit c (applied c (map_option (\<lambda>l. c\<lparr>net_bind_ports := l\<rparr>) (cfg_add_net_port val (net_bind_ports c))))"
  "one_edit c (applied c (map_option (\<lambda>l. c\<lparr>net_connect_ports := l\<rparr>) (cfg_add_net_port val (net_connect_ports c))))"
  "one_edit c (applied c (map_option (\<lambda>l. c\<lparr>cap_drop_names := l\<rparr>) (cfg_add_str MAX_ENV_VARS val (cap_drop_names c))))"
  "one_edit c (applied c (map_option (\<lambda>b. c\<lparr>audit := b\<rparr>) (parse_bool val)))"
  by (rule one_edit_applied one_edit_map, erule edit_adds directive_root_edits | rule one_edit_map edit_sets)+

lemma one_edit_switches:
  "one_edit c (applied c (map_option (\<lambda>b. c\<lparr>use_landlock := b\<rparr>) (profile_switch val)))"
  "one_edit c (applied c (map_option (\<lambda>b. c\<lparr>use_seccomp := b\<rparr>) (profile_switch val)))"
  "one_edit c (applied c (map_option (\<lambda>b. c\<lparr>use_no_new_privs := b\<rparr>) (profile_switch val)))"
  "one_edit c (applied c (map_option (\<lambda>b. c\<lparr>use_env_sanitize := b\<rparr>) (profile_switch val)))"
  by (rule one_edit_switch, rule edit_sets)+

lemma one_edit_if: "(b \<Longrightarrow> one_edit c x) \<Longrightarrow> (\<not> b \<Longrightarrow> one_edit c y) \<Longrightarrow> one_edit c (if b then x else y)"
  by simp

lemma one_edit_let: "one_edit c (f x) \<Longrightarrow> one_edit c (let y = x in f y)"
  by simp

lemma one_edit_sets:
  "one_edit c (PROFILE_ERROR, c)" "one_edit c (PROFILE_OK, c)" "one_edit c (PROFILE_OK, c\<lparr>net_default_deny := True\<rparr>)"
  "one_edit c (PROFILE_OK, c\<lparr>seccomp_default := a\<rparr>)" "one_edit c (PROFILE_OK, c\<lparr>seccomp_allow_mode := b\<rparr>)"
  "one_edit c (PROFILE_OK, c\<lparr>env_allow_mode := b\<rparr>)" "one_edit c (PROFILE_OK, replace_workdir v c)"
  "one_edit c (PROFILE_OK, replace_audit_log v c)"
  by (simp_all add: edit_sets)

lemma directive_inherit_caps_edits: "d \<noteq> ''inherit'' \<Longrightarrow> one_edit c (directive_inherit_caps inh d val c)"
  unfolding directive_inherit_caps_def by (intro one_edit_if one_edits one_edit_sets) (erule notE)

lemma directive_env_switches_edits: "d \<noteq> ''inherit'' \<Longrightarrow> one_edit c (directive_env_switches inh d val c)"
  unfolding directive_env_switches_def
  by (intro one_edit_if one_edits one_edit_switches one_edit_sets directive_inherit_caps_edits)

lemma apply_directive_edits: "d \<noteq> ''inherit'' \<Longrightarrow> one_edit c (apply_directive t inh d val c)"
  unfolding apply_directive_def
  by (intro one_edit_if one_edit_let one_edits one_edit_sets directive_env_switches_edits)

lemma apply_directive_inherit: "apply_directive t inh ''inherit'' val c = inh val c"
  by (simp add: apply_directive_def directive_env_switches_def directive_inherit_caps_def)

section \<open>Relations every profile respects\<close>

text \<open>
  \<^verbatim>\<open>A\<close> is a relation between the policy before and after that is closed under composition, holds
  of every directive and ignores where the profile came from; it then holds of every accepted
  load, whatever the files say and however deep they inherit.  \<^verbatim>\<open>E\<close> is what is left of it when a
  load is rejected: the caller's own policy, over the heap as the rejected load left it.
\<close>

definition outcome_rel ::
  "(Config \<Rightarrow> Config \<Rightarrow> bool) \<Rightarrow> (Config \<Rightarrow> Config \<Rightarrow> bool) \<Rightarrow> Config \<Rightarrow> profile_rc \<times> Config \<Rightarrow> bool" where
  "outcome_rel A E c r \<longleftrightarrow> (if fst r = PROFILE_OK then A c (snd r) else E c (snd r))"

locale profile_relation =
  fixes A :: "Config \<Rightarrow> Config \<Rightarrow> bool" and E :: "Config \<Rightarrow> Config \<Rightarrow> bool"
  assumes A_refl: "A c c"
    and A_trans: "A a b \<Longrightarrow> A b c \<Longrightarrow> A a c"
    and A_edit: "cfg_edit c c' \<Longrightarrow> A c c'"
    and A_source: "A c (c\<lparr>profile_source := src\<rparr>)"
    and E_A: "A c c' \<Longrightarrow> E c c'"
    and E_after: "A a b \<Longrightarrow> E b c \<Longrightarrow> E a c"
    and E_drop: "E c c' \<Longrightarrow> E c (c\<lparr>cfg_mem := cfg_mem c'\<rparr>)"
begin

lemma holds_same: "outcome_rel A E c (rc, c)"
  by (simp add: outcome_rel_def A_refl E_A)

lemma holds_E: "outcome_rel A E c r \<Longrightarrow> E c (snd r)"
  by (auto simp: outcome_rel_def E_A split: if_splits)

lemma holds_A: "outcome_rel A E c r \<Longrightarrow> fst r = PROFILE_OK \<Longrightarrow> A c (snd r)"
  by (simp add: outcome_rel_def)

lemma holds_error: "E c (snd r) \<Longrightarrow> outcome_rel A E c (PROFILE_ERROR, snd r)"
  by (simp add: outcome_rel_def)

lemma holds_after: "A a b \<Longrightarrow> outcome_rel A E b r \<Longrightarrow> outcome_rel A E a r"
  by (auto simp: outcome_rel_def split: if_splits intro: A_trans E_after)

lemma holds_process_line:
  assumes "\<And>v a. outcome_rel A E a (inh v a)"
  shows "outcome_rel A E c (process_line h flags inh ln c)"
proof -
  have "outcome_rel A E c (apply_directive t inh d val c)" for t d val
  proof (cases "d = ''inherit''")
    case False
    then show ?thesis using apply_directive_edits [OF False, of c t inh val] A_refl [of c] E_A [of c c]
      by (auto simp: one_edit_def outcome_rel_def A_edit split: if_splits)
  qed (simp add: apply_directive_inherit assms)
  then show ?thesis by (simp add: process_line_def Let_def holds_same split: option.splits)
qed

lemma holds_process_lines:
  assumes "\<And>v a. outcome_rel A E a (inh v a)"
  shows "outcome_rel A E c (process_lines h flags inh lns c)"
proof (induction lns arbitrary: c)
  case (Cons ln lns)
  obtain rc c' where r: "process_line h flags inh ln c = (rc, c')" by fastforce
  then have "outcome_rel A E c (rc, c')" using holds_process_line [of inh c h flags ln] assms by simp
  then have "rc = PROFILE_OK \<Longrightarrow> A c c'" and "E c c'" using holds_E by (auto simp: outcome_rel_def)
  then show ?case using r holds_after [OF _ Cons, of c c'] holds_error [of c "(rc, c')"] by auto
qed (simp add: holds_same)

lemma holds_parse_profile:
  "(\<And>v a. outcome_rel A E a (inh v a)) \<Longrightarrow> outcome_rel A E c (parse_profile h inh flags path c)"
  by (simp add: parse_profile_def holds_same holds_process_lines split: sum.splits)

lemma holds_load_file_with:
  "outcome_rel A E c (into flags path c) \<Longrightarrow> outcome_rel A E c (load_file_with into flags path c)"
  by (auto simp: load_file_with_def outcome_rel_def E_drop split: prod.splits if_splits)

lemma holds_set_source: "outcome_rel A E c res \<Longrightarrow> outcome_rel A E c (set_source path res)"
  by (auto simp: set_source_def outcome_rel_def split: prod.splits intro: A_trans A_source)

lemma holds_resolve_user_with:
  "(\<And>f p a. outcome_rel A E a (into f p a)) \<Longrightarrow> outcome_rel A E c (resolve_user_with h into flags name c)"
  by (simp add: resolve_user_with_def Let_def holds_same holds_set_source holds_load_file_with split: option.splits)

lemma holds_resolve_with:
  assumes "\<And>f p a. outcome_rel A E a (into f p a)" and "not_found_clean into"
  shows "outcome_rel A E c (resolve_with h into flags name c)"
  by (simp add: resolve_with_clean [OF assms(2)] Let_def holds_same holds_set_source holds_load_file_with
      holds_resolve_user_with assms(1))

lemma holds_inherit_with:
  assumes "\<And>f p a. outcome_rel A E a (into f p a)" and "not_found_clean into"
  shows "outcome_rel A E c (inherit_with h into flags path val c)"
proof -
  have r: "outcome_rel A E c (resolve_with h into flags val c)" by (rule holds_resolve_with) (rule assms)+
  have l: "outcome_rel A E c (load_file_with into flags p c)" for p by (rule holds_load_file_with) (rule assms(1))
  have "outcome_rel A E c (if fst x = PROFILE_OK then x else (PROFILE_ERROR, snd x))" if "outcome_rel A E c x" for x
    using that by (simp add: holds_E holds_error)
  then show ?thesis
    using r l by (simp add: inherit_with_clean [OF assms(2)] Let_def holds_same split: option.splits)
qed

lemma holds_load_into_levels: "outcome_rel A E c (load_into_levels n h flags path c)"
proof (induction n arbitrary: flags path c)
  case 0
  show ?case unfolding load_into_levels.simps by (rule holds_parse_profile) (rule holds_same)
next
  case (Suc n)
  show ?case unfolding load_into_levels.simps
    by (rule holds_parse_profile, rule holds_inherit_with) (rule Suc load_into_levels_clean)+
qed

lemma holds_load_profile_file: "outcome_rel A E c (load_profile_file h depth flags path c)"
  by (simp add: load_profile_file_def load_profile_into_def holds_load_file_with holds_load_into_levels)

lemma holds_resolve_and_load: "outcome_rel A E c (resolve_and_load_profile h depth flags name c)"
  by (simp add: resolve_and_load_profile_def load_profile_into_def holds_resolve_with holds_load_into_levels
      load_into_levels_clean)

lemma R_load_profile_file: "E c (snd (load_profile_file h depth flags path c))"
  by (rule holds_E) (rule holds_load_profile_file)

lemma R_resolve_and_load: "E c (snd (resolve_and_load_profile h depth flags name c))"
  by (rule holds_E) (rule holds_resolve_and_load)

end

lemma cfg_add_str_spec: "cfg_add_str limit v l = Some l' \<Longrightarrow> length l' \<le> limit \<and> prefix l l'"
  by (auto simp: cfg_add_str_def split: if_splits)

lemma cfg_add_net_port_spec: "cfg_add_net_port v l = Some l' \<Longrightarrow> length l' \<le> MAX_NET_PORTS \<and> prefix l l'"
  by (auto simp: cfg_add_net_port_def split: if_splits option.splits)

lemma cfg_edit_limits: "cfg_edit c c' \<Longrightarrow> cfg_limits c \<Longrightarrow> cfg_limits c'"
  by (induction rule: cfg_edit.induct)
    ((erule (1) keeps_limits |
      (auto simp: cfg_limits_def replace_defs dest: cfg_add_str_spec cfg_add_net_port_spec)[1])+)

interpretation limits: profile_relation "\<lambda>c c'. cfg_limits c \<longrightarrow> cfg_limits c'" "\<lambda>c c'. cfg_limits c \<longrightarrow> cfg_limits c'"
  by unfold_locales (auto intro: cfg_edit_limits, simp_all add: cfg_limits_def)

text \<open>
  The heap: an accepted load keeps the strings of the policy alive, no load frees an address
  twice, and what was freed stays so.
\<close>

definition mem_after :: "Config \<Rightarrow> Config \<Rightarrow> bool" where
  "mem_after c c' \<longleftrightarrow> set (sm_freed (cfg_mem c)) \<subseteq> set (sm_freed (cfg_mem c')) \<and> (strings_live c \<longrightarrow> mem_sane (cfg_mem c'))"

lemma add_keeps_live:
  "cfg_add_path p m b c = Some c' \<Longrightarrow> cfg_mem c' = cfg_mem c \<and> strings_live c' = strings_live c"
  "cfg_add_blocked nr c = Some c' \<Longrightarrow> cfg_mem c' = cfg_mem c \<and> strings_live c' = strings_live c"
  "cfg_add_allowed nr c = Some c' \<Longrightarrow> cfg_mem c' = cfg_mem c \<and> strings_live c' = strings_live c"
  "cfg_add_env_deny b v c = Some c' \<Longrightarrow> cfg_mem c' = cfg_mem c \<and> strings_live c' = strings_live c"
  "cfg_add_env_allow b v c = Some c' \<Longrightarrow> cfg_mem c' = cfg_mem c \<and> strings_live c' = strings_live c"
  "cfg_add_mask v c = Some c' \<Longrightarrow> cfg_mem c' = cfg_mem c \<and> strings_live c' = strings_live c"
  "cfg_add_mount_flag v f c = Some c' \<Longrightarrow> cfg_mem c' = cfg_mem c \<and> strings_live c' = strings_live c"
  by (auto simp: cfg_add_defs cfg_add_mount_flag_def strings_live_def split: if_splits option.splits)

lemma cfg_edit_live: "cfg_edit c c' \<Longrightarrow> set (sm_freed (cfg_mem c)) \<subseteq> set (sm_freed (cfg_mem c')) \<and>
   (strings_live c \<longrightarrow> strings_live c')"
proof (induction rule: cfg_edit.induct)
  case (edit_workdir c v)
  then show ?case using replace_live by (auto simp: replace_defs)
next
  case (edit_audit_log c v)
  then show ?case using replace_live by (auto simp: replace_defs)
qed ((drule add_keeps_live, simp) | simp add: strings_live_def)+

interpretation heap: profile_relation
  "\<lambda>c c'. set (sm_freed (cfg_mem c)) \<subseteq> set (sm_freed (cfg_mem c')) \<and> (strings_live c \<longrightarrow> strings_live c')" mem_after
  by unfold_locales (auto simp: mem_after_def cfg_edit_live strings_live_def dest: cfg_edit_live)

text \<open>
  Rules are only ever added, in order, switches are only ever turned on, mount flags only gain
  bits, and the fields a profile has no directive for stay as they are.
\<close>

definition arrays_extend :: "Config \<Rightarrow> Config \<Rightarrow> bool" where
  "arrays_extend c c' \<longleftrightarrow>
     prefix (paths c) (paths c') \<and> prefix (blocked_syscalls c) (blocked_syscalls c') \<and>
     prefix (allowed_syscalls c) (allowed_syscalls c') \<and> prefix (env_deny c) (env_deny c') \<and>
     prefix (env_allow c) (env_allow c') \<and> prefix (masks c) (masks c') \<and>
     prefix (net_bind_ports c) (net_bind_ports c') \<and> prefix (net_connect_ports c) (net_connect_ports c') \<and>
     prefix (cap_drop_names c) (cap_drop_names c') \<and> prefix (cap_allowed_names c) (cap_allowed_names c') \<and>
     prefix (cgroups c) (cgroups c') \<and> prefix (mount_masks c) (mount_masks c')"

definition switches_extend :: "Config \<Rightarrow> Config \<Rightarrow> bool" where
  "switches_extend c c' \<longleftrightarrow>
     (use_landlock c \<longrightarrow> use_landlock c') \<and> (use_seccomp c \<longrightarrow> use_seccomp c') \<and>
     (use_no_new_privs c \<longrightarrow> use_no_new_privs c') \<and> (use_env_sanitize c \<longrightarrow> use_env_sanitize c') \<and>
     (net_default_deny c \<longrightarrow> net_default_deny c') \<and>
     (\<forall>n. bit (rootdir_flags c) n \<longrightarrow> bit (rootdir_flags c') n) \<and>
     (\<forall>p n. bit (flags_of_path p (mount_flags c)) n \<longrightarrow> bit (flags_of_path p (mount_flags c')) n) \<and>
     dry_run c' = dry_run c \<and> verbose c' = verbose c \<and> allow_insecure c' = allow_insecure c \<and>
     audit_log_fd c' = audit_log_fd c \<and> profile_name c' = profile_name c"

definition profile_extends :: "Config \<Rightarrow> Config \<Rightarrow> bool" where
  "profile_extends c c' \<longleftrightarrow> arrays_extend c c' \<and> switches_extend c c'"

lemmas extends_defs = profile_extends_def arrays_extend_def switches_extend_def

lemma profile_extends_trans:
  assumes "profile_extends a b" and "profile_extends b c"
  shows "profile_extends a c"
proof -
  have "arrays_extend a c" using assms unfolding profile_extends_def arrays_extend_def
    by (elim conjE, intro conjI) (erule (1) prefix_order.trans)+
  moreover from assms have "switches_extend a c"
    unfolding profile_extends_def switches_extend_def by simp
  ultimately show ?thesis by (simp add: profile_extends_def)
qed

text \<open>What an addition leaves: the array with the rule at its end.\<close>

lemma add_shapes:
  "cfg_add_path p m b c = Some c' \<Longrightarrow> \<exists>r. c' = c\<lparr>paths := paths c @ [r]\<rparr>"
  "cfg_add_blocked nr c = Some c' \<Longrightarrow> \<exists>r. c' = c\<lparr>blocked_syscalls := blocked_syscalls c @ [r]\<rparr>"
  "cfg_add_allowed nr c = Some c' \<Longrightarrow>
     \<exists>r. c' = c\<lparr>allowed_syscalls := allowed_syscalls c @ [r], seccomp_allow_mode := True\<rparr>"
  "cfg_add_env_deny b v c = Some c' \<Longrightarrow> \<exists>r. c' = c\<lparr>env_deny := env_deny c @ [r]\<rparr>"
  "cfg_add_env_allow b v c = Some c' \<Longrightarrow>
     \<exists>r. c' = c\<lparr>env_allow := env_allow c @ [r], env_allow_mode := True\<rparr>"
  "cfg_add_mask v c = Some c' \<Longrightarrow> \<exists>r. c' = c\<lparr>masks := masks c @ [r]\<rparr>"
  by (auto simp: cfg_add_defs split: if_splits)

lemma add_mount_flag_shape:
  "cfg_add_mount_flag v f c = Some c' \<Longrightarrow>
   \<exists>rs. c' = c\<lparr>mount_flags := rs\<rparr> \<and> (\<forall>p. \<exists>g. flags_of_path p rs = flags_of_path p (mount_flags c) OR g)"
  by (fastforce simp: cfg_add_mount_flag_def merge_mount_flag_flags split: if_splits option.splits)

lemma cfg_edit_extends: "cfg_edit c c' \<Longrightarrow> profile_extends c c'"
proof (induction rule: cfg_edit.induct)
  case (edit_mount_flag v f c c')
  then obtain rs where "c' = c\<lparr>mount_flags := rs\<rparr>"
    and "\<forall>p. \<exists>g. flags_of_path p rs = flags_of_path p (mount_flags c) OR g"
    using add_mount_flag_shape by blast
  then show ?case by (simp add: extends_defs) (metis bit_or_iff)
qed ((drule add_shapes)?, (drule cfg_add_str_spec)?, (drule cfg_add_net_port_spec)?,
     (elim exE conjE)?, simp add: extends_defs replace_defs bit_or_iff)+


interpretation extends: profile_relation profile_extends profile_extends
proof unfold_locales
  show "profile_extends c (c\<lparr>profile_source := src\<rparr>)" for c src
    by (simp add: extends_defs)
  show "profile_extends c (c\<lparr>cfg_mem := cfg_mem c'\<rparr>)" for c c'
    by (simp add: extends_defs)
qed (blast intro: cfg_edit_extends edit_none profile_extends_trans)+

end
