(* ===== verification/Profile_Policy.thy ===== *)
theory Profile_Policy
  imports Profile_Loader
begin

text \<open>
  What loading a profile guarantees: the transaction and what it does to the heap, the bounds, the
  direction of change, the trust in the source, the reading of lines and the bound on \<^verbatim>\<open>inherit\<close>;
  and where the loader does less than its comments say.
\<close>

section \<open>Lemmas on files and results\<close>

text \<open>The same record, over a heap that may have changed.\<close>

definition same_policy :: "Config \<Rightarrow> Config \<Rightarrow> bool" where
  "same_policy c c' \<longleftrightarrow> c' = c\<lparr>cfg_mem := cfg_mem c'\<rparr>"

lemma same_policy_refl [simp]: "same_policy c c" "same_policy c (c\<lparr>cfg_mem := m\<rparr>)"
  by (simp_all add: same_policy_def)

lemma same_policy_strings:
  assumes "same_policy c c'"
  shows "workdir c' = workdir c" "workdir_ptr c' = workdir_ptr c" "audit_log_dir c' = audit_log_dir c"
    "audit_log_ptr c' = audit_log_ptr c"
  using assms [unfolded same_policy_def, THEN arg_cong, of workdir] assms [unfolded same_policy_def, THEN arg_cong, of workdir_ptr]
    assms [unfolded same_policy_def, THEN arg_cong, of audit_log_dir]
    assms [unfolded same_policy_def, THEN arg_cong, of audit_log_ptr] by simp_all

lemma load_file_with_rollback:
  "fst (load_file_with into flags path c) \<noteq> PROFILE_OK \<Longrightarrow> same_policy c (snd (load_file_with into flags path c))"
  by (simp add: load_file_with_def case_prod_beta split: if_splits)

lemma sourced_file_rollback:
  "fst (load_file_with into flags path c) \<noteq> PROFILE_OK \<Longrightarrow>
   same_policy c (snd (set_source p (load_file_with into flags path c)))"
  by (simp add: set_source_rollback load_file_with_rollback)

lemma resolve_user_with_rollback:
  "fst (resolve_user_with h into flags name c) \<noteq> PROFILE_OK \<Longrightarrow>
   same_policy c (snd (resolve_user_with h into flags name c))"
  by (auto simp: resolve_user_with_def Let_def sourced_file_rollback split: option.splits if_splits)

lemma resolve_with_rollback:
  "not_found_clean into \<Longrightarrow> fst (resolve_with h into flags name c) \<noteq> PROFILE_OK \<Longrightarrow>
   same_policy c (snd (resolve_with h into flags name c))"
  by (simp add: resolve_with_clean Let_def sourced_file_rollback resolve_user_with_rollback split: if_splits)

lemma load_profile_into_clean: "not_found_clean (load_profile_into h depth)"
  by (simp add: load_profile_into_def load_into_levels_clean)

lemma fopen_untrusted:
  "h_open h path = Inr f \<Longrightarrow> \<not> profile_fd_trusted h flags S_IFREG (pf_stat f) \<Longrightarrow>
   profile_fopen_trusted h flags path = Inl PROFILE_ERROR"
  by (simp add: profile_fopen_trusted_def)

lemma fopen_untrusted_dir:
  "h_open h path = Inr f \<Longrightarrow> \<not> profile_dir_trusted h flags path \<Longrightarrow>
   profile_fopen_trusted h flags path = Inl PROFILE_ERROR"
  by (simp add: profile_fopen_trusted_def)

lemma load_profile_file_fopen_fails:
  "profile_fopen_trusted h flags path = Inl r \<Longrightarrow> r \<noteq> PROFILE_OK \<Longrightarrow>
   load_profile_file h depth flags path c = (r, c)"
  by (simp add: load_profile_file_def load_file_with_def load_profile_into_depth parse_profile_def)

lemma load_profile_file_fopen_ok:
  "profile_fopen_trusted h flags path = Inr data \<Longrightarrow>
   load_profile_file h depth flags path c =
     (let (rc, tmp) = process_lines h flags
          (\<lambda>val c. if depth \<ge> MAX_INHERIT_DEPTH then (PROFILE_ERROR, c)
                   else inherit_with h (load_profile_into h (depth + 1)) flags path val c)
          (profile_lines data) c
      in if rc = PROFILE_OK then (rc, tmp) else (rc, c\<lparr>cfg_mem := cfg_mem tmp\<rparr>))"
  by (simp add: load_profile_file_def load_file_with_def load_profile_into_depth parse_profile_def)

section \<open>Lemmas on lines\<close>

lemma profile_lines_newline:
  assumes "NL \<notin> set l" and "length l < MAX_LINE - 1"
  shows "profile_lines (l @ NL # s) = (l @ [NL], False) # profile_lines s"
  using fgets_newline [OF assms] by (subst profile_lines.simps) (simp add: feof_after_def)

lemma profile_lines_full:
  assumes "NL \<notin> set l" and "length l = MAX_LINE - 1"
  shows "profile_lines (l @ s) = (l, False) # profile_lines s"
proof -
  have "fgets MAX_LINE (l @ s) = (l, s)"
    using fgets_full [OF assms(1), of "MAX_LINE - 1" s] assms(2) by (simp add: MAX_LINE_def)
  then show ?thesis using assms(2)
    by (subst profile_lines.simps) (auto simp: feof_after_def MAX_LINE_def)
qed

text \<open>Text made of whole lines that fit.\<close>

definition short_line :: "string \<Rightarrow> bool" where
  "short_line l \<longleftrightarrow> NL \<notin> set l \<and> length l < MAX_LINE - 1"

fun as_lines :: "string list \<Rightarrow> string" where
  "as_lines [] = []"
| "as_lines (l # ls) = l @ NL # as_lines ls"

lemma profile_lines_as_lines:
  "list_all short_line ls \<Longrightarrow>
   profile_lines (as_lines ls @ s) = map (\<lambda>l. (l @ [NL], False)) ls @ profile_lines s"
  by (induction ls) (auto simp: short_line_def profile_lines_newline)

lemma process_lines_append:
  "process_lines h flags inh (a @ b) c =
     (case process_lines h flags inh a c of
        (PROFILE_OK, c') \<Rightarrow> process_lines h flags inh b c'
      | r \<Rightarrow> r)"
  by (induction a arbitrary: c) (auto split: prod.splits)

text \<open>A line that is refused whatever came before it rejects the file.\<close>

lemma process_lines_reject:
  "ln \<in> set lns \<Longrightarrow> (\<And>c. fst (process_line h flags inh ln c) \<noteq> PROFILE_OK) \<Longrightarrow>
   fst (process_lines h flags inh lns c) = PROFILE_ERROR"
  by (induction lns arbitrary: c) (auto split: prod.splits, metis fst_conv)

lemma refused_line_rejects:
  assumes "profile_fopen_trusted h flags path = Inr data" and "ln \<in> set (profile_lines data)"
    and "\<And>inh c. fst (process_line h flags inh ln c) \<noteq> PROFILE_OK"
  shows "fst (load_profile_file h depth flags path c) = PROFILE_ERROR \<and>
    same_policy c (snd (load_profile_file h depth flags path c))"
  using process_lines_reject [OF assms(2,3)]
  by (simp add: load_profile_file_fopen_ok [OF assms(1)] case_prod_beta Let_def)

lemma rdropWhile_id: "s = [] \<or> \<not> P (last s) \<Longrightarrow> rdropWhile P s = s"
  by (cases s rule: rev_cases) (auto simp: rdropWhile_def)

lemma rdropWhile_append: "\<forall>x \<in> set b. P x \<Longrightarrow> rdropWhile P (a @ b) = rdropWhile P a"
  by (simp add: rdropWhile_def dropWhile_append)

lemma read_directive_overlong:
  assumes "length l = MAX_LINE - 1" and "NUL \<notin> set l" and "last l \<noteq> CR" and "NL \<notin> set l"
  shows "read_directive h (l, False) = None"
proof -
  have "l \<noteq> []" using assms(1) by (auto simp: MAX_LINE_def)
  then have "last l \<noteq> NL" using assms(4) last_in_set by metis
  with assms(2,3) have "strip_newline (cstr l) = l"
    unfolding strip_newline_def by (simp add: rdropWhile_id)
  then show ?thesis using assms(1) \<open>l \<noteq> []\<close> by (simp add: read_directive_def)
qed

lemma cstr_append: "cstr (a @ b) = (if NUL \<in> set a then cstr a else a @ cstr b)"
  by (auto simp: cstr_def takeWhile_append)

lemma read_directive_newline_like:
  assumes "\<forall>x \<in> set b. x = NL \<or> x = CR" and "length a < MAX_LINE - 1"
  shows "read_directive h (a @ b, False) = read_directive h (a @ [NL], False)"
proof -
  have "NUL \<notin> set b" using assms(1) by fastforce
  then have "strip_newline (cstr (a @ b)) = strip_newline (cstr (a @ [NL]))"
    using assms(1) by (simp add: strip_newline_def cstr_append rdropWhile_append)
  then show ?thesis by (simp add: read_directive_def)
qed

section \<open>Lemmas on expansion\<close>

lemma expand_loop_bound:
  "expand_loop home user bufsz acc p = Some r \<Longrightarrow> length acc < bufsz \<Longrightarrow> length r < bufsz"
  by (induction home user bufsz acc p rule: expand_loop.induct) (auto split: if_splits option.splits)

lemma user_before_home:
  assumes "has_prefix ''$USER'' (a @ ''$HOME'' @ b)"
  shows "\<exists>a'. a = ''$USER'' @ a'"
proof -
  have "\<exists>c0 c1 c2 c3 c4 a'. a = c0 # c1 # c2 # c3 # c4 # a'" if "5 \<le> length a"
    using that by (auto simp: numeral_eq_Suc Suc_le_length_iff)
  moreover have "5 \<le> length a"
  proof (rule ccontr)
    assume "\<not> 5 \<le> length a"
    then consider "length a = 0" | "length a = 1" | "length a = 2" | "length a = 3" | "length a = 4"
      by linarith
    then show False using assms
      by cases (auto simp: has_prefix_def length_Suc_conv numeral_eq_Suc)
  qed
  ultimately show ?thesis using assms by (auto simp: has_prefix_def)
qed

lemma expand_loop_no_home: "expand_loop None user bufsz acc (a @ ''$HOME'' @ b) = None"
proof (induction "length a" arbitrary: a acc rule: less_induct)
  case less
  show ?case
  proof (cases a)
    case Nil
    then show ?thesis by (simp add: has_prefix_def)
  next
    case (Cons c a1)
    show ?thesis
    proof (cases "has_prefix ''$USER'' (a @ ''$HOME'' @ b)")
      case True
      then obtain a' where a': "a = ''$USER'' @ a'" using user_before_home by blast
      have "expand_loop None user bufsz x (a' @ ''$HOME'' @ b) = None" for x
        using less [of a'] a' by simp
      then show ?thesis by (cases user) (simp_all add: a' has_prefix_def)
    next
      case False
      have "expand_loop None user bufsz x (a1 @ ''$HOME'' @ b) = None" for x
        using less [of a1] Cons by simp
      with False Cons show ?thesis by simp
    qed
  qed
qed

section \<open>A concrete host\<close>

definition demo_host :: "string \<Rightarrow> host" where
  "demo_host data =
     \<lparr>h_target = demo_target, h_uid = 1000, h_HOME = Some ''/'', h_USER = Some ''u'', h_pw_name = None,
      h_stat = (\<lambda>_. Some \<lparr>st_mode = 0x41ED, st_uid = 0\<rparr>),
      h_open = (\<lambda>p. if p = ''/etc/compartment/a.conf''
                  then Inr \<lparr>pf_stat = Some \<lparr>st_mode = 0x81A4, st_uid = 0\<rparr>, pf_stream = True, pf_data = data\<rparr>
                  else if p = ''/tmp/x.conf''
                  then Inr \<lparr>pf_stat = Some \<lparr>st_mode = 0x81B6, st_uid = 1000\<rparr>, pf_stream = True, pf_data = data\<rparr>
                  else Inl ENOENT),
      h_opendir = (\<lambda>_. Some (Some \<lparr>st_mode = 0x41ED, st_uid = 0\<rparr>)), h_realpath = (\<lambda>_. None)\<rparr>"

lemma demo_fopen: "profile_fopen_trusted (demo_host data) flags ''/etc/compartment/a.conf'' = Inr data"
  by (simp add: profile_fopen_trusted_def demo_host_def profile_fd_trusted_def profile_dir_trusted_def
      mode_defs PATH_MAX_def Let_def)

section \<open>Properties\<close>


text \<open>Witness: a second line the parser cannot read.\<close>

lemma demo_bad_line:
  "process_lines h 0 inh (profile_lines (as_lines [''rw /x'', ''bogus''])) empty_config =
   (PROFILE_ERROR, empty_config\<lparr>paths := [path_rule PATH_RW True ''/x'']\<rparr>)"
proof -
  have "profile_lines (as_lines [''rw /x'', ''bogus''] @ []) =
      map (\<lambda>l. (l @ [NL], False)) [''rw /x'', ''bogus''] @ profile_lines []"
    by (rule profile_lines_as_lines) (simp add: short_line_def MAX_LINE_def)
  then have "profile_lines (as_lines [''rw /x'', ''bogus'']) = [(''rw /x'' @ [NL], False), (''bogus'' @ [NL], False)]"
    by (simp add: profile_lines.simps)
  moreover have "read_directive h (''rw /x'' @ [NL], False) = Some (Some (''rw'', ''/x''))"
    "read_directive h (''bogus'' @ [NL], False) = Some (Some (''bogus'', []))" for h
    by (simp_all add: read_directive_def strip_newline_def rdropWhile_def cstr_def MAX_LINE_def
        is_blank_def scan_directive_def is_space_def expand_var_def)
  ultimately show ?thesis
    by (simp add: process_line_def directive_is_root_only_def has_prefix_def apply_directive_def
        directive_env_switches_def directive_inherit_caps_def directive_root_def cfg_add_path_def
        MAX_PATHS_def)
qed


text \<open>
  Whatever profiles say, and however they inherit, every array of the policy stays within
  its bound.
\<close>

theorem profile_load_limits:
  assumes "cfg_limits c"
  shows "cfg_limits (snd (resolve_and_load_profile h depth flags name c))"
  using limits.R_resolve_and_load assms by blast

theorem profile_load_limits_witness:
  "cfg_limits (snd (resolve_and_load_profile (demo_host (as_lines [''rw /x'', ''bogus''])) 0 0 ''a'' empty_config))"
  by (rule profile_load_limits) simp

text \<open>
  C18: a profile, with everything it inherits, accepted or rejected, only adds rules after the ones
  there are, only turns the four mechanism switches (Landlock, seccomp, no-new-privs, environment
  sanitising) and \<^verbatim>\<open>net-default deny\<close> on, only adds mount flags, and never touches dry-run, verbosity,
  the insecure override, the profile name or the audit descriptor.  The other switches are not
  one-way: \<^verbatim>\<open>audit\<close>, \<^verbatim>\<open>loopback\<close>, \<^verbatim>\<open>seccomp-mode\<close>, \<^verbatim>\<open>env-mode\<close> and \<^verbatim>\<open>seccomp-default\<close> may be set either way.
\<close>

theorem profile_load_extends:
  "profile_extends c (snd (resolve_and_load_profile h depth flags name c))"
  by (rule extends.R_resolve_and_load)

text \<open>
  A profile that exists but is not a regular file, is owned by neither root nor the caller
  (root only under \<^verbatim>\<open>PROFILE_OWNER_ROOT\<close>), is writable by group or others, or lies in a directory
  that fails the directory check is rejected whatever it says, and nothing of it is applied.
\<close>

theorem untrusted_profile_rejected:
  assumes "h_open h path = Inr f"
    and "\<not> (\<exists>st. pf_stat f = Some st \<and> st_mode st AND S_IFMT = S_IFREG
            \<and> (st_uid st = 0 \<or> (flags AND PROFILE_OWNER_ROOT = 0 \<and> st_uid st = h_uid h))
            \<and> st_mode st AND (S_IWGRP OR S_IWOTH) = 0)
         \<or> \<not> profile_dir_trusted h flags path"
  shows "load_profile_file h depth flags path c = (PROFILE_ERROR, c)"
proof -
  have "profile_fopen_trusted h flags path = Inl PROFILE_ERROR"
    using assms(2)
  proof
    assume "\<not> (\<exists>st. pf_stat f = Some st \<and> st_mode st AND S_IFMT = S_IFREG
            \<and> (st_uid st = 0 \<or> (flags AND PROFILE_OWNER_ROOT = 0 \<and> st_uid st = h_uid h))
            \<and> st_mode st AND (S_IWGRP OR S_IWOTH) = 0)"
    then have "\<not> profile_fd_trusted h flags S_IFREG (pf_stat f)"
      by (auto simp: profile_fd_trusted_def S_IFREG_def S_IFDIR_def Let_def split: option.splits)
    then show ?thesis by (rule fopen_untrusted [OF assms(1)])
  qed (rule fopen_untrusted_dir [OF assms(1)])
  then show ?thesis by (rule load_profile_file_fopen_fails) simp
qed

theorem untrusted_profile_rejected_witness:
  "load_profile_file (demo_host ''rwx /'') 0 0 ''/tmp/x.conf'' empty_config = (PROFILE_ERROR, empty_config)"
  by (rule untrusted_profile_rejected [where f = "\<lparr>pf_stat = Some \<lparr>st_mode = 0x81B6, st_uid = 1000\<rparr>,
        pf_stream = True, pf_data = ''rwx /''\<rparr>"])
    (simp_all add: demo_host_def mode_defs)

text \<open>
  A system profile never reaches a user file through the search path: once
  \<^verbatim>\<open>/etc/compartment/<name>.conf\<close> exists, looking the name up with \<^verbatim>\<open>PROFILE_SEARCH_USER\<close> is the
  same as looking it up without, down to every profile it inherits.
\<close>

theorem etc_profile_ignores_user_search:
  assumes "CHR ''/'' \<notin> set name" and "length (''/etc/compartment/'' @ name @ ''.conf'') < PATH_MAX"
    and "fst (load_profile_file h depth (flags AND NOT PROFILE_SEARCH_USER)
           (''/etc/compartment/'' @ name @ ''.conf'') c) \<noteq> PROFILE_NOT_FOUND"
  shows "resolve_and_load_profile h depth flags name c =
         resolve_and_load_profile h depth (flags AND NOT PROFILE_SEARCH_USER) name c"
  using assms
  by (simp only: resolve_and_load_profile_def resolve_with_clean [OF load_profile_into_clean] load_profile_file_def Let_def
      set_source_fst if_False if_True not_False_eq_True and.assoc and.idem simp_thms)

theorem etc_profile_ignores_user_search_witness:
  "let h = demo_host (as_lines [''rw /x'', ''bogus''])
   in resolve_and_load_profile h 0 1 ''a'' empty_config =
      resolve_and_load_profile h 0 (1 AND NOT PROFILE_SEARCH_USER) ''a'' empty_config"
proof -
  let ?h = "demo_host (as_lines [''rw /x'', ''bogus''])"
  have z: "1 AND NOT PROFILE_SEARCH_USER = 0" by (simp add: PROFILE_SEARCH_USER_def)
  have "fst (load_profile_file ?h 0 (1 AND NOT PROFILE_SEARCH_USER) ''/etc/compartment/a.conf'' empty_config)
      = PROFILE_ERROR"
    by (simp only: z load_profile_file_fopen_ok [OF demo_fopen] demo_bad_line) simp
  then have "resolve_and_load_profile ?h 0 1 ''a'' empty_config =
      resolve_and_load_profile ?h 0 (1 AND NOT PROFILE_SEARCH_USER) ''a'' empty_config"
    by (intro etc_profile_ignores_user_search) (simp_all add: PATH_MAX_def)
  then show ?thesis by (simp only: Let_def)
qed

text \<open>
  A line that does not fit the buffer rejects the profile: after any number of lines that
  fit, a line with 1023 bytes before its newline (none of them NUL, the last one not a
  carriage return) makes the load fail with the policy untouched; its tail is never read as a
  directive.
\<close>

theorem overlong_line_rejected:
  assumes "profile_fopen_trusted h flags path = Inr (as_lines ls @ l @ s)"
    and "list_all short_line ls" and "length l = MAX_LINE - 1"
    and "NL \<notin> set l" and "NUL \<notin> set l" and "last l \<noteq> CR"
  shows "fst (load_profile_file h depth flags path c) = PROFILE_ERROR \<and>
    same_policy c (snd (load_profile_file h depth flags path c))"
proof (rule refused_line_rejects [OF assms(1)])
  show "(l, False) \<in> set (profile_lines (as_lines ls @ l @ s))"
    by (simp add: profile_lines_as_lines [OF assms(2)] profile_lines_full [OF assms(4,3)])
  show "fst (process_line h flags inh (l, False) c') \<noteq> PROFILE_OK" for inh c'
    by (simp add: process_line_def read_directive_overlong [OF assms(3,5,6,4)])
qed

theorem overlong_line_rejected_witness:
  "let h = demo_host (as_lines [''rw /x''] @ (''ro /'' @ replicate 1019 CHR ''a'') @ ''seccomp-mode deny'')
   in fst (load_profile_file h 0 0 ''/etc/compartment/a.conf'' empty_config) = PROFILE_ERROR"
proof -
  have "fst (load_profile_file (demo_host (as_lines [''rw /x''] @ (''ro /'' @ replicate 1019 CHR ''a'') @ ''seccomp-mode deny''))
      0 0 ''/etc/compartment/a.conf'' empty_config) = PROFILE_ERROR"
    by (rule overlong_line_rejected [OF demo_fopen, THEN conjunct1])
      (simp_all add: short_line_def MAX_LINE_def)
  then show ?thesis by (simp only: Let_def)
qed

text \<open>
  That check can be passed by: a line padded with carriage returns up to the buffer's end is
  read as two lines, because the returns are stripped before the length is tested; its tail
  is read as a directive of its own.
\<close>

theorem overlong_line_split_at_CR:
  assumes "NL \<notin> set l" and "length l < MAX_LINE - 1"
  shows "process_lines h flags inh (profile_lines (l @ replicate (MAX_LINE - 1 - length l) CR @ s)) c =
         process_lines h flags inh (profile_lines (l @ NL # s)) c"
proof -
  let ?pad = "replicate (MAX_LINE - 1 - length l) CR"
  have "profile_lines ((l @ ?pad) @ s) = (l @ ?pad, False) # profile_lines s"
    using assms by (intro profile_lines_full) auto
  then have "profile_lines (l @ ?pad @ s) = (l @ ?pad, False) # profile_lines s" by simp
  moreover have "read_directive h (l @ ?pad, False) = read_directive h (l @ [NL], False)"
    using assms(2) by (intro read_directive_newline_like) simp_all
  then have "process_line h flags inh (l @ ?pad, False) c = process_line h flags inh (l @ [NL], False) c"
    by (simp only: process_line_def)
  ultimately show ?thesis by (simp add: profile_lines_newline [OF assms])
qed

theorem overlong_line_split_at_CR_witness:
  "process_lines (demo_host []) 0 (\<lambda>_ c. (PROFILE_ERROR, c))
     (profile_lines (''rw /x'' @ replicate (MAX_LINE - 1 - length ''rw /x'') CR @ ''bogus'' @ [NL])) empty_config =
   (PROFILE_ERROR, empty_config\<lparr>paths := [path_rule PATH_RW True ''/x'']\<rparr>)"
proof -
  let ?h = "demo_host []" and ?inh = "\<lambda>_ c. (PROFILE_ERROR, c)"
  have "process_lines ?h 0 ?inh
      (profile_lines (''rw /x'' @ replicate (MAX_LINE - 1 - length ''rw /x'') CR @ ''bogus'' @ [NL])) empty_config =
     process_lines ?h 0 ?inh (profile_lines (''rw /x'' @ NL # ''bogus'' @ [NL])) empty_config"
    by (rule overlong_line_split_at_CR) (simp_all add: MAX_LINE_def)
  then show ?thesis using demo_bad_line [of ?h ?inh] by (simp only: as_lines.simps append_Cons append_Nil)
qed

definition known_directives :: "string list" where
  "known_directives =
     [''ro'', ''rw'', ''exec'', ''rwx'', ''block'', ''allow'', ''net-bind'', ''net-connect'', ''net-default'',
      ''seccomp-default'', ''seccomp-mode'', ''env-deny'', ''env-allow'', ''env-mode'', ''workdir'',
      ''landlock'', ''seccomp'', ''no-new-privs'', ''env-sanitize'', ''audit'', ''audit-log'', ''inherit'',
      ''cap-drop'', ''cap-bounding'', ''mask'', ''rootdir'', ''uid'', ''gid'', ''username'', ''netns'', ''cgroup'',
      ''cap-allow'', ''loopback'', ''uid-map'', ''gid-map'', ''mount-mask'', ''rootdir-flags'',
      ''mount-ro'', ''mount-nosuid'', ''mount-nodev'', ''mount-noexec'']"

lemma mount_directives:
  "has_prefix ''mount-'' d \<Longrightarrow> mount_flag_for_directive (drop 6 d) \<noteq> 0 \<Longrightarrow> d \<in> set known_directives"
  by (auto simp: has_prefix_iff mount_flag_for_directive_def known_directives_def split: if_splits)

lemma unknown_directive_error: "d \<notin> set known_directives \<Longrightarrow> apply_directive t inh d val c = (PROFILE_ERROR, c)"
  using mount_directives [of d]
  by (simp add: known_directives_def apply_directive_def directive_env_switches_def
      directive_inherit_caps_def directive_root_def applied_def) blast

lemma line_of_as_lines:
  assumes "list_all short_line (ls @ [l])"
  shows "(l @ [NL], False) \<in> set (profile_lines (as_lines (ls @ l # rs)))"
proof -
  have "as_lines (ls @ l # rs) = as_lines (ls @ [l]) @ as_lines rs" by (induction ls) auto
  then show ?thesis using profile_lines_as_lines [OF assms, of "as_lines rs"] by simp
qed

text \<open>
  An unknown directive is fatal wherever it stands: a profile with a line whose directive is
  not one of the parser's and does not belong to the other tool is rejected as a whole.
\<close>

theorem unknown_directive_rejected:
  assumes "profile_fopen_trusted h flags path = Inr (as_lines (ls @ l # rs))"
    and "list_all short_line (ls @ [l])"
    and "read_directive h (l @ [NL], False) = Some (Some (d, val))"
    and "d \<notin> set known_directives"
    and "\<not> (if flags AND PROFILE_TOOL_ROOT = 0 then directive_is_root_only d else directive_is_user_only d)"
  shows "fst (load_profile_file h depth flags path c) = PROFILE_ERROR \<and>
    same_policy c (snd (load_profile_file h depth flags path c))"
proof (rule refused_line_rejects [OF assms(1) line_of_as_lines [OF assms(2)]])
  show "fst (process_line h flags inh (l @ [NL], False) c) \<noteq> PROFILE_OK" for inh c
    using assms(5) unknown_directive_error [OF assms(4)]
    by (auto simp: process_line_def assms(3) Let_def split: if_splits)
qed

theorem unknown_directive_rejected_witness:
  "fst (load_profile_file (demo_host (as_lines [''rw /x'', ''bogus'', ''ro /y''])) 0 0 ''/etc/compartment/a.conf'' empty_config)
     = PROFILE_ERROR"
proof (rule unknown_directive_rejected [where ls = "[''rw /x'']" and l = "''bogus''" and rs = "[''ro /y'']"
      and d = "''bogus''" and val = "[]", THEN conjunct1])
  show "profile_fopen_trusted (demo_host (as_lines [''rw /x'', ''bogus'', ''ro /y''])) 0 ''/etc/compartment/a.conf'' =
      Inr (as_lines ([''rw /x''] @ ''bogus'' # [''ro /y'']))"
    by (simp only: demo_fopen append_Cons append_Nil)
  show "read_directive (demo_host (as_lines [''rw /x'', ''bogus'', ''ro /y''])) (''bogus'' @ [NL], False)
      = Some (Some (''bogus'', []))"
    by (simp add: read_directive_def strip_newline_def rdropWhile_def cstr_def MAX_LINE_def
        is_blank_def scan_directive_def is_space_def expand_var_def)
qed (simp_all add: short_line_def MAX_LINE_def known_directives_def directive_is_root_only_def has_prefix_def)

lemma seccomp_mode_deny_line:
  "process_line h flags inh (''seccomp-mode deny'' @ [NL], False) c = (PROFILE_OK, c\<lparr>seccomp_allow_mode := False\<rparr>)"
proof -
  have "read_directive h (''seccomp-mode deny'' @ [NL], False) = Some (Some (''seccomp-mode'', ''deny''))"
    by (simp add: read_directive_def strip_newline_def rdropWhile_def cstr_def MAX_LINE_def
        is_blank_def scan_directive_def is_space_def expand_var_def)
  then show ?thesis
    by (simp add: process_line_def directive_is_root_only_def directive_is_user_only_def has_prefix_def
        apply_directive_def)
qed

text \<open>
  The one-way rule does not cover the list modes: a profile of the single line
  \<^verbatim>\<open>seccomp-mode deny\<close>, also one that is inherited, turns a default-deny allow-list into a
  default-allow deny-list, and a native system call on neither list goes from denied to
  allowed.
\<close>

theorem profile_leaves_allow_mode:
  assumes "profile_fopen_trusted h flags path = Inr (as_lines [''seccomp-mode deny''])"
    and "seccomp_allow_mode c" and "sd_arch d = audit_arch t" and "sd_nr d AND X32_BIT = 0"
    and "sd_nr d \<notin> word_of_int ` set (allowed_syscalls c)"
    and "sd_nr d \<notin> word_of_int ` set (blocked_syscalls c)"
  shows "fst (load_profile_file h depth flags path c) = PROFILE_OK
    \<and> seccomp_verdict t c d = seccomp_deny_action c
    \<and> seccomp_verdict t (snd (load_profile_file h depth flags path c)) d = SECCOMP_RET_ALLOW"
proof -
  have lines: "profile_lines (as_lines [''seccomp-mode deny''] @ []) =
      map (\<lambda>l. (l @ [NL], False)) [''seccomp-mode deny''] @ profile_lines []"
    by (rule profile_lines_as_lines) (simp add: short_line_def MAX_LINE_def)
  have "process_lines h flags inh (profile_lines (as_lines [''seccomp-mode deny''])) c =
      (PROFILE_OK, c\<lparr>seccomp_allow_mode := False\<rparr>)" for inh
    by (subst append_Nil2 [symmetric], subst lines)
      (simp add: profile_lines.simps seccomp_mode_deny_line [simplified])
  then have "load_profile_file h depth flags path c = (PROFILE_OK, c\<lparr>seccomp_allow_mode := False\<rparr>)"
    by (simp only: load_profile_file_fopen_ok [OF assms(1)]) simp
  then show ?thesis using assms(2-) by (simp add: seccomp_verdict_def)
qed

theorem profile_leaves_allow_mode_witness:
  "seccomp_verdict demo_target (snd (load_profile_file (demo_host (as_lines [''seccomp-mode deny''])) 0 0
      ''/etc/compartment/a.conf'' (empty_config\<lparr>seccomp_allow_mode := True, allowed_syscalls := [0]\<rparr>)))
    \<lparr>sd_nr = 101, sd_arch = 0xC000003E, sd_arg0 = 0\<rparr> = SECCOMP_RET_ALLOW"
  using profile_leaves_allow_mode [OF demo_fopen [where flags = 0], where depth = 0
      and c = "empty_config\<lparr>seccomp_allow_mode := True, allowed_syscalls := [0]\<rparr>"
      and d = "\<lparr>sd_nr = 101, sd_arch = 0xC000003E, sd_arg0 = 0\<rparr>" and t = demo_target]
  by (simp add: demo_target_def X32_BIT_def del: as_lines.simps)

text \<open>
  An unusable home directory (unset, not absolute, the root directory, not a directory or
  not the caller's) never reaches a rule: every value that mentions \<^verbatim>\<open>$HOME\<close> then fails to
  expand, and an expansion that succeeds fits the path buffer.
\<close>

theorem unusable_home_never_expanded:
  "(home_dir_usable h (h_HOME h) = None \<longrightarrow> expand_var h (a @ ''$HOME'' @ b) = None)
   \<and> (CHR ''$'' \<in> set v \<and> expand_var h v = Some r \<longrightarrow> length r < PATH_MAX)"
proof (intro conjI impI)
  assume "home_dir_usable h (h_HOME h) = None"
  then show "expand_var h (a @ ''$HOME'' @ b) = None"
    using expand_loop_no_home [of "user_name h" PATH_MAX "[]" a b] by (simp add: expand_var_def)
next
  assume "CHR ''$'' \<in> set v \<and> expand_var h v = Some r"
  then show "length r < PATH_MAX"
    using expand_loop_bound [of "home_dir_usable h (h_HOME h)" "user_name h" PATH_MAX "[]" v r]
    by (auto simp: expand_var_def PATH_MAX_def)
qed

theorem unusable_home_never_expanded_witness:
  "home_dir_usable (demo_host []) (h_HOME (demo_host [])) = None
   \<and> expand_var (demo_host []) ''$HOME/.cache'' = None"
proof -
  have "home_dir_usable (demo_host []) (h_HOME (demo_host [])) = None"
    by (simp add: home_dir_usable_def demo_host_def)
  then show ?thesis
    using unusable_home_never_expanded [of "demo_host []" "[]" "''/.cache''" "[]" "[]"] by simp
qed


section \<open>Freed strings\<close>

lemma load_frees_first_line:
  assumes "profile_fopen_trusted h flags path = Inr data"
    and "profile_lines data = ln # lns" and "\<And>inh. process_line h flags inh ln c = (PROFILE_OK, c1)"
  shows "set (sm_freed (cfg_mem c1)) \<subseteq> set (sm_freed (cfg_mem (snd (load_profile_file h depth flags path c))))"
proof -
  let ?inh = "\<lambda>val c. if depth \<ge> MAX_INHERIT_DEPTH then (PROFILE_ERROR, c)
    else inherit_with h (load_profile_into h (depth + 1)) flags path val c"
  have "mem_after c1 (snd (process_lines h flags ?inh lns c1))"
    by (intro heap.holds_E heap.holds_process_lines)
      (simp add: heap.holds_same heap.holds_inherit_with heap.holds_load_into_levels load_profile_into_def
        load_into_levels_clean)
  then show ?thesis
    by (simp add: load_profile_file_fopen_ok [OF assms(1)] assms(2,3) case_prod_beta Let_def mem_after_def)
qed

lemma freeing_directives:
  "\<not> directive_is_root_only ''workdir''" "\<not> directive_is_root_only ''audit-log''" "\<not> directive_is_user_only ''audit-log''"
  "apply_directive t inh ''workdir'' v c = (PROFILE_OK, replace_workdir v c)"
  "apply_directive t inh ''audit-log'' v c = (PROFILE_OK, replace_audit_log v c)"
  by (simp_all add: directive_is_root_only_def directive_is_user_only_def has_prefix_def apply_directive_def
      directive_env_switches_def)

text \<open>
  A rejected profile can leave its caller with freed strings: when the first line of a profile
  sets \<^verbatim>\<open>workdir\<close> (compartment-user) or \<^verbatim>\<open>audit-log\<close> (either tool) and any later line is an unknown
  directive, the load fails, the caller's record is unchanged and its own \<^verbatim>\<open>workdir\<close> or
  \<^verbatim>\<open>audit_log_dir\<close>, if it had one, points to memory that the load has freed.
\<close>

theorem rejected_load_frees_strings:
  assumes "profile_fopen_trusted h flags path = Inr (as_lines (w # ls @ l # rs))"
    and "list_all short_line (w # ls @ [l])"
    and "read_directive h (w @ [NL], False) = Some (Some (dw, v))"
    and "dw = ''workdir'' \<and> flags AND PROFILE_TOOL_ROOT = 0 \<or> dw = ''audit-log''"
    and "read_directive h (l @ [NL], False) = Some (Some (d, val))" and "d \<notin> set known_directives"
    and "\<not> (if flags AND PROFILE_TOOL_ROOT = 0 then directive_is_root_only d else directive_is_user_only d)"
    and "(if dw = ''workdir'' then workdir c else audit_log_dir c) = Some old"
  shows "let (rc, c') = load_profile_file h depth flags path c
    in rc = PROFILE_ERROR \<and> same_policy c c'
      \<and> (if dw = ''workdir'' then workdir c' else audit_log_dir c') = Some old
      \<and> (if dw = ''workdir'' then workdir_ptr c' else audit_log_ptr c') \<in> set (sm_freed (cfg_mem c'))
      \<and> \<not> strings_live c'"
proof -
  let ?r = "load_profile_file h depth flags path c"
  let ?c1 = "if dw = ''workdir'' then replace_workdir v c else replace_audit_log v c"
  have bad: "fst (process_line h flags inh (l @ [NL], False) c) \<noteq> PROFILE_OK" for inh c
    using assms(7) unknown_directive_error [OF assms(6)] by (auto simp: process_line_def assms(5) Let_def)
  have "list_all short_line ((w # ls) @ [l])" using assms(2) by simp
  from line_of_as_lines [OF this, of rs]
  have "(l @ [NL], False) \<in> set (profile_lines (as_lines (w # ls @ l # rs)))" by simp
  note rej = refused_line_rejects [OF assms(1) this bad, of depth c]
  have ln: "profile_lines (as_lines (w # ls @ l # rs)) = (w @ [NL], False) # profile_lines (as_lines (ls @ l # rs))"
    using assms(2) by (simp add: short_line_def profile_lines_newline)
  have "process_line h flags inh (w @ [NL], False) c = (PROFILE_OK, ?c1)" for inh
    using assms(4) by (elim disjE conjE) (simp_all add: process_line_def assms(3) freeing_directives)
  from load_frees_first_line [OF assms(1) ln this, of depth]
  have "set (sm_freed (cfg_mem ?c1)) \<subseteq> set (sm_freed (cfg_mem (snd ?r)))" .
  then have "(if dw = ''workdir'' then workdir_ptr c else audit_log_ptr c) \<in> set (sm_freed (cfg_mem (snd ?r)))"
    using assms(8) by (auto simp: replace_defs)
  then show ?thesis using rej same_policy_strings [OF conjunct2 [OF rej]] assms(8)
    by (cases "dw = ''workdir''") (simp_all add: case_prod_beta strings_live_def live_def)
qed

text \<open>Witness: a working directory from the command line, and a profile with a bad second line.\<close>

lemma demo_workdir_lines:
  "read_directive h (''workdir /srv'' @ [NL], False) = Some (Some (''workdir'', ''/srv''))"
  "read_directive h (''bogus'' @ [NL], False) = Some (Some (''bogus'', []))"
  by (simp_all add: read_directive_def strip_newline_def rdropWhile_def cstr_def MAX_LINE_def
      is_blank_def scan_directive_def is_space_def expand_var_def)

theorem rejected_load_frees_strings_witness:
  "let c = replace_workdir ''/home/u'' empty_config;
       (rc, c') = load_profile_file (demo_host (as_lines [''workdir /srv'', ''bogus''])) 0 0 ''/etc/compartment/a.conf'' c
   in strings_live c \<and> rc = PROFILE_ERROR \<and> workdir c' = Some ''/home/u'' \<and> \<not> strings_live c'"
proof -
  let ?c = "replace_workdir ''/home/u'' empty_config"
  have "strings_live ?c" by (simp add: replace_live)
  moreover have "workdir ?c = Some ''/home/u''" by (simp add: replace_defs)
  moreover have "profile_fopen_trusted (demo_host (as_lines [''workdir /srv'', ''bogus''])) 0 ''/etc/compartment/a.conf'' =
      Inr (as_lines (''workdir /srv'' # [] @ ''bogus'' # []))" by (simp only: demo_fopen append_Nil)
  note rejected_load_frees_strings [OF this, of "''workdir''" "''/srv''" "''bogus''" "[]" ?c "''/home/u''" 0]
  ultimately show ?thesis
    by (simp add: demo_workdir_lines [simplified] short_line_def MAX_LINE_def known_directives_def directive_is_root_only_def
        has_prefix_def case_prod_beta Let_def del: as_lines.simps)
qed

section \<open>Cycles of \<^verbatim>\<open>inherit\<close>\<close>

text \<open>
  Which file, with which flags, an \<^verbatim>\<open>inherit\<close> line of a file loads: the one beside it if there is
  one, else the one of the search path.
\<close>

definition exists_profile :: "host \<Rightarrow> u32 \<Rightarrow> string \<Rightarrow> bool" where
  "exists_profile h flags path \<longleftrightarrow> profile_fopen_trusted h flags path \<noteq> Inl PROFILE_NOT_FOUND"

definition search_target :: "host \<Rightarrow> u32 \<Rightarrow> string \<Rightarrow> (u32 \<times> string) option" where
  "search_target h flags name =
     (let etc = ''/etc/compartment/'' @ name @ ''.conf''; sys = flags AND NOT PROFILE_SEARCH_USER
      in if CHR ''/'' \<in> set name then Some (flags, name)
         else if length etc < PATH_MAX \<and> exists_profile h sys etc then Some (sys, etc)
         else case h_HOME h of
           None \<Rightarrow> None
         | Some home \<Rightarrow>
             if flags AND PROFILE_SEARCH_USER \<noteq> 0 \<and> home \<noteq> [] \<and> hd home = CHR ''/'' \<and>
                length (home @ ''/.config/compartment/'' @ name @ ''.conf'') < PATH_MAX
             then Some (flags, home @ ''/.config/compartment/'' @ name @ ''.conf'') else None)"

definition inherit_target :: "host \<Rightarrow> u32 \<Rightarrow> string \<Rightarrow> string \<Rightarrow> (u32 \<times> string) option" where
  "inherit_target h flags path val =
     (case inherit_sibling path val of
        Some sibling \<Rightarrow> if exists_profile h flags sibling then Some (flags, sibling) else search_target h flags val
      | None \<Rightarrow> search_target h flags val)"

lemma levels_found: "fst (load_into_levels n h flags path c) = PROFILE_NOT_FOUND \<longleftrightarrow> \<not> exists_profile h flags path"
proof -
  have "fst (parse_profile h inh flags path c) = PROFILE_NOT_FOUND \<longleftrightarrow> \<not> exists_profile h flags path" for inh
    using process_lines_rc [of h flags inh "profile_lines (projr (profile_fopen_trusted h flags path))" c]
    by (auto simp: parse_profile_def exists_profile_def split: sum.splits)
  then show ?thesis by (cases n) simp_all
qed

lemma load_file_with_fst: "fst (load_file_with into flags path c) = fst (into flags path c)"
  by (simp add: load_file_with_def case_prod_beta)

lemma search_target_fst:
  "search_target h flags name = Some (f, p) \<Longrightarrow>
   fst (resolve_with h (load_into_levels n h) flags name c) = fst (load_into_levels n h f p c)"
  by (auto simp: search_target_def resolve_with_clean [OF load_into_levels_clean] resolve_user_with_def Let_def
      load_file_with_fst levels_found split: if_splits option.splits)

lemma inherit_target_fst:
  assumes "inherit_target h flags path val = Some (f, p)" and "fst (load_into_levels n h f p c) \<noteq> PROFILE_OK"
  shows "fst (inherit_with h (load_into_levels n h) flags path val c) \<noteq> PROFILE_OK"
  using assms search_target_fst [of h flags val f p n c]
  by (auto simp: inherit_target_def inherit_with_clean [OF load_into_levels_clean] Let_def load_file_with_fst levels_found
      split: option.splits if_splits)

text \<open>A set of files each of which has an \<^verbatim>\<open>inherit\<close> line that leads to a file of the set.\<close>

definition inherit_cycle :: "host \<Rightarrow> (u32 \<times> string) set \<Rightarrow> bool" where
  "inherit_cycle h S \<longleftrightarrow> (\<forall>(f, p) \<in> S. \<exists>data ln val q. profile_fopen_trusted h f p = Inr data \<and>
     ln \<in> set (profile_lines data) \<and> read_directive h ln = Some (Some (''inherit'', val)) \<and>
     inherit_target h f p val = Some q \<and> q \<in> S)"

lemma inherit_line: "read_directive h ln = Some (Some (''inherit'', val)) \<Longrightarrow> process_line h flags inh ln c = inh val c"
  by (simp add: process_line_def directive_is_root_only_def directive_is_user_only_def has_prefix_def
      apply_directive_inherit)

lemma cycle_levels:
  assumes "inherit_cycle h S"
  shows "(f, p) \<in> S \<Longrightarrow> fst (load_into_levels n h f p c) = PROFILE_ERROR"
proof (induction n arbitrary: f p c)
  case 0
  then obtain data ln val where "profile_fopen_trusted h f p = Inr data" "ln \<in> set (profile_lines data)"
    "read_directive h ln = Some (Some (''inherit'', val))" using assms by (fastforce simp: inherit_cycle_def)
  then show ?case by (simp add: parse_profile_def process_lines_reject inherit_line)
next
  case (Suc n)
  then obtain data ln val g q where f: "profile_fopen_trusted h f p = Inr data" "ln \<in> set (profile_lines data)"
    "read_directive h ln = Some (Some (''inherit'', val))" and t: "inherit_target h f p val = Some (g, q)" "(g, q) \<in> S"
    using assms by (fastforce simp: inherit_cycle_def)
  have "fst (inherit_with h (load_into_levels n h) f p val c) \<noteq> PROFILE_OK" for c
    using inherit_target_fst [OF t(1)] Suc.IH [OF t(2)] by simp
  then show ?case using f by (simp add: parse_profile_def process_lines_reject inherit_line)
qed

text \<open>
  C26: inheritance ends: a file of a cycle of profiles, that is of any set of files each of which
  has an \<^verbatim>\<open>inherit\<close> line that finds a file of the set, is rejected, whatever else the files say, at
  whatever depth it is loaded, and the policy stays as it was; a profile that inherits itself is
  the cycle of one file.
\<close>

theorem cyclic_inherit_rejected:
  assumes "inherit_cycle h S" and "(flags, path) \<in> S"
  shows "fst (load_profile_file h depth flags path c) = PROFILE_ERROR \<and>
    same_policy c (snd (load_profile_file h depth flags path c))"
  using cycle_levels [OF assms] load_file_with_rollback [of "load_profile_into h depth" flags path c]
  by (simp add: load_profile_file_def load_profile_into_def load_file_with_fst)

text \<open>Witness: a profile that grants a path and then inherits itself.\<close>

lemma last_index_append: "c \<notin> set b \<Longrightarrow> last_index c (a @ c # b) = Some (length a)"
proof (induction a)
  case Nil
  have "last_index c b = None" if "c \<notin> set b" for b using that by (induction b) auto
  with Nil show ?case by simp
qed simp

lemma demo_self_inherit:
  "inherit_cycle (demo_host (as_lines [''rw /x'', ''inherit a''])) {(0, ''/etc/compartment/a.conf'')}"
proof -
  let ?h = "demo_host (as_lines [''rw /x'', ''inherit a''])" and ?p = "''/etc/compartment/a.conf''"
  have "inherit_sibling ?p ''a'' = Some ?p"
    using last_index_append [of "CHR ''/''" "''a.conf''" "''/etc/compartment''"] by (simp add: inherit_sibling_def PATH_MAX_def)
  then have "inherit_target ?h 0 ?p ''a'' = Some (0, ?p)"
    by (simp add: inherit_target_def exists_profile_def demo_fopen del: as_lines.simps)
  moreover have "list_all short_line ([''rw /x''] @ [''inherit a''])" by (simp add: short_line_def MAX_LINE_def)
  from line_of_as_lines [OF this, of "[]"]
  have "(''inherit a'' @ [NL], False) \<in> set (profile_lines (as_lines [''rw /x'', ''inherit a'']))" by simp
  moreover have "read_directive ?h (''inherit a'' @ [NL], False) = Some (Some (''inherit'', ''a''))"
    by (simp add: read_directive_def strip_newline_def rdropWhile_def cstr_def MAX_LINE_def
        is_blank_def scan_directive_def is_space_def expand_var_def)
  ultimately show ?thesis unfolding inherit_cycle_def using demo_fopen by blast
qed

theorem cyclic_inherit_rejected_witness:
  "fst (load_profile_file (demo_host (as_lines [''rw /x'', ''inherit a''])) 0 0 ''/etc/compartment/a.conf'' empty_config)
     = PROFILE_ERROR"
  using cyclic_inherit_rejected [OF demo_self_inherit, of 0 "''/etc/compartment/a.conf''" 0 empty_config] by blast

end
