(* ===== verification/Seal_Kernel.thy ===== *)
theory Seal_Kernel
  imports Comp_Prelude
begin

text \<open>
  The data of the BPF LSM module: the wire types and constants of
  \<^verbatim>\<open>src/compartment-bpf/compartment-abi.h\<close>, the BPF maps of
  \<^verbatim>\<open>src/compartment-bpf/compartment.bpf.c\<close>, and the kernel objects its programs read.

  Kernel objects live at addresses; a pointer is an address or \<^term>\<open>None\<close> for NULL, and
  following a NULL pointer with \<^verbatim>\<open>BPF_CORE_READ\<close> yields zero.  The kernel is a parameter of the
  programs and does not change while one of them runs.  The maps a program only reads are the
  record \<^verbatim>\<open>maps\<close>; the counters and the ring buffer are the record \<^verbatim>\<open>telemetry\<close>.
\<close>

unbundle bit_operations_syntax

type_synonym addr = nat

section \<open>Wire types and constants\<close>

definition COMPARTMENT_ABI_VERSION :: u32 where "COMPARTMENT_ABI_VERSION = 0x0008"
definition COMPARTMENT_MAX_DIR_ANCESTORS :: nat where "COMPARTMENT_MAX_DIR_ANCESTORS = 8"
definition COMPARTMENT_MAX_ACTORS_PER_SEAL :: nat where "COMPARTMENT_MAX_ACTORS_PER_SEAL = 4"

record inode_key =
  ik_dev :: u64
  ik_ino :: u64

definition SEAL_NO_UNLINK :: u32 where "SEAL_NO_UNLINK = 0x1"
definition SEAL_NO_RENAME :: u32 where "SEAL_NO_RENAME = 0x2"
definition SEAL_NO_WRITE :: u32 where "SEAL_NO_WRITE = 0x4"
definition SEAL_NO_CHMOD :: u32 where "SEAL_NO_CHMOD = 0x8"
definition SEAL_STRICT_LAUNCH :: u32 where "SEAL_STRICT_LAUNCH = 0x20"
definition SEAL_FULL :: u32 where
  "SEAL_FULL = SEAL_NO_UNLINK OR SEAL_NO_RENAME OR SEAL_NO_WRITE OR SEAL_NO_CHMOD"

lemmas seal_flag_defs = SEAL_NO_UNLINK_def SEAL_NO_RENAME_def SEAL_NO_WRITE_def SEAL_NO_CHMOD_def
  SEAL_STRICT_LAUNCH_def SEAL_FULL_def

definition ACTION_DENY_UNLINK :: u32 where "ACTION_DENY_UNLINK = 1"
definition ACTION_DENY_RENAME :: u32 where "ACTION_DENY_RENAME = 2"
definition ACTION_DENY_WRITE :: u32 where "ACTION_DENY_WRITE = 3"
definition ACTION_DENY_ACTOR_MISMATCH :: u32 where "ACTION_DENY_ACTOR_MISMATCH = 4"
definition ACTION_DENY_CHMOD :: u32 where "ACTION_DENY_CHMOD = 5"
definition ACTION_DENY_CREATE :: u32 where "ACTION_DENY_CREATE = 6"
definition ACTION_DENY_STRICT_LAUNCH_MISSING :: u32 where "ACTION_DENY_STRICT_LAUNCH_MISSING = 8"
definition ACTION_DENY_WRITE_PARENT_DIR :: u32 where "ACTION_DENY_WRITE_PARENT_DIR = 9"
definition ACTION_DENY_CHMOD_PARENT_DIR :: u32 where "ACTION_DENY_CHMOD_PARENT_DIR = 10"
definition ACTION_DENY_PRCTL_SET_MM :: u32 where "ACTION_DENY_PRCTL_SET_MM = 11"
definition ACTION_DENY_PTRACE_ACCESS :: u32 where "ACTION_DENY_PTRACE_ACCESS = 12"
definition ACTION_DENY_PTRACE_TRACEME :: u32 where "ACTION_DENY_PTRACE_TRACEME = 13"
definition ACTION_DENY_MOUNT :: u32 where "ACTION_DENY_MOUNT = 14"
definition ACTION_DENY_UMOUNT :: u32 where "ACTION_DENY_UMOUNT = 15"
definition ACTION_DENY_BPF_SELF :: u32 where "ACTION_DENY_BPF_SELF = 16"
definition ACTION_DENY_PIN_TAMPER :: u32 where "ACTION_DENY_PIN_TAMPER = 17"

record audit_event =
  ae_version :: u32
  ae_pad0 :: u32
  ae_ts_ns :: u64
  ae_pid :: u32
  ae_ppid :: u32
  ae_uid :: u32
  ae_action :: u32
  ae_dev :: u64
  ae_ino :: u64
  ae_caller_dev :: u64
  ae_caller_ino :: u64
  ae_comm :: string
  ae_actor_name :: string

text \<open>The array \<^verbatim>\<open>actor[4]\<close> is a function of which the first four values are used.\<close>

record seal_value =
  sv_flags :: u32
  sv_actor_count :: u8
  sv_actor :: "nat \<Rightarrow> inode_key"
  sv_actor_name :: string
  sv_strict_actor_slot :: u32
  sv_strict_generation :: u32

record launcher_actor =
  la_target :: inode_key
  la_actor_slot :: u32
  la_policy_generation :: u32

record actor_marker =
  am_target :: inode_key
  am_actor_slot :: u32
  am_policy_generation :: u32
  am_state :: u32

record policy_state =
  ps_generation :: u32
  ps_strict_loaded :: u32

record self_protect_cfg =
  sp_pin_dev :: u64
  sp_enabled :: u32

section \<open>Maps\<close>

record maps =
  sealed_inodes :: "inode_key \<rightharpoonup> seal_value"
  sealed_dirs :: "inode_key \<rightharpoonup> seal_value"
  sealed_devs :: "u64 \<rightharpoonup> u32"
  launcher_to_actor :: "inode_key \<rightharpoonup> launcher_actor"
  actor_marker_map :: "addr \<rightharpoonup> actor_marker"      \<comment> \<open>task storage\<close>
  policy_state_map :: "policy_state option"
  self_protect_cfg_map :: "self_protect_cfg option"
  protected_map_ids :: "u32 \<rightharpoonup> u8"
  loader_ids :: "inode_key \<rightharpoonup> u8"
  protected_pins :: "inode_key \<rightharpoonup> u8"

datatype counter =
    deny_total | audit_drop_total | actor_mismatch_total
  | strict_launch_missing_total | strict_launch_allowed_total
  | marker_set_total | marker_set_fail_total | marker_clear_foreign_exec_total
  | marker_copy_fork_total | marker_stale_generation_total
  | prctl_set_mm_exe_file_denied_total | ptrace_access_denied_total | ptrace_traceme_denied_total
  | bpf_self_denied_total | pin_tamper_denied_total

text \<open>
  A counter is the slot of the CPU the program runs on.  The ring buffer is the events
  submitted so far with the number of records there is still room for.
\<close>

record telemetry =
  counters :: "counter \<Rightarrow> u64"
  audit_rb :: "audit_event list"
  rb_room :: nat

section \<open>Kernel objects\<close>

record inode =
  i_ino :: u64
  i_sb :: "addr option"
  i_mode :: u16
  i_nlink :: u32

record super_block =
  s_dev :: u32
  s_root :: "addr option"

record dentry =
  d_inode :: "addr option"
  d_parent :: "addr option"

record kfile =
  f_mode :: u32
  f_inode :: "addr option"
  f_dentry :: "addr option"              \<comment> \<open>\<^verbatim>\<open>f_path.dentry\<close>\<close>

record vfsmount =
  mnt_root :: "addr option"
  mnt_sb :: "addr option"

record kpath =
  p_mnt :: "addr option"
  p_dentry :: "addr option"

record task =
  t_exe_file :: "addr option"            \<comment> \<open>\<^verbatim>\<open>mm->exe_file\<close>, NULL also when \<^verbatim>\<open>mm\<close> is\<close>
  t_real_parent_tgid :: u32

record kernel =
  k_inode :: "addr \<Rightarrow> inode"
  k_sb :: "addr \<Rightarrow> super_block"
  k_dentry :: "addr \<Rightarrow> dentry"
  k_file :: "addr \<Rightarrow> kfile"
  k_mount :: "addr \<Rightarrow> vfsmount"
  k_task :: "addr \<Rightarrow> task"
  k_current :: "addr option"             \<comment> \<open>\<^verbatim>\<open>bpf_get_current_task_btf()\<close>\<close>
  k_pid_tgid :: u64
  k_uid_gid :: u64
  k_ktime_ns :: u64
  k_comm :: string
  k_storage_ok :: bool                   \<comment> \<open>whether task storage can be allocated\<close>

text \<open>Reads through a pointer that may be NULL.\<close>

definition dentry_inode :: "kernel \<Rightarrow> addr option \<Rightarrow> addr option" where
  "dentry_inode K d = (case d of None \<Rightarrow> None | Some a \<Rightarrow> d_inode (k_dentry K a))"

definition dentry_parent :: "kernel \<Rightarrow> addr option \<Rightarrow> addr option" where
  "dentry_parent K d = (case d of None \<Rightarrow> None | Some a \<Rightarrow> d_parent (k_dentry K a))"

definition file_inode :: "kernel \<Rightarrow> addr option \<Rightarrow> addr option" where
  "file_inode K f = (case f of None \<Rightarrow> None | Some a \<Rightarrow> f_inode (k_file K a))"

definition file_dentry :: "kernel \<Rightarrow> addr option \<Rightarrow> addr option" where
  "file_dentry K f = (case f of None \<Rightarrow> None | Some a \<Rightarrow> f_dentry (k_file K a))"

definition EACCES :: int where "EACCES = 13"
definition EPERM :: int where "EPERM = 1"

section \<open>A program's own state\<close>

record caller_id =
  cid_dev :: u64
  cid_ino :: u64
  cid_resolved :: bool
  cid_valid :: bool

definition empty_cid :: caller_id where
  "empty_cid = \<lparr>cid_dev = 0, cid_ino = 0, cid_resolved = False, cid_valid = False\<rparr>"

record hctx =
  tele :: telemetry
  cid :: caller_id

type_synonym check = "hctx \<Rightarrow> int \<times> hctx"

text \<open>\<^verbatim>\<open>r = a(); if (r) return r; return b();\<close>\<close>

definition then_check :: "check \<Rightarrow> check \<Rightarrow> check" where
  "then_check a b x = (case a x of (r, x') \<Rightarrow> if r \<noteq> 0 then (r, x') else b x')"

text \<open>\<^verbatim>\<open>if (a()) return -EACCES;\<close>\<close>

definition or_eacces :: "check \<Rightarrow> check" where
  "or_eacces a x = (case a x of (r, x') \<Rightarrow> if r \<noteq> 0 then (- EACCES, x') else (0, x'))"

definition allow :: check where
  "allow x = (0, x)"

text \<open>
  A hook: a decision an earlier module made is passed on; otherwise the checks run with a fresh
  caller id.
\<close>

definition run_hook :: "int \<Rightarrow> check \<Rightarrow> telemetry \<Rightarrow> int \<times> telemetry" where
  "run_hook ret c t =
     (if ret \<noteq> 0 then (ret, t)
      else case c \<lparr>tele = t, cid = empty_cid\<rparr> of (r, x) \<Rightarrow> (r, tele x))"

end
