(* ===== verification/Seal_Checks.thy ===== *)
theory Seal_Checks
  imports Seal_Kernel
begin

text \<open>
  The helpers of \<^verbatim>\<open>src/compartment-bpf/compartment.bpf.c\<close>, in the order of the file: counters and
  audit events, caller identity, the actor and strict-launch checks of one seal, the seals of
  one inode, the walks over ancestor directories, and the self-protection gates.  Each check
  maps the program's state to its return value and the state after it.
\<close>

section \<open>Counters and audit events\<close>

definition bump :: "counter \<Rightarrow> telemetry \<Rightarrow> telemetry" where
  "bump c t = t\<lparr>counters := (counters t)(c := counters t c + 1)\<rparr>"

definition make_event :: "kernel \<Rightarrow> u32 \<Rightarrow> u64 \<Rightarrow> u64 \<Rightarrow> u64 \<Rightarrow> u64 \<Rightarrow> string option \<Rightarrow> audit_event" where
  "make_event K action dev ino caller_dev caller_ino name =
     \<lparr>ae_version = COMPARTMENT_ABI_VERSION, ae_pad0 = 0, ae_ts_ns = k_ktime_ns K,
      ae_pid = ucast (drop_bit 32 (k_pid_tgid K)),
      ae_ppid = (case k_current K of None \<Rightarrow> 0 | Some t \<Rightarrow> t_real_parent_tgid (k_task K t)),
      ae_uid = ucast (k_uid_gid K AND 0xffffffff),
      ae_action = action, ae_dev = dev, ae_ino = ino,
      ae_caller_dev = caller_dev, ae_caller_ino = caller_ino, ae_comm = k_comm K,
      ae_actor_name = (case name of Some n \<Rightarrow> n | None \<Rightarrow> replicate 16 NUL)\<rparr>"

text \<open>The deny is counted before the ring buffer is asked for room.\<close>

definition emit_audit_actor ::
  "kernel \<Rightarrow> u32 \<Rightarrow> u64 \<Rightarrow> u64 \<Rightarrow> u64 \<Rightarrow> u64 \<Rightarrow> string option \<Rightarrow> telemetry \<Rightarrow> telemetry" where
  "emit_audit_actor K action dev ino caller_dev caller_ino name t =
     (let t = bump deny_total t
      in if rb_room t = 0 then bump audit_drop_total t
         else t\<lparr>audit_rb := audit_rb t @ [make_event K action dev ino caller_dev caller_ino name],
                rb_room := rb_room t - 1\<rparr>)"

definition emit_audit :: "kernel \<Rightarrow> u32 \<Rightarrow> u64 \<Rightarrow> u64 \<Rightarrow> telemetry \<Rightarrow> telemetry" where
  "emit_audit K action dev ino = emit_audit_actor K action dev ino 0 0 None"

definition on_tele :: "(telemetry \<Rightarrow> telemetry) \<Rightarrow> hctx \<Rightarrow> hctx" where
  "on_tele f x = x\<lparr>tele := f (tele x)\<rparr>"

section \<open>Identities\<close>

definition sb_dev :: "kernel \<Rightarrow> addr option \<Rightarrow> u64" where
  "sb_dev K sb = (case sb of None \<Rightarrow> 0 | Some a \<Rightarrow> ucast (s_dev (k_sb K a)))"

definition inode_key_of :: "kernel \<Rightarrow> addr option \<Rightarrow> inode_key" where
  "inode_key_of K p =
     (case p of
        None \<Rightarrow> \<lparr>ik_dev = 0, ik_ino = 0\<rparr>
      | Some a \<Rightarrow> \<lparr>ik_dev = sb_dev K (i_sb (k_inode K a)), ik_ino = i_ino (k_inode K a)\<rparr>)"

definition caller_id_resolve_locked :: "kernel \<Rightarrow> caller_id" where
  "caller_id_resolve_locked K =
     (case k_current K of
        None \<Rightarrow> empty_cid\<lparr>cid_resolved := True\<rparr>
      | Some t \<Rightarrow>
          (case t_exe_file (k_task K t) of
             None \<Rightarrow> empty_cid\<lparr>cid_resolved := True\<rparr>
           | Some exe \<Rightarrow>
               (case f_inode (k_file K exe) of
                  None \<Rightarrow> empty_cid\<lparr>cid_resolved := True\<rparr>
                | Some ei \<Rightarrow>
                    \<lparr>cid_dev = sb_dev K (i_sb (k_inode K ei)), cid_ino = i_ino (k_inode K ei),
                     cid_resolved = True, cid_valid = True\<rparr>)))"

definition resolve_cid :: "kernel \<Rightarrow> hctx \<Rightarrow> hctx" where
  "resolve_cid K x = (if cid_resolved (cid x) then x else x\<lparr>cid := caller_id_resolve_locked K\<rparr>)"

definition cid_dev_or_0 :: "caller_id \<Rightarrow> u64" where
  "cid_dev_or_0 c = (if cid_valid c then cid_dev c else 0)"

definition cid_ino_or_0 :: "caller_id \<Rightarrow> u64" where
  "cid_ino_or_0 c = (if cid_valid c then cid_ino c else 0)"

section \<open>One seal\<close>

definition deny_actor_mismatch :: "kernel \<Rightarrow> seal_value option \<Rightarrow> u64 \<Rightarrow> u64 \<Rightarrow> u64 \<Rightarrow> u64 \<Rightarrow> check" where
  "deny_actor_mismatch K sv dev ino cdev cino x =
     (- EACCES,
      on_tele (\<lambda>t. emit_audit_actor K ACTION_DENY_ACTOR_MISMATCH dev ino cdev cino
                     (map_option sv_actor_name sv) (bump actor_mismatch_total t)) x)"

definition actor_listed :: "seal_value \<Rightarrow> caller_id \<Rightarrow> bool" where
  "actor_listed sv c =
     (let n = (if unat (sv_actor_count sv) > COMPARTMENT_MAX_ACTORS_PER_SEAL
               then COMPARTMENT_MAX_ACTORS_PER_SEAL else unat (sv_actor_count sv))
      in list_ex (\<lambda>i. i < n \<and> cid_dev c = ik_dev (sv_actor sv i) \<and> cid_ino c = ik_ino (sv_actor sv i))
           [0..<COMPARTMENT_MAX_ACTORS_PER_SEAL])"

definition actor_check_or_deny :: "kernel \<Rightarrow> seal_value option \<Rightarrow> u32 \<Rightarrow> u64 \<Rightarrow> u64 \<Rightarrow> check" where
  "actor_check_or_deny K sv action dev ino x =
     (case sv of
        None \<Rightarrow> deny_actor_mismatch K None dev ino 0 0 x
      | Some v \<Rightarrow>
          if sv_actor_count v = 0 then (- EACCES, on_tele (emit_audit K action dev ino) x)
          else let x = resolve_cid K x
               in if \<not> cid_valid (cid x) then deny_actor_mismatch K sv dev ino 0 0 x
                  else if actor_listed v (cid x) then (0, x)
                  else deny_actor_mismatch K sv dev ino (cid_dev (cid x)) (cid_ino (cid x)) x)"

definition cur_strict_generation :: "maps \<Rightarrow> u32" where
  "cur_strict_generation M = (case policy_state_map M of Some ps \<Rightarrow> ps_generation ps | None \<Rightarrow> 0)"

definition cur_strict_loaded :: "maps \<Rightarrow> u32" where
  "cur_strict_loaded M = (case policy_state_map M of Some ps \<Rightarrow> ps_strict_loaded ps | None \<Rightarrow> 0)"

definition deny_strict_launch :: "kernel \<Rightarrow> seal_value \<Rightarrow> u64 \<Rightarrow> u64 \<Rightarrow> u64 \<Rightarrow> u64 \<Rightarrow> bool \<Rightarrow> check" where
  "deny_strict_launch K sv dev ino cdev cino stale x =
     (- EACCES,
      on_tele (\<lambda>t. emit_audit_actor K ACTION_DENY_STRICT_LAUNCH_MISSING dev ino cdev cino
                     (Some (sv_actor_name sv))
                     (let t = bump strict_launch_missing_total t
                      in if stale then bump marker_stale_generation_total t else t)) x)"

definition strict_launch_check_or_deny :: "kernel \<Rightarrow> maps \<Rightarrow> seal_value \<Rightarrow> u64 \<Rightarrow> u64 \<Rightarrow> check" where
  "strict_launch_check_or_deny K M sv dev ino x =
     (let x = resolve_cid K x; c = cid x;
          deny = deny_strict_launch K sv dev ino (cid_dev_or_0 c) (cid_ino_or_0 c)
      in if \<not> cid_valid c then deny_strict_launch K sv dev ino 0 0 False x
         else case k_current K of
           None \<Rightarrow> deny_strict_launch K sv dev ino 0 0 False x
         | Some t \<Rightarrow>
             (case actor_marker_map M t of
                None \<Rightarrow> deny False x
              | Some am \<Rightarrow>
                  if am_state am = 0 then deny False x
                  else if ik_dev (am_target am) \<noteq> cid_dev c \<or> ik_ino (am_target am) \<noteq> cid_ino c
                  then deny_strict_launch K sv dev ino (cid_dev c) (cid_ino c) False x
                  else if am_actor_slot am \<noteq> sv_strict_actor_slot sv then deny False x
                  else if am_policy_generation am \<noteq> cur_strict_generation M \<or>
                          am_policy_generation am \<noteq> sv_strict_generation sv then deny True x
                  else (0, on_tele (bump strict_launch_allowed_total) x)))"

definition seal_decision :: "kernel \<Rightarrow> maps \<Rightarrow> seal_value option \<Rightarrow> u32 \<Rightarrow> u32 \<Rightarrow> u64 \<Rightarrow> u64 \<Rightarrow> check" where
  "seal_decision K M sv msk action dev ino =
     (case sv of
        None \<Rightarrow> allow
      | Some v \<Rightarrow>
          if sv_flags v AND msk = 0 then allow
          else then_check (actor_check_or_deny K sv action dev ino)
                 (if sv_flags v AND SEAL_STRICT_LAUNCH \<noteq> 0
                  then strict_launch_check_or_deny K M v dev ino else allow))"

section \<open>The seals of one inode\<close>

text \<open>Key and seals, or \<^term>\<open>None\<close> when the C function returns 0.\<close>

definition lookup_inode_seals ::
  "kernel \<Rightarrow> maps \<Rightarrow> addr option \<Rightarrow> (inode_key \<times> seal_value option \<times> seal_value option) option" where
  "lookup_inode_seals K M p =
     (let k = inode_key_of K p
      in if p = None then None
         else if ik_dev k = 0 \<and> ik_ino k = 0 then None
         else let isv = sealed_inodes M k; dsv = sealed_dirs M k
              in if isv = None \<and> dsv = None then None else Some (k, isv, dsv))"

definition deny_inode_action :: "kernel \<Rightarrow> maps \<Rightarrow> addr option \<Rightarrow> u32 \<Rightarrow> u32 \<Rightarrow> check" where
  "deny_inode_action K M p msk action =
     (case lookup_inode_seals K M p of
        None \<Rightarrow> allow
      | Some (k, isv, dsv) \<Rightarrow>
          then_check (seal_decision K M isv msk action (ik_dev k) (ik_ino k))
            (seal_decision K M dsv msk action (ik_dev k) (ik_ino k)))"

section \<open>Ancestor walks\<close>

record dir_seal_hit =
  hit_key :: inode_key
  hit_depth :: nat

text \<open>The seal entry of a directory dentry, if it has an inode with a usable key.\<close>

definition dir_entry :: "kernel \<Rightarrow> maps \<Rightarrow> addr \<Rightarrow> (inode_key \<times> seal_value) option" where
  "dir_entry K M d =
     (case d_inode (k_dentry K d) of
        None \<Rightarrow> None
      | Some i \<Rightarrow>
          let dk = inode_key_of K (Some i)
          in if ik_dev dk \<noteq> 0 \<or> ik_ino dk \<noteq> 0
             then map_option (\<lambda>sv. (dk, sv)) (sealed_dirs M dk) else None)"

text \<open>\<^verbatim>\<open>n\<close> turns of the loop are left and \<^verbatim>\<open>depth\<close> are done.\<close>

fun find_hit_from :: "nat \<Rightarrow> nat \<Rightarrow> kernel \<Rightarrow> maps \<Rightarrow> addr option \<Rightarrow> u32 \<Rightarrow> dir_seal_hit option" where
  "find_hit_from 0 depth K M cur msk = None"
| "find_hit_from (Suc n) depth K M cur msk =
     (case cur of
        None \<Rightarrow> None
      | Some d \<Rightarrow>
          let up = (let parent = d_parent (k_dentry K d)
                    in if parent = None \<or> parent = Some d then None
                       else find_hit_from n (Suc depth) K M parent msk)
          in (case dir_entry K M d of
                Some (dk, sv) \<Rightarrow>
                  if sv_flags sv AND msk \<noteq> 0 then Some \<lparr>hit_key = dk, hit_depth = depth\<rparr> else up
              | None \<Rightarrow> up))"

definition find_nearest_dir_seal_hit_from_dir_dentry ::
  "kernel \<Rightarrow> maps \<Rightarrow> addr option \<Rightarrow> u32 \<Rightarrow> dir_seal_hit option" where
  "find_nearest_dir_seal_hit_from_dir_dentry K M d msk =
     find_hit_from COMPARTMENT_MAX_DIR_ANCESTORS 0 K M d msk"

fun deny_ancestors_from :: "nat \<Rightarrow> kernel \<Rightarrow> maps \<Rightarrow> addr option \<Rightarrow> u32 \<Rightarrow> u32 \<Rightarrow> check" where
  "deny_ancestors_from 0 K M cur msk action = allow"
| "deny_ancestors_from (Suc n) K M cur msk action =
     (case cur of
        None \<Rightarrow> allow
      | Some d \<Rightarrow>
          then_check
            (case dir_entry K M d of
               Some (dk, sv) \<Rightarrow> seal_decision K M (Some sv) msk action (ik_dev dk) (ik_ino dk)
             | None \<Rightarrow> allow)
            (let parent = d_parent (k_dentry K d)
             in if parent = None \<or> parent = Some d then allow
                else deny_ancestors_from n K M parent msk action))"

definition deny_dir_ancestor_action_from_dir_dentry ::
  "kernel \<Rightarrow> maps \<Rightarrow> addr option \<Rightarrow> u32 \<Rightarrow> u32 \<Rightarrow> check" where
  "deny_dir_ancestor_action_from_dir_dentry K M d msk action =
     deny_ancestors_from COMPARTMENT_MAX_DIR_ANCESTORS K M d msk action"

text \<open>The parent of a dentry, unless it has none or is its own.\<close>

definition parent_of :: "kernel \<Rightarrow> addr option \<Rightarrow> addr option" where
  "parent_of K d =
     (let parent = dentry_parent K d in if parent = None \<or> parent = d then None else parent)"

section \<open>Subtree invariants\<close>

definition deny_runtime_subtree_depth_cap :: "kernel \<Rightarrow> u32 \<Rightarrow> dir_seal_hit option \<Rightarrow> check" where
  "deny_runtime_subtree_depth_cap K action hit x =
     (case hit of
        None \<Rightarrow> (0, x)
      | Some h \<Rightarrow> (- EACCES, on_tele (emit_audit K action (ik_dev (hit_key h)) (ik_ino (hit_key h))) x))"

definition deny_subtree_invariant_on_child_dentry :: "kernel \<Rightarrow> maps \<Rightarrow> addr option \<Rightarrow> u32 \<Rightarrow> check" where
  "deny_subtree_invariant_on_child_dentry K M d action =
     (case d of
        None \<Rightarrow> allow
      | Some _ \<Rightarrow>
          (case parent_of K d of
             None \<Rightarrow> allow
           | Some p \<Rightarrow>
               (case find_nearest_dir_seal_hit_from_dir_dentry K M (Some p) SEAL_NO_WRITE of
                  None \<Rightarrow> allow
                | Some h \<Rightarrow> deny_runtime_subtree_depth_cap K action (Some h))))"

definition deny_mkdir_subtree_depth_cap :: "kernel \<Rightarrow> maps \<Rightarrow> addr option \<Rightarrow> check" where
  "deny_mkdir_subtree_depth_cap K M d =
     (case d of
        None \<Rightarrow> allow
      | Some _ \<Rightarrow>
          (case parent_of K d of
             None \<Rightarrow> allow
           | Some p \<Rightarrow>
               (case find_nearest_dir_seal_hit_from_dir_dentry K M (Some p) SEAL_NO_WRITE of
                  None \<Rightarrow> allow
                | Some h \<Rightarrow>
                    if hit_depth h + 1 \<ge> COMPARTMENT_MAX_DIR_ANCESTORS
                    then deny_runtime_subtree_depth_cap K ACTION_DENY_CREATE (Some h) else allow)))"

definition is_dir_mode :: "u16 \<Rightarrow> bool" where
  "is_dir_mode m \<longleftrightarrow> m AND 0xF000 = 0x4000"

definition is_lnk_mode :: "u16 \<Rightarrow> bool" where
  "is_lnk_mode m \<longleftrightarrow> m AND 0xF000 = 0xA000"

definition deny_dir_rename_subtree_depth_cap :: "kernel \<Rightarrow> maps \<Rightarrow> addr option \<Rightarrow> addr option \<Rightarrow> check" where
  "deny_dir_rename_subtree_depth_cap K M old_dentry new_dentry =
     (if old_dentry = None \<or> new_dentry = None then allow
      else case dentry_inode K old_dentry of
        None \<Rightarrow> allow
      | Some old_target \<Rightarrow>
          if \<not> is_dir_mode (i_mode (k_inode K old_target)) then allow
          else case parent_of K new_dentry of
            None \<Rightarrow> allow
          | Some new_parent \<Rightarrow>
              (case find_nearest_dir_seal_hit_from_dir_dentry K M (Some new_parent) SEAL_NO_WRITE of
                 None \<Rightarrow> allow
               | Some new_hit \<Rightarrow>
                   let deny = deny_runtime_subtree_depth_cap K ACTION_DENY_RENAME (Some new_hit)
                   in if hit_depth new_hit + 1 \<ge> COMPARTMENT_MAX_DIR_ANCESTORS then deny
                      else case parent_of K old_dentry of
                        None \<Rightarrow> deny
                      | Some old_parent \<Rightarrow>
                          (case find_nearest_dir_seal_hit_from_dir_dentry K M (Some old_parent) SEAL_NO_WRITE of
                             None \<Rightarrow> deny
                           | Some old_hit \<Rightarrow>
                               if hit_key old_hit \<noteq> hit_key new_hit then deny
                               else if hit_depth new_hit > hit_depth old_hit then deny
                               else allow)))"

definition deny_hardlink_subtree_alias_invariants ::
  "kernel \<Rightarrow> maps \<Rightarrow> addr option \<Rightarrow> addr option \<Rightarrow> check" where
  "deny_hardlink_subtree_alias_invariants K M old_dentry new_dentry =
     then_check (deny_subtree_invariant_on_child_dentry K M old_dentry ACTION_DENY_WRITE_PARENT_DIR)
       (deny_subtree_invariant_on_child_dentry K M new_dentry ACTION_DENY_CREATE)"

definition deny_non_dir_rename_subtree_alias_invariants ::
  "kernel \<Rightarrow> maps \<Rightarrow> addr option \<Rightarrow> addr option \<Rightarrow> check" where
  "deny_non_dir_rename_subtree_alias_invariants K M old_dentry new_dentry =
     (if old_dentry = None \<or> new_dentry = None then allow
      else case dentry_inode K old_dentry of
        None \<Rightarrow> allow
      | Some old_target \<Rightarrow>
          let mode = i_mode (k_inode K old_target)
          in if is_dir_mode mode then allow
             else case parent_of K new_dentry of
               None \<Rightarrow> allow
             | Some new_parent \<Rightarrow>
                 (case find_nearest_dir_seal_hit_from_dir_dentry K M (Some new_parent) SEAL_NO_WRITE of
                    None \<Rightarrow> allow
                  | Some new_hit \<Rightarrow>
                      let deny = deny_runtime_subtree_depth_cap K ACTION_DENY_RENAME (Some new_hit)
                      in if is_lnk_mode mode then deny
                         else if i_nlink (k_inode K old_target) > 1 then deny
                         else allow))"

section \<open>Parent directories and writes\<close>

definition deny_file_parent_dir_action :: "kernel \<Rightarrow> maps \<Rightarrow> addr option \<Rightarrow> u32 \<Rightarrow> u32 \<Rightarrow> check" where
  "deny_file_parent_dir_action K M f msk action =
     (case file_dentry K f of
        None \<Rightarrow> allow
      | Some d \<Rightarrow>
          (case parent_of K (Some d) of
             None \<Rightarrow> allow
           | Some p \<Rightarrow> deny_dir_ancestor_action_from_dir_dentry K M (Some p) msk action))"

definition deny_dentry_parent_dir_action :: "kernel \<Rightarrow> maps \<Rightarrow> addr option \<Rightarrow> u32 \<Rightarrow> u32 \<Rightarrow> check" where
  "deny_dentry_parent_dir_action K M d msk action =
     (case d of
        None \<Rightarrow> allow
      | Some _ \<Rightarrow>
          (case parent_of K d of
             None \<Rightarrow> allow
           | Some p \<Rightarrow> deny_dir_ancestor_action_from_dir_dentry K M (Some p) msk action))"

definition deny_file_write :: "kernel \<Rightarrow> maps \<Rightarrow> addr option \<Rightarrow> check" where
  "deny_file_write K M f =
     (case f of
        None \<Rightarrow> allow
      | Some _ \<Rightarrow>
          then_check (deny_inode_action K M (file_inode K f) SEAL_NO_WRITE ACTION_DENY_WRITE)
            (deny_file_parent_dir_action K M f SEAL_NO_WRITE ACTION_DENY_WRITE_PARENT_DIR))"

section \<open>Self-protection\<close>

definition self_protect :: "maps \<Rightarrow> self_protect_cfg option" where
  "self_protect M =
     (case self_protect_cfg_map M of
        None \<Rightarrow> None
      | Some c \<Rightarrow> if sp_enabled c = 0 then None else Some c)"

text \<open>\<^verbatim>\<open>caller_is_loader\<close>: the answer, and the state with the caller id resolved.\<close>

definition caller_is_loader :: "kernel \<Rightarrow> maps \<Rightarrow> hctx \<Rightarrow> bool \<times> hctx" where
  "caller_is_loader K M x =
     (let x = resolve_cid K x; c = cid x
      in (cid_valid c \<and> loader_ids M \<lparr>ik_dev = cid_dev c, ik_ino = cid_ino c\<rparr> \<noteq> None, x))"

definition deny_self_protect :: "kernel \<Rightarrow> u32 \<Rightarrow> counter \<Rightarrow> u64 \<Rightarrow> u64 \<Rightarrow> int \<Rightarrow> check" where
  "deny_self_protect K action counter dev ino err x =
     (err,
      on_tele (\<lambda>t. emit_audit_actor K action dev ino (cid_dev_or_0 (cid x)) (cid_ino_or_0 (cid x)) None
                     (bump counter t)) x)"

definition deny_pin_tamper :: "kernel \<Rightarrow> maps \<Rightarrow> addr option \<Rightarrow> check" where
  "deny_pin_tamper K M p x =
     (case self_protect M of
        None \<Rightarrow> (0, x)
      | Some cfg \<Rightarrow>
          if p = None then (0, x)
          else let k = inode_key_of K p
               in if ik_dev k = 0 \<or> ik_dev k \<noteq> sp_pin_dev cfg then (0, x)
                  else if protected_pins M k = None then (0, x)
                  else case caller_is_loader K M x of
                    (loader, x) \<Rightarrow>
                      if loader then (0, x)
                      else deny_self_protect K ACTION_DENY_PIN_TAMPER pin_tamper_denied_total
                             (ik_dev k) (ik_ino k) (- EACCES) x)"

definition deny_pin_tamper_dentry :: "kernel \<Rightarrow> maps \<Rightarrow> addr option \<Rightarrow> check" where
  "deny_pin_tamper_dentry K M d =
     (case d of None \<Rightarrow> allow | Some _ \<Rightarrow> deny_pin_tamper K M (dentry_inode K d))"

end
