(* ===== verification/Seal_Hooks.thy ===== *)
theory Seal_Hooks
  imports Seal_Checks
begin

text \<open>
  The LSM programs of \<^verbatim>\<open>src/compartment-bpf/compartment.bpf.c\<close>, one definition per program.
  Arguments a program ignores are left out; \<^verbatim>\<open>ret\<close> is the decision of the modules before it.
  The programs that only decide return the decision and the telemetry; the two that maintain
  the launch markers return the maps as well.
\<close>

section \<open>Names and entries\<close>

definition unlink_checks :: "kernel \<Rightarrow> maps \<Rightarrow> addr option \<Rightarrow> check" where
  "unlink_checks K M dentry =
     then_check (or_eacces (deny_pin_tamper_dentry K M dentry))
       (then_check (or_eacces (deny_dentry_parent_dir_action K M dentry SEAL_NO_UNLINK ACTION_DENY_UNLINK))
         (or_eacces (deny_inode_action K M (dentry_inode K dentry) SEAL_NO_UNLINK ACTION_DENY_UNLINK)))"

definition comp_inode_unlink :: "kernel \<Rightarrow> maps \<Rightarrow> addr option \<Rightarrow> int \<Rightarrow> telemetry \<Rightarrow> int \<times> telemetry" where
  "comp_inode_unlink K M dentry ret = run_hook ret (unlink_checks K M dentry)"

definition rename_checks :: "kernel \<Rightarrow> maps \<Rightarrow> addr option \<Rightarrow> addr option \<Rightarrow> check" where
  "rename_checks K M old_dentry new_dentry =
     then_check (or_eacces (deny_pin_tamper_dentry K M old_dentry))
    (then_check (or_eacces (deny_pin_tamper_dentry K M new_dentry))
    (then_check (deny_dentry_parent_dir_action K M old_dentry (SEAL_NO_RENAME OR SEAL_NO_UNLINK) ACTION_DENY_RENAME)
    (then_check (deny_dentry_parent_dir_action K M old_dentry SEAL_NO_WRITE ACTION_DENY_WRITE_PARENT_DIR)
    (then_check (deny_dentry_parent_dir_action K M new_dentry SEAL_NO_RENAME ACTION_DENY_RENAME)
    (then_check (deny_dentry_parent_dir_action K M new_dentry SEAL_NO_WRITE ACTION_DENY_WRITE_PARENT_DIR)
    (then_check (deny_non_dir_rename_subtree_alias_invariants K M old_dentry new_dentry)
    (then_check (deny_dir_rename_subtree_depth_cap K M old_dentry new_dentry)
    (then_check (or_eacces (deny_inode_action K M (dentry_inode K old_dentry)
                   (SEAL_NO_RENAME OR SEAL_NO_UNLINK) ACTION_DENY_RENAME))
       (or_eacces (deny_inode_action K M (dentry_inode K new_dentry)
                   (SEAL_NO_RENAME OR SEAL_NO_UNLINK OR SEAL_NO_WRITE) ACTION_DENY_RENAME))))))))))"

definition comp_inode_rename ::
  "kernel \<Rightarrow> maps \<Rightarrow> addr option \<Rightarrow> addr option \<Rightarrow> int \<Rightarrow> telemetry \<Rightarrow> int \<times> telemetry" where
  "comp_inode_rename K M old_dentry new_dentry ret = run_hook ret (rename_checks K M old_dentry new_dentry)"

definition rmdir_checks :: "kernel \<Rightarrow> maps \<Rightarrow> addr option \<Rightarrow> check" where
  "rmdir_checks K M dentry =
     then_check (or_eacces (deny_pin_tamper_dentry K M dentry))
       (then_check (or_eacces (deny_dentry_parent_dir_action K M dentry SEAL_NO_UNLINK ACTION_DENY_UNLINK))
         (or_eacces (deny_inode_action K M (dentry_inode K dentry) SEAL_NO_UNLINK ACTION_DENY_UNLINK)))"

definition comp_inode_rmdir :: "kernel \<Rightarrow> maps \<Rightarrow> addr option \<Rightarrow> int \<Rightarrow> telemetry \<Rightarrow> int \<times> telemetry" where
  "comp_inode_rmdir K M dentry ret = run_hook ret (rmdir_checks K M dentry)"

definition create_checks :: "kernel \<Rightarrow> maps \<Rightarrow> addr option \<Rightarrow> check" where
  "create_checks K M dentry = deny_dentry_parent_dir_action K M dentry SEAL_NO_WRITE ACTION_DENY_CREATE"

definition comp_inode_create :: "kernel \<Rightarrow> maps \<Rightarrow> addr option \<Rightarrow> int \<Rightarrow> telemetry \<Rightarrow> int \<times> telemetry" where
  "comp_inode_create K M dentry ret = run_hook ret (create_checks K M dentry)"

definition mkdir_checks :: "kernel \<Rightarrow> maps \<Rightarrow> addr option \<Rightarrow> check" where
  "mkdir_checks K M dentry =
     then_check (deny_dentry_parent_dir_action K M dentry SEAL_NO_WRITE ACTION_DENY_CREATE)
       (deny_mkdir_subtree_depth_cap K M dentry)"

definition comp_inode_mkdir :: "kernel \<Rightarrow> maps \<Rightarrow> addr option \<Rightarrow> int \<Rightarrow> telemetry \<Rightarrow> int \<times> telemetry" where
  "comp_inode_mkdir K M dentry ret = run_hook ret (mkdir_checks K M dentry)"

definition comp_inode_mknod :: "kernel \<Rightarrow> maps \<Rightarrow> addr option \<Rightarrow> int \<Rightarrow> telemetry \<Rightarrow> int \<times> telemetry" where
  "comp_inode_mknod K M dentry ret =
     run_hook ret (deny_dentry_parent_dir_action K M dentry SEAL_NO_WRITE ACTION_DENY_CREATE)"

definition symlink_checks :: "kernel \<Rightarrow> maps \<Rightarrow> addr option \<Rightarrow> check" where
  "symlink_checks K M dentry =
     then_check (deny_dentry_parent_dir_action K M dentry SEAL_NO_WRITE ACTION_DENY_CREATE)
       (deny_subtree_invariant_on_child_dentry K M dentry ACTION_DENY_CREATE)"

definition comp_inode_symlink :: "kernel \<Rightarrow> maps \<Rightarrow> addr option \<Rightarrow> int \<Rightarrow> telemetry \<Rightarrow> int \<times> telemetry" where
  "comp_inode_symlink K M dentry ret = run_hook ret (symlink_checks K M dentry)"

definition link_checks :: "kernel \<Rightarrow> maps \<Rightarrow> addr option \<Rightarrow> addr option \<Rightarrow> check" where
  "link_checks K M old_dentry new_dentry =
     then_check (case dentry_inode K old_dentry of
                   None \<Rightarrow> allow
                 | Some src \<Rightarrow> deny_inode_action K M (Some src) SEAL_NO_WRITE ACTION_DENY_CREATE)
    (then_check (deny_dentry_parent_dir_action K M old_dentry SEAL_NO_WRITE ACTION_DENY_WRITE_PARENT_DIR)
    (then_check (deny_dentry_parent_dir_action K M new_dentry SEAL_NO_WRITE ACTION_DENY_CREATE)
       (deny_hardlink_subtree_alias_invariants K M old_dentry new_dentry)))"

definition comp_inode_link ::
  "kernel \<Rightarrow> maps \<Rightarrow> addr option \<Rightarrow> addr option \<Rightarrow> int \<Rightarrow> telemetry \<Rightarrow> int \<times> telemetry" where
  "comp_inode_link K M old_dentry new_dentry ret = run_hook ret (link_checks K M old_dentry new_dentry)"

section \<open>Writes\<close>

definition FMODE_WRITE :: u32 where "FMODE_WRITE = 0x2"
definition MAY_WRITE :: u32 where "MAY_WRITE = 0x2"
definition PROT_WRITE :: u64 where "PROT_WRITE = 0x2"
definition MAP_SHARED :: u64 where "MAP_SHARED = 0x1"
definition VM_SHARED :: u64 where "VM_SHARED = 0x8"

definition file_fmode :: "kernel \<Rightarrow> addr option \<Rightarrow> u32" where
  "file_fmode K f = (case f of None \<Rightarrow> 0 | Some a \<Rightarrow> f_mode (k_file K a))"

definition open_checks :: "kernel \<Rightarrow> maps \<Rightarrow> addr option \<Rightarrow> check" where
  "open_checks K M f =
     (if file_fmode K f AND FMODE_WRITE = 0 then allow
      else if file_inode K f = None then allow
      else deny_file_write K M f)"

definition comp_file_open :: "kernel \<Rightarrow> maps \<Rightarrow> addr option \<Rightarrow> int \<Rightarrow> telemetry \<Rightarrow> int \<times> telemetry" where
  "comp_file_open K M f ret = run_hook ret (open_checks K M f)"

definition comp_file_permission ::
  "kernel \<Rightarrow> maps \<Rightarrow> addr option \<Rightarrow> u32 \<Rightarrow> int \<Rightarrow> telemetry \<Rightarrow> int \<times> telemetry" where
  "comp_file_permission K M f msk ret =
     run_hook ret (if msk AND MAY_WRITE = 0 then allow else deny_file_write K M f)"

definition comp_file_truncate :: "kernel \<Rightarrow> maps \<Rightarrow> addr option \<Rightarrow> int \<Rightarrow> telemetry \<Rightarrow> int \<times> telemetry" where
  "comp_file_truncate K M f ret = run_hook ret (deny_file_write K M f)"

definition comp_mmap_file ::
  "kernel \<Rightarrow> maps \<Rightarrow> addr option \<Rightarrow> u64 \<Rightarrow> u64 \<Rightarrow> u64 \<Rightarrow> int \<Rightarrow> telemetry \<Rightarrow> int \<times> telemetry" where
  "comp_mmap_file K M f reqprot prot flags ret =
     run_hook ret
       (if f = None then allow
        else if (prot OR reqprot) AND PROT_WRITE = 0 then allow
        else if flags AND MAP_SHARED = 0 then allow
        else deny_file_write K M f)"

definition comp_file_mprotect ::
  "kernel \<Rightarrow> maps \<Rightarrow> addr option \<Rightarrow> u64 \<Rightarrow> u64 \<Rightarrow> int \<Rightarrow> telemetry \<Rightarrow> int \<times> telemetry" where
  "comp_file_mprotect K M vm_file vm_flags prot ret =
     run_hook ret
       (if prot AND PROT_WRITE = 0 then allow
        else if vm_flags AND VM_SHARED = 0 then allow
        else if vm_file = None then allow
        else deny_file_write K M vm_file)"

section \<open>Metadata\<close>

definition ATTR_MODE :: u32 where "ATTR_MODE = 1"
definition ATTR_UID :: u32 where "ATTR_UID = 2"
definition ATTR_GID :: u32 where "ATTR_GID = 4"
definition ATTR_SIZE :: u32 where "ATTR_SIZE = 8"
definition ATTR_ATIME :: u32 where "ATTR_ATIME = 16"
definition ATTR_MTIME :: u32 where "ATTR_MTIME = 32"

lemmas attr_defs = ATTR_MODE_def ATTR_UID_def ATTR_GID_def ATTR_SIZE_def ATTR_ATIME_def ATTR_MTIME_def

definition setattr_own_checks :: "kernel \<Rightarrow> maps \<Rightarrow> addr option \<Rightarrow> u32 \<Rightarrow> check" where
  "setattr_own_checks K M inode ia_valid =
     (case lookup_inode_seals K M inode of
        None \<Rightarrow> allow
      | Some (k, isv, dsv) \<Rightarrow>
          then_check
            (if ia_valid AND ATTR_SIZE \<noteq> 0
             then then_check (seal_decision K M isv SEAL_NO_WRITE ACTION_DENY_WRITE (ik_dev k) (ik_ino k))
                    (seal_decision K M dsv SEAL_NO_WRITE ACTION_DENY_WRITE (ik_dev k) (ik_ino k))
             else allow)
            (if ia_valid AND (ATTR_MODE OR ATTR_UID OR ATTR_GID) \<noteq> 0
                \<or> (ia_valid AND ATTR_SIZE = 0 \<and> ia_valid AND (ATTR_ATIME OR ATTR_MTIME) \<noteq> 0)
             then then_check (seal_decision K M isv SEAL_NO_CHMOD ACTION_DENY_CHMOD (ik_dev k) (ik_ino k))
                    (seal_decision K M dsv SEAL_NO_CHMOD ACTION_DENY_CHMOD (ik_dev k) (ik_ino k))
             else allow))"

definition setattr_checks :: "kernel \<Rightarrow> maps \<Rightarrow> addr option \<Rightarrow> u32 \<Rightarrow> check" where
  "setattr_checks K M dentry ia_valid =
     then_check (setattr_own_checks K M (dentry_inode K dentry) ia_valid)
    (then_check
       (if ia_valid AND ATTR_SIZE \<noteq> 0
        then deny_dentry_parent_dir_action K M dentry SEAL_NO_WRITE ACTION_DENY_WRITE_PARENT_DIR else allow)
       (if ia_valid AND NOT ATTR_SIZE \<noteq> 0
        then deny_dentry_parent_dir_action K M dentry SEAL_NO_CHMOD ACTION_DENY_CHMOD_PARENT_DIR else allow))"

definition comp_inode_setattr_impl ::
  "kernel \<Rightarrow> maps \<Rightarrow> addr option \<Rightarrow> u32 \<Rightarrow> int \<Rightarrow> telemetry \<Rightarrow> int \<times> telemetry" where
  "comp_inode_setattr_impl K M dentry ia_valid ret = run_hook ret (setattr_checks K M dentry ia_valid)"

definition chmod_checks :: "kernel \<Rightarrow> maps \<Rightarrow> addr option \<Rightarrow> check" where
  "chmod_checks K M dentry =
     then_check (or_eacces (deny_inode_action K M (dentry_inode K dentry) SEAL_NO_CHMOD ACTION_DENY_CHMOD))
       (or_eacces (deny_dentry_parent_dir_action K M dentry SEAL_NO_CHMOD ACTION_DENY_CHMOD_PARENT_DIR))"

definition comp_inode_setxattr :: "kernel \<Rightarrow> maps \<Rightarrow> addr option \<Rightarrow> int \<Rightarrow> telemetry \<Rightarrow> int \<times> telemetry" where
  "comp_inode_setxattr K M dentry ret = run_hook ret (chmod_checks K M dentry)"

definition comp_inode_removexattr :: "kernel \<Rightarrow> maps \<Rightarrow> addr option \<Rightarrow> int \<Rightarrow> telemetry \<Rightarrow> int \<times> telemetry" where
  "comp_inode_removexattr K M dentry ret = run_hook ret (chmod_checks K M dentry)"

definition comp_inode_set_acl :: "kernel \<Rightarrow> maps \<Rightarrow> addr option \<Rightarrow> int \<Rightarrow> telemetry \<Rightarrow> int \<times> telemetry" where
  "comp_inode_set_acl K M dentry ret = run_hook ret (chmod_checks K M dentry)"

definition comp_inode_remove_acl :: "kernel \<Rightarrow> maps \<Rightarrow> addr option \<Rightarrow> int \<Rightarrow> telemetry \<Rightarrow> int \<times> telemetry" where
  "comp_inode_remove_acl K M dentry ret = run_hook ret (chmod_checks K M dentry)"

definition COMP_FS_IOC_SETFLAGS :: u32 where "COMP_FS_IOC_SETFLAGS = 0x40086602"
definition COMP_FS_IOC32_SETFLAGS :: u32 where "COMP_FS_IOC32_SETFLAGS = 0x40046602"
definition COMP_FS_IOC_FSSETXATTR :: u32 where "COMP_FS_IOC_FSSETXATTR = 0x401c5820"
definition COMP_FS_IOC_SETVERSION :: u32 where "COMP_FS_IOC_SETVERSION = 0x40087602"
definition COMP_FS_IOC32_SETVERSION :: u32 where "COMP_FS_IOC32_SETVERSION = 0x40047602"

definition ioctl_checks :: "kernel \<Rightarrow> maps \<Rightarrow> addr option \<Rightarrow> u32 \<Rightarrow> check" where
  "ioctl_checks K M f cmd =
     (if cmd \<noteq> COMP_FS_IOC_SETFLAGS \<and> cmd \<noteq> COMP_FS_IOC32_SETFLAGS \<and> cmd \<noteq> COMP_FS_IOC_FSSETXATTR
         \<and> cmd \<noteq> COMP_FS_IOC_SETVERSION \<and> cmd \<noteq> COMP_FS_IOC32_SETVERSION then allow
      else if file_inode K f = None then allow
      else then_check (or_eacces (deny_inode_action K M (file_inode K f) SEAL_NO_CHMOD ACTION_DENY_CHMOD))
             (or_eacces (deny_file_parent_dir_action K M f SEAL_NO_CHMOD ACTION_DENY_CHMOD_PARENT_DIR)))"

definition comp_file_ioctl_impl ::
  "kernel \<Rightarrow> maps \<Rightarrow> addr option \<Rightarrow> u32 \<Rightarrow> int \<Rightarrow> telemetry \<Rightarrow> int \<times> telemetry" where
  "comp_file_ioctl_impl K M f cmd ret = run_hook ret (ioctl_checks K M f cmd)"

section \<open>Mounts\<close>

definition MS_REMOUNT :: u64 where "MS_REMOUNT = 0x20"
definition MS_BIND :: u64 where "MS_BIND = 0x1000"
definition MS_UNBINDABLE :: u64 where "MS_UNBINDABLE = 0x20000"
definition MS_PRIVATE :: u64 where "MS_PRIVATE = 0x40000"
definition MS_SLAVE :: u64 where "MS_SLAVE = 0x80000"
definition MS_SHARED :: u64 where "MS_SHARED = 0x100000"

definition deny_mount_on_dentry :: "kernel \<Rightarrow> maps \<Rightarrow> addr option \<Rightarrow> check" where
  "deny_mount_on_dentry K M mp =
     (case mp of
        None \<Rightarrow> allow
      | Some _ \<Rightarrow>
          then_check (or_eacces (deny_pin_tamper K M (dentry_inode K mp)))
            (then_check (or_eacces (deny_inode_action K M (dentry_inode K mp) SEAL_FULL ACTION_DENY_MOUNT))
              (deny_dentry_parent_dir_action K M mp SEAL_FULL ACTION_DENY_MOUNT)))"

definition sb_mount_checks :: "kernel \<Rightarrow> maps \<Rightarrow> kpath \<Rightarrow> u64 \<Rightarrow> check" where
  "sb_mount_checks K M path flags =
     (if flags AND MS_REMOUNT \<noteq> 0 then allow
      else if flags AND MS_BIND = 0
              \<and> flags AND (MS_SHARED OR MS_PRIVATE OR MS_SLAVE OR MS_UNBINDABLE) \<noteq> 0 then allow
      else deny_mount_on_dentry K M (p_dentry path))"

definition comp_sb_mount :: "kernel \<Rightarrow> maps \<Rightarrow> kpath \<Rightarrow> u64 \<Rightarrow> int \<Rightarrow> telemetry \<Rightarrow> int \<times> telemetry" where
  "comp_sb_mount K M path flags ret = run_hook ret (sb_mount_checks K M path flags)"

text \<open>This gate resolves a caller id of its own.\<close>

definition deny_umount_of_sealed_dev :: "kernel \<Rightarrow> maps \<Rightarrow> addr option \<Rightarrow> check" where
  "deny_umount_of_sealed_dev K M mnt x =
     (case mnt of
        None \<Rightarrow> (0, x)
      | Some m \<Rightarrow>
          (case mnt_sb (k_mount K m) of
             None \<Rightarrow> (0, x)
           | Some sb \<Rightarrow>
               let dev = ucast (s_dev (k_sb K sb)) :: u64;
                   skip = (sealed_devs M dev = None \<and>
                           (case self_protect M of
                              None \<Rightarrow> True
                            | Some cfg \<Rightarrow> sp_pin_dev cfg = 0 \<or> sp_pin_dev cfg \<noteq> dev))
               in if skip then (0, x)
                  else if mnt_root (k_mount K m) = None
                          \<or> mnt_root (k_mount K m) \<noteq> s_root (k_sb K sb) then (0, x)
                  else let c = caller_id_resolve_locked K
                       in (- EACCES,
                           on_tele (emit_audit_actor K ACTION_DENY_UMOUNT dev 0
                                      (cid_dev_or_0 c) (cid_ino_or_0 c) None) x)))"

definition comp_sb_umount :: "kernel \<Rightarrow> maps \<Rightarrow> addr option \<Rightarrow> int \<Rightarrow> telemetry \<Rightarrow> int \<times> telemetry" where
  "comp_sb_umount K M mnt ret = run_hook ret (deny_umount_of_sealed_dev K M mnt)"

definition move_mount_checks :: "kernel \<Rightarrow> maps \<Rightarrow> kpath \<Rightarrow> kpath \<Rightarrow> check" where
  "move_mount_checks K M from_path to_path =
     then_check
       (case (p_mnt from_path, p_dentry from_path) of
          (Some m, Some d) \<Rightarrow>
            if mnt_root (k_mount K m) = Some d then deny_umount_of_sealed_dev K M (Some m) else allow
        | _ \<Rightarrow> allow)
       (deny_mount_on_dentry K M (p_dentry to_path))"

definition comp_move_mount :: "kernel \<Rightarrow> maps \<Rightarrow> kpath \<Rightarrow> kpath \<Rightarrow> int \<Rightarrow> telemetry \<Rightarrow> int \<times> telemetry" where
  "comp_move_mount K M from_path to_path ret = run_hook ret (move_mount_checks K M from_path to_path)"

section \<open>Self-protection\<close>

text \<open>The map is given by its id, or \<^term>\<open>None\<close> for a NULL pointer.\<close>

definition bpf_map_checks :: "kernel \<Rightarrow> maps \<Rightarrow> u32 option \<Rightarrow> check" where
  "bpf_map_checks K M mp x =
     (case (self_protect M, mp) of
        (Some cfg, Some i) \<Rightarrow>
          if protected_map_ids M i = None then (0, x)
          else (case caller_is_loader K M x of
                  (loader, x) \<Rightarrow>
                    if loader then (0, x)
                    else deny_self_protect K ACTION_DENY_BPF_SELF bpf_self_denied_total 0 (ucast i) (- EPERM) x)
      | _ \<Rightarrow> (0, x))"

definition comp_bpf_map :: "kernel \<Rightarrow> maps \<Rightarrow> u32 option \<Rightarrow> int \<Rightarrow> telemetry \<Rightarrow> int \<times> telemetry" where
  "comp_bpf_map K M mp ret = run_hook ret (bpf_map_checks K M mp)"

section \<open>Strict launch\<close>

definition PR_SET_MM :: int where "PR_SET_MM = 35"

definition prctl_checks :: "kernel \<Rightarrow> maps \<Rightarrow> int \<Rightarrow> check" where
  "prctl_checks K M option x =
     (if cur_strict_loaded M = 0 then (0, x)
      else if option = PR_SET_MM
      then (- EPERM, on_tele (\<lambda>t. emit_audit_actor K ACTION_DENY_PRCTL_SET_MM 0 0 0 0 None
                                    (bump prctl_set_mm_exe_file_denied_total t)) x)
      else (0, x))"

definition comp_task_prctl :: "kernel \<Rightarrow> maps \<Rightarrow> int \<Rightarrow> int \<Rightarrow> telemetry \<Rightarrow> int \<times> telemetry" where
  "comp_task_prctl K M option ret = run_hook ret (prctl_checks K M option)"

definition marked :: "maps \<Rightarrow> addr \<Rightarrow> bool" where
  "marked M t = (case actor_marker_map M t of None \<Rightarrow> False | Some am \<Rightarrow> am_state am \<noteq> 0)"

definition ptrace_access_checks :: "kernel \<Rightarrow> maps \<Rightarrow> addr \<Rightarrow> check" where
  "ptrace_access_checks K M child x =
     (if cur_strict_loaded M = 0 then (0, x)
      else if marked M child
      then (- EPERM, on_tele (\<lambda>t. emit_audit_actor K ACTION_DENY_PTRACE_ACCESS 0 0 0 0 None
                                    (bump ptrace_access_denied_total t)) x)
      else (0, x))"

definition comp_ptrace_access_check :: "kernel \<Rightarrow> maps \<Rightarrow> addr \<Rightarrow> int \<Rightarrow> telemetry \<Rightarrow> int \<times> telemetry" where
  "comp_ptrace_access_check K M child ret = run_hook ret (ptrace_access_checks K M child)"

definition ptrace_traceme_checks :: "kernel \<Rightarrow> maps \<Rightarrow> check" where
  "ptrace_traceme_checks K M x =
     (if cur_strict_loaded M = 0 then (0, x)
      else case k_current K of
        None \<Rightarrow> (0, x)
      | Some me \<Rightarrow>
          if marked M me
          then (- EPERM, on_tele (\<lambda>t. emit_audit_actor K ACTION_DENY_PTRACE_TRACEME 0 0 0 0 None
                                        (bump ptrace_traceme_denied_total t)) x)
          else (0, x))"

definition comp_ptrace_traceme :: "kernel \<Rightarrow> maps \<Rightarrow> int \<Rightarrow> telemetry \<Rightarrow> int \<times> telemetry" where
  "comp_ptrace_traceme K M ret = run_hook ret (ptrace_traceme_checks K M)"

text \<open>
  \<^verbatim>\<open>bpf_task_storage_get\<close> with the create flag: it gives the storage of a task that has one, and
  else allocates it if it can.
\<close>

definition storage_available :: "kernel \<Rightarrow> maps \<Rightarrow> addr \<Rightarrow> bool" where
  "storage_available K M t \<longleftrightarrow> actor_marker_map M t \<noteq> None \<or> k_storage_ok K"

definition comp_bprm_committed_creds ::
  "kernel \<Rightarrow> addr option \<Rightarrow> maps \<times> telemetry \<Rightarrow> maps \<times> telemetry" where
  "comp_bprm_committed_creds K bprm_file s =
     (case s of (M, tm) \<Rightarrow>
        if cur_strict_loaded M = 0 then (M, tm)
        else case k_current K of
          None \<Rightarrow> (M, tm)
        | Some t \<Rightarrow>
            (case file_inode K bprm_file of
               None \<Rightarrow> (M\<lparr>actor_marker_map := (actor_marker_map M)(t := None)\<rparr>, tm)
             | Some ino \<Rightarrow>
                 let exec_id = inode_key_of K (Some ino); gen = cur_strict_generation M
                 in case launcher_to_actor M exec_id of
                   Some la \<Rightarrow>
                     if storage_available K M t
                     then (M\<lparr>actor_marker_map := (actor_marker_map M)(t \<mapsto>
                               \<lparr>am_target = la_target la, am_actor_slot = la_actor_slot la,
                                am_policy_generation = gen, am_state = 1\<rparr>)\<rparr>,
                           bump marker_set_total tm)
                     else (M, bump marker_set_fail_total tm)
                 | None \<Rightarrow>
                     (case actor_marker_map M t of
                        None \<Rightarrow> (M, tm)
                      | Some am \<Rightarrow>
                          if am_state am = 0 then (M, tm)
                          else if am_target am = exec_id then (M, tm)
                          else (M\<lparr>actor_marker_map := (actor_marker_map M)(t := None)\<rparr>,
                                bump marker_clear_foreign_exec_total tm))))"

definition comp_task_alloc :: "kernel \<Rightarrow> addr \<Rightarrow> int \<Rightarrow> maps \<times> telemetry \<Rightarrow> int \<times> maps \<times> telemetry" where
  "comp_task_alloc K task ret s =
     (case s of (M, tm) \<Rightarrow>
        if ret \<noteq> 0 then (ret, M, tm)
        else if cur_strict_loaded M = 0 then (0, M, tm)
        else case k_current K of
          None \<Rightarrow> (0, M, tm)
        | Some parent \<Rightarrow>
            (case actor_marker_map M parent of
               None \<Rightarrow> (0, M, tm)
             | Some p_am \<Rightarrow>
                 if am_state p_am = 0 then (0, M, tm)
                 else if \<not> storage_available K M task then (0, M, tm)
                 else (0, M\<lparr>actor_marker_map := (actor_marker_map M)(task \<mapsto> p_am)\<rparr>,
                       bump marker_copy_fork_total tm)))"

end
