(* ===== verification/Seal_Spec.thy ===== *)
theory Seal_Spec
  imports Seal_Hooks
begin

text \<open>
  What the checks of \<^verbatim>\<open>Seal_Checks\<close> and \<^verbatim>\<open>Seal_Hooks\<close> decide, as predicates over the kernel and the
  maps, and the contract every check keeps: it returns the error exactly when its predicate
  holds, it keeps the cached caller id right, and it accounts for a denial exactly once.
  The contract is the locale \<^verbatim>\<open>audited_check\<close>; it is closed under the two ways the programs
  combine checks, and every check and every deciding hook is an interpretation of it.
\<close>

section \<open>The contract\<close>

definition cid_coherent :: "kernel \<Rightarrow> caller_id \<Rightarrow> bool" where
  "cid_coherent K c \<longleftrightarrow> (cid_resolved c \<longrightarrow> c = caller_id_resolve_locked K)"

text \<open>
  One denial is one count and one event, or one count and one drop when the ring buffer is
  full; no denial leaves all of these as they were.
\<close>

definition accounted :: "bool \<Rightarrow> telemetry \<Rightarrow> telemetry \<Rightarrow> bool" where
  "accounted denied t t' \<longleftrightarrow>
     (if denied then
        counters t' deny_total = counters t deny_total + 1 \<and>
        (if rb_room t = 0
         then counters t' audit_drop_total = counters t audit_drop_total + 1 \<and>
              audit_rb t' = audit_rb t \<and> rb_room t' = 0
         else counters t' audit_drop_total = counters t audit_drop_total \<and>
              (\<exists>e. audit_rb t' = audit_rb t @ [e] \<and> ae_version e = COMPARTMENT_ABI_VERSION) \<and>
              rb_room t' = rb_room t - 1)
      else
        counters t' deny_total = counters t deny_total \<and>
        counters t' audit_drop_total = counters t audit_drop_total \<and>
        audit_rb t' = audit_rb t \<and> rb_room t' = rb_room t)"

locale audited_check =
  fixes K :: kernel
    and c :: check
    and denied :: bool
    and err :: int
  assumes error_code: "0 < err"
    and verdict: "cid_coherent K (cid x) \<Longrightarrow> fst (c x) = (if denied then - err else 0)"
    and coherent: "cid_coherent K (cid x) \<Longrightarrow> cid_coherent K (cid (snd (c x)))"
    and accounts: "cid_coherent K (cid x) \<Longrightarrow> accounted denied (tele x) (tele (snd (c x)))"
begin

text \<open>What a hook built from the check does.\<close>

lemma fresh: "cid_coherent K (cid \<lparr>tele = t, cid = empty_cid\<rparr>)"
  by (simp add: cid_coherent_def empty_cid_def)

lemma hook_verdict: "fst (run_hook 0 c t) = (if denied then - err else 0)"
  using verdict [OF fresh, of t] by (simp add: run_hook_def case_prod_beta)

lemma hook_accounts: "accounted denied t (snd (run_hook 0 c t))"
  using accounts [OF fresh, of t] by (simp add: run_hook_def case_prod_beta)

lemma hook_denies_iff: "fst (run_hook 0 c t) \<noteq> 0 \<longleftrightarrow> denied"
  using error_code by (simp add: hook_verdict)

end

lemma accounted_refl [simp]: "accounted False t t"
  by (simp add: accounted_def)

lemma accounted_allow_then:
  "accounted False t t' \<Longrightarrow> accounted d t' t'' \<Longrightarrow> accounted d t t''"
  by (auto simp: accounted_def split: if_splits)

lemma audited_allow: "audited_check K allow False EACCES"
  by unfold_locales (simp_all add: allow_def EACCES_def)

lemma audited_then:
  assumes "audited_check K a P err" and "audited_check K b Q err"
  shows "audited_check K (then_check a b) (P \<or> Q) err"
proof -
  note A = audited_check.verdict [OF assms(1)] audited_check.coherent [OF assms(1)]
    audited_check.accounts [OF assms(1)]
  note B = audited_check.verdict [OF assms(2)] audited_check.coherent [OF assms(2)]
    audited_check.accounts [OF assms(2)]
  have pos: "0 < err" by (rule audited_check.error_code [OF assms(1)])
  show ?thesis
  proof
    fix x :: hctx assume x: "cid_coherent K (cid x)"
    show "fst (then_check a b x) = (if P \<or> Q then - err else 0)"
      using A [OF x] B [OF A(2) [OF x]] pos by (simp add: then_check_def case_prod_beta split: if_splits)
    show "cid_coherent K (cid (snd (then_check a b x)))"
      using A [OF x] B [OF A(2) [OF x]] pos by (simp add: then_check_def case_prod_beta)
    show "accounted (P \<or> Q) (tele x) (tele (snd (then_check a b x)))"
      using A [OF x] B [OF A(2) [OF x]] pos accounted_allow_then
      by (cases P) (auto simp: then_check_def case_prod_beta)
  qed (rule pos)
qed

lemma audited_or_eacces:
  assumes "audited_check K a P EACCES"
  shows "audited_check K (or_eacces a) P EACCES"
proof -
  note A = audited_check.verdict [OF assms] audited_check.coherent [OF assms]
    audited_check.accounts [OF assms]
  show ?thesis
    by unfold_locales (use A in \<open>auto simp: or_eacces_def case_prod_beta EACCES_def split: if_splits\<close>)
qed

lemma audited_cong: "audited_check K a P err \<Longrightarrow> P = Q \<Longrightarrow> audited_check K a Q err"
  by simp

section \<open>Who is calling\<close>

text \<open>The identity of the calling binary, if it has one.\<close>

definition caller_key :: "kernel \<Rightarrow> inode_key option" where
  "caller_key K =
     (case k_current K of
        None \<Rightarrow> None
      | Some t \<Rightarrow>
          (case file_inode K (t_exe_file (k_task K t)) of
             None \<Rightarrow> None
           | Some i \<Rightarrow> Some (inode_key_of K (Some i))))"

lemma resolve_caller_key:
  "caller_id_resolve_locked K =
     (case caller_key K of
        None \<Rightarrow> \<lparr>cid_dev = 0, cid_ino = 0, cid_resolved = True, cid_valid = False\<rparr>
      | Some k \<Rightarrow> \<lparr>cid_dev = ik_dev k, cid_ino = ik_ino k, cid_resolved = True, cid_valid = True\<rparr>)"
  by (auto simp: caller_id_resolve_locked_def caller_key_def file_inode_def inode_key_of_def empty_cid_def
      split: option.splits)

lemma resolve_cid_coherent:
  "cid_coherent K (cid x) \<Longrightarrow> cid (resolve_cid K x) = caller_id_resolve_locked K"
  by (auto simp: resolve_cid_def cid_coherent_def)

lemma resolve_cid_tele [simp]: "tele (resolve_cid K x) = tele x"
  by (simp add: resolve_cid_def)

lemma resolved_coherent [simp]: "cid_coherent K (caller_id_resolve_locked K)"
  by (simp add: cid_coherent_def)

lemma on_tele_simps [simp]: "cid (on_tele f x) = cid x" "tele (on_tele f x) = f (tele x)"
  by (simp_all add: on_tele_def)

section \<open>Accounting of one emission\<close>

lemma bump_other: "c \<noteq> d \<Longrightarrow> counters (bump c t) d = counters t d"
  by (simp add: bump_def)

lemma bump_fields [simp]: "audit_rb (bump c t) = audit_rb t" "rb_room (bump c t) = rb_room t"
  "counters (bump c t) c = counters t c + 1"
  by (simp_all add: bump_def)

lemma accounted_emit: "accounted True t (emit_audit_actor K action dev ino cd ci name t)"
  by (simp add: accounted_def emit_audit_actor_def Let_def bump_other make_event_def)

lemma accounted_bump:
  "c \<noteq> deny_total \<Longrightarrow> c \<noteq> audit_drop_total \<Longrightarrow> accounted False t (bump c t)"
  by (simp add: accounted_def bump_other)

lemma accounted_bump_emit:
  "c \<noteq> deny_total \<Longrightarrow> c \<noteq> audit_drop_total \<Longrightarrow>
   accounted True t (emit_audit_actor K action dev ino cd ci name (bump c t))"
  by (rule accounted_allow_then [OF accounted_bump accounted_emit])

lemma accounted_bump2_emit:
  "c \<noteq> deny_total \<Longrightarrow> c \<noteq> audit_drop_total \<Longrightarrow> c' \<noteq> deny_total \<Longrightarrow> c' \<noteq> audit_drop_total \<Longrightarrow>
   accounted True t (emit_audit_actor K action dev ino cd ci name (bump c' (bump c t)))"
  by (rule accounted_allow_then [OF accounted_bump accounted_bump_emit])

lemmas accounted_rules = accounted_emit accounted_bump accounted_bump_emit accounted_bump2_emit

section \<open>What one seal decides\<close>

definition actor_ok :: "kernel \<Rightarrow> seal_value \<Rightarrow> bool" where
  "actor_ok K sv =
     (case caller_key K of
        None \<Rightarrow> False
      | Some k \<Rightarrow> \<exists>i < min (unat (sv_actor_count sv)) COMPARTMENT_MAX_ACTORS_PER_SEAL. sv_actor sv i = k)"

definition marker_ok :: "kernel \<Rightarrow> maps \<Rightarrow> seal_value \<Rightarrow> bool" where
  "marker_ok K M sv =
     (case (k_current K, caller_key K) of
        (Some t, Some k) \<Rightarrow>
          (case actor_marker_map M t of
             None \<Rightarrow> False
           | Some am \<Rightarrow>
               am_state am \<noteq> 0 \<and> am_target am = k \<and> am_actor_slot am = sv_strict_actor_slot sv \<and>
               am_policy_generation am = cur_strict_generation M \<and>
               am_policy_generation am = sv_strict_generation sv)
      | _ \<Rightarrow> False)"

text \<open>
  A seal denies an operation it names to every caller when it has no actors; otherwise to
  every caller that is not one of its actors and, if it asks for a strict launch, to an actor
  without a valid marker.
\<close>

definition seal_denies :: "kernel \<Rightarrow> maps \<Rightarrow> seal_value \<Rightarrow> u32 \<Rightarrow> bool" where
  "seal_denies K M sv msk \<longleftrightarrow>
     sv_flags sv AND msk \<noteq> 0 \<and>
     (sv_actor_count sv = 0 \<or> \<not> actor_ok K sv \<or>
      (sv_flags sv AND SEAL_STRICT_LAUNCH \<noteq> 0 \<and> \<not> marker_ok K M sv))"

lemma inode_key_eq_iff: "a = b \<longleftrightarrow> ik_dev a = ik_dev b \<and> ik_ino a = ik_ino (b :: inode_key)"
  by auto

lemma actor_listed_ok:
  assumes "caller_key K = Some k"
  shows "actor_listed sv (caller_id_resolve_locked K) \<longleftrightarrow> actor_ok K sv"
proof -
  let ?n = "min (unat (sv_actor_count sv)) COMPARTMENT_MAX_ACTORS_PER_SEAL"
  have "actor_listed sv (caller_id_resolve_locked K) \<longleftrightarrow>
      (\<exists>i \<in> {0..<COMPARTMENT_MAX_ACTORS_PER_SEAL}. i < ?n \<and> sv_actor sv i = k)"
    using assms unfolding actor_listed_def Let_def list_ex_iff set_upt
    by (intro bex_cong refl) (auto simp: resolve_caller_key inode_key_eq_iff)
  then show ?thesis using assms by (simp add: actor_ok_def) (metis atLeastLessThan_iff le0)
qed

lemma audited_actor_check:
  "audited_check K (actor_check_or_deny K (Some sv) action dev ino)
     (sv_actor_count sv = 0 \<or> \<not> actor_ok K sv) EACCES"
proof
  fix x :: hctx assume x: "cid_coherent K (cid x)"
  note r = resolve_cid_coherent [OF x]
  have c: "cid_valid (caller_id_resolve_locked K) \<longleftrightarrow> caller_key K \<noteq> None"
    by (simp add: resolve_caller_key split: option.splits)
  have l: "actor_listed sv (caller_id_resolve_locked K) = actor_ok K sv" if "caller_key K \<noteq> None"
    using that actor_listed_ok by blast
  have n: "\<not> actor_ok K sv" if "caller_key K = None" using that by (simp add: actor_ok_def)
  show "fst (actor_check_or_deny K (Some sv) action dev ino x) =
      (if sv_actor_count sv = 0 \<or> \<not> actor_ok K sv then - EACCES else 0)"
    using l n by (simp add: actor_check_or_deny_def deny_actor_mismatch_def Let_def r c)
  show "cid_coherent K (cid (snd (actor_check_or_deny K (Some sv) action dev ino x)))"
    using x by (simp add: actor_check_or_deny_def deny_actor_mismatch_def Let_def r)
  show "accounted (sv_actor_count sv = 0 \<or> \<not> actor_ok K sv) (tele x)
      (tele (snd (actor_check_or_deny K (Some sv) action dev ino x)))"
    using l n by (simp add: actor_check_or_deny_def deny_actor_mismatch_def Let_def r c emit_audit_def
        accounted_rules)
qed (simp add: EACCES_def)

lemma audited_strict_launch:
  "audited_check K (strict_launch_check_or_deny K M sv dev ino) (\<not> marker_ok K M sv) EACCES"
proof
  fix x :: hctx assume x: "cid_coherent K (cid x)"
  note r = resolve_cid_coherent [OF x]
  note defs = strict_launch_check_or_deny_def deny_strict_launch_def Let_def r marker_ok_def
    resolve_caller_key
  show "fst (strict_launch_check_or_deny K M sv dev ino x) = (if \<not> marker_ok K M sv then - EACCES else 0)"
    by (auto simp: defs inode_key_eq_iff split: option.splits)
  show "cid_coherent K (cid (snd (strict_launch_check_or_deny K M sv dev ino x)))"
    by (simp add: strict_launch_check_or_deny_def deny_strict_launch_def Let_def r split: option.splits)
  show "accounted (\<not> marker_ok K M sv) (tele x) (tele (snd (strict_launch_check_or_deny K M sv dev ino x)))"
    by (auto simp: defs accounted_rules inode_key_eq_iff split: option.splits)
qed (simp add: EACCES_def)

lemma audited_seal_decision:
  "audited_check K (seal_decision K M sv msk action dev ino)
     (case sv of None \<Rightarrow> False | Some v \<Rightarrow> seal_denies K M v msk) EACCES"
proof (cases sv)
  case None
  then show ?thesis by (simp add: seal_decision_def audited_allow)
next
  case (Some v)
  have "audited_check K (if sv_flags v AND SEAL_STRICT_LAUNCH \<noteq> 0
        then strict_launch_check_or_deny K M v dev ino else allow)
      (sv_flags v AND SEAL_STRICT_LAUNCH \<noteq> 0 \<and> \<not> marker_ok K M v) EACCES"
    by (simp add: audited_strict_launch audited_allow)
  from audited_then [OF audited_actor_check [of K v action dev ino] this] Some show ?thesis
    by (cases "sv_flags v AND msk = 0")
      (auto simp: seal_decision_def seal_denies_def audited_allow elim: audited_cong)
qed

section \<open>The seals of an inode and of its ancestors\<close>

definition opt_denies :: "kernel \<Rightarrow> maps \<Rightarrow> seal_value option \<Rightarrow> u32 \<Rightarrow> bool" where
  "opt_denies K M sv msk = (case sv of None \<Rightarrow> False | Some v \<Rightarrow> seal_denies K M v msk)"

definition inode_denied :: "kernel \<Rightarrow> maps \<Rightarrow> addr option \<Rightarrow> u32 \<Rightarrow> bool" where
  "inode_denied K M p msk \<longleftrightarrow>
     (let k = inode_key_of K p
      in p \<noteq> None \<and> (ik_dev k \<noteq> 0 \<or> ik_ino k \<noteq> 0) \<and>
         (opt_denies K M (sealed_inodes M k) msk \<or> opt_denies K M (sealed_dirs M k) msk))"

text \<open>The directories the walk visits: a dentry and what is above it, as far as the budget goes.\<close>

fun ancestors :: "nat \<Rightarrow> kernel \<Rightarrow> addr option \<Rightarrow> addr list" where
  "ancestors 0 K cur = []"
| "ancestors (Suc n) K cur =
     (case cur of None \<Rightarrow> [] | Some d \<Rightarrow> d # ancestors n K (parent_of K (Some d)))"

definition dir_denied :: "kernel \<Rightarrow> maps \<Rightarrow> u32 \<Rightarrow> addr \<Rightarrow> bool" where
  "dir_denied K M msk d = (case dir_entry K M d of None \<Rightarrow> False | Some (dk, sv) \<Rightarrow> seal_denies K M sv msk)"

definition ancestors_denied :: "kernel \<Rightarrow> maps \<Rightarrow> addr option \<Rightarrow> u32 \<Rightarrow> bool" where
  "ancestors_denied K M d msk \<longleftrightarrow>
     list_ex (dir_denied K M msk) (ancestors COMPARTMENT_MAX_DIR_ANCESTORS K (parent_of K d))"

definition no_write_hit :: "kernel \<Rightarrow> maps \<Rightarrow> addr option \<Rightarrow> dir_seal_hit option" where
  "no_write_hit K M d = find_nearest_dir_seal_hit_from_dir_dentry K M (parent_of K d) SEAL_NO_WRITE"

lemma parent_of_Some:
  "parent_of K (Some d) =
     (let p = d_parent (k_dentry K d) in if p = None \<or> p = Some d then None else p)"
  by (simp add: parent_of_def dentry_parent_def)

lemma parent_of_None [simp]: "parent_of K None = None"
  by (simp add: parent_of_def dentry_parent_def)

lemma audited_inode_action:
  "audited_check K (deny_inode_action K M p msk action) (inode_denied K M p msk) EACCES"
proof (cases "lookup_inode_seals K M p")
  case None
  then have "\<not> inode_denied K M p msk"
    by (auto simp: lookup_inode_seals_def inode_denied_def opt_denies_def Let_def split: if_splits)
  with None show ?thesis by (simp add: deny_inode_action_def audited_allow)
next
  case (Some r)
  let ?k = "inode_key_of K p"
  from Some have r: "r = (?k, sealed_inodes M ?k, sealed_dirs M ?k)"
    and usable: "p \<noteq> None" "ik_dev ?k \<noteq> 0 \<or> ik_ino ?k \<noteq> 0"
    by (auto simp: lookup_inode_seals_def Let_def split: if_splits)
  have "audited_check K (deny_inode_action K M p msk action)
      (opt_denies K M (sealed_inodes M ?k) msk \<or> opt_denies K M (sealed_dirs M ?k) msk) EACCES"
    unfolding deny_inode_action_def Some r option.case prod.case opt_denies_def
    by (intro audited_then audited_seal_decision)
  then show ?thesis using usable by (simp add: inode_denied_def Let_def)
qed

lemma audited_ancestors_from:
  "audited_check K (deny_ancestors_from n K M cur msk action)
     (list_ex (dir_denied K M msk) (ancestors n K cur)) EACCES"
proof (induction n arbitrary: cur)
  case 0
  show ?case by (simp add: audited_allow)
next
  case (Suc n)
  show ?case
  proof (cases cur)
    case None
    then show ?thesis by (simp add: audited_allow)
  next
    case (Some d)
    have here: "audited_check K (case dir_entry K M d of
          Some (dk, sv) \<Rightarrow> seal_decision K M (Some sv) msk action (ik_dev dk) (ik_ino dk) | None \<Rightarrow> allow)
        (dir_denied K M msk d) EACCES"
      using audited_seal_decision [of K M "Some sv" msk action for sv]
      by (auto simp: dir_denied_def audited_allow split: option.splits)
    have above: "audited_check K (let parent = d_parent (k_dentry K d)
          in if parent = None \<or> parent = Some d then allow else deny_ancestors_from n K M parent msk action)
        (list_ex (dir_denied K M msk) (ancestors n K (parent_of K (Some d)))) EACCES"
      using Suc [of "parent_of K (Some d)"] by (cases n) (auto simp: parent_of_Some Let_def audited_allow)
    from audited_then [OF here above] show ?thesis by (simp add: Some)
  qed
qed

lemma audited_dentry_parent:
  "audited_check K (deny_dentry_parent_dir_action K M d msk action) (ancestors_denied K M d msk) EACCES"
proof (cases "d = None \<or> parent_of K d = None")
  case True
  then show ?thesis
    by (cases d) (auto simp: deny_dentry_parent_dir_action_def ancestors_denied_def audited_allow
        COMPARTMENT_MAX_DIR_ANCESTORS_def numeral_eq_Suc)
next
  case False
  then obtain a p where "d = Some a" "parent_of K d = Some p" by auto
  then show ?thesis
    using audited_ancestors_from [of K COMPARTMENT_MAX_DIR_ANCESTORS M "Some p" msk action]
    by (simp add: deny_dentry_parent_dir_action_def deny_dir_ancestor_action_from_dir_dentry_def
        ancestors_denied_def)
qed

lemma file_parent_as_dentry:
  "deny_file_parent_dir_action K M f msk action = deny_dentry_parent_dir_action K M (file_dentry K f) msk action"
  by (simp add: deny_file_parent_dir_action_def deny_dentry_parent_dir_action_def split: option.splits)

definition write_denied :: "kernel \<Rightarrow> maps \<Rightarrow> addr option \<Rightarrow> bool" where
  "write_denied K M f \<longleftrightarrow>
     f \<noteq> None \<and>
     (inode_denied K M (file_inode K f) SEAL_NO_WRITE \<or> ancestors_denied K M (file_dentry K f) SEAL_NO_WRITE)"

lemma audited_file_write: "audited_check K (deny_file_write K M f) (write_denied K M f) EACCES"
proof (cases f)
  case None
  then show ?thesis by (simp add: deny_file_write_def write_denied_def audited_allow)
next
  case (Some a)
  have "audited_check K
      (then_check (deny_inode_action K M (file_inode K f) SEAL_NO_WRITE ACTION_DENY_WRITE)
        (deny_file_parent_dir_action K M f SEAL_NO_WRITE ACTION_DENY_WRITE_PARENT_DIR))
      (inode_denied K M (file_inode K f) SEAL_NO_WRITE \<or> ancestors_denied K M (file_dentry K f) SEAL_NO_WRITE)
      EACCES"
    unfolding file_parent_as_dentry by (intro audited_then audited_inode_action audited_dentry_parent)
  with Some show ?thesis by (simp add: deny_file_write_def write_denied_def)
qed

section \<open>Subtree invariants and pins\<close>

lemma audited_depth_cap:
  "audited_check K (deny_runtime_subtree_depth_cap K action hit) (hit \<noteq> None) EACCES"
  by unfold_locales
    (auto simp: deny_runtime_subtree_depth_cap_def EACCES_def emit_audit_def accounted_rules split: option.splits)

lemma audited_depth_cap_Some:
  "audited_check K (deny_runtime_subtree_depth_cap K action (Some h)) True EACCES"
  using audited_depth_cap [of K action "Some h"] by simp

lemma find_hit_None [simp]: "find_nearest_dir_seal_hit_from_dir_dentry K M None msk = None"
  by (simp add: find_nearest_dir_seal_hit_from_dir_dentry_def COMPARTMENT_MAX_DIR_ANCESTORS_def numeral_eq_Suc)

lemma audited_child_invariant:
  "audited_check K (deny_subtree_invariant_on_child_dentry K M d action) (no_write_hit K M d \<noteq> None) EACCES"
  by (auto simp: deny_subtree_invariant_on_child_dentry_def no_write_hit_def audited_allow
      audited_depth_cap_Some split: option.splits)

definition mkdir_too_deep :: "kernel \<Rightarrow> maps \<Rightarrow> addr option \<Rightarrow> bool" where
  "mkdir_too_deep K M d =
     (case no_write_hit K M d of None \<Rightarrow> False | Some h \<Rightarrow> hit_depth h + 1 \<ge> COMPARTMENT_MAX_DIR_ANCESTORS)"

lemma audited_mkdir_cap: "audited_check K (deny_mkdir_subtree_depth_cap K M d) (mkdir_too_deep K M d) EACCES"
  by (auto simp: deny_mkdir_subtree_depth_cap_def mkdir_too_deep_def no_write_hit_def audited_allow
      audited_depth_cap_Some split: option.splits)

definition target_mode :: "kernel \<Rightarrow> addr option \<Rightarrow> u16 option" where
  "target_mode K d = map_option (\<lambda>i. i_mode (k_inode K i)) (dentry_inode K d)"

text \<open>A directory may move under a no-write seal only within its subtree and not deeper.\<close>

definition dir_rename_bad :: "kernel \<Rightarrow> maps \<Rightarrow> addr option \<Rightarrow> addr option \<Rightarrow> bool" where
  "dir_rename_bad K M old_dentry new_dentry =
     (case target_mode K old_dentry of
        None \<Rightarrow> False
      | Some m \<Rightarrow>
          is_dir_mode m \<and>
          (case no_write_hit K M new_dentry of
             None \<Rightarrow> False
           | Some n \<Rightarrow>
               hit_depth n + 1 \<ge> COMPARTMENT_MAX_DIR_ANCESTORS \<or>
               (case no_write_hit K M old_dentry of
                  None \<Rightarrow> True
                | Some h \<Rightarrow> hit_key h \<noteq> hit_key n \<or> hit_depth n > hit_depth h)))"

text \<open>A symbolic link or a file with several links may not move under a no-write seal.\<close>

definition alias_rename_bad :: "kernel \<Rightarrow> maps \<Rightarrow> addr option \<Rightarrow> addr option \<Rightarrow> bool" where
  "alias_rename_bad K M old_dentry new_dentry =
     (case dentry_inode K old_dentry of
        None \<Rightarrow> False
      | Some i \<Rightarrow>
          \<not> is_dir_mode (i_mode (k_inode K i)) \<and> no_write_hit K M new_dentry \<noteq> None \<and>
          (is_lnk_mode (i_mode (k_inode K i)) \<or> i_nlink (k_inode K i) > 1))"

lemma dentry_inode_None [simp]: "dentry_inode K None = None"
  by (simp add: dentry_inode_def)

lemma audited_dir_rename:
  "audited_check K (deny_dir_rename_subtree_depth_cap K M a b) (dir_rename_bad K M a b) EACCES"
  by (cases a; cases b)
    (auto simp: deny_dir_rename_subtree_depth_cap_def dir_rename_bad_def target_mode_def no_write_hit_def
      audited_allow audited_depth_cap_Some Let_def split: option.splits)

lemma audited_alias_rename:
  "audited_check K (deny_non_dir_rename_subtree_alias_invariants K M a b) (alias_rename_bad K M a b) EACCES"
  by (cases a; cases b)
    (auto simp: deny_non_dir_rename_subtree_alias_invariants_def alias_rename_bad_def no_write_hit_def
      audited_allow audited_depth_cap_Some Let_def split: option.splits)

definition is_loader :: "kernel \<Rightarrow> maps \<Rightarrow> bool" where
  "is_loader K M = (case caller_key K of None \<Rightarrow> False | Some k \<Rightarrow> loader_ids M k \<noteq> None)"

lemma caller_is_loader_spec:
  assumes "cid_coherent K (cid x)"
  shows "caller_is_loader K M x = (is_loader K M, resolve_cid K x)"
proof -
  have k: "\<lparr>ik_dev = ik_dev k, ik_ino = ik_ino k\<rparr> = (k :: inode_key)" for k by (simp add: inode_key_eq_iff)
  show ?thesis
    by (auto simp: k caller_is_loader_def Let_def is_loader_def resolve_cid_coherent [OF assms]
        resolve_caller_key split: option.splits)
qed

definition pin_denied :: "kernel \<Rightarrow> maps \<Rightarrow> addr option \<Rightarrow> bool" where
  "pin_denied K M p =
     (case self_protect M of
        None \<Rightarrow> False
      | Some cfg \<Rightarrow>
          let k = inode_key_of K p
          in p \<noteq> None \<and> ik_dev k \<noteq> 0 \<and> ik_dev k = sp_pin_dev cfg \<and> protected_pins M k \<noteq> None \<and>
             \<not> is_loader K M)"

lemma audited_pin_tamper: "audited_check K (deny_pin_tamper K M p) (pin_denied K M p) EACCES"
proof
  fix x :: hctx assume x: "cid_coherent K (cid x)"
  note defs = deny_pin_tamper_def pin_denied_def caller_is_loader_spec [OF x] deny_self_protect_def Let_def
    resolve_cid_coherent [OF x]
  show "fst (deny_pin_tamper K M p x) = (if pin_denied K M p then - EACCES else 0)"
    by (auto simp: defs split: option.splits)
  show "cid_coherent K (cid (snd (deny_pin_tamper K M p x)))"
    using x by (auto simp: defs split: option.splits)
  show "accounted (pin_denied K M p) (tele x) (tele (snd (deny_pin_tamper K M p x)))"
    by (auto simp: defs accounted_rules split: option.splits)
qed (simp add: EACCES_def)

lemma audited_pin_tamper_dentry:
  "audited_check K (deny_pin_tamper_dentry K M d) (pin_denied K M (dentry_inode K d)) EACCES"
  using audited_pin_tamper [of K M "dentry_inode K d"]
  by (cases d) (simp_all add: deny_pin_tamper_dentry_def pin_denied_def audited_allow split: option.splits)

end
