(* ===== verification/Seal_Decisions.thy ===== *)
theory Seal_Decisions
  imports Seal_Spec
begin

text \<open>
  The decision of every LSM program: the predicate it decides, its interpretation of
  \<^verbatim>\<open>audited_check\<close>, and the theorems that follow, hook by hook and over sequences of calls.
\<close>

section \<open>Predicates\<close>

definition unlink_denied :: "kernel \<Rightarrow> maps \<Rightarrow> addr option \<Rightarrow> bool" where
  "unlink_denied K M d \<longleftrightarrow>
     pin_denied K M (dentry_inode K d) \<or> ancestors_denied K M d SEAL_NO_UNLINK \<or>
     inode_denied K M (dentry_inode K d) SEAL_NO_UNLINK"

definition rename_denied :: "kernel \<Rightarrow> maps \<Rightarrow> addr option \<Rightarrow> addr option \<Rightarrow> bool" where
  "rename_denied K M a b \<longleftrightarrow>
     pin_denied K M (dentry_inode K a) \<or> pin_denied K M (dentry_inode K b) \<or>
     ancestors_denied K M a (SEAL_NO_RENAME OR SEAL_NO_UNLINK) \<or> ancestors_denied K M a SEAL_NO_WRITE \<or>
     ancestors_denied K M b SEAL_NO_RENAME \<or> ancestors_denied K M b SEAL_NO_WRITE \<or>
     alias_rename_bad K M a b \<or> dir_rename_bad K M a b \<or>
     inode_denied K M (dentry_inode K a) (SEAL_NO_RENAME OR SEAL_NO_UNLINK) \<or>
     inode_denied K M (dentry_inode K b) (SEAL_NO_RENAME OR SEAL_NO_UNLINK OR SEAL_NO_WRITE)"

definition mkdir_denied :: "kernel \<Rightarrow> maps \<Rightarrow> addr option \<Rightarrow> bool" where
  "mkdir_denied K M d \<longleftrightarrow> ancestors_denied K M d SEAL_NO_WRITE \<or> mkdir_too_deep K M d"

definition link_denied :: "kernel \<Rightarrow> maps \<Rightarrow> addr option \<Rightarrow> addr option \<Rightarrow> bool" where
  "link_denied K M a b \<longleftrightarrow>
     inode_denied K M (dentry_inode K a) SEAL_NO_WRITE \<or> no_write_hit K M a \<noteq> None \<or> no_write_hit K M b \<noteq> None"

definition chmod_denied :: "kernel \<Rightarrow> maps \<Rightarrow> addr option \<Rightarrow> bool" where
  "chmod_denied K M d \<longleftrightarrow>
     inode_denied K M (dentry_inode K d) SEAL_NO_CHMOD \<or> ancestors_denied K M d SEAL_NO_CHMOD"

text \<open>Which attribute changes count as a write, and which as a change of metadata.\<close>

definition attr_write :: "u32 \<Rightarrow> bool" where
  "attr_write v \<longleftrightarrow> v AND ATTR_SIZE \<noteq> 0"

definition attr_chmod_own :: "u32 \<Rightarrow> bool" where
  "attr_chmod_own v \<longleftrightarrow>
     v AND (ATTR_MODE OR ATTR_UID OR ATTR_GID) \<noteq> 0 \<or>
     (\<not> attr_write v \<and> v AND (ATTR_ATIME OR ATTR_MTIME) \<noteq> 0)"

definition setattr_denied :: "kernel \<Rightarrow> maps \<Rightarrow> addr option \<Rightarrow> u32 \<Rightarrow> bool" where
  "setattr_denied K M d v \<longleftrightarrow>
     (attr_write v \<and> (inode_denied K M (dentry_inode K d) SEAL_NO_WRITE \<or> ancestors_denied K M d SEAL_NO_WRITE)) \<or>
     (attr_chmod_own v \<and> inode_denied K M (dentry_inode K d) SEAL_NO_CHMOD) \<or>
     (v AND NOT ATTR_SIZE \<noteq> 0 \<and> ancestors_denied K M d SEAL_NO_CHMOD)"

definition mount_denied :: "kernel \<Rightarrow> maps \<Rightarrow> addr option \<Rightarrow> bool" where
  "mount_denied K M mp \<longleftrightarrow>
     pin_denied K M (dentry_inode K mp) \<or> inode_denied K M (dentry_inode K mp) SEAL_FULL \<or>
     ancestors_denied K M mp SEAL_FULL"

text \<open>
  A mount of a whole file system that holds a seal or, under self-protection, the pins.
\<close>

definition umount_denied :: "kernel \<Rightarrow> maps \<Rightarrow> addr option \<Rightarrow> bool" where
  "umount_denied K M mnt =
     (case mnt of
        None \<Rightarrow> False
      | Some m \<Rightarrow>
          (case mnt_sb (k_mount K m) of
             None \<Rightarrow> False
           | Some sb \<Rightarrow>
               (sealed_devs M (sb_dev K (Some sb)) \<noteq> None \<or>
                (\<exists>cfg. self_protect M = Some cfg \<and> sp_pin_dev cfg \<noteq> 0 \<and> sp_pin_dev cfg = sb_dev K (Some sb))) \<and>
               mnt_root (k_mount K m) \<noteq> None \<and> mnt_root (k_mount K m) = s_root (k_sb K sb)))"

definition map_fd_denied :: "kernel \<Rightarrow> maps \<Rightarrow> u32 option \<Rightarrow> bool" where
  "map_fd_denied K M mp =
     (case mp of
        None \<Rightarrow> False
      | Some i \<Rightarrow> self_protect M \<noteq> None \<and> protected_map_ids M i \<noteq> None \<and> \<not> is_loader K M)"

section \<open>Walks and hits\<close>

definition flagged :: "kernel \<Rightarrow> maps \<Rightarrow> u32 \<Rightarrow> addr \<Rightarrow> bool" where
  "flagged K M msk d = (case dir_entry K M d of None \<Rightarrow> False | Some (dk, sv) \<Rightarrow> sv_flags sv AND msk \<noteq> 0)"

lemma dir_denied_flagged: "dir_denied K M msk d \<Longrightarrow> flagged K M msk d"
  by (auto simp: dir_denied_def flagged_def seal_denies_def split: option.splits)

lemma find_hit_from_unfold:
  "find_hit_from (Suc n) depth K M (Some d) msk =
     (if flagged K M msk d
      then Some \<lparr>hit_key = fst (the (dir_entry K M d)), hit_depth = depth\<rparr>
      else find_hit_from n (Suc depth) K M (parent_of K (Some d)) msk)"
  by (cases n) (auto simp: flagged_def parent_of_Some Let_def split: option.splits)

lemma find_hit_iff:
  "find_hit_from n depth K M cur msk \<noteq> None \<longleftrightarrow> list_ex (flagged K M msk) (ancestors n K cur)"
proof (induction n arbitrary: depth cur)
  case 0
  show ?case by simp
next
  case (Suc n)
  show ?case
  proof (cases cur)
    case None
    then show ?thesis by simp
  next
    case (Some d)
    then show ?thesis using Suc [of "Suc depth" "parent_of K (Some d)"]
      by (simp add: find_hit_from_unfold del: find_hit_from.simps)
  qed
qed

lemma no_write_hit_iff:
  "no_write_hit K M d \<noteq> None \<longleftrightarrow>
   list_ex (flagged K M SEAL_NO_WRITE) (ancestors COMPARTMENT_MAX_DIR_ANCESTORS K (parent_of K d))"
  unfolding no_write_hit_def find_nearest_dir_seal_hit_from_dir_dentry_def by (rule find_hit_iff)

lemma denied_has_hit: "ancestors_denied K M d SEAL_NO_WRITE \<Longrightarrow> no_write_hit K M d \<noteq> None"
  unfolding no_write_hit_iff ancestors_denied_def list_ex_iff using dir_denied_flagged by blast

section \<open>The programs keep the contract\<close>

interpretation unlink: audited_check K "unlink_checks K M d" "unlink_denied K M d" EACCES for K M d
  unfolding unlink_checks_def unlink_denied_def
  by (intro audited_then audited_or_eacces audited_pin_tamper_dentry audited_dentry_parent audited_inode_action)

interpretation rmdir: audited_check K "rmdir_checks K M d" "unlink_denied K M d" EACCES for K M d
  unfolding rmdir_checks_def unlink_denied_def
  by (intro audited_then audited_or_eacces audited_pin_tamper_dentry audited_dentry_parent audited_inode_action)

interpretation rename: audited_check K "rename_checks K M a b" "rename_denied K M a b" EACCES for K M a b
  unfolding rename_checks_def rename_denied_def
  by (intro audited_then audited_or_eacces audited_pin_tamper_dentry audited_dentry_parent audited_inode_action
      audited_alias_rename audited_dir_rename)

interpretation create: audited_check K "create_checks K M d" "ancestors_denied K M d SEAL_NO_WRITE" EACCES for K M d
  unfolding create_checks_def by (rule audited_dentry_parent)

interpretation mknod: audited_check K "deny_dentry_parent_dir_action K M d SEAL_NO_WRITE ACTION_DENY_CREATE"
  "ancestors_denied K M d SEAL_NO_WRITE" EACCES for K M d
  by (rule audited_dentry_parent)

interpretation mkdir: audited_check K "mkdir_checks K M d" "mkdir_denied K M d" EACCES for K M d
  unfolding mkdir_checks_def mkdir_denied_def
  by (intro audited_then audited_dentry_parent audited_mkdir_cap)

interpretation symlink: audited_check K "symlink_checks K M d" "no_write_hit K M d \<noteq> None" EACCES for K M d
proof -
  have "audited_check K (symlink_checks K M d)
      (ancestors_denied K M d SEAL_NO_WRITE \<or> no_write_hit K M d \<noteq> None) EACCES"
    unfolding symlink_checks_def by (intro audited_then audited_dentry_parent audited_child_invariant)
  then show "audited_check K (symlink_checks K M d) (no_write_hit K M d \<noteq> None) EACCES"
    by (rule audited_cong) (use denied_has_hit in blast)
qed

lemma audited_link_source:
  "audited_check K (case dentry_inode K a of None \<Rightarrow> allow
       | Some src \<Rightarrow> deny_inode_action K M (Some src) SEAL_NO_WRITE ACTION_DENY_CREATE)
     (inode_denied K M (dentry_inode K a) SEAL_NO_WRITE) EACCES"
  by (cases "dentry_inode K a") (simp_all add: audited_allow audited_inode_action inode_denied_def [of K M None])

interpretation link: audited_check K "link_checks K M a b" "link_denied K M a b" EACCES for K M a b
proof -
  have "audited_check K (link_checks K M a b)
      (inode_denied K M (dentry_inode K a) SEAL_NO_WRITE \<or> ancestors_denied K M a SEAL_NO_WRITE \<or>
       ancestors_denied K M b SEAL_NO_WRITE \<or> no_write_hit K M a \<noteq> None \<or> no_write_hit K M b \<noteq> None) EACCES"
    unfolding link_checks_def deny_hardlink_subtree_alias_invariants_def
    by (intro audited_then audited_link_source audited_dentry_parent audited_child_invariant)
  then show "audited_check K (link_checks K M a b) (link_denied K M a b) EACCES"
    by (rule audited_cong) (use denied_has_hit in \<open>unfold link_denied_def, blast\<close>)
qed

interpretation file_write: audited_check K "deny_file_write K M f" "write_denied K M f" EACCES for K M f
  by (rule audited_file_write)

lemma audited_guard:
  "audited_check K c P EACCES \<Longrightarrow> audited_check K (if g then allow else c) (\<not> g \<and> P) EACCES"
  by (simp add: audited_allow)

interpretation opened: audited_check K "open_checks K M f"
  "file_fmode K f AND FMODE_WRITE \<noteq> 0 \<and> file_inode K f \<noteq> None \<and> write_denied K M f" EACCES for K M f
  unfolding open_checks_def by (intro audited_guard audited_file_write)

interpretation chmod: audited_check K "chmod_checks K M d" "chmod_denied K M d" EACCES for K M d
  unfolding chmod_checks_def chmod_denied_def
  by (intro audited_then audited_or_eacces audited_inode_action audited_dentry_parent)

lemma audited_when:
  "audited_check K c P EACCES \<Longrightarrow> audited_check K (if g then c else allow) (g \<and> P) EACCES"
  by (simp add: audited_allow)

lemma inode_denied_lookup:
  "inode_denied K M p msk =
     (case lookup_inode_seals K M p of
        None \<Rightarrow> False
      | Some (k, isv, dsv) \<Rightarrow> opt_denies K M isv msk \<or> opt_denies K M dsv msk)"
  by (auto simp: lookup_inode_seals_def inode_denied_def opt_denies_def Let_def)

lemma audited_setattr_own:
  "audited_check K (setattr_own_checks K M p v)
     ((attr_write v \<and> inode_denied K M p SEAL_NO_WRITE) \<or> (attr_chmod_own v \<and> inode_denied K M p SEAL_NO_CHMOD))
     EACCES"
proof (cases "lookup_inode_seals K M p")
  case None
  then show ?thesis by (simp add: setattr_own_checks_def inode_denied_lookup audited_allow)
next
  case (Some r)
  obtain k isv dsv where r: "r = (k, isv, dsv)" by (cases r) auto
  have pair: "audited_check K (then_check (seal_decision K M isv msk act (ik_dev k) (ik_ino k))
        (seal_decision K M dsv msk act (ik_dev k) (ik_ino k)))
      (opt_denies K M isv msk \<or> opt_denies K M dsv msk) EACCES" for msk act
    unfolding opt_denies_def by (intro audited_then audited_seal_decision)
  show ?thesis
    unfolding setattr_own_checks_def inode_denied_lookup attr_chmod_own_def attr_write_def Some r
      option.case prod.case not_not
    by (intro audited_then audited_when pair)
qed

interpretation setattr: audited_check K "setattr_checks K M d v" "setattr_denied K M d v" EACCES for K M d v
proof -
  have "audited_check K (setattr_checks K M d v)
      (((attr_write v \<and> inode_denied K M (dentry_inode K d) SEAL_NO_WRITE) \<or>
        (attr_chmod_own v \<and> inode_denied K M (dentry_inode K d) SEAL_NO_CHMOD)) \<or>
       (v AND ATTR_SIZE \<noteq> 0 \<and> ancestors_denied K M d SEAL_NO_WRITE) \<or>
       (v AND NOT ATTR_SIZE \<noteq> 0 \<and> ancestors_denied K M d SEAL_NO_CHMOD)) EACCES"
    unfolding setattr_checks_def by (intro audited_then audited_setattr_own audited_when audited_dentry_parent)
  then show "audited_check K (setattr_checks K M d v) (setattr_denied K M d v) EACCES"
    by (rule audited_cong) (unfold setattr_denied_def attr_write_def, blast)
qed

definition is_flag_ioctl :: "u32 \<Rightarrow> bool" where
  "is_flag_ioctl cmd \<longleftrightarrow> cmd \<in> {0x40086602, 0x40046602, 0x401c5820, 0x40087602, 0x40047602}"

definition ioctl_denied :: "kernel \<Rightarrow> maps \<Rightarrow> addr option \<Rightarrow> u32 \<Rightarrow> bool" where
  "ioctl_denied K M f cmd \<longleftrightarrow>
     is_flag_ioctl cmd \<and> file_inode K f \<noteq> None \<and>
     (inode_denied K M (file_inode K f) SEAL_NO_CHMOD \<or> ancestors_denied K M (file_dentry K f) SEAL_NO_CHMOD)"

interpretation ioctl: audited_check K "ioctl_checks K M f cmd" "ioctl_denied K M f cmd" EACCES for K M f cmd
proof -
  have "audited_check K (ioctl_checks K M f cmd)
      (\<not> (cmd \<noteq> COMP_FS_IOC_SETFLAGS \<and> cmd \<noteq> COMP_FS_IOC32_SETFLAGS \<and> cmd \<noteq> COMP_FS_IOC_FSSETXATTR
         \<and> cmd \<noteq> COMP_FS_IOC_SETVERSION \<and> cmd \<noteq> COMP_FS_IOC32_SETVERSION) \<and>
       \<not> file_inode K f = None \<and>
       (inode_denied K M (file_inode K f) SEAL_NO_CHMOD \<or> ancestors_denied K M (file_dentry K f) SEAL_NO_CHMOD)) EACCES"
    unfolding ioctl_checks_def file_parent_as_dentry
    by (intro audited_guard audited_then audited_or_eacces audited_inode_action audited_dentry_parent)
  then show "audited_check K (ioctl_checks K M f cmd) (ioctl_denied K M f cmd) EACCES"
    by (rule audited_cong)
      (auto simp: ioctl_denied_def is_flag_ioctl_def COMP_FS_IOC_SETFLAGS_def COMP_FS_IOC32_SETFLAGS_def
        COMP_FS_IOC_FSSETXATTR_def COMP_FS_IOC_SETVERSION_def COMP_FS_IOC32_SETVERSION_def)
qed

lemma audited_mount: "audited_check K (deny_mount_on_dentry K M mp) (mount_denied K M mp) EACCES"
proof (cases mp)
  case None
  then show ?thesis
    by (simp add: deny_mount_on_dentry_def mount_denied_def pin_denied_def inode_denied_def
        ancestors_denied_def COMPARTMENT_MAX_DIR_ANCESTORS_def numeral_eq_Suc audited_allow Let_def split: option.split)
next
  case (Some d)
  have "audited_check K
      (then_check (or_eacces (deny_pin_tamper K M (dentry_inode K mp)))
        (then_check (or_eacces (deny_inode_action K M (dentry_inode K mp) SEAL_FULL ACTION_DENY_MOUNT))
          (deny_dentry_parent_dir_action K M mp SEAL_FULL ACTION_DENY_MOUNT)))
      (mount_denied K M mp) EACCES"
    unfolding mount_denied_def
    by (intro audited_then audited_or_eacces audited_pin_tamper audited_inode_action audited_dentry_parent)
  with Some show ?thesis by (simp add: deny_mount_on_dentry_def)
qed

text \<open>
  What \<^verbatim>\<open>mount(2)\<close> does for a set of flags: the kernel tests them in this order and the first
  match wins.
\<close>

datatype mount_op = do_reconfigure_mnt | do_remount | do_loopback | do_change_type | do_move_mount_old | do_new_mount

definition MS_MOVE :: u64 where "MS_MOVE = 0x2000"

definition path_mount_op :: "u64 \<Rightarrow> mount_op" where
  "path_mount_op flags =
     (if flags AND (MS_REMOUNT OR MS_BIND) = MS_REMOUNT OR MS_BIND then do_reconfigure_mnt
      else if flags AND MS_REMOUNT \<noteq> 0 then do_remount
      else if flags AND MS_BIND \<noteq> 0 then do_loopback
      else if flags AND (MS_SHARED OR MS_PRIVATE OR MS_SLAVE OR MS_UNBINDABLE) \<noteq> 0 then do_change_type
      else if flags AND MS_MOVE \<noteq> 0 then do_move_mount_old
      else do_new_mount)"

definition attaches :: "mount_op \<Rightarrow> bool" where
  "attaches mop \<longleftrightarrow> mop \<in> {do_loopback, do_move_mount_old, do_new_mount}"

lemma remount_bind_has_remount:
  "flags AND (MS_REMOUNT OR MS_BIND) = MS_REMOUNT OR MS_BIND \<Longrightarrow> flags AND MS_REMOUNT \<noteq> 0"
proof
  assume a: "flags AND (MS_REMOUNT OR MS_BIND) = MS_REMOUNT OR MS_BIND" and z: "flags AND MS_REMOUNT = 0"
  have "MS_REMOUNT AND (MS_REMOUNT OR MS_BIND) = MS_REMOUNT" by (simp add: MS_REMOUNT_def MS_BIND_def)
  then have "flags AND MS_REMOUNT = (flags AND (MS_REMOUNT OR MS_BIND)) AND MS_REMOUNT"
    by (metis and.assoc and.commute)
  also have "\<dots> = MS_REMOUNT" unfolding a by (simp add: MS_REMOUNT_def MS_BIND_def)
  finally show False using z by (simp add: MS_REMOUNT_def)
qed

interpretation sb_mount: audited_check K "sb_mount_checks K M path flags"
  "attaches (path_mount_op flags) \<and> mount_denied K M (p_dentry path)" EACCES for K M path flags
proof -
  have "audited_check K (sb_mount_checks K M path flags)
      (\<not> flags AND MS_REMOUNT \<noteq> 0 \<and> \<not> (flags AND MS_BIND = 0
          \<and> flags AND (MS_SHARED OR MS_PRIVATE OR MS_SLAVE OR MS_UNBINDABLE) \<noteq> 0)
        \<and> mount_denied K M (p_dentry path)) EACCES"
    unfolding sb_mount_checks_def by (intro audited_guard audited_mount)
  then show "audited_check K (sb_mount_checks K M path flags)
      (attaches (path_mount_op flags) \<and> mount_denied K M (p_dentry path)) EACCES"
    by (rule audited_cong) (use remount_bind_has_remount [of flags] in
        \<open>auto simp: attaches_def path_mount_op_def split: if_splits\<close>)
qed

interpretation umount: audited_check K "deny_umount_of_sealed_dev K M mnt" "umount_denied K M mnt" EACCES for K M mnt
  by unfold_locales
    (auto simp: deny_umount_of_sealed_dev_def umount_denied_def sb_dev_def Let_def EACCES_def accounted_rules
      dest!: sym [of "Some _"] split: option.splits)

definition moves_filesystem :: "kernel \<Rightarrow> maps \<Rightarrow> kpath \<Rightarrow> bool" where
  "moves_filesystem K M from_path =
     (case (p_mnt from_path, p_dentry from_path) of
        (Some m, Some d) \<Rightarrow> mnt_root (k_mount K m) = Some d \<and> umount_denied K M (Some m)
      | _ \<Rightarrow> False)"

interpretation move_mount: audited_check K "move_mount_checks K M from_path to_path"
  "moves_filesystem K M from_path \<or> mount_denied K M (p_dentry to_path)" EACCES for K M from_path to_path
proof -
  have "audited_check K (case (p_mnt from_path, p_dentry from_path) of
          (Some m, Some d) \<Rightarrow>
            if mnt_root (k_mount K m) = Some d then deny_umount_of_sealed_dev K M (Some m) else allow
        | _ \<Rightarrow> allow) (moves_filesystem K M from_path) EACCES"
    by (auto simp: moves_filesystem_def audited_allow umount.audited_check_axioms split: option.split)
  then show "audited_check K (move_mount_checks K M from_path to_path)
      (moves_filesystem K M from_path \<or> mount_denied K M (p_dentry to_path)) EACCES"
    unfolding move_mount_checks_def by (intro audited_then audited_mount)
qed

interpretation map_fd: audited_check K "bpf_map_checks K M mp" "map_fd_denied K M mp" EPERM for K M mp
proof
  fix x :: hctx assume x: "cid_coherent K (cid x)"
  note defs = bpf_map_checks_def map_fd_denied_def caller_is_loader_spec [OF x] deny_self_protect_def
    resolve_cid_coherent [OF x]
  show "fst (bpf_map_checks K M mp x) = (if map_fd_denied K M mp then - EPERM else 0)"
    by (auto simp: defs split: option.splits)
  show "cid_coherent K (cid (snd (bpf_map_checks K M mp x)))"
    using x by (auto simp: defs split: option.splits)
  show "accounted (map_fd_denied K M mp) (tele x) (tele (snd (bpf_map_checks K M mp x)))"
    by (auto simp: defs accounted_rules split: option.splits)
qed (simp add: EPERM_def)

interpretation prctl: audited_check K "prctl_checks K M opt"
  "cur_strict_loaded M \<noteq> 0 \<and> opt = PR_SET_MM" EPERM for K M opt
  by unfold_locales (auto simp: prctl_checks_def EPERM_def accounted_rules)

interpretation ptrace_access: audited_check K "ptrace_access_checks K M child"
  "cur_strict_loaded M \<noteq> 0 \<and> marked M child" EPERM for K M child
  by unfold_locales (auto simp: ptrace_access_checks_def EPERM_def accounted_rules)

interpretation ptrace_traceme: audited_check K "ptrace_traceme_checks K M"
  "cur_strict_loaded M \<noteq> 0 \<and> (\<exists>me. k_current K = Some me \<and> marked M me)" EPERM for K M
  by unfold_locales (auto simp: ptrace_traceme_checks_def EPERM_def accounted_rules split: option.splits)

section \<open>All deciding programs together\<close>

datatype lsm_call =
    Unlink "addr option" | Rename "addr option" "addr option" | Rmdir "addr option" | Create "addr option"
  | Mkdir "addr option" | Mknod "addr option" | Symlink "addr option" | Link "addr option" "addr option"
  | Open "addr option" | Permission "addr option" u32 | Truncate "addr option" | Setattr "addr option" u32
  | Mmap "addr option" u64 u64 u64 | Mprotect "addr option" u64 u64 | Setxattr "addr option"
  | Removexattr "addr option" | Set_acl "addr option" | Remove_acl "addr option" | Ioctl "addr option" u32
  | Mount kpath u64 | Umount "addr option" | Move_mount kpath kpath | Bpf_map "u32 option"
  | Prctl int | Ptrace_access addr | Ptrace_traceme

fun lsm_hook :: "kernel \<Rightarrow> maps \<Rightarrow> lsm_call \<Rightarrow> int \<Rightarrow> telemetry \<Rightarrow> int \<times> telemetry" where
  "lsm_hook K M (Unlink d) = comp_inode_unlink K M d"
| "lsm_hook K M (Rename a b) = comp_inode_rename K M a b"
| "lsm_hook K M (Rmdir d) = comp_inode_rmdir K M d"
| "lsm_hook K M (Create d) = comp_inode_create K M d"
| "lsm_hook K M (Mkdir d) = comp_inode_mkdir K M d"
| "lsm_hook K M (Mknod d) = comp_inode_mknod K M d"
| "lsm_hook K M (Symlink d) = comp_inode_symlink K M d"
| "lsm_hook K M (Link a b) = comp_inode_link K M a b"
| "lsm_hook K M (Open f) = comp_file_open K M f"
| "lsm_hook K M (Permission f msk) = comp_file_permission K M f msk"
| "lsm_hook K M (Truncate f) = comp_file_truncate K M f"
| "lsm_hook K M (Setattr d v) = comp_inode_setattr_impl K M d v"
| "lsm_hook K M (Mmap f rp p fl) = comp_mmap_file K M f rp p fl"
| "lsm_hook K M (Mprotect f fl p) = comp_file_mprotect K M f fl p"
| "lsm_hook K M (Setxattr d) = comp_inode_setxattr K M d"
| "lsm_hook K M (Removexattr d) = comp_inode_removexattr K M d"
| "lsm_hook K M (Set_acl d) = comp_inode_set_acl K M d"
| "lsm_hook K M (Remove_acl d) = comp_inode_remove_acl K M d"
| "lsm_hook K M (Ioctl f cmd) = comp_file_ioctl_impl K M f cmd"
| "lsm_hook K M (Mount p fl) = comp_sb_mount K M p fl"
| "lsm_hook K M (Umount m) = comp_sb_umount K M m"
| "lsm_hook K M (Move_mount a b) = comp_move_mount K M a b"
| "lsm_hook K M (Bpf_map i) = comp_bpf_map K M i"
| "lsm_hook K M (Prctl op) = comp_task_prctl K M op"
| "lsm_hook K M (Ptrace_access c) = comp_ptrace_access_check K M c"
| "lsm_hook K M Ptrace_traceme = comp_ptrace_traceme K M"

lemmas hook_defs = comp_inode_unlink_def comp_inode_rename_def comp_inode_rmdir_def comp_inode_create_def
  comp_inode_mkdir_def comp_inode_mknod_def comp_inode_symlink_def comp_inode_link_def comp_file_open_def
  comp_file_permission_def comp_file_truncate_def comp_inode_setattr_impl_def comp_mmap_file_def
  comp_file_mprotect_def comp_inode_setxattr_def comp_inode_removexattr_def comp_inode_set_acl_def
  comp_inode_remove_acl_def comp_file_ioctl_impl_def comp_sb_mount_def comp_sb_umount_def
  comp_move_mount_def comp_bpf_map_def comp_task_prctl_def comp_ptrace_access_check_def
  comp_ptrace_traceme_def

text \<open>The policy: which calls are denied, and with which error.\<close>

fun lsm_denied :: "kernel \<Rightarrow> maps \<Rightarrow> lsm_call \<Rightarrow> bool" where
  "lsm_denied K M (Unlink d) \<longleftrightarrow> unlink_denied K M d"
| "lsm_denied K M (Rename a b) \<longleftrightarrow> rename_denied K M a b"
| "lsm_denied K M (Rmdir d) \<longleftrightarrow> unlink_denied K M d"
| "lsm_denied K M (Create d) \<longleftrightarrow> ancestors_denied K M d SEAL_NO_WRITE"
| "lsm_denied K M (Mkdir d) \<longleftrightarrow> mkdir_denied K M d"
| "lsm_denied K M (Mknod d) \<longleftrightarrow> ancestors_denied K M d SEAL_NO_WRITE"
| "lsm_denied K M (Symlink d) \<longleftrightarrow> no_write_hit K M d \<noteq> None"
| "lsm_denied K M (Link a b) \<longleftrightarrow> link_denied K M a b"
| "lsm_denied K M (Open f) \<longleftrightarrow>
     file_fmode K f AND FMODE_WRITE \<noteq> 0 \<and> file_inode K f \<noteq> None \<and> write_denied K M f"
| "lsm_denied K M (Permission f msk) \<longleftrightarrow> msk AND MAY_WRITE \<noteq> 0 \<and> write_denied K M f"
| "lsm_denied K M (Truncate f) \<longleftrightarrow> write_denied K M f"
| "lsm_denied K M (Setattr d v) \<longleftrightarrow> setattr_denied K M d v"
| "lsm_denied K M (Mmap f rp p fl) \<longleftrightarrow>
     (p OR rp) AND PROT_WRITE \<noteq> 0 \<and> fl AND MAP_SHARED \<noteq> 0 \<and> write_denied K M f"
| "lsm_denied K M (Mprotect f fl p) \<longleftrightarrow> p AND PROT_WRITE \<noteq> 0 \<and> fl AND VM_SHARED \<noteq> 0 \<and> write_denied K M f"
| "lsm_denied K M (Setxattr d) \<longleftrightarrow> chmod_denied K M d"
| "lsm_denied K M (Removexattr d) \<longleftrightarrow> chmod_denied K M d"
| "lsm_denied K M (Set_acl d) \<longleftrightarrow> chmod_denied K M d"
| "lsm_denied K M (Remove_acl d) \<longleftrightarrow> chmod_denied K M d"
| "lsm_denied K M (Ioctl f cmd) \<longleftrightarrow> ioctl_denied K M f cmd"
| "lsm_denied K M (Mount p fl) \<longleftrightarrow> attaches (path_mount_op fl) \<and> mount_denied K M (p_dentry p)"
| "lsm_denied K M (Umount m) \<longleftrightarrow> umount_denied K M m"
| "lsm_denied K M (Move_mount a b) \<longleftrightarrow> moves_filesystem K M a \<or> mount_denied K M (p_dentry b)"
| "lsm_denied K M (Bpf_map i) \<longleftrightarrow> map_fd_denied K M i"
| "lsm_denied K M (Prctl op) \<longleftrightarrow> cur_strict_loaded M \<noteq> 0 \<and> op = PR_SET_MM"
| "lsm_denied K M (Ptrace_access t) \<longleftrightarrow> cur_strict_loaded M \<noteq> 0 \<and> marked M t"
| "lsm_denied K M Ptrace_traceme \<longleftrightarrow> cur_strict_loaded M \<noteq> 0 \<and> (\<exists>me. k_current K = Some me \<and> marked M me)"

fun lsm_error :: "lsm_call \<Rightarrow> int" where
  "lsm_error (Bpf_map _) = EPERM"
| "lsm_error (Prctl _) = EPERM"
| "lsm_error (Ptrace_access _) = EPERM"
| "lsm_error Ptrace_traceme = EPERM"
| "lsm_error _ = EACCES"

text \<open>The check a call runs.\<close>

fun lsm_check :: "kernel \<Rightarrow> maps \<Rightarrow> lsm_call \<Rightarrow> check" where
  "lsm_check K M (Unlink d) = unlink_checks K M d"
| "lsm_check K M (Rename a b) = rename_checks K M a b"
| "lsm_check K M (Rmdir d) = rmdir_checks K M d"
| "lsm_check K M (Create d) = create_checks K M d"
| "lsm_check K M (Mkdir d) = mkdir_checks K M d"
| "lsm_check K M (Mknod d) = deny_dentry_parent_dir_action K M d SEAL_NO_WRITE ACTION_DENY_CREATE"
| "lsm_check K M (Symlink d) = symlink_checks K M d"
| "lsm_check K M (Link a b) = link_checks K M a b"
| "lsm_check K M (Open f) = open_checks K M f"
| "lsm_check K M (Permission f msk) = (if msk AND MAY_WRITE = 0 then allow else deny_file_write K M f)"
| "lsm_check K M (Truncate f) = deny_file_write K M f"
| "lsm_check K M (Setattr d v) = setattr_checks K M d v"
| "lsm_check K M (Mmap f rp p fl) =
     (if f = None then allow else if (p OR rp) AND PROT_WRITE = 0 then allow
      else if fl AND MAP_SHARED = 0 then allow else deny_file_write K M f)"
| "lsm_check K M (Mprotect f fl p) =
     (if p AND PROT_WRITE = 0 then allow else if fl AND VM_SHARED = 0 then allow
      else if f = None then allow else deny_file_write K M f)"
| "lsm_check K M (Setxattr d) = chmod_checks K M d"
| "lsm_check K M (Removexattr d) = chmod_checks K M d"
| "lsm_check K M (Set_acl d) = chmod_checks K M d"
| "lsm_check K M (Remove_acl d) = chmod_checks K M d"
| "lsm_check K M (Ioctl f cmd) = ioctl_checks K M f cmd"
| "lsm_check K M (Mount p fl) = sb_mount_checks K M p fl"
| "lsm_check K M (Umount m) = deny_umount_of_sealed_dev K M m"
| "lsm_check K M (Move_mount a b) = move_mount_checks K M a b"
| "lsm_check K M (Bpf_map i) = bpf_map_checks K M i"
| "lsm_check K M (Prctl op) = prctl_checks K M op"
| "lsm_check K M (Ptrace_access t) = ptrace_access_checks K M t"
| "lsm_check K M Ptrace_traceme = ptrace_traceme_checks K M"

lemma lsm_hook_runs: "lsm_hook K M call ret = run_hook ret (lsm_check K M call)"
  by (cases call) (simp_all add: hook_defs)

lemma write_denied_None [simp]: "\<not> write_denied K M None"
  by (simp add: write_denied_def)

lemma audited_write_when:
  "audited_check K (if g then allow else deny_file_write K M f) (\<not> g \<and> write_denied K M f) EACCES"
  by (rule audited_guard [OF audited_file_write])

lemmas program_audited = unlink.audited_check_axioms rename.audited_check_axioms
  rmdir.audited_check_axioms create.audited_check_axioms mkdir.audited_check_axioms
  mknod.audited_check_axioms symlink.audited_check_axioms link.audited_check_axioms
  opened.audited_check_axioms file_write.audited_check_axioms setattr.audited_check_axioms
  chmod.audited_check_axioms ioctl.audited_check_axioms sb_mount.audited_check_axioms
  umount.audited_check_axioms move_mount.audited_check_axioms map_fd.audited_check_axioms
  prctl.audited_check_axioms ptrace_access.audited_check_axioms ptrace_traceme.audited_check_axioms

interpretation lsm: audited_check K "lsm_check K M call" "lsm_denied K M call" "lsm_error call" for K M call
proof (cases call)
  case (Permission f msk)
  then show "audited_check K (lsm_check K M call) (lsm_denied K M call) (lsm_error call)"
    using audited_write_when [of K "msk AND MAY_WRITE = 0" M f] by simp
next
  case (Mmap f rp p fl)
  then show "audited_check K (lsm_check K M call) (lsm_denied K M call) (lsm_error call)"
    by (cases f) (auto simp: audited_allow audited_file_write)
next
  case (Mprotect f fl p)
  then show "audited_check K (lsm_check K M call) (lsm_denied K M call) (lsm_error call)"
    by (cases f) (auto simp: audited_allow audited_file_write)
qed (simp_all only: lsm_check.simps lsm_denied.simps lsm_error.simps program_audited)

end
