(* ===== verification/Seal_Policy.thy ===== *)
theory Seal_Policy
  imports Seal_Decisions "HOL-Library.Sublist"
begin

text \<open>
  The properties of the deciding LSM programs: the exact verdict of each, the accounting of
  denials over whole runs, the reach of a directory seal, and the self-protection gates.
\<close>

section \<open>Runs of calls\<close>

text \<open>A call with the kernel and the maps at that moment, and a run of them.\<close>

type_synonym traced_call = "kernel \<times> maps \<times> lsm_call"

fun call_denied :: "traced_call \<Rightarrow> bool" where
  "call_denied (K, M, call) = lsm_denied K M call"

fun run_calls :: "traced_call list \<Rightarrow> telemetry \<Rightarrow> telemetry" where
  "run_calls [] t = t"
| "run_calls ((K, M, call) # cs) t = run_calls cs (snd (lsm_hook K M call 0 t))"

lemma lsm_accounts: "accounted (lsm_denied K M call) t (snd (lsm_hook K M call 0 t))"
  unfolding lsm_hook_runs by (rule lsm.hook_accounts)

lemma accounted_cases:
  assumes "accounted d t t'"
  obtains "\<not> d" "counters t' deny_total = counters t deny_total"
      "counters t' audit_drop_total = counters t audit_drop_total" "audit_rb t' = audit_rb t" "rb_room t' = rb_room t"
  | "d" "counters t' deny_total = counters t deny_total + 1"
      "counters t' audit_drop_total = counters t audit_drop_total + 1" "audit_rb t' = audit_rb t" "rb_room t' = rb_room t"
  | e where "d" "counters t' deny_total = counters t deny_total + 1"
      "counters t' audit_drop_total = counters t audit_drop_total" "audit_rb t' = audit_rb t @ [e]"
      "ae_version e = COMPARTMENT_ABI_VERSION" "rb_room t = Suc (rb_room t')"
  using assms by (cases d; cases "rb_room t = 0"; auto simp: accounted_def)

text \<open>A denied call is an error of its program.\<close>

lemma hook_denies: "lsm_denied K M call \<Longrightarrow> fst (lsm_hook K M call 0 t) = - lsm_error call"
  using lsm.hook_verdict [of K M call t] by (simp add: lsm_hook_runs)

section \<open>Climbing\<close>

fun climb :: "kernel \<Rightarrow> nat \<Rightarrow> addr option \<Rightarrow> addr option" where
  "climb K 0 cur = cur"
| "climb K (Suc k) cur = climb K k (parent_of K cur)"

lemma climb_None [simp]: "climb K k None = None"
  by (induction k) simp_all

lemma ancestors_climb: "a \<in> set (ancestors n K cur) \<longleftrightarrow> (\<exists>k < n. climb K k cur = Some a)"
proof (induction n arbitrary: cur)
  case 0
  show ?case by simp
next
  case (Suc n)
  have "(\<exists>k < Suc n. climb K k cur = Some a) \<longleftrightarrow>
      cur = Some a \<or> (\<exists>k < n. climb K k (parent_of K cur) = Some a)"
    by (auto simp: less_Suc_eq_0_disj)
  then show ?case using Suc [of "parent_of K cur"] by (cases cur) auto
qed

lemma ancestor_seal_denies:
  assumes "climb K (Suc k) d = Some D" and "k < COMPARTMENT_MAX_DIR_ANCESTORS"
    and "dir_entry K M D = Some (dk, sv)" and "seal_denies K M sv msk"
  shows "ancestors_denied K M d msk"
proof -
  have "D \<in> set (ancestors COMPARTMENT_MAX_DIR_ANCESTORS K (parent_of K d))"
    using assms(1,2) by (auto simp: ancestors_climb)
  moreover have "dir_denied K M msk D" using assms(3,4) by (simp add: dir_denied_def)
  ultimately show ?thesis by (auto simp: ancestors_denied_def list_ex_iff)
qed

text \<open>The calls that write at a dentry: to a file open there, or to the directory entry itself.\<close>

fun writes_at :: "kernel \<Rightarrow> addr \<Rightarrow> lsm_call \<Rightarrow> bool" where
  "writes_at K d (Open f) \<longleftrightarrow> file_dentry K f = Some d \<and> file_inode K f \<noteq> None \<and> file_fmode K f AND FMODE_WRITE \<noteq> 0"
| "writes_at K d (Permission f msk) \<longleftrightarrow> file_dentry K f = Some d \<and> msk AND MAY_WRITE \<noteq> 0"
| "writes_at K d (Truncate f) \<longleftrightarrow> file_dentry K f = Some d"
| "writes_at K d (Mmap f rp p fl) \<longleftrightarrow>
     file_dentry K f = Some d \<and> (p OR rp) AND PROT_WRITE \<noteq> 0 \<and> fl AND MAP_SHARED \<noteq> 0"
| "writes_at K d (Mprotect f fl p) \<longleftrightarrow> file_dentry K f = Some d \<and> p AND PROT_WRITE \<noteq> 0 \<and> fl AND VM_SHARED \<noteq> 0"
| "writes_at K d (Setattr e v) \<longleftrightarrow> e = Some d \<and> v AND ATTR_SIZE \<noteq> 0"
| "writes_at K d (Create e) \<longleftrightarrow> e = Some d"
| "writes_at K d (Mkdir e) \<longleftrightarrow> e = Some d"
| "writes_at K d (Mknod e) \<longleftrightarrow> e = Some d"
| "writes_at K d (Symlink e) \<longleftrightarrow> e = Some d"
| "writes_at K d (Link a b) \<longleftrightarrow> a = Some d \<or> b = Some d"
| "writes_at K d (Rename a b) \<longleftrightarrow> a = Some d \<or> b = Some d"
| "writes_at K d _ \<longleftrightarrow> False"

lemma sealed_write_denied:
  assumes denied: "ancestors_denied K M (Some d) SEAL_NO_WRITE" and w: "writes_at K d call"
  shows "fst (lsm_hook K M call 0 t) = - EACCES"
proof -
  have f: "write_denied K M f" if "file_dentry K f = Some d" for f
    using denied that by (cases f) (simp_all add: write_denied_def file_dentry_def)
  have hit: "no_write_hit K M (Some d) \<noteq> None" by (rule denied_has_hit [OF denied])
  have "lsm_denied K M call"
    using w f hit denied
    by (cases call)
      (auto simp: mkdir_denied_def link_denied_def rename_denied_def setattr_denied_def attr_write_def)
  moreover have "lsm_error call = EACCES" using w by (cases call) simp_all
  ultimately show ?thesis by (simp add: hook_denies)
qed

section \<open>A small system\<close>

text \<open>A directory (dentry 2) with a file (dentry 3) under the root (dentry 1).\<close>

definition demo_kernel :: kernel where
  "demo_kernel =
     \<lparr>k_inode = (\<lambda>a. \<lparr>i_ino = of_nat a, i_sb = Some 0, i_mode = (if a = 12 then 0x41ED else 0x81A4), i_nlink = 1\<rparr>),
      k_sb = (\<lambda>_. \<lparr>s_dev = 5, s_root = Some 1\<rparr>),
      k_dentry = (\<lambda>d. \<lparr>d_inode = (if d = 4 then None else Some (10 + d)), d_parent = Some (if d = 1 then 1 else if d = 2 then 1 else 2)\<rparr>),
      k_file = (\<lambda>f. \<lparr>f_mode = 2, f_inode = Some (10 + f), f_dentry = Some f\<rparr>),
      k_mount = (\<lambda>_. \<lparr>mnt_root = Some 1, mnt_sb = Some 0\<rparr>),
      k_task = (\<lambda>_. \<lparr>t_exe_file = Some 9, t_real_parent_tgid = 1\<rparr>),
      k_current = Some 7, k_pid_tgid = 0, k_uid_gid = 0, k_ktime_ns = 0, k_comm = ''sh'', k_storage_ok = True\<rparr>"

definition demo_seal :: seal_value where
  "demo_seal = \<lparr>sv_flags = SEAL_NO_WRITE, sv_actor_count = 0, sv_actor = (\<lambda>_. \<lparr>ik_dev = 0, ik_ino = 0\<rparr>),
     sv_actor_name = '''', sv_strict_actor_slot = 0, sv_strict_generation = 0\<rparr>"

definition demo_maps :: maps where
  "demo_maps =
     \<lparr>sealed_inodes = Map.empty, sealed_dirs = [\<lparr>ik_dev = 5, ik_ino = 12\<rparr> \<mapsto> demo_seal],
      sealed_devs = [5 \<mapsto> 1], launcher_to_actor = Map.empty, actor_marker_map = Map.empty,
      policy_state_map = Some \<lparr>ps_generation = 1, ps_strict_loaded = 0\<rparr>,
      self_protect_cfg_map = Some \<lparr>sp_pin_dev = 5, sp_enabled = 1\<rparr>, protected_map_ids = [77 \<mapsto> 1],
      loader_ids = [\<lparr>ik_dev = 5, ik_ino = 99\<rparr> \<mapsto> 1], protected_pins = [\<lparr>ik_dev = 5, ik_ino = 13\<rparr> \<mapsto> 1]\<rparr>"

definition demo_tele :: telemetry where
  "demo_tele = \<lparr>counters = (\<lambda>_. 0), audit_rb = [], rb_room = 1\<rparr>"

section \<open>Properties\<close>

text \<open>
  C1: every deciding LSM program returns exactly what the policy says: its error when the call
  is denied and 0 when it is not, whatever the telemetry holds; and a decision an earlier
  module made is returned untouched, without an event or a count.
\<close>

theorem lsm_verdict_exact:
  "fst (lsm_hook K M call 0 t) = (if lsm_denied K M call then - lsm_error call else 0)
   \<and> lsm_hook K M call ret t = (if ret = 0 then lsm_hook K M call 0 t else (ret, t))"
  using lsm.hook_verdict [of K M call t] by (simp add: lsm_hook_runs run_hook_def)

text \<open>
  C15: over any run of calls the deny counter grows by the number of denied calls, every denial
  is either an event or a counted drop, events are appended in order and carry the ABI
  version, and calls that are allowed leave no trace in any of them.
\<close>

theorem denials_accounted:
  "counters (run_calls cs t) deny_total = counters t deny_total + of_nat (length (filter call_denied cs))
   \<and> (\<exists>es. audit_rb (run_calls cs t) = audit_rb t @ es
        \<and> list_all (\<lambda>e. ae_version e = COMPARTMENT_ABI_VERSION) es
        \<and> length es + rb_room (run_calls cs t) = rb_room t
        \<and> counters (run_calls cs t) audit_drop_total + of_nat (length es) =
            counters t audit_drop_total + of_nat (length (filter call_denied cs)))"
proof (induction cs arbitrary: t)
  case Nil
  show ?case by simp
next
  case (Cons c cs)
  obtain K M call where c: "c = (K, M, call)" by (cases c) auto
  let ?t = "snd (lsm_hook K M call 0 t)"
  obtain es where es: "audit_rb (run_calls cs ?t) = audit_rb ?t @ es"
      "list_all (\<lambda>e. ae_version e = COMPARTMENT_ABI_VERSION) es"
      "length es + rb_room (run_calls cs ?t) = rb_room ?t"
      "counters (run_calls cs ?t) audit_drop_total + of_nat (length es) =
         counters ?t audit_drop_total + of_nat (length (filter call_denied cs))"
    using Cons.IH [of ?t] by blast
  have deny: "counters (run_calls cs ?t) deny_total =
      counters ?t deny_total + of_nat (length (filter call_denied cs))" using Cons.IH [of ?t] by blast
  show ?case
  proof (rule accounted_cases [OF lsm_accounts [of K M call t]])
    assume "\<not> lsm_denied K M call" "counters ?t deny_total = counters t deny_total"
      "counters ?t audit_drop_total = counters t audit_drop_total" "audit_rb ?t = audit_rb t" "rb_room ?t = rb_room t"
    then show ?thesis using es deny by (intro conjI exI [of _ es]) (simp_all add: c)
  next
    assume "lsm_denied K M call" "counters ?t deny_total = counters t deny_total + 1"
      "counters ?t audit_drop_total = counters t audit_drop_total + 1" "audit_rb ?t = audit_rb t" "rb_room ?t = rb_room t"
    then show ?thesis using es deny by (intro conjI exI [of _ es]) (simp_all add: c algebra_simps)
  next
    fix e
    assume "lsm_denied K M call" "counters ?t deny_total = counters t deny_total + 1"
      "counters ?t audit_drop_total = counters t audit_drop_total" "audit_rb ?t = audit_rb t @ [e]"
      "ae_version e = COMPARTMENT_ABI_VERSION" "rb_room t = Suc (rb_room ?t)"
    then show ?thesis using es deny by (intro conjI exI [of _ "e # es"]) (simp_all add: c algebra_simps)
  qed
qed

text \<open>
  C21: a no-write seal on a directory reaches its whole subtree within the walk: at a dentry up to
  eight levels below the sealed directory, for a caller the seal denies, the LSM program of every
  writing call returns \<^verbatim>\<open>-EACCES\<close>, whatever the telemetry holds: opening a file for writing, writing,
  truncating, mapping it shared and writable or making such a mapping writable, setting its size
  (with whatever other attributes), creating, making a directory, a node, a symbolic or a hard link
  there or from there, and renaming from or to there.
\<close>

theorem subtree_seal_covers:
  assumes "climb K (Suc k) (Some d) = Some D" and "k < COMPARTMENT_MAX_DIR_ANCESTORS"
    and "dir_entry K M D = Some (dk, sv)" and "seal_denies K M sv SEAL_NO_WRITE"
    and "writes_at K d call"
  shows "fst (lsm_hook K M call 0 t) = - EACCES"
  by (rule sealed_write_denied [OF ancestor_seal_denies [OF assms(1-4)] assms(5)])

theorem subtree_seal_covers_witness:
  "fst (comp_file_truncate demo_kernel demo_maps (Some 3) 0 demo_tele) = - EACCES"
  using subtree_seal_covers [where K = demo_kernel and M = demo_maps and d = 3 and k = 0 and D = 2
      and dk = "\<lparr>ik_dev = 5, ik_ino = 12\<rparr>" and sv = demo_seal and call = "Truncate (Some 3)" and t = demo_tele]
  by (simp add: demo_kernel_def demo_maps_def demo_seal_def parent_of_Some dir_entry_def inode_key_of_def
      sb_dev_def seal_denies_def seal_flag_defs COMPARTMENT_MAX_DIR_ANCESTORS_def file_dentry_def Let_def)

text \<open>
  No alias of a file under a no-write seal can be made, by anybody: with a no-write seal
  on a directory at most eight levels above a dentry, making a hard link from it or at it and
  making a symbolic link at it are denied to every caller, the actors of the seal included.
\<close>

theorem subtree_no_alias:
  assumes "climb K (Suc k) d = Some D" and "k < COMPARTMENT_MAX_DIR_ANCESTORS"
    and "dir_entry K M D = Some (dk, sv)" and "sv_flags sv AND SEAL_NO_WRITE \<noteq> 0"
  shows "list_all (lsm_denied K M) [Link d other, Link other d, Symlink d]"
proof -
  have "D \<in> set (ancestors COMPARTMENT_MAX_DIR_ANCESTORS K (parent_of K d))"
    using assms(1,2) by (auto simp: ancestors_climb)
  moreover have "flagged K M SEAL_NO_WRITE D" using assms(3,4) by (simp add: flagged_def)
  ultimately have "no_write_hit K M d \<noteq> None" unfolding no_write_hit_iff list_ex_iff by blast
  then show ?thesis by (simp add: link_denied_def)
qed

theorem subtree_no_alias_witness:
  "lsm_denied demo_kernel demo_maps (Symlink (Some 3)) \<and> lsm_denied demo_kernel demo_maps (Link (Some 3) (Some 1))"
proof -
  have "list_all (lsm_denied demo_kernel demo_maps) [Link (Some 3) (Some 1), Link (Some 1) (Some 3), Symlink (Some 3)]"
    by (rule subtree_no_alias [where k = 0 and D = 2 and dk = "\<lparr>ik_dev = 5, ik_ino = 12\<rparr>" and sv = demo_seal])
      (simp_all add: demo_kernel_def demo_maps_def demo_seal_def parent_of_Some dir_entry_def inode_key_of_def
        sb_dev_def seal_flag_defs COMPARTMENT_MAX_DIR_ANCESTORS_def Let_def)
  then show ?thesis by simp
qed

text \<open>
  C23: \<^verbatim>\<open>comp_sb_mount\<close> gates exactly the calls that attach a mount: for every set of flags it
  denies when the kernel's dispatch would attach one and the mount point, or a directory
  above it, is sealed or protected; a bind mount with a propagation flag added is gated too.
\<close>

theorem mount_gate_exact:
  "(fst (comp_sb_mount K M path flags 0 t) \<noteq> 0 \<longleftrightarrow>
      attaches (path_mount_op flags) \<and> mount_denied K M (p_dentry path))
   \<and> attaches (path_mount_op (MS_BIND OR MS_PRIVATE)) \<and> \<not> attaches (path_mount_op MS_PRIVATE)
   \<and> \<not> attaches (path_mount_op (MS_REMOUNT OR MS_BIND))"
proof -
  have "fst (comp_sb_mount K M path flags 0 t) \<noteq> 0 \<longleftrightarrow>
      attaches (path_mount_op flags) \<and> mount_denied K M (p_dentry path)"
    unfolding comp_sb_mount_def by (rule sb_mount.hook_denies_iff)
  then show ?thesis
    by (simp add: attaches_def path_mount_op_def MS_BIND_def MS_PRIVATE_def MS_REMOUNT_def MS_SHARED_def
        MS_SLAVE_def MS_UNBINDABLE_def)
qed

text \<open>
  C22: with self-protection in force, for a program that is not one of the loaders the LSM programs
  return \<^verbatim>\<open>-EPERM\<close> to a descriptor of a protected map and \<^verbatim>\<open>-EACCES\<close> to unlinking, removing or renaming a
  protected pin, to renaming over it and to mounting on it (any mount call the kernel takes as
  attaching one, or a moved mount), whatever the seals and the telemetry say; and no caller at
  all, a loader included, can detach the file system of the pins by its whole-file-system mount.
\<close>

theorem self_protection:
  assumes "self_protect M = Some cfg" and "\<not> is_loader K M"
    and "inode_key_of K (dentry_inode K d) = k" and "dentry_inode K d \<noteq> None"
    and "protected_pins M k \<noteq> None" and "ik_dev k = sp_pin_dev cfg" and "sp_pin_dev cfg \<noteq> 0"
    and "protected_map_ids M i \<noteq> None"
    and "mnt_sb (k_mount K' m) = Some sb" and "sb_dev K' (Some sb) = sp_pin_dev cfg"
    and "mnt_root (k_mount K' m) = s_root (k_sb K' sb)" and "s_root (k_sb K' sb) \<noteq> None"
  shows "fst (comp_bpf_map K M (Some i) 0 t) = - EPERM
    \<and> fst (comp_inode_unlink K M d 0 t) = - EACCES \<and> fst (comp_inode_rmdir K M d 0 t) = - EACCES
    \<and> fst (comp_inode_rename K M d other 0 t) = - EACCES \<and> fst (comp_inode_rename K M other d 0 t) = - EACCES
    \<and> (attaches (path_mount_op fl) \<longrightarrow> fst (comp_sb_mount K M \<lparr>p_mnt = pm, p_dentry = d\<rparr> fl 0 t) = - EACCES)
    \<and> fst (comp_move_mount K M from_path \<lparr>p_mnt = pm, p_dentry = d\<rparr> 0 t) = - EACCES
    \<and> fst (comp_sb_umount K' M (Some m) 0 t) = - EACCES"
proof -
  have pin: "pin_denied K M (dentry_inode K d)"
    using assms by (simp add: pin_denied_def Let_def)
  note hooks = hook_denies [of K M "Bpf_map (Some i)" t] hook_denies [of K M "Unlink d" t] hook_denies [of K M "Rmdir d" t]
    hook_denies [of K M "Rename d other" t] hook_denies [of K M "Rename other d" t]
    hook_denies [of K M "Mount \<lparr>p_mnt = pm, p_dentry = d\<rparr> fl" t]
    hook_denies [of K M "Move_mount from_path \<lparr>p_mnt = pm, p_dentry = d\<rparr>" t] hook_denies [of K' M "Umount (Some m)" t]
  show ?thesis using pin assms hooks
    by (simp add: map_fd_denied_def unlink_denied_def rename_denied_def mount_denied_def umount_denied_def)
qed

theorem self_protection_witness:
  "fst (comp_bpf_map demo_kernel demo_maps (Some 77) 0 demo_tele) = - EPERM
   \<and> fst (comp_inode_unlink demo_kernel demo_maps (Some 3) 0 demo_tele) = - EACCES
   \<and> fst (comp_sb_umount demo_kernel demo_maps (Some 1) 0 demo_tele) = - EACCES"
  using self_protection [where K = demo_kernel and K' = demo_kernel and M = demo_maps and d = "Some 3"
      and cfg = "\<lparr>sp_pin_dev = 5, sp_enabled = 1\<rparr>" and k = "\<lparr>ik_dev = 5, ik_ino = 13\<rparr>" and sb = 0 and m = 1 and i = 77
      and t = demo_tele]
  by (simp add: demo_kernel_def demo_maps_def self_protect_def is_loader_def caller_key_def file_inode_def
      inode_key_of_def sb_dev_def dentry_inode_def)

end
