(* ===== verification/Strict_Launch.thy ===== *)
theory Strict_Launch
  imports Seal_Policy
begin

text \<open>
  The strict-launch protocol of \<^verbatim>\<open>src/compartment-bpf/compartment.bpf.c\<close> as a state machine: tasks
  execute programs, fork and exit while \<^verbatim>\<open>comp_bprm_committed_creds\<close> and \<^verbatim>\<open>comp_task_alloc\<close> maintain
  the launch markers and \<^verbatim>\<open>comp_task_prctl\<close> guards the identity of the executable.  A ghost
  component records, for every task, the programs it and its ancestors committed to, latest
  first; the invariant ties each valid marker to that record.
\<close>

section \<open>The system\<close>

record slm =
  sl_maps :: maps
  sl_tm :: telemetry
  sl_exe :: "addr \<Rightarrow> inode_key option"      \<comment> \<open>the executable of each task, \<^verbatim>\<open>mm->exe_file\<close>\<close>
  sl_hist :: "addr \<Rightarrow> inode_key list"        \<comment> \<open>ghost: programs committed to, latest first\<close>

text \<open>The kernel a program sees is one in which the given task is current.\<close>

inductive slm_step :: "slm \<Rightarrow> slm \<Rightarrow> bool" where
  exec: "k_current K = Some t \<Longrightarrow> file_inode K f = Some i \<Longrightarrow>
     comp_bprm_committed_creds K f (sl_maps s, sl_tm s) = (M', tm') \<Longrightarrow>
     slm_step s (s\<lparr>sl_maps := M', sl_tm := tm',
       sl_exe := (sl_exe s)(t := Some (inode_key_of K (Some i))),
       sl_hist := (sl_hist s)(t := inode_key_of K (Some i) # sl_hist s t)\<rparr>)"
| exec_unresolved: "k_current K = Some t \<Longrightarrow> file_inode K f = None \<Longrightarrow>
     comp_bprm_committed_creds K f (sl_maps s, sl_tm s) = (M', tm') \<Longrightarrow>
     slm_step s (s\<lparr>sl_maps := M', sl_tm := tm', sl_exe := (sl_exe s)(t := None), sl_hist := (sl_hist s)(t := [])\<rparr>)"
| fork: "k_current K = Some p \<Longrightarrow> actor_marker_map (sl_maps s) child = None \<Longrightarrow>
     comp_task_alloc K child 0 (sl_maps s, sl_tm s) = (0, M', tm') \<Longrightarrow>
     slm_step s (s\<lparr>sl_maps := M', sl_tm := tm', sl_exe := (sl_exe s)(child := sl_exe s p),
       sl_hist := (sl_hist s)(child := sl_hist s p)\<rparr>)"
| exit: "slm_step s (s\<lparr>sl_maps := (sl_maps s)\<lparr>actor_marker_map := (actor_marker_map (sl_maps s))(t := None)\<rparr>,
       sl_exe := (sl_exe s)(t := None), sl_hist := (sl_hist s)(t := [])\<rparr>)"
| set_mm: "k_current K = Some t \<Longrightarrow> comp_task_prctl K (sl_maps s) PR_SET_MM 0 (sl_tm s) = (0, tm') \<Longrightarrow>
     slm_step s (s\<lparr>sl_tm := tm', sl_exe := (sl_exe s)(t := forged)\<rparr>)"
| decide: "slm_step s (s\<lparr>sl_tm := snd (lsm_hook K (sl_maps s) call 0 (sl_tm s))\<rparr>)"

inductive_cases slm_stepE: "slm_step s s'"

text \<open>A freshly loaded policy with strict seals: no task has a marker yet.\<close>

definition slm_initial :: "slm \<Rightarrow> bool" where
  "slm_initial s \<longleftrightarrow>
     cur_strict_loaded (sl_maps s) \<noteq> 0 \<and> actor_marker_map (sl_maps s) = Map.empty \<and> (\<forall>t. sl_hist s t = [])"

inductive slm_reachable :: "slm \<Rightarrow> bool" where
  slm_start: "slm_initial s \<Longrightarrow> slm_reachable s"
| slm_next: "slm_reachable s \<Longrightarrow> slm_step s s' \<Longrightarrow> slm_reachable s'"

section \<open>Provenance\<close>

text \<open>
  The record of a task shows a launcher that names the target and the slot, followed only by
  executions of the target.
\<close>

definition launched :: "maps \<Rightarrow> inode_key list \<Rightarrow> inode_key \<Rightarrow> u32 \<Rightarrow> bool" where
  "launched M hist target slot \<longleftrightarrow>
     (\<exists>n l rest la. hist = replicate n target @ l # rest \<and> launcher_to_actor M l = Some la \<and>
        la_target la = target \<and> la_actor_slot la = slot)"

definition marker_invariant :: "slm \<Rightarrow> bool" where
  "marker_invariant s \<longleftrightarrow>
     cur_strict_loaded (sl_maps s) \<noteq> 0 \<and>
     (\<forall>t. sl_hist s t \<noteq> [] \<longrightarrow> sl_exe s t = Some (hd (sl_hist s t))) \<and>
     (\<forall>t am. actor_marker_map (sl_maps s) t = Some am \<longrightarrow> am_state am \<noteq> 0 \<longrightarrow>
        launched (sl_maps s) (sl_hist s t) (am_target am) (am_actor_slot am) \<and>
        am_policy_generation am = cur_strict_generation (sl_maps s))"

lemma launched_launcher:
  "launcher_to_actor M l = Some la \<Longrightarrow> launched M (l # rest) (la_target la) (la_actor_slot la)"
  unfolding launched_def by (rule exI [of _ 0]) auto

lemma launched_target: "launched M hist target slot \<Longrightarrow> launched M (target # hist) target slot"
  unfolding launched_def by (metis append_Cons replicate_Suc)

text \<open>The two programs change nothing of the maps but the markers.\<close>

lemma committed_frame:
  "comp_bprm_committed_creds K f (M, tm) = (M', tm') \<Longrightarrow> \<exists>mm. M' = M\<lparr>actor_marker_map := mm\<rparr>"
  by (auto simp: comp_bprm_committed_creds_def Let_def split: if_splits option.splits
      intro: exI [of _ "actor_marker_map M"])

lemma task_alloc_frame:
  "comp_task_alloc K t r (M, tm) = (r', M', tm') \<Longrightarrow> \<exists>mm. M' = M\<lparr>actor_marker_map := mm\<rparr>"
  by (auto simp: comp_task_alloc_def split: if_splits option.splits intro: exI [of _ "actor_marker_map M"])

lemma frame_reads [simp]:
  "cur_strict_loaded (M\<lparr>actor_marker_map := mm\<rparr>) = cur_strict_loaded M"
  "cur_strict_generation (M\<lparr>actor_marker_map := mm\<rparr>) = cur_strict_generation M"
  "launched (M\<lparr>actor_marker_map := mm\<rparr>) = launched M"
  by (simp_all add: cur_strict_loaded_def cur_strict_generation_def launched_def fun_eq_iff)

text \<open>What an exec does to the marker of the task, and that it leaves the other tasks alone.\<close>

lemma committed_other:
  "comp_bprm_committed_creds K f (M, tm) = (M', tm') \<Longrightarrow> k_current K = Some t \<Longrightarrow> u \<noteq> t \<Longrightarrow>
   actor_marker_map M' u = actor_marker_map M u"
  by (auto simp: comp_bprm_committed_creds_def Let_def split: if_splits option.splits)

lemma committed_marker:
  assumes "comp_bprm_committed_creds K f (M, tm) = (M', tm')" and "k_current K = Some t"
    and "file_inode K f = Some i" and "cur_strict_loaded M \<noteq> 0"
    and "actor_marker_map M' t = Some am" and "am_state am \<noteq> 0"
  shows "(\<exists>la. launcher_to_actor M (inode_key_of K (Some i)) = Some la \<and> am_target am = la_target la
           \<and> am_actor_slot am = la_actor_slot la \<and> am_policy_generation am = cur_strict_generation M)
       \<or> (actor_marker_map M t = Some am \<and> am_target am = inode_key_of K (Some i))"
  using assms
  by (auto simp: comp_bprm_committed_creds_def Let_def storage_available_def split: if_splits option.splits)

lemma committed_unresolved:
  "comp_bprm_committed_creds K f (M, tm) = (M', tm') \<Longrightarrow> k_current K = Some t \<Longrightarrow> file_inode K f = None \<Longrightarrow>
   cur_strict_loaded M \<noteq> 0 \<Longrightarrow> actor_marker_map M' t = None"
  by (auto simp: comp_bprm_committed_creds_def)

lemma task_alloc_markers:
  "comp_task_alloc K child 0 (M, tm) = (0, M', tm') \<Longrightarrow> k_current K = Some p \<Longrightarrow>
   actor_marker_map M child = None \<Longrightarrow>
   (\<forall>u. u \<noteq> child \<longrightarrow> actor_marker_map M' u = actor_marker_map M u) \<and>
   (actor_marker_map M' child = None \<or> actor_marker_map M' child = actor_marker_map M p)"
  by (auto simp: comp_task_alloc_def split: if_splits option.splits)

lemma prctl_set_mm_refused:
  "cur_strict_loaded M \<noteq> 0 \<Longrightarrow> fst (comp_task_prctl K M PR_SET_MM 0 tm) \<noteq> 0"
  unfolding comp_task_prctl_def by (simp add: prctl.hook_denies_iff)

section \<open>The invariant is inductive\<close>

lemma invariant_exec:
  assumes inv: "marker_invariant s" and cur: "k_current K = Some t" and f: "file_inode K f = Some i"
    and hook: "comp_bprm_committed_creds K f (sl_maps s, sl_tm s) = (M', tm')"
  shows "marker_invariant (s\<lparr>sl_maps := M', sl_tm := tm',
       sl_exe := (sl_exe s)(t := Some (inode_key_of K (Some i))),
       sl_hist := (sl_hist s)(t := inode_key_of K (Some i) # sl_hist s t)\<rparr>)"
proof -
  let ?x = "inode_key_of K (Some i)"
  obtain mm where M': "M' = (sl_maps s)\<lparr>actor_marker_map := mm\<rparr>" using committed_frame [OF hook] by blast
  have loaded: "cur_strict_loaded (sl_maps s) \<noteq> 0" using inv by (simp add: marker_invariant_def)
  have "launched (sl_maps s) (?x # sl_hist s t) (am_target am) (am_actor_slot am)
      \<and> am_policy_generation am = cur_strict_generation (sl_maps s)"
    if am: "mm t = Some am" "am_state am \<noteq> 0" for am
    using committed_marker [OF hook cur f loaded, of am] am
  proof (simp add: M', elim disjE exE conjE)
    fix la assume "launcher_to_actor (sl_maps s) ?x = Some la" "am_target am = la_target la"
      "am_actor_slot am = la_actor_slot la" "am_policy_generation am = cur_strict_generation (sl_maps s)"
    then show ?thesis using launched_launcher by simp
  next
    assume "actor_marker_map (sl_maps s) t = Some am" "am_target am = ?x"
    then show ?thesis using inv am(2) launched_target unfolding marker_invariant_def by metis
  qed
  moreover have "mm u = actor_marker_map (sl_maps s) u" if "u \<noteq> t" for u
    using committed_other [OF hook cur that] by (simp add: M')
  ultimately show ?thesis using inv by (simp add: marker_invariant_def M')
qed

lemma invariant_fork:
  assumes inv: "marker_invariant s" and cur: "k_current K = Some p"
    and fresh: "actor_marker_map (sl_maps s) child = None"
    and hook: "comp_task_alloc K child 0 (sl_maps s, sl_tm s) = (0, M', tm')"
  shows "marker_invariant (s\<lparr>sl_maps := M', sl_tm := tm', sl_exe := (sl_exe s)(child := sl_exe s p),
       sl_hist := (sl_hist s)(child := sl_hist s p)\<rparr>)"
proof -
  obtain mm where M': "M' = (sl_maps s)\<lparr>actor_marker_map := mm\<rparr>" using task_alloc_frame [OF hook] by blast
  have "mm u = actor_marker_map (sl_maps s) u" if "u \<noteq> child" for u
    using task_alloc_markers [OF hook cur fresh] that by (simp add: M')
  moreover have "mm child = None \<or> mm child = actor_marker_map (sl_maps s) p"
    using task_alloc_markers [OF hook cur fresh] by (simp add: M')
  ultimately show ?thesis using inv by (auto simp: marker_invariant_def M')
qed

lemma invariant_step: "slm_step s s' \<Longrightarrow> marker_invariant s \<Longrightarrow> marker_invariant s'"
proof (induction rule: slm_step.induct)
  case (exec K t f i s M' tm')
  then show ?case using invariant_exec by blast
next
  case (exec_unresolved K t f s M' tm')
  obtain mm where M': "M' = (sl_maps s)\<lparr>actor_marker_map := mm\<rparr>" using committed_frame [OF exec_unresolved(3)] by blast
  have "mm t = None"
    using committed_unresolved [OF exec_unresolved(3,1,2)] exec_unresolved(4) by (simp add: marker_invariant_def M')
  moreover have "mm u = actor_marker_map (sl_maps s) u" if "u \<noteq> t" for u
    using committed_other [OF exec_unresolved(3,1) that] by (simp add: M')
  ultimately show ?case using exec_unresolved(4) by (simp add: marker_invariant_def M')
next
  case (fork K p s child M' tm')
  then show ?case using invariant_fork by blast
next
  case (exit s t)
  then show ?case by (simp add: marker_invariant_def)
next
  case (set_mm K t s tm' forged)
  then show ?case using prctl_set_mm_refused [of "sl_maps s" K "sl_tm s"] by (simp add: marker_invariant_def)
next
  case (decide s K call)
  then show ?case by (simp add: marker_invariant_def)
qed

lemma invariant_reachable: "slm_reachable s \<Longrightarrow> marker_invariant s"
proof (induction rule: slm_reachable.induct)
  case (slm_start s)
  then show ?case by (simp add: slm_initial_def marker_invariant_def)
next
  case (slm_next s s')
  then show ?case using invariant_step by blast
qed

section \<open>Properties\<close>

text \<open>
  C4: the promise of a strict-launch seal: in every reachable state, a caller that such a seal
  lets through runs the target of its marker, and it, or a process it was forked from, executed a
  declared launcher of that target with the seal's slot and has executed nothing but the
  target since.  Executing a foreign program, a forged executable through \<^verbatim>\<open>PR_SET_MM\<close> or a
  failed allocation never leads to such a state.
\<close>

theorem strict_launch_provenance:
  assumes "slm_reachable s" and "k_current K = Some t" and "caller_key K = sl_exe s t"
    and "sv_flags sv AND SEAL_STRICT_LAUNCH \<noteq> 0" and "sv_flags sv AND msk \<noteq> 0"
    and "\<not> seal_denies K (sl_maps s) sv msk"
  shows "\<exists>target. sl_exe s t = Some target
    \<and> launched (sl_maps s) (sl_hist s t) target (sv_strict_actor_slot sv)
    \<and> sv_strict_generation sv = cur_strict_generation (sl_maps s)"
proof -
  have "marker_ok K (sl_maps s) sv" using assms(4-6) by (simp add: seal_denies_def)
  then obtain target am where "sl_exe s t = Some target" "actor_marker_map (sl_maps s) t = Some am"
      "am_state am \<noteq> 0" "am_target am = target" "am_actor_slot am = sv_strict_actor_slot sv"
      "am_policy_generation am = cur_strict_generation (sl_maps s)"
      "am_policy_generation am = sv_strict_generation sv"
    using assms(2,3) by (auto simp: marker_ok_def split: option.splits)
  moreover from invariant_reachable [OF assms(1)] calculation(2,3)
  have "launched (sl_maps s) (sl_hist s t) (am_target am) (am_actor_slot am)"
    unfolding marker_invariant_def by blast
  ultimately show ?thesis by simp
qed

text \<open>Witness: task 7 executes the launcher (inode 13 of device 5) and then its target (inode 19).\<close>

definition slm_seal :: seal_value where
  "slm_seal = demo_seal\<lparr>sv_flags := 0x24, sv_actor_count := 1, sv_actor := (\<lambda>_. \<lparr>ik_dev = 5, ik_ino = 19\<rparr>),
     sv_strict_actor_slot := 3, sv_strict_generation := 1\<rparr>"

definition slm_maps :: maps where
  "slm_maps = demo_maps\<lparr>policy_state_map := Some \<lparr>ps_generation = 1, ps_strict_loaded = 1\<rparr>,
     launcher_to_actor := [\<lparr>ik_dev = 5, ik_ino = 13\<rparr> \<mapsto>
       \<lparr>la_target = \<lparr>ik_dev = 5, ik_ino = 19\<rparr>, la_actor_slot = 3, la_policy_generation = 1\<rparr>]\<rparr>"

definition slm0 :: slm where
  "slm0 = \<lparr>sl_maps = slm_maps, sl_tm = demo_tele, sl_exe = (\<lambda>_. None), sl_hist = (\<lambda>_. [])\<rparr>"

definition slm_marker :: actor_marker where
  "slm_marker = \<lparr>am_target = \<lparr>ik_dev = 5, ik_ino = 19\<rparr>, am_actor_slot = 3, am_policy_generation = 1, am_state = 1\<rparr>"

definition slm2 :: slm where
  "slm2 = \<lparr>sl_maps = slm_maps\<lparr>actor_marker_map := [7 \<mapsto> slm_marker]\<rparr>, sl_tm = bump marker_set_total demo_tele,
     sl_exe = (\<lambda>_. None)(7 := Some \<lparr>ik_dev = 5, ik_ino = 19\<rparr>),
     sl_hist = (\<lambda>_. [])(7 := [\<lparr>ik_dev = 5, ik_ino = 19\<rparr>, \<lparr>ik_dev = 5, ik_ino = 13\<rparr>])\<rparr>"

lemma slm2_reachable: "slm_reachable slm2"
proof -
  have k: "inode_key_of demo_kernel (Some 13) = \<lparr>ik_dev = 5, ik_ino = 13\<rparr>"
    "inode_key_of demo_kernel (Some 19) = \<lparr>ik_dev = 5, ik_ino = 19\<rparr>"
    by (simp_all add: inode_key_of_def demo_kernel_def sb_dev_def)
  have f: "file_inode demo_kernel (Some 3) = Some 13" "file_inode demo_kernel (Some 9) = Some 19"
    and c: "k_current demo_kernel = Some 7" "k_storage_ok demo_kernel"
    by (simp_all add: file_inode_def demo_kernel_def)
  have m: "cur_strict_loaded slm_maps = 1" "cur_strict_generation slm_maps = 1"
      "launcher_to_actor slm_maps \<lparr>ik_dev = 5, ik_ino = 13\<rparr> =
        Some \<lparr>la_target = \<lparr>ik_dev = 5, ik_ino = 19\<rparr>, la_actor_slot = 3, la_policy_generation = 1\<rparr>"
      "launcher_to_actor slm_maps \<lparr>ik_dev = 5, ik_ino = 19\<rparr> = None"
      "actor_marker_map slm_maps = Map.empty"
    by (simp_all add: slm_maps_def demo_maps_def cur_strict_loaded_def cur_strict_generation_def)
  let ?M = "slm_maps\<lparr>actor_marker_map := [7 \<mapsto> slm_marker]\<rparr>"
  have e1: "comp_bprm_committed_creds demo_kernel (Some 3) (slm_maps, demo_tele) = (?M, bump marker_set_total demo_tele)"
    by (simp add: comp_bprm_committed_creds_def f c m k storage_available_def slm_marker_def)
  have e2: "comp_bprm_committed_creds demo_kernel (Some 9) (?M, tm) = (?M, tm)" for tm
    by (simp add: comp_bprm_committed_creds_def f c m k slm_marker_def)
  have "slm_reachable slm0" by (rule slm_start) (simp add: slm_initial_def slm0_def m)
  then have "slm_reachable (slm0\<lparr>sl_maps := ?M, sl_tm := bump marker_set_total demo_tele,
      sl_exe := (sl_exe slm0)(7 := Some (inode_key_of demo_kernel (Some 13))),
      sl_hist := (sl_hist slm0)(7 := inode_key_of demo_kernel (Some 13) # sl_hist slm0 7)\<rparr>)" (is "slm_reachable ?s1")
    by (rule slm_next) (rule slm_step.exec [OF c(1) f(1)], simp add: slm0_def e1)
  then have "slm_reachable (?s1\<lparr>sl_maps := ?M, sl_tm := bump marker_set_total demo_tele,
      sl_exe := (sl_exe ?s1)(7 := Some (inode_key_of demo_kernel (Some 19))),
      sl_hist := (sl_hist ?s1)(7 := inode_key_of demo_kernel (Some 19) # sl_hist ?s1 7)\<rparr>)"
    by (rule slm_next) (rule slm_step.exec [OF c(1) f(2)], simp add: slm0_def e2)
  then show ?thesis by (simp add: slm2_def slm0_def k)
qed

theorem strict_launch_provenance_witness:
  "slm_reachable slm2 \<and> \<not> seal_denies demo_kernel (sl_maps slm2) slm_seal SEAL_NO_WRITE
   \<and> (\<exists>target. sl_exe slm2 7 = Some target \<and> launched (sl_maps slm2) (sl_hist slm2 7) target 3)"
proof -
  have key: "caller_key demo_kernel = Some \<lparr>ik_dev = 5, ik_ino = 19\<rparr>" "k_current demo_kernel = Some 7"
    by (simp_all add: caller_key_def demo_kernel_def file_inode_def inode_key_of_def sb_dev_def)
  have nd: "\<not> seal_denies demo_kernel (sl_maps slm2) slm_seal SEAL_NO_WRITE"
    by (simp add: seal_denies_def slm_seal_def demo_seal_def actor_ok_def marker_ok_def key slm2_def slm_marker_def
        cur_strict_generation_def slm_maps_def demo_maps_def COMPARTMENT_MAX_ACTORS_PER_SEAL_def)
  have "\<exists>target. sl_exe slm2 7 = Some target
      \<and> launched (sl_maps slm2) (sl_hist slm2 7) target (sv_strict_actor_slot slm_seal)
      \<and> sv_strict_generation slm_seal = cur_strict_generation (sl_maps slm2)"
    by (rule strict_launch_provenance [OF slm2_reachable key(2) _ _ _ nd])
      (simp_all add: key slm2_def slm_seal_def seal_flag_defs)
  then show ?thesis using slm2_reachable nd by (auto simp: slm_seal_def)
qed

end
