(* ===== verification/Subtree_Depth.thy ===== *)
theory Subtree_Depth
  imports Seal_Policy
begin

text \<open>
  The directory tree under live seals as a state machine, and the invariant that keeps the
  bounded ancestor walk of \<^verbatim>\<open>src/compartment-bpf/compartment.bpf.c\<close> complete: below a no-write
  directory seal no directory is ever too deep for the walk to find one.  The loader establishes
  it when the policy is loaded; \<^verbatim>\<open>comp_inode_mkdir\<close> and \<^verbatim>\<open>comp_inode_rename\<close> keep it.
\<close>

section \<open>Distance to the nearest seal\<close>

definition is_dir :: "kernel \<Rightarrow> addr \<Rightarrow> bool" where
  "is_dir K d = (case target_mode K (Some d) of None \<Rightarrow> False | Some m \<Rightarrow> is_dir_mode m)"

text \<open>The nearest no-write directory seal on the way up, the start included, is \<^verbatim>\<open>j\<close> steps away.\<close>

fun nearest :: "kernel \<Rightarrow> maps \<Rightarrow> addr option \<Rightarrow> nat \<Rightarrow> bool" where
  "nearest K M cur 0 = (case cur of None \<Rightarrow> False | Some d \<Rightarrow> flagged K M SEAL_NO_WRITE d)"
| "nearest K M cur (Suc j) =
     (case cur of
        None \<Rightarrow> False
      | Some d \<Rightarrow> \<not> flagged K M SEAL_NO_WRITE d \<and> nearest K M (parent_of K (Some d)) j)"

lemma nearest_None [simp]: "\<not> nearest K M None j"
  by (cases j) simp_all

lemma nearest_Some_Suc:
  "nearest K M (Some d) (Suc j) \<longleftrightarrow> \<not> flagged K M SEAL_NO_WRITE d \<and> nearest K M (parent_of K (Some d)) j"
  by simp

lemma nearest_exists:
  "climb K k cur = Some D \<Longrightarrow> flagged K M SEAL_NO_WRITE D \<Longrightarrow> \<exists>j \<le> k. nearest K M cur j"
proof (induction k arbitrary: cur)
  case 0
  then show ?case by auto
next
  case (Suc k)
  then obtain d where d: "cur = Some d" by (cases cur) auto
  show ?case
  proof (cases "flagged K M SEAL_NO_WRITE d")
    case True
    then show ?thesis by (intro exI [of _ 0]) (simp add: d)
  next
    case False
    then obtain j where "j \<le> k" "nearest K M (parent_of K (Some d)) j" using Suc d by auto
    with False show ?thesis by (intro exI [of _ "Suc j"]) (simp add: d)
  qed
qed

lemma nearest_climb:
  "nearest K M cur j \<Longrightarrow> \<exists>D. climb K j cur = Some D \<and> flagged K M SEAL_NO_WRITE D"
  by (induction j arbitrary: cur) (auto split: option.splits)

lemma nearest_unique: "nearest K M cur i \<Longrightarrow> nearest K M cur j \<Longrightarrow> i = j"
proof (induction i arbitrary: cur j)
  case 0
  then show ?case by (cases j) (auto split: option.splits)
next
  case (Suc i)
  then show ?case by (cases j) (auto split: option.splits)
qed

text \<open>The walk of the programs finds the nearest seal and its distance, if it is within the budget.\<close>

lemma find_hit_nearest:
  "(case find_hit_from n depth K M cur SEAL_NO_WRITE of
      None \<Rightarrow> \<forall>j. nearest K M cur j \<longrightarrow> n \<le> j
    | Some h \<Rightarrow> \<exists>j < n. nearest K M cur j \<and> hit_depth h = depth + j)"
proof (induction n arbitrary: depth cur)
  case 0
  show ?case by simp
next
  case (Suc n)
  show ?case
  proof (cases cur)
    case None
    then show ?thesis by simp
  next
    case (Some d)
    show ?thesis
    proof (cases "flagged K M SEAL_NO_WRITE d")
      case True
      then have "nearest K M cur 0" by (simp add: Some)
      with True show ?thesis
        by (auto simp: Some find_hit_from_unfold simp del: find_hit_from.simps)
    next
      case False
      have step: "nearest K M (Some d) j \<longleftrightarrow> (\<exists>i. j = Suc i \<and> nearest K M (parent_of K (Some d)) i)" for j
        using False by (cases j) auto
      show ?thesis using Suc [where depth = "Suc depth" and cur = "parent_of K (Some d)"] False
        by (auto simp: Some find_hit_from_unfold step simp del: find_hit_from.simps nearest.simps
            split: option.splits)
    qed
  qed
qed

lemma no_write_hit_Some:
  "no_write_hit K M d = Some h \<Longrightarrow>
   nearest K M (parent_of K d) (hit_depth h) \<and> hit_depth h < COMPARTMENT_MAX_DIR_ANCESTORS"
  using find_hit_nearest [where K = K and M = M and n = COMPARTMENT_MAX_DIR_ANCESTORS and depth = 0 and cur = "parent_of K d"]
  by (auto simp: no_write_hit_def find_nearest_dir_seal_hit_from_dir_dentry_def)

lemma no_write_hit_None:
  "no_write_hit K M d = None \<Longrightarrow> nearest K M (parent_of K d) j \<Longrightarrow> COMPARTMENT_MAX_DIR_ANCESTORS \<le> j"
  using find_hit_nearest [where K = K and M = M and n = COMPARTMENT_MAX_DIR_ANCESTORS and depth = 0 and cur = "parent_of K d"]
  by (auto simp: no_write_hit_def find_nearest_dir_seal_hit_from_dir_dentry_def)

text \<open>A change of the tree out of sight of a walk does not change its result.\<close>

lemma nearest_cong:
  assumes "\<And>k a. climb K k cur = Some a \<Longrightarrow> parent_of K' (Some a) = parent_of K (Some a)
      \<and> flagged K' M' SEAL_NO_WRITE a = flagged K M SEAL_NO_WRITE a"
  shows "nearest K' M' cur j = nearest K M cur j"
  using assms
proof (induction j arbitrary: cur)
  case 0
  then show ?case using "0.prems" [of 0] by (cases cur) auto
next
  case (Suc j)
  show ?case
  proof (cases cur)
    case None
    then show ?thesis by simp
  next
    case (Some d)
    have "parent_of K' (Some d) = parent_of K (Some d)"
        "flagged K' M' SEAL_NO_WRITE d = flagged K M SEAL_NO_WRITE d"
      using Suc.prems [of 0 d] by (simp_all add: Some)
    moreover have "nearest K' M' (parent_of K (Some d)) j = nearest K M (parent_of K (Some d)) j"
    proof (rule Suc.IH)
      fix k a assume "climb K k (parent_of K (Some d)) = Some a"
      then show "parent_of K' (Some a) = parent_of K (Some a)
          \<and> flagged K' M' SEAL_NO_WRITE a = flagged K M SEAL_NO_WRITE a"
        using Suc.prems [of "Suc k" a] by (simp add: Some)
    qed
    ultimately show ?thesis by (simp add: Some)
  qed
qed

section \<open>Changes of the tree\<close>

text \<open>A negative dentry gets an inode; a dentry loses its inode; a dentry moves below another directory.\<close>

definition add_entry :: "kernel \<Rightarrow> addr \<Rightarrow> addr \<Rightarrow> inode \<Rightarrow> kernel" where
  "add_entry K d i n = K\<lparr>k_inode := (k_inode K)(i := n),
     k_dentry := (k_dentry K)(d := (k_dentry K d)\<lparr>d_inode := Some i\<rparr>)\<rparr>"

definition drop_entry :: "kernel \<Rightarrow> addr \<Rightarrow> kernel" where
  "drop_entry K d = K\<lparr>k_dentry := (k_dentry K)(d := (k_dentry K d)\<lparr>d_inode := None\<rparr>)\<rparr>"

definition reparent :: "kernel \<Rightarrow> addr \<Rightarrow> addr \<Rightarrow> kernel" where
  "reparent K x q = K\<lparr>k_dentry := (k_dentry K)(x := (k_dentry K x)\<lparr>d_parent := Some q\<rparr>)\<rparr>"

definition reaches :: "kernel \<Rightarrow> addr \<Rightarrow> addr \<Rightarrow> bool" where
  "reaches K a x \<longleftrightarrow> (\<exists>k. climb K k (Some a) = Some x)"

text \<open>
  The steps.  A change that the depth invariant does not depend on (a new file, a removed
  entry, a renamed file) is possible whatever its hook says; making and renaming a directory
  are possible only when the hook lets them through.  What the VFS guarantees is a premise:
  inodes of directories have one dentry, a directory is removed only when it is empty, and it
  never moves below itself.  An exchange consults the hook in both directions.  Between
  these, the running task, the open files and the launch markers change freely.
\<close>

inductive tree_step :: "kernel \<times> maps \<Rightarrow> kernel \<times> maps \<Rightarrow> bool" where
  mkdir: "d_inode (k_dentry K d) = None \<Longrightarrow> \<forall>e. d_inode (k_dentry K e) \<noteq> Some i \<Longrightarrow>
    is_dir_mode (i_mode n) \<Longrightarrow> fst (comp_inode_mkdir K M (Some d) 0 t) = 0 \<Longrightarrow>
    tree_step (K, M) (add_entry K d i n, M)"
| entry: "d_inode (k_dentry K d) = None \<Longrightarrow> \<forall>e. d_inode (k_dentry K e) = Some i \<longrightarrow> \<not> is_dir K e \<Longrightarrow>
    \<not> is_dir_mode (i_mode n) \<Longrightarrow> tree_step (K, M) (add_entry K d i n, M)"
| remove: "\<forall>e. parent_of K (Some e) \<noteq> Some d \<Longrightarrow> tree_step (K, M) (drop_entry K d, M)"
| rename: "parent_of K (Some n) = Some q \<Longrightarrow> \<not> reaches K q x \<Longrightarrow>
    fst (comp_inode_rename K M (Some x) (Some n) 0 t) = 0 \<Longrightarrow> tree_step (K, M) (reparent K x q, M)"
| exchange: "parent_of K (Some x) = Some p \<Longrightarrow> parent_of K (Some n) = Some q \<Longrightarrow>
    \<not> reaches K q x \<Longrightarrow> \<not> reaches K p n \<Longrightarrow> \<not> reaches K p x \<Longrightarrow>
    fst (comp_inode_rename K M (Some x) (Some n) 0 t) = 0 \<Longrightarrow>
    fst (comp_inode_rename K M (Some n) (Some x) 0 t') = 0 \<Longrightarrow>
    tree_step (K, M) (reparent (reparent K x q) n p, M)"
| other: "k_dentry K' = k_dentry K \<Longrightarrow> k_inode K' = k_inode K \<Longrightarrow> k_sb K' = k_sb K \<Longrightarrow>
    sealed_dirs M' = sealed_dirs M \<Longrightarrow> tree_step (K, M) (K', M')"

text \<open>What the loader leaves: parents are directories, and no directory is out of reach.\<close>

definition tree_ok :: "kernel \<Rightarrow> bool" where
  "tree_ok K \<longleftrightarrow> (\<forall>d p. parent_of K (Some d) = Some p \<longrightarrow> is_dir K p)"

definition depth_ok :: "kernel \<Rightarrow> maps \<Rightarrow> bool" where
  "depth_ok K M \<longleftrightarrow> (\<forall>d j. is_dir K d \<longrightarrow> nearest K M (Some d) j \<longrightarrow> j < COMPARTMENT_MAX_DIR_ANCESTORS)"

inductive tree_reachable :: "kernel \<times> maps \<Rightarrow> bool" where
  tree_start: "tree_ok K \<Longrightarrow> depth_ok K M \<Longrightarrow> tree_reachable (K, M)"
| tree_next: "tree_reachable s \<Longrightarrow> tree_step s s' \<Longrightarrow> tree_reachable s'"

section \<open>How the changes show in a walk\<close>

lemma flagged_eq:
  "d_inode (k_dentry K' a) = d_inode (k_dentry K a) \<Longrightarrow>
   (\<And>i. d_inode (k_dentry K a) = Some i \<Longrightarrow> k_inode K' i = k_inode K i) \<Longrightarrow> k_sb K' = k_sb K \<Longrightarrow>
   sealed_dirs M' = sealed_dirs M \<Longrightarrow> flagged K' M' msk a = flagged K M msk a"
  by (auto simp: flagged_def dir_entry_def inode_key_of_def sb_dev_def Let_def split: option.splits)

lemma is_dir_eq:
  "d_inode (k_dentry K' a) = d_inode (k_dentry K a) \<Longrightarrow>
   (\<And>i. d_inode (k_dentry K a) = Some i \<Longrightarrow> k_inode K' i = k_inode K i) \<Longrightarrow> is_dir K' a = is_dir K a"
  by (auto simp: is_dir_def target_mode_def dentry_inode_def split: option.splits)

lemma is_dir_add [simp]: "is_dir (add_entry K d i n) d = is_dir_mode (i_mode n)"
  by (simp add: is_dir_def target_mode_def dentry_inode_def add_entry_def)

lemma parent_of_add [simp]: "parent_of (add_entry K d i n) e = parent_of K e"
  by (cases e) (simp_all add: parent_of_Some add_entry_def)

lemma parent_of_drop [simp]: "parent_of (drop_entry K d) e = parent_of K e"
  by (cases e) (simp_all add: parent_of_Some drop_entry_def)

lemma parent_of_reparent:
  "parent_of (reparent K x q) (Some e) = (if e = x then if q = x then None else Some q else parent_of K (Some e))"
  by (simp add: parent_of_Some reparent_def Let_def)

lemma flagged_reparent [simp]: "flagged (reparent K x q) M msk a = flagged K M msk a"
  by (rule flagged_eq) (simp_all add: reparent_def)

lemma is_dir_reparent [simp]: "is_dir (reparent K x q) a = is_dir K a"
  by (rule is_dir_eq) (simp_all add: reparent_def)

lemma reaches_refl [simp]: "reaches K a a"
  unfolding reaches_def by (rule exI [of _ 0]) simp

lemma climb_dir:
  "tree_ok K \<Longrightarrow> climb K k (Some e) = Some a \<Longrightarrow> a = e \<or> is_dir K a"
proof (induction k arbitrary: e)
  case 0
  then show ?case by simp
next
  case (Suc k)
  then obtain p where p: "parent_of K (Some e) = Some p" by (cases "parent_of K (Some e)") auto
  with Suc.IH [OF Suc.prems(1), of p] Suc.prems show ?case by (auto simp: tree_ok_def)
qed

lemma climb_not_parent:
  "(\<And>e. parent_of K (Some e) \<noteq> Some d) \<Longrightarrow> climb K k (Some e) = Some a \<Longrightarrow> e \<noteq> d \<Longrightarrow> a \<noteq> d"
proof (induction k arbitrary: e)
  case 0
  then show ?case by simp
next
  case (Suc k)
  then obtain p where p: "parent_of K (Some e) = Some p" by (cases "parent_of K (Some e)") auto
  moreover have "p \<noteq> d" using Suc.prems(1) [of e] p by auto
  ultimately show ?case using Suc.IH [OF Suc.prems(1), of p] Suc.prems(2) by simp
qed

lemma nearest_reparent_away:
  "\<not> reaches K a x \<Longrightarrow> nearest (reparent K x q) M (Some a) j = nearest K M (Some a) j"
  by (rule nearest_cong) (auto simp: parent_of_reparent reaches_def)

text \<open>A move that brings a directory no deeper under a seal never lets anything be deeper.\<close>

definition no_deeper :: "kernel \<Rightarrow> maps \<Rightarrow> addr option \<Rightarrow> addr option \<Rightarrow> bool" where
  "no_deeper K M p q \<longleftrightarrow> (\<forall>j. nearest K M q j \<longrightarrow> (\<exists>j2 \<ge> j. nearest K M p j2))"

lemma nearest_reparent:
  assumes "\<not> reaches K q x" and "no_deeper K M (parent_of K (Some x)) (Some q)"
  shows "nearest (reparent K x q) M (Some e) j \<Longrightarrow> \<exists>j2 \<ge> j. nearest K M (Some e) j2"
proof (induction j arbitrary: e)
  case 0
  then show ?case by (intro exI [of _ 0]) simp
next
  case (Suc j)
  then have unflagged: "\<not> flagged K M SEAL_NO_WRITE e" by simp
  obtain j2 where "j \<le> j2" "nearest K M (parent_of K (Some e)) j2"
  proof (cases "e = x")
    case True
    have "q \<noteq> x" using assms(1) by auto
    then have "nearest K M (Some q) j"
      using Suc.prems True nearest_reparent_away [OF assms(1)] by (simp add: parent_of_reparent)
    then show ?thesis using assms(2) True that by (auto simp: no_deeper_def)
  next
    case False
    then show ?thesis using Suc that by (cases "parent_of K (Some e)") (auto simp: parent_of_reparent)
  qed
  with unflagged show ?case by (intro exI [of _ "Suc j2"]) simp
qed

section \<open>Every step keeps the invariant\<close>

lemma tree_ok_reparent: "tree_ok K \<Longrightarrow> is_dir K q \<Longrightarrow> tree_ok (reparent K x q)"
  by (auto simp: tree_ok_def parent_of_reparent split: if_splits)

lemma depth_ok_reparent:
  assumes ok: "tree_ok K" "depth_ok K M" and away: "\<not> reaches K q x"
    and dir: "is_dir K x \<Longrightarrow> no_deeper K M (parent_of K (Some x)) (Some q)"
  shows "depth_ok (reparent K x q) M"
  unfolding depth_ok_def
proof (intro allI impI)
  fix d j assume d: "is_dir (reparent K x q) d" and j: "nearest (reparent K x q) M (Some d) j"
  have "\<exists>j2 \<ge> j. nearest K M (Some d) j2"
  proof (cases "is_dir K x")
    case True
    then show ?thesis using nearest_reparent [OF away dir] j by blast
  next
    case False
    then have "\<not> reaches K d x" using climb_dir [OF ok(1)] d by (auto simp: reaches_def)
    then show ?thesis using j nearest_reparent_away by blast
  qed
  then show "j < COMPARTMENT_MAX_DIR_ANCESTORS" using ok(2) d by (fastforce simp: depth_ok_def)
qed

lemma rename_no_deeper:
  assumes "tree_ok K" "depth_ok K M" and "fst (comp_inode_rename K M (Some x) (Some n) 0 t) = 0"
    and "parent_of K (Some n) = Some q" and "is_dir K x"
  shows "no_deeper K M (parent_of K (Some x)) (Some q)"
  unfolding no_deeper_def
proof (intro allI impI)
  fix j assume j: "nearest K M (Some q) j"
  have "\<not> rename_denied K M (Some x) (Some n)"
    using assms(3) rename.hook_denies_iff unfolding comp_inode_rename_def by blast
  then have good: "\<not> dir_rename_bad K M (Some x) (Some n)" by (simp add: rename_denied_def)
  have "j < COMPARTMENT_MAX_DIR_ANCESTORS" using assms(1,2,4) j by (auto simp: depth_ok_def tree_ok_def)
  then obtain h where h: "no_write_hit K M (Some n) = Some h"
    using no_write_hit_None [of K M "Some n" j] j assms(4) by (cases "no_write_hit K M (Some n)") auto
  then have "hit_depth h = j" using no_write_hit_Some [OF h] j assms(4) nearest_unique by fastforce
  moreover from assms(5) obtain m where "target_mode K (Some x) = Some m" "is_dir_mode m"
    by (auto simp: is_dir_def split: option.splits)
  ultimately obtain h' where "no_write_hit K M (Some x) = Some h'" "j \<le> hit_depth h'"
    using good h by (auto simp: dir_rename_bad_def split: option.splits)
  then show "\<exists>j2 \<ge> j. nearest K M (parent_of K (Some x)) j2" using no_write_hit_Some by blast
qed

lemma reparent_away:
  assumes "\<not> reaches K a x" shows "reaches (reparent K x q) a b = reaches K a b"
proof -
  have "climb (reparent K x q) k (Some a) = climb K k (Some a)" for k
    using assms
  proof (induction k arbitrary: a)
    case (Suc k)
    have "a \<noteq> x" using Suc.prems by auto
    moreover have "\<not> reaches K p x" if "parent_of K (Some a) = Some p" for p
      using Suc.prems that unfolding reaches_def by (metis climb.simps(2))
    ultimately show ?case using Suc.IH by (cases "parent_of K (Some a)") (auto simp: parent_of_reparent)
  qed simp
  then show ?thesis by (simp add: reaches_def)
qed

lemma exchange_keeps:
  assumes ok: "tree_ok K" "depth_ok K M" and p: "parent_of K (Some x) = Some p" and q: "parent_of K (Some n) = Some q"
    and away: "\<not> reaches K q x" "\<not> reaches K p n" "\<not> reaches K p x"
    and hooks: "fst (comp_inode_rename K M (Some x) (Some n) 0 t) = 0"
      "fst (comp_inode_rename K M (Some n) (Some x) 0 t') = 0"
  shows "tree_ok (reparent (reparent K x q) n p) \<and> depth_ok (reparent (reparent K x q) n p) M"
proof -
  let ?K = "reparent K x q"
  have dirs: "is_dir K p" "is_dir K q" using ok(1) p q by (auto simp: tree_ok_def)
  have one: "tree_ok ?K" "depth_ok ?K M"
    using tree_ok_reparent [OF ok(1) dirs(2)] depth_ok_reparent [OF ok away(1)]
      rename_no_deeper [OF ok hooks(1) q] by blast+
  have n: "parent_of ?K (Some n) = Some q" using q p away by (auto simp: parent_of_reparent)
  have "no_deeper ?K M (parent_of ?K (Some n)) (Some p)" if "is_dir ?K n"
    using rename_no_deeper [OF ok hooks(2) p] that q
    by (simp add: n no_deeper_def nearest_reparent_away [OF away(1)] nearest_reparent_away [OF away(3)])
  then show ?thesis
    using tree_ok_reparent [OF one(1), of p] depth_ok_reparent [OF one, of p n] dirs(1) away(2)
    by (simp add: reparent_away [OF away(3)])
qed

lemma add_entry_frame:
  assumes "a \<noteq> d" and "d_inode (k_dentry K a) \<noteq> Some i"
  shows "flagged (add_entry K d i n) M msk a = flagged K M msk a" and "is_dir (add_entry K d i n) a = is_dir K a"
proof -
  show "flagged (add_entry K d i n) M msk a = flagged K M msk a"
    by (rule flagged_eq) (use assms in \<open>auto simp: add_entry_def\<close>)
  show "is_dir (add_entry K d i n) a = is_dir K a"
    by (rule is_dir_eq) (use assms in \<open>auto simp: add_entry_def\<close>)
qed

text \<open>From a directory other than the new entry the walk never meets the new entry or its inode.\<close>

lemma nearest_add_entry:
  assumes ok: "tree_ok K" and neg: "d_inode (k_dentry K d) = None"
    and i: "\<forall>e. d_inode (k_dentry K e) = Some i \<longrightarrow> \<not> is_dir K e" and e: "is_dir K e"
  shows "nearest (add_entry K d i n) M (Some e) j = nearest K M (Some e) j"
proof (rule nearest_cong)
  fix k a assume "climb K k (Some e) = Some a"
  then have a: "is_dir K a" using climb_dir [OF ok] e by blast
  then have "a \<noteq> d" using neg by (auto simp: is_dir_def target_mode_def dentry_inode_def)
  moreover have "d_inode (k_dentry K a) \<noteq> Some i" using i a by blast
  ultimately show "parent_of (add_entry K d i n) (Some a) = parent_of K (Some a)
      \<and> flagged (add_entry K d i n) M SEAL_NO_WRITE a = flagged K M SEAL_NO_WRITE a"
    by (simp add: add_entry_frame(1))
qed

lemma is_dir_add_other:
  assumes "\<forall>e. d_inode (k_dentry K e) = Some i \<longrightarrow> \<not> is_dir K e" and "a \<noteq> d"
  shows "is_dir K a \<Longrightarrow> is_dir (add_entry K d i n) a"
    and "is_dir (add_entry K d i n) a \<Longrightarrow>
      (\<forall>e. d_inode (k_dentry K e) \<noteq> Some i) \<or> \<not> is_dir_mode (i_mode n) \<Longrightarrow> is_dir K a"
  using assms
  by (auto simp: is_dir_def target_mode_def dentry_inode_def add_entry_def split: option.splits if_splits)

lemma tree_ok_add_entry:
  assumes ok: "tree_ok K" and neg: "d_inode (k_dentry K d) = None"
    and i: "\<forall>e. d_inode (k_dentry K e) = Some i \<longrightarrow> \<not> is_dir K e"
  shows "tree_ok (add_entry K d i n)"
  unfolding tree_ok_def
proof (intro allI impI)
  fix e p assume "parent_of (add_entry K d i n) (Some e) = Some p"
  then have "is_dir K p" using ok by (simp add: tree_ok_def)
  moreover have "p \<noteq> d" using calculation neg by (auto simp: is_dir_def target_mode_def dentry_inode_def)
  ultimately show "is_dir (add_entry K d i n) p" using is_dir_add_other(1) [OF i] by blast
qed

lemma mkdir_keeps:
  assumes ok: "tree_ok K" "depth_ok K M" and neg: "d_inode (k_dentry K d) = None"
    and fresh: "\<forall>e. d_inode (k_dentry K e) \<noteq> Some i"
    and hook: "fst (comp_inode_mkdir K M (Some d) 0 t) = 0"
  shows "depth_ok (add_entry K d i n) M"
  unfolding depth_ok_def
proof (intro allI impI)
  let ?K = "add_entry K d i n"
  note same = nearest_add_entry [OF ok(1) neg, of i _ n M]
  fix e j assume e: "is_dir ?K e" and j: "nearest ?K M (Some e) j"
  show "j < COMPARTMENT_MAX_DIR_ANCESTORS"
  proof (cases "e = d")
    case False
    then have "is_dir K e" using is_dir_add_other(2) [of K i e d n] e fresh by blast
    then show ?thesis using same j fresh ok(2) by (auto simp: depth_ok_def)
  next
    case True
    show ?thesis
    proof (cases j)
      case 0
      then show ?thesis by (simp add: COMPARTMENT_MAX_DIR_ANCESTORS_def)
    next
      case (Suc j')
      then obtain p where p: "parent_of K (Some d) = Some p" "nearest ?K M (Some p) j'"
        using j True by (cases "parent_of K (Some d)") auto
      have dir: "is_dir K p" using ok(1) p(1) by (simp add: tree_ok_def)
      then have n: "nearest K M (Some p) j'" using same p(2) fresh by blast
      then have "j' < COMPARTMENT_MAX_DIR_ANCESTORS" using ok(2) dir by (simp add: depth_ok_def)
      then obtain h where h: "no_write_hit K M (Some d) = Some h"
        using no_write_hit_None [of K M "Some d" j'] n p(1) by (cases "no_write_hit K M (Some d)") auto
      then have "hit_depth h = j'" using no_write_hit_Some [OF h] n p(1) nearest_unique by fastforce
      moreover have "\<not> mkdir_too_deep K M (Some d)"
        using hook mkdir.hook_denies_iff unfolding comp_inode_mkdir_def mkdir_denied_def by blast
      ultimately show ?thesis using h by (simp add: mkdir_too_deep_def Suc)
    qed
  qed
qed

lemma entry_keeps:
  assumes ok: "tree_ok K" "depth_ok K M" and neg: "d_inode (k_dentry K d) = None"
    and i: "\<forall>e. d_inode (k_dentry K e) = Some i \<longrightarrow> \<not> is_dir K e" and n: "\<not> is_dir_mode (i_mode n)"
  shows "depth_ok (add_entry K d i n) M"
  unfolding depth_ok_def
proof (intro allI impI)
  fix e j assume e: "is_dir (add_entry K d i n) e" and j: "nearest (add_entry K d i n) M (Some e) j"
  then have "e \<noteq> d" using n by auto
  then have "is_dir K e" using is_dir_add_other(2) [OF i] e n by blast
  then show "j < COMPARTMENT_MAX_DIR_ANCESTORS"
    using nearest_add_entry [OF ok(1) neg i] j ok(2) by (auto simp: depth_ok_def)
qed

lemma remove_keeps:
  assumes ok: "tree_ok K" "depth_ok K M" and leaf: "\<forall>e. parent_of K (Some e) \<noteq> Some d"
  shows "tree_ok (drop_entry K d) \<and> depth_ok (drop_entry K d) M"
proof -
  have dirs: "is_dir (drop_entry K d) a = is_dir K a" if "a \<noteq> d" for a
    by (rule is_dir_eq) (use that in \<open>simp_all add: drop_entry_def\<close>)
  have flags: "flagged (drop_entry K d) M msk a = flagged K M msk a" if "a \<noteq> d" for a msk
    by (rule flagged_eq) (use that in \<open>simp_all add: drop_entry_def\<close>)
  have gone: "\<not> is_dir (drop_entry K d) d"
    by (simp add: is_dir_def target_mode_def dentry_inode_def drop_entry_def)
  have "nearest (drop_entry K d) M (Some e) j = nearest K M (Some e) j" if "e \<noteq> d" for e j
    by (rule nearest_cong) (use climb_not_parent [of K d] leaf that flags in \<open>metis parent_of_drop\<close>)
  then show ?thesis using ok gone dirs leaf unfolding tree_ok_def depth_ok_def
    by (metis parent_of_drop)
qed

lemma other_keeps:
  assumes "k_dentry K' = k_dentry K" "k_inode K' = k_inode K" "k_sb K' = k_sb K" "sealed_dirs M' = sealed_dirs M"
    and ok: "tree_ok K" "depth_ok K M"
  shows "tree_ok K' \<and> depth_ok K' M'"
proof -
  have dirs: "is_dir K' a = is_dir K a" for a by (rule is_dir_eq) (use assms in simp_all)
  have up: "parent_of K' (Some a) = parent_of K (Some a)" for a using assms(1) by (simp add: parent_of_Some)
  have flags: "flagged K' M' msk a = flagged K M msk a" for a msk by (rule flagged_eq) (use assms in simp_all)
  have "nearest K' M' cur j = nearest K M cur j" for cur j by (rule nearest_cong) (simp add: up flags)
  then show ?thesis using ok by (simp add: tree_ok_def depth_ok_def dirs up)
qed

lemma step_keeps:
  "tree_step s s' \<Longrightarrow> tree_ok (fst s) \<and> depth_ok (fst s) (snd s) \<Longrightarrow> tree_ok (fst s') \<and> depth_ok (fst s') (snd s')"
proof (induction rule: tree_step.induct)
  case (mkdir K d i n M t)
  then show ?case using tree_ok_add_entry [of K d i n] mkdir_keeps [of K M d i t n] by simp
next
  case (entry K d i n M)
  then show ?case using tree_ok_add_entry [of K d i n] entry_keeps [of K M d i n] by simp
next
  case (remove K d M)
  then show ?case using remove_keeps [of K M d] by simp
next
  case (rename K n q x M t)
  then have "is_dir K q" by (auto simp: tree_ok_def)
  then show ?case
    using tree_ok_reparent depth_ok_reparent rename_no_deeper [OF _ _ rename.hyps(3,1)] rename by simp
next
  case (exchange K x p n q M t t')
  then show ?case using exchange_keeps [of K M x p n q t t'] by simp
next
  case (other K' K M' M)
  then show ?case using other_keeps [OF other.hyps] by simp
qed

lemma reachable_ok: "tree_reachable s \<Longrightarrow> tree_ok (fst s) \<and> depth_ok (fst s) (snd s)"
proof (induction rule: tree_reachable.induct)
  case (tree_start K M)
  then show ?case by simp
next
  case (tree_next s s')
  then show ?case using step_keeps by blast
qed

section \<open>A chain of directories\<close>

text \<open>
  Directories 0 to \<^verbatim>\<open>n\<close>, each in the one before, with every other dentry a name that is still
  free in the last of them; the running program is inode \<^verbatim>\<open>c\<close>.  Directory 1 is sealed against
  writes except by inode 60; with the nested seal so is directory 7, except by inodes 60 and 61.
\<close>

definition chain_kernel :: "nat \<Rightarrow> addr \<Rightarrow> kernel" where
  "chain_kernel n c = demo_kernel
     \<lparr>k_inode := (\<lambda>a. \<lparr>i_ino = of_nat a, i_sb = Some 0, i_mode = 0x41ED, i_nlink = 1\<rparr>),
      k_dentry := (\<lambda>d. \<lparr>d_inode = (if d \<le> n then Some d else None), d_parent = Some (if d \<le> n then d - 1 else n)\<rparr>),
      k_file := (\<lambda>f. \<lparr>f_mode = 2, f_inode = Some f, f_dentry = Some f\<rparr>),
      k_task := (\<lambda>_. \<lparr>t_exe_file = Some c, t_real_parent_tgid = 1\<rparr>)\<rparr>"

definition chain_seal :: "addr list \<Rightarrow> seal_value" where
  "chain_seal as = demo_seal\<lparr>sv_actor_count := of_nat (length as),
     sv_actor := (\<lambda>i. \<lparr>ik_dev = 5, ik_ino = of_nat (as ! i)\<rparr>)\<rparr>"

definition chain_maps :: maps where
  "chain_maps = demo_maps\<lparr>sealed_dirs := [\<lparr>ik_dev = 5, ik_ino = 1\<rparr> \<mapsto> chain_seal [60]]\<rparr>"

definition nested_maps :: maps where
  "nested_maps = demo_maps\<lparr>sealed_dirs := [\<lparr>ik_dev = 5, ik_ino = 1\<rparr> \<mapsto> chain_seal [60],
     \<lparr>ik_dev = 5, ik_ino = 7\<rparr> \<mapsto> chain_seal [60, 61]]\<rparr>"

lemma chain_parent:
  "parent_of (chain_kernel n c) (Some d) = (if d = 0 then None else Some (if d \<le> n then d - 1 else n))"
  by (auto simp: parent_of_Some chain_kernel_def Let_def)

lemma chain_is_dir: "is_dir (chain_kernel n c) d \<longleftrightarrow> d \<le> n"
  by (simp add: is_dir_def target_mode_def dentry_inode_def chain_kernel_def is_dir_mode_def)

lemma chain_tree_ok: "tree_ok (chain_kernel n c)"
  by (auto simp: tree_ok_def chain_parent chain_is_dir split: if_splits)

lemma chain_nearest: "d \<le> n \<Longrightarrow> nearest (chain_kernel n c) M (Some d) j \<Longrightarrow> j \<le> d"
proof (induction j arbitrary: d)
  case (Suc j)
  then show ?case using Suc.IH [of "d - 1"] by (cases d) (auto simp: chain_parent)
qed simp

lemma chain_depth_ok: "n < COMPARTMENT_MAX_DIR_ANCESTORS \<Longrightarrow> depth_ok (chain_kernel n c) M"
  unfolding depth_ok_def chain_is_dir
proof (intro allI impI)
  fix d j assume n: "n < COMPARTMENT_MAX_DIR_ANCESTORS" and d: "d \<le> n" "nearest (chain_kernel n c) M (Some d) j"
  show "j < COMPARTMENT_MAX_DIR_ANCESTORS" using chain_nearest [OF d] n d(1) by simp
qed

lemma chain_entry:
  "dir_entry (chain_kernel n c) M d =
     (if d \<le> n then map_option (Pair \<lparr>ik_dev = 5, ik_ino = of_nat d\<rparr>) (sealed_dirs M \<lparr>ik_dev = 5, ik_ino = of_nat d\<rparr>)
      else None)"
  by (simp add: dir_entry_def chain_kernel_def inode_key_of_def sb_dev_def demo_kernel_def Let_def)

lemma chain_caller: "caller_key (chain_kernel n c) = Some \<lparr>ik_dev = 5, ik_ino = of_nat c\<rparr>"
  by (simp add: caller_key_def chain_kernel_def demo_kernel_def file_inode_def inode_key_of_def sb_dev_def)

section \<open>Properties\<close>

text \<open>
  C28: a no-write directory seal is never outrun: from a tree the loader accepted, whatever is
  made, removed, renamed or exchanged since, every dentry that has such a seal anywhere above
  it has one within the eight steps of the walk.  So the LSM programs deny every hard link from or
  to it and every symbolic link at it, to any caller; and to a caller that every no-write seal
  excludes they deny every writing call there (\<^verbatim>\<open>writes_at\<close>: open for writing, write, truncate, shared
  writable mappings, size, create, mkdir, mknod, links and renames), at whatever depth.  Removal is
  a flag of its own, and a caller excluded by an outer seal only is not covered.
\<close>

theorem seal_never_outrun:
  assumes "tree_reachable (K, M)" and "climb K (Suc k) (Some d) = Some D" and "flagged K M SEAL_NO_WRITE D"
  shows "(\<exists>j D'. j < COMPARTMENT_MAX_DIR_ANCESTORS \<and> climb K (Suc j) (Some d) = Some D' \<and> flagged K M SEAL_NO_WRITE D')
    \<and> fst (comp_inode_link K M (Some d) other 0 t) = - EACCES \<and> fst (comp_inode_link K M other (Some d) 0 t) = - EACCES
    \<and> fst (comp_inode_symlink K M (Some d) 0 t) = - EACCES
    \<and> ((\<forall>E. flagged K M SEAL_NO_WRITE E \<longrightarrow> dir_denied K M SEAL_NO_WRITE E) \<and> writes_at K d call \<longrightarrow>
         fst (lsm_hook K M call 0 t) = - EACCES)"
proof -
  obtain p where p: "parent_of K (Some d) = Some p" using assms(2) by (cases "parent_of K (Some d)") auto
  then have "is_dir K p" using reachable_ok [OF assms(1)] by (auto simp: tree_ok_def)
  moreover obtain j where j: "nearest K M (Some p) j" using nearest_exists [of K k "Some p" D M] assms(2,3) p by auto
  ultimately have near: "j < COMPARTMENT_MAX_DIR_ANCESTORS"
    using reachable_ok [OF assms(1)] by (auto simp: depth_ok_def)
  obtain D' where D': "climb K j (Some p) = Some D'" "flagged K M SEAL_NO_WRITE D'" using nearest_climb [OF j] by blast
  then have seen: "D' \<in> set (ancestors COMPARTMENT_MAX_DIR_ANCESTORS K (parent_of K (Some d)))"
    using near p by (auto simp: ancestors_climb)
  have hit: "no_write_hit K M (Some d) \<noteq> None" unfolding no_write_hit_iff list_ex_iff using seen D'(2) by blast
  have denied: "ancestors_denied K M (Some d) SEAL_NO_WRITE"
    if "\<forall>E. flagged K M SEAL_NO_WRITE E \<longrightarrow> dir_denied K M SEAL_NO_WRITE E"
    using that seen D'(2) unfolding ancestors_denied_def list_ex_iff by blast
  show ?thesis
  proof (intro conjI impI)
    show "\<exists>j D'. j < COMPARTMENT_MAX_DIR_ANCESTORS \<and> climb K (Suc j) (Some d) = Some D' \<and> flagged K M SEAL_NO_WRITE D'"
      using near D' p by auto
    show "fst (comp_inode_link K M (Some d) other 0 t) = - EACCES" "fst (comp_inode_link K M other (Some d) 0 t) = - EACCES"
      "fst (comp_inode_symlink K M (Some d) 0 t) = - EACCES"
      using hit hook_denies [of K M "Link (Some d) other" t] hook_denies [of K M "Link other (Some d)" t]
        hook_denies [of K M "Symlink (Some d)" t] by (simp_all add: link_denied_def)
  qed (use sealed_write_denied denied in blast)
qed

theorem seal_never_outrun_witness:
  "fst (comp_inode_symlink (add_entry (chain_kernel 3 60) 4 4 (k_inode (chain_kernel 3 60) 4)) chain_maps (Some 4) 0 demo_tele) = - EACCES"
proof -
  let ?K = "chain_kernel 3 60" and ?K' = "add_entry (chain_kernel 3 60) 4 4 (k_inode (chain_kernel 3 60) 4)"
  have "fst (comp_inode_mkdir ?K chain_maps (Some 4) 0 demo_tele) = 0" by code_simp
  then have "tree_step (?K, chain_maps) (?K', chain_maps)"
    by (intro tree_step.mkdir) (simp_all add: chain_kernel_def is_dir_mode_def)
  then have "tree_reachable (?K', chain_maps)"
    using tree_next [OF tree_start [OF chain_tree_ok chain_depth_ok [of 3 60 chain_maps]]]
    by (simp add: COMPARTMENT_MAX_DIR_ANCESTORS_def)
  moreover have "climb ?K' (Suc 2) (Some 4) = Some 1" by (simp add: numeral_2_eq_2 chain_parent)
  moreover have "flagged ?K' chain_maps SEAL_NO_WRITE 1" by code_simp
  ultimately show ?thesis using seal_never_outrun by blast
qed

text \<open>
  The budget is measured from the nearest seal only, so an outer seal can be outrun below
  a nested one: an actor of both may make a directory eight levels below the outer seal, and
  then a program the outer seal excludes creates files in it.
\<close>

theorem nested_seal_outruns_outer:
  "fst (comp_inode_mkdir (chain_kernel 8 60) nested_maps (Some 9) 0 demo_tele) = 0
   \<and> map (k_dentry (add_entry (chain_kernel 8 60) 9 9 (k_inode (chain_kernel 9 60) 9))) [0..<10]
       = map (k_dentry (chain_kernel 9 61)) [0..<10]
   \<and> climb (chain_kernel 9 61) 9 (Some 10) = Some 1
   \<and> dir_denied (chain_kernel 9 61) nested_maps SEAL_NO_WRITE 1
   \<and> fst (comp_inode_create (chain_kernel 9 61) nested_maps (Some 10) 0 demo_tele) = 0"
proof (intro conjI)
  show "fst (comp_inode_mkdir (chain_kernel 8 60) nested_maps (Some 9) 0 demo_tele) = 0" by code_simp
  show "map (k_dentry (add_entry (chain_kernel 8 60) 9 9 (k_inode (chain_kernel 9 60) 9))) [0..<10]
      = map (k_dentry (chain_kernel 9 61)) [0..<10]"
    by (simp add: add_entry_def chain_kernel_def upt_rec)
  show "climb (chain_kernel 9 61) 9 (Some 10) = Some 1" by (simp add: numeral_eq_Suc chain_parent)
  show "dir_denied (chain_kernel 9 61) nested_maps SEAL_NO_WRITE 1" by code_simp
  show "fst (comp_inode_create (chain_kernel 9 61) nested_maps (Some 10) 0 demo_tele) = 0" by code_simp
qed

end
