(* ===== verification/Audit_Trail.thy ===== *)
theory Audit_Trail
  imports Profile_Source Landlock_Rules
begin

text \<open>
  The audit trail of \<^verbatim>\<open>src/compartment.h\<close>: the chain of parent processes, the one-line records
  that \<^verbatim>\<open>audit_log\<close> writes, the choice of the log directory and its checks, and the opening of
  the day's file.

  The process table, the clock, the terminal and the file system are the parameter \<^verbatim>\<open>audit_env\<close>.
\<close>

unbundle bit_operations_syntax

section \<open>The environment\<close>

record broken_time =
  tm_year :: nat                     \<comment> \<open>the full year\<close>
  tm_mon :: nat                      \<comment> \<open>1 to 12\<close>
  tm_mday :: nat
  tm_hour :: nat
  tm_min :: nat
  tm_sec :: nat

text \<open>
  \<^verbatim>\<open>ae_status\<close> is \<^term>\<open>None\<close> when \<^verbatim>\<open>/proc/PID/status\<close> cannot be opened, and the lines
  \<^verbatim>\<open>fgets\<close> delivers otherwise.  \<^verbatim>\<open>ae_opendir\<close> is an open with \<^verbatim>\<open>O_DIRECTORY | O_NOFOLLOW\<close> and the
  \<^verbatim>\<open>fstat\<close> of the descriptor, at the time it is made; \<^verbatim>\<open>ae_mkdir\<close> is the error number of
  \<^verbatim>\<open>mkdir\<close>, or 0.
\<close>

record audit_env =
  ae_getpid :: int
  ae_status :: "int \<Rightarrow> string list option"
  ae_now :: broken_time
  ae_getuid :: u32
  ae_geteuid :: u32
  ae_pw_name :: "string option"
  ae_cwd :: "string option"
  ae_ttyname :: "string option"
  ae_opendir :: "string \<Rightarrow> fstat option option"
  ae_lstat :: "string \<Rightarrow> fstat option"
  ae_mkdir :: "string \<Rightarrow> nat"
  ae_openat :: "string \<Rightarrow> string \<Rightarrow> int option"
  ae_ll :: ll_env                     \<comment> \<open>for \<^verbatim>\<open>realpath\<close>\<close>


section \<open>Who launched us\<close>

definition show_int :: "int \<Rightarrow> string" where
  "show_int i = (if i < 0 then CHR ''-'' # show_nat (nat (- i)) else show_nat (nat i))"

text \<open>\<^verbatim>\<open>sscanf(line, "PPid:\t%d", &ppid)\<close> on the first line that starts so; 0 otherwise.\<close>

definition status_ppid :: "string list \<Rightarrow> int" where
  "status_ppid ls =
     (case find (has_prefix ''PPid:'') ls of
        None \<Rightarrow> 0
      | Some l \<Rightarrow>
          (case scan_int 10 (drop 5 l) of
             None \<Rightarrow> 0
           | Some (neg, m, _) \<Rightarrow> if neg then - int m else int m))"

text \<open>The loop, with the room that is left in the array.\<close>

fun get_ppid_chain :: "(int \<Rightarrow> string list option) \<Rightarrow> int \<Rightarrow> nat \<Rightarrow> int list" where
  "get_ppid_chain status cur 0 = []"
| "get_ppid_chain status cur (Suc room) =
     (if cur > 1 then
        (case status cur of
           None \<Rightarrow> []
         | Some ls \<Rightarrow>
             let ppid = status_ppid ls
             in if ppid = 0 \<or> ppid = cur then [] else ppid # get_ppid_chain status ppid room)
      else [])"

section \<open>Records\<close>

definition is_print :: "char \<Rightarrow> bool" where
  "is_print c \<longleftrightarrow> 0x20 \<le> (of_char c :: nat) \<and> (of_char c :: nat) < 0x7f"

definition audit_scrub :: "string option \<Rightarrow> nat \<Rightarrow> string" where
  "audit_scrub s bufsz =
     (let str = (case s of None \<Rightarrow> [] | Some x \<Rightarrow> x)
      in map (\<lambda>c. if is_print c then c else CHR ''_'') (take (bufsz - 1) str))"

text \<open>The loop that builds the chain in a buffer of 512 bytes; \<^verbatim>\<open>pos\<close> is what \<^verbatim>\<open>snprintf\<close> reported so far.\<close>

fun chain_str_loop :: "nat \<Rightarrow> nat \<Rightarrow> string \<Rightarrow> int list \<Rightarrow> string" where
  "chain_str_loop i pos s [] = s"
| "chain_str_loop i pos s (p # ps) =
     (if pos < 512 - 16
      then let txt = (if i > 0 then ''->'' else []) @ show_int p
           in chain_str_loop (Suc i) (pos + length txt) (s @ take (512 - pos - 1) txt) ps
      else s)"

definition pad2 :: "nat \<Rightarrow> string" where
  "pad2 n = (if n < 10 then CHR ''0'' # show_nat n else show_nat n)"

definition timestamp :: "broken_time \<Rightarrow> string" where
  "timestamp t = show_nat (tm_year t) @ ''-'' @ pad2 (tm_mon t) @ ''-'' @ pad2 (tm_mday t) @ '' '' @
     pad2 (tm_hour t) @ '':'' @ pad2 (tm_min t) @ '':'' @ pad2 (tm_sec t)"

text \<open>One record, without what only the copy on standard error starts with.\<close>

definition audit_record :: "audit_env \<Rightarrow> string option \<Rightarrow> string option \<Rightarrow> string" where
  "audit_record e event detail =
     (let chain_str = chain_str_loop 0 0 [] (get_ppid_chain (ae_status e) (ae_getpid e) 32)
      in ''['' @ timestamp (ae_now e) @ ''] user='' @
         audit_scrub (Some (case ae_pw_name e of Some u \<Rightarrow> u | None \<Rightarrow> ''unknown'')) 128 @
         '' uid='' @ show_nat (unat (ae_getuid e)) @ '' event='' @ audit_scrub event 128 @
         '' ppid_chain='' @ (if chain_str = [] then ''?'' else chain_str) @
         '' cwd='' @ audit_scrub (Some (case ae_cwd e of Some d \<Rightarrow> d | None \<Rightarrow> ''?'')) PATH_MAX @
         '' tty='' @ audit_scrub (Some (case ae_ttyname e of Some t \<Rightarrow> t | None \<Rightarrow> ''none'')) 256 @
         '' '' @ audit_scrub detail 1024 @ [NL])"

text \<open>What is written to standard error and to the log.\<close>

definition audit_log :: "audit_env \<Rightarrow> Config \<Rightarrow> string option \<Rightarrow> string option \<Rightarrow> string \<times> string" where
  "audit_log e cfg event detail =
     (if \<not> audit cfg then ([], [])
      else (''compartment: '' @ audit_record e event detail,
            if audit_log_fd cfg \<ge> 0 then audit_record e event detail else []))"

section \<open>The log directory\<close>

definition AUDIT_VARLIB_PARENT :: string where "AUDIT_VARLIB_PARENT = ''/var/lib/compartment/audit''"

definition audit_varlib_parent_ok :: "audit_env \<Rightarrow> bool" where
  "audit_varlib_parent_ok e =
     (case ae_opendir e AUDIT_VARLIB_PARENT of
        Some (Some st) \<Rightarrow> st_uid st = 0 \<and> st_mode st AND (S_IWGRP OR S_IWOTH) = 0
      | _ \<Rightarrow> False)"

definition audit_default_dir :: "audit_env \<Rightarrow> nat \<Rightarrow> string option" where
  "audit_default_dir e dirsz =
     (let fits = (\<lambda>d. if length d < dirsz then Some d else None);
          varlib = AUDIT_VARLIB_PARENT @ ''/'' @ show_nat (unat (ae_getuid e))
      in if ae_geteuid e = 0 then fits ''/var/log/compartment''
         else if audit_varlib_parent_ok e \<and> length varlib < dirsz \<and>
           (case ae_lstat e varlib of
              None \<Rightarrow> False
            | Some st \<Rightarrow> st_mode st AND S_IFMT = S_IFDIR \<and> st_uid st = ae_getuid e \<and> st_mode st AND 0xFFF = 0x1C0)
         then Some varlib
         else fits (''/var/tmp/compartment-audit-'' @ show_nat (unat (ae_getuid e))))"

text \<open>Whether the directory could be opened and is exactly ours.\<close>

definition audit_open_private_dir :: "audit_env \<Rightarrow> string \<Rightarrow> u32 \<Rightarrow> bool" where
  "audit_open_private_dir e path want_uid =
     (case ae_opendir e path of
        Some (Some st) \<Rightarrow> st_uid st = want_uid \<and> st_mode st AND 0xFFF = 0x1C0
      | _ \<Rightarrow> False)"

definition dir_under_rule :: "string \<Rightarrow> string \<Rightarrow> bool" where
  "dir_under_rule real outer =
     (let olen = strip_slashes outer (length outer)
      in take olen real = take olen outer \<and> (char_at real olen = CHR ''/'' \<or> char_at real olen = NUL))"

text \<open>The rule the warning names, if there is a warning.\<close>

definition audit_warn_if_writable :: "audit_env \<Rightarrow> Config \<Rightarrow> string \<Rightarrow> PathRule option" where
  "audit_warn_if_writable e cfg dir =
     find (\<lambda>r. is_writable_mode (pr_mode r) \<and> dir_under_rule (canon (ae_ll e) dir) (canon (ae_ll e) (pr_path r))) (paths cfg)"

section \<open>Opening the log\<close>

definition audit_dir_sz :: nat where "audit_dir_sz = PATH_MAX - 32"

text \<open>The directory, once it is created if needed, opened and checked.\<close>

definition audit_log_open_dir :: "audit_env \<Rightarrow> Config \<Rightarrow> string option" where
  "audit_log_open_dir e cfg =
     (case audit_log_dir cfg of
        Some dir \<Rightarrow>
          if length dir \<ge> audit_dir_sz then None
          else if ae_mkdir e dir \<noteq> 0 \<and> ae_mkdir e dir \<noteq> EEXIST then None
          else (case ae_opendir e dir of
                  Some (Some st) \<Rightarrow>
                    if st_uid st \<noteq> ae_geteuid e \<or> st_mode st AND (S_IWGRP OR S_IWOTH) \<noteq> 0 then None else Some dir
                | _ \<Rightarrow> None)
      | None \<Rightarrow>
          (case audit_default_dir e audit_dir_sz of
             None \<Rightarrow> None
           | Some dir \<Rightarrow>
               if \<not> has_prefix (AUDIT_VARLIB_PARENT @ ''/'') dir \<and> ae_mkdir e dir \<noteq> 0 \<and> ae_mkdir e dir \<noteq> EEXIST
               then None
               else if audit_open_private_dir e dir (ae_getuid e) then Some dir else None))"

definition log_name :: "broken_time \<Rightarrow> string" where
  "log_name t = show_nat (tm_year t) @ ''-'' @ pad2 (tm_mon t) @ ''-'' @ pad2 (tm_mday t) @ ''.log''"

text \<open>The result, the warning if any, and the configuration with the descriptor.\<close>

definition audit_log_open :: "audit_env \<Rightarrow> Config \<Rightarrow> int \<times> PathRule option \<times> Config" where
  "audit_log_open e cfg =
     (case audit_log_open_dir e cfg of
        None \<Rightarrow> (- 1, None, cfg)
      | Some dir \<Rightarrow>
          (case ae_openat e dir (log_name (ae_now e)) of
             None \<Rightarrow> (- 1, audit_warn_if_writable e cfg dir, cfg)
           | Some fd \<Rightarrow> (0, audit_warn_if_writable e cfg dir, cfg\<lparr>audit_log_fd := fd\<rparr>)))"

section \<open>Lemmas on characters and numbers\<close>

lemma is_print_digit: "d < 10 \<Longrightarrow> is_print (char_of (48 + d :: nat))"
  by (simp add: is_print_def)

lemma print_show_nat [simp]: "list_all is_print (show_nat n)"
proof (induction n rule: show_nat.induct)
  case (1 n)
  show ?case
  proof (cases "n < 10")
    case True
    then show ?thesis using is_print_digit by (simp add: show_nat.simps [of n])
  next
    case False
    have "is_print (char_of (48 + n mod 10))" by (rule is_print_digit) simp
    with False 1 show ?thesis by (simp add: show_nat.simps [of n])
  qed
qed

lemma print_constant [simp]:
  "is_print CHR ''-''" "is_print CHR ''0''" "is_print CHR ''>''"
  by (simp_all add: is_print_def)

lemma print_show_int [simp]: "list_all is_print (show_int i)"
  by (simp add: show_int_def)

lemma print_pad2 [simp]: "list_all is_print (pad2 n)"
  by (simp add: pad2_def)

lemma print_timestamp [simp]: "list_all is_print (timestamp t)"
  by (simp add: timestamp_def is_print_def)

lemma print_scrub [simp]: "list_all is_print (audit_scrub s n)"
  by (auto simp: audit_scrub_def list_all_iff Let_def is_print_def)

lemma print_chain: "list_all is_print s \<Longrightarrow> list_all is_print (chain_str_loop i pos s ps)"
proof (induction i pos s ps rule: chain_str_loop.induct)
  case (2 i pos s p ps)
  let ?t = "(if i > 0 then ''->'' else []) @ show_int p"
  have "list_all is_print ?t" by simp
  then have "list_all is_print (take (512 - pos - 1) ?t)" by (auto simp: list_all_iff dest: in_set_takeD)
  then have "list_all is_print (s @ take (512 - pos - 1) ?t)" using "2.prems" by (simp del: take_append)
  then show ?case using 2 by (simp add: Let_def)
qed simp

lemma print_not_NL: "is_print c \<Longrightarrow> c \<noteq> NL"
  by (auto simp: is_print_def)

text \<open>Every record is one line.\<close>

lemma audit_record_line: "\<exists>body. audit_record e event detail = body @ [NL] \<and> list_all is_print body"
proof -
  let ?chain = "chain_str_loop 0 0 [] (get_ppid_chain (ae_status e) (ae_getpid e) 32)"
  have "list_all is_print (if ?chain = [] then ''?'' else ?chain)"
    using print_chain [of "[]"] by (simp add: is_print_def)
  then show ?thesis
    by (intro exI [of _ "butlast (audit_record e event detail)"] conjI)
      (simp_all add: audit_record_def Let_def butlast_append is_print_def)
qed

lemma audit_record_count: "count_list (audit_record e event detail) NL = 1"
proof -
  obtain body where "audit_record e event detail = body @ [NL]" "list_all is_print body"
    using audit_record_line by blast
  then show ?thesis using print_not_NL by (auto simp: count_list_append list_all_iff count_list_0_iff)
qed

section \<open>Lemmas on the chain\<close>

lemma chain_length: "length (get_ppid_chain status cur n) \<le> n"
  by (induction status cur n rule: get_ppid_chain.induct) (auto simp: Let_def split: option.splits)

lemma length_show_nat: "n < 10 ^ k \<Longrightarrow> 0 < k \<Longrightarrow> length (show_nat n) \<le> k"
proof (induction k arbitrary: n)
  case (Suc k)
  show ?case
  proof (cases "n < 10")
    case True
    then show ?thesis by (simp add: show_nat.simps)
  next
    case False
    then have "0 < k" using Suc.prems(1) by (cases k) auto
    moreover have "n div 10 < 10 ^ k" using Suc.prems(1) by (simp add: less_mult_imp_div_less mult.commute)
    ultimately have "length (show_nat (n div 10)) \<le> k" using Suc.IH by blast
    with False show ?thesis by (simp add: show_nat.simps [of n])
  qed
qed simp

lemma length_show_int:
  assumes "- (2 ^ 31) \<le> i" and "i < 2 ^ 31" shows "length (show_int i) \<le> 11"
proof -
  have "nat (- i) < 10 ^ 10" "nat i < 10 ^ 10" using assms by auto
  then show ?thesis using length_show_nat [of "nat (- i)" 10] length_show_nat [of "nat i" 10]
    by (auto simp: show_int_def)
qed

text \<open>The text of a chain: the numbers, separated by arrows.\<close>

fun chain_text :: "nat \<Rightarrow> int list \<Rightarrow> string" where
  "chain_text i [] = []"
| "chain_text i (p # ps) = (if i > 0 then ''->'' else []) @ show_int p @ chain_text (Suc i) ps"

lemma chain_str_exact:
  assumes "list_all (\<lambda>p. - (2 ^ 31) \<le> p \<and> p < 2 ^ 31) ps" and "pos + 13 * length ps < 496"
  shows "chain_str_loop i pos s ps = s @ chain_text i ps"
  using assms
proof (induction i pos s ps rule: chain_str_loop.induct)
  case (2 i pos s p ps)
  let ?t = "(if i > 0 then ''->'' else []) @ show_int p"
  have len: "length ?t \<le> 13" using length_show_int [of p] "2.prems"(1) by auto
  then have "take (512 - pos - 1) ?t = ?t" using "2.prems"(2) by (intro take_all) simp
  moreover have "pos + length ?t + 13 * length ps < 496" using len "2.prems"(2) by simp
  ultimately show ?case using 2 by (simp add: Let_def del: take_append)
qed simp

text \<open>What the chain says: each entry is the parent of the one before.\<close>

fun parent_chain :: "(int \<Rightarrow> string list option) \<Rightarrow> int \<Rightarrow> int list \<Rightarrow> bool" where
  "parent_chain status cur [] = True"
| "parent_chain status cur (p # ps) \<longleftrightarrow>
     (\<exists>ls. status cur = Some ls \<and> status_ppid ls = p) \<and> parent_chain status p ps"

lemma chain_parents: "parent_chain status cur (get_ppid_chain status cur n)"
  by (induction status cur n rule: get_ppid_chain.induct) (auto simp: Let_def split: option.splits)

section \<open>Lemmas on the directory\<close>

lemma slashed_inject:
  assumes "list_all comp_ok a" and "list_all comp_ok b" and "slashed a = slashed b"
  shows "a = b"
proof -
  have x: "list_all comp_ok [''x'']" by (simp add: comp_ok_def)
  have "\<exists>ds. ds \<noteq> [] \<and> a @ [''x''] = b @ ds" "\<exists>ds. ds \<noteq> [] \<and> b @ [''x''] = a @ ds"
    using slashed_prefix [of b "a @ [''x'']" "''x''"] slashed_prefix [of a "b @ [''x'']" "''x''"] assms x by auto
  then obtain ds es where "a @ [''x''] = b @ ds" "ds \<noteq> []" "b @ [''x''] = a @ es" "es \<noteq> []" by blast
  moreover from calculation have "length a + 1 = length b + length ds" "length b + 1 = length a + length es"
    by (metis length_append length_Cons list.size(3) One_nat_def)+
  then have "length a = length b" using calculation(2,4) by (cases ds; cases es) auto
  ultimately show ?thesis by (metis append_eq_append_conv)
qed

lemma dir_under_components:
  assumes "list_all comp_ok ci" and "list_all comp_ok co"
  shows "dir_under_rule (render ci) (render co) \<longleftrightarrow> (if co = [] then ci = [] else prefix co ci)"
proof (cases "co = []")
  case True
  have "char_at (slashed ci) 1 \<noteq> CHR ''/'' \<and> char_at (slashed ci) 1 \<noteq> NUL" if ne: "ci \<noteq> []"
  proof -
    obtain c cs where ci: "ci = c # cs" using ne by (cases ci) auto
    then obtain x xs where "c = x # xs" "x \<noteq> CHR ''/''" "x \<noteq> NUL"
      using assms(1) by (cases c) (auto simp: comp_ok_def)
    then show ?thesis by (simp add: ci char_at_def)
  qed
  then show ?thesis using True
    by (cases "ci = []") (auto simp: dir_under_rule_def render_def char_at_def Let_def)
next
  case False
  have len: "strip_slashes (slashed co) (length (slashed co)) = length (slashed co)"
    using slashed_length [OF False assms(2)] slashed_last [OF False assms(2)]
    by (intro strip_slashes_id) auto
  have in_NUL: "take (length a) b = a \<and> char_at b (length a) = NUL \<longleftrightarrow> b = a" if "NUL \<notin> set b" for a b
  proof
    assume ab: "take (length a) b = a \<and> char_at b (length a) = NUL"
    have "\<not> length a < length b"
    proof
      assume "length a < length b"
      then have "NUL \<in> set b" using ab nth_mem [of "length a" b] by (simp add: char_at_def)
      with that show False by simp
    qed
    with ab show "b = a" by simp
  qed (simp add: char_at_def)
  have nul: "NUL \<notin> set (render ci)"
    using assms(1) by (auto simp: render_def slashed_def comp_ok_def list_all_iff)
  have same: "render ci = slashed co \<longleftrightarrow> ci = co"
  proof
    assume r: "render ci = slashed co"
    then have "2 \<le> length (render ci)" using slashed_length [OF False assms(2)] by simp
    then have "ci \<noteq> []" by (auto simp: render_def)
    with r show "ci = co" using slashed_inject [OF assms] by (simp add: render_def)
  qed (use False in \<open>simp add: render_def\<close>)
  have "length (slashed co) \<noteq> 1" using slashed_length [OF False assms(2)] by simp
  then have inside: "take (length (slashed co)) (render ci) = slashed co \<and>
      char_at (render ci) (length (slashed co)) = CHR ''/'' \<longleftrightarrow> strict_prefix co ci"
    using path_inside_components [OF assms] False len by (auto simp: path_inside_def render_def [of co] Let_def split: if_splits)
  have "dir_under_rule (render ci) (render co) \<longleftrightarrow> strict_prefix co ci \<or> ci = co"
    using inside in_NUL [OF nul, of "slashed co"] same False
    by (auto simp: dir_under_rule_def render_def [of co] Let_def len)
  then show ?thesis using False by (auto simp: prefix_order.le_less)
qed

text \<open>How the directory of an open log was checked.\<close>

lemma audit_log_open_dir_cases:
  assumes "audit_log_open_dir e cfg = Some dir"
  obtains (operator) st where "audit_log_dir cfg = Some dir" "ae_opendir e dir = Some (Some st)"
      "st_uid st = ae_geteuid e" "st_mode st AND (S_IWGRP OR S_IWOTH) = 0"
  | (defaulted) st where "audit_log_dir cfg = None" "audit_default_dir e audit_dir_sz = Some dir"
      "ae_opendir e dir = Some (Some st)" "st_uid st = ae_getuid e" "st_mode st AND 0xFFF = 0x1C0"
  using assms by (auto simp: audit_log_open_dir_def audit_open_private_dir_def split: option.splits if_splits)

lemma private_mode: "m AND 0xFFF = (0x1C0 :: u32) \<Longrightarrow> m AND (S_IWGRP OR S_IWOTH) = 0"
proof -
  assume m: "m AND 0xFFF = 0x1C0"
  have "m AND (S_IWGRP OR S_IWOTH) = (m AND 0xFFF) AND (S_IWGRP OR S_IWOTH)"
    by (simp add: and.assoc mode_defs)
  then show ?thesis by (simp add: m mode_defs)
qed

section \<open>Properties\<close>

text \<open>
  No caller can forge a record: over any sequence of events the log grows by exactly one
  line each, and by nothing when auditing is off or no log is open, whatever the event, the
  detail, the user, the working directory and the terminal are called; every other character
  of it is printable.
\<close>

theorem audit_records_are_lines:
  "let out = concat (map (\<lambda>(e, event, detail). snd (audit_log e cfg event detail)) calls)
   in count_list out NL = (if audit cfg \<and> 0 \<le> audit_log_fd cfg then length calls else 0)
      \<and> list_all (\<lambda>c. is_print c \<or> c = NL) out"
proof (induction calls)
  case Nil
  show ?case by simp
next
  case (Cons call calls)
  obtain e event detail where call: "call = (e, event, detail)" by (cases call) auto
  obtain body where "audit_record e event detail = body @ [NL]" "list_all is_print body"
    using audit_record_line by blast
  then have "list_all (\<lambda>c. is_print c \<or> c = NL) (audit_record e event detail)" by (auto simp: list_all_iff)
  with Cons show ?case
    by (auto simp: call audit_log_def Let_def audit_record_count list_all_append count_list_append)
qed

text \<open>
  With process ids that fit 32 bits the record holds the whole chain of at most 32
  parents, from the caller's own parent up: the text buffer is never too small for it.
\<close>

theorem ppid_chain_recorded:
  assumes "\<And>p ls. ae_status e p = Some ls \<Longrightarrow> - (2 ^ 31) \<le> status_ppid ls \<and> status_ppid ls < 2 ^ 31"
  shows "let chain = get_ppid_chain (ae_status e) (ae_getpid e) 32
    in chain_str_loop 0 0 [] chain = chain_text 0 chain \<and> length chain \<le> 32
       \<and> parent_chain (ae_status e) (ae_getpid e) chain"
proof -
  let ?chain = "get_ppid_chain (ae_status e) (ae_getpid e) 32"
  have "list_all (\<lambda>p. - (2 ^ 31) \<le> p \<and> p < 2 ^ 31) (get_ppid_chain (ae_status e) cur n)" for cur n
    using assms by (induction "ae_status e" cur n rule: get_ppid_chain.induct) (auto simp: Let_def split: option.splits)
  moreover have "length ?chain \<le> 32" by (rule chain_length)
  ultimately show ?thesis using chain_parents chain_str_exact [of ?chain 0 0 "[]"] by (simp add: Let_def)
qed

text \<open>A shell (process 7) started by process 5, which process 1 started.\<close>

definition demo_audit :: audit_env where
  "demo_audit =
     \<lparr>ae_getpid = 7, ae_status = [7 \<mapsto> [''Name:'', ''PPid:'' @ [TAB] @ ''5''], 5 \<mapsto> [''PPid:'' @ [TAB] @ ''1'']],
      ae_now = \<lparr>tm_year = 2026, tm_mon = 1, tm_mday = 2, tm_hour = 3, tm_min = 4, tm_sec = 5\<rparr>,
      ae_getuid = 1000, ae_geteuid = 1000, ae_pw_name = None, ae_cwd = Some ''/'', ae_ttyname = None,
      ae_opendir = (\<lambda>d. Some (Some \<lparr>st_mode = 0x41C0, st_uid = 1000\<rparr>)), ae_lstat = Map.empty, ae_mkdir = (\<lambda>_. 0),
      ae_openat = (\<lambda>_ _. Some 9), ae_ll = demo_ll\<rparr>"

theorem ppid_chain_recorded_witness:
  "chain_str_loop 0 0 [] (get_ppid_chain (ae_status demo_audit) (ae_getpid demo_audit) 32) = ''5->1''"
proof -
  have ppids: "status_ppid [''Name:'', ''PPid:'' @ [TAB] @ ''5''] = 5" "status_ppid [''PPid:'' @ [TAB] @ ''1''] = 1"
    by code_simp+
  have range: "- (2 ^ 31) \<le> status_ppid ls \<and> status_ppid ls < 2 ^ 31" if "ae_status demo_audit p = Some ls" for p ls
    using that ppids by (auto simp: demo_audit_def split: if_splits)
  have "chain_str_loop 0 0 [] (get_ppid_chain (ae_status demo_audit) (ae_getpid demo_audit) 32)
      = chain_text 0 (get_ppid_chain (ae_status demo_audit) (ae_getpid demo_audit) 32)"
    using ppid_chain_recorded [of demo_audit] range by (simp add: Let_def)
  also have "\<dots> = ''5->1''" by code_simp
  finally show ?thesis .
qed

text \<open>
  A log is opened only in a directory that is not a symbolic link, is owned by the user
  the tool runs for and that nobody else can write to; without a directory of the operator's
  choice it is one of three fixed places outside the home directory, with mode 0700 exactly.
  A run that fails leaves the configuration as it was.
\<close>

theorem audit_log_private:
  assumes "audit_log_open e cfg = (rc, warning, cfg')"
  shows "(rc = 0 \<and> (\<exists>dir fd st. ae_opendir e dir = Some (Some st) \<and> st_mode st AND (S_IWGRP OR S_IWOTH) = 0
        \<and> ae_openat e dir (log_name (ae_now e)) = Some fd \<and> cfg' = cfg\<lparr>audit_log_fd := fd\<rparr>
        \<and> (case audit_log_dir cfg of
             Some d \<Rightarrow> d = dir \<and> st_uid st = ae_geteuid e
           | None \<Rightarrow> st_uid st = ae_getuid e \<and> st_mode st AND 0xFFF = 0x1C0
               \<and> dir \<in> {''/var/log/compartment'', AUDIT_VARLIB_PARENT @ ''/'' @ show_nat (unat (ae_getuid e)),
                         ''/var/tmp/compartment-audit-'' @ show_nat (unat (ae_getuid e))})))
    \<or> (rc = - 1 \<and> cfg' = cfg)"
proof (cases "audit_log_open_dir e cfg")
  case None
  then show ?thesis using assms by (simp add: audit_log_open_def)
next
  case (Some dir)
  show ?thesis
  proof (cases "ae_openat e dir (log_name (ae_now e))")
    case None
    then show ?thesis using assms Some by (simp add: audit_log_open_def)
  next
    case fd: (Some fd)
    then have r: "rc = 0" "cfg' = cfg\<lparr>audit_log_fd := fd\<rparr>" using assms Some by (simp_all add: audit_log_open_def)
    from Some show ?thesis
    proof (cases rule: audit_log_open_dir_cases)
      case (operator st)
      then show ?thesis using fd r by (intro disjI1 conjI exI [of _ dir] exI [of _ fd] exI [of _ st]) simp_all
    next
      case (defaulted st)
      then have "dir \<in> {''/var/log/compartment'', AUDIT_VARLIB_PARENT @ ''/'' @ show_nat (unat (ae_getuid e)),
          ''/var/tmp/compartment-audit-'' @ show_nat (unat (ae_getuid e))}"
        by (auto simp: audit_default_dir_def Let_def split: if_splits)
      then show ?thesis using fd r defaulted private_mode [OF defaulted(5)]
        by (intro disjI1 conjI exI [of _ dir] exI [of _ fd] exI [of _ st]) simp_all
    qed
  qed
qed

theorem audit_log_private_witness:
  "fst (audit_log_open demo_audit empty_config) = 0
   \<and> audit_log_open_dir demo_audit empty_config = Some ''/var/tmp/compartment-audit-1000''"
proof -
  obtain rc w cfg' where o: "audit_log_open demo_audit empty_config = (rc, w, cfg')" by (metis prod_cases3)
  have "audit_log_open_dir demo_audit empty_config = Some ''/var/tmp/compartment-audit-1000''" by code_simp
  moreover from this have "rc \<noteq> - 1" using o by (simp add: audit_log_open_def demo_audit_def)
  ultimately show ?thesis using audit_log_private [OF o] by (auto simp: o)
qed

text \<open>
  On canonical paths the warning about a log the sandboxed process could rewrite is given
  exactly when the directory is, by components, at or below the path of a \<^verbatim>\<open>rw\<close> or \<^verbatim>\<open>rwx\<close> rule,
  except that a rule for the root directory is taken to hold nothing but the root itself: with
  \<^verbatim>\<open>rw /\<close> there is no warning for any other directory.
\<close>

theorem audit_warning_exact:
  assumes "\<forall>rule \<in> set (paths cfg). canon (ae_ll e) (pr_path rule) = render (comps rule) \<and> list_all comp_ok (comps rule)"
    and "canon (ae_ll e) dir = render d" and "list_all comp_ok d"
  shows "audit_warn_if_writable e cfg dir \<noteq> None \<longleftrightarrow>
    (\<exists>rule \<in> set (paths cfg). is_writable_mode (pr_mode rule) \<and> (if comps rule = [] then d = [] else prefix (comps rule) d))"
proof -
  have "dir_under_rule (canon (ae_ll e) dir) (canon (ae_ll e) (pr_path rule)) \<longleftrightarrow>
      (if comps rule = [] then d = [] else prefix (comps rule) d)" if "rule \<in> set (paths cfg)" for rule
    using assms dir_under_components that by metis
  then show ?thesis by (auto simp: audit_warn_if_writable_def find_None_iff)
qed

theorem audit_warning_exact_witness:
  "audit_warn_if_writable demo_audit (empty_config\<lparr>paths := [path_rule PATH_RW True ''/'']\<rparr>) ''/w'' = None
   \<and> audit_warn_if_writable demo_audit (empty_config\<lparr>paths := [path_rule PATH_RW True ''/w'']\<rparr>) ''/w'' \<noteq> None"
proof -
  have c: "canon (ae_ll demo_audit) ''/'' = render []" "canon (ae_ll demo_audit) ''/w'' = render [''w'']" by code_simp+
  have w: "comp_ok ''w''" by (simp add: comp_ok_def)
  have r: "pr_path (path_rule PATH_RW True p) = p" "pr_mode (path_rule PATH_RW True p) = PATH_RW"
    if "p \<in> {''/'', ''/w''}" for p
    using that by (auto simp: path_rule_def trim_optional_def is_optional_path_def)
  have "audit_warn_if_writable demo_audit (empty_config\<lparr>paths := [path_rule PATH_RW True ''/'']\<rparr>) ''/w'' \<noteq> None
      \<longleftrightarrow> False"
    by (subst audit_warning_exact [where comps = "\<lambda>_. []" and d = "[''w'']"]) (simp_all add: c r w)
  moreover have "audit_warn_if_writable demo_audit (empty_config\<lparr>paths := [path_rule PATH_RW True ''/w'']\<rparr>) ''/w'' \<noteq> None
      \<longleftrightarrow> True"
    by (subst audit_warning_exact [where comps = "\<lambda>_. [''w'']" and d = "[''w'']"])
      (simp_all add: c r w is_writable_mode_def)
  ultimately show ?thesis by simp
qed

end
