(* ===== verification/Seal_Loader.thy ===== *)
theory Seal_Loader
  imports Profile_Source Seal_Kernel
begin

text \<open>
  The policy loader of \<^verbatim>\<open>src/compartment-bpf/compartment-bpf.c\<close>: from the text of a seal profile
  to the contents of the BPF maps.  Actor declarations and seal lines are parsed, paths are
  resolved to inode keys and checked, seals are merged into the maps, and the whole profile is
  validated (\<^verbatim>\<open>enforce_actor_binaries_sealed\<close>, \<^verbatim>\<open>strict_validate_launchers\<close>) before
  \<^verbatim>\<open>strict_populate_maps\<close> writes the state of strict launches.

  The file system and the outcome of the map system calls are the parameter \<^verbatim>\<open>lhost\<close>.  Memory
  is taken to suffice: each failed allocation of the code is one more way to refuse the load.
  Diagnostics are left out.  The field \<^verbatim>\<open>strict_open\<close>, which the code sets and never reads, is
  left out too.
\<close>

section \<open>The host\<close>

record ustat =
  us_mode :: u32
  us_major :: u32
  us_minor :: u32
  us_ino :: u64
  us_nlink :: nat
  us_size :: nat

datatype walk_type = FTW_NS | FTW_DNR | FTW_SL | FTW_OTHER

record walk_entry =
  we_type :: walk_type
  we_stat :: ustat
  we_level :: nat

text \<open>
  An open that fails is \<^term>\<open>None\<close>; an \<^verbatim>\<open>fstat\<close> that fails afterwards is \<^term>\<open>Some None\<close>.
  \<^verbatim>\<open>lh_walk\<close> is the entries \<^verbatim>\<open>nftw\<close> visits, in order, and whether it could visit them all.
\<close>

record lhost =
  lh_opath :: "string \<Rightarrow> ustat option option"      \<comment> \<open>\<^verbatim>\<open>O_PATH | O_NOFOLLOW\<close>\<close>
  lh_odir :: "string \<Rightarrow> ustat option option"       \<comment> \<open>\<^verbatim>\<open>O_PATH | O_DIRECTORY | O_NOFOLLOW\<close>\<close>
  lh_ordonly :: "string \<Rightarrow> ustat option option"    \<comment> \<open>\<^verbatim>\<open>O_RDONLY | O_NOFOLLOW\<close>\<close>
  lh_fstype :: "string \<Rightarrow> u64 option"              \<comment> \<open>\<^verbatim>\<open>fstatfs\<close>\<close>
  lh_bytes :: "string \<Rightarrow> nat list"                 \<comment> \<open>the bytes of a file\<close>
  lh_walk :: "string \<Rightarrow> walk_entry list \<times> bool"
  lh_lookup_ok :: "inode_key \<Rightarrow> bool"              \<comment> \<open>no error but \<^verbatim>\<open>ENOENT\<close>\<close>
  lh_update_ok :: "inode_key \<Rightarrow> bool"
  lh_dev_ok :: "u64 \<Rightarrow> bool"
  lh_launcher_ok :: "inode_key \<Rightarrow> bool"
  lh_state_ok :: bool
  lh_conf_ok :: bool                                \<comment> \<open>no read error on the profile\<close>


definition s_isdir :: "ustat \<Rightarrow> bool" where "s_isdir st \<longleftrightarrow> us_mode st AND S_IFMT = S_IFDIR"
definition s_isreg :: "ustat \<Rightarrow> bool" where "s_isreg st \<longleftrightarrow> us_mode st AND S_IFMT = S_IFREG"
definition s_islnk :: "ustat \<Rightarrow> bool" where "s_islnk st \<longleftrightarrow> us_mode st AND S_IFMT = S_IFLNK"

section \<open>State\<close>

record actor_group =
  ag_name :: string
  ag_paths :: "string list"
  ag_bin :: "inode_key list option"       \<comment> \<open>\<^term>\<open>None\<close>: not resolved\<close>
  ag_strict :: bool
  ag_launcher :: "string option"
  ag_launcher_key :: inode_key
  ag_slot :: u32

record seal_entry =
  se_key :: inode_key
  se_flags :: u32
  se_has_actor :: bool
  se_path :: "string option"              \<comment> \<open>the declared paths, separated by newlines\<close>

record profile_state =
  ps_actors :: "actor_group list"
  ps_seals :: "seal_entry list"
  ps_next_slot :: u32
  ps_gen :: u32

text \<open>What a load works on: the state, the maps, the inodes held open, and the counts.\<close>

record lstate =
  ls_ps :: profile_state
  ls_maps :: maps
  ls_held :: "inode_key list"
  ls_errs :: nat
  ls_sealed :: nat
  ls_candidate :: bool

definition failed :: "lstate \<Rightarrow> lstate" where
  "failed st = st\<lparr>ls_errs := Suc (ls_errs st)\<rparr>"

section \<open>Names, tokens and lists of paths\<close>

definition is_tok_sep :: "char \<Rightarrow> bool" where
  "is_tok_sep c \<longleftrightarrow> c \<in> {CHR '' '', TAB, CR, NL}"

definition is_flag_tok_sep :: "char \<Rightarrow> bool" where
  "is_flag_tok_sep c \<longleftrightarrow> c = CHR '','' \<or> is_tok_sep c"

definition is_alpha :: "char \<Rightarrow> bool" where
  "is_alpha c = (let n = (of_char c :: nat) in (65 \<le> n \<and> n \<le> 90) \<or> (97 \<le> n \<and> n \<le> 122))"

definition is_alnum :: "char \<Rightarrow> bool" where
  "is_alnum c \<longleftrightarrow> is_alpha c \<or> is_digit 10 c"

definition trim :: "string \<Rightarrow> string" where
  "trim s = rdropWhile is_space (dropWhile is_space s)"

definition ACTOR_NAME_MAX :: nat where "ACTOR_NAME_MAX = 16"

definition actor_name_valid :: "string \<Rightarrow> bool" where
  "actor_name_valid name =
     (case name of
        [] \<Rightarrow> False
      | c # cs \<Rightarrow> length name + 1 \<le> ACTOR_NAME_MAX \<and> (is_alpha c \<or> c = CHR ''_'')
               \<and> list_all (\<lambda>d. is_alnum d \<or> d = CHR ''_'' \<or> d = CHR ''-'') cs)"

definition profile_find_actor :: "profile_state \<Rightarrow> string \<Rightarrow> actor_group option" where
  "profile_find_actor ps name = find (\<lambda>ag. ag_name ag = name) (ps_actors ps)"

function path_list_contains_exact :: "string \<Rightarrow> string \<Rightarrow> bool" where
  "path_list_contains_exact xs path =
     (if xs = [] then False
      else if takeWhile (\<lambda>c. c \<noteq> NL) xs = path then True
      else case dropWhile (\<lambda>c. c \<noteq> NL) xs of [] \<Rightarrow> False | _ # r \<Rightarrow> path_list_contains_exact r path)"
  by pat_completeness auto
termination
proof (relation "measure (\<lambda>(xs, _). length xs)")
  fix xs path :: string and x r
  assume "dropWhile (\<lambda>c. c \<noteq> NL) xs = x # r"
  then have "length (x # r) \<le> length xs" by (metis length_dropWhile_le)
  then show "((r, path), (xs, path)) \<in> measure (\<lambda>(xs, _). length xs)" by simp
qed simp

declare path_list_contains_exact.simps [simp del]

definition seal_entry_matches_declared :: "seal_entry \<Rightarrow> string \<Rightarrow> bool" where
  "seal_entry_matches_declared se declared =
     (case se_path se of None \<Rightarrow> False | Some ps \<Rightarrow> path_list_contains_exact ps declared)"

text \<open>The first entry with the key takes the new flags and path; \<^term>\<open>None\<close> when there is none.\<close>

definition merged_entry :: "u32 \<Rightarrow> bool \<Rightarrow> string \<Rightarrow> seal_entry \<Rightarrow> seal_entry" where
  "merged_entry flags has_actor path se =
     se\<lparr>se_flags := se_flags se OR flags, se_has_actor := se_has_actor se \<or> has_actor,
        se_path := map_option (\<lambda>l. if path_list_contains_exact l path then l else l @ NL # path) (se_path se)\<rparr>"

fun merge_seal :: "inode_key \<Rightarrow> u32 \<Rightarrow> bool \<Rightarrow> string \<Rightarrow> seal_entry list \<Rightarrow> seal_entry list option" where
  "merge_seal k flags has_actor path [] = None"
| "merge_seal k flags has_actor path (se # ses) =
     (if se_key se = k then Some (merged_entry flags has_actor path se # ses)
      else map_option (Cons se) (merge_seal k flags has_actor path ses))"

definition profile_state_record_seal :: "profile_state \<Rightarrow> inode_key \<Rightarrow> u32 \<Rightarrow> bool \<Rightarrow> string \<Rightarrow> profile_state" where
  "profile_state_record_seal ps k flags has_actor path =
     ps\<lparr>ps_seals := (case merge_seal k flags has_actor path (ps_seals ps) of
        Some ses \<Rightarrow> ses
      | None \<Rightarrow> ps_seals ps @ [\<lparr>se_key = k, se_flags = flags, se_has_actor = has_actor, se_path = Some path\<rparr>])\<rparr>"

definition profile_state_add_actor :: "profile_state \<Rightarrow> actor_group \<Rightarrow> profile_state" where
  "profile_state_add_actor ps ag = ps\<lparr>ps_actors := ps_actors ps @ [ag]\<rparr>"

section \<open>Declarations\<close>

definition absolute :: "string \<Rightarrow> bool" where
  "absolute p = (case p of [] \<Rightarrow> False | c # _ \<Rightarrow> c = CHR ''/'')"

text \<open>The loop over the paths of a declaration, with those taken so far.\<close>

fun actor_paths :: "string list \<Rightarrow> string list \<Rightarrow> string list option" where
  "actor_paths acc [] = (if acc = [] then None else Some acc)"
| "actor_paths acc (p # ps) =
     (if \<not> absolute p then None
      else if length acc \<ge> COMPARTMENT_MAX_ACTORS_PER_SEAL then None
      else actor_paths (acc @ [p]) ps)"

definition zero_key :: inode_key where "zero_key = \<lparr>ik_dev = 0, ik_ino = 0\<rparr>"

definition parse_actor_decl :: "string \<Rightarrow> profile_state \<Rightarrow> profile_state option" where
  "parse_actor_decl rest ps =
     (case tokens is_tok_sep rest of
        [] \<Rightarrow> None
      | name # toks \<Rightarrow>
          if \<not> actor_name_valid name then None
          else if profile_find_actor ps name \<noteq> None then None
          else case toks of
            [] \<Rightarrow> None
          | eq # path_toks \<Rightarrow>
              if eq \<noteq> ''='' then None
              else case actor_paths [] path_toks of
                None \<Rightarrow> None
              | Some taken \<Rightarrow> Some (profile_state_add_actor ps
                  \<lparr>ag_name = name, ag_paths = taken, ag_bin = None, ag_strict = False, ag_launcher = None,
                   ag_launcher_key = zero_key, ag_slot = 0\<rparr>))"

definition parse_actor_strict_decl :: "string \<Rightarrow> profile_state \<Rightarrow> profile_state option" where
  "parse_actor_strict_decl rest ps =
     (case tokens is_tok_sep rest of
        [name, eq, tgt, l] \<Rightarrow>
          if \<not> actor_name_valid name then None
          else if profile_find_actor ps name \<noteq> None then None
          else if eq \<noteq> ''='' then None
          else if \<not> absolute tgt then None
          else if \<not> has_prefix ''launcher='' l then None
          else if \<not> absolute (drop 9 l) then None
          else Some (profile_state_add_actor (ps\<lparr>ps_next_slot := ps_next_slot ps + 1\<rparr>)
            \<lparr>ag_name = name, ag_paths = [tgt], ag_bin = None, ag_strict = True, ag_launcher = Some (drop 9 l),
             ag_launcher_key = zero_key, ag_slot = ps_next_slot ps + 1\<rparr>)
      | _ \<Rightarrow> None)"

section \<open>File checks\<close>

definition COMPARTMENT_BTRFS_SUPER_MAGIC :: u64 where "COMPARTMENT_BTRFS_SUPER_MAGIC = 0x9123683e"
definition COMPARTMENT_OVERLAYFS_SUPER_MAGIC :: u64 where "COMPARTMENT_OVERLAYFS_SUPER_MAGIC = 0x794c7630"
definition COMPARTMENT_FUSE_SUPER_MAGIC :: u64 where "COMPARTMENT_FUSE_SUPER_MAGIC = 0x65735546"

text \<open>Whether the file system of a path may hold seals and actors.\<close>

definition anon_bdev_refuse :: "lhost \<Rightarrow> string \<Rightarrow> bool" where
  "anon_bdev_refuse h path =
     (case lh_fstype h path of
        None \<Rightarrow> True
      | Some t \<Rightarrow> t \<in> {COMPARTMENT_BTRFS_SUPER_MAGIC, COMPARTMENT_OVERLAYFS_SUPER_MAGIC, COMPARTMENT_FUSE_SUPER_MAGIC})"

text \<open>A read of exactly \<^verbatim>\<open>n\<close> bytes at an offset, and little-endian numbers.\<close>

definition pread_exact :: "nat list \<Rightarrow> nat \<Rightarrow> int \<Rightarrow> nat list option" where
  "pread_exact bytes n off =
     (if 0 \<le> off \<and> nat off + n \<le> length bytes then Some (take n (drop (nat off) bytes)) else None)"

definition le_val :: "nat list \<Rightarrow> int" where
  "le_val bs = foldr (\<lambda>b acc. int b + 256 * acc) bs 0"

definition le_field :: "nat list \<Rightarrow> nat \<Rightarrow> nat \<Rightarrow> int" where
  "le_field bs off n = le_val (take n (drop off bs))"

text \<open>The program headers from \<^verbatim>\<open>i\<close> on, \<^verbatim>\<open>todo\<close> of them.\<close>

fun scan_phdrs :: "nat list \<Rightarrow> int \<Rightarrow> nat \<Rightarrow> nat \<Rightarrow> int" where
  "scan_phdrs bytes phoff i 0 = 0"
| "scan_phdrs bytes phoff i (Suc todo) =
     (case pread_exact bytes 56 (phoff + int i * 56) of
        None \<Rightarrow> - 1
      | Some ph \<Rightarrow> if le_field ph 0 4 = 3 then 1 else scan_phdrs bytes phoff (Suc i) todo)"

text \<open>\<^verbatim>\<open>(off_t)eh.e_phoff\<close> is signed.\<close>

definition elf_has_interp :: "nat list \<Rightarrow> int" where
  "elf_has_interp bytes =
     (case pread_exact bytes 16 0 of
        None \<Rightarrow> - 1
      | Some ident \<Rightarrow>
          if take 4 ident \<noteq> [0x7f, 69, 76, 70] then - 1
          else if ident ! 4 \<noteq> 2 then - 1
          else case pread_exact bytes 64 0 of
            None \<Rightarrow> - 1
          | Some eh \<Rightarrow>
              let phoff = le_field eh 32 8; phentsize = le_field eh 54 2; phnum = le_field eh 56 2
              in if phoff = 0 \<or> phnum = 0 \<or> phentsize \<noteq> 56 then - 1
                 else if phnum > 256 then - 1
                 else scan_phdrs bytes (if phoff < 2 ^ 63 then phoff else phoff - 2 ^ 64) 0 (nat phnum))"

text \<open>\<^verbatim>\<open>MKDEV(major, minor)\<close>, if it fits.\<close>

definition kernel_dev :: "ustat \<Rightarrow> u64 option" where
  "kernel_dev st =
     (if us_major st \<ge> 0x1000 \<or> us_minor st \<ge> 0x100000 then None
      else let dev = push_bit 20 (ucast (us_major st)) OR ucast (us_minor st)
           in if dev = 0 then None else Some dev)"

definition parent_writable :: "lhost \<Rightarrow> string \<Rightarrow> bool" where
  "parent_writable h path =
     (if length path \<ge> PATH_MAX then True
      else case last_index (CHR ''/'') path of
        None \<Rightarrow> True
      | Some i \<Rightarrow>
          (case lh_odir h (if i = 0 then ''/'' else take i path) of
             Some (Some pst) \<Rightarrow> us_mode pst AND (S_IWOTH OR S_IWGRP) \<noteq> 0
           | _ \<Rightarrow> True))"

text \<open>The body of the loop of \<^verbatim>\<open>actor_resolve_paths\<close>.\<close>

definition actor_resolve_one :: "lhost \<Rightarrow> string \<Rightarrow> inode_key option" where
  "actor_resolve_one h path =
     (case lh_opath h path of
        Some (Some st) \<Rightarrow>
          if anon_bdev_refuse h path then None
          else if s_islnk st then None
          else if \<not> s_isreg st then None
          else if us_mode st AND (S_IWOTH OR S_IWGRP) \<noteq> 0 then None
          else if parent_writable h path then None
          else if us_size st = 0 then None
          else if us_mode st AND 0x49 = 0 then None
          else map_option (\<lambda>dev. \<lparr>ik_dev = dev, ik_ino = us_ino st\<rparr>) (kernel_dev st)
      | _ \<Rightarrow> None)"

text \<open>The keys, or \<^term>\<open>None\<close> when one path fails; the inodes held open are kept in both cases.\<close>

fun actor_resolve_paths :: "lhost \<Rightarrow> string list \<Rightarrow> inode_key list option \<times> inode_key list" where
  "actor_resolve_paths h [] = (Some [], [])"
| "actor_resolve_paths h (p # ps) =
     (case actor_resolve_one h p of
        None \<Rightarrow> (None, [])
      | Some k \<Rightarrow> (case actor_resolve_paths h ps of (ks, held) \<Rightarrow> (map_option (Cons k) ks, k # held)))"

section \<open>Seals\<close>

text \<open>The loop of \<^verbatim>\<open>parse_flagspec\<close>: the flags, the actor name and whether a flag was seen.\<close>

fun flag_tokens :: "u32 \<Rightarrow> string option \<Rightarrow> bool \<Rightarrow> string list \<Rightarrow> (u32 \<times> string option \<times> bool) option" where
  "flag_tokens flags actor seen [] = Some (flags, actor, seen)"
| "flag_tokens flags actor seen (t # ts) =
     (if has_prefix ''actor='' t then
        (if actor \<noteq> None then None
         else if \<not> actor_name_valid (drop 6 t) then None
         else flag_tokens flags (Some (drop 6 t)) seen ts)
      else if t = ''full'' then flag_tokens (flags OR SEAL_FULL) actor True ts
      else if t = ''no-unlink'' then flag_tokens (flags OR SEAL_NO_UNLINK) actor True ts
      else if t = ''no-rename'' then flag_tokens (flags OR SEAL_NO_RENAME) actor True ts
      else if t = ''no-write'' then flag_tokens (flags OR SEAL_NO_WRITE) actor True ts
      else if t = ''no-chmod'' then flag_tokens (flags OR SEAL_NO_CHMOD) actor True ts
      else if t = ''strict-launch'' then flag_tokens (flags OR SEAL_STRICT_LAUNCH) actor True ts
      else None)"

definition parse_flagspec :: "string \<Rightarrow> (u32 \<times> string option) option" where
  "parse_flagspec s =
     (if trim s = [] then Some (SEAL_FULL, None)
      else case flag_tokens 0 None False (tokens is_flag_tok_sep (trim s)) of
        None \<Rightarrow> None
      | Some (flags, actor, seen) \<Rightarrow>
          if actor \<noteq> None \<and> \<not> seen then None
          else if flags = 0 then None
          else if flags = SEAL_STRICT_LAUNCH then None
          else Some (flags, actor))"

definition dir_subtree_check_cb :: "walk_entry \<Rightarrow> bool" where
  "dir_subtree_check_cb w \<longleftrightarrow>
     we_level w = 0 \<or>
     (we_type w \<noteq> FTW_NS \<and> we_type w \<noteq> FTW_DNR \<and>
      \<not> (s_isdir (we_stat w) \<and> we_level w \<ge> COMPARTMENT_MAX_DIR_ANCESTORS) \<and>
      \<not> (\<not> s_isdir (we_stat w) \<and> we_level w > COMPARTMENT_MAX_DIR_ANCESTORS) \<and>
      \<not> (we_type w = FTW_SL \<or> s_islnk (we_stat w)) \<and>
      \<not> (\<not> s_isdir (we_stat w) \<and> us_nlink (we_stat w) > 1))"

definition validate_recursive_dir_seal :: "lhost \<Rightarrow> string \<Rightarrow> bool" where
  "validate_recursive_dir_seal h path \<longleftrightarrow>
     list_all dir_subtree_check_cb (fst (lh_walk h path)) \<and> snd (lh_walk h path)"

text \<open>The key and whether it is a directory, once the path of a seal passed its checks.\<close>

definition resolve_seal_target :: "lhost \<Rightarrow> string \<Rightarrow> (inode_key \<times> bool) option" where
  "resolve_seal_target h path =
     (case lh_opath h path of
        Some (Some st) \<Rightarrow>
          if anon_bdev_refuse h path then None
          else if s_islnk st then None
          else case kernel_dev st of
            None \<Rightarrow> None
          | Some dev \<Rightarrow>
              if s_isdir st \<and> \<not> validate_recursive_dir_seal h path then None
              else Some (\<lparr>ik_dev = dev, ik_ino = us_ino st\<rparr>, s_isdir st)
      | _ \<Rightarrow> None)"

text \<open>The value written for a seal; \<^term>\<open>None\<close> when the strict-launch flag has no strict actor.\<close>

definition build_seal_value :: "profile_state \<Rightarrow> u32 \<Rightarrow> actor_group option \<Rightarrow> seal_value option" where
  "build_seal_value ps flags actor =
     (let sv = \<lparr>sv_flags = flags, sv_actor_count = 0, sv_actor = (\<lambda>_. zero_key), sv_actor_name = [],
                sv_strict_actor_slot = 0, sv_strict_generation = 0\<rparr>
      in case actor of
        None \<Rightarrow> if flags AND SEAL_STRICT_LAUNCH \<noteq> 0 then None else Some sv
      | Some ag \<Rightarrow>
          if flags AND SEAL_STRICT_LAUNCH \<noteq> 0 \<and> \<not> ag_strict ag then None
          else let sv = (if flags AND SEAL_STRICT_LAUNCH \<noteq> 0
                         then sv\<lparr>sv_strict_actor_slot := ag_slot ag, sv_strict_generation := ps_gen ps\<rparr> else sv)
               in case ag_bin ag of
                 None \<Rightarrow> Some sv
               | Some bin \<Rightarrow>
                   if length (ag_paths ag) > COMPARTMENT_MAX_ACTORS_PER_SEAL then None
                   else Some (sv\<lparr>sv_actor_count := of_nat (length (ag_paths ag)),
                                 sv_actor := (\<lambda>i. if i < length (ag_paths ag) then bin ! i else zero_key),
                                 sv_actor_name := take 15 (ag_name ag)\<rparr>))"

definition record_sealed_dev :: "lhost \<Rightarrow> u64 \<Rightarrow> maps \<Rightarrow> maps option" where
  "record_sealed_dev h dev M =
     (let n = (case sealed_devs M dev of None \<Rightarrow> 0 | Some n \<Rightarrow> n)
      in if lh_dev_ok h dev
         then Some (M\<lparr>sealed_devs := (sealed_devs M)(dev \<mapsto> (if n < 0xFFFFFFFF then n + 1 else n))\<rparr>)
         else None)"

definition seal_map :: "bool \<Rightarrow> maps \<Rightarrow> inode_key \<rightharpoonup> seal_value" where
  "seal_map is_dir M = (if is_dir then sealed_dirs M else sealed_inodes M)"

definition set_seal_map :: "bool \<Rightarrow> inode_key \<Rightarrow> seal_value \<Rightarrow> maps \<Rightarrow> maps" where
  "set_seal_map is_dir k sv M =
     (if is_dir then M\<lparr>sealed_dirs := (sealed_dirs M)(k \<mapsto> sv)\<rparr>
      else M\<lparr>sealed_inodes := (sealed_inodes M)(k \<mapsto> sv)\<rparr>)"

text \<open>The value after a merge with what the map holds under the key.\<close>

definition merge_value :: "seal_value option \<Rightarrow> seal_value \<Rightarrow> seal_value option" where
  "merge_value prev sv =
     (case prev of
        None \<Rightarrow> Some sv
      | Some p \<Rightarrow>
          if sv_actor_count p \<noteq> 0 \<or> sv_actor_count sv \<noteq> 0 then None
          else Some (sv\<lparr>sv_flags := sv_flags sv OR sv_flags p\<rparr>))"

text \<open>\<^verbatim>\<open>seal_path\<close> with the maps at hand: a failure leaves what was written before it.\<close>

definition seal_path_load :: "lhost \<Rightarrow> string \<Rightarrow> u32 \<Rightarrow> actor_group option \<Rightarrow> inode_key \<Rightarrow> bool \<Rightarrow> lstate \<Rightarrow> bool \<times> lstate" where
  "seal_path_load h path flags actor k is_dir st =
     (case build_seal_value (ls_ps st) flags actor of
        None \<Rightarrow> (False, st)
      | Some sv \<Rightarrow>
          if \<not> lh_lookup_ok h k then (False, st)
          else case merge_value (seal_map is_dir (ls_maps st) k) sv of
            None \<Rightarrow> (False, st)
          | Some sv \<Rightarrow>
              if \<not> lh_update_ok h k then (False, st)
              else let st1 = st\<lparr>ls_maps := set_seal_map is_dir k sv (ls_maps st)\<rparr>
                   in case record_sealed_dev h (ik_dev k) (ls_maps st1) of
                     None \<Rightarrow> (False, st1)
                   | Some M \<Rightarrow>
                       (True, st1\<lparr>ls_maps := M, ls_held := k # ls_held st1,
                                  ls_ps := profile_state_record_seal (ls_ps st1) k (sv_flags sv) (actor \<noteq> None) path\<rparr>))"

text \<open>\<^verbatim>\<open>seal_path\<close> without maps, as \<^verbatim>\<open>--dry-run\<close> calls it.\<close>

definition seal_path_dry :: "string \<Rightarrow> u32 \<Rightarrow> actor_group option \<Rightarrow> inode_key \<Rightarrow> lstate \<Rightarrow> bool \<times> lstate" where
  "seal_path_dry path flags actor k st =
     (case find (\<lambda>se. se_key se = k) (ps_seals (ls_ps st)) of
        Some se \<Rightarrow>
          if se_has_actor se \<or> actor \<noteq> None then (False, st)
          else (True, st\<lparr>ls_ps := profile_state_record_seal (ls_ps st) k flags (actor \<noteq> None) path\<rparr>)
      | None \<Rightarrow> (True, st\<lparr>ls_ps := profile_state_record_seal (ls_ps st) k flags (actor \<noteq> None) path\<rparr>))"

definition seal_path :: "lhost \<Rightarrow> bool \<Rightarrow> string \<Rightarrow> u32 \<Rightarrow> actor_group option \<Rightarrow> lstate \<Rightarrow> bool \<times> lstate" where
  "seal_path h skel path flags actor st =
     (if \<not> absolute path then (False, st)
      else if (case actor of Some ag \<Rightarrow> ag_bin ag = None | None \<Rightarrow> False) then (False, st)
      else case resolve_seal_target h path of
        None \<Rightarrow> (False, st)
      | Some (k, is_dir) \<Rightarrow>
          if skel then seal_path_load h path flags actor k is_dir st
          else seal_path_dry path flags actor k st)"

section \<open>Validation of the whole profile\<close>

definition sealed_full :: "u32 \<Rightarrow> bool" where
  "sealed_full flags \<longleftrightarrow> SEAL_FULL AND NOT flags = 0"

text \<open>One binary of an actor: sealed at its declared path, fully, and for everybody.\<close>

definition actor_binary_sealed :: "profile_state \<Rightarrow> inode_key \<Rightarrow> string \<Rightarrow> bool" where
  "actor_binary_sealed ps k path =
     (case find (\<lambda>se. se_key se = k \<and> seal_entry_matches_declared se path) (ps_seals ps) of
        None \<Rightarrow> False
      | Some se \<Rightarrow> sealed_full (se_flags se) \<and> \<not> se_has_actor se)"

definition launcher_seal_ok :: "profile_state \<Rightarrow> actor_group \<Rightarrow> bool" where
  "launcher_seal_ok ps ag =
     (case (ag_strict ag, ag_launcher ag) of
        (True, Some l) \<Rightarrow>
          (case find (\<lambda>se. seal_entry_matches_declared se l) (ps_seals ps) of
             None \<Rightarrow> True
           | Some se \<Rightarrow> \<not> se_has_actor se)
      | _ \<Rightarrow> True)"

definition enforce_actor_binaries_sealed :: "profile_state \<Rightarrow> bool" where
  "enforce_actor_binaries_sealed ps \<longleftrightarrow>
     list_all (\<lambda>ag. case ag_bin ag of
                 None \<Rightarrow> True
               | Some bin \<Rightarrow> list_all (\<lambda>(k, p). actor_binary_sealed ps k p) (zip bin (ag_paths ag))) (ps_actors ps) \<and>
     list_all (launcher_seal_ok ps) (ps_actors ps)"

definition first_bin :: "actor_group \<Rightarrow> inode_key option" where
  "first_bin ag = (case ag_bin ag of Some (k # _) \<Rightarrow> Some k | _ \<Rightarrow> None)"

text \<open>One strict actor: the key of its launcher, recorded as soon as it is known, and whether it passes.\<close>

definition validate_launcher :: "lhost \<Rightarrow> profile_state \<Rightarrow> actor_group \<Rightarrow> actor_group \<times> bool" where
  "validate_launcher h ps ag =
     (case ag_launcher ag of
        None \<Rightarrow> (ag, False)
      | Some path \<Rightarrow>
          (case lh_ordonly h path of
             Some (Some st) \<Rightarrow>
               if anon_bdev_refuse h path \<or> \<not> s_isreg st \<or> us_mode st AND (S_IWGRP OR S_IWOTH) \<noteq> 0 then (ag, False)
               else if elf_has_interp (lh_bytes h path) \<noteq> 0 then (ag, False)
               else let k = \<lparr>ik_dev = push_bit 20 (ucast (us_major st)) OR ucast (us_minor st), ik_ino = us_ino st\<rparr>;
                        ag' = ag\<lparr>ag_launcher_key := k\<rparr>;
                        full = (\<lambda>key se. se_key se = key \<and> se_flags se AND SEAL_FULL = SEAL_FULL)
                    in if first_bin ag = Some k then (ag', False)
                       else case find (full k) (rev (ps_seals ps)) of
                         None \<Rightarrow> (ag', False)
                       | Some lmatch \<Rightarrow>
                           if se_has_actor lmatch then (ag', False)
                           else (ag', case first_bin ag of
                                        None \<Rightarrow> False
                                      | Some t \<Rightarrow> list_ex (full t) (ps_seals ps))
           | _ \<Rightarrow> (ag, False)))"

definition validate_if_strict :: "lhost \<Rightarrow> profile_state \<Rightarrow> actor_group \<Rightarrow> actor_group \<times> bool" where
  "validate_if_strict h ps ag = (if ag_strict ag then validate_launcher h ps ag else (ag, True))"

definition strict_validate_launchers :: "lhost \<Rightarrow> lstate \<Rightarrow> bool \<times> lstate" where
  "strict_validate_launchers h st =
     (let ps = ls_ps st; rs = map (validate_if_strict h ps) (ps_actors ps);
          pinned = map (ag_launcher_key \<circ> fst) (filter (\<lambda>(ag, ok). ag_strict ag \<and> ok) rs)
      in (list_all snd rs, st\<lparr>ls_ps := ps\<lparr>ps_actors := map fst rs\<rparr>, ls_held := pinned @ ls_held st\<rparr>))"

text \<open>The loop that fills \<^verbatim>\<open>launcher_to_actor\<close>, with whether a strict actor was seen.\<close>

fun populate_launchers :: "lhost \<Rightarrow> u32 \<Rightarrow> actor_group list \<Rightarrow> maps \<times> u32 \<Rightarrow> (maps \<times> u32) option" where
  "populate_launchers h gen [] r = Some r"
| "populate_launchers h gen (ag # ags) r =
     (if \<not> ag_strict ag then populate_launchers h gen ags r
      else case first_bin ag of
        None \<Rightarrow> None
      | Some target \<Rightarrow>
          if \<not> lh_launcher_ok h (ag_launcher_key ag) then None
          else populate_launchers h gen ags
            ((fst r)\<lparr>launcher_to_actor := (launcher_to_actor (fst r))(ag_launcher_key ag \<mapsto>
               \<lparr>la_target = target, la_actor_slot = ag_slot ag, la_policy_generation = gen\<rparr>)\<rparr>, 1))"

definition strict_populate_maps :: "lhost \<Rightarrow> profile_state \<Rightarrow> maps \<Rightarrow> maps option" where
  "strict_populate_maps h ps M =
     (case populate_launchers h (ps_gen ps) (ps_actors ps) (M, 0) of
        None \<Rightarrow> None
      | Some (M, loaded) \<Rightarrow>
          if lh_state_ok h
          then Some (M\<lparr>policy_state_map := Some \<lparr>ps_generation = ps_gen ps, ps_strict_loaded = loaded\<rparr>\<rparr>)
          else None)"

section \<open>Lines\<close>

definition candidate_marker :: string where "candidate_marker = ''#@compartment-bpf-profile-status:''"

definition is_candidate_line :: "string \<Rightarrow> bool" where
  "is_candidate_line line =
     (let cm = dropWhile is_space line;
          val = dropWhile is_space (drop (length candidate_marker) cm)
      in has_prefix candidate_marker cm \<and> has_prefix ''candidate'' val
         \<and> char_at val 9 \<in> {NUL, NL, CR, CHR '' '', TAB, CHR ''#''})"

text \<open>An accepted actor declaration: resolve its paths unless only the grammar is checked.\<close>

definition actor_declared :: "lhost \<Rightarrow> bool \<Rightarrow> profile_state option \<Rightarrow> lstate \<Rightarrow> lstate" where
  "actor_declared h parse_only decl st =
     (case decl of
        None \<Rightarrow> failed st
      | Some ps \<Rightarrow>
          if parse_only then st\<lparr>ls_ps := ps\<rparr>
          else let ag = last (ps_actors ps); (bin, held) = actor_resolve_paths h (ag_paths ag);
                   st1 = st\<lparr>ls_ps := ps\<lparr>ps_actors := butlast (ps_actors ps) @ [ag\<lparr>ag_bin := bin\<rparr>]\<rparr>,
                            ls_held := held @ ls_held st\<rparr>
               in if bin = None then failed st1 else st1)"

definition sealed_one :: "bool \<times> lstate \<Rightarrow> lstate" where
  "sealed_one r = (if fst r then (snd r)\<lparr>ls_sealed := Suc (ls_sealed (snd r))\<rparr> else failed (snd r))"

definition seal_line :: "lhost \<Rightarrow> bool \<Rightarrow> bool \<Rightarrow> string \<Rightarrow> lstate \<Rightarrow> lstate" where
  "seal_line h skel parse_only rest st =
     (case strtok is_tok_sep rest of
        None \<Rightarrow> failed st
      | Some (target, flagspec) \<Rightarrow>
          (case parse_flagspec flagspec of
             None \<Rightarrow> failed st
           | Some (flags, name) \<Rightarrow>
               let actor = (case name of None \<Rightarrow> None | Some n \<Rightarrow> profile_find_actor (ls_ps st) n)
               in if name \<noteq> None \<and> actor = None then failed st
                  else if parse_only then sealed_one (absolute target, st)
                  else sealed_one (seal_path h skel target flags actor st)))"

definition conf_directive :: "lhost \<Rightarrow> bool \<Rightarrow> bool \<Rightarrow> string \<Rightarrow> lstate \<Rightarrow> lstate" where
  "conf_directive h skel parse_only line st =
     (case strtok is_tok_sep (trim (takeWhile (\<lambda>c. c \<noteq> CHR ''#'') line)) of
        None \<Rightarrow> st
      | Some (dir, rest) \<Rightarrow>
          if dir = ''actor'' then actor_declared h parse_only (parse_actor_decl rest (ls_ps st)) st
          else if dir = ''actor-strict'' then actor_declared h parse_only (parse_actor_strict_decl rest (ls_ps st)) st
          else if dir = ''env'' then failed st
          else if dir = ''seal'' then seal_line h skel parse_only rest st
          else failed st)"

definition conf_line :: "lhost \<Rightarrow> bool \<Rightarrow> bool \<Rightarrow> string \<Rightarrow> lstate \<Rightarrow> lstate" where
  "conf_line h skel parse_only line st =
     conf_directive h skel parse_only line (st\<lparr>ls_candidate := ls_candidate st \<or> is_candidate_line line\<rparr>)"

definition CONF_LINE :: nat where "CONF_LINE = 2048"

text \<open>What is left after a line that did not fit.\<close>

function drain :: "string \<Rightarrow> string" where
  "drain s =
     (if s = [] then []
      else let (l, r) = fgets CONF_LINE s in if NL \<in> set (cstr l) then r else drain r)"
  by pat_completeness auto
termination
proof (relation "measure length")
  fix s l r x
  assume s: "s \<noteq> []" and x: "x = fgets CONF_LINE s" "(l, r) = x"
  have "fst (fgets CONF_LINE s) \<noteq> []" by (rule fgets_consumes) (simp_all add: s CONF_LINE_def)
  then have "l \<noteq> []" using x by (metis fst_conv)
  then show "(r, s) \<in> measure length" using fgets_split [of CONF_LINE s l r] x by simp
qed simp

declare drain.simps [simp del]

lemma drain_length: "length (drain s) \<le> length s"
proof (induction s rule: drain.induct)
  case (1 s)
  obtain l r where lr: "fgets CONF_LINE s = (l, r)" by fastforce
  then have "length r \<le> length s" using fgets_split by fastforce
  then show ?case using 1 [of "(l, r)" l r] lr by (cases "s = []") (auto simp: drain.simps [of s] drain.simps [of "[]"])
qed

text \<open>The bytes after the first NUL of the zeroed buffer.\<close>

definition embedded_nul :: "string \<Rightarrow> bool" where
  "embedded_nul l \<longleftrightarrow> list_ex (\<lambda>c. c \<noteq> NUL) (drop (Suc (length (cstr l))) l)"

function conf_loop :: "lhost \<Rightarrow> bool \<Rightarrow> bool \<Rightarrow> string \<Rightarrow> lstate \<Rightarrow> lstate" where
  "conf_loop h skel parse_only s st =
     (if s = [] then st
      else let (l, r) = fgets CONF_LINE s
           in if embedded_nul l then conf_loop h skel parse_only r (failed st)
              else if length (cstr l) = CONF_LINE - 1 \<and> last l \<noteq> NL
              then conf_loop h skel parse_only (drain r) (failed st)
              else conf_loop h skel parse_only r (conf_line h skel parse_only (cstr l) st))"
  by pat_completeness auto
termination
proof (relation "measure (\<lambda>(_, _, _, s, _). length s)", goal_cases)
  case 1
  show ?case by simp
next
  case (2 h skel parse_only s st x l r)
  then have "fst (fgets CONF_LINE s) \<noteq> []" by (intro fgets_consumes) (simp_all add: CONF_LINE_def)
  then have "l \<noteq> []" using 2 by (metis fst_conv)
  then show ?case using fgets_split [of CONF_LINE s l r] 2 by auto
next
  case (3 h skel parse_only s st x l r)
  then have "fst (fgets CONF_LINE s) \<noteq> []" by (intro fgets_consumes) (simp_all add: CONF_LINE_def)
  then have "l \<noteq> []" using 3 by (metis fst_conv)
  then show ?case using fgets_split [of CONF_LINE s l r] 3 drain_length [of r] by (auto simp: le_less_trans less_add_same_cancel2 intro: le_less_trans)
next
  case (4 h skel parse_only s st x l r)
  then have "fst (fgets CONF_LINE s) \<noteq> []" by (intro fgets_consumes) (simp_all add: CONF_LINE_def)
  then have "l \<noteq> []" using 4 by (metis fst_conv)
  then show ?case using fgets_split [of CONF_LINE s l r] 4 by auto
qed

declare conf_loop.simps [simp del]

section \<open>A load\<close>

record load_opts =
  lo_skel :: bool                \<comment> \<open>the maps are there; else a dry run\<close>
  lo_parse_only :: bool
  lo_allow_empty :: bool
  lo_pin :: bool
  lo_allow_candidate :: bool

definition count_err :: "bool \<Rightarrow> lstate \<Rightarrow> lstate" where
  "count_err bad st = (if bad then failed st else st)"

definition initial_lstate :: "maps \<Rightarrow> lstate" where
  "initial_lstate M =
     \<lparr>ls_ps = \<lparr>ps_actors = [], ps_seals = [], ps_next_slot = 0, ps_gen = 1\<rparr>, ls_maps = M, ls_held = [],
      ls_errs = 0, ls_sealed = 0, ls_candidate = False\<rparr>"

definition validate_profile :: "lhost \<Rightarrow> lstate \<Rightarrow> lstate" where
  "validate_profile h st =
     (let st1 = count_err (\<not> enforce_actor_binaries_sealed (ls_ps st)) st;
          (ok, st2) = strict_validate_launchers h st1
      in count_err (\<not> ok) st2)"

definition populate :: "lhost \<Rightarrow> lstate \<Rightarrow> lstate" where
  "populate h st =
     (case strict_populate_maps h (ls_ps st) (ls_maps st) of
        None \<Rightarrow> failed st
      | Some M \<Rightarrow> st\<lparr>ls_maps := M\<rparr>)"

text \<open>After the loop over the lines: the result and the final state.\<close>

definition conclude_load :: "lhost \<Rightarrow> load_opts \<Rightarrow> lstate \<Rightarrow> int \<times> lstate" where
  "conclude_load h opts st =
     (let st = count_err (\<not> lh_conf_ok h) st;
          st = count_err (ls_candidate st \<and> lo_pin opts \<and> \<not> lo_allow_candidate opts) st;
          st = (if lo_parse_only opts then st else validate_profile h st);
          st = (if lo_skel opts \<and> ls_errs st = 0 then populate h st else st)
      in if ls_errs st \<noteq> 0 then (- 1, st)
         else if ls_sealed st = 0 \<and> \<not> lo_allow_empty opts then (- 1, st)
         else (0, st))"

text \<open>\<^verbatim>\<open>data\<close> is the profile, or \<^term>\<open>None\<close> when it cannot be opened.\<close>

definition load_conf :: "lhost \<Rightarrow> load_opts \<Rightarrow> string option \<Rightarrow> maps \<Rightarrow> int \<times> lstate" where
  "load_conf h opts data M =
     (case data of
        None \<Rightarrow> (- 1, initial_lstate M)
      | Some src \<Rightarrow> conclude_load h opts (conf_loop h (lo_skel opts) (lo_parse_only opts) src (initial_lstate M)))"

end
