(* ===== verification/Seal_Load_Policy.thy ===== *)
theory Seal_Load_Policy
  imports Seal_Loader Subtree_Depth Strict_Launch
begin

text \<open>
  The invariant of a load and what a load that succeeds has checked: entries of the profile and
  values of the maps agree, actor binaries and launchers are sealed for everybody, and strict
  seals are backed by a launcher.  The locale \<^verbatim>\<open>load_invariant\<close> carries an invariant of the two
  writing operations over the loop of lines; the consequences are in \<^verbatim>\<open>Load_Guarantees\<close>.
\<close>

section \<open>Invariants of a load\<close>

text \<open>
  A property of the loader's state that every step of a load keeps as long as no error is
  counted.  The laws are about the two operations that write; the loop over the lines follows.
\<close>

locale load_invariant =
  fixes h :: lhost
    and inv :: "lstate \<Rightarrow> bool"
  assumes inv_counts: "inv st \<Longrightarrow> inv (st\<lparr>ls_candidate := c\<rparr>)" "inv st \<Longrightarrow> inv (st\<lparr>ls_sealed := n\<rparr>)"
    and inv_actor: "inv st \<Longrightarrow> ls_errs st = 0 \<Longrightarrow>
      decl = parse_actor_decl rest (ls_ps st) \<or> decl = parse_actor_strict_decl rest (ls_ps st) \<Longrightarrow>
      ls_errs (actor_declared h False decl st) = 0 \<Longrightarrow> inv (actor_declared h False decl st)"
    and inv_seal: "inv st \<Longrightarrow> ls_errs st = 0 \<Longrightarrow> actor = None \<or> (\<exists>n. actor = profile_find_actor (ls_ps st) n) \<Longrightarrow>
      seal_path h True path flags actor st = (True, st') \<Longrightarrow> inv st'"
begin

definition kept :: "lstate \<Rightarrow> bool" where
  "kept st \<longleftrightarrow> (ls_errs st = 0 \<longrightarrow> inv st)"

lemma kept_failed [simp]: "kept (failed st)"
  by (simp add: kept_def failed_def)

end

text \<open>No step takes an error back.\<close>

lemma failed_errs [simp]: "ls_errs (failed st) = Suc (ls_errs st)"
  by (simp add: failed_def)

lemma seal_path_errs: "ls_errs (snd (seal_path h skel path flags actor st)) = ls_errs st"
  by (auto simp: seal_path_def seal_path_load_def seal_path_dry_def Let_def split: option.splits prod.splits)

lemma actor_declared_errs: "ls_errs st \<le> ls_errs (actor_declared h po decl st)"
  by (auto simp: actor_declared_def Let_def split: option.splits prod.splits)

lemma sealed_one_errs: "ls_errs (snd r) \<le> ls_errs (sealed_one r)"
  by (simp add: sealed_one_def)

lemma seal_line_errs: "ls_errs st \<le> ls_errs (seal_line h skel po rest st)"
proof -
  have "ls_errs st \<le> ls_errs (sealed_one (seal_path h skel path flags actor st))" for path flags actor
    using sealed_one_errs [of "seal_path h skel path flags actor st"] by (simp add: seal_path_errs)
  moreover have "ls_errs st \<le> ls_errs (sealed_one (b, st))" for b using sealed_one_errs [of "(b, st)"] by simp
  ultimately show ?thesis by (auto simp: seal_line_def Let_def split: option.splits prod.splits)
qed

lemma conf_line_errs: "ls_errs st \<le> ls_errs (conf_line h skel po line st)"
  unfolding conf_line_def conf_directive_def
  using actor_declared_errs [of "st\<lparr>ls_candidate := ls_candidate st \<or> is_candidate_line line\<rparr>"]
    seal_line_errs [of "st\<lparr>ls_candidate := ls_candidate st \<or> is_candidate_line line\<rparr>"]
  by (auto split: option.splits prod.splits)

lemma conf_loop_errs: "ls_errs st \<le> ls_errs (conf_loop h skel po s st)"
proof (induction h skel po s st rule: conf_loop.induct)
  case (1 h skel po s st)
  obtain l r where lr: "fgets CONF_LINE s = (l, r)" by fastforce
  have "ls_errs st \<le> ls_errs (conf_line h skel po (cstr l) st)" by (rule conf_line_errs)
  then show ?case using 1 [of "(l, r)" l r] lr by (subst conf_loop.simps) (auto simp: Let_def)
qed

text \<open>A property of states that lines and errors keep holds after the loop.\<close>

lemma conf_loop_keeps:
  "(\<And>st. P (failed st)) \<Longrightarrow> (\<And>line st. P st \<Longrightarrow> P (conf_line h skel po line st)) \<Longrightarrow> P st \<Longrightarrow>
    P (conf_loop h skel po s st)"
proof (induction h skel po s st rule: conf_loop.induct)
  case (1 h skel po s st)
  obtain l r where lr: "fgets CONF_LINE s = (l, r)" by fastforce
  show ?case using 1(1-3) [of "(l, r)" l r] 1(4-6) lr by (subst conf_loop.simps) (auto simp: Let_def)
qed

context load_invariant
begin

lemma kept_seal_line: "kept st \<Longrightarrow> kept (seal_line h True False rest st)"
proof -
  assume st: "kept st"
  have "kept (sealed_one (seal_path h True path flags actor st))"
    if a: "actor = None \<or> (\<exists>n. actor = profile_find_actor (ls_ps st) n)" for path flags actor
  proof (cases "seal_path h True path flags actor st")
    case (Pair ok st')
    then have "ls_errs st' = ls_errs st" using seal_path_errs [of h True path flags actor st] by simp
    then show ?thesis using st inv_seal [OF _ _ a] inv_counts(2) Pair
      by (cases ok) (auto simp: sealed_one_def kept_def)
  qed
  then show ?thesis
    by (auto simp: seal_line_def Let_def split: option.splits prod.splits)
qed

lemma kept_conf_line: "kept st \<Longrightarrow> kept (conf_line h True False line st)"
proof -
  assume "kept st"
  then have st: "kept (st\<lparr>ls_candidate := c\<rparr>)" for c by (simp add: kept_def inv_counts(1))
  have actor: "kept (actor_declared h False decl st')"
    if "kept st'" "decl = parse_actor_decl rest (ls_ps st') \<or> decl = parse_actor_strict_decl rest (ls_ps st')" for decl rest st'
    using that inv_actor [of st' decl rest] actor_declared_errs [of st' h False decl] by (auto simp: kept_def)
  show ?thesis unfolding conf_line_def conf_directive_def
    using actor [OF st] kept_seal_line [OF st] st by (auto split: option.splits prod.splits)
qed

lemma inv_conf_line: "inv st \<Longrightarrow> ls_errs (conf_line h True False line st) = 0 \<Longrightarrow> inv (conf_line h True False line st)"
  using kept_conf_line by (simp add: kept_def)

lemma kept_conf_loop: "inv st \<Longrightarrow> kept (conf_loop h True False s st)"
proof -
  assume "inv st"
  then have "kept st" by (simp add: kept_def)
  then show ?thesis by (rule conf_loop_keeps [rotated 2]) (simp_all add: kept_conf_line)
qed

lemma inv_conf_loop: "inv st \<Longrightarrow> ls_errs (conf_loop h True False s st) = 0 \<Longrightarrow> inv (conf_loop h True False s st)"
  using kept_conf_loop by (simp add: kept_def)

end

section \<open>What the loop over the lines establishes\<close>

text \<open>An inode is a directory or it is not, whatever path leads to it.\<close>

definition launcher_key :: "ustat \<Rightarrow> inode_key" where
  "launcher_key us = \<lparr>ik_dev = push_bit 20 (ucast (us_major us)) OR ucast (us_minor us), ik_ino = us_ino us\<rparr>"

definition one_kind :: "lhost \<Rightarrow> (inode_key \<Rightarrow> bool) \<Rightarrow> bool" where
  "one_kind h kind \<longleftrightarrow>
     (\<forall>p us dev. lh_opath h p = Some (Some us) \<longrightarrow> kernel_dev us = Some dev \<longrightarrow>
        s_isdir us = kind \<lparr>ik_dev = dev, ik_ino = us_ino us\<rparr>) \<and>
     (\<forall>p us. lh_ordonly h p = Some (Some us) \<longrightarrow> s_isdir us = kind (launcher_key us))"

text \<open>A group with one to four binaries, all resolved to something other than a directory.\<close>

definition actor_ready :: "(inode_key \<Rightarrow> bool) \<Rightarrow> actor_group \<Rightarrow> bool" where
  "actor_ready kind ag \<longleftrightarrow>
     (\<exists>bin. ag_bin ag = Some bin \<and> length bin = length (ag_paths ag) \<and> bin \<noteq> [] \<and>
        length bin \<le> COMPARTMENT_MAX_ACTORS_PER_SEAL \<and> (\<forall>k \<in> set bin. \<not> kind k \<and> ik_dev k \<noteq> 0))"

text \<open>A seal for everybody, or one that names the binaries of a declared group.\<close>

definition value_owned :: "profile_state \<Rightarrow> seal_value \<Rightarrow> bool" where
  "value_owned ps sv \<longleftrightarrow>
     (sv_actor_count sv = 0 \<and> sv_flags sv AND SEAL_STRICT_LAUNCH = 0) \<or>
     (\<exists>ag \<in> set (ps_actors ps). \<exists>bin. ag_bin ag = Some bin \<and> bin \<noteq> [] \<and> unat (sv_actor_count sv) = length bin \<and>
        (\<forall>i < length bin. sv_actor sv i = bin ! i) \<and>
        (sv_flags sv AND SEAL_STRICT_LAUNCH \<noteq> 0 \<longrightarrow>
           ag_strict ag \<and> sv_strict_actor_slot sv = ag_slot ag \<and> sv_strict_generation sv = ps_gen ps))"

text \<open>An entry of the profile's own list and the value the map holds for it.\<close>

definition entry_backed :: "(inode_key \<Rightarrow> bool) \<Rightarrow> maps \<Rightarrow> seal_entry \<Rightarrow> bool" where
  "entry_backed kind M se \<longleftrightarrow>
     (\<exists>sv. seal_map (kind (se_key se)) M (se_key se) = Some sv \<and> sv_flags sv = se_flags se \<and>
        (se_has_actor se \<longleftrightarrow> sv_actor_count sv \<noteq> 0))"

definition profile_loaded :: "(inode_key \<Rightarrow> bool) \<Rightarrow> lstate \<Rightarrow> bool" where
  "profile_loaded kind st \<longleftrightarrow>
     (\<forall>ag \<in> set (ps_actors (ls_ps st)). actor_ready kind ag) \<and>
     distinct (map se_key (ps_seals (ls_ps st))) \<and>
     (\<forall>se \<in> set (ps_seals (ls_ps st)). entry_backed kind (ls_maps st) se) \<and>
     (\<forall>d k sv. seal_map d (ls_maps st) k = Some sv \<longrightarrow>
        value_owned (ls_ps st) sv \<and> sealed_devs (ls_maps st) (ik_dev k) \<noteq> None \<and> k \<in> se_key ` set (ps_seals (ls_ps st)))"

subsection \<open>Declarations\<close>

lemma actor_paths_length:
  "actor_paths acc ps = Some r \<Longrightarrow> length acc \<le> COMPARTMENT_MAX_ACTORS_PER_SEAL \<Longrightarrow>
   r \<noteq> [] \<and> length r \<le> COMPARTMENT_MAX_ACTORS_PER_SEAL"
  by (induction ps arbitrary: acc) (auto split: if_splits)

lemma parse_actor_decl_adds:
  assumes "parse_actor_decl rest ps = Some ps'"
  shows "\<exists>ag. ps_actors ps' = ps_actors ps @ [ag] \<and> ps_seals ps' = ps_seals ps \<and> ps_gen ps' = ps_gen ps
    \<and> ag_paths ag \<noteq> [] \<and> length (ag_paths ag) \<le> COMPARTMENT_MAX_ACTORS_PER_SEAL"
  using assms actor_paths_length [of "[]"]
  by (auto simp: parse_actor_decl_def profile_state_add_actor_def split: list.splits if_splits option.splits)

lemma parse_actor_strict_decl_adds:
  assumes "parse_actor_strict_decl rest ps = Some ps'"
  shows "\<exists>ag. ps_actors ps' = ps_actors ps @ [ag] \<and> ps_seals ps' = ps_seals ps \<and> ps_gen ps' = ps_gen ps
    \<and> ag_paths ag \<noteq> [] \<and> length (ag_paths ag) \<le> COMPARTMENT_MAX_ACTORS_PER_SEAL"
  using assms
  by (auto simp: parse_actor_strict_decl_def profile_state_add_actor_def COMPARTMENT_MAX_ACTORS_PER_SEAL_def
      split: list.splits if_splits)

lemma s_isreg_not_dir: "s_isreg us \<Longrightarrow> \<not> s_isdir us"
  by (simp add: s_isreg_def s_isdir_def S_IFREG_def S_IFDIR_def)

lemma kernel_dev_nonzero: "kernel_dev us = Some dev \<Longrightarrow> dev \<noteq> 0"
  by (auto simp: kernel_dev_def Let_def split: if_splits)

lemma actor_resolve_one_kind:
  "one_kind h kind \<Longrightarrow> actor_resolve_one h p = Some k \<Longrightarrow> \<not> kind k \<and> ik_dev k \<noteq> 0"
  unfolding one_kind_def
  by (auto simp: actor_resolve_one_def kernel_dev_nonzero dest: s_isreg_not_dir split: option.splits if_splits)

lemma actor_resolve_paths_ready:
  "one_kind h kind \<Longrightarrow> fst (actor_resolve_paths h ps) = Some bin \<Longrightarrow>
   length bin = length ps \<and> (\<forall>k \<in> set bin. \<not> kind k \<and> ik_dev k \<noteq> 0)"
proof (induction ps arbitrary: bin)
  case (Cons p ps)
  then show ?case
    by (auto simp: actor_resolve_one_kind split: option.splits prod.splits)
qed simp

lemma value_owned_mono:
  "value_owned ps sv \<Longrightarrow> set (ps_actors ps) \<subseteq> set (ps_actors ps') \<Longrightarrow> ps_gen ps' = ps_gen ps \<Longrightarrow> value_owned ps' sv"
  unfolding value_owned_def by (auto 0 4)

lemma value_owned_byI:
  "ag \<in> set (ps_actors ps) \<Longrightarrow> ag_bin ag = Some bin \<Longrightarrow> bin \<noteq> [] \<Longrightarrow> unat (sv_actor_count sv) = length bin \<Longrightarrow>
   \<forall>i < length bin. sv_actor sv i = bin ! i \<Longrightarrow>
   (sv_flags sv AND SEAL_STRICT_LAUNCH \<noteq> 0 \<longrightarrow>
      ag_strict ag \<and> sv_strict_actor_slot sv = ag_slot ag \<and> sv_strict_generation sv = ps_gen ps) \<Longrightarrow>
   value_owned ps sv"
  unfolding value_owned_def by blast

lemma actor_declared_loaded:
  assumes "one_kind h kind" and st: "profile_loaded kind st"
    and decl: "decl = Some ps'" "ps_actors ps' = ps_actors (ls_ps st) @ [ag]" "ps_seals ps' = ps_seals (ls_ps st)"
      "ps_gen ps' = ps_gen (ls_ps st)" "ag_paths ag \<noteq> []" "length (ag_paths ag) \<le> COMPARTMENT_MAX_ACTORS_PER_SEAL"
    and ok: "ls_errs (actor_declared h False decl st) = 0"
  shows "profile_loaded kind (actor_declared h False decl st)"
proof -
  obtain bin held where r: "actor_resolve_paths h (ag_paths ag) = (Some bin, held)"
    using ok decl by (auto simp: actor_declared_def Let_def split: prod.splits if_splits)
  have "actor_ready kind (ag\<lparr>ag_bin := Some bin\<rparr>)"
    using actor_resolve_paths_ready [OF assms(1), of "ag_paths ag" bin] r decl(5,6)
    by (auto simp: actor_ready_def)
  moreover have "value_owned (ps'\<lparr>ps_actors := ps_actors (ls_ps st) @ [ag\<lparr>ag_bin := Some bin\<rparr>]\<rparr>) sv"
    if "value_owned (ls_ps st) sv" for sv
    by (rule value_owned_mono [OF that]) (auto simp: decl)
  ultimately show ?thesis using st decl r
    by (auto simp: profile_loaded_def actor_declared_def Let_def)
qed

subsection \<open>Seal lines\<close>

lemma merge_seal_None: "merge_seal k flags a path ses = None \<longleftrightarrow> k \<notin> se_key ` set ses"
  by (induction ses) auto

lemma merged_entry_key [simp]: "se_key (merged_entry flags a path se) = se_key se"
  by (simp add: merged_entry_def)

lemma merge_seal_keys: "merge_seal k flags a path ses = Some ses' \<Longrightarrow> map se_key ses' = map se_key ses"
  by (induction ses arbitrary: ses') (auto split: if_splits)

lemma merge_seal_entries:
  "merge_seal k flags a path ses = Some ses' \<Longrightarrow> distinct (map se_key ses) \<Longrightarrow> se \<in> set ses' \<Longrightarrow>
   (se_key se \<noteq> k \<and> se \<in> set ses) \<or> (\<exists>old \<in> set ses. se_key old = k \<and> se = merged_entry flags a path old)"
proof (induction ses arbitrary: ses')
  case (Cons e ses)
  have "\<forall>x \<in> set ses. se_key x \<noteq> se_key e" using Cons.prems(2) by (auto simp: image_iff)
  with Cons show ?case by (cases "se_key e = k") auto
qed simp

text \<open>The entries after a record: those of other keys as before, and one with the key.\<close>

lemma record_seal_entries:
  assumes "distinct (map se_key (ps_seals ps))" and "se \<in> set (ps_seals (profile_state_record_seal ps k flags a path))"
  shows "(se_key se \<noteq> k \<and> se \<in> set (ps_seals ps))
    \<or> (\<exists>old \<in> set (ps_seals ps). se_key old = k \<and> se = merged_entry flags a path old)
    \<or> se = \<lparr>se_key = k, se_flags = flags, se_has_actor = a, se_path = Some path\<rparr>"
proof (cases "merge_seal k flags a path (ps_seals ps)")
  case None
  then show ?thesis using assms(2)
    by (auto simp: profile_state_record_seal_def) (metis imageI merge_seal_None)
next
  case (Some ses)
  then show ?thesis using merge_seal_entries [OF Some assms(1), of se] assms(2)
    by (auto simp: profile_state_record_seal_def)
qed

lemma record_seal_frame [simp]:
  "ps_actors (profile_state_record_seal ps k flags a path) = ps_actors ps"
  "ps_gen (profile_state_record_seal ps k flags a path) = ps_gen ps"
  by (simp_all add: profile_state_record_seal_def)

lemma record_seal_distinct:
  "distinct (map se_key (ps_seals ps)) \<Longrightarrow>
   distinct (map se_key (ps_seals (profile_state_record_seal ps k flags a path)))"
  using merge_seal_keys [of k flags a path "ps_seals ps"] merge_seal_None [of k flags a path "ps_seals ps"]
  by (auto simp: profile_state_record_seal_def split: option.splits)

lemma record_seal_keys:
  "insert k (se_key ` set (ps_seals ps)) \<subseteq> se_key ` set (ps_seals (profile_state_record_seal ps k flags a path))"
proof (cases "merge_seal k flags a path (ps_seals ps)")
  case None
  then show ?thesis by (auto simp: profile_state_record_seal_def)
next
  case (Some ses)
  then have "k \<in> se_key ` set (ps_seals ps)" using merge_seal_None [of k flags a path "ps_seals ps"] by auto
  then show ?thesis using arg_cong [OF merge_seal_keys [OF Some], of set] by (simp add: profile_state_record_seal_def Some)
qed

lemma seal_map_set:
  "seal_map d (set_seal_map e k sv M) = (if d = e then (seal_map d M)(k \<mapsto> sv) else seal_map d M)"
  by (simp add: seal_map_def set_seal_map_def)

lemma seal_map_devs [simp]: "seal_map d (M\<lparr>sealed_devs := v\<rparr>) = seal_map d M"
  "sealed_devs (set_seal_map e k sv M) = sealed_devs M"
  by (simp_all add: seal_map_def set_seal_map_def)

lemma record_sealed_dev_Some:
  "record_sealed_dev h dev M = Some M' \<Longrightarrow> \<exists>n. M' = M\<lparr>sealed_devs := (sealed_devs M)(dev \<mapsto> n)\<rparr>"
  by (auto simp: record_sealed_dev_def Let_def split: if_splits)

lemma unat_count: "n \<le> COMPARTMENT_MAX_ACTORS_PER_SEAL \<Longrightarrow> unat (of_nat n :: u8) = n"
  by (simp add: unat_of_nat take_bit_eq_mod COMPARTMENT_MAX_ACTORS_PER_SEAL_def)

lemma build_seal_value_owned:
  assumes "build_seal_value ps flags actor = Some sv" and "\<forall>ag \<in> set (ps_actors ps). actor_ready kind ag"
    and "actor = None \<or> (\<exists>ag \<in> set (ps_actors ps). actor = Some ag)"
  shows "value_owned ps sv \<and> sv_flags sv = flags \<and> (sv_actor_count sv = 0 \<longleftrightarrow> actor = None)"
proof (cases actor)
  case None
  then show ?thesis using assms(1) by (auto simp: build_seal_value_def Let_def value_owned_def split: if_splits)
next
  case (Some ag)
  with assms obtain bin where ag: "ag \<in> set (ps_actors ps)" "ag_bin ag = Some bin" "length bin = length (ag_paths ag)"
      "bin \<noteq> []" "length bin \<le> COMPARTMENT_MAX_ACTORS_PER_SEAL"
    by (auto simp: actor_ready_def)
  have n: "unat (sv_actor_count sv) = length bin" and f: "sv_flags sv = flags"
    using assms(1) ag unat_count [OF ag(5)]
    by (auto simp: build_seal_value_def Let_def Some split: if_splits)
  have a: "(\<forall>i < length bin. sv_actor sv i = bin ! i)"
    "flags AND SEAL_STRICT_LAUNCH \<noteq> 0 \<longrightarrow> ag_strict ag \<and> sv_strict_actor_slot sv = ag_slot ag \<and> sv_strict_generation sv = ps_gen ps"
    using assms(1) ag by (auto simp: build_seal_value_def Let_def Some split: if_splits)
  have "sv_actor_count sv \<noteq> 0" using n ag(4) by (metis length_0_conv unsigned_0)
  then show ?thesis using value_owned_byI [OF ag(1,2,4) n a(1)] a(2) f by (simp add: Some)
qed

lemma merge_value_uniform:
  "merge_value (Some p) sv = Some sv' \<Longrightarrow> sv_actor_count p = 0 \<and> sv_actor_count sv = 0"
  by (simp add: merge_value_def split: if_splits)

lemma merge_value_owned:
  assumes "merge_value prev sv = Some sv'" and "value_owned ps sv" and "\<forall>p. prev = Some p \<longrightarrow> value_owned ps p"
  shows "value_owned ps sv' \<and> sv_actor_count sv' = sv_actor_count sv
    \<and> sv_flags sv' = (case prev of None \<Rightarrow> sv_flags sv | Some p \<Rightarrow> sv_flags sv OR sv_flags p)"
proof (cases prev)
  case None
  then show ?thesis using assms by (simp add: merge_value_def)
next
  case (Some p)
  have plain: "v = 0 \<Longrightarrow> sv_actor_count w = v \<Longrightarrow> value_owned ps w \<Longrightarrow> sv_flags w AND SEAL_STRICT_LAUNCH = 0" for v w
    by (auto simp: value_owned_def)
  then show ?thesis using assms Some
    by (auto simp: merge_value_def value_owned_def bit.conj_disj_distrib2 split: if_splits)
qed

text \<open>A seal that was taken: its key, the value in the map and the entry.\<close>

lemma seal_path_taken:
  assumes "seal_path h True path flags actor st = (True, st')"
  obtains k d sv0 sv n where "resolve_seal_target h path = Some (k, d)"
    and "build_seal_value (ls_ps st) flags actor = Some sv0"
    and "merge_value (seal_map d (ls_maps st) k) sv0 = Some sv"
    and "ls_maps st' = (set_seal_map d k sv (ls_maps st))\<lparr>sealed_devs := (sealed_devs (ls_maps st))(ik_dev k \<mapsto> n)\<rparr>"
    and "ls_ps st' = profile_state_record_seal (ls_ps st) k (sv_flags sv) (actor \<noteq> None) path"
    and "ls_held st' = k # ls_held st"
proof -
  obtain k d where r: "resolve_seal_target h path = Some (k, d)" "seal_path_load h path flags actor k d st = (True, st')"
    using assms by (auto simp: seal_path_def split: if_splits option.splits)
  obtain sv0 sv M where s: "build_seal_value (ls_ps st) flags actor = Some sv0"
      "merge_value (seal_map d (ls_maps st) k) sv0 = Some sv"
      "record_sealed_dev h (ik_dev k) (set_seal_map d k sv (ls_maps st)) = Some M"
    and st': "st' = st\<lparr>ls_maps := M, ls_held := k # ls_held st,
                 ls_ps := profile_state_record_seal (ls_ps st) k (sv_flags sv) (actor \<noteq> None) path\<rparr>"
    using r(2) by (auto simp: seal_path_load_def Let_def split: option.splits if_splits)
  obtain n where "M = (set_seal_map d k sv (ls_maps st))\<lparr>sealed_devs := (sealed_devs (ls_maps st))(ik_dev k \<mapsto> n)\<rparr>"
    using record_sealed_dev_Some [OF s(3)] by auto
  then show thesis using that [OF r(1) s(1,2)] st' by simp
qed

lemma profile_find_actor_in: "profile_find_actor ps n = Some ag \<Longrightarrow> ag \<in> set (ps_actors ps)"
  by (simp add: profile_find_actor_def find_SomeD)

lemma resolve_seal_target_kind:
  "one_kind h kind \<Longrightarrow> resolve_seal_target h path = Some (k, d) \<Longrightarrow> d = kind k"
  unfolding one_kind_def by (auto simp: resolve_seal_target_def split: option.splits if_splits)

lemma or_absorb_flags: "(a OR (b OR a)) = b OR (a :: u32)"
  by (simp add: ac_simps)

lemma seal_taken_backed:
  assumes st: "profile_loaded kind st" and k: "d = kind k"
    and sv: "merge_value (seal_map d (ls_maps st) k) sv0 = Some sv" "sv_actor_count sv = 0 \<longleftrightarrow> actor = None"
      "sv_flags sv = (case seal_map d (ls_maps st) k of None \<Rightarrow> sv_flags sv0 | Some p \<Rightarrow> sv_flags sv0 OR sv_flags p)"
    and M': "seal_map d M' = (seal_map d (ls_maps st))(k \<mapsto> sv)" "seal_map (\<not> d) M' = seal_map (\<not> d) (ls_maps st)"
    and se: "se \<in> set (ps_seals (profile_state_record_seal (ls_ps st) k (sv_flags sv) (actor \<noteq> None) path))"
  shows "entry_backed kind M' se"
proof -
  have dist: "distinct (map se_key (ps_seals (ls_ps st)))"
    and old: "\<And>e. e \<in> set (ps_seals (ls_ps st)) \<Longrightarrow> entry_backed kind (ls_maps st) e"
    using st by (simp_all add: profile_loaded_def)
  have other: "seal_map (kind j) M' j = seal_map (kind j) (ls_maps st) j" if "j \<noteq> k" for j
    using that M' by (cases "kind j = d") auto
  consider "se_key se \<noteq> k" "se \<in> set (ps_seals (ls_ps st))"
    | e where "e \<in> set (ps_seals (ls_ps st))" "se_key e = k" "se = merged_entry (sv_flags sv) (actor \<noteq> None) path e"
    | "se = \<lparr>se_key = k, se_flags = sv_flags sv, se_has_actor = (actor \<noteq> None), se_path = Some path\<rparr>"
    using record_seal_entries [OF dist se] by blast
  then show ?thesis
  proof cases
    case 1
    then show ?thesis using old [of se] other by (simp add: entry_backed_def)
  next
    case (2 e)
    then show ?thesis using old [OF 2(1)] k M' sv
      by (auto simp: entry_backed_def merged_entry_def or_absorb_flags dest: merge_value_uniform)
  next
    case 3
    then show ?thesis using k M' sv by (simp add: entry_backed_def)
  qed
qed

lemma seal_path_loaded:
  assumes one: "one_kind h kind" and st: "profile_loaded kind st"
    and actor: "actor = None \<or> (\<exists>n. actor = profile_find_actor (ls_ps st) n)"
    and "seal_path h True path flags actor st = (True, st')"
  shows "profile_loaded kind st'"
proof -
  from assms(4) obtain k d sv0 sv n where r: "resolve_seal_target h path = Some (k, d)"
    and b: "build_seal_value (ls_ps st) flags actor = Some sv0"
    and m: "merge_value (seal_map d (ls_maps st) k) sv0 = Some sv"
    and M': "ls_maps st' = (set_seal_map d k sv (ls_maps st))\<lparr>sealed_devs := (sealed_devs (ls_maps st))(ik_dev k \<mapsto> n)\<rparr>"
    and ps': "ls_ps st' = profile_state_record_seal (ls_ps st) k (sv_flags sv) (actor \<noteq> None) path"
    by (rule seal_path_taken)
  have ready: "\<forall>ag \<in> set (ps_actors (ls_ps st)). actor_ready kind ag" using st by (simp add: profile_loaded_def)
  have "actor = None \<or> (\<exists>ag \<in> set (ps_actors (ls_ps st)). actor = Some ag)"
    using actor profile_find_actor_in by (cases actor) metis+
  note own = build_seal_value_owned [OF b ready this]
  have "\<forall>p. seal_map d (ls_maps st) k = Some p \<longrightarrow> value_owned (ls_ps st) p"
    using st by (auto simp: profile_loaded_def)
  note mrg = merge_value_owned [OF m _ this]
  have sm: "seal_map e (ls_maps st') = (if e = d then (seal_map e (ls_maps st))(k \<mapsto> sv) else seal_map e (ls_maps st))" for e
    by (simp add: M' seal_map_set)
  have keep: "value_owned (ls_ps st') w" if "value_owned (ls_ps st) w" for w
    by (rule value_owned_mono [OF that]) (simp_all add: ps')
  show ?thesis unfolding profile_loaded_def
  proof (intro conjI ballI allI impI)
    show "actor_ready kind ag" if "ag \<in> set (ps_actors (ls_ps st'))" for ag
      using that ready by (simp add: ps')
    show "distinct (map se_key (ps_seals (ls_ps st')))"
      using st by (simp add: ps' record_seal_distinct profile_loaded_def)
    have keys: "insert k (se_key ` set (ps_seals (ls_ps st))) \<subseteq> se_key ` set (ps_seals (ls_ps st'))"
      unfolding ps' by (rule record_seal_keys)
    show "entry_backed kind (ls_maps st') se" if "se \<in> set (ps_seals (ls_ps st'))" for se
      by (rule seal_taken_backed [OF st resolve_seal_target_kind [OF one r] m])
        (use that own mrg sm in \<open>simp_all add: ps'\<close>)
    fix e j w assume "seal_map e (ls_maps st') j = Some w"
    then have "(j = k \<and> w = sv) \<or> seal_map e (ls_maps st) j = Some w" by (auto simp: sm split: if_splits)
    then show "value_owned (ls_ps st') w" "sealed_devs (ls_maps st') (ik_dev j) \<noteq> None"
        "j \<in> se_key ` set (ps_seals (ls_ps st'))"
      using st keep own mrg keys by (auto simp: profile_loaded_def M')
  qed
qed

interpretation load_policy: load_invariant h "\<lambda>st. one_kind h kind \<longrightarrow> profile_loaded kind st" for h kind
proof
  fix st :: lstate and c n rest decl
  show "one_kind h kind \<longrightarrow> profile_loaded kind (st\<lparr>ls_candidate := c\<rparr>)"
    "one_kind h kind \<longrightarrow> profile_loaded kind (st\<lparr>ls_sealed := n\<rparr>)"
    if "one_kind h kind \<longrightarrow> profile_loaded kind st"
    using that by (simp_all add: profile_loaded_def)
  assume st: "one_kind h kind \<longrightarrow> profile_loaded kind st"
    and decl: "decl = parse_actor_decl rest (ls_ps st) \<or> decl = parse_actor_strict_decl rest (ls_ps st)"
    and ok: "ls_errs (actor_declared h False decl st) = 0"
  from ok obtain ps' where ps': "decl = Some ps'" by (cases decl) (auto simp: actor_declared_def)
  obtain ag where "ps_actors ps' = ps_actors (ls_ps st) @ [ag]" "ps_seals ps' = ps_seals (ls_ps st)"
      "ps_gen ps' = ps_gen (ls_ps st)" "ag_paths ag \<noteq> []" "length (ag_paths ag) \<le> COMPARTMENT_MAX_ACTORS_PER_SEAL"
    using parse_actor_decl_adds [of rest "ls_ps st" ps'] parse_actor_strict_decl_adds [of rest "ls_ps st" ps'] decl ps' by auto
  then show "one_kind h kind \<longrightarrow> profile_loaded kind (actor_declared h False decl st)"
    using actor_declared_loaded [OF _ _ ps'] st ok by blast
next
  fix st st' :: lstate and actor path flags
  assume "one_kind h kind \<longrightarrow> profile_loaded kind st"
    and "actor = None \<or> (\<exists>n. actor = profile_find_actor (ls_ps st) n)"
    and "seal_path h True path flags actor st = (True, st')"
  then show "one_kind h kind \<longrightarrow> profile_loaded kind st'" using seal_path_loaded by blast
qed

section \<open>A load that succeeds\<close>

definition no_seals :: "maps \<Rightarrow> bool" where
  "no_seals M \<longleftrightarrow> sealed_inodes M = Map.empty \<and> sealed_dirs M = Map.empty \<and> launcher_to_actor M = Map.empty"

definition real_load :: "load_opts \<Rightarrow> bool" where
  "real_load opts \<longleftrightarrow> lo_skel opts \<and> \<not> lo_parse_only opts"

lemma count_err_ok: "ls_errs (count_err bad st) = 0 \<longleftrightarrow> \<not> bad \<and> ls_errs st = 0"
  by (simp add: count_err_def)

lemma count_err_good [simp]: "\<not> bad \<Longrightarrow> count_err bad st = st"
  by (simp add: count_err_def)

text \<open>What passed, in the order of \<^verbatim>\<open>load_conf\<close>: the lines, the two validations, the population.\<close>

lemma load_conf_succeeds:
  assumes load: "load_conf h opts (Some src) M = (0, st)" and real: "real_load opts"
  obtains st0 where "st0 = conf_loop h True False src (initial_lstate M)" and "ls_errs st0 = 0"
    and "enforce_actor_binaries_sealed (ls_ps st0)"
    and "list_all (snd \<circ> validate_if_strict h (ls_ps st0)) (ps_actors (ls_ps st0))"
    and "ls_ps st = (ls_ps st0)\<lparr>ps_actors := map (fst \<circ> validate_if_strict h (ls_ps st0)) (ps_actors (ls_ps st0))\<rparr>"
    and "strict_populate_maps h (ls_ps st) (ls_maps st0) = Some (ls_maps st)"
    and "set (ls_held st0) \<subseteq> set (ls_held st)"
proof -
  let ?st0 = "conf_loop h True False src (initial_lstate M)"
  let ?st1 = "count_err (\<not> lh_conf_ok h) ?st0"
  let ?st2 = "count_err (ls_candidate ?st1 \<and> lo_pin opts \<and> \<not> lo_allow_candidate opts) ?st1"
  let ?st3 = "validate_profile h ?st2"
  have st: "st = (if ls_errs ?st3 = 0 then populate h ?st3 else ?st3)" "ls_errs st = 0"
    using load real by (auto simp: load_conf_def conclude_load_def Let_def real_load_def split: if_splits)
  then have ok3: "ls_errs ?st3 = 0" by (auto split: if_splits)
  obtain ok st2' where v: "strict_validate_launchers h (count_err (\<not> enforce_actor_binaries_sealed (ls_ps ?st2)) ?st2) = (ok, st2')"
    by fastforce
  have e2: "ls_errs st2' = ls_errs (count_err (\<not> enforce_actor_binaries_sealed (ls_ps ?st2)) ?st2)"
    using v by (auto simp: strict_validate_launchers_def Let_def)
  have c: "ok" "enforce_actor_binaries_sealed (ls_ps ?st2)" "ls_errs ?st2 = 0"
    using ok3 v e2 by (auto simp: validate_profile_def Let_def count_err_ok)
  then have st20: "?st2 = ?st0" "ls_errs ?st0 = 0" by (auto simp: count_err_ok)
  have st3: "?st3 = st2'" using v c by (simp add: validate_profile_def)
  have vs: "strict_validate_launchers h ?st0 = (True, st2')" using v c st20 by simp
  have pop: "strict_populate_maps h (ls_ps st2') (ls_maps st2') = Some (ls_maps st)" "ls_ps st = ls_ps st2'"
    "ls_held st = ls_held st2'"
    using st ok3 st3 by (auto simp: populate_def split: option.splits)
  show thesis
  proof (rule that [OF refl st20(2)])
    show "enforce_actor_binaries_sealed (ls_ps ?st0)" using c(2) st20(1) by simp
    show "list_all (snd \<circ> validate_if_strict h (ls_ps ?st0)) (ps_actors (ls_ps ?st0))"
      "ls_ps st = (ls_ps ?st0)\<lparr>ps_actors := map (fst \<circ> validate_if_strict h (ls_ps ?st0)) (ps_actors (ls_ps ?st0))\<rparr>"
      "strict_populate_maps h (ls_ps st) (ls_maps ?st0) = Some (ls_maps st)" "set (ls_held ?st0) \<subseteq> set (ls_held st)"
      using vs pop by (auto simp: strict_validate_launchers_def Let_def list.pred_map comp_def)
  qed
qed

lemma initial_loaded: "no_seals M \<Longrightarrow> profile_loaded kind (initial_lstate M)"
  by (simp add: profile_loaded_def initial_lstate_def no_seals_def seal_map_def)

lemma lines_loaded:
  assumes "one_kind h kind" and "no_seals M" and "ls_errs (conf_loop h True False src (initial_lstate M)) = 0"
  shows "profile_loaded kind (conf_loop h True False src (initial_lstate M))"
  using load_policy.inv_conf_loop [of h kind "initial_lstate M" src] initial_loaded [OF assms(2)] assms(1,3)
  by blast

lemma validate_frame:
  "ag_bin (fst (validate_if_strict h ps ag)) = ag_bin ag" "ag_strict (fst (validate_if_strict h ps ag)) = ag_strict ag"
  "ag_slot (fst (validate_if_strict h ps ag)) = ag_slot ag" "ag_launcher (fst (validate_if_strict h ps ag)) = ag_launcher ag"
  by (auto simp: validate_if_strict_def validate_launcher_def Let_def split: option.splits)

lemma validate_first_bin: "first_bin (fst (validate_if_strict h ps ag)) = first_bin ag"
  by (simp add: first_bin_def validate_frame)

text \<open>Population writes nothing but the launchers and the policy state.\<close>

lemma populate_launchers_frame:
  "populate_launchers h gen ags (M, l) = Some (M', l') \<Longrightarrow>
   seal_map d M' = seal_map d M \<and> sealed_devs M' = sealed_devs M \<and> actor_marker_map M' = actor_marker_map M"
proof (induction ags arbitrary: M l)
  case (Cons ag ags)
  then show ?case by (auto simp: seal_map_def split: if_splits option.splits)
qed simp

lemma strict_populate_frame:
  "strict_populate_maps h ps M = Some M' \<Longrightarrow>
   seal_map d M' = seal_map d M \<and> sealed_devs M' = sealed_devs M \<and> actor_marker_map M' = actor_marker_map M"
  using populate_launchers_frame [of h "ps_gen ps" "ps_actors ps" M 0 _ _ d]
  by (auto simp: strict_populate_maps_def seal_map_def split: option.splits if_splits)

text \<open>A binary of a group is sealed fully and for everybody.\<close>

definition sealed_for_all :: "maps \<Rightarrow> inode_key \<Rightarrow> bool" where
  "sealed_for_all M k \<longleftrightarrow>
     (\<exists>sv. sealed_inodes M k = Some sv \<and> sealed_full (sv_flags sv) \<and> sv_actor_count sv = 0)"

lemma enforced_binary:
  assumes "profile_loaded kind st" and "enforce_actor_binaries_sealed (ls_ps st)"
    and "ag \<in> set (ps_actors (ls_ps st))" and "ag_bin ag = Some bin" and "k \<in> set bin"
  shows "sealed_for_all (ls_maps st) k"
proof -
  have ready: "length bin = length (ag_paths ag)" "\<not> kind k"
    using assms(1,3-5) by (auto simp: profile_loaded_def actor_ready_def)
  then obtain p where "(k, p) \<in> set (zip bin (ag_paths ag))"
    using assms(5) by (metis in_set_impl_in_set_zip1)
  then have "actor_binary_sealed (ls_ps st) k p"
    using assms(2-4) by (fastforce simp: enforce_actor_binaries_sealed_def list_all_iff)
  then obtain se where se: "se \<in> set (ps_seals (ls_ps st))" "se_key se = k" "sealed_full (se_flags se)" "\<not> se_has_actor se"
    by (auto simp: actor_binary_sealed_def dest!: find_SomeD split: option.splits)
  then show ?thesis using assms(1) ready(2)
    by (auto simp: profile_loaded_def entry_backed_def sealed_for_all_def seal_map_def)
qed

subsection \<open>Sealed for everybody\<close>

lemma sealed_full_iff: "sealed_full flags \<longleftrightarrow> flags AND SEAL_FULL = SEAL_FULL"
proof
  assume "sealed_full flags"
  moreover have "SEAL_FULL = (SEAL_FULL AND NOT flags) OR (SEAL_FULL AND flags)"
    by (simp flip: bit.conj_disj_distrib)
  ultimately show "flags AND SEAL_FULL = SEAL_FULL" by (simp add: sealed_full_def and.commute)
next
  assume "flags AND SEAL_FULL = SEAL_FULL"
  then have "SEAL_FULL AND NOT flags = (SEAL_FULL AND flags) AND NOT flags" by (simp add: and.commute)
  then show "sealed_full flags" by (simp add: sealed_full_def and.assoc)
qed

lemma full_has_flag:
  assumes "sealed_full flags" and "m AND SEAL_FULL = m" and "m \<noteq> 0"
  shows "flags AND m \<noteq> 0"
proof -
  have "flags AND m = (flags AND SEAL_FULL) AND m" using assms(2) by (metis and.assoc and.commute)
  then show ?thesis using assms by (simp add: sealed_full_iff and.commute)
qed

lemma sealed_for_all_denies:
  assumes "sealed_for_all M k" and "inode_key_of K (Some n) = k" and "ik_dev k \<noteq> 0"
    and "m AND SEAL_FULL = m" and "m \<noteq> 0"
  shows "inode_denied K M (Some n) m"
proof -
  obtain sv where sv: "sealed_inodes M k = Some sv" "sealed_full (sv_flags sv)" "sv_actor_count sv = 0"
    using assms(1) by (auto simp: sealed_for_all_def)
  then have "seal_denies K M sv m" using full_has_flag [OF sv(2) assms(4,5)] by (simp add: seal_denies_def)
  then show ?thesis using assms(2,3) sv(1) by (simp add: inode_denied_def opt_denies_def Let_def)
qed

text \<open>Every change of a file sealed in this way is refused, whoever asks.\<close>

definition file_changes :: "addr \<Rightarrow> addr \<Rightarrow> addr option \<Rightarrow> lsm_call list" where
  "file_changes e f other =
     [Unlink (Some e), Rename (Some e) other, Rename other (Some e), Link (Some e) other, Setattr (Some e) ATTR_MODE,
      Setattr (Some e) ATTR_SIZE, Setxattr (Some e), Removexattr (Some e), Set_acl (Some e), Remove_acl (Some e),
      Permission (Some f) MAY_WRITE, Truncate (Some f), Mmap (Some f) 0 PROT_WRITE MAP_SHARED,
      Mprotect (Some f) VM_SHARED PROT_WRITE, Mount \<lparr>p_mnt = None, p_dentry = Some e\<rparr> MS_BIND]"

lemma sealed_for_all_immutable:
  assumes "sealed_for_all M k" and "inode_key_of K (Some n) = k" and "ik_dev k \<noteq> 0"
    and "dentry_inode K (Some e) = Some n" and "file_inode K (Some f) = Some n"
  shows "list_all (lsm_denied K M) (file_changes e f other)"
proof -
  note denied = sealed_for_all_denies [OF assms(1-3)]
  have "inode_denied K M (Some n) SEAL_NO_UNLINK" "inode_denied K M (Some n) SEAL_NO_WRITE"
    "inode_denied K M (Some n) SEAL_NO_CHMOD" "inode_denied K M (Some n) SEAL_FULL"
    "inode_denied K M (Some n) (SEAL_NO_RENAME OR SEAL_NO_UNLINK)"
    "inode_denied K M (Some n) (SEAL_NO_RENAME OR SEAL_NO_UNLINK OR SEAL_NO_WRITE)"
    by (rule denied; simp add: seal_flag_defs)+
  then show ?thesis using assms(4,5)
    by (simp add: file_changes_def unlink_denied_def rename_denied_def link_denied_def setattr_denied_def attr_write_def
        attr_chmod_own_def chmod_denied_def write_denied_def mount_denied_def attr_defs MAY_WRITE_def PROT_WRITE_def
        MAP_SHARED_def VM_SHARED_def attaches_def path_mount_op_def MS_BIND_def MS_REMOUNT_def)
qed

lemma loaded_actor_sealed:
  assumes "load_conf h opts (Some src) M = (0, st)" and "real_load opts" and "no_seals M" and "one_kind h kind"
    and "seal_map d (ls_maps st) k = Some sv" and "i < unat (sv_actor_count sv)"
  shows "sealed_for_all (ls_maps st) (sv_actor sv i) \<and> ik_dev (sv_actor sv i) \<noteq> 0"
proof -
  obtain st0 where st0: "st0 = conf_loop h True False src (initial_lstate M)" "ls_errs st0 = 0"
    "enforce_actor_binaries_sealed (ls_ps st0)" "strict_populate_maps h (ls_ps st) (ls_maps st0) = Some (ls_maps st)"
    by (rule load_conf_succeeds [OF assms(1,2)])
  have loaded: "profile_loaded kind st0" using lines_loaded [OF assms(4,3)] st0(1,2) by simp
  note frame = strict_populate_frame [OF st0(4)]
  have "value_owned (ls_ps st0) sv" using loaded assms(5) frame by (auto simp: profile_loaded_def)
  then obtain ag bin where ag: "ag \<in> set (ps_actors (ls_ps st0))" "ag_bin ag = Some bin" "sv_actor sv i \<in> set bin"
    using assms(6) by (auto simp: value_owned_def) (metis nth_mem)+
  have "sealed_for_all (ls_maps st0) (sv_actor sv i)" by (rule enforced_binary [OF loaded st0(3) ag])
  then have "sealed_for_all (ls_maps st) (sv_actor sv i)"
    using frame [of False] by (simp add: sealed_for_all_def seal_map_def)
  moreover have "ik_dev (sv_actor sv i) \<noteq> 0" using loaded ag by (auto simp: profile_loaded_def actor_ready_def)
  ultimately show ?thesis by simp
qed

subsection \<open>Strict launches\<close>

lemma first_bin_Some: "first_bin ag = Some k \<Longrightarrow> \<exists>bin. ag_bin ag = Some bin \<and> k \<in> set bin"
  by (auto simp: first_bin_def split: option.splits list.splits)

text \<open>A launcher that passed: statically linked, sealed for everybody, and not the target itself.\<close>

definition launcher_trusted :: "lhost \<Rightarrow> maps \<Rightarrow> inode_key \<Rightarrow> inode_key \<Rightarrow> bool" where
  "launcher_trusted h M l target \<longleftrightarrow>
     l \<noteq> target \<and> sealed_for_all M l \<and>
     (\<exists>path us. lh_ordonly h path = Some (Some us) \<and> launcher_key us = l \<and> s_isreg us \<and>
        us_mode us AND (S_IWGRP OR S_IWOTH) = 0 \<and> elf_has_interp (lh_bytes h path) = 0)"

lemma validated_launcher:
  assumes "snd (validate_launcher h ps ag)" and "first_bin ag = Some target"
  obtains path us se where "lh_ordonly h path = Some (Some us)"
    and "ag_launcher_key (fst (validate_launcher h ps ag)) = launcher_key us"
    and "s_isreg us" "us_mode us AND (S_IWGRP OR S_IWOTH) = 0" "elf_has_interp (lh_bytes h path) = 0"
    and "launcher_key us \<noteq> target"
    and "se \<in> set (ps_seals ps)" "se_key se = launcher_key us" "sealed_full (se_flags se)" "\<not> se_has_actor se"
proof -
  obtain path us where p: "ag_launcher ag = Some path" "lh_ordonly h path = Some (Some us)"
    using assms(1) by (auto simp: validate_launcher_def split: option.splits)
  let ?full = "\<lambda>se. se_key se = launcher_key us \<and> se_flags se AND SEAL_FULL = SEAL_FULL"
  have c: "s_isreg us" "us_mode us AND (S_IWGRP OR S_IWOTH) = 0" "elf_has_interp (lh_bytes h path) = 0"
    and d: "launcher_key us \<noteq> target" and k: "ag_launcher_key (fst (validate_launcher h ps ag)) = launcher_key us"
    using assms p by (auto simp: validate_launcher_def Let_def launcher_key_def [symmetric] split: if_splits option.splits)
  obtain se where se: "find ?full (rev (ps_seals ps)) = Some se" "\<not> se_has_actor se"
    using assms p by (auto simp: validate_launcher_def Let_def launcher_key_def [symmetric] split: if_splits option.splits)
  then show thesis using that [OF p(2) k c d, of se] find_SomeD [OF se(1)] by (simp add: sealed_full_iff)
qed

lemma populate_launchers_entries:
  "populate_launchers h gen ags (M, l) = Some (M', l') \<Longrightarrow> launcher_to_actor M' k = Some la \<Longrightarrow>
   launcher_to_actor M k = Some la \<or>
   (\<exists>ag \<in> set ags. ag_strict ag \<and> ag_launcher_key ag = k \<and> first_bin ag = Some (la_target la) \<and>
      ag_slot ag = la_actor_slot la \<and> la_policy_generation la = gen)"
proof (induction ags arbitrary: M l)
  case (Cons ag ags)
  then show ?case by (fastforce split: if_splits option.splits)
qed simp

lemma populate_launchers_loaded:
  "populate_launchers h gen ags (M, l) = Some (M', l') \<Longrightarrow> l = 1 \<or> (\<exists>ag \<in> set ags. ag_strict ag) \<Longrightarrow> l' = 1"
proof (induction ags arbitrary: M l)
  case (Cons ag ags)
  then show ?case by (auto split: if_splits option.splits)
qed simp

lemma strict_populate_launchers:
  assumes "strict_populate_maps h ps M = Some M'" and "launcher_to_actor M = Map.empty"
  shows "launcher_to_actor M' k = Some la \<Longrightarrow> \<exists>ag \<in> set (ps_actors ps). ag_strict ag \<and> ag_launcher_key ag = k \<and>
      first_bin ag = Some (la_target la) \<and> ag_slot ag = la_actor_slot la"
    and "ag \<in> set (ps_actors ps) \<Longrightarrow> ag_strict ag \<Longrightarrow> cur_strict_loaded M' \<noteq> 0"
proof -
  obtain N l where N: "populate_launchers h (ps_gen ps) (ps_actors ps) (M, 0) = Some (N, l)"
    and M': "M' = N\<lparr>policy_state_map := Some \<lparr>ps_generation = ps_gen ps, ps_strict_loaded = l\<rparr>\<rparr>"
    using assms(1) by (auto simp: strict_populate_maps_def split: option.splits if_splits)
  show "\<exists>ag \<in> set (ps_actors ps). ag_strict ag \<and> ag_launcher_key ag = k \<and>
      first_bin ag = Some (la_target la) \<and> ag_slot ag = la_actor_slot la" if "launcher_to_actor M' k = Some la"
    using populate_launchers_entries [OF N, of k la] that assms(2) by (auto simp: M')
  show "cur_strict_loaded M' \<noteq> 0" if "ag \<in> set (ps_actors ps)" "ag_strict ag"
  proof -
    have "l = 1" using populate_launchers_loaded [OF N] that by blast
    then show ?thesis by (simp add: M' cur_strict_loaded_def)
  qed
qed

text \<open>The lines touch neither launchers nor markers.\<close>

definition bare_of_launchers :: "maps \<Rightarrow> maps \<Rightarrow> bool" where
  "bare_of_launchers M N \<longleftrightarrow> launcher_to_actor N = launcher_to_actor M \<and> actor_marker_map N = actor_marker_map M"

lemma actor_declared_maps [simp]: "ls_maps (actor_declared h po decl st) = ls_maps st"
  by (auto simp: actor_declared_def failed_def Let_def split: option.splits prod.splits)

interpretation lines_bare: load_invariant h "\<lambda>st. bare_of_launchers M (ls_maps st)" for h M
proof
  fix st st' :: lstate and actor path flags
  assume "bare_of_launchers M (ls_maps st)" and "seal_path h True path flags actor st = (True, st')"
  then show "bare_of_launchers M (ls_maps st')"
    by (elim seal_path_taken) (simp add: bare_of_launchers_def set_seal_map_def)
qed simp_all

lemma slm_step_frame: "slm_step s s' \<Longrightarrow> \<exists>mm. sl_maps s' = (sl_maps s)\<lparr>actor_marker_map := mm\<rparr>"
  by (erule slm_stepE) (auto dest!: committed_frame task_alloc_frame intro: exI [of _ "actor_marker_map (sl_maps s)"])

lemma slm_steps_frame: "slm_step\<^sup>*\<^sup>* s s' \<Longrightarrow> \<exists>mm. sl_maps s' = (sl_maps s)\<lparr>actor_marker_map := mm\<rparr>"
proof (induction rule: rtranclp_induct)
  case base
  show ?case by (rule exI [of _ "actor_marker_map (sl_maps s)"]) simp
next
  case (step s' s'')
  then show ?case using slm_step_frame [of s' s''] by auto
qed

lemma slm_steps_reachable: "slm_step\<^sup>*\<^sup>* s s' \<Longrightarrow> slm_initial s \<Longrightarrow> slm_reachable s'"
  by (induction rule: rtranclp_induct) (auto intro: slm_reachable.intros)

text \<open>The launchers of a loaded profile, and that a strict seal of it arms the markers.\<close>

lemma loaded_launchers:
  assumes "load_conf h opts (Some src) M = (0, st)" and "real_load opts" and "no_seals M" and "one_kind h kind"
  shows "launcher_to_actor (ls_maps st) l = Some la \<Longrightarrow>
      launcher_trusted h (ls_maps st) l (la_target la) \<and> sealed_for_all (ls_maps st) (la_target la)"
    and "seal_map d (ls_maps st) k = Some sv \<Longrightarrow> sv_flags sv AND SEAL_STRICT_LAUNCH \<noteq> 0 \<Longrightarrow>
      cur_strict_loaded (ls_maps st) \<noteq> 0"
    and "actor_marker_map (ls_maps st) = actor_marker_map M"
proof -
  obtain st0 where st0: "st0 = conf_loop h True False src (initial_lstate M)" "ls_errs st0 = 0"
    "enforce_actor_binaries_sealed (ls_ps st0)"
    "list_all (snd \<circ> validate_if_strict h (ls_ps st0)) (ps_actors (ls_ps st0))"
    "ls_ps st = (ls_ps st0)\<lparr>ps_actors := map (fst \<circ> validate_if_strict h (ls_ps st0)) (ps_actors (ls_ps st0))\<rparr>"
    "strict_populate_maps h (ls_ps st) (ls_maps st0) = Some (ls_maps st)"
    by (rule load_conf_succeeds [OF assms(1,2)])
  have loaded: "profile_loaded kind st0" using lines_loaded [OF assms(4,3)] st0(1,2) by simp
  have bare: "bare_of_launchers M (ls_maps st0)"
    using lines_bare.inv_conf_loop [of M "initial_lstate M" h src] st0(1,2)
    by (simp add: bare_of_launchers_def initial_lstate_def)
  then have empty: "launcher_to_actor (ls_maps st0) = Map.empty" using assms(3) by (simp add: bare_of_launchers_def no_seals_def)
  note frame = strict_populate_frame [OF st0(6)] and new = strict_populate_launchers [OF st0(6) empty]
  have same: "sealed_for_all (ls_maps st) = sealed_for_all (ls_maps st0)"
    using frame [of False] by (simp add: sealed_for_all_def fun_eq_iff seal_map_def)
  show "actor_marker_map (ls_maps st) = actor_marker_map M" using frame [of False] bare by (simp add: bare_of_launchers_def)
  show "cur_strict_loaded (ls_maps st) \<noteq> 0"
    if sv: "seal_map d (ls_maps st) k = Some sv" "sv_flags sv AND SEAL_STRICT_LAUNCH \<noteq> 0"
  proof -
    have "value_owned (ls_ps st0) sv" using loaded sv frame by (auto simp: profile_loaded_def)
    then obtain ag where "ag \<in> set (ps_actors (ls_ps st0))" "ag_strict ag" using sv(2) by (auto simp: value_owned_def)
    then show ?thesis using new(2) [of "fst (validate_if_strict h (ls_ps st0) ag)"] st0(5) by (simp add: validate_frame)
  qed
  assume "launcher_to_actor (ls_maps st) l = Some la"
  then obtain ag where "ag \<in> set (ps_actors (ls_ps st0))" "ag_strict ag"
      "ag_launcher_key (fst (validate_if_strict h (ls_ps st0) ag)) = l" "first_bin ag = Some (la_target la)"
    using new(1) [of l la] st0(5) by (auto simp: validate_frame validate_first_bin)
  then have ag: "ag \<in> set (ps_actors (ls_ps st0))" "ag_strict ag"
      "ag_launcher_key (fst (validate_launcher h (ls_ps st0) ag)) = l" "first_bin ag = Some (la_target la)"
    by (simp_all add: validate_if_strict_def)
  then have ok: "snd (validate_launcher h (ls_ps st0) ag)" using st0(4) by (auto simp: list_all_iff validate_if_strict_def)
  obtain path us se where v: "lh_ordonly h path = Some (Some us)" "l = launcher_key us" "s_isreg us"
      "us_mode us AND (S_IWGRP OR S_IWOTH) = 0" "elf_has_interp (lh_bytes h path) = 0" "l \<noteq> la_target la"
      "se \<in> set (ps_seals (ls_ps st0))" "se_key se = l" "sealed_full (se_flags se)" "\<not> se_has_actor se"
    by (rule validated_launcher [OF ok ag(4)]) (use ag(3) in simp)
  have "\<not> kind l" using assms(4) v(1-3) s_isreg_not_dir unfolding one_kind_def by blast
  then have "sealed_for_all (ls_maps st0) l" using loaded v(7-10)
    by (auto simp: profile_loaded_def entry_backed_def sealed_for_all_def seal_map_def)
  moreover obtain bin where "ag_bin ag = Some bin" "la_target la \<in> set bin" using first_bin_Some [OF ag(4)] by blast
  then have "sealed_for_all (ls_maps st0) (la_target la)" by (rule enforced_binary [OF loaded st0(3) ag(1)])
  ultimately show "launcher_trusted h (ls_maps st) l (la_target la) \<and> sealed_for_all (ls_maps st) (la_target la)"
    using v by (auto simp: launcher_trusted_def same)
qed

end
