(* ===== verification/Load_Guarantees.thy ===== *)
theory Load_Guarantees
  imports Seal_Load_Policy
begin

text \<open>
  The guarantees of a loaded seal profile, from the profile text to the decisions of the LSM
  programs: what is protected for everybody, who passes a strict seal, how deep the tree may be,
  what a dry run says about a load, and where the parser differs from its description.
\<close>

section \<open>Depth\<close>

text \<open>Every sealed directory was walked.\<close>

definition dirs_walked :: "lhost \<Rightarrow> maps \<Rightarrow> bool" where
  "dirs_walked h M \<longleftrightarrow> (\<forall>k sv. sealed_dirs M k = Some sv \<longrightarrow> (\<exists>path. resolve_seal_target h path = Some (k, True)))"

interpretation lines_walked: load_invariant h "\<lambda>st. dirs_walked h (ls_maps st)" for h
proof
  fix st st' :: lstate and actor path flags
  assume old: "dirs_walked h (ls_maps st)" and "seal_path h True path flags actor st = (True, st')"
  from this(2) obtain k d sv n where k: "resolve_seal_target h path = Some (k, d)"
    and M': "ls_maps st' = (set_seal_map d k sv (ls_maps st))\<lparr>sealed_devs := (sealed_devs (ls_maps st))(ik_dev k \<mapsto> n)\<rparr>"
    by (rule seal_path_taken)
  show "dirs_walked h (ls_maps st')" using old k unfolding dirs_walked_def M' set_seal_map_def by (cases d) auto
qed simp_all

lemma loaded_walked:
  assumes "load_conf h opts (Some src) M = (0, st)" and "real_load opts" and "no_seals M"
  shows "dirs_walked h (ls_maps st)"
proof -
  obtain st0 where st0: "st0 = conf_loop h True False src (initial_lstate M)" "ls_errs st0 = 0"
    "strict_populate_maps h (ls_ps st) (ls_maps st0) = Some (ls_maps st)"
    by (rule load_conf_succeeds [OF assms(1,2)])
  have "dirs_walked h (ls_maps st0)"
    using lines_walked.inv_conf_loop [of h "initial_lstate M" src] st0(1,2) assms(3)
    by (simp add: dirs_walked_def initial_lstate_def no_seals_def)
  then show ?thesis using strict_populate_frame [OF st0(3), of True] by (simp add: dirs_walked_def seal_map_def)
qed

text \<open>
  What \<^verbatim>\<open>nftw\<close> promises of a walk it completes: below a dentry of the directory it started at, every
  directory is visited at its level.
\<close>

definition walk_complete :: "lhost \<Rightarrow> kernel \<Rightarrow> bool" where
  "walk_complete h K \<longleftrightarrow>
     (\<forall>path k D j d. resolve_seal_target h path = Some (k, True) \<longrightarrow> inode_key_of K (dentry_inode K (Some D)) = k \<longrightarrow>
        climb K j (Some d) = Some D \<longrightarrow> is_dir K d \<longrightarrow>
        (\<exists>w \<in> set (fst (lh_walk h path)). we_level w = j \<and> s_isdir (we_stat w)))"

lemma resolve_validated:
  "resolve_seal_target h path = Some (k, True) \<Longrightarrow> validate_recursive_dir_seal h path"
  by (auto simp: resolve_seal_target_def split: option.splits if_splits)

lemma flagged_dir:
  assumes "flagged K M SEAL_NO_WRITE D"
  shows "\<exists>sv. sealed_dirs M (inode_key_of K (dentry_inode K (Some D))) = Some sv"
  using assms
  by (auto simp: flagged_def dir_entry_def Let_def dentry_inode_def split: option.splits if_splits)

lemma loaded_depth_ok:
  assumes "dirs_walked h M" and "walk_complete h K"
  shows "depth_ok K M"
  unfolding depth_ok_def
proof (intro allI impI)
  fix d j assume d: "is_dir K d" and "nearest K M (Some d) j"
  then obtain D where D: "climb K j (Some d) = Some D" "flagged K M SEAL_NO_WRITE D" using nearest_climb by blast
  obtain path where path: "resolve_seal_target h path = Some (inode_key_of K (dentry_inode K (Some D)), True)"
    using flagged_dir [OF D(2)] assms(1) unfolding dirs_walked_def by blast
  then obtain w where w: "w \<in> set (fst (lh_walk h path))" "we_level w = j" "s_isdir (we_stat w)"
    using assms(2) D(1) d unfolding walk_complete_def by blast
  have "dir_subtree_check_cb w"
    using resolve_validated [OF path] w(1) by (auto simp: validate_recursive_dir_seal_def list_all_iff)
  then show "j < COMPARTMENT_MAX_DIR_ANCESTORS"
    using w(2,3) by (auto simp: dir_subtree_check_cb_def COMPARTMENT_MAX_DIR_ANCESTORS_def)
qed

section \<open>Seals only grow\<close>

definition seals_kept :: "maps \<Rightarrow> maps \<Rightarrow> bool" where
  "seals_kept M N \<longleftrightarrow>
     (\<forall>d k sv. seal_map d M k = Some sv \<longrightarrow> (\<exists>sv'. seal_map d N k = Some sv' \<and> sv_flags sv AND NOT (sv_flags sv') = 0))"

lemma seals_kept_refl [simp]: "seals_kept M M"
  by (simp add: seals_kept_def)

lemma and_not_trans: "a AND NOT b = 0 \<Longrightarrow> b AND NOT c = 0 \<Longrightarrow> a AND NOT c = (0 :: u32)"
  by (simp add: bit_eq_iff bit_and_iff bit_not_iff)

lemma seals_kept_trans: "seals_kept M N \<Longrightarrow> seals_kept N L \<Longrightarrow> seals_kept M L"
  unfolding seals_kept_def using and_not_trans by metis

lemma merge_value_flags:
  "merge_value prev sv = Some sv' \<Longrightarrow> sv_flags sv AND NOT (sv_flags sv') = 0 \<and>
   (\<forall>p. prev = Some p \<longrightarrow> sv_flags p AND NOT (sv_flags sv') = 0)"
  by (auto simp: merge_value_def bit_eq_iff bit_and_iff bit_not_iff bit_or_iff split: option.splits if_splits)

lemma seal_path_keeps_seals:
  assumes "seal_path h True path flags actor st = (True, st')"
  shows "seals_kept (ls_maps st) (ls_maps st')"
proof -
  from assms obtain k d sv0 sv n where m: "merge_value (seal_map d (ls_maps st) k) sv0 = Some sv"
    and M': "ls_maps st' = (set_seal_map d k sv (ls_maps st))\<lparr>sealed_devs := (sealed_devs (ls_maps st))(ik_dev k \<mapsto> n)\<rparr>"
    by (rule seal_path_taken)
  then show ?thesis using merge_value_flags [OF m] by (auto simp: seals_kept_def seal_map_set)
qed

text \<open>Between two states of a load: no seal is lost or weakened, no inode is let go.\<close>

definition grown :: "lstate \<Rightarrow> lstate \<Rightarrow> bool" where
  "grown st st' \<longleftrightarrow> seals_kept (ls_maps st) (ls_maps st') \<and> set (ls_held st) \<subseteq> set (ls_held st')"

lemma grown_trans: "grown a b \<Longrightarrow> grown b c \<Longrightarrow> grown a c"
  unfolding grown_def using seals_kept_trans by blast

lemma actor_declared_held: "set (ls_held st) \<subseteq> set (ls_held (actor_declared h po decl st))"
  by (auto simp: actor_declared_def failed_def Let_def split: option.splits prod.splits)

lemma seal_path_grown: "seal_path h True path flags actor st = (True, st') \<Longrightarrow> grown st st'"
  using seal_path_keeps_seals by (auto simp: grown_def elim!: seal_path_taken)

interpretation lines_grow: load_invariant h "\<lambda>st. grown st0 st" for h st0
proof
  fix st st' :: lstate and actor path flags decl
  assume st: "grown st0 st"
  show "grown st0 (actor_declared h False decl st)"
    using st actor_declared_held [of st h False decl] by (auto simp: grown_def)
  show "grown st0 st'" if "seal_path h True path flags actor st = (True, st')"
    using st seal_path_grown [OF that] by (rule grown_trans)
qed (simp_all add: grown_def)

section \<open>Lines\<close>

text \<open>A profile of lines that fit is processed line by line, in order.\<close>

definition plain_line :: "string \<Rightarrow> bool" where
  "plain_line l \<longleftrightarrow> NL \<notin> set l \<and> NUL \<notin> set l \<and> length l < CONF_LINE - 1"

definition unlines :: "string list \<Rightarrow> string" where
  "unlines ls = concat (map (\<lambda>l. l @ [NL]) ls)"

definition run_lines :: "lhost \<Rightarrow> bool \<Rightarrow> bool \<Rightarrow> string list \<Rightarrow> lstate \<Rightarrow> lstate" where
  "run_lines h skel po ls st = fold (\<lambda>l. conf_line h skel po (l @ [NL])) ls st"

lemma conf_loop_line:
  assumes "plain_line l"
  shows "conf_loop h skel po (l @ NL # s) st = conf_loop h skel po s (conf_line h skel po (l @ [NL]) st)"
proof -
  have f: "fgets CONF_LINE (l @ NL # s) = (l @ [NL], s)"
    using assms by (intro fgets_newline) (simp_all add: plain_line_def)
  have c: "cstr (l @ [NL]) = l @ [NL]" "\<not> embedded_nul (l @ [NL])"
    using assms by (simp_all add: plain_line_def embedded_nul_def)
  show ?thesis by (subst conf_loop.simps) (simp add: f c)
qed

lemma conf_loop_lines:
  "\<forall>l \<in> set ls. plain_line l \<Longrightarrow> conf_loop h skel po (unlines ls @ s) st = conf_loop h skel po s (run_lines h skel po ls st)"
  by (induction ls arbitrary: st) (simp_all add: unlines_def run_lines_def conf_loop_line)

lemma conf_loop_Nil [simp]: "conf_loop h skel po [] st = st"
  by (simp add: conf_loop.simps)

lemma run_lines_errs: "ls_errs st \<le> ls_errs (run_lines h skel po ls st)"
proof (induction ls arbitrary: st)
  case (Cons l ls)
  show ?case using conf_line_errs [of st h skel po "l @ [NL]"] Cons [of "conf_line h skel po (l @ [NL]) st"]
    by (simp add: run_lines_def)
qed (simp add: run_lines_def)

text \<open>A seal line that is taken, and what it leaves in the maps.\<close>

lemma seal_line_taken:
  assumes "strtok is_tok_sep rest = Some (target, spec)" and "parse_flagspec spec = Some (flags, name)"
    and "ls_errs (seal_line h True False rest st) = 0"
  obtains k d sv where "resolve_seal_target h target = Some (k, d)"
    and "seal_map d (ls_maps (seal_line h True False rest st)) k = Some sv"
    and "flags AND NOT (sv_flags sv) = 0" and "k \<in> set (ls_held (seal_line h True False rest st))"
proof -
  let ?actor = "case name of None \<Rightarrow> None | Some n \<Rightarrow> profile_find_actor (ls_ps st) n"
  have line: "seal_line h True False rest st = sealed_one (seal_path h True target flags ?actor st)"
    using assms by (auto simp: seal_line_def Let_def split: if_splits)
  obtain st' where p: "seal_path h True target flags ?actor st = (True, st')"
    using assms(3) unfolding line by (cases "seal_path h True target flags ?actor st") (auto simp: sealed_one_def split: if_splits)
  then obtain k d sv0 sv n where r: "resolve_seal_target h target = Some (k, d)"
    and b: "build_seal_value (ls_ps st) flags ?actor = Some sv0"
    and m: "merge_value (seal_map d (ls_maps st) k) sv0 = Some sv"
    and M': "ls_maps st' = (set_seal_map d k sv (ls_maps st))\<lparr>sealed_devs := (sealed_devs (ls_maps st))(ik_dev k \<mapsto> n)\<rparr>"
    and held: "ls_held st' = k # ls_held st"
    by (rule seal_path_taken)
  have "sv_flags sv0 = flags"
    using b by (auto simp: build_seal_value_def Let_def split: option.splits if_splits)
  then show thesis using that [OF r, of sv] merge_value_flags [OF m] M' held
    by (simp add: line p sealed_one_def seal_map_set)
qed

section \<open>A profile with a strict seal\<close>

text \<open>
  The small system of \<^verbatim>\<open>Seal_Policy\<close> on disk: the editor is inode 19, its launcher inode 13, and
  the sealed directory inode 12 of device 5.
\<close>

definition demo_stat :: "u32 \<Rightarrow> u64 \<Rightarrow> ustat" where
  "demo_stat mode ino = \<lparr>us_mode = mode, us_major = 0, us_minor = 5, us_ino = ino, us_nlink = 1, us_size = 120\<rparr>"

definition demo_files :: "string \<Rightarrow> ustat option option" where
  "demo_files p =
     (if p = ''/bin/ed'' then Some (Some (demo_stat 0x81ED 19))
      else if p = ''/bin/run'' then Some (Some (demo_stat 0x81ED 13))
      else if p = ''/etc'' then Some (Some (demo_stat 0x41ED 12))
      else if p = ''/bin'' then Some (Some (demo_stat 0x41ED 11))
      else None)"

text \<open>A 64-bit ELF file with one program header, of type \<^verbatim>\<open>PT_LOAD\<close>.\<close>

definition static_elf :: "nat list" where
  "static_elf = [0x7f, 69, 76, 70, 2] @ replicate 27 0 @ [64] @ replicate 21 0 @ [56, 0, 1, 0] @ replicate 6 0 @ [1] @ replicate 55 0"

definition seal_host :: lhost where
  "seal_host =
     \<lparr>lh_opath = demo_files, lh_odir = demo_files, lh_ordonly = demo_files, lh_fstype = (\<lambda>_. Some 0xEF53),
      lh_bytes = (\<lambda>_. static_elf),
      lh_walk = (\<lambda>_. (map (\<lambda>n. \<lparr>we_type = FTW_OTHER, we_stat = demo_stat 0x41ED 12, we_level = n\<rparr>) [0, 1], True)),
      lh_lookup_ok = (\<lambda>_. True), lh_update_ok = (\<lambda>_. True), lh_dev_ok = (\<lambda>_. True), lh_launcher_ok = (\<lambda>_. True),
      lh_state_ok = True, lh_conf_ok = True\<rparr>"

definition demo_profile :: "string list" where
  "demo_profile =
     [''actor-strict ed = /bin/ed launcher=/bin/run'', ''seal /bin/ed full'', ''seal /bin/run full'',
      ''seal /etc no-write,strict-launch actor=ed  # configuration'']"

definition demo_opts :: load_opts where
  "demo_opts = \<lparr>lo_skel = True, lo_parse_only = False, lo_allow_empty = False, lo_pin = True, lo_allow_candidate = False\<rparr>"

definition bare_maps :: maps where
  "bare_maps = demo_maps\<lparr>sealed_dirs := Map.empty, sealed_devs := Map.empty, policy_state_map := None\<rparr>"

definition demo_loaded :: lstate where
  "demo_loaded = snd (load_conf seal_host demo_opts (Some (unlines demo_profile)) bare_maps)"

definition demo_kind :: "inode_key \<Rightarrow> bool" where
  "demo_kind k \<longleftrightarrow> ik_ino k \<in> {11, 12}"

lemma load_conf_lines:
  "\<forall>l \<in> set ls. plain_line l \<Longrightarrow>
   load_conf h opts (Some (unlines ls)) M = conclude_load h opts (run_lines h (lo_skel opts) (lo_parse_only opts) ls (initial_lstate M))"
  using conf_loop_lines [of ls h "lo_skel opts" "lo_parse_only opts" "[]" "initial_lstate M"] by (simp add: load_conf_def)

lemma demo_plain: "\<forall>l \<in> set demo_profile. plain_line l"
  by (simp add: demo_profile_def plain_line_def CONF_LINE_def)

lemma demo_loads: "load_conf seal_host demo_opts (Some (unlines demo_profile)) bare_maps = (0, demo_loaded)"
proof -
  have "fst (conclude_load seal_host demo_opts (run_lines seal_host True False demo_profile (initial_lstate bare_maps))) = 0"
    by code_simp
  then show ?thesis unfolding demo_loaded_def load_conf_lines [OF demo_plain]
    by (simp add: demo_opts_def prod_eq_iff)
qed

lemma demo_loaded_eq:
  "demo_loaded = snd (conclude_load seal_host demo_opts (run_lines seal_host True False demo_profile (initial_lstate bare_maps)))"
  unfolding demo_loaded_def load_conf_lines [OF demo_plain] by (simp add: demo_opts_def)

lemma demo_seal_loaded:
  "map_option sv_flags (sealed_dirs (ls_maps demo_loaded) \<lparr>ik_dev = 5, ik_ino = 12\<rparr>) = Some 0x24"
  "map_option sv_actor_count (sealed_dirs (ls_maps demo_loaded) \<lparr>ik_dev = 5, ik_ino = 12\<rparr>) = Some 1"
  "map_option (\<lambda>sv. sv_actor sv 0) (sealed_dirs (ls_maps demo_loaded) \<lparr>ik_dev = 5, ik_ino = 12\<rparr>) = Some \<lparr>ik_dev = 5, ik_ino = 19\<rparr>"
  "map_option sv_strict_actor_slot (sealed_dirs (ls_maps demo_loaded) \<lparr>ik_dev = 5, ik_ino = 12\<rparr>) = Some 1"
  "map_option sv_strict_generation (sealed_dirs (ls_maps demo_loaded) \<lparr>ik_dev = 5, ik_ino = 12\<rparr>) = Some 1"
  unfolding demo_loaded_eq by code_simp+

lemma demo_launchers_loaded:
  "launcher_to_actor (ls_maps demo_loaded) \<lparr>ik_dev = 5, ik_ino = 13\<rparr> =
     Some \<lparr>la_target = \<lparr>ik_dev = 5, ik_ino = 19\<rparr>, la_actor_slot = 1, la_policy_generation = 1\<rparr>"
  "launcher_to_actor (ls_maps demo_loaded) \<lparr>ik_dev = 5, ik_ino = 19\<rparr> = None"
  "cur_strict_loaded (ls_maps demo_loaded) = 1" "cur_strict_generation (ls_maps demo_loaded) = 1"
  unfolding demo_loaded_eq by code_simp+

lemma seal_host_facts: "real_load demo_opts" "no_seals bare_maps"
  by (simp_all add: real_load_def demo_opts_def no_seals_def bare_maps_def demo_maps_def)

lemma demo_one_kind: "one_kind seal_host demo_kind"
  unfolding one_kind_def
proof (intro conjI allI impI)
  fix p us dev
  assume "lh_opath seal_host p = Some (Some us)"
  then show "s_isdir us = demo_kind \<lparr>ik_dev = dev, ik_ino = us_ino us\<rparr>"
    by (auto simp: seal_host_def demo_files_def demo_stat_def s_isdir_def S_IFMT_def S_IFDIR_def demo_kind_def split: if_splits)
next
  fix p us
  assume "lh_ordonly seal_host p = Some (Some us)"
  then show "s_isdir us = demo_kind (launcher_key us)"
    by (auto simp: seal_host_def demo_files_def demo_stat_def s_isdir_def S_IFMT_def S_IFDIR_def demo_kind_def launcher_key_def
        split: if_splits)
qed

section \<open>Properties\<close>

text \<open>
  C8: no profile that loads leaves an actor unprotected: whatever binary a loaded seal lets
  through, every change of that binary (unlinking, renaming it or over it, linking, changing its
  size, mode, attributes or ACLs, writing, truncating, mapping it shared-writable, mounting over
  it) is refused to every caller, the actor itself included.
\<close>

theorem loaded_actors_immutable:
  assumes "load_conf h opts (Some src) M = (0, st)" and "real_load opts" and "no_seals M" and "one_kind h kind"
    and "seal_map d (ls_maps st) k = Some sv" and "i < unat (sv_actor_count sv)"
    and "inode_key_of K (Some n) = sv_actor sv i"
    and "dentry_inode K (Some e) = Some n" and "file_inode K (Some f) = Some n"
  shows "list_all (lsm_denied K (ls_maps st)) (file_changes e f other)"
  using loaded_actor_sealed [OF assms(1-6)] sealed_for_all_immutable [OF _ assms(7) _ assms(8,9)] by blast

theorem loaded_actors_immutable_witness:
  "list_all (lsm_denied demo_kernel (ls_maps demo_loaded)) (file_changes 9 9 None)"
proof -
  obtain sv where sv: "seal_map True (ls_maps demo_loaded) \<lparr>ik_dev = 5, ik_ino = 12\<rparr> = Some sv"
      "sv_actor_count sv = 1" "sv_actor sv 0 = \<lparr>ik_dev = 5, ik_ino = 19\<rparr>"
    using demo_seal_loaded by (auto simp: seal_map_def)
  show ?thesis
    by (rule loaded_actors_immutable [OF demo_loads seal_host_facts demo_one_kind sv(1), where i = 0 and n = 19])
      (simp_all add: sv demo_kernel_def inode_key_of_def sb_dev_def dentry_inode_def file_inode_def)
qed

text \<open>
  C7: what a strict-launch seal of a loaded profile promises, from the profile text on: once
  the profile is loaded, a caller the seal lets through runs the declared target, it or a process it
  was forked from executed a launcher that is statically linked, not group- or
  world-writable and different from the target, and nothing but the target since; and neither the
  launcher nor the target can be changed by anybody.
\<close>

theorem loaded_strict_provenance:
  assumes "load_conf h opts (Some src) M = (0, st)" and "real_load opts" and "no_seals M" and "one_kind h kind"
    and "actor_marker_map M = Map.empty" and "sl_maps s0 = ls_maps st" and "\<forall>t. sl_hist s0 t = []" and "slm_step\<^sup>*\<^sup>* s0 s"
    and "seal_map d (ls_maps st) k = Some sv" and "sv_flags sv AND SEAL_STRICT_LAUNCH \<noteq> 0" and "sv_flags sv AND msk \<noteq> 0"
    and "k_current K = Some t" and "caller_key K = sl_exe s t" and "\<not> seal_denies K (sl_maps s) sv msk"
  shows "\<exists>target l n rest. sl_exe s t = Some target \<and> sl_hist s t = replicate n target @ l # rest
    \<and> launcher_trusted h (ls_maps st) l target \<and> sealed_for_all (ls_maps st) target"
proof -
  note loaded = loaded_launchers [OF assms(1-4)]
  have "slm_initial s0" using loaded(2) [OF assms(9,10)] loaded(3) assms(5-7) by (simp add: slm_initial_def)
  then have reach: "slm_reachable s" by (rule slm_steps_reachable [OF assms(8)])
  obtain mm where maps: "sl_maps s = (ls_maps st)\<lparr>actor_marker_map := mm\<rparr>" using slm_steps_frame [OF assms(8)] assms(6) by auto
  have "marker_ok K (sl_maps s) sv" using assms(10,11,14) by (simp add: seal_denies_def)
  then obtain target am where t: "sl_exe s t = Some target" "actor_marker_map (sl_maps s) t = Some am"
      "am_state am \<noteq> 0" "am_target am = target"
    using assms(12,13) by (auto simp: marker_ok_def split: option.splits)
  then have "launched (ls_maps st) (sl_hist s t) target (am_actor_slot am)"
    using invariant_reachable [OF reach] maps unfolding marker_invariant_def by auto
  then obtain n l rest la where l: "sl_hist s t = replicate n target @ l # rest" "launcher_to_actor (ls_maps st) l = Some la"
      "la_target la = target"
    unfolding launched_def by blast
  then show ?thesis using t(1) loaded(1) [OF l(2)] by auto
qed

text \<open>Witness: task 7 executes the launcher and then the editor.\<close>

definition demo_slm :: slm where
  "demo_slm = \<lparr>sl_maps = ls_maps demo_loaded, sl_tm = demo_tele, sl_exe = (\<lambda>_. None), sl_hist = (\<lambda>_. [])\<rparr>"

definition demo_marker :: actor_marker where
  "demo_marker = \<lparr>am_target = \<lparr>ik_dev = 5, ik_ino = 19\<rparr>, am_actor_slot = 1, am_policy_generation = 1, am_state = 1\<rparr>"

definition demo_slm2 :: slm where
  "demo_slm2 = \<lparr>sl_maps = (ls_maps demo_loaded)\<lparr>actor_marker_map := [7 \<mapsto> demo_marker]\<rparr>,
     sl_tm = bump marker_set_total demo_tele, sl_exe = (\<lambda>_. None)(7 := Some \<lparr>ik_dev = 5, ik_ino = 19\<rparr>),
     sl_hist = (\<lambda>_. [])(7 := [\<lparr>ik_dev = 5, ik_ino = 19\<rparr>, \<lparr>ik_dev = 5, ik_ino = 13\<rparr>])\<rparr>"

lemma demo_steps: "slm_step\<^sup>*\<^sup>* demo_slm demo_slm2"
proof -
  have k: "inode_key_of demo_kernel (Some 13) = \<lparr>ik_dev = 5, ik_ino = 13\<rparr>"
    "inode_key_of demo_kernel (Some 19) = \<lparr>ik_dev = 5, ik_ino = 19\<rparr>"
    by (simp_all add: inode_key_of_def demo_kernel_def sb_dev_def)
  have f: "file_inode demo_kernel (Some 3) = Some 13" "file_inode demo_kernel (Some 9) = Some 19"
    and c: "k_current demo_kernel = Some 7" "k_storage_ok demo_kernel"
    by (simp_all add: file_inode_def demo_kernel_def)
  have none: "actor_marker_map (ls_maps demo_loaded) = Map.empty"
    using loaded_launchers(3) [OF demo_loads seal_host_facts demo_one_kind] by (simp add: bare_maps_def demo_maps_def)
  let ?M = "(ls_maps demo_loaded)\<lparr>actor_marker_map := [7 \<mapsto> demo_marker]\<rparr>"
  let ?s1 = "demo_slm\<lparr>sl_maps := ?M, sl_tm := bump marker_set_total demo_tele,
      sl_exe := (sl_exe demo_slm)(7 := Some (inode_key_of demo_kernel (Some 13))),
      sl_hist := (sl_hist demo_slm)(7 := inode_key_of demo_kernel (Some 13) # sl_hist demo_slm 7)\<rparr>"
  have e1: "comp_bprm_committed_creds demo_kernel (Some 3) (ls_maps demo_loaded, demo_tele) = (?M, bump marker_set_total demo_tele)"
    by (simp add: comp_bprm_committed_creds_def f c k storage_available_def demo_marker_def demo_launchers_loaded none)
  have e2: "comp_bprm_committed_creds demo_kernel (Some 9) (?M, tm) = (?M, tm)" for tm
    by (simp add: comp_bprm_committed_creds_def f c k demo_marker_def demo_launchers_loaded)
  have "slm_step demo_slm ?s1" by (rule slm_step.exec [OF c(1) f(1)]) (simp add: demo_slm_def e1)
  moreover have "slm_step ?s1 (?s1\<lparr>sl_maps := ?M, sl_tm := bump marker_set_total demo_tele,
      sl_exe := (sl_exe ?s1)(7 := Some (inode_key_of demo_kernel (Some 19))),
      sl_hist := (sl_hist ?s1)(7 := inode_key_of demo_kernel (Some 19) # sl_hist ?s1 7)\<rparr>)"
    by (rule slm_step.exec [OF c(1) f(2)]) (simp add: demo_slm_def e2)
  then have "slm_step ?s1 demo_slm2" by (simp add: demo_slm2_def demo_slm_def k)
  ultimately show ?thesis by (meson r_into_rtranclp rtranclp.rtrancl_into_rtrancl)
qed

theorem loaded_strict_provenance_witness:
  "\<exists>sv target l n rest. sealed_dirs (ls_maps demo_loaded) \<lparr>ik_dev = 5, ik_ino = 12\<rparr> = Some sv
    \<and> \<not> seal_denies demo_kernel (sl_maps demo_slm2) sv SEAL_NO_WRITE
    \<and> sl_exe demo_slm2 7 = Some target \<and> sl_hist demo_slm2 7 = replicate n target @ l # rest
    \<and> launcher_trusted seal_host (ls_maps demo_loaded) l target"
proof -
  obtain sv where sv: "sealed_dirs (ls_maps demo_loaded) \<lparr>ik_dev = 5, ik_ino = 12\<rparr> = Some sv" "sv_flags sv = 0x24"
      "sv_actor_count sv = 1" "sv_actor sv 0 = \<lparr>ik_dev = 5, ik_ino = 19\<rparr>" "sv_strict_actor_slot sv = 1"
      "sv_strict_generation sv = 1"
    using demo_seal_loaded by auto
  have key: "caller_key demo_kernel = Some \<lparr>ik_dev = 5, ik_ino = 19\<rparr>" "k_current demo_kernel = Some 7"
    by (simp_all add: caller_key_def demo_kernel_def file_inode_def inode_key_of_def sb_dev_def)
  have nd: "\<not> seal_denies demo_kernel (sl_maps demo_slm2) sv SEAL_NO_WRITE"
    by (simp add: seal_denies_def sv actor_ok_def marker_ok_def key demo_slm2_def demo_marker_def
        demo_launchers_loaded COMPARTMENT_MAX_ACTORS_PER_SEAL_def)
  have "\<exists>target l n rest. sl_exe demo_slm2 7 = Some target \<and> sl_hist demo_slm2 7 = replicate n target @ l # rest
      \<and> launcher_trusted seal_host (ls_maps demo_loaded) l target \<and> sealed_for_all (ls_maps demo_loaded) target"
    by (rule loaded_strict_provenance [OF demo_loads seal_host_facts demo_one_kind _ _ _ demo_steps _ _ _ key(2) _ nd,
          where d = True and k = "\<lparr>ik_dev = 5, ik_ino = 12\<rparr>"])
      (simp_all add: sv key seal_map_def seal_flag_defs demo_slm_def bare_maps_def demo_maps_def demo_slm2_def)
  then show ?thesis using sv(1) nd by blast
qed

text \<open>
  The scan the loader makes of a directory it seals is deep enough: in a tree whose walks
  are complete, a profile that loads leaves no directory below a no-write seal out of reach of
  the eight steps of the ancestor walk.
\<close>

theorem loaded_within_reach:
  assumes "load_conf h opts (Some src) M = (0, st)" and "real_load opts" and "no_seals M" and "walk_complete h K" and "tree_ok K"
  shows "tree_reachable (K, ls_maps st)
    \<and> (\<forall>d k D. is_dir K d \<longrightarrow> climb K k (Some d) = Some D \<longrightarrow> flagged K (ls_maps st) SEAL_NO_WRITE D \<longrightarrow>
         (\<exists>j D'. j < COMPARTMENT_MAX_DIR_ANCESTORS \<and> climb K j (Some d) = Some D' \<and> flagged K (ls_maps st) SEAL_NO_WRITE D'))"
proof -
  have ok: "depth_ok K (ls_maps st)" by (rule loaded_depth_ok [OF loaded_walked [OF assms(1-3)] assms(4)])
  have "\<exists>j D'. j < COMPARTMENT_MAX_DIR_ANCESTORS \<and> climb K j (Some d) = Some D' \<and> flagged K (ls_maps st) SEAL_NO_WRITE D'"
    if d: "is_dir K d" "climb K k (Some d) = Some D" "flagged K (ls_maps st) SEAL_NO_WRITE D" for d k D
  proof -
    obtain j where j: "nearest K (ls_maps st) (Some d) j" using nearest_exists [OF d(2,3)] by blast
    then have "j < COMPARTMENT_MAX_DIR_ANCESTORS" using ok d(1) by (auto simp: depth_ok_def)
    then show ?thesis using nearest_climb [OF j] by blast
  qed
  then show ?thesis using tree_start [OF assms(5) ok] by blast
qed

text \<open>Witness: the small system with a root that is a directory.\<close>

definition deep_kernel :: kernel where
  "deep_kernel = demo_kernel\<lparr>k_inode := (\<lambda>a. (k_inode demo_kernel a)\<lparr>i_mode := (if a \<in> {11, 12} then 0x41ED else 0x81A4)\<rparr>)\<rparr>"

lemma deep_tree:
  "is_dir deep_kernel d \<longleftrightarrow> d = 1 \<or> d = 2"
  "parent_of deep_kernel (Some d) = (if d = 1 then None else if d = 2 then Some 1 else Some 2)"
  by (auto simp: is_dir_def target_mode_def dentry_inode_def deep_kernel_def demo_kernel_def is_dir_mode_def parent_of_Some
      Let_def split: if_splits)

lemma deep_climb: "climb deep_kernel j (Some d) = Some D \<Longrightarrow> is_dir deep_kernel d \<Longrightarrow> j = 0 \<or> j = 1"
proof (cases j)
  case (Suc i)
  assume "climb deep_kernel j (Some d) = Some D" "is_dir deep_kernel d"
  then show ?thesis using Suc by (cases i) (auto simp: deep_tree split: if_splits)
qed simp

lemma deep_walk_complete: "walk_complete seal_host deep_kernel"
  unfolding walk_complete_def
proof (intro allI impI)
  fix path k D j d
  assume "climb deep_kernel j (Some d) = Some D" "is_dir deep_kernel d"
  then have "j = 0 \<or> j = 1" by (rule deep_climb)
  then show "\<exists>w \<in> set (fst (lh_walk seal_host path)). we_level w = j \<and> s_isdir (we_stat w)"
    by (auto simp: seal_host_def demo_stat_def s_isdir_def S_IFMT_def S_IFDIR_def)
qed

theorem loaded_within_reach_witness: "tree_reachable (deep_kernel, ls_maps demo_loaded)"
proof -
  have "tree_ok deep_kernel" by (auto simp: tree_ok_def deep_tree split: if_splits)
  then show ?thesis using loaded_within_reach [OF demo_loads seal_host_facts deep_walk_complete] by blast
qed

text \<open>
  C29: a load is all or nothing towards its lines: when a profile of lines that fit the buffer
  loads, every one of its seal lines is enforced, its target being sealed with at least the
  flags the line names and its inode held, whatever lines come before or after it.
\<close>

theorem every_seal_line_enforced:
  assumes "load_conf h opts (Some (unlines ls)) M = (0, st)" and "real_load opts" and "\<forall>l \<in> set ls. plain_line l"
    and "l \<in> set ls" and "strtok is_tok_sep (trim (takeWhile (\<lambda>c. c \<noteq> CHR ''#'') (l @ [NL]))) = Some (''seal'', rest)"
    and "strtok is_tok_sep rest = Some (target, spec)" and "parse_flagspec spec = Some (flags, name)"
  shows "\<exists>k d sv. resolve_seal_target h target = Some (k, d) \<and> seal_map d (ls_maps st) k = Some sv
    \<and> flags AND NOT (sv_flags sv) = 0 \<and> k \<in> set (ls_held st)"
proof -
  obtain pre post where ls: "ls = pre @ l # post" using assms(4) by (meson split_list)
  obtain st0 where st0: "st0 = conf_loop h True False (unlines ls) (initial_lstate M)" "ls_errs st0 = 0"
    "strict_populate_maps h (ls_ps st) (ls_maps st0) = Some (ls_maps st)" "set (ls_held st0) \<subseteq> set (ls_held st)"
    by (rule load_conf_succeeds [OF assms(1,2)])
  let ?st1 = "(run_lines h True False pre (initial_lstate M))"
  let ?st2 = "conf_line h True False (l @ [NL]) ?st1"
  have run: "st0 = conf_loop h True False (unlines post) ?st2"
    using conf_loop_lines [of "pre @ [l]" h True False "unlines post" "initial_lstate M"] assms(3) st0(1)
    by (simp add: ls unlines_def run_lines_def)
  have e2: "ls_errs ?st2 = 0" using conf_loop_errs [of ?st2 h True False "unlines post"] run st0(2) by simp
  have line: "?st2 = seal_line h True False rest (?st1\<lparr>ls_candidate := ls_candidate ?st1 \<or> is_candidate_line (l @ [NL])\<rparr>)"
    by (simp add: conf_line_def conf_directive_def assms(5))
  obtain k d sv where k: "resolve_seal_target h target = Some (k, d)" "seal_map d (ls_maps ?st2) k = Some sv"
      "flags AND NOT (sv_flags sv) = 0" "k \<in> set (ls_held ?st2)"
    by (rule seal_line_taken [OF assms(6,7)]) (use e2 line in auto)
  have "grown ?st2 st0"
    using lines_grow.inv_conf_loop [of ?st2 ?st2 h "unlines post"] run st0(2) by (simp add: grown_def)
  then obtain sv' where "seal_map d (ls_maps st0) k = Some sv'" "sv_flags sv AND NOT (sv_flags sv') = 0" "k \<in> set (ls_held st0)"
    using k(2,4) unfolding grown_def seals_kept_def by blast
  then show ?thesis using k(1) and_not_trans [OF k(3)] strict_populate_frame [OF st0(3), of d] st0(4) by auto
qed

theorem every_seal_line_enforced_witness:
  "\<exists>k d sv. resolve_seal_target seal_host ''/etc'' = Some (k, d) \<and> seal_map d (ls_maps demo_loaded) k = Some sv
    \<and> 0x24 AND NOT (sv_flags sv) = 0 \<and> k \<in> set (ls_held demo_loaded)"
proof (rule every_seal_line_enforced [OF demo_loads seal_host_facts(1) demo_plain])
  show "''seal /etc no-write,strict-launch actor=ed  # configuration'' \<in> set demo_profile" by (simp add: demo_profile_def)
  show "strtok is_tok_sep (trim (takeWhile (\<lambda>c. c \<noteq> CHR ''#'')
      (''seal /etc no-write,strict-launch actor=ed  # configuration'' @ [NL]))) =
      Some (''seal'', ''/etc no-write,strict-launch actor=ed'')" by code_simp
  show "strtok is_tok_sep ''/etc no-write,strict-launch actor=ed'' = Some (''/etc'', ''no-write,strict-launch actor=ed'')"
    by code_simp
  show "parse_flagspec ''no-write,strict-launch actor=ed'' = Some (0x24, Some ''ed'')" by code_simp
qed

text \<open>
  The check for embedded NUL bytes only sees those with something after them in the same
  read.  A line whose first 2047 bytes are a comment sign and NULs is taken for an empty
  comment, without an error, and what follows on that line is read as a line of its own.
\<close>

theorem nul_padding_unnoticed:
  "conf_loop h skel po (CHR ''#'' # replicate 2046 NUL @ s) st = conf_loop h skel po s st"
proof -
  have f: "fgets CONF_LINE (CHR ''#'' # replicate 2046 NUL @ s) = (CHR ''#'' # replicate 2046 NUL, s)"
    using fgets_full [of "CHR ''#'' # replicate 2046 NUL" 2047 s] by (simp add: CONF_LINE_def)
  have c: "cstr (CHR ''#'' # replicate 2046 NUL) = ''#''" by (simp add: cstr_def)
  have n: "\<not> embedded_nul (CHR ''#'' # replicate 2046 NUL)"
    by (simp add: embedded_nul_def c list_ex_iff)
  have l: "conf_line h skel po ''#'' st = st"
    by (simp add: conf_line_def conf_directive_def is_candidate_line_def candidate_marker_def has_prefix_def trim_def rdropWhile_def
        strtok_def is_space_def Let_def)
  show ?thesis by (subst conf_loop.simps) (simp add: f c n l, simp add: CONF_LINE_def)
qed

definition lax_profile :: "string list" where
  "lax_profile = [''seal /etc no-write strict-launch'']"

text \<open>
  A dry run does not predict a load: of a seal with the strict-launch flag and no strict
  actor the dry run of the same profile on the same system reports success, while the load
  refuses it, though every map operation would succeed.
\<close>

theorem dry_run_accepts_what_load_refuses:
  "fst (load_conf seal_host (demo_opts\<lparr>lo_skel := False\<rparr>) (Some (unlines lax_profile)) bare_maps) = 0
   \<and> fst (load_conf seal_host demo_opts (Some (unlines lax_profile)) bare_maps) = - 1"
proof -
  have p: "\<forall>l \<in> set lax_profile. plain_line l" by (simp add: lax_profile_def plain_line_def CONF_LINE_def)
  have "fst (conclude_load seal_host (demo_opts\<lparr>lo_skel := False\<rparr>)
      (run_lines seal_host False False lax_profile (initial_lstate bare_maps))) = 0" by code_simp
  moreover have "fst (conclude_load seal_host demo_opts
      (run_lines seal_host True False lax_profile (initial_lstate bare_maps))) = - 1" by code_simp
  ultimately show ?thesis unfolding load_conf_lines [OF p] by (simp add: demo_opts_def)
qed

section \<open>What a dry run shadows\<close>

definition shadows :: "lstate \<Rightarrow> lstate \<Rightarrow> bool" where
  "shadows st dst \<longleftrightarrow> ls_ps dst = ls_ps st \<and> ls_errs dst = ls_errs st \<and> ls_sealed dst = ls_sealed st \<and> ls_candidate dst = ls_candidate st"

lemma merge_seal_flags_cong:
  "\<forall>se \<in> set ses. se_key se = k \<longrightarrow> se_flags se OR f = se_flags se OR g \<Longrightarrow> merge_seal k f a path ses = merge_seal k g a path ses"
  by (induction ses) (auto simp: merged_entry_def)

lemma record_seal_flags_cong:
  assumes "\<forall>se \<in> set (ps_seals ps). se_key se = k \<longrightarrow> se_flags se OR f = se_flags se OR g"
    and "k \<notin> se_key ` set (ps_seals ps) \<Longrightarrow> f = g"
  shows "profile_state_record_seal ps k f a path = profile_state_record_seal ps k g a path"
  using merge_seal_flags_cong [OF assms(1), of a path] merge_seal_None [of k g a path "ps_seals ps"] assms(2)
  by (auto simp: profile_state_record_seal_def split: option.splits)

lemma find_entry_key: "find (\<lambda>se. se_key se = k) ses = None \<longleftrightarrow> k \<notin> se_key ` set ses"
  by (auto simp: find_None_iff)

text \<open>What is in a map under a key is what the entry of that key says.\<close>

lemma loaded_lookup:
  assumes "profile_loaded kind st" and "se \<in> set (ps_seals (ls_ps st))"
  obtains p where "seal_map (kind (se_key se)) (ls_maps st) (se_key se) = Some p" "sv_flags p = se_flags se"
    "se_has_actor se \<longleftrightarrow> sv_actor_count p \<noteq> 0"
  using assms by (auto simp: profile_loaded_def entry_backed_def)

lemma seal_path_shadow:
  assumes one: "one_kind h kind" and st: "profile_loaded kind st" and sh: "shadows st dst"
    and actor: "actor = None \<or> (\<exists>n. actor = profile_find_actor (ls_ps st) n)"
    and real: "seal_path h True path flags actor st = (True, st')"
  shows "\<exists>dst'. seal_path h False path flags actor dst = (True, dst') \<and> ls_ps dst' = ls_ps st'
    \<and> ls_errs dst' = ls_errs dst \<and> ls_sealed dst' = ls_sealed dst \<and> ls_candidate dst' = ls_candidate dst"
proof -
  from real obtain k d sv0 sv n where r: "resolve_seal_target h path = Some (k, d)"
    and b: "build_seal_value (ls_ps st) flags actor = Some sv0"
    and m: "merge_value (seal_map d (ls_maps st) k) sv0 = Some sv"
    and ps': "ls_ps st' = profile_state_record_seal (ls_ps st) k (sv_flags sv) (actor \<noteq> None) path"
    by (rule seal_path_taken)
  have d: "d = kind k" by (rule resolve_seal_target_kind [OF one r])
  have ready: "\<forall>ag \<in> set (ps_actors (ls_ps st)). actor_ready kind ag" using st by (simp add: profile_loaded_def)
  have "actor = None \<or> (\<exists>ag \<in> set (ps_actors (ls_ps st)). actor = Some ag)"
    using actor profile_find_actor_in by (cases actor) metis+
  note sv0 = build_seal_value_owned [OF b ready this]
  have old: "\<not> se_has_actor se \<and> actor = None \<and> sv_flags sv = flags OR se_flags se"
    if se: "se \<in> set (ps_seals (ls_ps st))" "se_key se = k" for se
  proof -
    obtain p where p: "seal_map (kind (se_key se)) (ls_maps st) (se_key se) = Some p" "sv_flags p = se_flags se"
        "se_has_actor se \<longleftrightarrow> sv_actor_count p \<noteq> 0"
      by (rule loaded_lookup [OF st se(1)])
    then have m': "merge_value (Some p) sv0 = Some sv" using m d se(2) by simp
    then show ?thesis using merge_value_uniform [OF m'] sv0 p by (auto simp: merge_value_def)
  qed
  have new: "k \<notin> se_key ` set (ps_seals (ls_ps st)) \<Longrightarrow> sv_flags sv = flags"
    using st m sv0 by (cases "seal_map d (ls_maps st) k") (auto simp: profile_loaded_def merge_value_def)
  have same: "profile_state_record_seal (ls_ps st) k flags (actor \<noteq> None) path = ls_ps st'"
    unfolding ps' by (rule record_seal_flags_cong) (use old new in \<open>auto simp: ac_simps\<close>)
  have "absolute path" "\<not> (case actor of Some ag \<Rightarrow> ag_bin ag = None | None \<Rightarrow> False)"
    using real by (auto simp: seal_path_def split: if_splits)
  moreover have "seal_path_dry path flags actor k dst = (True, dst\<lparr>ls_ps := ls_ps st'\<rparr>)"
  proof (cases "find (\<lambda>se. se_key se = k) (ps_seals (ls_ps st))")
    case None
    then show ?thesis using sh same by (simp add: seal_path_dry_def shadows_def)
  next
    case (Some se)
    then have "\<not> se_has_actor se \<and> actor = None" using old find_SomeD by fastforce
    then show ?thesis using Some sh same by (simp add: seal_path_dry_def shadows_def)
  qed
  ultimately show ?thesis using r by (simp add: seal_path_def)
qed

lemma actor_declared_shadow:
  "shadows st dst \<Longrightarrow> shadows (actor_declared h False decl st) (actor_declared h False decl dst)"
  by (auto simp: shadows_def actor_declared_def failed_def Let_def split: option.splits prod.splits)

lemma seal_line_shadow:
  assumes "one_kind h kind" and "profile_loaded kind st" and sh: "shadows st dst"
    and ok: "ls_errs (seal_line h True False rest st) = 0"
  shows "shadows (seal_line h True False rest st) (seal_line h False False rest dst)"
proof -
  obtain target spec flags name where t: "strtok is_tok_sep rest = Some (target, spec)" "parse_flagspec spec = Some (flags, name)"
    using ok by (auto simp: seal_line_def split: option.splits prod.splits)
  let ?actor = "case name of None \<Rightarrow> None | Some n \<Rightarrow> profile_find_actor (ls_ps st) n"
  have ps: "ls_ps dst = ls_ps st" using sh by (simp add: shadows_def)
  have known: "\<not> (name \<noteq> None \<and> ?actor = None)"
    using ok t by (auto simp: seal_line_def Let_def split: if_splits)
  have line: "seal_line h skel False rest s = sealed_one (seal_path h skel target flags ?actor s)" if "ls_ps s = ls_ps st" for skel s
    using known that by (cases name) (auto simp: seal_line_def t Let_def)
  obtain st' where r: "seal_path h True target flags ?actor st = (True, st')"
    using ok unfolding line [OF refl]
    by (cases "seal_path h True target flags ?actor st") (auto simp: sealed_one_def split: if_splits)
  have e: "ls_errs st' = ls_errs st" "ls_sealed st' = ls_sealed st" "ls_candidate st' = ls_candidate st"
    using r by (auto simp: seal_path_def seal_path_load_def Let_def split: if_splits option.splits)
  have "?actor = None \<or> (\<exists>n. ?actor = profile_find_actor (ls_ps st) n)" by (cases name) auto
  from seal_path_shadow [OF assms(1,2) sh this r]
  show ?thesis using e sh by (auto simp: line ps r sealed_one_def shadows_def)
qed

lemma conf_line_shadow:
  assumes "one_kind h kind" and "profile_loaded kind st" and sh: "shadows st dst"
    and ok: "ls_errs (conf_line h True False line st) = 0"
  shows "shadows (conf_line h True False line st) (conf_line h False False line dst)"
proof -
  let ?st = "st\<lparr>ls_candidate := ls_candidate st \<or> is_candidate_line line\<rparr>"
  let ?dst = "dst\<lparr>ls_candidate := ls_candidate dst \<or> is_candidate_line line\<rparr>"
  have sh': "shadows ?st ?dst" using sh by (simp add: shadows_def)
  have l: "profile_loaded kind ?st" using assms(2) by (simp add: profile_loaded_def)
  have ps: "ls_ps dst = ls_ps st" using sh by (simp add: shadows_def)
  have seal: "ls_errs (seal_line h True False rest ?st) = 0 \<Longrightarrow>
      shadows (seal_line h True False rest ?st) (seal_line h False False rest ?dst)" for rest
    by (rule seal_line_shadow [OF assms(1) l sh'])
  show ?thesis
    using ok actor_declared_shadow [OF sh'] seal sh' ps
    by (auto simp: conf_line_def conf_directive_def split: option.splits prod.splits if_splits)
qed

lemma conf_loop_shadow:
  "one_kind h kind \<Longrightarrow> profile_loaded kind st \<Longrightarrow> shadows st dst \<Longrightarrow> ls_errs (conf_loop h True False s st) = 0 \<Longrightarrow>
   shadows (conf_loop h True False s st) (conf_loop h False False s dst)"
proof (induction h "True" "False" s st arbitrary: dst rule: conf_loop.induct)
  case (1 h s st)
  obtain l r where lr: "fgets CONF_LINE s = (l, r)" by fastforce
  show ?case
  proof (cases "s = []")
    case True
    then show ?thesis using 1(6) by simp
  next
    case False
    let ?next = "conf_line h True False (cstr l) st"
    have late: "ls_errs (conf_loop h True False u (failed st)) \<noteq> 0" for u
      using conf_loop_errs [of "failed st" h True False u] by simp
    have fits: "\<not> embedded_nul l" "\<not> (length (cstr l) = CONF_LINE - 1 \<and> last l \<noteq> NL)"
      using 1(7) False lr by (auto simp: late conf_loop.simps [of h True False s st] split: if_splits)
    then have step: "conf_loop h skel False s u = conf_loop h skel False r (conf_line h skel False (cstr l) u)" for skel u
      using False lr by (subst conf_loop.simps) auto
    have e: "ls_errs ?next = 0" using conf_loop_errs [of ?next h True False r] 1(7) by (simp add: step)
    have "profile_loaded kind ?next"
      using load_policy.inv_conf_line [of h kind st "cstr l"] 1(4,5) e by blast
    then show ?thesis unfolding step
      using 1(3) [of "(l, r)" l r] False lr fits conf_line_shadow [OF 1(4,5,6) e] 1(4,7) step by simp
  qed
qed

text \<open>
  A dry run never refuses what a load accepts: when a profile loads, its dry run on the
  same system succeeds and ends with the same actors and the same sealed inodes.
\<close>

theorem load_implies_dry_run:
  assumes "load_conf h opts (Some src) M = (0, st)" and "real_load opts" and "no_seals M" and "one_kind h kind"
  shows "\<exists>dst. load_conf h (opts\<lparr>lo_skel := False\<rparr>) (Some src) N = (0, dst) \<and> ls_ps dst = ls_ps st"
proof -
  let ?real = "conf_loop h True False src (initial_lstate M)" and ?dry = "conf_loop h False False src (initial_lstate N)"
  obtain st0 where st0: "st0 = ?real" "ls_errs st0 = 0" by (rule load_conf_succeeds [OF assms(1,2)])
  have sh: "shadows ?real ?dry"
    by (rule conf_loop_shadow [OF assms(4) initial_loaded [OF assms(3)]]) (use st0 in \<open>simp_all add: shadows_def initial_lstate_def\<close>)
  have c: "shadows a b \<Longrightarrow> shadows (count_err bad a) (count_err bad b)" for a b bad
    by (simp add: shadows_def count_err_def failed_def)
  have g: "shadows a b \<Longrightarrow> shadows (count_err (ls_candidate a \<and> p \<and> q) a) (count_err (ls_candidate b \<and> p \<and> q) b)" for a b p q
    by (simp add: shadows_def count_err_def failed_def)
  have v: "shadows (validate_profile h a) (validate_profile h b)" if "shadows a b" for a b
    using that by (auto simp: validate_profile_def shadows_def count_err_def failed_def strict_validate_launchers_def Let_def)
  let ?checked = "\<lambda>u. validate_profile h (count_err (ls_candidate (count_err (\<not> lh_conf_ok h) u) \<and> lo_pin opts
      \<and> \<not> lo_allow_candidate opts) (count_err (\<not> lh_conf_ok h) u))"
  have ck: "shadows (?checked ?real) (?checked ?dry)"
    by (intro v g c sh)
  have run: "load_conf h opts (Some src) M =
      (let u = (if ls_errs (?checked ?real) = 0 then populate h (?checked ?real) else ?checked ?real) in
       if ls_errs u \<noteq> 0 then (- 1, u) else if ls_sealed u = 0 \<and> \<not> lo_allow_empty opts then (- 1, u) else (0, u))"
    using assms(2) by (simp add: load_conf_def conclude_load_def real_load_def Let_def)
  have ok: "ls_errs (?checked ?real) = 0" "ls_ps st = ls_ps (?checked ?real)" "ls_sealed st = ls_sealed (?checked ?real)"
      "ls_sealed st \<noteq> 0 \<or> lo_allow_empty opts"
    using assms(1) unfolding run Let_def by (auto simp: populate_def split: if_splits option.splits)
  have "load_conf h (opts\<lparr>lo_skel := False\<rparr>) (Some src) N = (0, ?checked ?dry)"
    using ok ck assms(2) by (simp add: load_conf_def conclude_load_def real_load_def shadows_def Let_def)
  then show ?thesis using ok(2) ck by (auto simp: shadows_def)
qed

theorem load_implies_dry_run_witness:
  "\<exists>dst. load_conf seal_host (demo_opts\<lparr>lo_skel := False\<rparr>) (Some (unlines demo_profile)) demo_maps = (0, dst)
    \<and> ls_ps dst = ls_ps demo_loaded"
  by (rule load_implies_dry_run [OF demo_loads seal_host_facts demo_one_kind])

end
