(* ===== verification/Step_Runs.thy ===== *)
theory Step_Runs
  imports Comp_Prelude
begin

text \<open>
  Runs of fallible steps, as both launchers make them: each step returns whether it succeeded and
  the state afterwards, and a run stops at the first that fails.  Both launchers keep a log of
  what came into force; the locale \<^verbatim>\<open>logged_step\<close> is the contract of a step with respect to it, and
  the lemmas derive what a whole run did and in which order.
\<close>

type_synonym 's step = "'s \<Rightarrow> bool \<times> 's"

text \<open>Steps in a row, up to the first that fails.\<close>

fun run_psteps :: "'s step list \<Rightarrow> 's step" where
  "run_psteps [] p = (True, p)"
| "run_psteps (s # ss) p = (case s p of (False, p') \<Rightarrow> (False, p') | (True, p') \<Rightarrow> run_psteps ss p')"

section \<open>Runs\<close>

lemma run_psteps_True: "run_psteps (s # ss) p = (True, p') \<longleftrightarrow> (\<exists>p1. s p = (True, p1) \<and> run_psteps ss p1 = (True, p'))"
  by (auto split: prod.splits bool.splits)

lemma run_psteps_append:
  "run_psteps (ss @ ts) p = (case run_psteps ss p of (False, p') \<Rightarrow> (False, p') | (True, p') \<Rightarrow> run_psteps ts p')"
  by (induction ss arbitrary: p) (auto split: prod.splits bool.splits)

lemma run_psteps_ok: "(\<And>s p. s \<in> set ss \<Longrightarrow> fst (s p)) \<Longrightarrow> fst (run_psteps ss p)"
proof (induction ss arbitrary: p)
  case (Cons s ss)
  then show ?case by (auto split: prod.splits bool.splits) (metis fst_conv)
qed simp

section \<open>The contract of a step\<close>

text \<open>The log only grows, by entries of the step's own.\<close>

locale logged_step =
  fixes log :: "'s \<Rightarrow> 'e list"
    and s :: "'s step"
    and tags :: "'e set"
  assumes log_grows: "\<exists>l. log (snd (s p)) = log p @ l \<and> set l \<subseteq> tags"

definition grows :: "('s \<Rightarrow> 'e list) \<Rightarrow> 's step \<Rightarrow> bool" where
  "grows log s \<longleftrightarrow> (\<forall>p. \<exists>l. log (snd (s p)) = log p @ l)"

text \<open>Every entry of a step belongs to one stage.\<close>

definition staged :: "('s \<Rightarrow> 'e list) \<Rightarrow> ('e \<Rightarrow> nat) \<Rightarrow> 's step \<Rightarrow> nat \<Rightarrow> bool" where
  "staged log stage s n \<longleftrightarrow> (\<forall>p. \<exists>l. log (snd (s p)) = log p @ l \<and> (\<forall>m \<in> set l. stage m = n))"

context logged_step
begin

lemma in_stage: "(\<And>m. m \<in> tags \<Longrightarrow> stage m = n) \<Longrightarrow> staged log stage s n"
  unfolding staged_def using log_grows by (meson subsetD)

lemma growing: "grows log s"
  unfolding grows_def using log_grows by blast

end

lemma staged_grows: "staged log stage s n \<Longrightarrow> grows log s"
  unfolding staged_def grows_def by blast

text \<open>What a successful run did: each of its steps succeeded, and its entries are still in the log.\<close>

lemma run_psteps_grows:
  "(\<And>s. s \<in> set ss \<Longrightarrow> grows log s) \<Longrightarrow> \<exists>l. log (snd (run_psteps ss p)) = log p @ l"
proof (induction ss arbitrary: p)
  case (Cons s ss)
  obtain ok p' where s: "s p = (ok, p')" by fastforce
  then obtain l where l: "log p' = log p @ l" using Cons.prems [of s] unfolding grows_def by (metis list.set_intros(1) snd_conv)
  obtain l' where "log (snd (run_psteps ss p')) = log p' @ l'" using Cons by fastforce
  then show ?case using s l by (cases ok) auto
qed simp

lemma run_psteps_each:
  assumes "\<And>s. s \<in> set ss \<Longrightarrow> grows log s" and "run_psteps ss p = (True, p')" and "s \<in> set ss"
  shows "\<exists>a b l k. s a = (True, b) \<and> log a = log p @ k \<and> log p' = log b @ l"
  using assms
proof (induction ss arbitrary: p)
  case (Cons s0 ss)
  obtain p1 where p1: "s0 p = (True, p1)" "run_psteps ss p1 = (True, p')"
    using Cons.prems(2) by (auto simp only: run_psteps_True)
  obtain l where l: "log p1 = log p @ l" using Cons.prems(1) [of s0] p1(1) unfolding grows_def by (metis list.set_intros(1) snd_conv)
  show ?case
  proof (cases "s = s0")
    case True
    have "\<exists>l. log (snd (run_psteps ss p1)) = log p1 @ l" by (rule run_psteps_grows) (use Cons.prems(1) in auto)
    then show ?thesis using True p1 by (intro exI [of _ p] exI [of _ p1]) auto
  next
    case False
    then have "\<exists>a b l k. s a = (True, b) \<and> log a = log p1 @ k \<and> log p' = log b @ l"
      using Cons.IH [OF _ p1(2)] Cons.prems(1,3) by auto
    then show ?thesis using l by force
  qed
qed simp

section \<open>Order\<close>

definition upto_stage :: "('s \<Rightarrow> 'e list) \<Rightarrow> ('e \<Rightarrow> nat) \<Rightarrow> nat \<Rightarrow> 's \<Rightarrow> bool" where
  "upto_stage log stage n p \<longleftrightarrow> sorted (map stage (log p)) \<and> (\<forall>m \<in> set (log p). stage m \<le> n)"

lemma upto_stage_empty: "log p = [] \<Longrightarrow> upto_stage log stage n p"
  by (simp add: upto_stage_def)

lemma upto_stage_mono: "upto_stage log stage k p \<Longrightarrow> k \<le> n \<Longrightarrow> upto_stage log stage n p"
  by (auto simp: upto_stage_def)

lemma sorted_extend:
  assumes "sorted (map f xs)" and "\<forall>x \<in> set xs. f x \<le> n" and "\<forall>y \<in> set l. f y = (n :: nat)"
  shows "sorted (map f (xs @ l)) \<and> (\<forall>x \<in> set (xs @ l). f x \<le> n)"
  using assms by (auto simp: sorted_append) (induction l, auto)

lemma staged_upto:
  assumes "staged log stage s n" and "upto_stage log stage k p" and "k \<le> n" and "s p = (ok, p')"
  shows "upto_stage log stage n p'"
proof -
  obtain l where l: "log p' = log p @ l" "\<forall>m \<in> set l. stage m = n"
    using assms(1,4) unfolding staged_def by (metis snd_conv)
  have "upto_stage log stage n p" by (rule upto_stage_mono [OF assms(2,3)])
  then show ?thesis unfolding upto_stage_def l(1) using sorted_extend [OF _ _ l(2)] by blast
qed

text \<open>A run whose steps are in rising stages leaves a sorted log, wherever it stops.\<close>

lemma run_psteps_upto:
  assumes "list_all2 (staged log stage) ss ns" and "sorted (k # ns)" and "upto_stage log stage k p"
    and "\<forall>n \<in> set (k # ns). n \<le> m"
  shows "upto_stage log stage m (snd (run_psteps ss p))"
  using assms
proof (induction ss ns arbitrary: k p rule: list_all2_induct)
  case Nil
  then show ?case by (simp add: upto_stage_mono)
next
  case (Cons s ss n ns)
  obtain ok p' where s: "s p = (ok, p')" by fastforce
  have "upto_stage log stage n p'" using staged_upto [OF Cons.hyps(1) Cons.prems(2) _ s] Cons.prems(1) by simp
  then show ?case using s Cons.IH [of n p'] Cons.prems upto_stage_mono [of log stage n p' m] by (cases ok) simp_all
qed

section \<open>Order, part by part\<close>

text \<open>A run that starts at stage \<^verbatim>\<open>k\<close> stays in order and ends at stage \<^verbatim>\<open>m\<close> or before.\<close>

definition ordered :: "('s \<Rightarrow> 'e list) \<Rightarrow> ('e \<Rightarrow> nat) \<Rightarrow> 's step list \<Rightarrow> nat \<Rightarrow> nat \<Rightarrow> bool" where
  "ordered log stage ss k m \<longleftrightarrow> k \<le> m \<and> (\<forall>p. upto_stage log stage k p \<longrightarrow> upto_stage log stage m (snd (run_psteps ss p)))"

lemma ordered_Nil: "k \<le> m \<Longrightarrow> ordered log stage [] k m"
  by (auto simp: ordered_def intro: upto_stage_mono)

lemma ordered_append:
  assumes "ordered log stage ss k m" and "ordered log stage ts m n"
  shows "ordered log stage (ss @ ts) k n"
  unfolding ordered_def
proof (intro conjI allI impI)
  show "k \<le> n" using assms by (simp add: ordered_def)
  fix p assume p: "upto_stage log stage k p"
  obtain ok p' where r: "run_psteps ss p = (ok, p')" by fastforce
  have "upto_stage log stage m p'" using assms(1) p r by (auto simp: ordered_def)
  then show "upto_stage log stage n (snd (run_psteps (ss @ ts) p))"
    using assms(2) r upto_stage_mono [of log stage m p' n] by (cases ok) (simp_all add: run_psteps_append ordered_def)
qed

lemma ordered_single:
  assumes "staged log stage s n" and "k \<le> n"
  shows "ordered log stage [s] k n"
  unfolding ordered_def
proof (intro conjI allI impI)
  fix p assume p: "upto_stage log stage k p"
  obtain ok p' where r: "s p = (ok, p')" by fastforce
  show "upto_stage log stage n (snd (run_psteps [s] p))" using staged_upto [OF assms(1) p assms(2) r] r by (cases ok) simp_all
qed (rule assms(2))

lemma ordered_Cons: "staged log stage s n \<Longrightarrow> k \<le> n \<Longrightarrow> ordered log stage ss n m \<Longrightarrow> ordered log stage (s # ss) k m"
  using ordered_append [OF ordered_single] by fastforce

lemma ordered_same: "(\<And>s. s \<in> set ss \<Longrightarrow> staged log stage s n) \<Longrightarrow> k \<le> n \<Longrightarrow> ordered log stage ss k n"
  by (induction ss arbitrary: k) (auto intro: ordered_Nil ordered_Cons)

lemma ordered_run:
  "ordered log stage ss k m \<Longrightarrow> log p = [] \<Longrightarrow> sorted (map stage (log (snd (run_psteps ss p))))"
  by (auto simp: ordered_def upto_stage_def)

text \<open>A run of steps of one stage is itself a step of that stage.\<close>

lemma staged_run:
  "(\<And>s. s \<in> set ss \<Longrightarrow> staged log stage s n) \<Longrightarrow> staged log stage (run_psteps ss) n"
proof (induction ss)
  case Nil
  then show ?case by (simp add: staged_def)
next
  case (Cons s ss)
  show ?case unfolding staged_def
  proof
    fix p
    obtain ok p' where s: "s p = (ok, p')" by fastforce
    obtain l where l: "log p' = log p @ l" "\<forall>m \<in> set l. stage m = n"
      using Cons.prems [of s] s unfolding staged_def by (metis list.set_intros(1) snd_conv)
    have "staged log stage (run_psteps ss) n" using Cons by simp
    then obtain l' where "log (snd (run_psteps ss p')) = log p' @ l'" "\<forall>m \<in> set l'. stage m = n" unfolding staged_def by blast
    then show "\<exists>l. log (snd (run_psteps (s # ss) p)) = log p @ l \<and> (\<forall>m \<in> set l. stage m = n)"
      using s l by (cases ok) (auto intro!: exI [of _ "l @ l'"])
  qed
qed

end
