(* ===== verification/User_Launch.thy ===== *)
theory User_Launch
  imports Step_Runs Profile_Loader Seccomp_Filter Env_Sanitize Audit_Trail
begin

text \<open>
  The rootless launcher \<^verbatim>\<open>src/compartment-user.c\<close>: the built-in profiles, the pre-flight check, the
  mechanisms it applies to itself (mount masks, capability drops, descriptor clean-up, Landlock,
  seccomp), the shell-replacement mode and the command-line mode up to the \<^verbatim>\<open>exec\<close>.

  The system is the parameter \<^verbatim>\<open>uhost\<close>: the answers of the calls the launcher makes.  What those
  calls did to the process is the record \<^verbatim>\<open>proc\<close>.  \<^verbatim>\<open>getopt_long\<close> and \<^verbatim>\<open>basename\<close> are not modelled:
  the options in the order they are delivered, the operands and the name of the program are
  arguments of \<^verbatim>\<open>user_main\<close>.  Diagnostics, the dry-run report and \<^verbatim>\<open>print_verify\<close> are left out.
\<close>

section \<open>The host and the process\<close>

record uhost =
  uh_host :: host                             \<comment> \<open>profiles, \<^verbatim>\<open>HOME\<close>, the real uid, the build target\<close>
  uh_ll :: ll_env
  uh_sc :: seccomp_env
  uh_audit :: audit_env
  uh_get_nnp :: bool                          \<comment> \<open>\<^verbatim>\<open>PR_GET_NO_NEW_PRIVS\<close> is known\<close>
  uh_set_nnp :: bool
  uh_no_seccomp :: bool                       \<comment> \<open>\<^verbatim>\<open>PR_GET_SECCOMP\<close> fails with \<^verbatim>\<open>EINVAL\<close>\<close>
  uh_statfs :: "string \<Rightarrow> u64 option"
  uh_mounts :: "string option"                \<comment> \<open>the bytes of \<^verbatim>\<open>/proc/mounts\<close>\<close>
  uh_unshare :: nat                           \<comment> \<open>\<^verbatim>\<open>errno\<close>, 0 for success, here and below\<close>
  uh_make_private :: bool
  uh_lstat :: "string \<Rightarrow> nat + bool"          \<comment> \<open>\<^verbatim>\<open>errno\<close>, or whether it is a directory\<close>
  uh_mount :: "string \<Rightarrow> bool \<Rightarrow> bool"         \<comment> \<open>an empty tmpfs, else \<^verbatim>\<open>/dev/null\<close>, on a path\<close>
  uh_euid :: u32
  uh_capbset_drop :: "int \<Rightarrow> nat"
  uh_ambient_clear :: nat
  uh_capget :: bool
  uh_capset :: bool
  uh_get_securebits :: "u32 option"
  uh_set_securebits :: "u32 \<Rightarrow> bool"
  uh_close_range :: bool
  uh_fd_dir :: "(string list \<times> bool) option"  \<comment> \<open>the names in \<^verbatim>\<open>/proc/self/fd\<close>, and that reading them did not fail\<close>
  uh_scan_fd :: int
  uh_close :: "int \<Rightarrow> nat"
  uh_set_cloexec :: "int \<Rightarrow> bool"
  uh_chdir :: "string \<Rightarrow> bool"
  uh_set_dumpable :: bool
  uh_SHELL_DIR :: "string option"             \<comment> \<open>\<^verbatim>\<open>COMPARTMENT_SHELL_DIR\<close>\<close>
  uh_open_shell_dir :: "string \<Rightarrow> fstat option option"
  uh_open_shell :: "string \<Rightarrow> string \<Rightarrow> fstat option option"
  uh_verify :: int                            \<comment> \<open>what \<^verbatim>\<open>print_verify\<close> returns\<close>

text \<open>What is in force for the process, and the order in which it came into force.\<close>

datatype mechanism =
    M_nnp | M_env | M_namespace | M_mask | M_cap_drop | M_cap_lock | M_fds | M_landlock | M_seccomp | M_chdir | M_harden

record proc =
  px_nnp :: bool
  px_env :: "string list"
  px_private_ns :: bool
  px_masked :: "(string \<times> bool) list"         \<comment> \<open>the path, and whether a tmpfs covers it\<close>
  px_dropped :: "int list"
  px_ambient_clear :: bool
  px_inheritable_clear :: bool
  px_securebits :: "u32 option"               \<comment> \<open>as set by the launcher\<close>
  px_fds :: "int list"                        \<comment> \<open>descriptors that would reach the new image\<close>
  px_landlock :: "ruleset option"
  px_seccomp :: "sock_filter list option"
  px_cwd :: "string option"
  px_dumpable :: bool
  px_audit :: string                          \<comment> \<open>the audit log\<close>
  px_log :: "mechanism list"

definition logged :: "mechanism \<Rightarrow> proc \<Rightarrow> proc" where
  "logged m p = p\<lparr>px_log := px_log p @ [m]\<rparr>"

definition EPERM_ERR :: nat where "EPERM_ERR = 1"
definition EBADF :: nat where "EBADF = 9"
definition INT_MAX :: int where "INT_MAX = 2147483647"

section \<open>Built-in profiles\<close>

text \<open>
  A sequence of appends stops at the first that is refused and keeps what was appended.  The
  built-in deny-list counts as one append: a caller that goes on after a refusal (the
  shell-replacement mode) starts from empty arrays, where it is not refused.
\<close>

fun run_steps :: "(Config \<Rightarrow> Config option) list \<Rightarrow> Config \<Rightarrow> bool \<times> Config" where
  "run_steps [] c = (True, c)"
| "run_steps (f # fs) c = (case f c of None \<Rightarrow> (False, c) | Some c' \<Rightarrow> run_steps fs c')"

definition ai_ro_paths :: "string list" where
  "ai_ro_paths = [''/usr'', ''/lib'', ''/lib64'', ''/lib32?'', ''/etc'', ''/bin'', ''/sbin'', ''/proc'', ''/dev'', ''/sys'',
     ''/run'', ''/var/lib'']"

definition ai_rw_paths :: "string list" where "ai_rw_paths = [''/tmp'']"

definition ai_rw_dev :: "string list" where
  "ai_rw_dev = [''/dev/null'', ''/dev/zero'', ''/dev/random'', ''/dev/urandom'', ''/dev/tty'', ''/dev/pts'', ''/dev/ptmx'']"

definition ai_deny_env :: "string list" where
  "ai_deny_env = [''LD_*'', ''GLIBC_TUNABLES'', ''GCONV_PATH'', ''HOSTALIASES'', ''LOCPATH'', ''NLSPATH'', ''DYLD_*'',
     ''_JAVA_OPTIONS'', ''JAVA_TOOL_OPTIONS'', ''AWS_ACCESS_KEY_ID'', ''AWS_SECRET_ACCESS_KEY'', ''AWS_SESSION_TOKEN'',
     ''GOOGLE_APPLICATION_CREDENTIALS'', ''AZURE_CLIENT_SECRET'', ''GITHUB_TOKEN'', ''GH_TOKEN'', ''GITLAB_TOKEN'',
     ''NPM_TOKEN'', ''BASH_ENV'', ''ENV'', ''BASH_FUNC_*'', ''PROMPT_COMMAND'', ''IFS'', ''ZDOTDIR'', ''CDPATH'', ''GLOBIGNORE'',
     ''NODE_OPTIONS'', ''PYTHON*'', ''PERL5*'', ''PERLLIB'', ''RUBYOPT'', ''RUBYLIB'', ''GIT_SSH_COMMAND'', ''GIT_CONFIG_*'',
     ''GIT_EDITOR'', ''GIT_EXEC_PATH'', ''GIT_TEMPLATE_DIR'', ''PAGER'', ''MANPAGER'', ''EDITOR'', ''VISUAL'', ''SSH_AUTH_SOCK'',
     ''DATABASE_URL'', ''PGPASSWORD'', ''MYSQL_PWD'']"

definition ai_home_steps :: "host \<Rightarrow> (Config \<Rightarrow> Config option) list" where
  "ai_home_steps h =
     (case h_HOME h of
        None \<Rightarrow> []
      | Some home \<Rightarrow>
          if home_dir_usable h (Some home) = None then [\<lambda>_. None] else [cfg_add_path home PATH_RWX False])"

definition ai_workdir_steps :: "Config \<Rightarrow> (Config \<Rightarrow> Config option) list" where
  "ai_workdir_steps c = (case workdir c of None \<Rightarrow> [] | Some w \<Rightarrow> [cfg_add_path w PATH_RWX False])"

definition apply_profile_ai_agent :: "host \<Rightarrow> Config \<Rightarrow> bool \<times> Config" where
  "apply_profile_ai_agent h c =
     run_steps (map (\<lambda>p. cfg_add_path p PATH_RO False) ai_ro_paths @
       map (\<lambda>p. cfg_add_path p PATH_RW False) ai_rw_paths @
       map (\<lambda>p. cfg_add_path p PATH_RW False) ai_rw_dev @
       ai_home_steps h @ ai_workdir_steps c @
       [cfg_add_builtin_denylist (h_target h)] @
       map (cfg_add_env_deny False) ai_deny_env) c"

definition strict_extra :: "string list" where
  "strict_extra = [''personality'', ''lookup_dcookie'', ''vhangup'', ''quotactl'', ''mbind'', ''move_pages'']"

definition strict_extra_step :: "target \<Rightarrow> string \<Rightarrow> Config \<Rightarrow> Config option" where
  "strict_extra_step t n c = (let nr = resolve_syscall t n in if nr \<ge> 0 then cfg_add_blocked nr c else Some c)"

definition apply_profile_strict :: "host \<Rightarrow> Config \<Rightarrow> bool \<times> Config" where
  "apply_profile_strict h c =
     (case apply_profile_ai_agent h c of
        (False, c') \<Rightarrow> (False, c')
      | (True, c') \<Rightarrow> run_steps (map (strict_extra_step (h_target h)) strict_extra) c')"

section \<open>Pre-flight check\<close>

definition V9P_MAGIC :: u64 where "V9P_MAGIC = 0x01021997"
definition NFS_MAGIC :: u64 where "NFS_MAGIC = 0x6969"
definition FUSE_MAGIC :: u64 where "FUSE_MAGIC = 0x65735546"
definition CIFS_MAGIC :: u64 where "CIFS_MAGIC = 0xFF534D42"

definition fs_landlock_unsupported :: "u64 \<Rightarrow> bool" where
  "fs_landlock_unsupported magic \<longleftrightarrow> magic = V9P_MAGIC \<or> magic = NFS_MAGIC \<or> magic = CIFS_MAGIC \<or> magic = FUSE_MAGIC"

text \<open>The lines \<^verbatim>\<open>fgets\<close> delivers with a buffer of 4096 bytes, as C strings.\<close>

definition MOUNT_LINE :: nat where "MOUNT_LINE = 4096"

function mount_lines :: "string \<Rightarrow> string list" where
  "mount_lines s = (if s = [] then [] else let (l, r) = fgets MOUNT_LINE s in cstr l # mount_lines r)"
  by pat_completeness auto
termination
proof (relation "measure length")
  fix s l r x
  assume s: "s \<noteq> []" and x: "x = fgets MOUNT_LINE s" "(l, r) = x"
  have "fst (fgets MOUNT_LINE s) \<noteq> []" by (rule fgets_consumes) (simp_all add: s MOUNT_LINE_def)
  then have "l \<noteq> []" using x by (metis fst_conv)
  then show "(r, s) \<in> measure length" using fgets_split [of MOUNT_LINE s l r] x by simp
qed simp

declare mount_lines.simps [simp del]

text \<open>One \<^verbatim>\<open>%<n>s\<close> of \<^verbatim>\<open>sscanf\<close>: the field and the rest.\<close>

definition scan_field :: "nat \<Rightarrow> string \<Rightarrow> (string \<times> string) option" where
  "scan_field n s =
     (let s1 = dropWhile is_space s; f = take n (takeWhile (\<lambda>c. \<not> is_space c) s1)
      in if f = [] then None else Some (f, drop (length f) s1))"

definition mount_fields :: "string \<Rightarrow> (string \<times> string) option" where
  "mount_fields line =
     (case scan_field 255 line of
        None \<Rightarrow> None
      | Some (_, r1) \<Rightarrow>
          (case scan_field 255 r1 of
             None \<Rightarrow> None
           | Some (mnt, r2) \<Rightarrow>
               (case scan_field 63 r2 of None \<Rightarrow> None | Some (fstype, _) \<Rightarrow> Some (mnt, fstype))))"

definition mount_covers :: "string \<Rightarrow> string \<Rightarrow> bool" where
  "mount_covers path mnt \<longleftrightarrow>
     has_prefix mnt path \<and>
     (char_at path (length mnt) = CHR ''/'' \<or> char_at path (length mnt) = NUL \<or> length mnt = 1)"

text \<open>The loop, with the longest covering mount so far and its type.\<close>

fun best_mount :: "string \<Rightarrow> string list \<Rightarrow> nat \<times> string \<Rightarrow> nat \<times> string" where
  "best_mount path [] best = best"
| "best_mount path (l # ls) best =
     (case mount_fields l of
        None \<Rightarrow> best_mount path ls best
      | Some (mnt, fstype) \<Rightarrow>
          best_mount path ls (if mount_covers path mnt \<and> length mnt > fst best then (length mnt, fstype) else best))"

definition fstype_unsupported :: "string \<Rightarrow> bool" where
  "fstype_unsupported t \<longleftrightarrow>
     t \<in> {''9p'', ''nfs'', ''nfs4'', ''cifs'', ''fuse''} \<or> has_prefix ''fuse.'' t"

definition check_proc_mounts_for_unsupported :: "uhost \<Rightarrow> string \<Rightarrow> bool" where
  "check_proc_mounts_for_unsupported h path =
     (case uh_mounts h of
        None \<Rightarrow> False
      | Some s \<Rightarrow> fstype_unsupported (snd (best_mount path (mount_lines s) (0, []))))"

definition path_warned :: "uhost \<Rightarrow> string \<Rightarrow> bool" where
  "path_warned h p \<longleftrightarrow>
     (case uh_statfs h p of Some t \<Rightarrow> fs_landlock_unsupported t | None \<Rightarrow> False) \<or> check_proc_mounts_for_unsupported h p"

definition preflight_check :: "uhost \<Rightarrow> Config \<Rightarrow> nat" where
  "preflight_check h c =
     (if use_no_new_privs c \<and> \<not> uh_get_nnp h then 1 else 0) +
     (if use_landlock c then
        (if ll_abi (uh_ll h) < 0 then 1
         else length (filter (\<lambda>r. path_warned h (pr_path r)) (paths c)) + (if path_warned h ''/'' then 1 else 0))
      else 0) +
     (if use_seccomp c \<and> uh_no_seccomp h then 1 else 0)"

section \<open>Mount masks\<close>

text \<open>An operation on the process: whether it returned 0, and the process afterwards.\<close>

type_synonym pstep = "proc step"

definition mask_one :: "uhost \<Rightarrow> string \<Rightarrow> pstep" where
  "mask_one h path p =
     (case uh_lstat h path of
        Inl e \<Rightarrow> (e = ENOENT, p)
      | Inr dir \<Rightarrow>
          if uh_mount h path dir then (True, logged M_mask (p\<lparr>px_masked := px_masked p @ [(path, dir)]\<rparr>))
          else (False, p))"

fun mask_all :: "uhost \<Rightarrow> string list \<Rightarrow> pstep" where
  "mask_all h [] p = (True, p)"
| "mask_all h (m # ms) p = (case mask_one h m p of (False, p') \<Rightarrow> (False, p') | (True, p') \<Rightarrow> mask_all h ms p')"

definition apply_masks :: "uhost \<Rightarrow> Config \<Rightarrow> pstep" where
  "apply_masks h c p =
     (if masks c = [] then (True, p)
      else if uh_unshare h \<noteq> 0 then (uh_unshare h = EPERM_ERR \<and> list_all snd (masks c), p)
      else if \<not> uh_make_private h then (False, p)
      else mask_all h (map fst (masks c)) (logged M_namespace (p\<lparr>px_private_ns := True\<rparr>)))"

section \<open>Capability drops\<close>

definition SECBITS_WANTED :: u32 where
  "SECBITS_WANTED = 0x40 OR 0x80 OR 0x02 OR 0x08"

datatype drop_result = Drops_done | Drops_skipped | Drops_failed

fun drop_caps :: "uhost \<Rightarrow> string list \<Rightarrow> proc \<Rightarrow> drop_result \<times> proc" where
  "drop_caps h [] p = (Drops_done, p)"
| "drop_caps h (n # ns) p =
     (let cap = resolve_cap n
      in if cap < 0 then (Drops_failed, p)
         else let e = uh_capbset_drop h cap
              in if e = 0 then drop_caps h ns (logged M_cap_drop (p\<lparr>px_dropped := px_dropped p @ [cap]\<rparr>))
                 else if e = EINVAL then drop_caps h ns p
                 else if e = EPERM_ERR \<and> uh_euid h \<noteq> 0 then (Drops_skipped, p)
                 else (Drops_failed, p))"

text \<open>What follows the drops: ambient and inheritable sets, and the locked securebits.\<close>

definition lock_caps :: "uhost \<Rightarrow> pstep" where
  "lock_caps h p =
     (if uh_ambient_clear h \<noteq> 0 \<and> uh_ambient_clear h \<noteq> EINVAL then (False, p)
      else let p1 = p\<lparr>px_ambient_clear := px_ambient_clear p \<or> uh_ambient_clear h = 0\<rparr>
           in if \<not> uh_capget h then (False, p1)
              else if \<not> uh_capset h then (False, p1)
              else let p2 = p1\<lparr>px_inheritable_clear := True\<rparr>
                   in case uh_get_securebits h of
                        None \<Rightarrow> (False, p2)
                      | Some sb \<Rightarrow>
                          if uh_set_securebits h (sb OR SECBITS_WANTED)
                          then (True, logged M_cap_lock (p2\<lparr>px_securebits := Some (sb OR SECBITS_WANTED)\<rparr>))
                          else (False, p2))"

definition apply_cap_drops :: "uhost \<Rightarrow> Config \<Rightarrow> pstep" where
  "apply_cap_drops h c p =
     (if cap_drop_names c = [] then (True, p)
      else case drop_caps h (cap_drop_names c) p of
        (Drops_failed, p') \<Rightarrow> (False, p')
      | (Drops_skipped, p') \<Rightarrow> (True, p')
      | (Drops_done, p') \<Rightarrow> lock_caps h p')"

section \<open>Inherited descriptors\<close>

text \<open>The descriptor a name of \<^verbatim>\<open>/proc/self/fd\<close> stands for, if the loop looks at it.\<close>

definition fd_of_name :: "uhost \<Rightarrow> string \<Rightarrow> int option" where
  "fd_of_name h name =
     (case strtol 10 name of
        (fd, rest, overflow) \<Rightarrow>
          if overflow \<or> rest = name \<or> rest \<noteq> [] \<or> fd < 3 \<or> fd > INT_MAX \<or> fd = uh_scan_fd h then None else Some fd)"

fun close_fds :: "uhost \<Rightarrow> string list \<Rightarrow> pstep" where
  "close_fds h [] p = (True, p)"
| "close_fds h (n # ns) p =
     (case fd_of_name h n of
        None \<Rightarrow> close_fds h ns p
      | Some fd \<Rightarrow>
          let e = uh_close h fd; gone = p\<lparr>px_fds := filter (\<lambda>x. x \<noteq> fd) (px_fds p)\<rparr>
          in if e = 0 \<or> e = EBADF \<or> uh_set_cloexec h fd then close_fds h ns gone
             else (False, snd (close_fds h ns p)))"

definition close_inherited_fds :: "uhost \<Rightarrow> pstep" where
  "close_inherited_fds h p =
     (if uh_close_range h then (True, logged M_fds (p\<lparr>px_fds := filter (\<lambda>x. x < 3) (px_fds p)\<rparr>))
      else case uh_fd_dir h of
        None \<Rightarrow> (False, p)
      | Some (names, complete) \<Rightarrow>
          (case close_fds h names p of
             (ok, p') \<Rightarrow> (ok \<and> complete, if ok \<and> complete then logged M_fds p' else p')))"

section \<open>The other mechanisms\<close>

definition set_no_new_privs :: "uhost \<Rightarrow> Config \<Rightarrow> pstep" where
  "set_no_new_privs h c p =
     (if \<not> use_no_new_privs c then (True, p)
      else if uh_set_nnp h then (True, logged M_nnp (p\<lparr>px_nnp := True\<rparr>)) else (False, p))"

definition strip_env :: "Config \<Rightarrow> pstep" where
  "strip_env c p =
     (True, if use_env_sanitize c then logged M_env (p\<lparr>px_env := sanitize_env c (px_env p)\<rparr>) else p)"

definition use_landlock_step :: "uhost \<Rightarrow> Config \<Rightarrow> pstep" where
  "use_landlock_step h c p =
     (if \<not> use_landlock c then (True, p)
      else case apply_landlock (uh_ll h) c of
        (r, rs) \<Rightarrow> if r \<noteq> 0 then (False, p) else (True, logged M_landlock (p\<lparr>px_landlock := rs\<rparr>)))"

definition use_seccomp_step :: "uhost \<Rightarrow> Config \<Rightarrow> pstep" where
  "use_seccomp_step h c p =
     (if \<not> use_seccomp c then (True, p)
      else case apply_seccomp (uh_sc h) (h_target (uh_host h)) c of
        (r, prog) \<Rightarrow> if r \<noteq> 0 then (False, p) else (True, logged M_seccomp (p\<lparr>px_seccomp := prog\<rparr>)))"

definition change_dir :: "uhost \<Rightarrow> Config \<Rightarrow> pstep" where
  "change_dir h c p =
     (case workdir c of
        None \<Rightarrow> (True, p)
      | Some w \<Rightarrow> if uh_chdir h w then (True, logged M_chdir (p\<lparr>px_cwd := Some w\<rparr>)) else (False, p))"

definition apply_hardening :: "uhost \<Rightarrow> proc \<Rightarrow> proc" where
  "apply_hardening h p =
     logged M_harden (p\<lparr>px_ambient_clear := px_ambient_clear p \<or> uh_ambient_clear h = 0,
                        px_dumpable := px_dumpable p \<and> \<not> uh_set_dumpable h\<rparr>)"

section \<open>Shell-replacement mode\<close>

definition REAL_SHELL_DIR :: string where "REAL_SHELL_DIR = ''/bin/shells''"

text \<open>A \<^verbatim>\<open>..\<close> component; the flag is whether a component starts here.\<close>

fun dotdot :: "bool \<Rightarrow> string \<Rightarrow> bool" where
  "dotdot start [] = False"
| "dotdot start (c # cs) =
     ((start \<and> c = CHR ''.'' \<and> char_at cs 0 = CHR ''.'' \<and> (char_at cs 1 = CHR ''/'' \<or> char_at cs 1 = NUL)) \<or>
      dotdot (c = CHR ''/'') cs)"

definition shell_dir_acceptable :: "uhost \<Rightarrow> string \<Rightarrow> string \<Rightarrow> bool" where
  "shell_dir_acceptable h dir shell_name =
     (if char_at dir 0 \<noteq> CHR ''/'' then False
      else if dotdot True dir then False
      else case uh_open_shell_dir h dir of
        None \<Rightarrow> False
      | Some st \<Rightarrow>
          profile_fd_trusted (uh_host h) 0 S_IFDIR st \<and>
          (case uh_open_shell h dir shell_name of
             None \<Rightarrow> False
           | Some st \<Rightarrow> profile_fd_trusted (uh_host h) 0 S_IFREG st))"

datatype outcome = Exited int | Execed string "string list" | Dumped "string list"

definition initial_config :: Config where
  "initial_config = empty_config\<lparr>use_landlock := True, use_seccomp := True, use_no_new_privs := True,
     use_env_sanitize := True, audit_log_fd := - 1, profile_name := Some ''ai-agent''\<rparr>"

text \<open>The policy of a shell: refused, or whether it is the operator's own and the policy.\<close>

definition shell_policy :: "uhost \<Rightarrow> (bool \<times> Config) option" where
  "shell_policy h =
     (case resolve_and_load_profile (uh_host h) 0 0 ''shell-replacement'' initial_config of
        (PROFILE_ERROR, _) \<Rightarrow> None
      | (PROFILE_OK, c) \<Rightarrow> Some (True, c\<lparr>profile_name := Some ''shell-replacement''\<rparr>)
      | (PROFILE_NOT_FOUND, c) \<Rightarrow>
          (case resolve_and_load_profile (uh_host h) 0 0 ''ai-agent'' c of
             (PROFILE_OK, c') \<Rightarrow> Some (False, c')
           | (_, c') \<Rightarrow> Some (False, snd (apply_profile_ai_agent (uh_host h) c'))))"

text \<open>A mechanism whose failure is counted and not fatal.\<close>

definition degrading :: "pstep \<Rightarrow> nat \<times> proc \<Rightarrow> nat \<times> proc" where
  "degrading s dp = (case s (snd dp) of (ok, p) \<Rightarrow> (if ok then fst dp else Suc (fst dp), p))"

definition shell_session :: "uhost \<Rightarrow> bool \<Rightarrow> Config \<Rightarrow> string \<Rightarrow> string list \<Rightarrow> proc \<Rightarrow> outcome \<times> proc" where
  "shell_session h strict c real_shell argv p =
     (let d0 = preflight_check h c
      in case run_psteps [apply_masks h c, apply_cap_drops h c] p of
           (False, p1) \<Rightarrow> (Exited 126, p1)
         | (True, p1) \<Rightarrow>
             let (d2, p2) = degrading (set_no_new_privs h c) (d0, p1);
                 p3 = snd (strip_env c p2)
             in case close_inherited_fds h p3 of
                  (False, p4) \<Rightarrow> (Exited 126, p4)
                | (True, p4) \<Rightarrow>
                    let (d6, p6) = degrading (use_seccomp_step h c) (degrading (use_landlock_step h c) (d2, p4))
                    in if d6 > 0 \<and> strict then (Exited 126, p6)
                       else (Execed real_shell argv, apply_hardening h p6))"

definition shell_main :: "uhost \<Rightarrow> string \<Rightarrow> string list \<Rightarrow> proc \<Rightarrow> outcome \<times> proc" where
  "shell_main h shell_name argv p =
     (let dir = (case uh_SHELL_DIR h of
                   Some d \<Rightarrow> if shell_dir_acceptable h d shell_name then d else REAL_SHELL_DIR
                 | None \<Rightarrow> REAL_SHELL_DIR);
          real_shell = dir @ CHR ''/'' # shell_name
      in if length real_shell \<ge> PATH_MAX then (Exited 126, p)
         else case shell_policy h of
           None \<Rightarrow> (Exited 126, p)
         | Some (strict, c) \<Rightarrow> shell_session h strict c real_shell argv p)"

section \<open>The policy as a profile\<close>

definition syscall_name :: "target \<Rightarrow> int \<Rightarrow> string option" where
  "syscall_name t nr = map_option fst (find (\<lambda>(n, k). k = nr) (syscall_table t))"

definition mode_name :: "PathMode \<Rightarrow> string" where
  "mode_name m = (case m of PATH_RO \<Rightarrow> ''ro'' | PATH_RW \<Rightarrow> ''rw'' | PATH_EXEC \<Rightarrow> ''exec'' | PATH_RWX \<Rightarrow> ''rwx'')"

definition directive :: "string \<Rightarrow> string \<Rightarrow> string" where
  "directive d v = d @ '' '' @ v"

definition dump_path :: "PathRule \<Rightarrow> string" where
  "dump_path r = directive (mode_name (pr_mode r)) (pr_path r @ (if pr_optional r then ''?'' else []))"

definition dump_mask :: "string \<times> bool \<Rightarrow> string" where
  "dump_mask m = directive ''mask'' (fst m @ (if snd m then ''?'' else []))"

definition dump_syscall :: "target \<Rightarrow> string \<Rightarrow> int \<Rightarrow> string" where
  "dump_syscall t d nr =
     (case syscall_name t nr of
        Some n \<Rightarrow> directive d n
      | None \<Rightarrow> ''# '' @ d @ '' <unnamed syscall '' @ show_int nr @ ''>'')"

definition dump_net :: "Config \<Rightarrow> string list" where
  "dump_net c =
     (if net_bind_ports c \<noteq> [] \<or> net_connect_ports c \<noteq> [] \<or> net_default_deny c then
        [[], ''# Network (Landlock TCP ports)''] @
        map (\<lambda>n. directive ''net-bind'' (show_int n)) (net_bind_ports c) @
        map (\<lambda>n. directive ''net-connect'' (show_int n)) (net_connect_ports c) @
        (if net_default_deny c then [''net-default deny''] else [])
      else [])"

definition dump_seccomp :: "target \<Rightarrow> Config \<Rightarrow> string list" where
  "dump_seccomp t c =
     (if seccomp_default c \<noteq> SECCOMP_DEFAULT_ERRNO then [[], directive ''seccomp-default'' (seccomp_action_name c)] else []) @
     (if seccomp_allow_mode c
      then [[], ''# Syscall allow-list (seccomp)'', ''seccomp-mode allow''] @ map (dump_syscall t ''allow'') (allowed_syscalls c)
      else [[], ''# Syscall deny-list (seccomp)''] @ map (dump_syscall t ''block'') (blocked_syscalls c))"

definition prefix_hint :: string where
  "prefix_hint = CHR 0x27 # CHR ''*'' # CHR 0x27 # '' suffix = prefix match)''"

definition dump_env :: "Config \<Rightarrow> string list" where
  "dump_env c =
     (if env_allow_mode c
      then [[], ''# Environment allow-list ('' @ prefix_hint, ''env-mode allow''] @ map (directive ''env-allow'' \<circ> fst) (env_allow c)
      else [[], ''# Environment deny-list ('' @ prefix_hint] @ map (directive ''env-deny'' \<circ> fst) (env_deny c))"

text \<open>The lines of \<^verbatim>\<open>dump_profile\<close>.\<close>

definition dump_profile :: "target \<Rightarrow> Config \<Rightarrow> string list" where
  "dump_profile t c =
     [''# Generated by: compartment-user --dump-profile '' @ (case profile_name c of Some n \<Rightarrow> n | None \<Rightarrow> []),
      ''# Source: '' @ (case profile_source c of Some s \<Rightarrow> s | None \<Rightarrow> ''built-in''), ''#'', ''# Filesystem (Landlock)''] @
     map dump_path (paths c) @ dump_net c @
     (case workdir c of Some w \<Rightarrow> [[], directive ''workdir'' w] | None \<Rightarrow> []) @
     dump_seccomp t c @ dump_env c @
     (if cap_drop_names c \<noteq> [] then [[], ''# Capability bounding-set drops''] @ map (directive ''cap-drop'') (cap_drop_names c) else []) @
     (if masks c \<noteq> [] then [[], ''# Mount masks (private mount namespace)''] @ map dump_mask (masks c) else []) @
     [[], ''# Features (a profile may only turn these on)'', ''landlock on'', ''seccomp on'', ''no-new-privs on'', ''env-sanitize on''] @
     (if audit c then [''audit on''] else []) @
     (case audit_log_dir c of Some d \<Rightarrow> [directive ''audit-log'' d] | None \<Rightarrow> [])"

section \<open>Command-line mode\<close>

text \<open>The options as \<^verbatim>\<open>getopt_long\<close> delivers them, by the letter or number of the source.\<close>

datatype uopt =
    O_profile string | O_ro string | O_rw string | O_exec string | O_workdir string
  | O_block string | O_allow string | O_env_deny string | O_env_allow string
  | O_no_landlock | O_no_seccomp | O_no_env_sanitize | O_dry_run | O_verbose | O_audit | O_audit_log string
  | O_insecure | O_verify | O_net_bind string | O_net_connect string | O_net_deny | O_cap_drop string | O_mask string
  | O_user_profiles | O_dump_profile string | O_version | O_help | O_unknown

record ucli =
  uc_cfg :: Config
  uc_flags :: u32
  uc_dump :: bool

definition on_cfg :: "ucli \<Rightarrow> Config option \<Rightarrow> int + ucli" where
  "on_cfg s r = (case r of None \<Rightarrow> Inl 1 | Some c \<Rightarrow> Inr (s\<lparr>uc_cfg := c\<rparr>))"

text \<open>One turn of the option loop: an exit code, or the state for the next.\<close>

definition user_opt :: "uhost \<Rightarrow> uopt \<Rightarrow> ucli \<Rightarrow> int + ucli" where
  "user_opt h opt s =
     (let c = uc_cfg s; t = h_target (uh_host h)
      in case opt of
        O_profile n \<Rightarrow> on_cfg s (Some (c\<lparr>profile_name := Some n\<rparr>))
      | O_ro p \<Rightarrow> on_cfg s (cfg_add_path p PATH_RO False c)
      | O_rw p \<Rightarrow> on_cfg s (cfg_add_path p PATH_RW False c)
      | O_exec p \<Rightarrow> on_cfg s (cfg_add_path p PATH_EXEC False c)
      | O_workdir w \<Rightarrow> on_cfg s (Some (replace_workdir w c))
      | O_block n \<Rightarrow> (let nr = resolve_syscall t n in if nr < 0 then Inl 1 else on_cfg s (cfg_add_blocked nr c))
      | O_allow n \<Rightarrow> (let nr = resolve_syscall t n in if nr < 0 then Inl 1 else on_cfg s (cfg_add_allowed nr c))
      | O_env_deny n \<Rightarrow> on_cfg s (cfg_add_env_deny False n c)
      | O_env_allow n \<Rightarrow> on_cfg s (map_option (\<lambda>c. c\<lparr>use_env_sanitize := True\<rparr>) (cfg_add_env_allow False n c))
      | O_no_landlock \<Rightarrow> on_cfg s (Some (c\<lparr>use_landlock := False\<rparr>))
      | O_no_seccomp \<Rightarrow> on_cfg s (Some (c\<lparr>use_seccomp := False\<rparr>))
      | O_no_env_sanitize \<Rightarrow> on_cfg s (Some (c\<lparr>use_env_sanitize := False\<rparr>))
      | O_dry_run \<Rightarrow> on_cfg s (Some (c\<lparr>dry_run := True, verbose := True\<rparr>))
      | O_verbose \<Rightarrow> on_cfg s (Some (c\<lparr>verbose := True\<rparr>))
      | O_audit \<Rightarrow> on_cfg s (Some (c\<lparr>audit := True\<rparr>))
      | O_audit_log d \<Rightarrow> on_cfg s (Some (replace_audit_log d c))
      | O_insecure \<Rightarrow> on_cfg s (Some (c\<lparr>allow_insecure := True\<rparr>))
      | O_verify \<Rightarrow> Inl (uh_verify h)
      | O_net_bind n \<Rightarrow> on_cfg s (map_option (\<lambda>l. c\<lparr>net_bind_ports := l\<rparr>) (cfg_add_net_port n (net_bind_ports c)))
      | O_net_connect n \<Rightarrow> on_cfg s (map_option (\<lambda>l. c\<lparr>net_connect_ports := l\<rparr>) (cfg_add_net_port n (net_connect_ports c)))
      | O_net_deny \<Rightarrow> on_cfg s (Some (c\<lparr>net_default_deny := True\<rparr>))
      | O_cap_drop n \<Rightarrow>
          if resolve_cap n < 0 then Inl 1
          else on_cfg s (map_option (\<lambda>l. c\<lparr>cap_drop_names := l\<rparr>) (cfg_add_str MAX_ENV_VARS n (cap_drop_names c)))
      | O_mask p \<Rightarrow> on_cfg s (cfg_add_mask p c)
      | O_user_profiles \<Rightarrow> Inr (s\<lparr>uc_flags := uc_flags s OR PROFILE_SEARCH_USER\<rparr>)
      | O_dump_profile n \<Rightarrow> Inr (s\<lparr>uc_cfg := c\<lparr>profile_name := Some n\<rparr>, uc_dump := True\<rparr>)
      | O_version \<Rightarrow> Inl 0
      | O_help \<Rightarrow> Inl 0
      | O_unknown \<Rightarrow> Inl 1)"

fun user_opts :: "uhost \<Rightarrow> uopt list \<Rightarrow> ucli \<Rightarrow> int + ucli" where
  "user_opts h [] s = Inr s"
| "user_opts h (o1 # os) s = (case user_opt h o1 s of Inl r \<Rightarrow> Inl r | Inr s' \<Rightarrow> user_opts h os s')"

text \<open>The profile: from a file, or built in; \<^term>\<open>None\<close> when the launcher refuses to run.\<close>

definition load_user_profile :: "uhost \<Rightarrow> u32 \<Rightarrow> Config \<Rightarrow> Config option" where
  "load_user_profile h flags c =
     (let name = (case profile_name c of Some n \<Rightarrow> n | None \<Rightarrow> []);
          built_in = map_option (\<lambda>c. c\<lparr>profile_source := Some ''built-in''\<rparr>)
      in if name = ''none'' then Some c
         else case resolve_and_load_profile (uh_host h) 0 flags name c of
           (PROFILE_ERROR, _) \<Rightarrow> None
         | (PROFILE_OK, c') \<Rightarrow> Some c'
         | (PROFILE_NOT_FOUND, c') \<Rightarrow>
             if name = ''ai-agent'' then
               built_in (case apply_profile_ai_agent (uh_host h) c' of (ok, c'') \<Rightarrow> if ok then Some c'' else None)
             else if name = ''strict'' then
               built_in (case apply_profile_strict (uh_host h) c' of (ok, c'') \<Rightarrow> if ok then Some c'' else None)
             else None)"

text \<open>What the command line disabled stays disabled.\<close>

definition cli_wins :: "Config \<Rightarrow> Config \<Rightarrow> Config" where
  "cli_wins cli c =
     c\<lparr>use_landlock := use_landlock c \<and> use_landlock cli, use_seccomp := use_seccomp c \<and> use_seccomp cli,
       use_env_sanitize := use_env_sanitize c \<and> use_env_sanitize cli\<rparr>"

definition add_workdir :: "Config \<Rightarrow> Config option" where
  "add_workdir c =
     (case workdir c of
        None \<Rightarrow> Some c
      | Some w \<Rightarrow>
          if list_ex (\<lambda>r. pr_mode r = PATH_RW \<and> pr_path r = w) (paths c) then Some c
          else cfg_add_path w PATH_RW False c)"

definition user_policy :: "uhost \<Rightarrow> ucli \<Rightarrow> Config option" where
  "user_policy h s =
     (case load_user_profile h (uc_flags s) (uc_cfg s) of
        None \<Rightarrow> None
      | Some c \<Rightarrow>
          (case add_workdir (cli_wins (uc_cfg s) c) of
             None \<Rightarrow> None
           | Some c \<Rightarrow> if use_landlock c \<and> config_check_additive (uh_ll h) c \<noteq> 0 then None else Some c))"

text \<open>\<^verbatim>\<open>snprintf\<close> into buffers of 512 and 256 bytes.\<close>

definition start_detail :: "string \<Rightarrow> Config \<Rightarrow> string" where
  "start_detail cmd c =
     take 511 (''command='' @ cmd @ '' profile='' @ (case profile_name c of Some n \<Rightarrow> n | None \<Rightarrow> []) @
       '' source='' @ (case profile_source c of Some s \<Rightarrow> s | None \<Rightarrow> ''built-in'') @
       '' landlock='' @ (if use_landlock c then ''1'' else ''0'') @ '' seccomp='' @ (if use_seccomp c then ''1'' else ''0'') @
       '' paths='' @ show_nat (length (paths c)) @ '' blocked='' @ show_nat (length (blocked_syscalls c)))"

definition degraded_detail :: "nat \<Rightarrow> string" where
  "degraded_detail n = take 255 (''INSECURE_MODE warnings='' @ show_nat n)"

definition audit_event_step :: "uhost \<Rightarrow> Config \<Rightarrow> string \<Rightarrow> string \<Rightarrow> proc \<Rightarrow> proc" where
  "audit_event_step h c event detail p =
     p\<lparr>px_audit := px_audit p @ snd (audit_log (uh_audit h) c (Some event) (Some detail))\<rparr>"

definition audit_start :: "uhost \<Rightarrow> string \<Rightarrow> Config \<Rightarrow> proc \<Rightarrow> (Config \<times> proc) option" where
  "audit_start h cmd c p =
     (if \<not> audit c then Some (c, p)
      else case audit_log_open (uh_audit h) c of
        (r, _, c') \<Rightarrow>
          if r \<noteq> 0 then None
          else Some (c', audit_event_step h c' ''COMPARTMENT_START'' (start_detail cmd c') p))"

definition mechanisms :: "uhost \<Rightarrow> Config \<Rightarrow> pstep list" where
  "mechanisms h c =
     [set_no_new_privs h c, strip_env c, apply_masks h c, apply_cap_drops h c, close_inherited_fds h,
      use_landlock_step h c, use_seccomp_step h c, change_dir h c]"

text \<open>From the policy to the \<^verbatim>\<open>exec\<close>.\<close>

definition launch :: "uhost \<Rightarrow> Config \<Rightarrow> string list \<Rightarrow> proc \<Rightarrow> outcome \<times> proc" where
  "launch h c argv p =
     (case audit_start h (hd argv) c p of
        None \<Rightarrow> (Exited 1, p)
      | Some (c, p) \<Rightarrow>
          let pf = preflight_check h c
          in if pf > 0 \<and> \<not> allow_insecure c then (Exited 1, p)
             else let p = (if pf > 0 \<and> audit c then audit_event_step h c ''COMPARTMENT_DEGRADED'' (degraded_detail pf) p else p)
                  in case run_psteps (mechanisms h c) p of
                       (False, p) \<Rightarrow> (Exited 1, p)
                     | (True, p) \<Rightarrow> (Execed (hd argv) argv, apply_hardening h p))"

definition cli_main :: "uhost \<Rightarrow> uopt list \<Rightarrow> string list \<Rightarrow> proc \<Rightarrow> outcome \<times> proc" where
  "cli_main h opts argv p =
     (case user_opts h opts \<lparr>uc_cfg = initial_config, uc_flags = 0, uc_dump = False\<rparr> of
        Inl r \<Rightarrow> (Exited r, p)
      | Inr s \<Rightarrow>
          if argv = [] \<and> \<not> uc_dump s then (Exited 1, p)
          else case user_policy h s of
            None \<Rightarrow> (Exited 1, p)
          | Some c \<Rightarrow>
              if uc_dump s then (Dumped (dump_profile (h_target (uh_host h)) c), p)
              else if dry_run c then (Exited 0, p)
              else launch h c argv p)"

text \<open>
  \<^verbatim>\<open>main\<close>: the name the program was called by, with the dash of a login shell; its whole argument
  vector, which a shell receives; and the options and operands of the command-line mode.
\<close>

definition user_main :: "uhost \<Rightarrow> string \<Rightarrow> string list \<Rightarrow> uopt list \<Rightarrow> string list \<Rightarrow> proc \<Rightarrow> outcome \<times> proc" where
  "user_main h invoked_name argv opts operands p =
     (let shell_name = (if char_at invoked_name 0 = CHR ''-'' \<and> char_at invoked_name 1 \<noteq> NUL then drop 1 invoked_name else invoked_name)
      in if shell_name \<noteq> ''compartment-user'' then shell_main h shell_name argv p
         else cli_main h opts operands p)"

end
