(* ===== verification/User_Mechanisms.thy ===== *)
theory User_Mechanisms
  imports User_Launch
begin

text \<open>
  The mechanisms of \<^verbatim>\<open>compartment-user\<close>, one by one: what each writes, and what is in force when it
  succeeded.  The contract \<^verbatim>\<open>logged_step\<close> is interpreted on every mechanism of the
  launcher.
\<close>

section \<open>The mechanisms keep the contract\<close>

lemma logged_fields [simp]:
  "px_log (logged m p) = px_log p @ [m]" "px_nnp (logged m p) = px_nnp p" "px_env (logged m p) = px_env p"
  "px_private_ns (logged m p) = px_private_ns p" "px_masked (logged m p) = px_masked p" "px_dropped (logged m p) = px_dropped p"
  "px_ambient_clear (logged m p) = px_ambient_clear p" "px_inheritable_clear (logged m p) = px_inheritable_clear p"
  "px_securebits (logged m p) = px_securebits p" "px_fds (logged m p) = px_fds p" "px_landlock (logged m p) = px_landlock p"
  "px_seccomp (logged m p) = px_seccomp p" "px_cwd (logged m p) = px_cwd p" "px_dumpable (logged m p) = px_dumpable p"
  "px_audit (logged m p) = px_audit p"
  by (simp_all add: logged_def)

interpretation nnp: logged_step px_log "set_no_new_privs h c" "{M_nnp}" for h c
  by unfold_locales (simp add: set_no_new_privs_def)

interpretation env: logged_step px_log "strip_env c" "{M_env}" for c
  by unfold_locales (simp add: strip_env_def)

lemma mask_one_log: "\<exists>l. px_log (snd (mask_one h m p)) = px_log p @ l \<and> set l \<subseteq> {M_mask}"
  by (auto simp: mask_one_def split: sum.splits)

lemma mask_all_log: "\<exists>l. px_log (snd (mask_all h ms p)) = px_log p @ l \<and> set l \<subseteq> {M_mask}"
proof (induction ms arbitrary: p)
  case (Cons m ms)
  obtain ok p' where o: "mask_one h m p = (ok, p')" by fastforce
  then obtain l where l: "px_log p' = px_log p @ l" "set l \<subseteq> {M_mask}" using mask_one_log [of h m p] by auto
  obtain l' where l': "px_log (snd (mask_all h ms p')) = px_log p' @ l'" "set l' \<subseteq> {M_mask}" using Cons [of p'] by auto
  show ?case using o l l' by (cases ok) (auto intro: exI [of _ "l @ l'"])
qed simp

interpretation mask: logged_step px_log "apply_masks h c" "{M_namespace, M_mask}" for h c
proof
  fix p
  obtain l where "px_log (snd (mask_all h (map fst (masks c)) (logged M_namespace (p\<lparr>px_private_ns := True\<rparr>)))) =
      (px_log p @ [M_namespace]) @ l" "set l \<subseteq> {M_mask}"
    using mask_all_log [of h "map fst (masks c)" "logged M_namespace (p\<lparr>px_private_ns := True\<rparr>)"] by auto
  then show "\<exists>l. px_log (snd (apply_masks h c p)) = px_log p @ l \<and> set l \<subseteq> {M_namespace, M_mask}"
    by (auto simp: apply_masks_def intro: exI [of _ "M_namespace # l"])
qed

lemma drop_caps_log: "\<exists>l. px_log (snd (drop_caps h ns p)) = px_log p @ l \<and> set l \<subseteq> {M_cap_drop}"
proof (induction ns arbitrary: p)
  case (Cons n ns)
  let ?p = "logged M_cap_drop (p\<lparr>px_dropped := px_dropped p @ [resolve_cap n]\<rparr>)"
  obtain l where l: "px_log (snd (drop_caps h ns ?p)) = (px_log p @ [M_cap_drop]) @ l" "set l \<subseteq> {M_cap_drop}" using Cons [of ?p] by auto
  obtain l' where "px_log (snd (drop_caps h ns p)) = px_log p @ l'" "set l' \<subseteq> {M_cap_drop}" using Cons [of p] by auto
  then show ?case using l by (auto simp: Let_def intro: exI [of _ "M_cap_drop # l"])
qed simp

lemma lock_caps_log: "\<exists>l. px_log (snd (lock_caps h p)) = px_log p @ l \<and> set l \<subseteq> {M_cap_lock}"
  by (auto simp: lock_caps_def Let_def split: option.splits)

interpretation cap: logged_step px_log "apply_cap_drops h c" "{M_cap_drop, M_cap_lock}" for h c
proof
  fix p
  obtain r p' where d: "drop_caps h (cap_drop_names c) p = (r, p')" by fastforce
  then obtain l where l: "px_log p' = px_log p @ l" "set l \<subseteq> {M_cap_drop}" using drop_caps_log [of h "cap_drop_names c" p] by auto
  obtain l' where l': "px_log (snd (lock_caps h p')) = px_log p' @ l'" "set l' \<subseteq> {M_cap_lock}" using lock_caps_log by blast
  show "\<exists>l. px_log (snd (apply_cap_drops h c p)) = px_log p @ l \<and> set l \<subseteq> {M_cap_drop, M_cap_lock}"
    using d l l' by (cases r) (auto simp: apply_cap_drops_def)
qed

lemma close_fds_frame: "px_log (snd (close_fds h ns p)) = px_log p"
  by (induction ns arbitrary: p) (auto simp: Let_def split: option.splits)

interpretation fds: logged_step px_log "close_inherited_fds h" "{M_fds}" for h
  by unfold_locales (simp add: close_inherited_fds_def case_prod_beta close_fds_frame split: option.splits)

interpretation landlock: logged_step px_log "use_landlock_step h c" "{M_landlock}" for h c
  by unfold_locales (simp add: use_landlock_step_def split: prod.splits)

interpretation seccomp: logged_step px_log "use_seccomp_step h c" "{M_seccomp}" for h c
  by unfold_locales (simp add: use_seccomp_step_def split: prod.splits)

interpretation chdir: logged_step px_log "change_dir h c" "{M_chdir}" for h c
  by unfold_locales (simp add: change_dir_def split: option.splits)

section \<open>What each mechanism establishes\<close>

text \<open>The fields a mechanism writes; everything else is as before, and possibly these too.\<close>

lemma proc_same [simp]:
  "\<exists>a l. p = p\<lparr>px_nnp := a, px_log := l\<rparr>" "\<exists>a l. p = p\<lparr>px_landlock := a, px_log := l\<rparr>"
  "\<exists>a l. p = p\<lparr>px_seccomp := a, px_log := l\<rparr>" "\<exists>a l. p = p\<lparr>px_cwd := a, px_log := l\<rparr>"
  "\<exists>a l. p = p\<lparr>px_masked := px_masked p @ a, px_log := l\<rparr>" "\<exists>a l. p = p\<lparr>px_dropped := px_dropped p @ a, px_log := l\<rparr>"
  "\<exists>a b l. p = p\<lparr>px_private_ns := a, px_masked := b, px_log := l\<rparr>"
proof -
  show "\<exists>a l. p = p\<lparr>px_nnp := a, px_log := l\<rparr>" by (intro exI [of _ "px_nnp p"] exI [of _ "px_log p"]) simp
  show "\<exists>a l. p = p\<lparr>px_landlock := a, px_log := l\<rparr>" by (intro exI [of _ "px_landlock p"] exI [of _ "px_log p"]) simp
  show "\<exists>a l. p = p\<lparr>px_seccomp := a, px_log := l\<rparr>" by (intro exI [of _ "px_seccomp p"] exI [of _ "px_log p"]) simp
  show "\<exists>a l. p = p\<lparr>px_cwd := a, px_log := l\<rparr>" by (intro exI [of _ "px_cwd p"] exI [of _ "px_log p"]) simp
  show "\<exists>a l. p = p\<lparr>px_masked := px_masked p @ a, px_log := l\<rparr>" by (intro exI [of _ "[]"] exI [of _ "px_log p"]) simp
  show "\<exists>a l. p = p\<lparr>px_dropped := px_dropped p @ a, px_log := l\<rparr>" by (intro exI [of _ "[]"] exI [of _ "px_log p"]) simp
  show "\<exists>a b l. p = p\<lparr>px_private_ns := a, px_masked := b, px_log := l\<rparr>"
    by (intro exI [of _ "px_private_ns p"] exI [of _ "px_masked p"] exI [of _ "px_log p"]) simp
qed

lemma nnp_effect:
  "set_no_new_privs h c p = (ok, p') \<Longrightarrow> (ok \<longrightarrow> use_no_new_privs c \<longrightarrow> px_nnp p') \<and> (\<exists>a l. p' = p\<lparr>px_nnp := a, px_log := l\<rparr>)"
  by (auto simp: set_no_new_privs_def logged_def split: if_splits)

lemma env_effect:
  "strip_env c p = (ok, p') \<Longrightarrow> ok \<and> (\<exists>l. p' = p\<lparr>px_env := (if use_env_sanitize c then sanitize_env c (px_env p) else px_env p), px_log := l\<rparr>)"
  by (auto simp: strip_env_def logged_def intro: exI [of _ "px_log p"])

lemma landlock_effect:
  assumes "use_landlock_step h c p = (ok, p')"
  shows "(ok \<longrightarrow> use_landlock c \<longrightarrow> apply_landlock (uh_ll h) c = (0, px_landlock p')) \<and> (\<exists>a l. p' = p\<lparr>px_landlock := a, px_log := l\<rparr>)"
  using assms
  by (auto simp: use_landlock_step_def logged_def split: if_splits prod.splits)

lemma seccomp_effect:
  assumes "use_seccomp_step h c p = (ok, p')"
  shows "(ok \<longrightarrow> use_seccomp c \<longrightarrow> apply_seccomp (uh_sc h) (h_target (uh_host h)) c = (0, px_seccomp p')) \<and>
    (\<exists>a l. p' = p\<lparr>px_seccomp := a, px_log := l\<rparr>)"
  using assms
  by (auto simp: use_seccomp_step_def logged_def split: if_splits prod.splits)

lemma chdir_effect:
  assumes "change_dir h c p = (ok, p')"
  shows "(ok \<longrightarrow> (\<forall>w. workdir c = Some w \<longrightarrow> px_cwd p' = Some w)) \<and> (\<exists>a l. p' = p\<lparr>px_cwd := a, px_log := l\<rparr>)"
  using assms
  by (auto simp: change_dir_def logged_def split: if_splits option.splits)

definition mask_hidden :: "uhost \<Rightarrow> proc \<Rightarrow> string \<Rightarrow> bool" where
  "mask_hidden h p m \<longleftrightarrow> uh_lstat h m = Inl ENOENT \<or> (\<exists>d. uh_lstat h m = Inr d \<and> (m, d) \<in> set (px_masked p))"

lemma mask_one_effect:
  "mask_one h m p = (ok, p') \<Longrightarrow>
   (ok \<longrightarrow> mask_hidden h p' m) \<and> (\<exists>a l. p' = p\<lparr>px_masked := px_masked p @ a, px_log := l\<rparr>)"
  by (auto simp: mask_one_def mask_hidden_def logged_def split: sum.splits if_splits)

lemma mask_all_effect:
  "mask_all h ms p = (ok, p') \<Longrightarrow>
   (ok \<longrightarrow> (\<forall>m \<in> set ms. mask_hidden h p' m)) \<and> (\<exists>a l. p' = p\<lparr>px_masked := px_masked p @ a, px_log := l\<rparr>)"
proof (induction ms arbitrary: p)
  case Nil
  then show ?case by auto
next
  case (Cons m ms)
  obtain ok1 p1 where one: "mask_one h m p = (ok1, p1)" by fastforce
  then obtain a l where p1: "p1 = p\<lparr>px_masked := px_masked p @ a, px_log := l\<rparr>" "ok1 \<longrightarrow> mask_hidden h p1 m"
    using mask_one_effect by blast
  show ?case
  proof (cases ok1)
    case False
    then show ?thesis using Cons.prems one p1 by auto
  next
    case True
    then have r: "mask_all h ms p1 = (ok, p')" using Cons.prems one by simp
    from Cons.IH [OF r] obtain b l' where ih: "ok \<longrightarrow> (\<forall>m \<in> set ms. mask_hidden h p' m)"
      "p' = p1\<lparr>px_masked := px_masked p1 @ b, px_log := l'\<rparr>" by auto
    have "mask_hidden h p' m" using p1(2) True ih(2) by (auto simp: mask_hidden_def)
    then show ?thesis using ih p1(1) by auto
  qed
qed

text \<open>A mask is in force: nothing asked for, all optional and no privilege, or every path covered or absent.\<close>

definition masks_in_force :: "uhost \<Rightarrow> Config \<Rightarrow> proc \<Rightarrow> bool" where
  "masks_in_force h c p \<longleftrightarrow>
     masks c = [] \<or> (uh_unshare h = EPERM_ERR \<and> list_all snd (masks c)) \<or>
     (px_private_ns p \<and> (\<forall>m \<in> set (masks c). mask_hidden h p (fst m)))"

lemma masks_effect:
  assumes "apply_masks h c p = (ok, p')"
  shows "(ok \<longrightarrow> masks_in_force h c p') \<and> (\<exists>a b l. p' = p\<lparr>px_private_ns := a, px_masked := b, px_log := l\<rparr>)"
proof (cases "masks c = [] \<or> uh_unshare h \<noteq> 0 \<or> \<not> uh_make_private h")
  case True
  then have "p' = p" "ok \<longrightarrow> masks_in_force h c p'" using assms by (auto simp: apply_masks_def masks_in_force_def split: if_splits)
  then show ?thesis by auto
next
  case False
  then have r: "mask_all h (map fst (masks c)) (logged M_namespace (p\<lparr>px_private_ns := True\<rparr>)) = (ok, p')"
    using assms by (simp add: apply_masks_def)
  from mask_all_effect [OF r] show ?thesis by (auto simp: masks_in_force_def logged_def)
qed

text \<open>
  The drops are in force: every named capability left the bounding set or does not exist on
  this kernel and the sets are cleared and locked; or an unprivileged process was told that it
  has nothing to drop.
\<close>

definition cap_gone :: "uhost \<Rightarrow> proc \<Rightarrow> string \<Rightarrow> bool" where
  "cap_gone h p n \<longleftrightarrow> resolve_cap n \<in> set (px_dropped p) \<or> uh_capbset_drop h (resolve_cap n) = EINVAL"

definition caps_in_force :: "uhost \<Rightarrow> Config \<Rightarrow> proc \<Rightarrow> bool" where
  "caps_in_force h c p \<longleftrightarrow>
     cap_drop_names c = [] \<or>
     ((\<forall>n \<in> set (cap_drop_names c). cap_gone h p n) \<and> px_inheritable_clear p \<and>
      (px_ambient_clear p \<or> uh_ambient_clear h = EINVAL) \<and>
      (\<exists>sb. px_securebits p = Some sb \<and> sb AND SECBITS_WANTED = SECBITS_WANTED)) \<or>
     (uh_euid h \<noteq> 0 \<and> (\<exists>n \<in> set (cap_drop_names c). uh_capbset_drop h (resolve_cap n) = EPERM_ERR))"

lemma drop_caps_effect:
  "drop_caps h ns p = (r, p') \<Longrightarrow>
   (r = Drops_done \<longrightarrow> (\<forall>n \<in> set ns. cap_gone h p' n)) \<and>
   (r = Drops_skipped \<longrightarrow> uh_euid h \<noteq> 0 \<and> (\<exists>n \<in> set ns. uh_capbset_drop h (resolve_cap n) = EPERM_ERR)) \<and>
   (\<exists>a l. p' = p\<lparr>px_dropped := px_dropped p @ a, px_log := l\<rparr>)"
proof (induction ns arbitrary: p)
  case Nil
  then show ?case by auto
next
  case (Cons n ns)
  let ?p1 = "logged M_cap_drop (p\<lparr>px_dropped := px_dropped p @ [resolve_cap n]\<rparr>)"
  consider "resolve_cap n < 0 \<or> (uh_capbset_drop h (resolve_cap n) \<notin> {0, EINVAL} \<and> \<not> (uh_capbset_drop h (resolve_cap n) = EPERM_ERR \<and> uh_euid h \<noteq> 0))"
    | "\<not> resolve_cap n < 0" "uh_capbset_drop h (resolve_cap n) = EPERM_ERR" "uh_euid h \<noteq> 0"
    | "\<not> resolve_cap n < 0" "uh_capbset_drop h (resolve_cap n) = 0"
    | "\<not> resolve_cap n < 0" "uh_capbset_drop h (resolve_cap n) = EINVAL"
    by auto
  then show ?case
  proof cases
    case 1
    then have "r = Drops_failed" "p' = p" using Cons.prems by (auto simp: Let_def split: if_splits)
    then show ?thesis by auto
  next
    case 2
    then have "r = Drops_skipped" "p' = p" using Cons.prems by (auto simp: Let_def EPERM_ERR_def EINVAL_def)
    then show ?thesis using 2 by auto
  next
    case 3
    then have "drop_caps h ns ?p1 = (r, p')" using Cons.prems by (simp add: Let_def)
    from Cons.IH [OF this] obtain a l where ih: "r = Drops_done \<longrightarrow> (\<forall>n \<in> set ns. cap_gone h p' n)"
      "r = Drops_skipped \<longrightarrow> uh_euid h \<noteq> 0 \<and> (\<exists>n \<in> set ns. uh_capbset_drop h (resolve_cap n) = EPERM_ERR)"
      "p' = ?p1\<lparr>px_dropped := px_dropped ?p1 @ a, px_log := l\<rparr>" by auto
    have "cap_gone h p' n" by (simp add: ih(3) cap_gone_def)
    then show ?thesis using ih by (auto simp: logged_def)
  next
    case 4
    then have "drop_caps h ns p = (r, p')" using Cons.prems by (simp add: Let_def EINVAL_def)
    then show ?thesis using Cons.IH 4 by (auto simp: cap_gone_def)
  qed
qed

lemma or_and_absorb: "(a OR b) AND b = (b :: u32)"
  by (simp add: bit_eq_iff bit_and_iff bit_or_iff)

lemma lock_caps_effect:
  assumes "lock_caps h p = (ok, p')"
  shows "(ok \<longrightarrow> px_inheritable_clear p' \<and> (px_ambient_clear p' \<or> uh_ambient_clear h = EINVAL) \<and>
      (\<exists>sb. px_securebits p' = Some sb \<and> sb AND SECBITS_WANTED = SECBITS_WANTED)) \<and>
    (\<exists>a b d l. p' = p\<lparr>px_ambient_clear := a, px_inheritable_clear := b, px_securebits := d, px_log := l\<rparr>)"
proof -
  have "px_nnp p' = px_nnp p" "px_env p' = px_env p" "px_private_ns p' = px_private_ns p" "px_masked p' = px_masked p"
    "px_dropped p' = px_dropped p" "px_fds p' = px_fds p" "px_landlock p' = px_landlock p" "px_seccomp p' = px_seccomp p"
    "px_cwd p' = px_cwd p" "px_dumpable p' = px_dumpable p" "px_audit p' = px_audit p"
    using assms by (auto simp: lock_caps_def Let_def split: if_splits option.splits)
  then have "p' = p\<lparr>px_ambient_clear := px_ambient_clear p', px_inheritable_clear := px_inheritable_clear p',
      px_securebits := px_securebits p', px_log := px_log p'\<rparr>" by simp
  moreover have "ok \<longrightarrow> px_inheritable_clear p' \<and> (px_ambient_clear p' \<or> uh_ambient_clear h = EINVAL) \<and>
      (\<exists>sb. px_securebits p' = Some sb \<and> sb AND SECBITS_WANTED = SECBITS_WANTED)"
    using assms by (auto simp: lock_caps_def Let_def or_and_absorb split: if_splits option.splits)
  ultimately show ?thesis by blast
qed

lemma caps_effect:
  assumes "apply_cap_drops h c p = (ok, p')"
  shows "(ok \<longrightarrow> caps_in_force h c p') \<and>
    (\<exists>a b d e l. p' = p\<lparr>px_dropped := a, px_ambient_clear := b, px_inheritable_clear := d, px_securebits := e, px_log := l\<rparr>)"
proof (cases "cap_drop_names c = []")
  case True
  then have "p' = p\<lparr>px_dropped := px_dropped p, px_ambient_clear := px_ambient_clear p,
      px_inheritable_clear := px_inheritable_clear p, px_securebits := px_securebits p, px_log := px_log p\<rparr>"
    using assms by (simp add: apply_cap_drops_def)
  then show ?thesis using True unfolding caps_in_force_def by blast
next
  case False
  obtain r p1 where d: "drop_caps h (cap_drop_names c) p = (r, p1)" by fastforce
  from drop_caps_effect [OF d] obtain a l where p1: "p1 = p\<lparr>px_dropped := px_dropped p @ a, px_log := l\<rparr>" by blast
  then have same: "p1 = p\<lparr>px_dropped := px_dropped p @ a, px_ambient_clear := px_ambient_clear p,
      px_inheritable_clear := px_inheritable_clear p, px_securebits := px_securebits p, px_log := l\<rparr>" by simp
  show ?thesis
  proof (cases r)
    case Drops_done
    then have k: "lock_caps h p1 = (ok, p')" using assms d False by (simp add: apply_cap_drops_def)
    from lock_caps_effect [OF k] obtain b e f l' where
      p': "p' = p1\<lparr>px_ambient_clear := b, px_inheritable_clear := e, px_securebits := f, px_log := l'\<rparr>"
      and lock: "ok \<longrightarrow> px_inheritable_clear p' \<and> (px_ambient_clear p' \<or> uh_ambient_clear h = EINVAL) \<and>
        (\<exists>sb. px_securebits p' = Some sb \<and> sb AND SECBITS_WANTED = SECBITS_WANTED)" by blast
    have "\<forall>n \<in> set (cap_drop_names c). cap_gone h p' n"
      using drop_caps_effect [OF d] Drops_done p' by (auto simp: cap_gone_def)
    moreover have "p' = p\<lparr>px_dropped := px_dropped p @ a, px_ambient_clear := b, px_inheritable_clear := e,
        px_securebits := f, px_log := l'\<rparr>" using p' p1 by simp
    ultimately show ?thesis using lock unfolding caps_in_force_def by blast
  next
    case Drops_skipped
    then have "p' = p1" using assms d False by (simp add: apply_cap_drops_def)
    then show ?thesis using drop_caps_effect [OF d] Drops_skipped same unfolding caps_in_force_def by blast
  next
    case Drops_failed
    then have "p' = p1" "\<not> ok" using assms d False by (simp_all add: apply_cap_drops_def)
    then show ?thesis using same by blast
  qed
qed

text \<open>Every descriptor from 3 on that the caller left is listed under \<^verbatim>\<open>/proc/self/fd\<close>.\<close>

definition fds_listed :: "uhost \<Rightarrow> proc \<Rightarrow> bool" where
  "fds_listed h p \<longleftrightarrow>
     (\<forall>names complete. uh_fd_dir h = Some (names, complete) \<longrightarrow>
        (\<forall>fd \<in> set (px_fds p). fd \<ge> 3 \<longrightarrow> (\<exists>n \<in> set names. fd_of_name h n = Some fd)))"

lemma close_fds_effect:
  "close_fds h ns p = (ok, p') \<Longrightarrow>
   (\<exists>f. p' = p\<lparr>px_fds := f\<rparr> \<and> set f \<subseteq> set (px_fds p)) \<and>
   (ok \<longrightarrow> (\<forall>n \<in> set ns. \<forall>fd. fd_of_name h n = Some fd \<longrightarrow> fd \<notin> set (px_fds p')))"
proof (induction ns arbitrary: p p' ok)
  case Nil
  then show ?case by (auto intro: exI [of _ "px_fds p"])
next
  case (Cons n ns)
  show ?case
  proof (cases "fd_of_name h n")
    case None
    then show ?thesis using Cons by auto
  next
    case (Some fd)
    let ?g = "p\<lparr>px_fds := filter (\<lambda>x. x \<noteq> fd) (px_fds p)\<rparr>"
    show ?thesis
    proof (cases "uh_close h fd = 0 \<or> uh_close h fd = EBADF \<or> uh_set_cloexec h fd")
      case True
      then have r: "close_fds h ns ?g = (ok, p')" using Cons.prems Some by (simp add: Let_def)
      from Cons.IH [OF r] show ?thesis using Some by auto
    next
      case False
      obtain ok2 p2 where r: "close_fds h ns p = (ok2, p2)" by fastforce
      then have "\<not> ok" "p' = p2" using Cons.prems Some False by (auto simp: Let_def)
      then show ?thesis using Cons.IH [OF r] by auto
    qed
  qed
qed

lemma fds_effect:
  assumes "close_inherited_fds h p = (ok, p')"
  shows "(ok \<longrightarrow> fds_listed h p \<longrightarrow> (\<forall>fd \<in> set (px_fds p'). fd < 3)) \<and> (\<exists>f l. p' = p\<lparr>px_fds := f, px_log := l\<rparr>)"
proof (cases "uh_close_range h")
  case True
  then show ?thesis using assms by (auto simp: close_inherited_fds_def logged_def)
next
  case False
  show ?thesis
  proof (cases "uh_fd_dir h")
    case None
    then have "\<not> ok" "p' = p\<lparr>px_fds := px_fds p, px_log := px_log p\<rparr>" using assms False by (auto simp: close_inherited_fds_def)
    then show ?thesis by blast
  next
    case (Some r)
    obtain names complete where r: "r = (names, complete)" by fastforce
    obtain ok2 p2 where c: "close_fds h names p = (ok2, p2)" by fastforce
    from close_fds_effect [OF c] obtain f where f: "p2 = p\<lparr>px_fds := f\<rparr>" "set f \<subseteq> set (px_fds p)"
      "ok2 \<longrightarrow> (\<forall>n \<in> set names. \<forall>fd. fd_of_name h n = Some fd \<longrightarrow> fd \<notin> set f)" by auto
    have res: "ok = (ok2 \<and> complete)" "p' = (if ok then logged M_fds p2 else p2)"
      using assms False Some r c by (auto simp: close_inherited_fds_def)
    have "fd < 3" if fd: "ok" "fds_listed h p" "fd \<in> set f" for fd
    proof (rule ccontr)
      assume "\<not> fd < 3"
      then obtain n where "n \<in> set names" "fd_of_name h n = Some fd"
        using fd f(2) Some r unfolding fds_listed_def by fastforce
      then show False using f(3) fd res(1) by auto
    qed
    moreover have "px_fds p' = f" using res(2) f(1) by simp
    moreover have "p' = p\<lparr>px_fds := f, px_log := px_log p'\<rparr>" using res(2) f(1) by (simp add: logged_def)
    ultimately show ?thesis by blast
  qed
qed

section \<open>The whole chain\<close>

text \<open>What the policy asks for is in force for \<^verbatim>\<open>p'\<close>, which was \<^verbatim>\<open>p\<close> before.\<close>

definition env_in_force :: "Config \<Rightarrow> proc \<Rightarrow> proc \<Rightarrow> bool" where
  "env_in_force c p p' \<longleftrightarrow> px_env p' = (if use_env_sanitize c then sanitize_env c (px_env p) else px_env p)"

definition fds_in_force :: "uhost \<Rightarrow> proc \<Rightarrow> proc \<Rightarrow> bool" where
  "fds_in_force h p p' \<longleftrightarrow> (fds_listed h p \<longrightarrow> (\<forall>fd \<in> set (px_fds p'). fd < 3))"

definition landlock_in_force :: "uhost \<Rightarrow> Config \<Rightarrow> proc \<Rightarrow> bool" where
  "landlock_in_force h c p' \<longleftrightarrow> (use_landlock c \<longrightarrow> px_landlock p' \<noteq> None \<and> apply_landlock (uh_ll h) c = (0, px_landlock p'))"

definition seccomp_in_force :: "uhost \<Rightarrow> Config \<Rightarrow> proc \<Rightarrow> bool" where
  "seccomp_in_force h c p' \<longleftrightarrow> (use_seccomp c \<longrightarrow> apply_seccomp (uh_sc h) (h_target (uh_host h)) c = (0, px_seccomp p'))"

definition in_force :: "uhost \<Rightarrow> Config \<Rightarrow> proc \<Rightarrow> proc \<Rightarrow> bool" where
  "in_force h c p p' \<longleftrightarrow>
     (use_no_new_privs c \<longrightarrow> px_nnp p') \<and> env_in_force c p p' \<and> masks_in_force h c p' \<and> caps_in_force h c p' \<and>
     fds_in_force h p p' \<and> landlock_in_force h c p' \<and> seccomp_in_force h c p'"

lemmas in_force_defs = in_force_def env_in_force_def masks_in_force_def mask_hidden_def caps_in_force_def cap_gone_def
  fds_in_force_def fds_listed_def landlock_in_force_def seccomp_in_force_def

lemma apply_landlock_Some: "apply_landlock e c = (0, r) \<Longrightarrow> r \<noteq> None"
  by (auto simp: apply_landlock_def Let_def split: if_splits option.splits)

lemma mechanisms_in_force:
  assumes "run_psteps (mechanisms h c) p = (True, p')"
  shows "in_force h c p p' \<and> (\<forall>w. workdir c = Some w \<longrightarrow> px_cwd p' = Some w) \<and> px_audit p' = px_audit p"
proof -
  obtain p1 p2 p3 p4 p5 p6 p7 where
    s: "set_no_new_privs h c p = (True, p1)" "strip_env c p1 = (True, p2)" "apply_masks h c p2 = (True, p3)"
      "apply_cap_drops h c p3 = (True, p4)" "close_inherited_fds h p4 = (True, p5)" "use_landlock_step h c p5 = (True, p6)"
      "use_seccomp_step h c p6 = (True, p7)" "change_dir h c p7 = (True, p')"
    using assms unfolding mechanisms_def run_psteps_True by auto
  obtain a1 l1 where p1: "p1 = p\<lparr>px_nnp := a1, px_log := l1\<rparr>" "use_no_new_privs c \<longrightarrow> a1" using nnp_effect [OF s(1)] by auto
  obtain l2 where p2: "p2 = p1\<lparr>px_env := (if use_env_sanitize c then sanitize_env c (px_env p1) else px_env p1), px_log := l2\<rparr>"
    using env_effect [OF s(2)] by blast
  obtain a3 b3 l3 where p3: "p3 = p2\<lparr>px_private_ns := a3, px_masked := b3, px_log := l3\<rparr>" "masks_in_force h c p3"
    using masks_effect [OF s(3)] by blast
  obtain a4 b4 d4 e4 l4 where
    p4: "p4 = p3\<lparr>px_dropped := a4, px_ambient_clear := b4, px_inheritable_clear := d4, px_securebits := e4, px_log := l4\<rparr>"
      "caps_in_force h c p4" using caps_effect [OF s(4)] by blast
  obtain f5 l5 where p5: "p5 = p4\<lparr>px_fds := f5, px_log := l5\<rparr>" "fds_listed h p4 \<longrightarrow> (\<forall>fd \<in> set f5. fd < 3)"
    using fds_effect [OF s(5)] by auto
  obtain a6 l6 where p6: "p6 = p5\<lparr>px_landlock := a6, px_log := l6\<rparr>" "use_landlock c \<longrightarrow> apply_landlock (uh_ll h) c = (0, a6)"
    using landlock_effect [OF s(6)] by auto
  obtain a7 l7 where p7: "p7 = p6\<lparr>px_seccomp := a7, px_log := l7\<rparr>"
      "use_seccomp c \<longrightarrow> apply_seccomp (uh_sc h) (h_target (uh_host h)) c = (0, a7)"
    using seccomp_effect [OF s(7)] by auto
  obtain a8 l8 where p8: "p' = p7\<lparr>px_cwd := a8, px_log := l8\<rparr>" "\<forall>w. workdir c = Some w \<longrightarrow> a8 = Some w"
    using chdir_effect [OF s(8)] by auto
  note eqs = p8(1) p7(1) p6(1) p5(1) p4(1) p3(1) p2 p1(1)
  have "masks_in_force h c p'" using p3(2) unfolding masks_in_force_def mask_hidden_def by (simp add: eqs)
  moreover have "caps_in_force h c p'" using p4(2) unfolding caps_in_force_def cap_gone_def by (simp add: eqs)
  moreover have "fds_in_force h p p'" using p5(2) unfolding fds_in_force_def fds_listed_def by (simp add: eqs)
  moreover have "landlock_in_force h c p'" using p6(2) apply_landlock_Some [of "uh_ll h" c a6] unfolding landlock_in_force_def by (auto simp: eqs)
  moreover have "seccomp_in_force h c p'" using p7(2) unfolding seccomp_in_force_def by (simp add: eqs)
  moreover have "env_in_force c p p'" "use_no_new_privs c \<longrightarrow> px_nnp p'" using p1(2) by (simp_all add: env_in_force_def eqs)
  ultimately show ?thesis using p8(2) by (simp add: in_force_def eqs)
qed

lemma in_force_hardened:
  assumes "in_force h c p p'"
  shows "in_force h c p (apply_hardening h p')"
proof -
  have "masks_in_force h c (apply_hardening h p')" "caps_in_force h c (apply_hardening h p')"
    using assms unfolding in_force_def masks_in_force_def mask_hidden_def caps_in_force_def cap_gone_def
    by (auto simp: apply_hardening_def)
  then show ?thesis using assms
    by (simp add: in_force_def env_in_force_def fds_in_force_def landlock_in_force_def seccomp_in_force_def apply_hardening_def)
qed

lemma hardened_fields [simp]:
  "px_cwd (apply_hardening h p) = px_cwd p" "px_audit (apply_hardening h p) = px_audit p"
  "px_log (apply_hardening h p) = px_log p @ [M_harden]"
  by (simp_all add: apply_hardening_def)

lemma in_force_audit [simp]:
  "in_force h c (p\<lparr>px_audit := x\<rparr>) p' = in_force h c p p'"
  by (simp add: in_force_def env_in_force_def fds_in_force_def fds_listed_def)

end
