(* ===== verification/User_Policy.thy ===== *)
theory User_Policy
  imports User_Mechanisms Profile_Policy
begin

text \<open>
  What \<^verbatim>\<open>compartment-user\<close> guarantees about the program it executes: which mechanisms are in force,
  in which order they came into force, and what the command line, the profiles and the shell
  mode can and cannot change.
\<close>

section \<open>What the command line decides\<close>

text \<open>The switches of a policy, as the options leave them.\<close>

definition switches :: "Config \<Rightarrow> bool \<times> bool \<times> bool \<times> bool" where
  "switches c = (use_landlock c, use_seccomp c, use_no_new_privs c, allow_insecure c)"

definition switch_opts :: "uopt list \<Rightarrow> Config \<Rightarrow> bool" where
  "switch_opts opts c \<longleftrightarrow>
     switches c = (O_no_landlock \<notin> set opts, O_no_seccomp \<notin> set opts, True, O_insecure \<in> set opts)"

lemma cfg_add_switches:
  "cfg_add_path p m d c = Some c' \<Longrightarrow> switches c' = switches c"
  "cfg_add_blocked n c = Some c' \<Longrightarrow> switches c' = switches c"
  "cfg_add_allowed n c = Some c' \<Longrightarrow> switches c' = switches c"
  "cfg_add_env_deny d s c = Some c' \<Longrightarrow> switches c' = switches c"
  "cfg_add_env_allow d s c = Some c' \<Longrightarrow> switches c' = switches c"
  "cfg_add_mask s c = Some c' \<Longrightarrow> switches c' = switches c"
  by (auto simp: switches_def cfg_add_path_def cfg_add_blocked_def cfg_add_allowed_def cfg_add_env_deny_def
      cfg_add_env_allow_def cfg_add_mask_def split: if_splits)

lemma on_cfg_Inr: "on_cfg s r = Inr s' \<longleftrightarrow> (\<exists>c. r = Some c \<and> s' = s\<lparr>uc_cfg := c\<rparr>)"
  by (auto simp: on_cfg_def split: option.splits)

lemma switches_update [simp]:
  "switches (c\<lparr>profile_name := n\<rparr>) = switches c" "switches (c\<lparr>workdir := w\<rparr>) = switches c" "switches (c\<lparr>verbose := b\<rparr>) = switches c"
  "switches (c\<lparr>dry_run := b\<rparr>) = switches c" "switches (c\<lparr>use_env_sanitize := b\<rparr>) = switches c" "switches (c\<lparr>audit := b\<rparr>) = switches c"
  "switches (c\<lparr>audit_log_dir := n\<rparr>) = switches c" "switches (c\<lparr>net_bind_ports := l\<rparr>) = switches c"
  "switches (c\<lparr>net_connect_ports := l\<rparr>) = switches c" "switches (c\<lparr>net_default_deny := b\<rparr>) = switches c"
  "switches (c\<lparr>cap_drop_names := ns\<rparr>) = switches c"
  "switches (replace_workdir v c) = switches c" "switches (replace_audit_log v c) = switches c"
  by (simp_all add: switches_def replace_defs)

lemma user_opt_switches:
  assumes "user_opt h o1 s = Inr s'" and "switch_opts seen (uc_cfg s)"
  shows "switch_opts (seen @ [o1]) (uc_cfg s')"
proof (cases "o1 \<in> {O_no_landlock, O_no_seccomp, O_insecure}")
  case True
  then show ?thesis using assms by (auto simp: user_opt_def on_cfg_Inr switch_opts_def switches_def)
next
  case False
  then have "switches (uc_cfg s') = switches (uc_cfg s)" using assms(1)
    by (cases o1) (auto simp: user_opt_def on_cfg_Inr Let_def dest: cfg_add_switches split: if_splits)
  then show ?thesis using False assms(2) by (auto simp: switch_opts_def)
qed

lemma user_opts_switches:
  "user_opts h opts s = Inr s' \<Longrightarrow> switch_opts seen (uc_cfg s) \<Longrightarrow> switch_opts (seen @ opts) (uc_cfg s')"
proof (induction opts arbitrary: s seen)
  case (Cons o1 opts)
  then obtain s1 where "user_opt h o1 s = Inr s1" "user_opts h opts s1 = Inr s'" by (auto split: sum.splits)
  then show ?case using Cons.IH [of s1 "seen @ [o1]"] user_opt_switches Cons.prems(2) by simp
qed simp

section \<open>What profiles add\<close>

lemma run_steps_extends:
  "(\<And>f c c'. f \<in> set fs \<Longrightarrow> f c = Some c' \<Longrightarrow> profile_extends c c') \<Longrightarrow> profile_extends c (snd (run_steps fs c))"
proof (induction fs arbitrary: c)
  case Nil
  then show ?case by (simp add: cfg_edit_extends edit_none)
next
  case (Cons f fs)
  show ?case
  proof (cases "f c")
    case None
    then show ?thesis by (simp add: cfg_edit_extends edit_none)
  next
    case (Some c1)
    then have "profile_extends c c1" using Cons.prems [of f c c1] by simp
    moreover have "profile_extends c1 (snd (run_steps fs c1))" by (rule Cons.IH) (use Cons.prems in auto)
    ultimately show ?thesis using Some profile_extends_trans by simp
  qed
qed

lemma add_extends:
  "cfg_add_path p m b c = Some c' \<Longrightarrow> profile_extends c c'" "cfg_add_env_deny b n c = Some c' \<Longrightarrow> profile_extends c c'"
  by (drule add_shapes, elim exE, simp add: extends_defs)+

lemma denylist_extends: "cfg_add_denylist_from t ns c = Some c' \<Longrightarrow> profile_extends c c'"
proof (induction ns arbitrary: c)
  case Nil
  then show ?case by (simp add: cfg_edit_extends edit_none)
next
  case (Cons n ns)
  show ?case
  proof (cases "resolve_syscall t n < 0")
    case True
    then show ?thesis using Cons by (simp add: Let_def)
  next
    case False
    then obtain c1 where "cfg_add_blocked (resolve_syscall t n) c = Some c1" "cfg_add_denylist_from t ns c1 = Some c'"
      using Cons.prems by (auto simp: Let_def split: option.splits)
    then show ?thesis using Cons.IH edit_blocked cfg_edit_extends profile_extends_trans by blast
  qed
qed

lemma ai_agent_extends: "profile_extends c (snd (apply_profile_ai_agent h c))"
  unfolding apply_profile_ai_agent_def
proof (rule run_steps_extends)
  fix f c0 c1
  assume f: "f \<in> set (map (\<lambda>p. cfg_add_path p PATH_RO False) ai_ro_paths @ map (\<lambda>p. cfg_add_path p PATH_RW False) ai_rw_paths @
       map (\<lambda>p. cfg_add_path p PATH_RW False) ai_rw_dev @ ai_home_steps h @ ai_workdir_steps c @
       [cfg_add_builtin_denylist (h_target h)] @ map (cfg_add_env_deny False) ai_deny_env)" and "f c0 = Some c1"
  then have "(\<exists>p m. cfg_add_path p m False c0 = Some c1) \<or> cfg_add_builtin_denylist (h_target h) c0 = Some c1 \<or>
      (\<exists>n. cfg_add_env_deny False n c0 = Some c1)"
    by (auto simp: ai_home_steps_def ai_workdir_steps_def split: option.splits if_splits)
  then show "profile_extends c0 c1"
    using add_extends denylist_extends unfolding cfg_add_builtin_denylist_def by blast
qed

lemma strict_extends: "profile_extends c (snd (apply_profile_strict h c))"
proof -
  obtain ok c1 where a: "apply_profile_ai_agent h c = (ok, c1)" by fastforce
  then have c1: "profile_extends c c1" using ai_agent_extends [of c h] by simp
  have "profile_extends c1 (snd (run_steps (map (strict_extra_step (h_target h)) strict_extra) c1))"
  proof (rule run_steps_extends)
    fix f c0 c2 assume "f \<in> set (map (strict_extra_step (h_target h)) strict_extra)" "f c0 = Some c2"
    then have "(\<exists>n. cfg_add_blocked n c0 = Some c2) \<or> c2 = c0"
      by (auto simp: strict_extra_step_def Let_def split: if_splits)
    then show "profile_extends c0 c2" using edit_blocked cfg_edit_extends edit_none by blast
  qed
  then show ?thesis using a c1 profile_extends_trans by (cases ok) (auto simp: apply_profile_strict_def)
qed

lemma source_extends: "profile_extends c c' \<Longrightarrow> profile_extends c (c'\<lparr>profile_source := x\<rparr>)"
  by (simp add: extends_defs)

lemma load_user_profile_extends:
  assumes "load_user_profile h flags c = Some c'"
  shows "profile_extends c c'"
proof -
  let ?name = "case profile_name c of Some n \<Rightarrow> n | None \<Rightarrow> []"
  obtain rc c1 where r: "resolve_and_load_profile (uh_host h) 0 flags ?name c = (rc, c1)" by fastforce
  have ext: "profile_extends c c1" using extends.R_resolve_and_load [of c "uh_host h" 0 flags ?name] r by simp
  have "profile_extends c1 (snd (apply_profile_ai_agent (uh_host h) c1))" "profile_extends c1 (snd (apply_profile_strict (uh_host h) c1))"
    by (rule ai_agent_extends, rule strict_extends)
  then have ext2: "profile_extends c (snd (apply_profile_ai_agent (uh_host h) c1))" "profile_extends c (snd (apply_profile_strict (uh_host h) c1))"
    using ext profile_extends_trans by blast+
  have refl: "profile_extends c c" by (simp add: cfg_edit_extends edit_none)
  show ?thesis using assms r ext ext2 refl source_extends
    by (auto simp: load_user_profile_def Let_def split: if_splits profile_rc.splits prod.splits)
qed

text \<open>The final policy: every rule of the command line is in it, and its switches are those of the command line.\<close>

lemma add_workdir_shape: "add_workdir c = Some c' \<Longrightarrow> \<exists>rs. c' = c\<lparr>paths := paths c @ rs\<rparr>"
  by (auto simp: add_workdir_def cfg_add_path_def split: option.splits if_splits intro: exI [of _ "[]"])

lemma user_policy_keeps:
  assumes "user_policy h s = Some c"
  shows "arrays_extend (uc_cfg s) c \<and> use_landlock c = use_landlock (uc_cfg s) \<and> use_seccomp c = use_seccomp (uc_cfg s)
    \<and> (use_no_new_privs (uc_cfg s) \<longrightarrow> use_no_new_privs c) \<and> allow_insecure c = allow_insecure (uc_cfg s)
    \<and> use_env_sanitize c = use_env_sanitize (uc_cfg s) \<and> (use_landlock c \<longrightarrow> config_check_additive (uh_ll h) c = 0)"
proof -
  obtain c1 where l: "load_user_profile h (uc_flags s) (uc_cfg s) = Some c1" and w: "add_workdir (cli_wins (uc_cfg s) c1) = Some c"
    and add: "use_landlock c \<longrightarrow> config_check_additive (uh_ll h) c = 0"
    using assms by (auto simp: user_policy_def split: option.splits if_splits)
  obtain rs where c: "c = (cli_wins (uc_cfg s) c1)\<lparr>paths := paths (cli_wins (uc_cfg s) c1) @ rs\<rparr>" using add_workdir_shape [OF w] by blast
  have ext: "profile_extends (uc_cfg s) c1" by (rule load_user_profile_extends [OF l])
  have "arrays_extend (uc_cfg s) c"
    using ext unfolding profile_extends_def arrays_extend_def by (simp add: c cli_wins_def)
  moreover have "use_landlock c = use_landlock (uc_cfg s)" "use_seccomp c = use_seccomp (uc_cfg s)"
    "use_env_sanitize c = use_env_sanitize (uc_cfg s)"
    "use_no_new_privs (uc_cfg s) \<longrightarrow> use_no_new_privs c" "allow_insecure c = allow_insecure (uc_cfg s)"
    using ext unfolding profile_extends_def switches_extend_def by (auto simp: c cli_wins_def)
  ultimately show ?thesis using add by simp
qed

lemma audit_start_shape:
  "audit_start h cmd c p = Some (c', p') \<Longrightarrow> \<exists>fd a. c' = c\<lparr>audit_log_fd := fd\<rparr> \<and> p' = p\<lparr>px_audit := a\<rparr>"
  by (auto simp: audit_start_def audit_log_open_def audit_event_step_def split: if_splits option.splits
      intro: exI [of _ "audit_log_fd c"] exI [of _ "px_audit p"])

lemma preflight_fd [simp]: "preflight_check h (c\<lparr>audit_log_fd := fd\<rparr>) = preflight_check h c"
  by (simp add: preflight_check_def)

section \<open>A small system\<close>

definition demo_uhost :: uhost where
  "demo_uhost =
     \<lparr>uh_host = (demo_host [])\<lparr>h_open := (\<lambda>_. Inl ENOENT)\<rparr>, uh_ll = demo_ll, uh_sc = demo_env, uh_audit = demo_audit, uh_get_nnp = True, uh_set_nnp = True,
      uh_no_seccomp = False, uh_statfs = (\<lambda>_. Some 0xEF53), uh_mounts = Some ''dev / ext4'', uh_unshare = 0,
      uh_make_private = True, uh_lstat = (\<lambda>p. if p = ''/proc/kcore'' then Inr False else Inl ENOENT), uh_mount = (\<lambda>_ _. True),
      uh_euid = 0, uh_capbset_drop = (\<lambda>c. if c = 40 then EINVAL else 0), uh_ambient_clear = 0, uh_capget = True, uh_capset = True,
      uh_get_securebits = Some 0, uh_set_securebits = (\<lambda>_. True), uh_close_range = False,
      uh_fd_dir = Some ([''.'', ''..'', ''0'', ''1'', ''2'', ''3'', ''7'', ''9''], True), uh_scan_fd = 3, uh_close = (\<lambda>fd. if fd = 7 then 1 else 0),
      uh_set_cloexec = (\<lambda>_. True), uh_chdir = (\<lambda>_. True), uh_set_dumpable = True, uh_SHELL_DIR = None,
      uh_open_shell_dir = (\<lambda>_. None), uh_open_shell = (\<lambda>_ _. None), uh_verify = 0\<rparr>"

definition demo_proc :: proc where
  "demo_proc =
     \<lparr>px_nnp = False, px_env = [''LD_PRELOAD=x'', ''A=b''], px_private_ns = False, px_masked = [], px_dropped = [],
      px_ambient_clear = False, px_inheritable_clear = False, px_securebits = None, px_fds = [0, 1, 2, 7, 9], px_landlock = None,
      px_seccomp = None, px_cwd = None, px_dumpable = True, px_audit = [], px_log = []\<rparr>"

text \<open>A command line that loads no profile and uses every mechanism; the policy it stands for.\<close>

definition demo_cli :: "uopt list" where
  "demo_cli = [O_profile ''none'', O_ro ''/a'', O_env_deny ''LD_*'', O_cap_drop ''sys_admin'', O_cap_drop ''40'',
     O_mask ''/proc/kcore'', O_workdir ''/a'']"

definition demo_cfg :: Config where
  "demo_cfg = initial_config\<lparr>profile_name := Some ''none'', paths := [path_rule PATH_RO False ''/a''],
     env_deny := [(''LD_*'', False)], cap_drop_names := [''sys_admin'', ''40''], masks := [(''/proc/kcore'', False)],
     workdir := Some ''/a'', cfg_mem := \<lparr>sm_next = Suc 0, sm_freed = []\<rparr>\<rparr>"

definition demo_policy :: Config where
  "demo_policy = demo_cfg\<lparr>paths := [path_rule PATH_RO False ''/a'', path_rule PATH_RW False ''/a'']\<rparr>"

lemma demo_opts:
  "user_opts demo_uhost demo_cli \<lparr>uc_cfg = initial_config, uc_flags = 0, uc_dump = False\<rparr> =
   Inr \<lparr>uc_cfg = demo_cfg, uc_flags = 0, uc_dump = False\<rparr>"
  by (simp add: user_opt_def demo_cli_def demo_cfg_def on_cfg_def Let_def cfg_add_path_def cfg_add_env_deny_def
      cfg_add_mask_def replace_defs initial_config_def) code_simp

lemma demo_user_policy: "user_policy demo_uhost \<lparr>uc_cfg = demo_cfg, uc_flags = 0, uc_dump = False\<rparr> = Some demo_policy"
proof -
  have "load_user_profile demo_uhost 0 demo_cfg = Some demo_cfg" by (simp add: load_user_profile_def demo_cfg_def)
  moreover have "add_workdir (cli_wins demo_cfg demo_cfg) = Some demo_policy"
    by (simp add: add_workdir_def cli_wins_def demo_policy_def demo_cfg_def cfg_add_path_def path_rule_def initial_config_def MAX_PATHS_def)
  moreover have "config_check_additive (uh_ll demo_uhost) demo_policy = 0" by code_simp
  ultimately show ?thesis by (simp add: user_policy_def)
qed

lemma demo_caps [simp]: "resolve_cap ''sys_admin'' = 21" "resolve_cap ''40'' = 40"
  by code_simp+

lemma demo_fds: "fst (close_inherited_fds demo_uhost p)"
proof -
  have "map (fd_of_name demo_uhost) [''.'', ''..'', ''0'', ''1'', ''2'', ''3'', ''7'', ''9''] =
      [None, None, None, None, None, None, Some 7, Some 9]" by code_simp
  then show ?thesis by (simp add: close_inherited_fds_def Let_def) (simp add: demo_uhost_def)
qed

lemma demo_user_steps: "fst (run_psteps (mechanisms demo_uhost demo_policy) p)"
proof (rule run_psteps_ok)
  fix s p
  have "fst (set_no_new_privs demo_uhost demo_policy p)" by (simp add: set_no_new_privs_def demo_uhost_def)
  moreover have "fst (strip_env demo_policy p)" by (simp add: strip_env_def)
  moreover have "fst (apply_masks demo_uhost demo_policy p)"
    by (simp add: apply_masks_def mask_one_def demo_uhost_def demo_policy_def demo_cfg_def)
  moreover have "fst (apply_cap_drops demo_uhost demo_policy p)"
    by (simp add: apply_cap_drops_def lock_caps_def Let_def demo_uhost_def demo_policy_def demo_cfg_def EINVAL_def)
  moreover have "fst (apply_landlock (uh_ll demo_uhost) demo_policy) = 0" by code_simp
  then have "fst (use_landlock_step demo_uhost demo_policy p)" by (auto simp: use_landlock_step_def split: prod.splits)
  moreover have "fst (apply_seccomp (uh_sc demo_uhost) (h_target (uh_host demo_uhost)) demo_policy) = 0" by code_simp
  then have "fst (use_seccomp_step demo_uhost demo_policy p)" by (auto simp: use_seccomp_step_def split: prod.splits)
  moreover have "fst (change_dir demo_uhost demo_policy p)" by (simp add: change_dir_def demo_uhost_def split: option.splits)
  moreover assume "s \<in> set (mechanisms demo_uhost demo_policy)"
  ultimately show "fst (s p)" using demo_fds by (auto simp: mechanisms_def)
qed

lemma demo_preflight: "preflight_check demo_uhost demo_policy = 0"
  by code_simp

lemma demo_execs: "\<exists>p'. cli_main demo_uhost demo_cli [''ls''] demo_proc = (Execed ''ls'' [''ls''], p')"
proof -
  have "\<not> audit demo_policy" "\<not> dry_run demo_policy"
    by (simp_all add: demo_policy_def demo_cfg_def initial_config_def empty_config_def)
  then have "launch demo_uhost demo_policy [''ls''] demo_proc =
      (Execed ''ls'' [''ls''], apply_hardening demo_uhost (snd (run_psteps (mechanisms demo_uhost demo_policy) demo_proc)))"
    using demo_user_steps [of demo_proc]
    by (auto simp: launch_def audit_start_def demo_preflight Let_def split: prod.splits bool.splits)
  then show ?thesis using \<open>\<not> dry_run demo_policy\<close> by (simp add: cli_main_def demo_opts demo_user_policy)
qed

text \<open>The same system with an operator's policy for shells.\<close>

definition strict_uhost :: uhost where
  "strict_uhost = demo_uhost\<lparr>uh_host := (demo_host [])\<lparr>h_open := (\<lambda>p. if p = ''/etc/compartment/shell-replacement.conf''
     then Inr \<lparr>pf_stat = Some \<lparr>st_mode = 0x81A4, st_uid = 0\<rparr>, pf_stream = True, pf_data = as_lines [''rw /x'']\<rparr>
     else Inl ENOENT)\<rparr>\<rparr>"

definition strict_cfg :: Config where
  "strict_cfg = initial_config\<lparr>paths := [path_rule PATH_RW True ''/x''],
     profile_source := Some ''/etc/compartment/shell-replacement.conf'', profile_name := Some ''shell-replacement''\<rparr>"

lemma strict_fopen: "profile_fopen_trusted (uh_host strict_uhost) 0 ''/etc/compartment/shell-replacement.conf'' = Inr (as_lines [''rw /x''])"
  by (simp add: profile_fopen_trusted_def strict_uhost_def demo_host_def profile_fd_trusted_def profile_dir_trusted_def
      mode_defs PATH_MAX_def Let_def)

lemma strict_line:
  "process_lines h 0 inh (profile_lines (as_lines [''rw /x''])) initial_config =
   (PROFILE_OK, initial_config\<lparr>paths := [path_rule PATH_RW True ''/x'']\<rparr>)"
proof -
  have "profile_lines (as_lines [''rw /x''] @ []) = map (\<lambda>l. (l @ [NL], False)) [''rw /x''] @ profile_lines []"
    by (rule profile_lines_as_lines) (simp add: short_line_def MAX_LINE_def)
  then have "profile_lines (as_lines [''rw /x'']) = [(''rw /x'' @ [NL], False)]"
    by (simp add: profile_lines.simps)
  moreover have "read_directive h (''rw /x'' @ [NL], False) = Some (Some (''rw'', ''/x''))" for h
    by (simp_all add: read_directive_def strip_newline_def rdropWhile_def cstr_def MAX_LINE_def
        is_blank_def scan_directive_def is_space_def expand_var_def)
  ultimately show ?thesis
    by (simp add: process_line_def directive_is_root_only_def has_prefix_def apply_directive_def
        directive_env_switches_def directive_inherit_caps_def directive_root_def cfg_add_path_def
        MAX_PATHS_def initial_config_def empty_config_def)
qed

lemma strict_policy: "shell_policy strict_uhost = Some (True, strict_cfg)"
proof -
  have "resolve_and_load_profile (uh_host strict_uhost) 0 0 ''shell-replacement'' initial_config =
     (PROFILE_OK, initial_config\<lparr>paths := [path_rule PATH_RW True ''/x''], profile_source := Some ''/etc/compartment/shell-replacement.conf''\<rparr>)"
    using strict_fopen
    by (simp add: resolve_and_load_profile_def resolve_with_def Let_def load_file_with_def load_profile_into_depth parse_profile_def
      strict_line set_source_def PATH_MAX_def del: as_lines.simps)
  then show ?thesis by (simp add: shell_policy_def strict_cfg_def)
qed

lemma strict_execs: "\<exists>p'. shell_main strict_uhost ''bash'' [''bash''] demo_proc = (Execed ''/bin/shells/bash'' [''bash''], p')"
proof -
  have pf: "preflight_check strict_uhost strict_cfg = 0" by code_simp
  have "fst (apply_landlock (uh_ll strict_uhost) strict_cfg) = 0" by code_simp
  then have ll: "fst (use_landlock_step strict_uhost strict_cfg p)" for p by (auto simp: use_landlock_step_def split: prod.splits)
  have sc: "fst (use_seccomp_step strict_uhost strict_cfg p)" for p
    by (simp add: use_seccomp_step_def apply_seccomp_def strict_cfg_def initial_config_def empty_config_def)
  have nnp: "fst (set_no_new_privs strict_uhost strict_cfg p)" for p by (simp add: set_no_new_privs_def strict_uhost_def demo_uhost_def)
  have fds: "fst (close_inherited_fds strict_uhost p)" for p
  proof -
    have "map (fd_of_name strict_uhost) [''.'', ''..'', ''0'', ''1'', ''2'', ''3'', ''7'', ''9''] =
      [None, None, None, None, None, None, Some 7, Some 9]" by code_simp
    then show ?thesis by (simp add: close_inherited_fds_def Let_def) (simp add: strict_uhost_def demo_uhost_def)
  qed
  have mc: "apply_masks strict_uhost strict_cfg p = (True, p)" "apply_cap_drops strict_uhost strict_cfg p = (True, p)" for p
    by (simp_all add: apply_masks_def apply_cap_drops_def strict_cfg_def initial_config_def empty_config_def)
  have "uh_SHELL_DIR strict_uhost = None" by (simp add: strict_uhost_def demo_uhost_def)
  then show ?thesis using pf ll sc nnp fds
    by (auto simp: shell_main_def strict_policy Let_def REAL_SHELL_DIR_def PATH_MAX_def shell_session_def mc degrading_def
      case_prod_beta split: prod.splits bool.splits)
qed

section \<open>From the policy to the exec\<close>

lemma landlock_fd: "apply_landlock e (c\<lparr>audit_log_fd := fd\<rparr>) = apply_landlock e c"
proof -
  have "wanted_net (c\<lparr>audit_log_fd := fd\<rparr>) = wanted_net c" by (simp add: wanted_net_def)
  then have net: "handled_net abi (c\<lparr>audit_log_fd := fd\<rparr>) = handled_net abi c" for abi by (simp add: handled_net_def)
  have "paths (c\<lparr>audit_log_fd := fd\<rparr>) = paths c" "net_bind_ports (c\<lparr>audit_log_fd := fd\<rparr>) = net_bind_ports c"
    "net_connect_ports (c\<lparr>audit_log_fd := fd\<rparr>) = net_connect_ports c" by simp_all
  then show ?thesis unfolding apply_landlock_def net by (simp only:)
qed

lemma seccomp_fd: "apply_seccomp e t (c\<lparr>audit_log_fd := fd\<rparr>) = apply_seccomp e t c"
  by (simp add: apply_seccomp_def seccomp_deny_action_def Let_def)
lemma in_force_fd [simp]: "in_force h (c\<lparr>audit_log_fd := fd\<rparr>) p p' = in_force h c p p'"
  by (simp add: in_force_defs landlock_fd seccomp_fd sanitize_env_def)

lemma hardened_in_force:
  "masks_in_force h c p' \<Longrightarrow> masks_in_force h c (apply_hardening h p')"
  "caps_in_force h c p' \<Longrightarrow> caps_in_force h c (apply_hardening h p')"
  "env_in_force c p (apply_hardening h p') = env_in_force c p p'"
  "fds_in_force h p (apply_hardening h p') = fds_in_force h p p'"
  unfolding masks_in_force_def mask_hidden_def caps_in_force_def cap_gone_def env_in_force_def fds_in_force_def
  by (auto simp: apply_hardening_def)

text \<open>The process when the mechanisms start: a degraded pre-flight check has been logged.\<close>

definition noted :: "uhost \<Rightarrow> Config \<Rightarrow> proc \<Rightarrow> proc" where
  "noted h c p =
     (if preflight_check h c > 0 \<and> audit c
      then audit_event_step h c ''COMPARTMENT_DEGRADED'' (degraded_detail (preflight_check h c)) p else p)"

lemma noted_shape: "\<exists>a. noted h c p = p\<lparr>px_audit := a\<rparr>"
proof (cases "preflight_check h c > 0 \<and> audit c")
  case True
  then show ?thesis unfolding noted_def audit_event_step_def by auto
next
  case False
  then show ?thesis unfolding noted_def by (intro exI [of _ "px_audit p"]) auto
qed

lemma launch_shape:
  assumes "audit_start h (hd argv) c p = Some (c1, p1)"
  shows "launch h c argv p =
    (if preflight_check h c1 > 0 \<and> \<not> allow_insecure c1 then (Exited 1, p1)
     else case run_psteps (mechanisms h c1) (noted h c1 p1) of
       (ok, p2) \<Rightarrow> if ok then (Execed (hd argv) argv, apply_hardening h p2) else (Exited 1, p2))"
  unfolding launch_def assms noted_def Let_def option.case prod.case
  by (auto split: prod.splits)

lemma launch_execs:
  assumes "launch h c argv p = (Execed cmd args, p')"
  shows "cmd = hd argv \<and> args = argv \<and> (preflight_check h c = 0 \<or> allow_insecure c) \<and> in_force h c p p' \<and>
    (\<forall>w. workdir c = Some w \<longrightarrow> px_cwd p' = Some w)"
proof -
  obtain c1 p1 where a: "audit_start h (hd argv) c p = Some (c1, p1)"
    using assms by (auto simp: launch_def split: option.splits)
  then obtain fd x where f: "c1 = c\<lparr>audit_log_fd := fd\<rparr>" "p1 = p\<lparr>px_audit := x\<rparr>" using audit_start_shape by blast
  obtain y where n: "noted h c1 p1 = p\<lparr>px_audit := y\<rparr>" using noted_shape [of h c1 p1] f(2) by auto
  obtain ok p2 where r: "run_psteps (mechanisms h c1) (noted h c1 p1) = (ok, p2)" by fastforce
  have e: "ok \<and> p' = apply_hardening h p2 \<and> cmd = hd argv \<and> args = argv" "\<not> (preflight_check h c1 > 0 \<and> \<not> allow_insecure c1)"
    using assms unfolding launch_shape [OF a] r by (auto split: if_splits)
  then have "run_psteps (mechanisms h c1) (noted h c1 p1) = (True, p2)" using r by simp
  from mechanisms_in_force [OF this] have "in_force h c p p2" "\<forall>w. workdir c = Some w \<longrightarrow> px_cwd p2 = Some w"
    unfolding n by (simp_all add: f(1))
  then show ?thesis using e in_force_hardened by (simp add: f(1))
qed

section \<open>Properties\<close>

text \<open>
  C9: a command reaches \<^verbatim>\<open>exec\<close> in command-line mode only when the whole policy is in force.
\<close>

theorem user_exec_confined:
  assumes "cli_main h opts argv p = (Execed cmd args, p')"
  shows "\<exists>s c. user_opts h opts \<lparr>uc_cfg = initial_config, uc_flags = 0, uc_dump = False\<rparr> = Inr s \<and> user_policy h s = Some c \<and>
    arrays_extend (uc_cfg s) c \<and> cmd = hd argv \<and> args = argv \<and> in_force h c p p' \<and>
    px_nnp p' \<and> (O_no_landlock \<notin> set opts \<longrightarrow> px_landlock p' \<noteq> None \<and> config_check_additive (uh_ll h) c = 0) \<and>
    (O_no_seccomp \<notin> set opts \<longrightarrow> apply_seccomp (uh_sc h) (h_target (uh_host h)) c = (0, px_seccomp p')) \<and>
    (O_insecure \<notin> set opts \<longrightarrow> preflight_check h c = 0) \<and>
    (\<forall>w. workdir c = Some w \<longrightarrow> px_cwd p' = Some w)"
proof -
  obtain s c where s: "user_opts h opts \<lparr>uc_cfg = initial_config, uc_flags = 0, uc_dump = False\<rparr> = Inr s"
    "user_policy h s = Some c" "launch h c argv p = (Execed cmd args, p')"
    using assms by (auto simp: cli_main_def split: sum.splits if_splits option.splits)
  have "switch_opts opts (uc_cfg s)" using user_opts_switches [OF s(1), of "[]"]
    by (simp add: switch_opts_def switches_def initial_config_def empty_config_def)
  moreover note k = user_policy_keeps [OF s(2)]
  ultimately have sw: "use_landlock c = (O_no_landlock \<notin> set opts)" "use_seccomp c = (O_no_seccomp \<notin> set opts)"
    "use_no_new_privs c" "allow_insecure c = (O_insecure \<in> set opts)" by (auto simp: switch_opts_def switches_def)
  note l = launch_execs [OF s(3)]
  have "px_nnp p'" "use_landlock c \<longrightarrow> px_landlock p' \<noteq> None"
    "use_seccomp c \<longrightarrow> apply_seccomp (uh_sc h) (h_target (uh_host h)) c = (0, px_seccomp p')"
    using l sw(3) unfolding in_force_def landlock_in_force_def seccomp_in_force_def by auto
  then show ?thesis using s(1,2) k l sw by (intro exI [of _ s] exI [of _ c]) auto
qed

text \<open>Witness: the small command line, whose policy is in force when \<^verbatim>\<open>ls\<close> starts.\<close>

theorem user_exec_confined_witness:
  "\<exists>p'. cli_main demo_uhost demo_cli [''ls''] demo_proc = (Execed ''ls'' [''ls''], p') \<and>
     in_force demo_uhost demo_policy demo_proc p' \<and> px_nnp p' \<and> px_landlock p' \<noteq> None \<and> px_cwd p' = Some ''/a''"
proof -
  obtain p' where e: "cli_main demo_uhost demo_cli [''ls''] demo_proc = (Execed ''ls'' [''ls''], p')" using demo_execs by blast
  have "O_no_landlock \<notin> set demo_cli" "workdir demo_policy = Some ''/a''"
    by (simp_all add: demo_cli_def demo_policy_def demo_cfg_def)
  then show ?thesis using user_exec_confined [OF e] e by (auto simp: demo_opts demo_user_policy)
qed

section \<open>Order\<close>

fun cli_stage :: "mechanism \<Rightarrow> nat" where
  "cli_stage M_nnp = 0" | "cli_stage M_env = 1" | "cli_stage M_namespace = 2" | "cli_stage M_mask = 2"
| "cli_stage M_cap_drop = 3" | "cli_stage M_cap_lock = 3" | "cli_stage M_fds = 4" | "cli_stage M_landlock = 5"
| "cli_stage M_seccomp = 6" | "cli_stage M_chdir = 7" | "cli_stage M_harden = 8"

fun shell_stage :: "mechanism \<Rightarrow> nat" where
  "shell_stage M_namespace = 0" | "shell_stage M_mask = 0" | "shell_stage M_cap_drop = 1" | "shell_stage M_cap_lock = 1"
| "shell_stage M_nnp = 2" | "shell_stage M_env = 3" | "shell_stage M_fds = 4" | "shell_stage M_landlock = 5"
| "shell_stage M_seccomp = 6" | "shell_stage M_chdir = 7" | "shell_stage M_harden = 7"

lemma mechanisms_staged: "list_all2 (staged px_log cli_stage) (mechanisms h c) [0, 1, 2, 3, 4, 5, 6, 7]"
proof -
  have "staged px_log cli_stage (set_no_new_privs h c) 0" by (rule nnp.in_stage) simp
  moreover have "staged px_log cli_stage (strip_env c) 1" by (rule env.in_stage) simp
  moreover have "staged px_log cli_stage (apply_masks h c) 2" by (rule mask.in_stage) auto
  moreover have "staged px_log cli_stage (apply_cap_drops h c) 3" by (rule cap.in_stage) auto
  moreover have "staged px_log cli_stage (close_inherited_fds h) 4" by (rule fds.in_stage) simp
  moreover have "staged px_log cli_stage (use_landlock_step h c) 5" by (rule landlock.in_stage) simp
  moreover have "staged px_log cli_stage (use_seccomp_step h c) 6" by (rule seccomp.in_stage) simp
  moreover have "staged px_log cli_stage (change_dir h c) 7" by (rule chdir.in_stage) simp
  ultimately show ?thesis by (simp add: mechanisms_def)
qed


lemma launch_log:
  assumes "px_log p = []"
  shows "sorted (map cli_stage (px_log (snd (launch h c argv p)))) \<and>
    (fst (launch h c argv p) = Execed cmd args \<longrightarrow> last (px_log (snd (launch h c argv p))) = M_harden)"
proof (cases "audit_start h (hd argv) c p")
  case None
  then show ?thesis using assms by (simp add: launch_def)
next
  case (Some r)
  obtain c1 p1 where r: "r = (c1, p1)" by fastforce
  then have p1: "px_log p1 = []" using audit_start_shape [of h "hd argv" c p c1 p1] Some assms by auto
  have run: "sorted (map cli_stage (px_log (snd (run_psteps (mechanisms h c1) q)) @ [M_harden])) \<and>
      sorted (map cli_stage (px_log (snd (run_psteps (mechanisms h c1) q))))" if "px_log q = []" for q
    using run_psteps_upto [OF mechanisms_staged, of 0 q 8 h c1] upto_stage_empty [of px_log, OF that, of cli_stage 0]
    by (simp add: upto_stage_def [of _ _ 8] sorted_append)
  obtain y where n: "noted h c1 p1 = p1\<lparr>px_audit := y\<rparr>" using noted_shape [of h c1 p1] by auto
  obtain ok p2 where p2: "run_psteps (mechanisms h c1) (noted h c1 p1) = (ok, p2)" by fastforce
  have "px_log (noted h c1 p1) = []" by (simp add: n p1)
  from run [OF this] have s2: "sorted (map cli_stage (px_log p2 @ [M_harden]))" "sorted (map cli_stage (px_log p2))"
    unfolding p2 by (simp_all only: snd_conv)
  show ?thesis
  proof (cases "preflight_check h c1 > 0 \<and> \<not> allow_insecure c1")
    case True
    then show ?thesis using launch_shape [of h argv c p c1 p1] Some r p1 by simp
  next
    case False
    then have "launch h c argv p = (if ok then (Execed (hd argv) argv, apply_hardening h p2) else (Exited 1, p2))"
      using launch_shape [of h argv c p c1 p1] Some r p2 by auto
    then show ?thesis using s2 by (cases ok) auto
  qed
qed


section \<open>Shell-replacement mode\<close>

lemma degrading_eq: "s p = (ok, p') \<Longrightarrow> degrading s (d, p) = (if ok then d else Suc d, p')"
  by (simp add: degrading_def)

text \<open>What the steps of a session did, when it ends in \<^verbatim>\<open>exec\<close>.\<close>

lemma shell_session_execs:
  assumes "shell_session h strict c real_shell argv p = (Execed cmd args, p')"
  obtains p1 p2 p3 p4 p5 p6 p7 ok3 ok6 ok7 where
    "apply_masks h c p = (True, p1)" "apply_cap_drops h c p1 = (True, p2)" "set_no_new_privs h c p2 = (ok3, p3)"
    "strip_env c p3 = (True, p4)" "close_inherited_fds h p4 = (True, p5)" "use_landlock_step h c p5 = (ok6, p6)"
    "use_seccomp_step h c p6 = (ok7, p7)" "p' = apply_hardening h p7" "cmd = real_shell" "args = argv"
    "strict \<longrightarrow> preflight_check h c = 0 \<and> ok3 \<and> ok6 \<and> ok7"
proof -
  obtain ok1 p1 where s1: "apply_masks h c p = (ok1, p1)" by fastforce
  obtain ok2 p2 where s2: "apply_cap_drops h c p1 = (ok2, p2)" by fastforce
  obtain ok3 p3 where s3: "set_no_new_privs h c p2 = (ok3, p3)" by fastforce
  obtain p4 where s4: "strip_env c p3 = (True, p4)" by (simp add: strip_env_def)
  obtain ok5 p5 where s5: "close_inherited_fds h p4 = (ok5, p5)" by fastforce
  obtain ok6 p6 where s6: "use_landlock_step h c p5 = (ok6, p6)" by fastforce
  obtain ok7 p7 where s7: "use_seccomp_step h c p6 = (ok7, p7)" by fastforce
  note s = s1 s2 s3 s4 s5 s6 s7
  have ok: ok1 ok2 ok5
    using assms by (auto simp: shell_session_def Let_def degrading_def s split: if_splits bool.splits)
  then have "shell_session h strict c real_shell argv p =
      (if (preflight_check h c \<noteq> 0 \<or> \<not> ok3 \<or> \<not> ok6 \<or> \<not> ok7) \<and> strict then (Exited 126, p7)
       else (Execed real_shell argv, apply_hardening h p7))"
    by (simp add: shell_session_def Let_def degrading_def s)
  then have e: "p' = apply_hardening h p7" "cmd = real_shell" "args = argv"
    "strict \<longrightarrow> preflight_check h c = 0 \<and> ok3 \<and> ok6 \<and> ok7"
    using assms by (auto split: if_splits)
  have "apply_masks h c p = (True, p1)" "apply_cap_drops h c p1 = (True, p2)" "close_inherited_fds h p4 = (True, p5)"
    using s ok by simp_all
  then show ?thesis using that s3 s4 s6 s7 e by blast
qed


text \<open>The mechanisms that are fatal in a shell, whatever the policy.\<close>

lemma shell_session_confined:
  assumes "shell_session h strict c real_shell argv p = (Execed cmd args, p')"
  shows "masks_in_force h c p' \<and> caps_in_force h c p' \<and> env_in_force c p p' \<and> fds_in_force h p p' \<and>
    (strict \<longrightarrow> in_force h c p p' \<and> preflight_check h c = 0) \<and> cmd = real_shell \<and> args = argv"
proof -
  obtain p1 p2 p3 p4 p5 p6 p7 ok3 ok6 ok7 where
    s: "apply_masks h c p = (True, p1)" "apply_cap_drops h c p1 = (True, p2)" "set_no_new_privs h c p2 = (ok3, p3)"
    "strip_env c p3 = (True, p4)" "close_inherited_fds h p4 = (True, p5)" "use_landlock_step h c p5 = (ok6, p6)"
    "use_seccomp_step h c p6 = (ok7, p7)" and p': "p' = apply_hardening h p7" "cmd = real_shell" "args = argv"
    and st: "strict \<longrightarrow> preflight_check h c = 0 \<and> ok3 \<and> ok6 \<and> ok7"
    by (rule shell_session_execs [OF assms])
  obtain a1 b1 l1 where p1: "p1 = p\<lparr>px_private_ns := a1, px_masked := b1, px_log := l1\<rparr>" "masks_in_force h c p1"
    using masks_effect [OF s(1)] by blast
  obtain a2 b2 d2 e2 l2 where
    p2: "p2 = p1\<lparr>px_dropped := a2, px_ambient_clear := b2, px_inheritable_clear := d2, px_securebits := e2, px_log := l2\<rparr>"
      "caps_in_force h c p2" using caps_effect [OF s(2)] by blast
  obtain a3 l3 where p3: "p3 = p2\<lparr>px_nnp := a3, px_log := l3\<rparr>" "ok3 \<longrightarrow> use_no_new_privs c \<longrightarrow> a3" using nnp_effect [OF s(3)] by auto
  obtain l4 where p4: "p4 = p3\<lparr>px_env := (if use_env_sanitize c then sanitize_env c (px_env p3) else px_env p3), px_log := l4\<rparr>"
    using env_effect [OF s(4)] by blast
  obtain f5 l5 where p5: "p5 = p4\<lparr>px_fds := f5, px_log := l5\<rparr>" "fds_listed h p4 \<longrightarrow> (\<forall>fd \<in> set f5. fd < 3)"
    using fds_effect [OF s(5)] by auto
  obtain a6 l6 where p6: "p6 = p5\<lparr>px_landlock := a6, px_log := l6\<rparr>" "ok6 \<longrightarrow> use_landlock c \<longrightarrow> apply_landlock (uh_ll h) c = (0, a6)"
    using landlock_effect [OF s(6)] by auto
  obtain a7 l7 where p7: "p7 = p6\<lparr>px_seccomp := a7, px_log := l7\<rparr>"
      "ok7 \<longrightarrow> use_seccomp c \<longrightarrow> apply_seccomp (uh_sc h) (h_target (uh_host h)) c = (0, a7)"
    using seccomp_effect [OF s(7)] by auto
  note eqs = p7(1) p6(1) p5(1) p4 p3(1) p2(1) p1(1)
  have m: "masks_in_force h c p7" using p1(2) unfolding masks_in_force_def mask_hidden_def by (simp add: eqs)
  have k: "caps_in_force h c p7" using p2(2) unfolding caps_in_force_def cap_gone_def by (simp add: eqs)
  have f: "fds_in_force h p p7" using p5(2) unfolding fds_in_force_def fds_listed_def by (simp add: eqs)
  have e: "env_in_force c p p7" by (simp add: env_in_force_def eqs)
  have "in_force h c p p7" if strict
  proof -
    have "landlock_in_force h c p7" using p6(2) st that apply_landlock_Some [of "uh_ll h" c a6]
      unfolding landlock_in_force_def by (auto simp: eqs)
    moreover have "seccomp_in_force h c p7" using p7(2) st that unfolding seccomp_in_force_def by (simp add: eqs)
    moreover have "use_no_new_privs c \<longrightarrow> px_nnp p7" using p3(2) st that by (simp add: eqs)
    ultimately show ?thesis using m k f e by (simp add: in_force_def)
  qed
  then show ?thesis using m k f e st p' in_force_hardened [of h c p p7] by (simp add: hardened_in_force)
qed


lemma shell_main_execs:
  assumes "shell_main h name argv p = (Execed cmd args, p')"
  obtains strict c dir where "shell_policy h = Some (strict, c)"
    "shell_session h strict c (dir @ CHR ''/'' # name) argv p = (Execed cmd args, p')"
    "dir = REAL_SHELL_DIR \<or> (uh_SHELL_DIR h = Some dir \<and> shell_dir_acceptable h dir name)"
proof -
  define dir where "dir = (case uh_SHELL_DIR h of Some d \<Rightarrow> if shell_dir_acceptable h d name then d else REAL_SHELL_DIR
    | None \<Rightarrow> REAL_SHELL_DIR)"
  have "dir = REAL_SHELL_DIR \<or> (uh_SHELL_DIR h = Some dir \<and> shell_dir_acceptable h dir name)"
    by (auto simp: dir_def split: option.splits)
  moreover obtain strict c where "shell_policy h = Some (strict, c)"
    "shell_session h strict c (dir @ CHR ''/'' # name) argv p = (Execed cmd args, p')"
    using assms unfolding shell_main_def Let_def dir_def [symmetric] by (auto split: if_splits option.splits)
  ultimately show ?thesis using that by blast
qed

text \<open>
  C17: a login shell starts only when the masks and capability drops of its policy are in force,
  the environment is stripped and the caller's descriptors are gone, and it is the binary in the
  fixed directory or in a trusted one.  Under the operator's own
  \<^verbatim>\<open>shell-replacement.conf\<close> it fails closed: every mechanism of the policy is in force and the
  pre-flight check found nothing.
\<close>

theorem shell_exec_confined:
  assumes "shell_main h name argv p = (Execed cmd args, p')"
  shows "\<exists>strict c dir. shell_policy h = Some (strict, c) \<and> cmd = dir @ CHR ''/'' # name \<and> args = argv \<and>
    (dir = REAL_SHELL_DIR \<or> (uh_SHELL_DIR h = Some dir \<and> shell_dir_acceptable h dir name)) \<and>
    masks_in_force h c p' \<and> caps_in_force h c p' \<and> env_in_force c p p' \<and> fds_in_force h p p' \<and>
    (strict \<longrightarrow> in_force h c p p' \<and> preflight_check h c = 0)"
proof -
  obtain strict c dir where "shell_policy h = Some (strict, c)"
    "shell_session h strict c (dir @ CHR ''/'' # name) argv p = (Execed cmd args, p')"
    "dir = REAL_SHELL_DIR \<or> (uh_SHELL_DIR h = Some dir \<and> shell_dir_acceptable h dir name)"
    by (rule shell_main_execs [OF assms])
  then show ?thesis using shell_session_confined by blast
qed

text \<open>Witness: under a \<^verbatim>\<open>shell-replacement.conf\<close> of one line, \<^verbatim>\<open>bash\<close> starts with everything in force.\<close>

theorem shell_exec_confined_witness:
  "\<exists>p'. shell_main strict_uhost ''bash'' [''bash''] demo_proc = (Execed ''/bin/shells/bash'' [''bash''], p') \<and>
     in_force strict_uhost strict_cfg demo_proc p'"
proof -
  obtain p' where e: "shell_main strict_uhost ''bash'' [''bash''] demo_proc = (Execed ''/bin/shells/bash'' [''bash''], p')"
    using strict_execs by blast
  then show ?thesis using shell_exec_confined [OF e] by (auto simp: strict_policy)
qed

section \<open>The built-in policy of a shell\<close>

lemma run_steps_append:
  "run_steps (fs @ gs) c = (case run_steps fs c of (False, c') \<Rightarrow> (False, c') | (True, c') \<Rightarrow> run_steps gs c')"
  by (induction fs arbitrary: c) (auto split: option.splits)

lemma run_steps_paths:
  "length (paths c) + length ps \<le> MAX_PATHS \<Longrightarrow>
   run_steps (map (\<lambda>p. cfg_add_path p m b) ps) c = (True, c\<lparr>paths := paths c @ map (path_rule m b) ps\<rparr>)"
  by (induction ps arbitrary: c) (simp_all add: cfg_add_path_def)

lemma ai_agent_bad_home:
  assumes "h_HOME h = Some home" and "home_dir_usable h (Some home) = None" and "paths c = []"
  shows "\<exists>ps. apply_profile_ai_agent h c = (False, c\<lparr>paths := ps\<rparr>)"
  using assms
  by (simp add: apply_profile_ai_agent_def ai_home_steps_def run_steps_append run_steps_paths MAX_PATHS_def ai_ro_paths_def ai_rw_paths_def
      ai_rw_dev_def del: list.map map_append) (rule exI, rule refl)


lemma shell_policy_builtin:
  assumes "fst (resolve_and_load_profile (uh_host h) 0 0 ''shell-replacement'' initial_config) = PROFILE_NOT_FOUND"
    and "fst (resolve_and_load_profile (uh_host h) 0 0 ''ai-agent'' initial_config) \<noteq> PROFILE_OK"
  obtains m where "shell_policy h = Some (False, snd (apply_profile_ai_agent (uh_host h) (initial_config\<lparr>cfg_mem := m\<rparr>)))"
proof -
  let ?r = "resolve_and_load_profile (uh_host h) 0 0 ''ai-agent'' initial_config"
  have "resolve_and_load_profile (uh_host h) 0 0 ''shell-replacement'' initial_config = (PROFILE_NOT_FOUND, initial_config)"
    using assms(1) by (simp add: prod_eq_iff resolve_and_load_profile_def resolve_with_not_found load_profile_into_clean)
  moreover have "snd ?r = initial_config\<lparr>cfg_mem := cfg_mem (snd ?r)\<rparr>"
    using assms(2) resolve_with_rollback [OF load_profile_into_clean, of "uh_host h" "uh_host h" 0 0 "''ai-agent''" initial_config]
    unfolding resolve_and_load_profile_def same_policy_def by blast
  ultimately show ?thesis using assms(2) that [of "cfg_mem (snd ?r)"]
    by (cases ?r) (auto simp: shell_policy_def split: profile_rc.splits)
qed

lemma sanitize_nothing: "\<not> env_allow_mode c \<Longrightarrow> env_deny c = [] \<Longrightarrow> sanitize_env c env = env"
proof -
  have "find (is_victim [] False) env = None" by (simp add: find_None_iff is_victim_def any_match_def)
  then show "\<not> env_allow_mode c \<Longrightarrow> env_deny c = [] \<Longrightarrow> ?thesis" by (simp add: sanitize_env_def sanitize_loop.simps)
qed

lemma shell_session_lenient:
  assumes "masks c = []" and "cap_drop_names c = []" and "\<forall>q. fst (close_inherited_fds h q)"
  shows "\<exists>p'. shell_session h False c real_shell argv p = (Execed real_shell argv, p')"
proof -
  have "apply_masks h c p = (True, p)" "apply_cap_drops h c p = (True, p)"
    using assms(1,2) by (simp_all add: apply_masks_def apply_cap_drops_def)
  moreover obtain ok3 p3 where "set_no_new_privs h c p = (ok3, p3)" by fastforce
  moreover obtain ok5 p5 where s5: "close_inherited_fds h (snd (strip_env c p3)) = (ok5, p5)" by fastforce
  moreover have "ok5" using assms(3) s5 by (metis fst_conv)
  ultimately show ?thesis by (simp add: shell_session_def Let_def degrading_def case_prod_beta)
qed

lemma shell_session_seccomp:
  assumes "shell_session h strict c real_shell argv p = (Execed cmd args, p')" and "use_seccomp c"
    and "apply_seccomp (uh_sc h) (h_target (uh_host h)) c = (0, None)"
  shows "px_seccomp p' = None"
proof -
  obtain p6 p7 ok7 where "use_seccomp_step h c p6 = (ok7, p7)" "p' = apply_hardening h p7"
    by (rule shell_session_execs [OF assms(1)])
  then show ?thesis using assms(2,3) by (auto simp: use_seccomp_step_def apply_hardening_def)
qed

text \<open>
  When no profile is installed and \<^verbatim>\<open>HOME\<close> is one the built-in profile refuses (empty,
  relative, \<^verbatim>\<open>/\<close>, missing or another user's), the agent shell still starts, under the part of the
  built-in policy before the refusal: no seccomp filter is installed and the environment, with
  whatever loader variables are in it, is handed on as it was.
\<close>

theorem agent_shell_policy_truncated:
  assumes "fst (resolve_and_load_profile (uh_host h) 0 0 ''shell-replacement'' initial_config) = PROFILE_NOT_FOUND"
    and "fst (resolve_and_load_profile (uh_host h) 0 0 ''ai-agent'' initial_config) \<noteq> PROFILE_OK"
    and "h_HOME (uh_host h) = Some home" and "home_dir_usable (uh_host h) (Some home) = None"
    and "uh_SHELL_DIR h = None" and "length (REAL_SHELL_DIR @ CHR ''/'' # name) < PATH_MAX"
    and "\<forall>q. fst (close_inherited_fds h q)"
  shows "\<exists>p'. shell_main h name argv p = (Execed (REAL_SHELL_DIR @ CHR ''/'' # name) argv, p') \<and>
    px_seccomp p' = None \<and> px_env p' = px_env p"
proof -
  obtain m where m: "shell_policy h = Some (False, snd (apply_profile_ai_agent (uh_host h) (initial_config\<lparr>cfg_mem := m\<rparr>)))"
    by (rule shell_policy_builtin [OF assms(1,2)])
  obtain ps where ps: "apply_profile_ai_agent (uh_host h) (initial_config\<lparr>cfg_mem := m\<rparr>) = (False, initial_config\<lparr>cfg_mem := m, paths := ps\<rparr>)"
    using ai_agent_bad_home [OF assms(3,4), of "initial_config\<lparr>cfg_mem := m\<rparr>"] by (auto simp: initial_config_def empty_config_def)
  define c where "c = initial_config\<lparr>cfg_mem := m, paths := ps\<rparr>"
  have c: "masks c = []" "cap_drop_names c = []" "use_seccomp c" "\<not> env_allow_mode c" "env_deny c = []"
    "apply_seccomp (uh_sc h) (h_target (uh_host h)) c = (0, None)"
    by (simp_all add: c_def apply_seccomp_def initial_config_def empty_config_def)
  obtain p' where run: "shell_session h False c (REAL_SHELL_DIR @ CHR ''/'' # name) argv p =
      (Execed (REAL_SHELL_DIR @ CHR ''/'' # name) argv, p')" using shell_session_lenient [OF c(1,2) assms(7)] by blast
  have pol: "shell_policy h = Some (False, c)" using m ps by (simp add: c_def)
  have "shell_main h name argv p = (Execed (REAL_SHELL_DIR @ CHR ''/'' # name) argv, p')"
    using assms(5,6) run pol by (simp add: shell_main_def Let_def)
  moreover have "px_env p' = px_env p"
    using shell_session_confined [OF run] sanitize_nothing [OF c(4,5)] by (simp add: env_in_force_def)
  moreover have "px_seccomp p' = None" by (rule shell_session_seccomp [OF run c(3,6)])
  ultimately show ?thesis by blast
qed

lemma demo_no_profile:
  "fst (resolve_and_load_profile (uh_host demo_uhost) 0 0 ''shell-replacement'' c) = PROFILE_NOT_FOUND"
  "fst (resolve_and_load_profile (uh_host demo_uhost) 0 0 ''ai-agent'' c) = PROFILE_NOT_FOUND"
  by (simp_all add: resolve_and_load_profile_def resolve_with_def resolve_user_with_def Let_def demo_uhost_def
      load_file_with_def load_profile_into_depth parse_profile_def profile_fopen_trusted_def demo_host_def set_source_def PATH_MAX_def)

text \<open>Witness: with \<^verbatim>\<open>HOME=/\<close>, \<^verbatim>\<open>bash\<close> starts with \<^verbatim>\<open>LD_PRELOAD\<close> in its environment.\<close>

theorem agent_shell_policy_truncated_witness:
  "\<exists>p'. shell_main demo_uhost ''bash'' [''bash''] demo_proc = (Execed ''/bin/shells/bash'' [''bash''], p') \<and>
     px_seccomp p' = None \<and> px_env p' = [''LD_PRELOAD=x'', ''A=b'']"
proof -
  have "h_HOME (uh_host demo_uhost) = Some ''/''" "uh_SHELL_DIR demo_uhost = None" "px_env demo_proc = [''LD_PRELOAD=x'', ''A=b'']"
    by (simp_all add: demo_uhost_def demo_host_def demo_proc_def)
  then show ?thesis
    using agent_shell_policy_truncated [of demo_uhost "''/''" "''bash''" "[''bash'']" demo_proc] demo_no_profile demo_fds
    by (simp add: home_dir_usable_def REAL_SHELL_DIR_def PATH_MAX_def)
qed


section \<open>The order of the mechanisms in both modes\<close>

lemma shell_stages:
  "staged px_log shell_stage (apply_masks h c) 0" "staged px_log shell_stage (apply_cap_drops h c) 1"
  "staged px_log shell_stage (set_no_new_privs h c) 2" "staged px_log shell_stage (strip_env c) 3"
  "staged px_log shell_stage (close_inherited_fds h) 4" "staged px_log shell_stage (use_landlock_step h c) 5"
  "staged px_log shell_stage (use_seccomp_step h c) 6"
proof -
  show "staged px_log shell_stage (apply_masks h c) 0" by (rule mask.in_stage) auto
  show "staged px_log shell_stage (apply_cap_drops h c) 1" by (rule cap.in_stage) auto
  show "staged px_log shell_stage (set_no_new_privs h c) 2" by (rule nnp.in_stage) simp
  show "staged px_log shell_stage (strip_env c) 3" by (rule env.in_stage) simp
  show "staged px_log shell_stage (close_inherited_fds h) 4" by (rule fds.in_stage) simp
  show "staged px_log shell_stage (use_landlock_step h c) 5" by (rule landlock.in_stage) simp
  show "staged px_log shell_stage (use_seccomp_step h c) 6" by (rule seccomp.in_stage) simp
qed

lemma shell_session_log:
  assumes "px_log p = []"
  shows "sorted (map shell_stage (px_log (snd (shell_session h strict c real_shell argv p))))"
proof -
  obtain ok1 p1 where s1: "apply_masks h c p = (ok1, p1)" by fastforce
  obtain ok2 p2 where s2: "apply_cap_drops h c p1 = (ok2, p2)" by fastforce
  obtain ok3 p3 where s3: "set_no_new_privs h c p2 = (ok3, p3)" by fastforce
  obtain ok4 p4 where s4: "strip_env c p3 = (ok4, p4)" by fastforce
  obtain ok5 p5 where s5: "close_inherited_fds h p4 = (ok5, p5)" by fastforce
  obtain ok6 p6 where s6: "use_landlock_step h c p5 = (ok6, p6)" by fastforce
  obtain ok7 p7 where s7: "use_seccomp_step h c p6 = (ok7, p7)" by fastforce
  have "upto_stage px_log shell_stage 0 p" by (rule upto_stage_empty [of px_log, OF assms])
  from staged_upto [OF shell_stages(1) this _ s1] have u1: "upto_stage px_log shell_stage 0 p1" by simp
  from staged_upto [OF shell_stages(2) this _ s2] have u2: "upto_stage px_log shell_stage 1 p2" by simp
  from staged_upto [OF shell_stages(3) this _ s3] have u3: "upto_stage px_log shell_stage 2 p3" by simp
  from staged_upto [OF shell_stages(4) this _ s4] have u4: "upto_stage px_log shell_stage 3 p4" by simp
  from staged_upto [OF shell_stages(5) this _ s5] have u5: "upto_stage px_log shell_stage 4 p5" by simp
  from staged_upto [OF shell_stages(6) this _ s6] have u6: "upto_stage px_log shell_stage 5 p6" by simp
  from staged_upto [OF shell_stages(7) this _ s7] have u7: "upto_stage px_log shell_stage 6 p7" by simp
  have "sorted (map shell_stage (px_log p7 @ [M_harden]))"
    using u7 by (auto simp: upto_stage_def sorted_append)
  moreover have "snd (shell_session h strict c real_shell argv p) \<in> {p1, p2, p5, p7, apply_hardening h p7}"
    by (simp add: shell_session_def Let_def degrading_def s1 s2 s3 s4 s5 s6 s7 split: bool.splits)
  ultimately show ?thesis using u1 u2 u5 u7 unfolding upto_stage_def by auto
qed

lemma cli_main_log:
  "px_log p = [] \<Longrightarrow> sorted (map cli_stage (px_log (snd (cli_main h opts operands p))))"
  using launch_log [of p] by (simp add: cli_main_def split: sum.splits option.splits)

lemma shell_main_log:
  "px_log p = [] \<Longrightarrow> sorted (map shell_stage (px_log (snd (shell_main h name argv p))))"
  using shell_session_log by (simp add: shell_main_def Let_def split: option.splits)

text \<open>
  The mechanisms come into force in a fixed order in each mode, however the run ends.  In
  both, \<^verbatim>\<open>no_new_privs\<close> precedes the seccomp filter, the caller's descriptors are gone before Landlock
  and seccomp, and the mount masks precede the capability drops that would forbid them.
\<close>

theorem mechanism_order:
  "sorted (map cli_stage (px_log (snd (cli_main h opts operands (p\<lparr>px_log := []\<rparr>)))))
   \<and> sorted (map shell_stage (px_log (snd (shell_main h name argv (p\<lparr>px_log := []\<rparr>)))))"
  using cli_main_log shell_main_log by simp

end
