(* ===== verification/User_Dump.thy ===== *)
theory User_Dump
  imports User_Policy
begin

text \<open>
  \<^verbatim>\<open>--dump-profile\<close> and back: what the profile loader reads from the lines that \<^verbatim>\<open>dump_profile\<close> of
  \<^verbatim>\<open>src/compartment-user.c\<close> prints.  The locale \<^verbatim>\<open>dumped_array\<close> is the contract between the two
  for one array of the policy; it is interpreted on each of the nine arrays that are printed.
\<close>

section \<open>Numbers\<close>

lemma char_digit:
  "d < 10 \<Longrightarrow> digit_val (char_of (48 + d)) = Some d"
  by (simp add: digit_val_def Let_def)

lemma char_digit_class:
  assumes "d < (10 :: nat)"
  shows "is_digit 10 (char_of (48 + d))" "\<not> is_space (char_of (48 + d))" "char_of (48 + d) \<noteq> CHR ''-''"
    "char_of (48 + d) \<noteq> CHR ''+''" "char_of (48 + d) \<noteq> CHR ''$''" "char_of (48 + d) \<noteq> CHR ''#''" "char_of (48 + d) \<noteq> NUL"
proof -
  have "d \<in> {0, 1, 2, 3, 4, 5, 6, 7, 8, 9}" using assms by auto
  then show "is_digit 10 (char_of (48 + d))" "\<not> is_space (char_of (48 + d))" "char_of (48 + d) \<noteq> CHR ''-''"
    "char_of (48 + d) \<noteq> CHR ''+''" "char_of (48 + d) \<noteq> CHR ''$''" "char_of (48 + d) \<noteq> CHR ''#''" "char_of (48 + d) \<noteq> NUL"
    using assms by (simp_all add: is_digit_def char_digit) (auto simp: is_space_def char_of_def)
qed

lemma show_nat_digits: "set (show_nat n) \<subseteq> (\<lambda>d. char_of (48 + d)) ` {..<(10 :: nat)}"
proof (induction n rule: show_nat.induct)
  case (1 n)
  have last: "char_of (48 + n mod 10) \<in> (\<lambda>d. char_of (48 + d)) ` {..<(10 :: nat)}" by (rule imageI) simp
  show ?case
  proof (cases "n < 10")
    case True
    then have "show_nat n = [char_of (48 + n mod 10)]" by (subst show_nat.simps) simp
    then show ?thesis using last by simp
  next
    case False
    then have "show_nat n = show_nat (n div 10) @ [char_of (48 + n mod 10)]" by (subst show_nat.simps) simp
    then show ?thesis using last 1 [OF False] by simp
  qed
qed

lemma show_nat_nonempty [simp]: "show_nat n \<noteq> []"
  by (subst show_nat.simps) simp

lemma digits_val_show_nat: "digits_val 10 (show_nat n) = n"
proof (induction n rule: show_nat.induct)
  case (1 n)
  then show ?case by (subst show_nat.simps) (auto simp: digits_val_def char_digit)
qed

lemma scan_int_show_nat: "scan_int 10 (show_nat n) = Some (False, n, [])"
proof -
  obtain d ds where s: "show_nat n = d # ds" by (cases "show_nat n") auto
  have dig: "\<forall>ch \<in> set (show_nat n). is_digit 10 ch" using show_nat_digits [of n] char_digit_class(1) by blast
  obtain k where "k < (10 :: nat)" "d = char_of (48 + k)" using show_nat_digits [of n] s by auto
  then have "\<not> is_space d" "d \<noteq> CHR ''-''" "d \<noteq> CHR ''+''" using char_digit_class(2-4) by simp_all
  then have "dropWhile is_space (show_nat n) = show_nat n" "strip_sign (show_nat n) = (False, show_nat n)"
    by (simp_all add: s strip_sign_def)
  moreover have tw: "takeWhile (is_digit 10) (show_nat n) = show_nat n" "dropWhile (is_digit 10) (show_nat n) = []"
    using dig by (simp_all add: takeWhile_eq_all_conv dropWhile_eq_Nil_conv)
  ultimately show ?thesis by (simp add: scan_int_def strip_base_def Let_def digits_val_show_nat tw)
qed

lemma parse_port_show_int:
  assumes "0 \<le> p" and "p \<le> 65535"
  shows "parse_port (show_int p) = Some p"
proof -
  have "strtol 10 (show_int p) = (p, [], False)"
    using assms by (simp add: show_int_def strtol_def scan_int_show_nat LONG_MAX_def LONG_MIN_def)
  then show ?thesis using assms by (simp add: parse_port_def show_int_def)
qed

section \<open>Lines\<close>

text \<open>A value the loader reads back as it is: no expansion, no comment, nothing to trim.\<close>

definition plain_value :: "string \<Rightarrow> bool" where
  "plain_value v \<longleftrightarrow>
     v \<noteq> [] \<and> list_all (\<lambda>ch. ch \<noteq> NUL \<and> ch \<noteq> NL \<and> ch \<noteq> CR \<and> ch \<noteq> CHR ''$'') v \<and>
     \<not> is_space (hd v) \<and> \<not> is_blank (last v) \<and> strip_comment True v = v"

definition is_word :: "string \<Rightarrow> bool" where
  "is_word d \<longleftrightarrow> d \<noteq> [] \<and> length d \<le> 63 \<and> list_all (\<lambda>ch. \<not> is_space ch \<and> ch \<noteq> CHR ''#'' \<and> ch \<noteq> NUL) d"

lemma strip_comment_word:
  "list_all (\<lambda>ch. \<not> is_space ch \<and> ch \<noteq> CHR ''#'' \<and> ch \<noteq> NUL) d \<Longrightarrow> strip_comment b (d @ CHR '' '' # v) = d @ CHR '' '' # strip_comment True v"
  by (induction d arbitrary: b) (auto simp: is_blank_def)

lemma read_directive_plain:
  assumes "is_word d" and "plain_value v" and "length (directive d v) < MAX_LINE - 1"
  shows "read_directive h (directive d v @ [NL], False) = Some (Some (d, v))"
proof -
  obtain d0 ds where d: "d = d0 # ds" using assms(1) by (cases d) (auto simp: is_word_def)
  have blank: "\<not> is_blank d0" "\<not> is_space d0" using assms(1) by (auto simp: is_word_def d is_space_def is_blank_def)
  have v: "v \<noteq> []" "\<not> is_space (hd v)" "\<not> is_blank (last v)" "strip_comment True v = v" "CHR ''$'' \<notin> set v"
    "NUL \<notin> set v" "NL \<notin> set v" "CR \<notin> set v" using assms(2) by (auto simp: plain_value_def list_all_iff)
  have line: "directive d v = d @ CHR '' '' # v" by (simp add: directive_def)
  have ne: "directive d v \<noteq> []" by (simp add: line)
  have line0: "directive d v = d0 # ds @ CHR '' '' # v" by (simp add: directive_def d)
  have "NUL \<notin> set (directive d v @ [NL])" using assms(1) v(6) by (auto simp: is_word_def list_all_iff line)
  moreover have "last v \<noteq> NL" "last v \<noteq> CR" using v last_in_set by metis+
  then have "strip_newline (directive d v @ [NL]) = directive d v"
    using v(1) by (simp add: strip_newline_def rdropWhile_def line) (cases v rule: rev_cases, simp_all)
  ultimately have l: "strip_newline (cstr (directive d v @ [NL])) = directive d v" by simp
  have "strip_comment True (directive d v) = directive d v"
    using strip_comment_word [of d True v] assms(1) v(4) by (simp add: is_word_def line)
  moreover have "rdropWhile is_blank (directive d v) = directive d v"
    by (rule rdropWhile_id) (simp_all add: line v)
  moreover have "dropWhile is_blank (directive d v) = directive d v" unfolding line0 by (simp add: blank)
  ultimately have s: "dropWhile is_blank (rdropWhile is_blank (strip_comment True (directive d v))) = directive d v" by simp
  have "takeWhile (\<lambda>c. \<not> is_space c) (directive d v) = d"
    using assms(1) by (auto simp: line is_word_def list_all_iff takeWhile_append is_space_def)
  moreover have "dropWhile is_space (directive d v) = directive d v" unfolding line0 by (simp add: blank)
  moreover have "dropWhile is_space (drop (length d) (directive d v)) = v"
    unfolding line using v(1,2) by (cases v) (simp_all add: is_space_def)
  moreover have tw: "takeWhile (\<lambda>c. c \<noteq> NL) v = v" using v(7) by (auto simp: takeWhile_eq_all_conv)
  moreover have "take 1023 v = v" using assms(3) by (simp add: line MAX_LINE_def)
  ultimately have "scan_directive (directive d v) = Some (d, v)"
    using assms(1) by (simp add: scan_directive_def Let_def is_word_def tw)
  then show ?thesis using assms(3) v(5) ne by (simp add: read_directive_def l s expand_var_def)
qed

text \<open>Blank lines and comments are skipped.\<close>

definition remark :: "string \<Rightarrow> bool" where
  "remark l \<longleftrightarrow> l = [] \<or> hd l = CHR ''#''"

lemma rdropWhile_prefix: "\<exists>r. s = rdropWhile P s @ r"
  unfolding rdropWhile_def by (metis rev_append rev_rev_ident takeWhile_dropWhile_id)

lemma stripped_line:
  assumes "length l < MAX_LINE - 1"
  shows "length (strip_newline (cstr (l @ [NL]))) < MAX_LINE - 1 \<and> (\<exists>r. l = strip_newline (cstr (l @ [NL])) @ r)"
proof -
  let ?x = "strip_newline (cstr (l @ [NL]))"
  obtain r1 where r1: "cstr (l @ [NL]) = ?x @ r1" using rdropWhile_prefix unfolding strip_newline_def by blast
  obtain r2 where r2: "l @ [NL] = cstr (l @ [NL]) @ r2" unfolding cstr_def by (metis takeWhile_dropWhile_id)
  have "?x = [] \<or> last ?x \<noteq> NL" using rdropWhile_last [of "\<lambda>c. c = NL \<or> c = CR"] unfolding strip_newline_def by blast
  moreover have e: "l @ [NL] = ?x @ r1 @ r2" using r1 r2 by (metis append.assoc)
  ultimately have "r1 @ r2 \<noteq> []" by (metis append_Nil2 last_snoc snoc_eq_iff_butlast)
  then obtain r where "r1 @ r2 = r @ [NL]" using e by (metis append_butlast_last_id last_appendR last_snoc)
  then have "l = ?x @ r" using e by simp
  then show ?thesis using assms by (metis length_append le_add1 le_less_trans)
qed

lemma read_remark:
  assumes "remark l" and "length l < MAX_LINE - 1"
  shows "read_directive h (l @ [NL], False) = Some None"
proof -
  let ?x = "strip_newline (cstr (l @ [NL]))"
  obtain r where r: "l = ?x @ r" "length ?x < MAX_LINE - 1" using stripped_line [OF assms(2)] by blast
  then have "?x = [] \<or> hd ?x = CHR ''#''" using assms(1) unfolding remark_def by (metis append_is_Nil_conv hd_append2)
  then have "strip_comment True ?x = []" by (cases ?x) auto
  then show ?thesis using r(2) by (simp add: read_directive_def rdropWhile_def)
qed


text \<open>A run of lines, as a profile that only the system search path is used for.\<close>

definition read_lines :: "host \<Rightarrow> (string \<Rightarrow> Config \<Rightarrow> profile_rc \<times> Config) \<Rightarrow> string list \<Rightarrow> Config \<Rightarrow> profile_rc \<times> Config" where
  "read_lines h inh ls c = process_lines h 0 inh (map (\<lambda>l. (l @ [NL], False)) ls) c"

lemma read_lines_append:
  "read_lines h inh ls c = (PROFILE_OK, c') \<Longrightarrow> read_lines h inh (ls @ ms) c = read_lines h inh ms c'"
  by (simp add: read_lines_def process_lines_append)

lemma read_lines_Nil [simp]: "read_lines h inh [] c = (PROFILE_OK, c)"
  by (simp add: read_lines_def)

lemma read_lines_Cons:
  "process_line h 0 inh (l @ [NL], False) c = (PROFILE_OK, c') \<Longrightarrow> read_lines h inh (l # ls) c = read_lines h inh ls c'"
  by (simp add: read_lines_def)

lemma read_remarks:
  "list_all (\<lambda>l. remark l \<and> short_line l) ls \<Longrightarrow> read_lines h inh ls c = (PROFILE_OK, c)"
  by (induction ls) (simp_all add: read_lines_Cons process_line_def read_remark short_line_def)

text \<open>A printed directive comes back to \<^verbatim>\<open>apply_directive\<close> as it was.\<close>

definition printable :: "string \<Rightarrow> string \<Rightarrow> bool" where
  "printable d v \<longleftrightarrow> plain_value v \<and> short_line (directive d v)"

lemma process_line_directive:
  assumes "printable d v" and "is_word d" and "\<not> directive_is_root_only d"
  shows "process_line h 0 inh (directive d v @ [NL], False) c = apply_directive (h_target h) inh d v c"
  using read_directive_plain [OF assms(2), of v h] assms by (simp add: printable_def process_line_def short_line_def)

lemma dump_words:
  "is_word ''ro''" "is_word ''rw''" "is_word ''exec''" "is_word ''rwx''" "is_word ''block''" "is_word ''allow''" "is_word ''net-bind''" "is_word ''net-connect''"
  "is_word ''net-default''" "is_word ''seccomp-default''" "is_word ''seccomp-mode''" "is_word ''env-deny''" "is_word ''env-allow''" "is_word ''env-mode''"
  "is_word ''workdir''" "is_word ''landlock''" "is_word ''seccomp''" "is_word ''no-new-privs''" "is_word ''env-sanitize''" "is_word ''audit''"
  "is_word ''audit-log''" "is_word ''cap-drop''" "is_word ''mask''"
  by (simp_all add: is_word_def is_space_def)

lemma dump_not_root:
  "\<not> directive_is_root_only ''ro''" "\<not> directive_is_root_only ''rw''" "\<not> directive_is_root_only ''exec''" "\<not> directive_is_root_only ''rwx''"
  "\<not> directive_is_root_only ''block''" "\<not> directive_is_root_only ''allow''" "\<not> directive_is_root_only ''net-bind''"
  "\<not> directive_is_root_only ''net-connect''" "\<not> directive_is_root_only ''net-default''" "\<not> directive_is_root_only ''seccomp-default''"
  "\<not> directive_is_root_only ''seccomp-mode''" "\<not> directive_is_root_only ''env-deny''" "\<not> directive_is_root_only ''env-allow''"
  "\<not> directive_is_root_only ''env-mode''" "\<not> directive_is_root_only ''workdir''" "\<not> directive_is_root_only ''landlock''"
  "\<not> directive_is_root_only ''seccomp''" "\<not> directive_is_root_only ''no-new-privs''" "\<not> directive_is_root_only ''env-sanitize''"
  "\<not> directive_is_root_only ''audit''" "\<not> directive_is_root_only ''audit-log''" "\<not> directive_is_root_only ''cap-drop''"
  "\<not> directive_is_root_only ''mask''"
  by (simp_all add: directive_is_root_only_def has_prefix_def)

lemma read_switch:
  assumes "printable d v" and "is_word d" and "\<not> directive_is_root_only d" and "apply_directive (h_target h) inh d v c = (PROFILE_OK, c')"
  shows "read_lines h inh (directive d v # ls) c = read_lines h inh ls c'"
  using process_line_directive [OF assms(1-3)] assms(4) by (intro read_lines_Cons) simp

lemmas process_dumped = process_line_directive dump_words dump_not_root apply_directive_def directive_env_switches_def
  directive_inherit_caps_def

section \<open>One array, printed and read\<close>

text \<open>
  \<^verbatim>\<open>line\<close> prints an entry and \<^verbatim>\<open>entry\<close> is what the array holds once the line is read: one value,
  or none when the entry is printed as a comment.  \<^verbatim>\<open>ready\<close> is what the lines before it
  established.
\<close>

locale dumped_array =
  fixes h :: host and inh :: "string \<Rightarrow> Config \<Rightarrow> profile_rc \<times> Config"
    and arr :: "Config \<Rightarrow> 'a list" and put :: "'a list \<Rightarrow> Config \<Rightarrow> Config" and limit :: nat
    and line :: "'b \<Rightarrow> string" and entry :: "'b \<Rightarrow> 'a list" and ok :: "'b \<Rightarrow> bool" and ready :: "Config \<Rightarrow> bool"
  assumes arr_put: "arr (put l c) = l"
    and put_put: "put l (put l' c) = put l c"
    and put_arr: "ready c \<Longrightarrow> put (arr c) c = c"
    and ready_put: "ready c \<Longrightarrow> ready (put l c)"
    and read_one: "ok x \<Longrightarrow> ready c \<Longrightarrow> length (arr c) < limit \<Longrightarrow>
      process_line h 0 inh (line x @ [NL], False) c = (PROFILE_OK, put (arr c @ entry x) c)"
    and one_entry: "length (entry x) \<le> 1"
begin

lemma read_all:
  assumes "list_all ok xs" and "ready c" and "length (arr c) + length xs \<le> limit"
  shows "read_lines h inh (map line xs) c = (PROFILE_OK, put (arr c @ concat (map entry xs)) c)"
  using assms
proof (induction xs arbitrary: c)
  case Nil
  then show ?case by (simp add: put_arr)
next
  case (Cons x xs)
  have one: "process_line h 0 inh (line x @ [NL], False) c = (PROFILE_OK, put (arr c @ entry x) c)"
    using read_one [of x c] Cons.prems by simp
  let ?c = "put (arr c @ entry x) c"
  have "ready ?c" "length (arr ?c) + length xs \<le> limit" "list_all ok xs"
    using Cons.prems ready_put one_entry [of x] by (simp_all add: arr_put)
  then have "read_lines h inh (map line xs) ?c = (PROFILE_OK, put (arr ?c @ concat (map entry xs)) ?c)"
    using Cons.IH by blast
  then show ?case by (simp add: read_lines_Cons [OF one] arr_put put_put)
qed

end

section \<open>The arrays of the policy\<close>

definition optional_ok :: "string \<Rightarrow> bool \<Rightarrow> bool" where
  "optional_ok p opt \<longleftrightarrow> (if opt then p \<noteq> [] else \<not> is_optional_path p)"

lemma optional_back:
  assumes "optional_ok p opt"
  shows "trim_optional (p @ (if opt then ''?'' else [])) = p" "is_optional_path (p @ (if opt then ''?'' else [])) = opt"
proof -
  show o: "is_optional_path (p @ (if opt then ''?'' else [])) = opt"
    using assms by (cases p) (auto simp: optional_ok_def is_optional_path_def)
  show "trim_optional (p @ (if opt then ''?'' else [])) = p" using o by (cases opt) (simp_all add: trim_optional_def)
qed

definition owned :: "PathRule \<Rightarrow> PathRule" where
  "owned r = r\<lparr>pr_owned := True\<rparr>"

definition path_ok :: "PathRule \<Rightarrow> bool" where
  "path_ok r \<longleftrightarrow> optional_ok (pr_path r) (pr_optional r) \<and>
     printable (mode_name (pr_mode r)) (pr_path r @ (if pr_optional r then ''?'' else []))"

lemma path_rule_back:
  "optional_ok (pr_path r) (pr_optional r) \<Longrightarrow> path_rule (pr_mode r) True (pr_path r @ (if pr_optional r then ''?'' else [])) = owned r"
  using optional_back [of "pr_path r" "pr_optional r"] by (simp add: path_rule_def owned_def)

interpretation dump_paths: dumped_array h inh paths "\<lambda>l c. c\<lparr>paths := l\<rparr>" MAX_PATHS dump_path "\<lambda>r. [owned r]" path_ok "\<lambda>_. True"
  for h inh
proof unfold_locales
  fix r :: PathRule and c :: Config
  assume "path_ok r" "length (paths c) < MAX_PATHS"
  then show "process_line h 0 inh (dump_path r @ [NL], False) c = (PROFILE_OK, c\<lparr>paths := paths c @ [owned r]\<rparr>)"
    using path_rule_back [of r]
    by (cases "pr_mode r") (simp_all add: path_ok_def dump_path_def mode_name_def process_dumped cfg_add_path_def)
qed simp_all

text \<open>Ports are printed in decimal.\<close>

definition port_ok :: "int \<Rightarrow> bool" where
  "port_ok p \<longleftrightarrow> 0 \<le> p \<and> p \<le> 65535"

lemma strip_comment_none: "CHR ''#'' \<notin> set s \<Longrightarrow> strip_comment b s = s"
  by (induction s arbitrary: b) auto

lemma show_int_printable:
  assumes "port_ok p" and "length d \<le> 63" and "NL \<notin> set d"
  shows "printable d (show_int p)"
proof -
  have e: "show_int p = show_nat (nat p)" using assms(1) by (simp add: show_int_def port_ok_def)
  have chars: "\<not> is_space ch \<and> ch \<noteq> CHR ''$'' \<and> ch \<noteq> CHR ''#'' \<and> ch \<noteq> NUL" if ch: "ch \<in> set (show_nat n)" for ch n
  proof -
    obtain k where "k < (10 :: nat)" "ch = char_of (48 + k)" using ch show_nat_digits [of n] by blast
    then show ?thesis using char_digit_class(2,5,6,7) by metis
  qed
  have "strip_comment True (show_int p) = show_int p" by (rule strip_comment_none) (use chars e in auto)
  moreover have "\<not> is_space (hd (show_int p))" "\<not> is_space (last (show_int p))"
    using chars [of _ "nat p"] hd_in_set [of "show_int p"] last_in_set [of "show_int p"] by (auto simp: e)
  moreover have "list_all (\<lambda>ch. ch \<noteq> NUL \<and> ch \<noteq> NL \<and> ch \<noteq> CR \<and> ch \<noteq> CHR ''$'') (show_int p)"
    using chars [of _ "nat p"] by (auto simp: list_all_iff e is_space_def)
  moreover have "length (show_int p) \<le> 5" using assms(1) length_show_nat [of "nat p" 5] by (simp add: e port_ok_def nat_less_iff)
  moreover have "NL \<notin> set (show_int p)" using chars [of _ "nat p"] by (auto simp: e is_space_def)
  ultimately show ?thesis using assms(2,3)
    by (auto simp: printable_def plain_value_def short_line_def directive_def MAX_LINE_def e is_blank_def is_space_def)
qed

interpretation dump_bind: dumped_array h inh net_bind_ports "\<lambda>l c. c\<lparr>net_bind_ports := l\<rparr>" MAX_NET_PORTS
  "\<lambda>p. directive ''net-bind'' (show_int p)" "\<lambda>p. [p]" port_ok "\<lambda>_. True" for h inh
proof unfold_locales
  fix p :: int and c :: Config
  assume "port_ok p" "length (net_bind_ports c) < MAX_NET_PORTS"
  then show "process_line h 0 inh (directive ''net-bind'' (show_int p) @ [NL], False) c = (PROFILE_OK, c\<lparr>net_bind_ports := net_bind_ports c @ [p]\<rparr>)"
    using show_int_printable [of p "''net-bind''"]
    by (simp add: process_dumped cfg_add_net_port_def parse_port_show_int port_ok_def)
qed simp_all

interpretation dump_connect: dumped_array h inh net_connect_ports "\<lambda>l c. c\<lparr>net_connect_ports := l\<rparr>" MAX_NET_PORTS
  "\<lambda>p. directive ''net-connect'' (show_int p)" "\<lambda>p. [p]" port_ok "\<lambda>_. True" for h inh
proof unfold_locales
  fix p :: int and c :: Config
  assume "port_ok p" "length (net_connect_ports c) < MAX_NET_PORTS"
  then show "process_line h 0 inh (directive ''net-connect'' (show_int p) @ [NL], False) c =
      (PROFILE_OK, c\<lparr>net_connect_ports := net_connect_ports c @ [p]\<rparr>)"
    using show_int_printable [of p "''net-connect''"]
    by (simp add: process_dumped cfg_add_net_port_def parse_port_show_int port_ok_def)
qed simp_all

text \<open>System calls are printed by the first name of their number, or as a comment.\<close>

definition named :: "target \<Rightarrow> int \<Rightarrow> int list" where
  "named t nr = (if syscall_name t nr = None then [] else [nr])"

definition call_ok :: "target \<Rightarrow> string \<Rightarrow> int \<Rightarrow> bool" where
  "call_ok t d nr \<longleftrightarrow> 0 \<le> nr \<and> short_line (dump_syscall t d nr)"

lemma syscall_name_resolves:
  assumes "syscall_name t nr = Some n"
  shows "resolve_syscall t n = nr \<and> n \<in> fst ` set syscall_names"
proof -
  have "(n, nr) \<in> set (syscall_table t)" using assms by (auto simp: syscall_name_def dest!: find_SomeD)
  then have "n \<in> fst ` set syscall_names" "nr_of t n = Some nr"
    by (auto simp: syscall_table_def List.map_filter_def split: option.splits) force
  then show ?thesis using resolve_syscall_listed by blast
qed

lemma syscall_names_plain: "\<forall>n \<in> fst ` set syscall_names. plain_value n"
proof -
  have "list_all (plain_value \<circ> fst) syscall_names" by code_simp
  then show ?thesis by (auto simp: list_all_iff)
qed

lemma process_dumped_call:
  assumes "call_ok (h_target h) d nr" and "is_word d" and "\<not> directive_is_root_only d"
  shows "process_line h 0 inh (dump_syscall (h_target h) d nr @ [NL], False) c =
    (case syscall_name (h_target h) nr of None \<Rightarrow> (PROFILE_OK, c) | Some n \<Rightarrow> apply_directive (h_target h) inh d n c)"
proof (cases "syscall_name (h_target h) nr")
  case None
  then have "remark (dump_syscall (h_target h) d nr)" by (simp add: dump_syscall_def remark_def)
  then show ?thesis using None assms(1) by (simp add: process_line_def read_remark call_ok_def short_line_def)
next
  case (Some n)
  then have "plain_value n" using syscall_name_resolves [OF Some] syscall_names_plain by blast
  then have "printable d n" using assms(1) Some
    by (simp add: printable_def call_ok_def dump_syscall_def)
  then show ?thesis using process_line_directive [OF _ assms(2,3)] Some by (simp add: dump_syscall_def)
qed

interpretation dump_blocked: dumped_array h inh blocked_syscalls "\<lambda>l c. c\<lparr>blocked_syscalls := l\<rparr>" MAX_BLOCKED_SC
  "dump_syscall (h_target h) ''block''" "named (h_target h)" "call_ok (h_target h) ''block''" "\<lambda>_. True" for h inh
proof unfold_locales
  fix nr :: int and c :: Config
  assume "call_ok (h_target h) ''block'' nr" "length (blocked_syscalls c) < MAX_BLOCKED_SC"
  then show "process_line h 0 inh (dump_syscall (h_target h) ''block'' nr @ [NL], False) c =
      (PROFILE_OK, c\<lparr>blocked_syscalls := blocked_syscalls c @ named (h_target h) nr\<rparr>)"
    using process_dumped_call [of h "''block''" nr inh c] syscall_name_resolves [of "h_target h" nr]
    by (auto simp: dump_words dump_not_root apply_directive_def cfg_add_blocked_def named_def call_ok_def split: option.splits)
next
  show "length (named (h_target h) nr) \<le> 1" for nr by (simp add: named_def)
qed simp_all

interpretation dump_allowed: dumped_array h inh allowed_syscalls "\<lambda>l c. c\<lparr>allowed_syscalls := l\<rparr>" MAX_ALLOWED_SC
  "dump_syscall (h_target h) ''allow''" "named (h_target h)" "call_ok (h_target h) ''allow''" seccomp_allow_mode for h inh
proof unfold_locales
  fix nr :: int and c :: Config
  assume "call_ok (h_target h) ''allow'' nr" "seccomp_allow_mode c" "length (allowed_syscalls c) < MAX_ALLOWED_SC"
  then show "process_line h 0 inh (dump_syscall (h_target h) ''allow'' nr @ [NL], False) c =
      (PROFILE_OK, c\<lparr>allowed_syscalls := allowed_syscalls c @ named (h_target h) nr\<rparr>)"
    using process_dumped_call [of h "''allow''" nr inh c] syscall_name_resolves [of "h_target h" nr]
    by (auto simp: dump_words dump_not_root apply_directive_def cfg_add_allowed_def named_def call_ok_def split: option.splits)
next
  show "length (named (h_target h) nr) \<le> 1" for nr by (simp add: named_def)
qed simp_all


text \<open>The other arrays hold names.\<close>

definition env_ok :: "string \<Rightarrow> string \<times> bool \<Rightarrow> bool" where
  "env_ok d e \<longleftrightarrow> printable d (fst e)"

interpretation dump_env_deny: dumped_array h inh env_deny "\<lambda>l c. c\<lparr>env_deny := l\<rparr>" MAX_ENV_VARS
  "directive ''env-deny'' \<circ> fst" "\<lambda>e. [(fst e, True)]" "env_ok ''env-deny''" "\<lambda>_. True" for h inh
  by unfold_locales (simp_all add: env_ok_def process_dumped cfg_add_env_deny_def)

interpretation dump_env_allow: dumped_array h inh env_allow "\<lambda>l c. c\<lparr>env_allow := l\<rparr>" MAX_ENV_VARS
  "directive ''env-allow'' \<circ> fst" "\<lambda>e. [(fst e, True)]" "env_ok ''env-allow''" env_allow_mode for h inh
  by unfold_locales (simp_all add: env_ok_def process_dumped cfg_add_env_allow_def)

definition cap_ok :: "string \<Rightarrow> bool" where
  "cap_ok n \<longleftrightarrow> resolve_cap n \<ge> 0 \<and> printable ''cap-drop'' n"

interpretation dump_caps: dumped_array h inh cap_drop_names "\<lambda>l c. c\<lparr>cap_drop_names := l\<rparr>" MAX_ENV_VARS
  "directive ''cap-drop''" "\<lambda>n. [n]" cap_ok "\<lambda>_. True" for h inh
  by unfold_locales (simp_all add: cap_ok_def process_dumped cfg_add_str_def)

definition mask_ok :: "string \<times> bool \<Rightarrow> bool" where
  "mask_ok m \<longleftrightarrow> optional_ok (fst m) (snd m) \<and> hd (fst m) = CHR ''/'' \<and> fst m \<noteq> [] \<and>
     printable ''mask'' (fst m @ (if snd m then ''?'' else []))"

interpretation dump_masks: dumped_array h inh masks "\<lambda>l c. c\<lparr>masks := l\<rparr>" MAX_PATHS dump_mask "\<lambda>m. [m]" mask_ok "\<lambda>_. True" for h inh
proof unfold_locales
  fix m :: "string \<times> bool" and c :: Config
  assume m: "mask_ok m" "length (masks c) < MAX_PATHS"
  then have "fst m @ (if snd m then ''?'' else []) \<noteq> []" "hd (fst m @ (if snd m then ''?'' else [])) = CHR ''/''"
    by (simp_all add: mask_ok_def)
  then show "process_line h 0 inh (dump_mask m @ [NL], False) c = (PROFILE_OK, c\<lparr>masks := masks c @ [m]\<rparr>)"
    using m optional_back [of "fst m" "snd m"] unfolding dump_mask_def
    by (simp add: mask_ok_def process_dumped cfg_add_mask_def)
qed simp_all


section \<open>The whole dump\<close>

definition dumpable :: "target \<Rightarrow> Config \<Rightarrow> bool" where
  "dumpable t c \<longleftrightarrow>
     cfg_limits c \<and> list_all short_line (dump_profile t c) \<and> list_all path_ok (paths c) \<and>
     list_all port_ok (net_bind_ports c) \<and> list_all port_ok (net_connect_ports c) \<and>
     pred_option (printable ''workdir'') (workdir c) \<and> pred_option (printable ''audit-log'') (audit_log_dir c) \<and>
     (if seccomp_allow_mode c then list_all (call_ok t ''allow'') (allowed_syscalls c)
      else list_all (call_ok t ''block'') (blocked_syscalls c)) \<and>
     (if env_allow_mode c then list_all (env_ok ''env-allow'') (env_allow c) else list_all (env_ok ''env-deny'') (env_deny c)) \<and>
     list_all cap_ok (cap_drop_names c) \<and> list_all mask_ok (masks c)"

text \<open>The policy that comes back.\<close>

definition with_net :: "Config \<Rightarrow> Config \<Rightarrow> Config" where
  "with_net c c0 = c0\<lparr>net_bind_ports := net_bind_ports c, net_connect_ports := net_connect_ports c, net_default_deny := net_default_deny c\<rparr>"

definition with_seccomp :: "target \<Rightarrow> Config \<Rightarrow> Config \<Rightarrow> Config" where
  "with_seccomp t c c0 = c0\<lparr>seccomp_default := seccomp_default c, seccomp_allow_mode := seccomp_allow_mode c,
     allowed_syscalls := (if seccomp_allow_mode c then concat (map (named t) (allowed_syscalls c)) else []),
     blocked_syscalls := (if seccomp_allow_mode c then [] else concat (map (named t) (blocked_syscalls c)))\<rparr>"

definition with_env :: "Config \<Rightarrow> Config \<Rightarrow> Config" where
  "with_env c c0 = c0\<lparr>env_allow_mode := env_allow_mode c,
     env_allow := (if env_allow_mode c then map (\<lambda>e. (fst e, True)) (env_allow c) else []),
     env_deny := (if env_allow_mode c then [] else map (\<lambda>e. (fst e, True)) (env_deny c))\<rparr>"

lemma concat_single [simp]: "concat (map (\<lambda>x. [f x]) xs) = map f xs"
  by (induction xs) simp_all

lemma remark_lines: "remark []" "short_line []" "remark (CHR ''#'' # s)"
  by (simp_all add: remark_def short_line_def MAX_LINE_def)

lemma fixed_values:
  "printable ''net-default'' ''deny''" "printable ''seccomp-mode'' ''allow''" "printable ''env-mode'' ''allow''"
  "printable ''seccomp-default'' ''kill''" "printable ''seccomp-default'' ''log''" "printable ''landlock'' ''on''"
  "printable ''seccomp'' ''on''" "printable ''no-new-privs'' ''on''" "printable ''env-sanitize'' ''on''" "printable ''audit'' ''on''"
  by (simp_all add: printable_def plain_value_def short_line_def MAX_LINE_def directive_def is_blank_def is_space_def)

lemmas read_fixed = read_switch [OF fixed_values(1)] read_switch [OF fixed_values(2)] read_switch [OF fixed_values(3)]
  read_switch [OF fixed_values(4)] read_switch [OF fixed_values(5)] read_switch [OF fixed_values(6)]
  read_switch [OF fixed_values(7)] read_switch [OF fixed_values(8)] read_switch [OF fixed_values(9)] read_switch [OF fixed_values(10)]

lemmas directive_chain = dump_words dump_not_root apply_directive_def directive_env_switches_def directive_inherit_caps_def

lemma read_net:
  assumes "dumpable t c" and "net_bind_ports c0 = []" and "net_connect_ports c0 = []" and "\<not> net_default_deny c0"
  shows "read_lines h inh (dump_net c) c0 = (PROFILE_OK, with_net c c0)"
proof (cases "net_bind_ports c \<noteq> [] \<or> net_connect_ports c \<noteq> [] \<or> net_default_deny c")
  case False
  then show ?thesis using assms(2-4) by (simp add: dump_net_def with_net_def)
next
  case True
  let ?b = "c0\<lparr>net_bind_ports := net_bind_ports c\<rparr>"
  let ?bc = "?b\<lparr>net_connect_ports := net_connect_ports c\<rparr>"
  have b: "read_lines h inh (map (\<lambda>n. directive ''net-bind'' (show_int n)) (net_bind_ports c)) c0 = (PROFILE_OK, ?b)"
    using dump_bind.read_all [of "net_bind_ports c" c0 h inh] assms by (simp add: dumpable_def cfg_limits_def)
  have cn: "read_lines h inh (map (\<lambda>n. directive ''net-connect'' (show_int n)) (net_connect_ports c)) ?b = (PROFILE_OK, ?bc)"
    using dump_connect.read_all [of "net_connect_ports c" ?b h inh] assms by (simp add: dumpable_def cfg_limits_def)
  have d: "read_lines h inh (if net_default_deny c then [directive ''net-default'' ''deny''] else []) ?bc = (PROFILE_OK, with_net c c0)"
    using assms(4) by (simp add: read_fixed directive_chain with_net_def)
  have h: "read_lines h inh [[], ''# Network (Landlock TCP ports)''] c0 = (PROFILE_OK, c0)"
    by (rule read_remarks) (simp add: remark_lines short_line_def MAX_LINE_def)
  have "dump_net c = [[], ''# Network (Landlock TCP ports)''] @ map (\<lambda>n. directive ''net-bind'' (show_int n)) (net_bind_ports c) @
      map (\<lambda>n. directive ''net-connect'' (show_int n)) (net_connect_ports c) @
      (if net_default_deny c then [directive ''net-default'' ''deny''] else [])"
    using True by (simp add: dump_net_def directive_def)
  then show ?thesis by (simp only: read_lines_append [OF h] read_lines_append [OF b] read_lines_append [OF cn] d)
qed

lemma read_seccomp_default:
  assumes "seccomp_default c0 = SECCOMP_DEFAULT_ERRNO"
  shows "read_lines h inh (if seccomp_default c \<noteq> SECCOMP_DEFAULT_ERRNO then [[], directive ''seccomp-default'' (seccomp_action_name c)] else []) c0 =
    (PROFILE_OK, c0\<lparr>seccomp_default := seccomp_default c\<rparr>)"
proof -
  have blank: "read_lines h inh ([[]] @ ls) c0 = read_lines h inh ls c0" for ls
    by (rule read_lines_append) (rule read_remarks, simp add: remark_lines)
  show ?thesis using assms blank
    by (cases "seccomp_default c") (simp_all add: seccomp_action_name_def read_fixed directive_chain)
qed

lemma read_seccomp:
  assumes "dumpable (h_target h) c" and "seccomp_default c0 = SECCOMP_DEFAULT_ERRNO" and "\<not> seccomp_allow_mode c0"
    and "allowed_syscalls c0 = []" and "blocked_syscalls c0 = []"
  shows "read_lines h inh (dump_seccomp (h_target h) c) c0 = (PROFILE_OK, with_seccomp (h_target h) c c0)"
proof -
  let ?t = "h_target h" and ?c1 = "c0\<lparr>seccomp_default := seccomp_default c\<rparr>"
  note d = read_seccomp_default [OF assms(2), of h inh c]
  show ?thesis
  proof (cases "seccomp_allow_mode c")
    case True
    let ?c2 = "?c1\<lparr>seccomp_allow_mode := True\<rparr>"
    have m: "read_lines h inh [[], ''# Syscall allow-list (seccomp)''] ?c1 = (PROFILE_OK, ?c1)"
      by (rule read_remarks) (simp add: remark_lines short_line_def MAX_LINE_def)
    have a: "read_lines h inh [directive ''seccomp-mode'' ''allow''] ?c1 = (PROFILE_OK, ?c2)" by (simp add: read_fixed directive_chain)
    have l: "read_lines h inh (map (dump_syscall ?t ''allow'') (allowed_syscalls c)) ?c2 =
        (PROFILE_OK, ?c2\<lparr>allowed_syscalls := concat (map (named ?t) (allowed_syscalls c))\<rparr>)"
      using dump_allowed.read_all [of h "allowed_syscalls c" ?c2 inh] assms True by (simp add: dumpable_def cfg_limits_def)
    have "dump_seccomp ?t c = (if seccomp_default c \<noteq> SECCOMP_DEFAULT_ERRNO then [[], directive ''seccomp-default'' (seccomp_action_name c)] else []) @
        [[], ''# Syscall allow-list (seccomp)''] @ [directive ''seccomp-mode'' ''allow''] @ map (dump_syscall ?t ''allow'') (allowed_syscalls c)"
      using True by (simp add: dump_seccomp_def directive_def)
    then show ?thesis using True assms(5)
      by (simp only: read_lines_append [OF d] read_lines_append [OF m] read_lines_append [OF a] l) (simp add: with_seccomp_def)
  next
    case False
    have m: "read_lines h inh [[], ''# Syscall deny-list (seccomp)''] ?c1 = (PROFILE_OK, ?c1)"
      by (rule read_remarks) (simp add: remark_lines short_line_def MAX_LINE_def)
    have l: "read_lines h inh (map (dump_syscall ?t ''block'') (blocked_syscalls c)) ?c1 =
        (PROFILE_OK, ?c1\<lparr>blocked_syscalls := concat (map (named ?t) (blocked_syscalls c))\<rparr>)"
      using dump_blocked.read_all [of h "blocked_syscalls c" ?c1 inh] assms False by (simp add: dumpable_def cfg_limits_def)
    have "dump_seccomp ?t c = (if seccomp_default c \<noteq> SECCOMP_DEFAULT_ERRNO then [[], directive ''seccomp-default'' (seccomp_action_name c)] else []) @
        [[], ''# Syscall deny-list (seccomp)''] @ map (dump_syscall ?t ''block'') (blocked_syscalls c)"
      using False by (simp add: dump_seccomp_def)
    then show ?thesis using False assms(3,4)
      by (simp only: read_lines_append [OF d] read_lines_append [OF m] l) (simp add: with_seccomp_def)
  qed
qed

lemma read_env:
  assumes "dumpable t c" and "\<not> env_allow_mode c0" and "env_allow c0 = []" and "env_deny c0 = []"
  shows "read_lines h inh (dump_env c) c0 = (PROFILE_OK, with_env c c0)"
proof (cases "env_allow_mode c")
  case True
  let ?c1 = "c0\<lparr>env_allow_mode := True\<rparr>"
  have m: "read_lines h inh [[], ''# Environment allow-list ('' @ prefix_hint] c0 = (PROFILE_OK, c0)"
    by (rule read_remarks) (simp add: remark_lines short_line_def MAX_LINE_def prefix_hint_def)
  have a: "read_lines h inh [directive ''env-mode'' ''allow''] c0 = (PROFILE_OK, ?c1)" by (simp add: read_fixed directive_chain)
  have l: "read_lines h inh (map (directive ''env-allow'' \<circ> fst) (env_allow c)) ?c1 =
      (PROFILE_OK, ?c1\<lparr>env_allow := map (\<lambda>e. (fst e, True)) (env_allow c)\<rparr>)"
    using dump_env_allow.read_all [of "env_allow c" ?c1 h inh] assms True by (simp add: dumpable_def cfg_limits_def)
  have "dump_env c = [[], ''# Environment allow-list ('' @ prefix_hint] @ [directive ''env-mode'' ''allow''] @
      map (directive ''env-allow'' \<circ> fst) (env_allow c)" using True by (simp add: dump_env_def directive_def)
  then show ?thesis using True assms(4)
    by (simp only: read_lines_append [OF m] read_lines_append [OF a] l) (simp add: with_env_def)
next
  case False
  have m: "read_lines h inh [[], ''# Environment deny-list ('' @ prefix_hint] c0 = (PROFILE_OK, c0)"
    by (rule read_remarks) (simp add: remark_lines short_line_def MAX_LINE_def prefix_hint_def)
  have l: "read_lines h inh (map (directive ''env-deny'' \<circ> fst) (env_deny c)) c0 =
      (PROFILE_OK, c0\<lparr>env_deny := map (\<lambda>e. (fst e, True)) (env_deny c)\<rparr>)"
    using dump_env_deny.read_all [of "env_deny c" c0 h inh] assms False by (simp add: dumpable_def cfg_limits_def)
  have "dump_env c = [[], ''# Environment deny-list ('' @ prefix_hint] @ map (directive ''env-deny'' \<circ> fst) (env_deny c)"
    using False by (simp add: dump_env_def)
  then show ?thesis using False assms(2,3) by (simp only: read_lines_append [OF m] l) (simp add: with_env_def)
qed

text \<open>A section that is printed with a heading only when its array is not empty.\<close>

lemma read_section:
  assumes "remark title" and "short_line title" and "read_lines h inh ls c0 = (PROFILE_OK, c1)" and "b \<or> c1 = c0"
  shows "read_lines h inh (if b then [[], title] @ ls else []) c0 = (PROFILE_OK, c1)"
proof -
  have "read_lines h inh [[], title] c0 = (PROFILE_OK, c0)" by (rule read_remarks) (simp add: remark_lines assms(1,2))
  from read_lines_append [OF this, of ls] show ?thesis using assms(3,4) by (cases b) simp_all
qed

text \<open>The heap after a string was set that was not there before.\<close>

definition dup_mem :: "string option \<Rightarrow> strmem \<Rightarrow> strmem" where
  "dup_mem s m = (if s = None then m else snd (xstrdup m))"

definition dup_ptr :: "string option \<Rightarrow> nat \<Rightarrow> strmem \<Rightarrow> nat" where
  "dup_ptr s p m = (if s = None then p else fst (xstrdup m))"

definition with_rest :: "Config \<Rightarrow> Config \<Rightarrow> Config" where
  "with_rest c c0 = c0\<lparr>cap_drop_names := cap_drop_names c, masks := masks c, use_landlock := True, use_seccomp := True,
     use_no_new_privs := True, use_env_sanitize := True, audit := audit c \<or> audit_log_dir c \<noteq> None, audit_log_dir := audit_log_dir c,
     audit_log_ptr := dup_ptr (audit_log_dir c) (audit_log_ptr c0) (cfg_mem c0), cfg_mem := dup_mem (audit_log_dir c) (cfg_mem c0)\<rparr>"

definition with_workdir :: "Config \<Rightarrow> Config \<Rightarrow> Config" where
  "with_workdir c c0 = c0\<lparr>workdir := workdir c, workdir_ptr := dup_ptr (workdir c) (workdir_ptr c0) (cfg_mem c0),
     cfg_mem := dup_mem (workdir c) (cfg_mem c0)\<rparr>"

lemmas dup_defs = dup_mem_def dup_ptr_def replace_defs

definition dump_rest :: "Config \<Rightarrow> string list" where
  "dump_rest c =
     (if cap_drop_names c \<noteq> [] then [[], ''# Capability bounding-set drops''] @ map (directive ''cap-drop'') (cap_drop_names c) else []) @
     (if masks c \<noteq> [] then [[], ''# Mount masks (private mount namespace)''] @ map dump_mask (masks c) else []) @
     [[], ''# Features (a profile may only turn these on)''] @
     [directive ''landlock'' ''on'', directive ''seccomp'' ''on'', directive ''no-new-privs'' ''on'', directive ''env-sanitize'' ''on''] @
     (if audit c then [directive ''audit'' ''on''] else []) @
     (case audit_log_dir c of Some d \<Rightarrow> [directive ''audit-log'' d] | None \<Rightarrow> [])"

lemma read_rest:
  assumes "dumpable t c" and "cap_drop_names c0 = []" and "masks c0 = []" and "\<not> audit c0" and "audit_log_dir c0 = None"
  shows "read_lines h inh (dump_rest c) c0 = (PROFILE_OK, with_rest c c0)"
proof -
  let ?c1 = "c0\<lparr>cap_drop_names := cap_drop_names c\<rparr>"
  let ?c2 = "?c1\<lparr>masks := masks c\<rparr>"
  let ?c3 = "?c2\<lparr>use_landlock := True, use_seccomp := True, use_no_new_privs := True, use_env_sanitize := True\<rparr>"
  have k: "read_lines h inh (if cap_drop_names c \<noteq> [] then [[], ''# Capability bounding-set drops''] @
      map (directive ''cap-drop'') (cap_drop_names c) else []) c0 = (PROFILE_OK, ?c1)"
  proof (rule read_section)
    show "read_lines h inh (map (directive ''cap-drop'') (cap_drop_names c)) c0 = (PROFILE_OK, ?c1)"
      using dump_caps.read_all [of "cap_drop_names c" c0 h inh] assms by (simp add: dumpable_def cfg_limits_def)
  qed (use assms(2) in \<open>auto simp: remark_lines short_line_def MAX_LINE_def\<close>)
  have m: "read_lines h inh (if masks c \<noteq> [] then [[], ''# Mount masks (private mount namespace)''] @ map dump_mask (masks c) else []) ?c1 =
      (PROFILE_OK, ?c2)"
  proof (rule read_section)
    show "read_lines h inh (map dump_mask (masks c)) ?c1 = (PROFILE_OK, ?c2)"
      using dump_masks.read_all [of "masks c" ?c1 h inh] assms by (simp add: dumpable_def cfg_limits_def)
  qed (use assms(3) in \<open>auto simp: remark_lines short_line_def MAX_LINE_def\<close>)
  have f: "read_lines h inh [[], ''# Features (a profile may only turn these on)''] ?c2 = (PROFILE_OK, ?c2)"
    by (rule read_remarks) (simp add: remark_lines short_line_def MAX_LINE_def)
  have on: "profile_switch ''on'' = Some True" "parse_bool ''on'' = Some True" by (simp_all add: profile_switch_def parse_bool_def strcaseeq_def)
  have s: "read_lines h inh [directive ''landlock'' ''on'', directive ''seccomp'' ''on'', directive ''no-new-privs'' ''on'',
      directive ''env-sanitize'' ''on''] ?c2 = (PROFILE_OK, ?c3)"
    by (simp add: read_fixed directive_chain on)
  have a: "read_lines h inh (if audit c then [directive ''audit'' ''on''] else []) ?c3 = (PROFILE_OK, ?c3\<lparr>audit := audit c\<rparr>)"
    using assms(4) by (simp add: read_fixed directive_chain on)
  have l: "read_lines h inh (case audit_log_dir c of Some d \<Rightarrow> [directive ''audit-log'' d] | None \<Rightarrow> []) (?c3\<lparr>audit := audit c\<rparr>) =
      (PROFILE_OK, with_rest c c0)"
    using assms(1,5) by (cases "audit_log_dir c") (simp_all add: read_switch directive_chain with_rest_def dup_defs dumpable_def)
  show ?thesis unfolding dump_rest_def
    by (simp only: read_lines_append [OF k] read_lines_append [OF m] read_lines_append [OF f] read_lines_append [OF s] read_lines_append [OF a] l)
qed

definition with_paths :: "Config \<Rightarrow> Config \<Rightarrow> Config" where
  "with_paths c c0 = c0\<lparr>paths := map owned (paths c)\<rparr>"

text \<open>The policy that comes back from the dump of \<^verbatim>\<open>c\<close>.\<close>

definition reloaded :: "target \<Rightarrow> Config \<Rightarrow> Config" where
  "reloaded t c = with_rest c (with_env c (with_seccomp t c (with_workdir c (with_net c (with_paths c initial_config)))))"

lemmas with_defs = with_paths_def with_net_def with_seccomp_def with_env_def with_rest_def with_workdir_def

lemma initial_fields [simp]:
  "paths initial_config = []" "net_bind_ports initial_config = []" "net_connect_ports initial_config = []" "\<not> net_default_deny initial_config"
  "workdir initial_config = None" "seccomp_default initial_config = SECCOMP_DEFAULT_ERRNO" "\<not> seccomp_allow_mode initial_config"
  "allowed_syscalls initial_config = []" "blocked_syscalls initial_config = []" "\<not> env_allow_mode initial_config"
  "env_allow initial_config = []" "env_deny initial_config = []" "cap_drop_names initial_config = []" "masks initial_config = []"
  "\<not> audit initial_config" "audit_log_dir initial_config = None"
  by (simp_all add: initial_config_def empty_config_def)

lemma read_dump:
  assumes "dumpable (h_target h) c"
  shows "read_lines h inh (dump_profile (h_target h) c) initial_config = (PROFILE_OK, reloaded (h_target h) c)"
proof -
  let ?t = "h_target h"
  define head where "head = take 2 (dump_profile ?t c) @ [''#'', ''# Filesystem (Landlock)'']"
  let ?c2 = "with_net c (with_paths c initial_config)"
  let ?c3 = "with_workdir c ?c2"
  have hd: "read_lines h inh head initial_config = (PROFILE_OK, initial_config)"
  proof (rule read_remarks)
    have "list_all short_line (take 2 (dump_profile ?t c))" using assms by (auto simp: dumpable_def list_all_iff dest: in_set_takeD)
    moreover have "list_all remark (take 2 (dump_profile ?t c))" by (simp add: dump_profile_def remark_def)
    ultimately show "list_all (\<lambda>l. remark l \<and> short_line l) head"
      by (auto simp: head_def list_all_iff remark_def short_line_def MAX_LINE_def)
  qed
  have p: "read_lines h inh (map dump_path (paths c)) initial_config = (PROFILE_OK, with_paths c initial_config)"
    using dump_paths.read_all [of "paths c" initial_config h inh] assms by (simp add: dumpable_def cfg_limits_def with_paths_def)
  have n: "read_lines h inh (dump_net c) (with_paths c initial_config) = (PROFILE_OK, ?c2)"
    by (rule read_net [OF assms]) (simp_all add: with_paths_def)
  have blank: "read_lines h inh ([[]] @ ls) ?c2 = read_lines h inh ls ?c2" for ls
    by (rule read_lines_append) (rule read_remarks, simp add: remark_lines)
  have w: "read_lines h inh (case workdir c of Some w \<Rightarrow> [[], directive ''workdir'' w] | None \<Rightarrow> []) ?c2 = (PROFILE_OK, ?c3)"
    using assms blank by (cases "workdir c") (simp_all add: read_switch directive_chain dumpable_def with_defs dup_defs)
  have s: "read_lines h inh (dump_seccomp ?t c) ?c3 = (PROFILE_OK, with_seccomp ?t c ?c3)"
    by (rule read_seccomp [OF assms]) (simp_all add: with_defs)
  have e: "read_lines h inh (dump_env c) (with_seccomp ?t c ?c3) = (PROFILE_OK, with_env c (with_seccomp ?t c ?c3))"
    by (rule read_env [OF assms]) (simp_all add: with_defs)
  have r: "read_lines h inh (dump_rest c) (with_env c (with_seccomp ?t c ?c3)) = (PROFILE_OK, reloaded ?t c)"
    unfolding reloaded_def by (rule read_rest [OF assms]) (simp_all add: with_defs)
  have parts: "dump_profile ?t c = head @ map dump_path (paths c) @ dump_net c @
      (case workdir c of Some w \<Rightarrow> [[], directive ''workdir'' w] | None \<Rightarrow> []) @ dump_seccomp ?t c @ dump_env c @ dump_rest c"
    by (simp add: head_def dump_profile_def dump_rest_def directive_def)
  show ?thesis unfolding parts
    by (simp only: read_lines_append [OF hd] read_lines_append [OF p] read_lines_append [OF n] read_lines_append [OF w]
        read_lines_append [OF s] read_lines_append [OF e] r)
qed

section \<open>What the policy that comes back enforces\<close>

lemma add_path_rules_owned: "add_path_rules e (map owned rs) = add_path_rules e rs"
proof -
  have "pr_path (owned r) = pr_path r" "pr_mode (owned r) = pr_mode r" "pr_optional (owned r) = pr_optional r" for r
    by (simp_all add: owned_def)
  note fields = this
  have "landlock_add_path e (owned r) a f = landlock_add_path e r a f" for r a f
    unfolding landlock_add_path_def fields by (rule refl)
  then show ?thesis by (induction rs) (simp_all add: fields case_prod_beta)
qed

lemma apply_landlock_cong:
  assumes "paths c' = map owned (paths c)" and "net_bind_ports c' = net_bind_ports c"
    and "net_connect_ports c' = net_connect_ports c" and "net_default_deny c' = net_default_deny c"
  shows "apply_landlock e c' = apply_landlock e c"
proof -
  have "wanted_net c' = wanted_net c" using assms by (simp add: wanted_net_def)
  then have net: "handled_net abi c' = handled_net abi c" for abi by (simp add: handled_net_def)
  show ?thesis unfolding apply_landlock_def net assms add_path_rules_owned map_is_Nil_conv by (rule refl)
qed

lemma concat_named: "concat (map (named t) ns) = filter (\<lambda>nr. syscall_name t nr \<noteq> None) ns"
  by (induction ns) (simp_all add: named_def)

lemma reloaded_seccomp:
  "apply_seccomp e t' (reloaded t c) =
   apply_seccomp e t' (c\<lparr>blocked_syscalls := filter (\<lambda>nr. syscall_name t nr \<noteq> None) (blocked_syscalls c),
     allowed_syscalls := filter (\<lambda>nr. syscall_name t nr \<noteq> None) (allowed_syscalls c)\<rparr>)"
  unfolding apply_seccomp_def Let_def by (simp add: reloaded_def with_defs concat_named seccomp_deny_action_def)

lemma reloaded_env: "sanitize_env (reloaded t c) env = sanitize_env c env"
  by (simp add: sanitize_env_def reloaded_def with_defs comp_def)

lemma reloaded_masks: "apply_masks u (reloaded t c) = apply_masks u c"
  by (rule ext) (simp add: apply_masks_def reloaded_def with_defs)

lemma reloaded_caps: "apply_cap_drops u (reloaded t c) = apply_cap_drops u c"
  by (rule ext) (simp add: apply_cap_drops_def reloaded_def with_defs)

lemma reloaded_landlock: "apply_landlock e (reloaded t c) = apply_landlock e c"
  by (rule apply_landlock_cong) (simp_all add: reloaded_def with_defs)

section \<open>Properties\<close>

text \<open>
  C19: the profile that \<^verbatim>\<open>--dump-profile\<close> prints, saved where the loader trusts it and loaded into a
  fresh policy, is accepted and enforces what the dumped policy enforces: the same Landlock
  ruleset, environment, masks, capability drops and working directory, with every switch on.
  The seccomp filter is that of the dumped policy without the system calls that have a number
  and no name, which the dump writes as comments.  The dump does not quote, so this needs a policy
  that the format can hold (\<^verbatim>\<open>dumpable\<close>): within the array bounds; every path, name and directory not
  empty, without \<^verbatim>\<open>$\<close>, NUL, newline or carriage return, without a \<^verbatim>\<open>#\<close> that would start a comment and
  without blanks at its ends; every line short enough; no mandatory path or mask that ends in \<^verbatim>\<open>?\<close>; ports,
  system-call names, capabilities and masks that their directives accept.  What happens to a path
  outside of this is shown by \<^verbatim>\<open>dumped_comment_lost\<close>.
\<close>

theorem dump_roundtrip:
  assumes "dumpable (h_target h) c" and "profile_fopen_trusted h 0 path = Inr (as_lines (dump_profile (h_target h) c))"
  shows "\<exists>c'. load_profile_file h depth 0 path initial_config = (PROFILE_OK, c') \<and>
    use_landlock c' \<and> use_seccomp c' \<and> use_no_new_privs c' \<and> use_env_sanitize c' \<and> workdir c' = workdir c \<and>
    apply_landlock e c' = apply_landlock e c \<and> sanitize_env c' env = sanitize_env c env \<and>
    apply_masks u c' = apply_masks u c \<and> apply_cap_drops u c' = apply_cap_drops u c \<and>
    apply_seccomp sc (h_target h) c' =
      apply_seccomp sc (h_target h) (c\<lparr>blocked_syscalls := filter (\<lambda>nr. syscall_name (h_target h) nr \<noteq> None) (blocked_syscalls c),
        allowed_syscalls := filter (\<lambda>nr. syscall_name (h_target h) nr \<noteq> None) (allowed_syscalls c)\<rparr>)"
proof -
  let ?ls = "dump_profile (h_target h) c" and ?c' = "reloaded (h_target h) c"
  have "profile_lines (as_lines ?ls @ []) = map (\<lambda>l. (l @ [NL], False)) ?ls @ profile_lines []"
    by (rule profile_lines_as_lines) (use assms(1) in \<open>simp add: dumpable_def\<close>)
  then have "profile_lines (as_lines ?ls) = map (\<lambda>l. (l @ [NL], False)) ?ls" by (simp add: profile_lines.simps)
  then have "load_profile_file h depth 0 path initial_config = (PROFILE_OK, ?c')"
    using load_profile_file_fopen_ok [OF assms(2), of depth initial_config] read_dump [OF assms(1)] by (simp add: read_lines_def)
  moreover have "use_landlock ?c' \<and> use_seccomp ?c' \<and> use_no_new_privs ?c' \<and> use_env_sanitize ?c' \<and> workdir ?c' = workdir c"
    by (simp add: reloaded_def with_defs)
  ultimately show ?thesis using reloaded_landlock reloaded_env reloaded_masks reloaded_caps reloaded_seccomp by metis
qed


definition dump_demo :: Config where
  "dump_demo = initial_config\<lparr>paths := [path_rule PATH_RW False ''/w?''], blocked_syscalls := [101, 450],
     env_deny := [(''LD_*'', False)], net_connect_ports := [443], cap_drop_names := [''40''], masks := [(''/proc/kcore'', True)]\<rparr>"

lemma demo_names: "syscall_name demo_target 101 = Some ''ptrace''" "syscall_name demo_target 450 = None"
  by code_simp+

lemma demo_numbers: "show_int 443 = ''443''" "show_int 450 = ''450''"
  by code_simp+

lemma dump_demo_lines:
  "dump_profile demo_target dump_demo =
     [''# Generated by: compartment-user --dump-profile ai-agent'', ''# Source: built-in'', ''#'', ''# Filesystem (Landlock)'',
      ''rw /w?'', [], ''# Network (Landlock TCP ports)'', ''net-connect 443'', [], ''# Syscall deny-list (seccomp)'', ''block ptrace'',
      ''# block <unnamed syscall 450>'', [], ''# Environment deny-list ('' @ prefix_hint, ''env-deny LD_*'', [],
      ''# Capability bounding-set drops'', ''cap-drop 40'', [], ''# Mount masks (private mount namespace)'', ''mask /proc/kcore?'', [],
      ''# Features (a profile may only turn these on)'', ''landlock on'', ''seccomp on'', ''no-new-privs on'', ''env-sanitize on'']"
  by (simp add: dump_profile_def dump_demo_def initial_config_def empty_config_def dump_path_def path_rule_def mode_name_def
      is_optional_path_def trim_optional_def directive_def dump_net_def dump_seccomp_def dump_syscall_def demo_names demo_numbers
      dump_env_def dump_mask_def)

lemma dump_demo_ok: "dumpable demo_target dump_demo"
  unfolding dumpable_def dump_demo_lines
  by (simp add: dump_demo_def initial_config_def empty_config_def cfg_limits_def limit_defs path_ok_def port_ok_def call_ok_def env_ok_def cap_ok_def
      mask_ok_def optional_ok_def path_rule_def is_optional_path_def trim_optional_def printable_def plain_value_def short_line_def
      directive_def mode_name_def MAX_LINE_def is_space_def is_blank_def dump_syscall_def demo_names demo_numbers prefix_hint_def)

text \<open>Witness: a policy with a rule of each kind and a system call that has no name.\<close>

theorem dump_roundtrip_witness:
  "\<exists>c'. load_profile_file (demo_host (as_lines (dump_profile demo_target dump_demo))) 0 0 ''/etc/compartment/a.conf'' initial_config =
      (PROFILE_OK, c') \<and> apply_landlock demo_ll c' = apply_landlock demo_ll dump_demo \<and>
    apply_seccomp demo_env demo_target c' =
      apply_seccomp demo_env demo_target (dump_demo\<lparr>blocked_syscalls := [101], allowed_syscalls := []\<rparr>)"
proof -
  let ?h = "demo_host (as_lines (dump_profile demo_target dump_demo))"
  have t: "h_target ?h = demo_target" by (simp add: demo_host_def)
  have "filter (\<lambda>nr. syscall_name demo_target nr \<noteq> None) (blocked_syscalls dump_demo) = [101]"
    "filter (\<lambda>nr. syscall_name demo_target nr \<noteq> None) (allowed_syscalls dump_demo) = []"
    by (simp_all add: dump_demo_def demo_names)
  then show ?thesis
    using dump_roundtrip [of ?h dump_demo "''/etc/compartment/a.conf''" 0 demo_ll "[]" demo_uhost demo_env, unfolded t, OF dump_demo_ok demo_fopen]
    by metis
qed

text \<open>
  A rule whose path has a \<^verbatim>\<open>#\<close> after a blank is printed as it is and read back cut: the profile then
  grants the directory of which it was a neighbour.
\<close>

lemma dumped_comment_lost:
  "read_directive h (dump_path (path_rule PATH_RW False ''/srv/x #1'') @ [NL], False) = Some (Some (''rw'', ''/srv/x''))"
  by (simp add: dump_path_def path_rule_def mode_name_def is_optional_path_def trim_optional_def directive_def
      read_directive_def strip_newline_def rdropWhile_def cstr_def MAX_LINE_def is_blank_def scan_directive_def
      is_space_def expand_var_def)

end
