(* ===== verification/Root_Launch.thy ===== *)
theory Root_Launch
  imports User_Launch
begin

text \<open>
  The privileged launcher \<^verbatim>\<open>src/compartment-root.c\<close>: its command line, the parent that creates the
  namespaces and maps the ids, the child that builds the container's file system, drops its
  privileges and executes the target, and the process that stays behind as PID 1.

  The child starts when the parent has signalled it, so a run is the steps of the parent followed
  by those of the child.  What the launcher does to the system is the sequence of its system
  calls that succeeded; which calls succeed is a parameter.  The \<^verbatim>\<open>mkdir\<close> of mount points, the
  symbolic links in \<^verbatim>\<open>/dev\<close> and diagnostics are left out; the launcher ignores their results.
\<close>

section \<open>The host and the container\<close>

text \<open>Which of the three places sets the flags of a mount.\<close>

datatype mphase = At_root | At_flags | At_readonly

datatype rcall =
    C_pipe
  | C_clear_groups bool                       \<comment> \<open>\<^verbatim>\<open>setgroups(0, NULL)\<close>, in the child or before\<close>
  | C_setns string
  | C_clone bool                              \<comment> \<open>with a new network namespace\<close>
  | C_open_setgroups | C_deny_setgroups
  | C_id_map bool string                      \<comment> \<open>of the gids, else of the uids\<close>
  | C_cgroup string | C_go
  | C_container_gid | C_container_uid         \<comment> \<open>\<^verbatim>\<open>setgid(0)\<close> and \<^verbatim>\<open>setuid(0)\<close> in the new user namespace\<close>
  | C_private | C_bind_root string
  | C_setattr mphase string u64 | C_remount mphase string u64
  | C_chdir_root string | C_mkdir_pivot | C_pivot_root | C_chdir_new
  | C_mount string string u64 | C_bind_node string string | C_devpts bool
  | C_mask string bool                        \<comment> \<open>with a tmpfs, else with \<^verbatim>\<open>/dev/null\<close>\<close>
  | C_detach | C_bind_self string | C_hostname | C_loopback
  | C_landlock ruleset | C_capbset_drop int | C_keepcaps | C_setgid u32 | C_setuid u32
  | C_capset u32 u32 | C_ambient int | C_undumpable
  | C_close_range | C_no_new_privs | C_pdeathsig | C_fork
  | C_filter bool                             \<comment> \<open>of the target, else of PID 1\<close>
  | C_rlimit_nofile | C_rlimit_cpu

record rhost =
  rh_host :: host                             \<comment> \<open>profiles, \<^verbatim>\<open>stat\<close>, the build target\<close>
  rh_ll :: ll_env
  rh_ll_in :: ll_env                          \<comment> \<open>inside the new root\<close>
  rh_sc :: seccomp_env
  rh_audit :: audit_env
  rh_getpwnam :: "string \<Rightarrow> (u32 \<times> u32) option"
  rh_realpath :: "string \<Rightarrow> string option"
  rh_lstat_in :: "string \<Rightarrow> nat + bool"       \<comment> \<open>\<^verbatim>\<open>errno\<close>, or whether it is a directory\<close>
  rh_stat_in :: "string \<Rightarrow> bool"
  rh_cap_last :: "int option"                 \<comment> \<open>\<^verbatim>\<open>/proc/sys/kernel/cap_last_cap\<close>\<close>
  rh_nofile :: "int option"                   \<comment> \<open>the soft limit of \<^verbatim>\<open>RLIMIT_NOFILE\<close>\<close>
  rh_has_setattr :: bool                      \<comment> \<open>\<^verbatim>\<open>__NR_mount_setattr\<close> is defined\<close>
  rh_has_close_range :: bool
  rh_call :: "rcall \<Rightarrow> nat"                    \<comment> \<open>\<^verbatim>\<open>errno\<close> of a call, 0 for success\<close>

record cont =
  ct_calls :: "rcall list"
  ct_env :: "string list"
  ct_fds :: "int list"
  ct_audit :: string
  ct_filter :: "sock_filter list option"       \<comment> \<open>of the target\<close>
  ct_init_filter :: "sock_filter list option"  \<comment> \<open>of PID 1\<close>

type_synonym rstep = "cont step"

definition call :: "rhost \<Rightarrow> rcall \<Rightarrow> rstep" where
  "call h k s = (if rh_call h k = 0 then (True, s\<lparr>ct_calls := ct_calls s @ [k]\<rparr>) else (False, s))"

text \<open>A call whose failure is ignored, and one that may fail with one error.\<close>

definition attempt :: "rhost \<Rightarrow> rcall \<Rightarrow> rstep" where
  "attempt h k s = (True, snd (call h k s))"

definition call_unless :: "rhost \<Rightarrow> nat \<Rightarrow> rcall \<Rightarrow> rstep" where
  "call_unless h e k s = (rh_call h k = 0 \<or> rh_call h k = e, snd (call h k s))"

definition require :: "bool \<Rightarrow> rstep" where
  "require b s = (b, s)"

section \<open>Options\<close>

datatype ropt =
    R_profile string | R_rootdir string | R_uid string | R_gid string | R_username string
  | R_seccomp_allowed string | R_block string | R_netns string | R_cgroup string | R_cap_allowed string
  | R_env_deny string | R_env_allow string | R_mount_mask string | R_landlock
  | R_ro string | R_rw string | R_rwx string | R_exec string | R_audit_log string | R_loopback
  | R_no_seccomp | R_no_env_sanitize | R_dry_run | R_verbose | R_audit | R_verify | R_version | R_help | R_unknown

definition root_config0 :: Config where
  "root_config0 = empty_config\<lparr>audit_log_fd := - 1, use_seccomp := True, use_no_new_privs := True, use_env_sanitize := True\<rparr>"

text \<open>Pass 1: the first \<^verbatim>\<open>--profile\<close>, unless something unknown comes before it.\<close>

fun first_profile :: "ropt list \<Rightarrow> string option" where
  "first_profile [] = None"
| "first_profile (opt # opts) =
     (case opt of R_profile n \<Rightarrow> Some n | R_unknown \<Rightarrow> None | _ \<Rightarrow> first_profile opts)"

definition root_profile :: "rhost \<Rightarrow> ropt list \<Rightarrow> int + Config" where
  "root_profile h opts =
     (case first_profile opts of
        None \<Rightarrow> Inr root_config0
      | Some n \<Rightarrow>
          (case resolve_and_load_profile (rh_host h) 0 (PROFILE_OWNER_ROOT OR PROFILE_TOOL_ROOT) n (root_config0\<lparr>profile_name := Some n\<rparr>) of
             (PROFILE_OK, c) \<Rightarrow> Inr c
           | _ \<Rightarrow> Inl 1))"

definition or_exit :: "Config option \<Rightarrow> int + Config" where
  "or_exit r = (case r of None \<Rightarrow> Inl 1 | Some c \<Rightarrow> Inr c)"

definition with_landlock :: "Config option \<Rightarrow> Config option" where
  "with_landlock r = map_option (\<lambda>c. c\<lparr>use_landlock := True\<rparr>) r"

text \<open>Pass 2: one turn of the loop.\<close>

definition root_opt :: "rhost \<Rightarrow> ropt \<Rightarrow> Config \<Rightarrow> int + Config" where
  "root_opt h opt c =
     (let t = h_target (rh_host h)
      in case opt of
        R_profile n \<Rightarrow> if profile_name c \<noteq> Some n then Inl 1 else Inr c
      | R_rootdir d \<Rightarrow> Inr (c\<lparr>rootdir := Some d\<rparr>)
      | R_uid v \<Rightarrow> or_exit (map_option (\<lambda>i. c\<lparr>cfg_uid := i\<rparr>) (parse_id v))
      | R_gid v \<Rightarrow> or_exit (map_option (\<lambda>i. c\<lparr>cfg_gid := i\<rparr>) (parse_id v))
      | R_username n \<Rightarrow> Inr (c\<lparr>username := Some n\<rparr>)
      | R_seccomp_allowed n \<Rightarrow> (let nr = resolve_syscall t n in if nr < 0 then Inl 1 else or_exit (cfg_add_allowed nr c))
      | R_block n \<Rightarrow> (let nr = resolve_syscall t n in if nr < 0 then Inl 1 else or_exit (cfg_add_blocked nr c))
      | R_netns n \<Rightarrow> Inr (c\<lparr>netns := Some n\<rparr>)
      | R_cgroup p \<Rightarrow> or_exit (map_option (\<lambda>l. c\<lparr>cgroups := l\<rparr>) (cfg_add_str MAX_PATHS p (cgroups c)))
      | R_cap_allowed n \<Rightarrow>
          or_exit (map_option (\<lambda>l. c\<lparr>cap_allowed_names := l\<rparr>) (cfg_add_str MAX_ENV_VARS n (cap_allowed_names c)))
      | R_env_deny n \<Rightarrow> or_exit (cfg_add_env_deny False n c)
      | R_env_allow n \<Rightarrow> or_exit (map_option (\<lambda>c. c\<lparr>use_env_sanitize := True\<rparr>) (cfg_add_env_allow False n c))
      | R_mount_mask p \<Rightarrow> or_exit (map_option (\<lambda>l. c\<lparr>mount_masks := l\<rparr>) (cfg_add_str MAX_PATHS p (mount_masks c)))
      | R_landlock \<Rightarrow> Inr (c\<lparr>use_landlock := True\<rparr>)
      | R_ro p \<Rightarrow> or_exit (with_landlock (cfg_add_path p PATH_RO True c))
      | R_rw p \<Rightarrow> or_exit (with_landlock (cfg_add_path p PATH_RW True c))
      | R_rwx p \<Rightarrow> or_exit (with_landlock (cfg_add_path p PATH_RWX True c))
      | R_exec p \<Rightarrow> or_exit (with_landlock (cfg_add_path p PATH_EXEC True c))
      | R_audit_log d \<Rightarrow> Inr (replace_audit_log d c)
      | R_loopback \<Rightarrow> Inr (c\<lparr>loopback := True\<rparr>)
      | R_no_seccomp \<Rightarrow> Inr (c\<lparr>use_seccomp := False\<rparr>)
      | R_no_env_sanitize \<Rightarrow> Inr (c\<lparr>use_env_sanitize := False\<rparr>)
      | R_dry_run \<Rightarrow> Inr (c\<lparr>dry_run := True\<rparr>)
      | R_verbose \<Rightarrow> Inr (c\<lparr>verbose := True\<rparr>)
      | R_audit \<Rightarrow> Inr (c\<lparr>audit := True\<rparr>)
      | R_verify \<Rightarrow> Inl 0
      | R_version \<Rightarrow> Inl 0
      | R_help \<Rightarrow> Inl 0
      | R_unknown \<Rightarrow> Inl 1)"

fun root_opts :: "rhost \<Rightarrow> ropt list \<Rightarrow> Config \<Rightarrow> int + Config" where
  "root_opts h [] c = Inr c"
| "root_opts h (opt # opts) c = (case root_opt h opt c of Inl r \<Rightarrow> Inl r | Inr c' \<Rightarrow> root_opts h opts c')"

section \<open>What the parent checks\<close>

definition default_filter :: "rhost \<Rightarrow> Config \<Rightarrow> Config option" where
  "default_filter h c =
     (if use_seccomp c \<and> \<not> seccomp_allow_mode c \<and> blocked_syscalls c = []
      then cfg_add_builtin_denylist (h_target (rh_host h)) c else Some c)"

definition filter_empty :: "Config \<Rightarrow> bool" where
  "filter_empty c \<longleftrightarrow> use_seccomp c \<and> (if seccomp_allow_mode c then allowed_syscalls c else blocked_syscalls c) = []"

definition path_has_dotdot :: "string \<Rightarrow> bool" where
  "path_has_dotdot p \<longleftrightarrow> dotdot True p"

text \<open>The host uid of the container's root: the second number of the map, when the first is 0.\<close>

definition mapped_root :: "Config \<Rightarrow> u32" where
  "mapped_root c =
     (case uid_map c of
        None \<Rightarrow> 0
      | Some s \<Rightarrow>
          (case scanf_llu s of
             None \<Rightarrow> 0
           | Some (inside, r1) \<Rightarrow>
               (case scanf_llu r1 of
                  None \<Rightarrow> 0
                | Some (outside, r2) \<Rightarrow>
                    (case scanf_llu r2 of
                       None \<Rightarrow> 0
                     | Some (count, _) \<Rightarrow> if inside = 0 \<and> count > 0 then word_of_int outside else 0))))"

definition check_rootdir_ownership :: "rhost \<Rightarrow> string \<Rightarrow> Config \<Rightarrow> bool" where
  "check_rootdir_ownership h root c =
     (case h_stat (rh_host h) root of
        None \<Rightarrow> False
      | Some st \<Rightarrow>
          st_mode st AND S_IFMT = S_IFDIR \<and> (st_uid st = 0 \<or> st_uid st = mapped_root c) \<and>
          st_mode st AND (S_IWGRP OR S_IWOTH) = 0)"

definition root_ids :: "rhost \<Rightarrow> string \<Rightarrow> Config \<Rightarrow> (u32 \<times> u32) option" where
  "root_ids h user c =
     (let override = (\<lambda>(u, g). (if cfg_uid c \<noteq> 0 then cfg_uid c else u, if cfg_gid c \<noteq> 0 then cfg_gid c else g))
      in case rh_getpwnam h user of
           Some ids \<Rightarrow> Some (override ids)
         | None \<Rightarrow> if cfg_uid c = 0 \<and> cfg_gid c = 0 then None else Some (override (0, 0)))"

definition landlock_acceptable :: "rhost \<Rightarrow> Config \<Rightarrow> bool" where
  "landlock_acceptable h c \<longleftrightarrow> (use_landlock c \<longrightarrow> paths c \<noteq> [] \<and> config_check_additive (rh_ll h) c = 0)"

text \<open>From the policy to the root directory and the ids to drop to, or an exit code.\<close>

definition root_checks :: "rhost \<Rightarrow> string list \<Rightarrow> Config \<Rightarrow> int + (Config \<times> string \<times> u32 \<times> u32)" where
  "root_checks h argv c0 =
     (case default_filter h c0 of
        None \<Rightarrow> Inl 1
      | Some c1 \<Rightarrow>
          if filter_empty c1 then Inl 1
          else let c = c1\<lparr>use_no_new_privs := True\<rparr>
               in if argv = [] then Inl 1
                  else case rootdir c of
                    None \<Rightarrow> Inl 1
                  | Some root \<Rightarrow>
                      if char_at root 0 \<noteq> CHR ''/'' then Inl 1
                      else if path_has_dotdot root then Inl 1
                      else case username c of
                        None \<Rightarrow> Inl 1
                      | Some user \<Rightarrow>
                          if \<not> check_rootdir_ownership h root c \<and> \<not> dry_run c then Inl 1
                          else if \<not> landlock_acceptable h c then Inl 1
                          else case root_ids h user c of
                            None \<Rightarrow> Inl 1
                          | Some (uid, gid) \<Rightarrow> if dry_run c then Inl 0 else Inr (c, root, uid, gid))"

section \<open>The parent\<close>

definition CAP_SETGID :: int where "CAP_SETGID = 6"

definition deny_setgroups :: "rhost \<Rightarrow> Config \<Rightarrow> rstep" where
  "deny_setgroups h c s =
     (if list_ex (\<lambda>n. resolve_cap n = CAP_SETGID) (cap_allowed_names c) then (True, s)
      else if rh_call h C_open_setgroups = ENOENT then (True, s)
      else run_psteps [call h C_open_setgroups, call h C_deny_setgroups] s)"

definition join_netns :: "rhost \<Rightarrow> string \<Rightarrow> rstep" where
  "join_netns h name s =
     (if CHR ''/'' \<in> set name then (False, s)
      else if length name \<ge> PATH_MAX - 16 then (False, s)
      else call h (C_setns name) s)"

definition CGROUP_ROOT :: string where "CGROUP_ROOT = ''/sys/fs/cgroup/''"

definition assign_to_cgroup :: "rhost \<Rightarrow> string \<Rightarrow> rstep" where
  "assign_to_cgroup h want s =
     (if char_at want 0 \<noteq> CHR ''/'' then (False, s)
      else if path_has_dotdot want then (False, s)
      else if \<not> has_prefix CGROUP_ROOT want then (False, s)
      else case rh_realpath h want of
        None \<Rightarrow> (False, s)
      | Some resolved \<Rightarrow>
          if \<not> has_prefix CGROUP_ROOT resolved then (False, s)
          else let procs_file = resolved @ ''/cgroup.procs''
               in if length procs_file \<ge> PATH_MAX then (False, s) else call h (C_cgroup procs_file) s)"

definition assign_to_cgroups :: "rhost \<Rightarrow> Config \<Rightarrow> rstep" where
  "assign_to_cgroups h c = run_psteps (map (assign_to_cgroup h) (cgroups c))"

definition identity_map :: string where "identity_map = ''0 0 65536'' @ [NL]"

definition write_uid_gid_map :: "rhost \<Rightarrow> bool \<Rightarrow> string option \<Rightarrow> rstep" where
  "write_uid_gid_map h gids mp = call h (C_id_map gids (case mp of Some m \<Rightarrow> m | None \<Rightarrow> identity_map))"

definition parent_steps :: "rhost \<Rightarrow> Config \<Rightarrow> rstep list" where
  "parent_steps h c =
     [call h C_pipe, call_unless h EPERM_ERR (C_clear_groups False)] @
     (case netns c of Some n \<Rightarrow> [join_netns h n] | None \<Rightarrow> []) @
     [call h (C_clone (netns c = None)), deny_setgroups h c, write_uid_gid_map h False (uid_map c),
      write_uid_gid_map h True (gid_map c), assign_to_cgroups h c, call h C_go]"

section \<open>The file system of the container\<close>

text \<open>\<^verbatim>\<open>MS_RDONLY\<close> and the others have the values of \<^verbatim>\<open>COMPARTMENT_MS_*\<close> and of \<^verbatim>\<open>MOUNT_ATTR_*\<close>.\<close>

abbreviation "RDONLY \<equiv> COMPARTMENT_MS_RDONLY"
abbreviation "NOSUID \<equiv> COMPARTMENT_MS_NOSUID"
abbreviation "NODEV \<equiv> COMPARTMENT_MS_NODEV"
abbreviation "NOEXEC \<equiv> COMPARTMENT_MS_NOEXEC"

definition bits :: "u64 \<Rightarrow> u64" where
  "bits f = (f AND RDONLY) OR (f AND NOSUID) OR (f AND NODEV) OR (f AND NOEXEC)"

definition remount_with_flags :: "rhost \<Rightarrow> mphase \<Rightarrow> string \<Rightarrow> u64 \<Rightarrow> bool \<Rightarrow> rstep" where
  "remount_with_flags h at path flags recursive s =
     (if recursive \<and> rh_has_setattr h \<and> rh_call h (C_setattr at path (bits flags)) = 0
      then call h (C_setattr at path (bits flags)) s
      else call h (C_remount at path flags) s)"

definition mask_path :: "rhost \<Rightarrow> string \<Rightarrow> rstep" where
  "mask_path h path s =
     (case rh_lstat_in h path of
        Inl e \<Rightarrow> (e = ENOENT, s)
      | Inr is_dir \<Rightarrow> call h (C_mask path is_dir) s)"

definition default_dev_nodes :: "string list" where
  "default_dev_nodes = [''null'', ''zero'', ''full'', ''random'', ''urandom'', ''tty'']"

definition default_proc_masks :: "string list" where
  "default_proc_masks = [''/proc/acpi'', ''/proc/bus'', ''/proc/fs'', ''/proc/irq'', ''/proc/kallsyms'', ''/proc/kcore'', ''/proc/keys'',
     ''/proc/latency_stats'', ''/proc/modules'', ''/proc/sched_debug'', ''/proc/scsi'', ''/proc/sys'', ''/proc/sysrq-trigger'',
     ''/proc/timer_list'', ''/proc/timer_stats'']"

definition enter_root :: "rhost \<Rightarrow> string \<Rightarrow> Config \<Rightarrow> rstep list" where
  "enter_root h root c =
     [call h C_container_gid, call h C_container_uid, call h C_private, call h (C_bind_root root),
      remount_with_flags h At_root root (NOSUID OR NODEV OR (if rootdir_flags c AND NOEXEC \<noteq> 0 then NOEXEC else 0)) True,
      call h (C_chdir_root root), call_unless h EEXIST C_mkdir_pivot, call h C_pivot_root, call h C_chdir_new]"

definition devpts :: "rhost \<Rightarrow> rstep" where
  "devpts h s = (if rh_call h (C_devpts True) = 0 then call h (C_devpts True) s else call h (C_devpts False) s)"

definition mount_sys :: "rhost \<Rightarrow> rstep" where
  "mount_sys h s =
     (case call h (C_mount ''sysfs'' ''/sys'' (RDONLY OR NOSUID OR NOEXEC OR NODEV)) s of
        (True, s') \<Rightarrow> mask_path h ''/sys/firmware'' s'
      | (False, s') \<Rightarrow> mask_path h ''/sys'' s')"

definition extra_mask :: "rhost \<Rightarrow> string \<Rightarrow> rstep" where
  "extra_mask h p s =
     (if char_at p 0 \<noteq> CHR ''/'' then (False, s) else if path_has_dotdot p then (False, s) else mask_path h p s)"

definition populate_root :: "rhost \<Rightarrow> Config \<Rightarrow> rstep list" where
  "populate_root h c =
     [call h (C_mount ''proc'' ''/proc'' (NOSUID OR NOEXEC OR NODEV)), call h (C_mount ''tmpfs'' ''/dev'' (NOSUID OR NOEXEC))] @
     map (\<lambda>n. call h (C_bind_node (''/.pivot_old/dev/'' @ n) (''/dev/'' @ n))) default_dev_nodes @
     [devpts h, call h (C_bind_node ''/dev/pts/ptmx'' ''/dev/ptmx''), call h (C_mount ''tmpfs'' ''/dev/shm'' (NOSUID OR NODEV OR NOEXEC)),
      mount_sys h] @
     map (mask_path h) default_proc_masks @ map (extra_mask h) (mount_masks c)"

definition flag_one :: "rhost \<Rightarrow> MountFlagRule \<Rightarrow> rstep" where
  "flag_one h r s =
     (let path = mf_path r
      in if char_at path 0 \<noteq> CHR ''/'' then (False, s)
         else if path_has_dotdot path then (False, s)
         else if \<not> rh_stat_in h path then (False, s)
         else run_psteps [call h (C_bind_self path), remount_with_flags h At_flags path (bits (mf_flags r)) True] s)"

definition apply_mount_flags :: "rhost \<Rightarrow> Config \<Rightarrow> rstep" where
  "apply_mount_flags h c = run_psteps (map (flag_one h) (mount_flags c))"

definition readonly_root :: "rhost \<Rightarrow> Config \<Rightarrow> rstep list" where
  "readonly_root h c =
     (if rootdir_flags c AND RDONLY \<noteq> 0
      then [remount_with_flags h At_readonly ''/'' (RDONLY OR NOSUID OR NODEV OR (if rootdir_flags c AND NOEXEC \<noteq> 0 then NOEXEC else 0)) False]
      else [])"

definition leave_old_root :: "rhost \<Rightarrow> Config \<Rightarrow> rstep list" where
  "leave_old_root h c =
     [call h C_detach, apply_mount_flags h c] @ readonly_root h c @ [attempt h C_hostname] @
     (if loopback c \<and> netns c = None then [attempt h C_loopback] else [])"

section \<open>Privileges\<close>

definition enter_landlock :: "rhost \<Rightarrow> Config \<Rightarrow> rstep" where
  "enter_landlock h c s =
     (case apply_landlock (rh_ll_in h) c of
        (r, rs) \<Rightarrow>
          if r \<noteq> 0 then (False, s)
          else (True, case rs of None \<Rightarrow> s | Some x \<Rightarrow> s\<lparr>ct_calls := ct_calls s @ [C_landlock x]\<rparr>))"

definition landlock_steps :: "rhost \<Rightarrow> Config \<Rightarrow> rstep list" where
  "landlock_steps h c =
     (if use_landlock c then [require (config_check_additive (rh_ll_in h) c = 0), enter_landlock h c] else [])"

text \<open>The kernel's last capability is below 64, the size of the table of the source.\<close>

definition cap_last_cap :: "rhost \<Rightarrow> int" where
  "cap_last_cap h = (case rh_cap_last h of Some n \<Rightarrow> n | None \<Rightarrow> 63)"

definition caps_kept :: "Config \<Rightarrow> int list" where
  "caps_kept c = map resolve_cap (cap_allowed_names c)"

definition drop_capabilities :: "rhost \<Rightarrow> Config \<Rightarrow> rstep list" where
  "drop_capabilities h c =
     require (list_all (\<lambda>nr. 0 \<le> nr \<and> nr \<le> 63) (caps_kept c)) #
     map (\<lambda>cap. attempt h (C_capbset_drop cap)) (filter (\<lambda>cap. cap \<notin> set (caps_kept c)) [0..cap_last_cap h])"

definition drop_privileges :: "rhost \<Rightarrow> u32 \<Rightarrow> u32 \<Rightarrow> rstep list" where
  "drop_privileges h uid gid = [call_unless h EPERM_ERR (C_clear_groups True), call h (C_setgid gid), call h (C_setuid uid)]"

text \<open>The two words of the capability sets.\<close>

fun cap_words :: "int list \<Rightarrow> u32 \<times> u32 \<Rightarrow> u32 \<times> u32" where
  "cap_words [] w = w"
| "cap_words (cap # caps) (lo, hi) =
     (if cap < 0 \<or> cap > 63 then cap_words caps (lo, hi)
      else let bit = push_bit (nat cap mod 32) 1
           in if nat cap div 32 = 0 then cap_words caps (lo OR bit, hi) else cap_words caps (lo, hi OR bit))"

definition apply_kept_caps :: "rhost \<Rightarrow> Config \<Rightarrow> rstep list" where
  "apply_kept_caps h c =
     (case cap_words (caps_kept c) (0, 0) of (lo, hi) \<Rightarrow> [call h (C_capset lo hi)]) @
     map (\<lambda>cap. attempt h (C_ambient cap)) (filter (\<lambda>cap. 0 \<le> cap) (caps_kept c))"

definition privilege_steps :: "rhost \<Rightarrow> Config \<Rightarrow> u32 \<Rightarrow> u32 \<Rightarrow> rstep list" where
  "privilege_steps h c uid gid =
     drop_capabilities h c @ (if cap_allowed_names c \<noteq> [] then [call h C_keepcaps] else []) @ drop_privileges h uid gid @
     (if cap_allowed_names c \<noteq> [] then apply_kept_caps h c else []) @ [attempt h C_undumpable]"

section \<open>The target and PID 1\<close>

definition root_audit :: "rhost \<Rightarrow> Config \<Rightarrow> string \<Rightarrow> string \<Rightarrow> cont \<Rightarrow> cont" where
  "root_audit h c event detail s =
     (if audit c then s\<lparr>ct_audit := ct_audit s @ snd (audit_log (rh_audit h) c (Some event) (Some detail))\<rparr> else s)"

definition root_env :: "Config \<Rightarrow> rstep" where
  "root_env c s = (True, if use_env_sanitize c then s\<lparr>ct_env := sanitize_env c (ct_env s)\<rparr> else s)"

definition max_fd :: "rhost \<Rightarrow> int" where
  "max_fd h = (case rh_nofile h of None \<Rightarrow> 4096 | Some n \<Rightarrow> if n > 3 then (if n < 1048576 then n else 1048576) else 4096)"

text \<open>\<^verbatim>\<open>close_range\<close>, or a \<^verbatim>\<open>close\<close> of each number up to the limit; the results are not looked at.\<close>

definition root_close_fds :: "rhost \<Rightarrow> rstep" where
  "root_close_fds h s =
     (if rh_has_close_range h \<and> rh_call h C_close_range = 0
      then call h C_close_range (s\<lparr>ct_fds := filter (\<lambda>fd. fd < 3) (ct_fds s)\<rparr>)
      else (True, s\<lparr>ct_fds := filter (\<lambda>fd. fd < 3 \<or> fd \<ge> max_fd h) (ct_fds s)\<rparr>))"

definition reaper_syscalls :: "string list" where
  "reaper_syscalls = [''wait4'', ''kill'', ''rt_sigaction'', ''rt_sigprocmask'', ''rt_sigreturn'', ''exit_group'', ''write'']"

definition policy_covers_reaper :: "target \<Rightarrow> Config \<Rightarrow> bool" where
  "policy_covers_reaper t c =
     list_all (\<lambda>n. let nr = resolve_syscall t n
                   in 0 \<le> nr \<and> (if seccomp_allow_mode c then nr \<in> set (allowed_syscalls c) else nr \<notin> set (blocked_syscalls c)))
       reaper_syscalls"

text \<open>
  The fork: PID 1 filters itself when the policy covers what it needs; when that fails it kills the
  target.
\<close>

definition container_init :: "rhost \<Rightarrow> Config \<Rightarrow> rstep" where
  "container_init h c s =
     (case call h C_fork s of
        (False, s') \<Rightarrow> (False, s')
      | (True, s') \<Rightarrow>
          if use_seccomp c \<and> policy_covers_reaper (h_target (rh_host h)) c then
            (case apply_seccomp (rh_sc h) (h_target (rh_host h)) c of
               (r, prog) \<Rightarrow> if r \<noteq> 0 then (False, s') else (True, s'\<lparr>ct_init_filter := prog, ct_calls := ct_calls s' @ [C_filter False]\<rparr>))
          else (True, s'))"

definition target_filter :: "rhost \<Rightarrow> Config \<Rightarrow> rstep" where
  "target_filter h c s =
     (if \<not> use_seccomp c then (True, s)
      else case apply_seccomp (rh_sc h) (h_target (rh_host h)) c of
        (r, prog) \<Rightarrow> if r \<noteq> 0 then (False, s) else (True, s\<lparr>ct_filter := prog, ct_calls := ct_calls s @ [C_filter True]\<rparr>))"

definition final_steps :: "rhost \<Rightarrow> Config \<Rightarrow> string \<Rightarrow> rstep list" where
  "final_steps h c cmd =
     [root_env c, \<lambda>s. (True, root_audit h c ''CONTAINER_EXEC'' (take 255 (''command='' @ cmd)) s), root_close_fds h,
      call h C_no_new_privs, call h C_pdeathsig, container_init h c, target_filter h c, call h C_rlimit_nofile, call h C_rlimit_cpu]"

definition child_steps :: "rhost \<Rightarrow> Config \<Rightarrow> string \<Rightarrow> u32 \<Rightarrow> u32 \<Rightarrow> string \<Rightarrow> rstep list" where
  "child_steps h c root uid gid cmd =
     enter_root h root c @ populate_root h c @ leave_old_root h c @ landlock_steps h c @ privilege_steps h c uid gid @ final_steps h c cmd"

text \<open>The loop of PID 1, over what \<^verbatim>\<open>waitpid\<close> returns; \<^term>\<open>None\<close> while it waits.\<close>

datatype wstatus = W_exited nat | W_signaled nat

datatype wait_result = W_eintr | W_none | W_child int wstatus

fun reaper :: "int \<Rightarrow> wait_result list \<Rightarrow> wstatus option" where
  "reaper pid [] = None"
| "reaper pid (W_eintr # ws) = reaper pid ws"
| "reaper pid (W_none # ws) = Some (W_exited 0)"
| "reaper pid (W_child p st # ws) = (if p = pid then Some st else reaper pid ws)"

definition init_exit :: "wstatus \<Rightarrow> nat" where
  "init_exit st = (case st of W_signaled n \<Rightarrow> 128 + n | W_exited n \<Rightarrow> n)"

text \<open>What the parent returns for the status of PID 1.\<close>

definition root_exit :: "wstatus \<Rightarrow> int" where
  "root_exit st = (case st of W_exited n \<Rightarrow> int n | W_signaled n \<Rightarrow> 1)"

section \<open>The run\<close>

text \<open>\<^verbatim>\<open>%u\<close> of an id; \<^verbatim>\<open>snprintf\<close> into a buffer of 512 bytes.\<close>

definition container_detail :: "string \<Rightarrow> string \<Rightarrow> u32 \<Rightarrow> u32 \<Rightarrow> Config \<Rightarrow> string" where
  "container_detail cmd root uid gid c =
     take 511 (''command='' @ cmd @ '' rootdir='' @ root @ '' drop_uid='' @ show_nat (unat uid) @ '' drop_gid='' @ show_nat (unat gid) @
       '' username='' @ (case username c of Some u \<Rightarrow> u | None \<Rightarrow> []) @ '' loopback='' @ (if loopback c then ''1'' else ''0'') @
       '' seccomp='' @ (if use_seccomp c then ''1'' else ''0'') @ '' caps='' @ show_nat (length (cap_allowed_names c)))"

definition root_audit_start :: "rhost \<Rightarrow> string \<Rightarrow> string \<Rightarrow> u32 \<Rightarrow> u32 \<Rightarrow> Config \<Rightarrow> cont \<Rightarrow> (Config \<times> cont) option" where
  "root_audit_start h cmd root uid gid c s =
     (if \<not> audit c then Some (c, s)
      else case audit_log_open (rh_audit h) c of
        (r, _, c') \<Rightarrow>
          if r \<noteq> 0 then None else Some (c', root_audit h c' ''CONTAINER_START'' (container_detail cmd root uid gid c') s))"

definition root_run :: "rhost \<Rightarrow> Config \<Rightarrow> string \<Rightarrow> u32 \<Rightarrow> u32 \<Rightarrow> string list \<Rightarrow> cont \<Rightarrow> outcome \<times> cont" where
  "root_run h c root uid gid argv s =
     (case root_audit_start h (hd argv) root uid gid c s of
        None \<Rightarrow> (Exited 1, s)
      | Some (c, s) \<Rightarrow>
          (case run_psteps (parent_steps h c @ child_steps h c root uid gid (hd argv)) s of
             (False, s) \<Rightarrow> (Exited 1, s)
           | (True, s) \<Rightarrow> (Execed (hd argv) argv, s)))"

definition root_policy :: "rhost \<Rightarrow> ropt list \<Rightarrow> string list \<Rightarrow> int + (Config \<times> string \<times> u32 \<times> u32)" where
  "root_policy h opts argv =
     (case root_profile h opts of
        Inl r \<Rightarrow> Inl r
      | Inr c0 \<Rightarrow> (case root_opts h opts c0 of Inl r \<Rightarrow> Inl r | Inr c \<Rightarrow> root_checks h argv c))"

definition root_main :: "rhost \<Rightarrow> ropt list \<Rightarrow> string list \<Rightarrow> cont \<Rightarrow> outcome \<times> cont" where
  "root_main h opts argv s =
     (case root_policy h opts argv of
        Inl r \<Rightarrow> (Exited r, s)
      | Inr (c, root, uid, gid) \<Rightarrow> root_run h c root uid gid argv s)"

end
