(* ===== verification/Root_Policy.thy ===== *)
theory Root_Policy
  imports Root_Launch User_Policy
begin

text \<open>
  What \<^verbatim>\<open>compartment-root\<close> guarantees: the order of its system calls, what is in place when the
  target is executed, which ids and capabilities the target has, and where it writes outside the
  container; and of both launchers, that none goes on with a policy whose strings were freed.
\<close>

section \<open>The order of the system calls\<close>

fun root_stage :: "rcall \<Rightarrow> nat" where
  "root_stage C_pipe = 0" | "root_stage (C_clear_groups in_child) = (if in_child then 23 else 0)" | "root_stage (C_setns n) = 0"
| "root_stage (C_clone b) = 1" | "root_stage C_open_setgroups = 2" | "root_stage C_deny_setgroups = 2"
| "root_stage (C_id_map gids m) = (if gids then 4 else 3)" | "root_stage (C_cgroup p) = 5" | "root_stage C_go = 6"
| "root_stage C_container_gid = 7" | "root_stage C_container_uid = 7" | "root_stage C_private = 8" | "root_stage (C_bind_root d) = 9"
| "root_stage (C_setattr at p f) = (case at of At_root \<Rightarrow> 10 | At_flags \<Rightarrow> 17 | At_readonly \<Rightarrow> 18)"
| "root_stage (C_remount at p f) = (case at of At_root \<Rightarrow> 10 | At_flags \<Rightarrow> 17 | At_readonly \<Rightarrow> 18)"
| "root_stage (C_chdir_root d) = 11" | "root_stage C_mkdir_pivot = 12" | "root_stage C_pivot_root = 13" | "root_stage C_chdir_new = 14"
| "root_stage (C_mount t p f) = 15" | "root_stage (C_bind_node a b) = 15" | "root_stage (C_devpts b) = 15" | "root_stage (C_mask p d) = 15"
| "root_stage C_detach = 16" | "root_stage (C_bind_self p) = 17" | "root_stage C_hostname = 19" | "root_stage C_loopback = 19"
| "root_stage (C_landlock rs) = 20" | "root_stage (C_capbset_drop k) = 21" | "root_stage C_keepcaps = 22"
| "root_stage (C_setgid g) = 24" | "root_stage (C_setuid u) = 25" | "root_stage (C_capset lo hi) = 26" | "root_stage (C_ambient k) = 27"
| "root_stage C_undumpable = 28" | "root_stage C_close_range = 29" | "root_stage C_no_new_privs = 30" | "root_stage C_pdeathsig = 31"
| "root_stage C_fork = 32" | "root_stage (C_filter b) = 33" | "root_stage C_rlimit_nofile = 34" | "root_stage C_rlimit_cpu = 34"

interpretation call: logged_step ct_calls "call h k" "{k}" for h k
  by unfold_locales (simp add: call_def)

interpretation attempt: logged_step ct_calls "attempt h k" "{k}" for h k
  using call.log_grows by unfold_locales (simp add: attempt_def)

interpretation unless: logged_step ct_calls "call_unless h e k" "{k}" for h e k
  using call.log_grows by unfold_locales (simp add: call_unless_def)

interpretation require: logged_step ct_calls "require b" "{}" for b
  by unfold_locales (simp add: require_def)

interpretation remount: logged_step ct_calls "remount_with_flags h at p f r" "{C_setattr at p (bits f), C_remount at p f}" for h at p f r
  by unfold_locales (auto simp: remount_with_flags_def call_def)

interpretation mask_path: logged_step ct_calls "mask_path h p" "range (C_mask p)" for h p
  by unfold_locales (auto simp: mask_path_def call_def split: sum.splits)

interpretation extra_mask: logged_step ct_calls "extra_mask h p" "range (C_mask p)" for h p
  using mask_path.log_grows by unfold_locales (simp add: extra_mask_def)

interpretation devpts: logged_step ct_calls "devpts h" "range C_devpts" for h
  by unfold_locales (auto simp: devpts_def call_def)

interpretation cgroup: logged_step ct_calls "assign_to_cgroup h w" "range C_cgroup" for h w
  by unfold_locales (auto simp: assign_to_cgroup_def Let_def call_def split: option.splits)

interpretation root_env: logged_step ct_calls "root_env c" "{}" for c
  by unfold_locales (simp add: root_env_def)

interpretation close: logged_step ct_calls "root_close_fds h" "{C_close_range}" for h
  by unfold_locales (simp add: root_close_fds_def call_def)

interpretation filter: logged_step ct_calls "target_filter h c" "{C_filter True}" for h c
  by unfold_locales (auto simp: target_filter_def split: prod.splits)

lemmas staged_calls = call.in_stage attempt.in_stage unless.in_stage require.in_stage remount.in_stage mask_path.in_stage
  extra_mask.in_stage devpts.in_stage cgroup.in_stage root_env.in_stage close.in_stage filter.in_stage

lemma sys_log: "\<exists>l. ct_calls (snd (mount_sys h s)) = ct_calls s @ l \<and> (\<forall>m \<in> set l. root_stage m = 15)"
proof -
  have masks: "staged ct_calls root_stage (mask_path h p) 15" for p by (rule mask_path.in_stage) auto
  obtain ok s' where c: "call h (C_mount ''sysfs'' ''/sys'' (RDONLY OR NOSUID OR NOEXEC OR NODEV)) s = (ok, s')" by fastforce
  obtain l where l: "ct_calls s' = ct_calls s @ l" "\<forall>m \<in> set l. root_stage m = 15"
    using c by (auto simp: call_def split: if_splits)
  obtain q where q: "mount_sys h s = mask_path h q s'" using c by (cases ok) (auto simp: mount_sys_def)
  obtain l' where "ct_calls (snd (mask_path h q s')) = ct_calls s' @ l'" "\<forall>m \<in> set l'. root_stage m = 15"
    using masks [of q] unfolding staged_def by blast
  then show ?thesis using l q by auto
qed

lemma setgroups_staged: "staged ct_calls root_stage (deny_setgroups h c) 2"
proof -
  have "staged ct_calls root_stage (run_psteps [call h C_open_setgroups, call h C_deny_setgroups]) 2"
    by (rule staged_run) (auto intro!: staged_calls)
  then show ?thesis unfolding staged_def deny_setgroups_def by auto
qed

lemma netns_staged: "staged ct_calls root_stage (join_netns h n) 0"
  by (auto simp: staged_def join_netns_def call_def)

lemma cgroups_staged: "staged ct_calls root_stage (assign_to_cgroups h c) 5"
  unfolding assign_to_cgroups_def by (rule staged_run) (auto intro!: staged_calls)

lemma flags_staged: "staged ct_calls root_stage (apply_mount_flags h c) 17"
  unfolding apply_mount_flags_def
proof (rule staged_run)
  fix s assume "s \<in> set (map (flag_one h) (mount_flags c))"
  then obtain r where r: "s = flag_one h r" by auto
  have "staged ct_calls root_stage (run_psteps [call h (C_bind_self (mf_path r)), remount_with_flags h At_flags (mf_path r) (bits (mf_flags r)) True]) 17"
    by (rule staged_run) (auto intro!: staged_calls)
  then show "staged ct_calls root_stage s 17" unfolding staged_def r flag_one_def by (auto simp: Let_def)
qed

lemma init_log: "\<exists>l. ct_calls (snd (container_init h c s)) = ct_calls s @ l \<and> l \<in> {[], [C_fork], [C_fork, C_filter False]}"
  by (auto simp: container_init_def call_def split: prod.splits)

abbreviation in_order :: "rstep list \<Rightarrow> nat \<Rightarrow> nat \<Rightarrow> bool" where
  "in_order \<equiv> ordered ct_calls root_stage"

lemma sys_staged: "staged ct_calls root_stage (mount_sys h) 15"
  unfolding staged_def using sys_log by blast

lemma landlock_staged: "s \<in> set (landlock_steps h c) \<Longrightarrow> staged ct_calls root_stage s 20"
  by (auto simp: landlock_steps_def enter_landlock_def staged_def require_def split: if_splits prod.splits option.splits)

lemma init_ordered: "in_order [container_init h c] 31 33"
  unfolding ordered_def
proof (intro conjI allI impI)
  fix s :: cont assume s: "upto_stage ct_calls root_stage 31 s"
  obtain l where l: "ct_calls (snd (container_init h c s)) = ct_calls s @ l" "l \<in> {[], [C_fork], [C_fork, C_filter False]}"
    using init_log by blast
  have le: "\<forall>m \<in> set (ct_calls s). root_stage m \<le> n" if "31 \<le> n" for n
    using s that unfolding upto_stage_def by (meson order_trans)
  have r: "snd (run_psteps [container_init h c] s) = snd (container_init h c s)" by (simp split: prod.splits bool.splits)
  show "upto_stage ct_calls root_stage 33 (snd (run_psteps [container_init h c] s))"
    unfolding r upto_stage_def l(1) using s l(2) le by (auto simp: upto_stage_def sorted_append)
qed simp

lemma parent_ordered: "in_order (parent_steps h c) 0 6"
proof -
  have a: "in_order [call h C_pipe, call_unless h EPERM_ERR (C_clear_groups False)] 0 0"
    by (rule ordered_same) (auto intro!: staged_calls)
  have b: "in_order (case netns c of Some n \<Rightarrow> [join_netns h n] | None \<Rightarrow> []) 0 0"
    by (rule ordered_same) (auto intro!: netns_staged split: option.splits)
  have d: "in_order [call h (C_clone (netns c = None)), deny_setgroups h c, write_uid_gid_map h False (uid_map c),
      write_uid_gid_map h True (gid_map c), assign_to_cgroups h c, call h C_go] 0 6"
    unfolding write_uid_gid_map_def
    by (rule ordered_Cons [of _ _ _ 1] ordered_Cons [of _ _ _ 2] ordered_Cons [of _ _ _ 3] ordered_Cons [of _ _ _ 4]
          ordered_Cons [of _ _ _ 5] ordered_single setgroups_staged cgroups_staged
        | (rule call.in_stage, simp) | simp)+
  show ?thesis unfolding parent_steps_def by (rule ordered_append [OF a ordered_append [OF b d]])
qed

lemma enter_ordered: "in_order (enter_root h root c) 6 14"
  unfolding enter_root_def
  by (rule ordered_Cons [of _ _ _ 7] ordered_Cons [of _ _ _ 8] ordered_Cons [of _ _ _ 9] ordered_Cons [of _ _ _ 10]
        ordered_Cons [of _ _ _ 11] ordered_Cons [of _ _ _ 12] ordered_Cons [of _ _ _ 13] ordered_single
      | (rule call.in_stage unless.in_stage remount.in_stage, force) | simp)+

lemma populate_ordered: "in_order (populate_root h c) 14 15"
  unfolding populate_root_def by (rule ordered_same) (auto intro!: staged_calls sys_staged)

lemma leave_ordered: "in_order (leave_old_root h c) 15 19"
proof -
  have a: "in_order [call h C_detach] 15 16" by (rule ordered_single) (auto intro!: staged_calls)
  have b: "in_order [apply_mount_flags h c] 16 17" by (rule ordered_single [OF flags_staged]) simp
  have d: "in_order (readonly_root h c) 17 18" by (rule ordered_same) (auto simp: readonly_root_def intro!: staged_calls)
  have e: "in_order ([attempt h C_hostname] @ (if loopback c \<and> netns c = None then [attempt h C_loopback] else [])) 18 19"
    by (rule ordered_same) (auto intro!: staged_calls split: if_splits)
  show ?thesis using ordered_append [OF a ordered_append [OF b ordered_append [OF d e]]] by (simp add: leave_old_root_def)
qed

lemma privilege_ordered: "in_order (privilege_steps h c uid gid) 20 28"
proof -
  have a: "in_order (drop_capabilities h c) 20 21" by (rule ordered_same) (auto simp: drop_capabilities_def intro!: staged_calls)
  have b: "in_order (if cap_allowed_names c \<noteq> [] then [call h C_keepcaps] else []) 21 22"
    by (rule ordered_same) (auto intro!: staged_calls split: if_splits)
  have d: "in_order (drop_privileges h uid gid) 22 25" unfolding drop_privileges_def
    by (rule ordered_Cons [of _ _ _ 23] ordered_Cons [of _ _ _ 24] ordered_single | (rule call.in_stage unless.in_stage, force) | simp)+
  have e: "in_order [call h (C_capset lo hi)] 25 26" for lo hi by (rule ordered_single) (auto intro!: staged_calls)
  have f: "in_order (map (\<lambda>cap. attempt h (C_ambient cap)) (filter (\<lambda>cap. 0 \<le> cap) (caps_kept c))) 26 27"
    by (rule ordered_same) (auto intro!: staged_calls)
  have g: "in_order (if cap_allowed_names c \<noteq> [] then apply_kept_caps h c else []) 25 27"
    using ordered_append [OF e f] by (auto simp: apply_kept_caps_def case_prod_beta intro: ordered_Nil)
  have i: "in_order [attempt h C_undumpable] 27 28" by (rule ordered_single) (auto intro!: staged_calls)
  show ?thesis unfolding privilege_steps_def
    by (rule ordered_append [OF a ordered_append [OF b ordered_append [OF d ordered_append [OF g i]]]])
qed

lemma audit_calls [simp]: "ct_calls (root_audit h c e d s) = ct_calls s"
  by (simp add: root_audit_def)

lemma audit_staged: "staged ct_calls root_stage (\<lambda>s. (True, root_audit h c e d s)) n"
  by (simp add: staged_def)

lemma final_ordered: "in_order (final_steps h c cmd) 28 34"
proof -
  have a: "in_order [root_env c, \<lambda>s. (True, root_audit h c ''CONTAINER_EXEC'' (take 255 (''command='' @ cmd)) s), root_close_fds h] 28 29"
    by (rule ordered_same) (auto intro!: staged_calls audit_staged)
  have b: "in_order [call h C_no_new_privs, call h C_pdeathsig] 29 31"
    by (rule ordered_Cons [of _ _ _ 30] ordered_single | (rule call.in_stage, force) | simp)+
  have d: "in_order [target_filter h c] 33 33" by (rule ordered_same) (auto intro!: staged_calls)
  have e: "in_order [call h C_rlimit_nofile, call h C_rlimit_cpu] 33 34" by (rule ordered_same) (auto intro!: staged_calls)
  show ?thesis using ordered_append [OF a ordered_append [OF b ordered_append [OF init_ordered ordered_append [OF d e]]]]
    by (simp add: final_steps_def)
qed

lemma run_ordered: "in_order (parent_steps h c @ child_steps h c root uid gid cmd) 0 34"
proof -
  have l: "in_order (landlock_steps h c) 19 20" by (rule ordered_same) (auto intro: landlock_staged)
  show ?thesis unfolding child_steps_def
    by (rule ordered_append [OF parent_ordered ordered_append [OF enter_ordered ordered_append [OF populate_ordered
          ordered_append [OF leave_ordered ordered_append [OF l ordered_append [OF privilege_ordered final_ordered]]]]]])
qed

text \<open>
  C16: whatever fails, the system calls of a launch come in one order: the supplementary groups,
  the namespaces and the id maps before the child starts; the new root, its mounts and masks
  before the old root is detached; mount flags and the read-only root after that; Landlock, the
  capability bounding set, the groups, the gid, the uid and the kept capabilities in this order;
  and no-new-privs, the fork of PID 1 and the filters after all of them.\<close>

theorem root_order: "sorted (map root_stage (ct_calls (snd (root_main h opts argv (s\<lparr>ct_calls := []\<rparr>)))))"
proof (cases "root_policy h opts argv")
  case (Inl r)
  then show ?thesis by (simp add: root_main_def)
next
  case (Inr x)
  obtain c root uid gid where x: "x = (c, root, uid, gid)" by (cases x)
  have m: "root_main h opts argv (s\<lparr>ct_calls := []\<rparr>) = root_run h c root uid gid argv (s\<lparr>ct_calls := []\<rparr>)"
    using Inr by (simp add: root_main_def x)
  show ?thesis
  proof (cases "root_audit_start h (hd argv) root uid gid c (s\<lparr>ct_calls := []\<rparr>)")
    case None
    then show ?thesis by (simp add: m root_run_def)
  next
    case (Some y)
    obtain c' s' where y: "y = (c', s')" by (cases y)
    have "ct_calls s' = []" using Some by (auto simp: root_audit_start_def y split: if_splits prod.splits)
    then have "sorted (map root_stage (ct_calls (snd (run_psteps (parent_steps h c' @ child_steps h c' root uid gid (hd argv)) s'))))"
      by (rule ordered_run [OF run_ordered])
    then show ?thesis by (auto simp: m root_run_def Some y split: prod.splits bool.splits)
  qed
qed

section \<open>Freed strings\<close>

text \<open>The part of a policy that \<^verbatim>\<open>strings_live\<close> looks at.\<close>

definition strs :: "Config \<Rightarrow> (string option \<times> nat) \<times> (string option \<times> nat) \<times> strmem" where
  "strs c = ((workdir c, workdir_ptr c), (audit_log_dir c, audit_log_ptr c), cfg_mem c)"

lemma strs_live: "strs c' = strs c \<Longrightarrow> strings_live c' = strings_live c"
  by (simp add: strs_def strings_live_def)

lemma strs_add:
  "cfg_add_path p m b c = Some c' \<Longrightarrow> strs c' = strs c" "cfg_add_blocked nr c = Some c' \<Longrightarrow> strs c' = strs c"
  "cfg_add_allowed nr c = Some c' \<Longrightarrow> strs c' = strs c" "cfg_add_env_deny b v c = Some c' \<Longrightarrow> strs c' = strs c"
  "cfg_add_env_allow b v c = Some c' \<Longrightarrow> strs c' = strs c" "cfg_add_mask v c = Some c' \<Longrightarrow> strs c' = strs c"
  by (drule add_shapes, elim exE, simp add: strs_def)+

lemma strs_denylist: "cfg_add_denylist_from t ns c = Some c' \<Longrightarrow> strs c' = strs c"
  by (induction ns arbitrary: c) (auto simp: Let_def dest: strs_add split: if_splits option.splits)

lemma strs_run_steps:
  "(\<And>f c c'. f \<in> set fs \<Longrightarrow> f c = Some c' \<Longrightarrow> strs c' = strs c) \<Longrightarrow> strs (snd (run_steps fs c)) = strs c"
proof (induction fs arbitrary: c)
  case (Cons f fs)
  then have "f c = Some c' \<Longrightarrow> strs (snd (run_steps fs c')) = strs c" for c' by (metis list.set_intros)
  then show ?case by (simp split: option.split)
qed simp

lemma strs_ai_agent: "strs (snd (apply_profile_ai_agent h c)) = strs c"
  unfolding apply_profile_ai_agent_def
  by (rule strs_run_steps)
    (auto simp: ai_home_steps_def ai_workdir_steps_def cfg_add_builtin_denylist_def dest: strs_add strs_denylist
      split: option.splits if_splits)

lemma strs_strict: "strs (snd (apply_profile_strict h c)) = strs c"
proof -
  have "strs (snd (run_steps (map (strict_extra_step (h_target h)) strict_extra) c1)) = strs c1" for c1
    by (rule strs_run_steps) (auto simp: strict_extra_step_def Let_def dest: strs_add split: if_splits)
  then show ?thesis using strs_ai_agent [of h c] by (auto simp: apply_profile_strict_def split: prod.splits bool.splits)
qed

text \<open>A load that is not rejected.\<close>

lemma load_keeps_live:
  assumes "resolve_and_load_profile h depth flags name c = (rc, c')" and "rc \<noteq> PROFILE_ERROR" and "strings_live c"
  shows "strings_live c'"
proof (cases rc)
  case PROFILE_OK
  then show ?thesis using heap.holds_A [OF heap.holds_resolve_and_load, of h depth flags name c] assms by simp
next
  case PROFILE_NOT_FOUND
  then show ?thesis using resolve_with_not_found [OF load_profile_into_clean, of h h depth flags name c] assms
    by (simp add: resolve_and_load_profile_def)
qed (use assms(2) in simp)

lemma user_opt_live: "user_opt h o1 s = Inr s' \<Longrightarrow> strings_live (uc_cfg s) \<Longrightarrow> strings_live (uc_cfg s')"
  using replace_live
  by (cases o1) (auto simp: user_opt_def on_cfg_Inr Let_def dest!: strs_add strs_live split: if_splits,
      simp_all add: strings_live_def)

lemma user_opts_live: "user_opts h opts s = Inr s' \<Longrightarrow> strings_live (uc_cfg s) \<Longrightarrow> strings_live (uc_cfg s')"
  by (induction opts arbitrary: s) (auto dest: user_opt_live split: sum.splits)

lemma user_policy_live: "user_policy h s = Some c \<Longrightarrow> strings_live (uc_cfg s) \<Longrightarrow> strings_live c"
proof -
  assume a: "user_policy h s = Some c" "strings_live (uc_cfg s)"
  then obtain c1 where l: "load_user_profile h (uc_flags s) (uc_cfg s) = Some c1" and w: "add_workdir (cli_wins (uc_cfg s) c1) = Some c"
    by (auto simp: user_policy_def split: option.splits if_splits)
  have "strings_live c1"
  proof (cases "(case profile_name (uc_cfg s) of Some n \<Rightarrow> n | None \<Rightarrow> []) = ''none''")
    case True
    then show ?thesis using l a(2) by (simp add: load_user_profile_def)
  next
    case False
    let ?name = "case profile_name (uc_cfg s) of Some n \<Rightarrow> n | None \<Rightarrow> []"
    obtain rc c2 where r: "resolve_and_load_profile (uh_host h) 0 (uc_flags s) ?name (uc_cfg s) = (rc, c2)" by fastforce
    have rc: "rc \<noteq> PROFILE_ERROR" using l False r by (auto simp: load_user_profile_def)
    have c2: "strings_live c2" by (rule load_keeps_live [OF r rc a(2)])
    have "strs c1 = strs c2"
      using l False r strs_ai_agent [of "uh_host h" c2] strs_strict [of "uh_host h" c2]
      by (auto simp: load_user_profile_def Let_def strs_def split: if_splits profile_rc.splits prod.splits)
    then show ?thesis using c2 strs_live by blast
  qed
  then show "strings_live c" using add_workdir_shape [OF w] by (auto simp: cli_wins_def strings_live_def)
qed

lemma shell_policy_live: "shell_policy h = Some (b, c) \<Longrightarrow> strings_live c"
proof -
  assume a: "shell_policy h = Some (b, c)"
  have live: "strings_live initial_config" by (simp add: initial_config_def strings_live_def live_def mem_sane_def empty_config_def)
  obtain rc c1 where r: "resolve_and_load_profile (uh_host h) 0 0 ''shell-replacement'' initial_config = (rc, c1)" by fastforce
  obtain rc2 c2 where r2: "resolve_and_load_profile (uh_host h) 0 0 ''ai-agent'' c1 = (rc2, c2)" by fastforce
  have ok: "rc \<noteq> PROFILE_ERROR" using a r by (auto simp: shell_policy_def)
  have c1: "strings_live c1" by (rule load_keeps_live [OF r ok live])
  have nf: "c1 = initial_config" if "rc = PROFILE_NOT_FOUND"
    using resolve_with_not_found [OF load_profile_into_clean, of "uh_host h" "uh_host h" 0 0 "''shell-replacement''" initial_config] r that
    by (simp add: resolve_and_load_profile_def)
  have "strings_live c2" if "rc = PROFILE_NOT_FOUND"
  proof (cases "rc2 = PROFILE_ERROR")
    case True
    have "same_policy c1 c2" using True r2 resolve_with_rollback [OF load_profile_into_clean, of "uh_host h" "uh_host h" 0 0 "''ai-agent''" c1]
      by (simp add: resolve_and_load_profile_def)
    moreover have "mem_sane (cfg_mem c2)"
      using heap.R_resolve_and_load [of c1 "uh_host h" 0 0 "''ai-agent''"] r2 c1 by (simp add: mem_after_def)
    ultimately show ?thesis using same_policy_strings [of c1 c2] nf [OF that]
      by (simp add: strings_live_def live_def initial_config_def empty_config_def)
  qed (rule load_keeps_live [OF r2 _ c1])
  then have "rc = PROFILE_NOT_FOUND \<Longrightarrow> strings_live (snd (apply_profile_ai_agent (uh_host h) c2))"
    using strs_live [OF strs_ai_agent] by blast
  then show "strings_live c" using a r r2 c1 \<open>rc = PROFILE_NOT_FOUND \<Longrightarrow> strings_live c2\<close>
    by (auto simp: shell_policy_def strings_live_def split: profile_rc.splits)
qed

lemma root_opt_live: "root_opt h o1 c = Inr c' \<Longrightarrow> strings_live c \<Longrightarrow> strings_live c'"
  using replace_live
  by (cases o1) (auto simp: root_opt_def or_exit_def with_landlock_def Let_def dest!: strs_add strs_live
      split: if_splits option.splits, simp_all add: strings_live_def)

lemma root_policy_live: "root_policy h opts argv = Inr (c, root, uid, gid) \<Longrightarrow> strings_live c"
proof -
  have opts: "root_opts h os c = Inr c' \<Longrightarrow> strings_live c \<Longrightarrow> strings_live c'" for os c c'
    by (induction os arbitrary: c) (auto dest: root_opt_live split: sum.splits)
  have checks: "root_checks h argv c0 = Inr (c, root, uid, gid) \<Longrightarrow> strings_live c0 \<Longrightarrow> strings_live c" for c0
    by (auto simp: root_checks_def default_filter_def cfg_add_builtin_denylist_def Let_def strings_live_def strs_def
        dest!: strs_denylist split: option.splits if_splits)
  assume "root_policy h opts argv = Inr (c, root, uid, gid)"
  then obtain c0 c1 where p: "root_profile h opts = Inr c0" "root_opts h opts c0 = Inr c1"
    "root_checks h argv c1 = Inr (c, root, uid, gid)" by (auto simp: root_policy_def split: sum.splits)
  have "strings_live root_config0" "\<And>n. strings_live (root_config0\<lparr>profile_name := n\<rparr>)"
    by (simp_all add: root_config0_def strings_live_def live_def mem_sane_def empty_config_def)
  then have "strings_live c0" using p(1)
    by (auto simp: root_profile_def intro: load_keeps_live split: option.splits prod.splits profile_rc.splits)
  then show "strings_live c" using opts [OF p(2)] checks [OF p(3)] by simp
qed



end
