(* ===== verification/Root_Guarantees.thy ===== *)
theory Root_Guarantees
  imports Root_Policy
begin

text \<open>
  What is in place when \<^verbatim>\<open>compartment-root\<close> executes its target: the file system of the container,
  the ids and capabilities, and the filters; where the launcher writes on the host; and what
  PID 1 does afterwards.
\<close>

section \<open>What the steps leave\<close>

lemmas growing_calls = call.growing attempt.growing unless.growing require.growing remount.growing mask_path.growing
  extra_mask.growing devpts.growing cgroup.growing root_env.growing close.growing filter.growing

lemma grows_calls:
  "s \<in> set (parent_steps h c @ child_steps h c root uid gid cmd) \<Longrightarrow> grows ct_calls s"
proof -
  have init: "grows ct_calls (container_init h c)" unfolding grows_def using init_log by blast
  have audit: "grows ct_calls (\<lambda>s. (True, root_audit h c e d s))" for e d by (simp add: grows_def)
  have p: "grows ct_calls s" if "s \<in> set (parent_steps h c)"
    using that by (auto simp: parent_steps_def write_uid_gid_map_def split: option.splits
        intro: growing_calls staged_grows [OF setgroups_staged] staged_grows [OF netns_staged] staged_grows [OF cgroups_staged])
  have r: "grows ct_calls s" if "s \<in> set (enter_root h root c @ populate_root h c @ leave_old_root h c)"
    using that by (auto simp: enter_root_def populate_root_def leave_old_root_def readonly_root_def split: if_splits
        intro: growing_calls staged_grows [OF sys_staged] staged_grows [OF flags_staged])
  have l: "grows ct_calls s" if "s \<in> set (landlock_steps h c)" using that landlock_staged staged_grows by blast
  have q: "grows ct_calls s" if "s \<in> set (privilege_steps h c uid gid)"
    using that by (auto simp: privilege_steps_def drop_capabilities_def drop_privileges_def apply_kept_caps_def
        split: if_splits prod.splits intro: growing_calls)
  have f: "grows ct_calls s" if "s \<in> set (final_steps h c cmd)"
    using that init audit by (auto simp: final_steps_def intro: growing_calls)
  assume "s \<in> set (parent_steps h c @ child_steps h c root uid gid cmd)"
  then show ?thesis using p r l q f unfolding child_steps_def by auto
qed

text \<open>Every step of a launch that ended in \<^verbatim>\<open>exec\<close> succeeded, and what it did is still in the log.\<close>

lemma launched:
  assumes "run_psteps (parent_steps h c @ child_steps h c root uid gid cmd) s0 = (True, s1)"
    and "s \<in> set (parent_steps h c @ child_steps h c root uid gid cmd)"
  shows "\<exists>a b. s a = (True, b) \<and> set (ct_calls b) \<subseteq> set (ct_calls s1)"
  using run_psteps_each [OF grows_calls assms] by fastforce

lemma launched_call:
  assumes "run_psteps (parent_steps h c @ child_steps h c root uid gid cmd) s0 = (True, s1)"
    and "call h k \<in> set (parent_steps h c @ child_steps h c root uid gid cmd)"
  shows "k \<in> set (ct_calls s1)"
  using launched [OF assms] by (auto simp: call_def split: if_splits)

lemma remount_does:
  "remount_with_flags h at p f r a = (True, b) \<Longrightarrow> C_setattr at p (bits f) \<in> set (ct_calls b) \<or> C_remount at p f \<in> set (ct_calls b)"
  by (auto simp: remount_with_flags_def call_def split: if_splits)

lemma mask_does:
  "mask_path h p a = (True, b) \<Longrightarrow> rh_lstat_in h p = Inl ENOENT \<or> (\<exists>d. rh_lstat_in h p = Inr d \<and> C_mask p d \<in> set (ct_calls b))"
  by (auto simp: mask_path_def call_def split: sum.splits if_splits)

lemma extra_mask_does:
  "extra_mask h p a = (True, b) \<Longrightarrow> rh_lstat_in h p = Inl ENOENT \<or> (\<exists>d. rh_lstat_in h p = Inr d \<and> C_mask p d \<in> set (ct_calls b))"
  by (auto simp: extra_mask_def dest: mask_does split: if_splits)

lemma bits_eq: "bits f = f AND 15"
proof -
  have "bits f = f AND (1 OR 2 OR 4 OR 8)" unfolding bits_def ms_defs by (simp only: bit.conj_disj_distrib)
  then show ?thesis by simp
qed

lemma bits_idem [simp]: "bits (bits f) = bits f"
  by (simp add: bits_eq and.assoc)

text \<open>Before the last steps, only system calls are made.\<close>

definition calls_only :: "rstep \<Rightarrow> bool" where
  "calls_only f \<longleftrightarrow> (\<forall>s. \<exists>l. snd (f s) = s\<lparr>ct_calls := l\<rparr>)"

lemma same_calls: "\<exists>l. (s :: cont) = s\<lparr>ct_calls := l\<rparr>"
  by (rule exI [of _ "ct_calls s"]) simp

lemma calls_only_run: "(\<And>f. f \<in> set fs \<Longrightarrow> calls_only f) \<Longrightarrow> calls_only (run_psteps fs)"
proof (induction fs)
  case Nil
  then show ?case using same_calls by (auto simp: calls_only_def)
next
  case (Cons f fs)
  show ?case unfolding calls_only_def
  proof
    fix s
    obtain ok s' where f: "f s = (ok, s')" by fastforce
    then obtain l where l: "s' = s\<lparr>ct_calls := l\<rparr>" using Cons.prems [of f] unfolding calls_only_def by (metis list.set_intros(1) snd_conv)
    have "calls_only (run_psteps fs)" using Cons by simp
    then obtain l' where "snd (run_psteps fs s') = s'\<lparr>ct_calls := l'\<rparr>" unfolding calls_only_def by blast
    then show "\<exists>l. snd (run_psteps (f # fs) s) = s\<lparr>ct_calls := l\<rparr>" using f l by (cases ok) auto
  qed
qed

lemma call_only: "calls_only (call h k)"
  using same_calls by (auto simp: calls_only_def call_def)

lemma call_variants_only:
  "calls_only (attempt h k)" "calls_only (call_unless h e k)" "calls_only (require b)"
  using call_only [of h k] same_calls by (auto simp: calls_only_def attempt_def call_unless_def require_def)

lemma mount_steps_only:
  "calls_only (remount_with_flags h at p f r)" "calls_only (mask_path h p)" "calls_only (devpts h)"
  using call_only same_calls by (auto simp: calls_only_def remount_with_flags_def mask_path_def devpts_def split: sum.splits)

lemma extra_mask_only: "calls_only (extra_mask h p)"
  using mount_steps_only(2) same_calls by (auto simp: calls_only_def extra_mask_def)

lemma sys_only: "calls_only (mount_sys h)"
  unfolding calls_only_def
proof
  fix s
  obtain ok s' where c: "call h (C_mount ''sysfs'' ''/sys'' (RDONLY OR NOSUID OR NOEXEC OR NODEV)) s = (ok, s')" by fastforce
  then obtain l where "s' = s\<lparr>ct_calls := l\<rparr>" using call_only unfolding calls_only_def by (metis snd_conv)
  moreover obtain q where "mount_sys h s = mask_path h q s'" using c by (cases ok) (auto simp: mount_sys_def)
  moreover obtain l' where "snd (mask_path h q s') = s'\<lparr>ct_calls := l'\<rparr>" using mount_steps_only(2) unfolding calls_only_def by blast
  ultimately show "\<exists>l. snd (mount_sys h s) = s\<lparr>ct_calls := l\<rparr>" by auto
qed

lemma flags_only: "calls_only (apply_mount_flags h c)"
  unfolding apply_mount_flags_def
proof (rule calls_only_run)
  fix f assume "f \<in> set (map (flag_one h) (mount_flags c))"
  then obtain r where r: "f = flag_one h r" by auto
  have "calls_only (run_psteps [call h (C_bind_self (mf_path r)), remount_with_flags h At_flags (mf_path r) (bits (mf_flags r)) True])"
    by (rule calls_only_run) (auto intro: call_only mount_steps_only)
  then show "calls_only f" using same_calls unfolding r calls_only_def flag_one_def by (auto simp: Let_def)
qed

lemma parent_only: "s \<in> set (parent_steps h c) \<Longrightarrow> calls_only s"
proof -
  have "calls_only (run_psteps [call h C_open_setgroups, call h C_deny_setgroups])" by (rule calls_only_run) (auto intro: call_only)
  then have g: "calls_only (deny_setgroups h c)" using same_calls by (auto simp: calls_only_def deny_setgroups_def)
  have n: "calls_only (join_netns h n)" for n using call_only same_calls by (auto simp: calls_only_def join_netns_def)
  have "calls_only (assign_to_cgroup h w)" for w
    using call_only same_calls by (auto simp: calls_only_def assign_to_cgroup_def Let_def split: option.splits)
  then have "calls_only (assign_to_cgroups h c)" unfolding assign_to_cgroups_def by (intro calls_only_run) auto
  then show "s \<in> set (parent_steps h c) \<Longrightarrow> calls_only s" using g n
    by (auto simp: parent_steps_def write_uid_gid_map_def split: option.splits intro: call_only call_variants_only)
qed

lemma landlock_only: "s \<in> set (landlock_steps h c) \<Longrightarrow> calls_only s"
  using same_calls by (auto simp: landlock_steps_def enter_landlock_def calls_only_def require_def split: if_splits prod.splits option.splits)

lemma child_only:
  "s \<in> set (enter_root h root c @ populate_root h c @ leave_old_root h c @ landlock_steps h c @ privilege_steps h c uid gid) \<Longrightarrow> calls_only s"
  by (auto simp: enter_root_def populate_root_def leave_old_root_def readonly_root_def privilege_steps_def drop_capabilities_def
      drop_privileges_def apply_kept_caps_def split: if_splits prod.splits
      intro: call_only call_variants_only mount_steps_only extra_mask_only sys_only flags_only landlock_only)

text \<open>The last steps.\<close>

lemma final_does:
  assumes "run_psteps (final_steps h c cmd) s = (True, s')"
  shows "ct_env s' = (if use_env_sanitize c then sanitize_env c (ct_env s) else ct_env s)"
    and "\<forall>fd \<in> set (ct_fds s'). fd \<in> set (ct_fds s) \<and> (fd < 3 \<or> max_fd h \<le> fd)"
    and "use_seccomp c \<Longrightarrow> apply_seccomp (rh_sc h) (h_target (rh_host h)) c = (0, ct_filter s')"
proof -
  obtain s1 s2 s3 s4 s5 s6 s7 s8 where s:
    "root_env c s = (True, s1)" "s2 = root_audit h c ''CONTAINER_EXEC'' (take 255 (''command='' @ cmd)) s1"
    "root_close_fds h s2 = (True, s3)" "call h C_no_new_privs s3 = (True, s4)" "call h C_pdeathsig s4 = (True, s5)"
    "container_init h c s5 = (True, s6)" "target_filter h c s6 = (True, s7)"
    "call h C_rlimit_nofile s7 = (True, s8)" "call h C_rlimit_cpu s8 = (True, s')"
    using assms unfolding final_steps_def run_psteps_True by auto
  have calls: "ct_env b = ct_env a \<and> ct_fds b = ct_fds a \<and> ct_filter b = ct_filter a" if "call h k a = (True, b)" for k a b
    using that by (auto simp: call_def split: if_splits)
  have "ct_env s1 = (if use_env_sanitize c then sanitize_env c (ct_env s) else ct_env s) \<and> ct_fds s1 = ct_fds s"
    using s(1) by (auto simp: root_env_def)
  moreover have "ct_env s2 = ct_env s1 \<and> ct_fds s2 = ct_fds s1" by (simp add: s(2) root_audit_def)
  moreover have "ct_env s3 = ct_env s2 \<and> (\<forall>fd \<in> set (ct_fds s3). fd \<in> set (ct_fds s2) \<and> (fd < 3 \<or> max_fd h \<le> fd))"
    using s(3) by (auto simp: root_close_fds_def call_def split: if_splits)
  moreover have "ct_env s6 = ct_env s5 \<and> ct_fds s6 = ct_fds s5"
    using s(6) by (auto simp: container_init_def call_def split: if_splits prod.splits)
  moreover have "ct_env s7 = ct_env s6 \<and> ct_fds s7 = ct_fds s6 \<and>
      (use_seccomp c \<longrightarrow> apply_seccomp (rh_sc h) (h_target (rh_host h)) c = (0, ct_filter s7))"
    using s(7) by (auto simp: target_filter_def split: if_splits prod.splits)
  ultimately show "ct_env s' = (if use_env_sanitize c then sanitize_env c (ct_env s) else ct_env s)"
    and "\<forall>fd \<in> set (ct_fds s'). fd \<in> set (ct_fds s) \<and> (fd < 3 \<or> max_fd h \<le> fd)"
    and "use_seccomp c \<Longrightarrow> apply_seccomp (rh_sc h) (h_target (rh_host h)) c = (0, ct_filter s')"
    using calls [OF s(4)] calls [OF s(5)] calls [OF s(8)] calls [OF s(9)] by auto
qed

section \<open>From the command line to the exec\<close>

lemma root_audit_start_shape:
  "root_audit_start h cmd root uid gid c s = Some (c', s') \<Longrightarrow> \<exists>fd a. c' = c\<lparr>audit_log_fd := fd\<rparr> \<and> s' = s\<lparr>ct_audit := a\<rparr>"
  by (auto simp: root_audit_start_def audit_log_open_def root_audit_def split: if_splits option.splits
      intro: exI [of _ "audit_log_fd c"] exI [of _ "ct_audit s"])

lemma root_launched:
  assumes "root_main h opts argv s = (Execed cmd args, s')"
  obtains c root uid gid fd s1 where "root_policy h opts argv = Inr (c, root, uid, gid)" "cmd = hd argv" "args = argv"
    "run_psteps (parent_steps h (c\<lparr>audit_log_fd := fd\<rparr>) @ child_steps h (c\<lparr>audit_log_fd := fd\<rparr>) root uid gid cmd) s1 = (True, s')"
    "ct_env s1 = ct_env s" "ct_fds s1 = ct_fds s"
proof -
  obtain c root uid gid where p: "root_policy h opts argv = Inr (c, root, uid, gid)"
    and r: "root_run h c root uid gid argv s = (Execed cmd args, s')"
    using assms by (auto simp: root_main_def split: sum.splits)
  obtain c1 s1 where a: "root_audit_start h (hd argv) root uid gid c s = Some (c1, s1)"
    using r by (auto simp: root_run_def split: option.splits)
  have run: "run_psteps (parent_steps h c1 @ child_steps h c1 root uid gid (hd argv)) s1 = (True, s') \<and> cmd = hd argv \<and> args = argv"
    using r by (auto simp: root_run_def a split: prod.splits bool.splits)
  obtain fd x where c1: "c1 = c\<lparr>audit_log_fd := fd\<rparr>" "s1 = s\<lparr>ct_audit := x\<rparr>" using root_audit_start_shape [OF a] by blast
  show thesis by (rule that [of c root uid gid fd s1]) (use p run c1 in simp_all)
qed

text \<open>What the launcher accepted.\<close>

lemma root_policy_accepts:
  assumes "root_policy h opts argv = Inr (c, root, uid, gid)"
  shows "\<not> filter_empty c \<and> use_no_new_privs c \<and> argv \<noteq> [] \<and> rootdir c = Some root \<and> char_at root 0 = CHR ''/'' \<and>
    \<not> path_has_dotdot root \<and> check_rootdir_ownership h root c \<and> landlock_acceptable h c \<and> \<not> dry_run c \<and>
    (\<exists>user. username c = Some user \<and> root_ids h user c = Some (uid, gid))"
proof -
  obtain c0 where "root_checks h argv c0 = Inr (c, root, uid, gid)"
    using assms by (auto simp: root_policy_def split: sum.splits)
  moreover obtain c1 where "default_filter h c0 = Some c1" "c = c1\<lparr>use_no_new_privs := True\<rparr>" "\<not> filter_empty c1"
    using calculation by (auto simp: root_checks_def Let_def split: option.splits if_splits)
  ultimately show ?thesis
    by (auto simp: root_checks_def Let_def filter_empty_def split: option.splits if_splits)
qed

lemma final_state:
  assumes "run_psteps (parent_steps h c @ child_steps h c root uid gid cmd) s = (True, s')"
  obtains s1 where "run_psteps (final_steps h c cmd) s1 = (True, s')" "ct_env s1 = ct_env s" "ct_fds s1 = ct_fds s"
proof -
  let ?pre = "parent_steps h c @ enter_root h root c @ populate_root h c @ leave_old_root h c @ landlock_steps h c @ privilege_steps h c uid gid"
  have "run_psteps (?pre @ final_steps h c cmd) s = (True, s')" using assms by (simp add: child_steps_def)
  then obtain s1 where r: "run_psteps ?pre s = (True, s1)" "run_psteps (final_steps h c cmd) s1 = (True, s')"
    unfolding run_psteps_append [of ?pre] by (auto split: prod.splits bool.splits)
  have "calls_only (run_psteps ?pre)" by (rule calls_only_run) (use parent_only [of _ h c] child_only [of _ h root c uid gid] in auto)
  then obtain l where "s1 = s\<lparr>ct_calls := l\<rparr>" using r(1) unfolding calls_only_def by (metis snd_conv)
  then show thesis using that r(2) by simp
qed

section \<open>Kept capabilities\<close>

lemma bit_one_shift: "n < 32 \<Longrightarrow> bit (push_bit m (1 :: u32)) n \<longleftrightarrow> n = m"
  by (auto simp: bit_simps)

lemma cap_words_bits:
  assumes "cap_words caps (lo, hi) = (lo', hi')" and "n < 32"
  shows "(bit lo' n \<longleftrightarrow> bit lo n \<or> int n \<in> set caps) \<and> (bit hi' n \<longleftrightarrow> bit hi n \<or> int n + 32 \<in> set caps)"
  using assms
proof (induction caps arbitrary: lo hi)
  case (Cons cap caps)
  show ?case
  proof (cases "cap < 0 \<or> cap > 63")
    case True
    then show ?thesis using Cons by auto
  next
    case False
    let ?b = "push_bit (nat cap mod 32) 1 :: u32"
    have low: "bit ?b n \<longleftrightarrow> int n = cap" if "nat cap div 32 = 0" using that False Cons.prems(2) bit_one_shift by auto
    have high: "bit ?b n \<longleftrightarrow> int n + 32 = cap" if "nat cap div 32 \<noteq> 0"
    proof -
      have "32 \<le> nat cap" "nat cap < 64" using that False by (auto simp: div_eq_0_iff)
      then have "nat cap mod 32 = nat cap - 32" by (simp add: mod_if)
      then show ?thesis using \<open>32 \<le> nat cap\<close> Cons.prems(2) bit_one_shift by auto
    qed
    show ?thesis
    proof (cases "nat cap div 32 = 0")
      case True
      then have "cap < 32" using False by (auto simp: div_eq_0_iff)
      then show ?thesis using Cons.IH [of "lo OR ?b" hi] Cons.prems low [OF True] False True by (auto simp: Let_def bit_or_iff)
    next
      case hi: False
      then have "32 \<le> cap" using False by (auto simp: div_eq_0_iff)
      then show ?thesis using Cons.IH [of lo "hi OR ?b"] Cons.prems high [OF hi] False hi by (auto simp: Let_def bit_or_iff)
    qed
  qed
qed simp

text \<open>The mask of a capability in the word that holds it.\<close>

definition cap_in_words :: "u32 \<Rightarrow> u32 \<Rightarrow> nat \<Rightarrow> bool" where
  "cap_in_words lo hi cap \<longleftrightarrow> (if cap < 32 then bit lo cap else bit hi (cap - 32))"

lemma kept_words:
  assumes "cap_words caps (0, 0) = (lo, hi)" and "cap < 64"
  shows "cap_in_words lo hi cap \<longleftrightarrow> int cap \<in> set caps"
proof (cases "cap < 32")
  case True
  then show ?thesis using cap_words_bits [OF assms(1) True] by (simp add: cap_in_words_def)
next
  case False
  then have "cap - 32 < 32" "int (cap - 32) + 32 = int cap" using assms(2) by auto
  then show ?thesis using cap_words_bits [OF assms(1), of "cap - 32"] False by (simp add: cap_in_words_def)
qed

section \<open>What is in place\<close>

text \<open>The file system: a new root, without the old one, with the flags and masks of the policy.\<close>

definition flags_set :: "mphase \<Rightarrow> string \<Rightarrow> u64 \<Rightarrow> rcall set \<Rightarrow> bool" where
  "flags_set at p f ks \<longleftrightarrow> (\<exists>g. bits g = g \<and> g AND f = f \<and> (C_setattr at p g \<in> ks \<or> C_remount at p g \<in> ks))"

definition masked :: "rhost \<Rightarrow> string \<Rightarrow> rcall set \<Rightarrow> bool" where
  "masked h p ks \<longleftrightarrow> rh_lstat_in h p = Inl ENOENT \<or> (\<exists>d. rh_lstat_in h p = Inr d \<and> C_mask p d \<in> ks)"

definition filesystem_built :: "rhost \<Rightarrow> Config \<Rightarrow> string \<Rightarrow> rcall set \<Rightarrow> bool" where
  "filesystem_built h c root ks \<longleftrightarrow>
     {C_private, C_bind_root root, C_chdir_root root, C_pivot_root, C_chdir_new, C_detach} \<subseteq> ks \<and>
     flags_set At_root root (NOSUID OR NODEV) ks \<and>
     (\<forall>p \<in> set (default_proc_masks @ mount_masks c). masked h p ks) \<and>
     (\<forall>r \<in> set (mount_flags c). C_bind_self (mf_path r) \<in> ks \<and> flags_set At_flags (mf_path r) (bits (mf_flags r)) ks) \<and>
     (rootdir_flags c AND RDONLY \<noteq> 0 \<longrightarrow> flags_set At_readonly ''/'' (RDONLY OR NOSUID OR NODEV) ks)"

text \<open>Ids and capabilities: those of the policy, and nothing that can give others back.\<close>

definition privileges_dropped :: "rhost \<Rightarrow> Config \<Rightarrow> u32 \<Rightarrow> u32 \<Rightarrow> rcall set \<Rightarrow> bool" where
  "privileges_dropped h c uid gid ks \<longleftrightarrow>
     {C_setgid gid, C_setuid uid, C_no_new_privs} \<subseteq> ks \<and>
     list_all (\<lambda>cap. 0 \<le> cap \<and> cap \<le> 63) (caps_kept c) \<and>
     (\<forall>cap \<in> set [0..cap_last_cap h]. cap \<notin> set (caps_kept c) \<longrightarrow> C_capbset_drop cap \<in> ks \<or> rh_call h (C_capbset_drop cap) \<noteq> 0) \<and>
     (caps_kept c \<noteq> [] \<longrightarrow>
        (\<exists>lo hi. C_capset lo hi \<in> ks \<and> (\<forall>cap < 64. cap_in_words lo hi cap \<longleftrightarrow> int cap \<in> set (caps_kept c))))"

lemma flags_setI:
  assumes "remount_with_flags h at p g r a = (True, b)" and "bits g = g" and "g AND f = f" and "set (ct_calls b) \<subseteq> ks"
  shows "flags_set at p f ks"
  using remount_does [OF assms(1)] assms(2,3,4) unfolding flags_set_def by (metis subsetD)

lemma root_flag_words:
  "bits (NOSUID OR NODEV OR (if b then NOEXEC else 0)) = NOSUID OR NODEV OR (if b then NOEXEC else 0)"
  "(NOSUID OR NODEV OR (if b then NOEXEC else 0)) AND (NOSUID OR NODEV) = NOSUID OR NODEV"
  "bits (RDONLY OR NOSUID OR NODEV OR (if b then NOEXEC else 0)) = RDONLY OR NOSUID OR NODEV OR (if b then NOEXEC else 0)"
  "(RDONLY OR NOSUID OR NODEV OR (if b then NOEXEC else 0)) AND (RDONLY OR NOSUID OR NODEV) = RDONLY OR NOSUID OR NODEV"
  by (simp_all add: bits_eq ms_defs)

lemma flag_one_does:
  assumes "flag_one h r a = (True, b)"
  shows "C_bind_self (mf_path r) \<in> set (ct_calls b) \<and> flags_set At_flags (mf_path r) (bits (mf_flags r)) (set (ct_calls b))"
proof -
  obtain a1 where a1: "call h (C_bind_self (mf_path r)) a = (True, a1)"
    "remount_with_flags h At_flags (mf_path r) (bits (mf_flags r)) True a1 = (True, b)"
    using assms by (auto simp: flag_one_def Let_def split: if_splits prod.splits bool.splits)
  have "flags_set At_flags (mf_path r) (bits (mf_flags r)) (set (ct_calls b))" by (rule flags_setI [OF a1(2)]) simp_all
  moreover have "C_bind_self (mf_path r) \<in> set (ct_calls a1)" using a1(1) by (auto simp: call_def split: if_splits)
  moreover obtain l where "ct_calls b = ct_calls a1 @ l"
    using remount.log_grows [of h At_flags "mf_path r" "bits (mf_flags r)" True a1] a1(2) by auto
  ultimately show ?thesis by simp
qed

lemma flag_one_grows: "grows ct_calls (flag_one h r)"
proof -
  have "\<exists>l. ct_calls (snd (run_psteps [call h (C_bind_self (mf_path r)), remount_with_flags h At_flags (mf_path r) (bits (mf_flags r)) True] p)) =
      ct_calls p @ l" for p
    by (rule run_psteps_grows) (auto intro: growing_calls)
  then show ?thesis unfolding grows_def flag_one_def by (auto simp: Let_def)
qed

lemma apply_mount_flags_does:
  assumes "apply_mount_flags h c a = (True, b)" and "r \<in> set (mount_flags c)"
  shows "C_bind_self (mf_path r) \<in> set (ct_calls b) \<and> flags_set At_flags (mf_path r) (bits (mf_flags r)) (set (ct_calls b))"
proof -
  have "\<exists>a' b' l k. flag_one h r a' = (True, b') \<and> ct_calls a' = ct_calls a @ k \<and> ct_calls b = ct_calls b' @ l"
    by (rule run_psteps_each [OF _ assms(1) [unfolded apply_mount_flags_def]]) (use flag_one_grows assms(2) in auto)
  then obtain a' b' l where b': "flag_one h r a' = (True, b')" "ct_calls b = ct_calls b' @ l" by blast
  show ?thesis using flag_one_does [OF b'(1)] unfolding b'(2) flags_set_def by auto
qed

lemma flags_set_mono: "flags_set at p f ks \<Longrightarrow> ks \<subseteq> ks' \<Longrightarrow> flags_set at p f ks'"
  unfolding flags_set_def by blast

lemma launched_filesystem:
  assumes run: "run_psteps (parent_steps h c @ child_steps h c root uid gid cmd) s = (True, s')"
  shows "filesystem_built h c root (set (ct_calls s'))"
  unfolding filesystem_built_def
proof (intro conjI ballI impI)
  note l = launched [OF run]
  show "{C_private, C_bind_root root, C_chdir_root root, C_pivot_root, C_chdir_new, C_detach} \<subseteq> set (ct_calls s')"
    using launched_call [OF run] by (simp add: child_steps_def enter_root_def leave_old_root_def)
  let ?n = "if rootdir_flags c AND NOEXEC \<noteq> 0 then NOEXEC else 0"
  have "\<exists>a b. remount_with_flags h At_root root (NOSUID OR NODEV OR ?n) True a = (True, b) \<and> set (ct_calls b) \<subseteq> set (ct_calls s')"
    by (rule l) (simp add: child_steps_def enter_root_def)
  then show "flags_set At_root root (NOSUID OR NODEV) (set (ct_calls s'))" using flags_setI root_flag_words by metis
  fix p assume p: "p \<in> set (default_proc_masks @ mount_masks c)"
  then have "mask_path h p \<in> set (child_steps h c root uid gid cmd) \<or> extra_mask h p \<in> set (child_steps h c root uid gid cmd)"
    by (auto simp: child_steps_def populate_root_def)
  then obtain a b where ab: "mask_path h p a = (True, b) \<or> extra_mask h p a = (True, b)" "set (ct_calls b) \<subseteq> set (ct_calls s')"
    using l [of "mask_path h p"] l [of "extra_mask h p"] by auto
  then show "masked h p (set (ct_calls s'))" unfolding masked_def using mask_does extra_mask_does by blast
next
  fix r assume r: "r \<in> set (mount_flags c)"
  have "\<exists>a b. apply_mount_flags h c a = (True, b) \<and> set (ct_calls b) \<subseteq> set (ct_calls s')"
    by (rule launched [OF run]) (simp add: child_steps_def leave_old_root_def)
  then obtain a b where ab: "apply_mount_flags h c a = (True, b)" "set (ct_calls b) \<subseteq> set (ct_calls s')" by blast
  note d = apply_mount_flags_does [OF ab(1) r]
  show "C_bind_self (mf_path r) \<in> set (ct_calls s')" using d ab(2) by blast
  show "flags_set At_flags (mf_path r) (bits (mf_flags r)) (set (ct_calls s'))" using d ab(2) flags_set_mono by blast
next
  let ?n = "if rootdir_flags c AND NOEXEC \<noteq> 0 then NOEXEC else 0"
  assume "rootdir_flags c AND RDONLY \<noteq> 0"
  then have "\<exists>a b. remount_with_flags h At_readonly ''/'' (RDONLY OR NOSUID OR NODEV OR ?n) False a = (True, b) \<and> set (ct_calls b) \<subseteq> set (ct_calls s')"
    by (intro launched [OF run]) (simp add: child_steps_def leave_old_root_def readonly_root_def)
  then show "flags_set At_readonly ''/'' (RDONLY OR NOSUID OR NODEV) (set (ct_calls s'))" using flags_setI root_flag_words by metis
qed

lemma launched_privileges:
  assumes run: "run_psteps (parent_steps h c @ child_steps h c root uid gid cmd) s = (True, s')"
  shows "privileges_dropped h c uid gid (set (ct_calls s'))"
  unfolding privileges_dropped_def
proof (intro conjI ballI impI)
  note l = launched [OF run]
  show "{C_setgid gid, C_setuid uid, C_no_new_privs} \<subseteq> set (ct_calls s')"
    using launched_call [OF run] by (simp add: child_steps_def privilege_steps_def drop_privileges_def final_steps_def)
  have "\<exists>a b. require (list_all (\<lambda>nr. 0 \<le> nr \<and> nr \<le> 63) (caps_kept c)) a = (True, b) \<and> set (ct_calls b) \<subseteq> set (ct_calls s')"
    by (rule l) (simp add: child_steps_def privilege_steps_def drop_capabilities_def)
  then show "list_all (\<lambda>cap. 0 \<le> cap \<and> cap \<le> 63) (caps_kept c)" by (simp add: require_def)
  fix cap assume cap: "cap \<in> set [0..cap_last_cap h]" "cap \<notin> set (caps_kept c)"
  have "\<exists>a b. attempt h (C_capbset_drop cap) a = (True, b) \<and> set (ct_calls b) \<subseteq> set (ct_calls s')"
    by (rule l) (use cap in \<open>auto simp: child_steps_def privilege_steps_def drop_capabilities_def\<close>)
  then show "C_capbset_drop cap \<in> set (ct_calls s') \<or> rh_call h (C_capbset_drop cap) \<noteq> 0"
    by (auto simp: attempt_def call_def split: if_splits)
next
  assume k: "caps_kept c \<noteq> []"
  obtain lo hi where w: "cap_words (caps_kept c) (0, 0) = (lo, hi)" by fastforce
  have m: "call h (C_capset lo hi) \<in> set (apply_kept_caps h c)" by (simp add: apply_kept_caps_def w)
  have "cap_allowed_names c \<noteq> []" using k by (simp add: caps_kept_def)
  then have "C_capset lo hi \<in> set (ct_calls s')"
    by (intro launched_call [OF run]) (use m in \<open>simp add: child_steps_def privilege_steps_def\<close>)
  then show "\<exists>lo hi. C_capset lo hi \<in> set (ct_calls s') \<and> (\<forall>cap < 64. cap_in_words lo hi cap \<longleftrightarrow> int cap \<in> set (caps_kept c))"
    using kept_words [OF w] by blast
qed

lemma seccomp_filter_there:
  "apply_seccomp e t c = (0, p) \<Longrightarrow> use_seccomp c \<Longrightarrow> \<not> filter_empty c \<Longrightarrow> \<exists>f. p = Some f"
  by (auto simp: apply_seccomp_def filter_empty_def build_seccomp_bpf_def Let_def split: if_splits)

lemma landlock_there: "apply_landlock e c = (0, p) \<Longrightarrow> \<exists>rs. p = Some rs"
  by (auto simp: apply_landlock_def Let_def split: if_splits option.splits)

lemma launched_landlock:
  assumes run: "run_psteps (parent_steps h c @ child_steps h c root uid gid cmd) s = (True, s')" and "use_landlock c"
  shows "\<exists>rs. apply_landlock (rh_ll_in h) c = (0, Some rs) \<and> C_landlock rs \<in> set (ct_calls s')"
proof -
  have "\<exists>a b. enter_landlock h c a = (True, b) \<and> set (ct_calls b) \<subseteq> set (ct_calls s')"
    by (rule launched [OF run]) (use assms(2) in \<open>simp add: child_steps_def landlock_steps_def\<close>)
  then obtain a b where ab: "enter_landlock h c a = (True, b)" "set (ct_calls b) \<subseteq> set (ct_calls s')" by blast
  obtain r p where r: "apply_landlock (rh_ll_in h) c = (r, p)" by fastforce
  have "r = 0" using ab(1) by (auto simp: enter_landlock_def r split: if_splits)
  moreover obtain rs where "p = Some rs" using landlock_there r calculation by blast
  ultimately show ?thesis using ab r by (auto simp: enter_landlock_def)
qed

section \<open>A small system\<close>

text \<open>A kernel on which every call succeeds; with and without \<^verbatim>\<open>mount_setattr\<close>.\<close>

definition demo_rhost :: "bool \<Rightarrow> rhost" where
  "demo_rhost setattr =
     \<lparr>rh_host = demo_host [], rh_ll = demo_ll, rh_ll_in = demo_ll, rh_sc = demo_env, rh_audit = demo_audit,
      rh_getpwnam = (\<lambda>u. if u = ''app'' then Some (1000, 1000) else None), rh_realpath = Some,
      rh_lstat_in = (\<lambda>p. if p = ''/proc/kcore'' then Inr False else if p = ''/opt'' then Inr True else Inl ENOENT),
      rh_stat_in = (\<lambda>_. True), rh_cap_last = Some 40, rh_nofile = Some 1024, rh_has_setattr = setattr,
      rh_has_close_range = True, rh_call = (\<lambda>_. 0)\<rparr>"

definition demo_ropts :: "ropt list" where
  "demo_ropts = [R_rootdir ''/srv'', R_username ''app'', R_block ''ptrace'', R_ro ''/usr'', R_mount_mask ''/opt'',
     R_cap_allowed ''40'', R_env_deny ''LD_*'']"

definition demo_rcfg :: Config where
  "demo_rcfg = root_config0\<lparr>rootdir := Some ''/srv'', username := Some ''app'', blocked_syscalls := [101],
     paths := [path_rule PATH_RO True ''/usr''], use_landlock := True, mount_masks := [''/opt''], cap_allowed_names := [''40''],
     env_deny := [(''LD_*'', False)]\<rparr>"

definition demo_cont :: cont where
  "demo_cont = \<lparr>ct_calls = [], ct_env = [''LD_PRELOAD=x'', ''A=b''], ct_fds = [0, 1, 2, 9], ct_audit = [], ct_filter = None, ct_init_filter = None\<rparr>"

lemma demo_root_opts: "root_opts (demo_rhost b) demo_ropts root_config0 = Inr demo_rcfg"
proof -
  have "resolve_syscall demo_target ''ptrace'' = 101" by code_simp
  then show ?thesis
    by (simp add: root_opt_def demo_ropts_def demo_rcfg_def or_exit_def with_landlock_def Let_def cfg_add_path_def cfg_add_env_deny_def
      cfg_add_blocked_def cfg_add_str_def root_config0_def demo_rhost_def demo_host_def MAX_PATHS_def MAX_ENV_VARS_def MAX_BLOCKED_SC_def
      path_rule_def empty_config_def)
qed

lemma demo_root_policy: "root_policy (demo_rhost b) demo_ropts [''sh''] = Inr (demo_rcfg, ''/srv'', 1000, 1000)"
proof -
  have "root_profile (demo_rhost b) demo_ropts = Inr root_config0" by (simp add: root_profile_def demo_ropts_def)
  moreover have "config_check_additive demo_ll demo_rcfg = 0" by code_simp
  then have "root_checks (demo_rhost b) [''sh''] demo_rcfg = Inr (demo_rcfg, ''/srv'', 1000, 1000)"
    by (simp add: root_checks_def default_filter_def filter_empty_def landlock_acceptable_def root_ids_def check_rootdir_ownership_def
        demo_rhost_def demo_host_def mode_defs path_has_dotdot_def char_at_def demo_rcfg_def root_config0_def empty_config_def)
  ultimately show ?thesis by (simp add: root_policy_def demo_root_opts)
qed

lemma demo_steps_ok:
  assumes "s \<in> set (parent_steps (demo_rhost b) demo_rcfg @ child_steps (demo_rhost b) demo_rcfg ''/srv'' 1000 1000 ''sh'')"
  shows "fst (s p)"
proof -
  let ?h = "demo_rhost b"
  have c: "fst (call ?h k p)" "fst (attempt ?h k p)" "fst (call_unless ?h e k p)" for k e p
    by (simp_all add: call_def attempt_def call_unless_def demo_rhost_def)
  have m: "fst (mask_path ?h q p)" "fst (remount_with_flags ?h at q f r p)" "fst (devpts ?h p)" for q at f r p
    using c(1) by (auto simp: mask_path_def remount_with_flags_def devpts_def demo_rhost_def split: sum.splits)
  have g: "fst (deny_setgroups ?h demo_rcfg p)" for p by (simp add: deny_setgroups_def call_def demo_rhost_def)
  have cfg: "netns demo_rcfg = None" "cgroups demo_rcfg = []" "mount_masks demo_rcfg = [''/opt'']" "mount_flags demo_rcfg = []"
    "rootdir_flags demo_rcfg = 0" "use_landlock demo_rcfg" "caps_kept demo_rcfg = [40]" "use_seccomp demo_rcfg"
    by (simp_all add: demo_rcfg_def root_config0_def empty_config_def caps_kept_def)
  have ll: "fst (apply_landlock demo_ll demo_rcfg) = 0" "config_check_additive demo_ll demo_rcfg = 0" by code_simp+
  have sc: "fst (apply_seccomp demo_env demo_target demo_rcfg) = 0" by code_simp
  have "fst (s p)" if "s \<in> set (parent_steps ?h demo_rcfg)"
    using that c g by (auto simp: parent_steps_def write_uid_gid_map_def cfg assign_to_cgroups_def)
  moreover have "fst (s p)" if "s \<in> set (enter_root ?h ''/srv'' demo_rcfg)" using that c m by (auto simp: enter_root_def)
  moreover have "fst (s p)" if "s \<in> set (populate_root ?h demo_rcfg)"
    using that c m by (auto simp: populate_root_def cfg extra_mask_def char_at_def path_has_dotdot_def mount_sys_def split: prod.splits bool.splits)
  moreover have "fst (s p)" if "s \<in> set (leave_old_root ?h demo_rcfg)"
    using that c m by (auto simp: leave_old_root_def cfg apply_mount_flags_def readonly_root_def split: if_splits)
  moreover have "fst (s p)" if "s \<in> set (landlock_steps ?h demo_rcfg)"
    using that ll by (auto simp: landlock_steps_def cfg require_def enter_landlock_def demo_rhost_def split: prod.splits)
  moreover have "fst (s p)" if "s \<in> set (privilege_steps ?h demo_rcfg 1000 1000)"
    using that c by (auto simp: privilege_steps_def drop_capabilities_def drop_privileges_def apply_kept_caps_def cfg require_def split: if_splits prod.splits)
  moreover have "fst (s p)" if "s \<in> set (final_steps ?h demo_rcfg ''sh'')"
    using that c sc by (auto simp: final_steps_def root_env_def root_close_fds_def container_init_def target_filter_def demo_rhost_def
        demo_host_def call_def split: prod.splits)
  ultimately show ?thesis using assms unfolding child_steps_def by auto
qed

lemma demo_root_execs: "\<exists>s'. root_main (demo_rhost b) demo_ropts [''sh''] demo_cont = (Execed ''sh'' [''sh''], s')"
proof -
  let ?ss = "parent_steps (demo_rhost b) demo_rcfg @ child_steps (demo_rhost b) demo_rcfg ''/srv'' 1000 1000 ''sh''"
  have "fst (run_psteps ?ss demo_cont)" by (rule run_psteps_ok) (rule demo_steps_ok)
  moreover have "root_audit_start (demo_rhost b) ''sh'' ''/srv'' 1000 1000 demo_rcfg demo_cont = Some (demo_rcfg, demo_cont)"
    by (simp add: root_audit_start_def demo_rcfg_def root_config0_def empty_config_def)
  ultimately show ?thesis by (auto simp: root_main_def demo_root_policy root_run_def split: prod.splits bool.splits)
qed

section \<open>Properties\<close>

text \<open>
  C6: when the target is executed, the container's file system is complete: the mounts are
  private, the process lives in the new root and the old one is detached, the new root is nosuid
  and nodev, every masked path is hidden or absent, every mount flag of the policy was set on a
  mount of its own, and a read-only root was made read-only.\<close>

theorem container_filesystem:
  assumes "root_main h opts argv s = (Execed cmd args, s')"
  shows "\<exists>c root uid gid. root_policy h opts argv = Inr (c, root, uid, gid) \<and> cmd = hd argv \<and> args = argv \<and>
    rootdir c = Some root \<and> char_at root 0 = CHR ''/'' \<and> check_rootdir_ownership h root c \<and>
    filesystem_built h c root (set (ct_calls s'))"
proof (rule root_launched [OF assms])
  fix c root uid gid fd s1
  assume p: "root_policy h opts argv = Inr (c, root, uid, gid)" "cmd = hd argv" "args = argv"
    and r: "run_psteps (parent_steps h (c\<lparr>audit_log_fd := fd\<rparr>) @ child_steps h (c\<lparr>audit_log_fd := fd\<rparr>) root uid gid cmd) s1 = (True, s')"
  have "filesystem_built h c root (set (ct_calls s'))" using launched_filesystem [OF r] by (simp add: filesystem_built_def)
  then show ?thesis using p root_policy_accepts [OF p(1)] by blast
qed

text \<open>Witness: a container with a masked path.\<close>

theorem container_filesystem_witness:
  "\<exists>s'. root_main (demo_rhost True) demo_ropts [''sh''] demo_cont = (Execed ''sh'' [''sh''], s') \<and>
     filesystem_built (demo_rhost True) demo_rcfg ''/srv'' (set (ct_calls s')) \<and> C_mask ''/opt'' True \<in> set (ct_calls s')"
proof -
  obtain s' where e: "root_main (demo_rhost True) demo_ropts [''sh''] demo_cont = (Execed ''sh'' [''sh''], s')" using demo_root_execs by blast
  then have f: "filesystem_built (demo_rhost True) demo_rcfg ''/srv'' (set (ct_calls s'))"
    using container_filesystem [OF e] by (auto simp: demo_root_policy)
  moreover have "''/opt'' \<in> set (mount_masks demo_rcfg)" by (simp add: demo_rcfg_def)
  ultimately have "masked (demo_rhost True) ''/opt'' (set (ct_calls s'))" by (auto simp: filesystem_built_def)
  then show ?thesis using e f by (auto simp: masked_def demo_rhost_def)
qed

text \<open>
  C5: when the target is executed it has the ids of the policy and no-new-privs; the capabilities
  it keeps are valid, every other one was dropped from the bounding set unless the kernel
  refused, and the capability words have exactly the kept bits; Landlock is enforced when it is
  on; the environment is the sanitised one; no descriptor but the standard ones and those beyond
  the limit is open; and with seccomp on, a filter that computes the policy is installed.\<close>

theorem container_privileges:
  assumes "root_main h opts argv s = (Execed cmd args, s')"
  shows "\<exists>c root uid gid. root_policy h opts argv = Inr (c, root, uid, gid) \<and> privileges_dropped h c uid gid (set (ct_calls s')) \<and>
    (use_landlock c \<longrightarrow> (\<exists>rs. apply_landlock (rh_ll_in h) c = (0, Some rs) \<and> C_landlock rs \<in> set (ct_calls s'))) \<and>
    ct_env s' = (if use_env_sanitize c then sanitize_env c (ct_env s) else ct_env s) \<and>
    (\<forall>fd \<in> set (ct_fds s'). fd \<in> set (ct_fds s) \<and> (fd < 3 \<or> max_fd h \<le> fd)) \<and>
    (use_seccomp c \<longrightarrow> (\<exists>f. apply_seccomp (rh_sc h) (h_target (rh_host h)) c = (0, Some f) \<and> ct_filter s' = Some f))"
proof (rule root_launched [OF assms])
  fix c :: Config and root uid gid fd s1
  let ?c = "c\<lparr>audit_log_fd := fd\<rparr>"
  assume p: "root_policy h opts argv = Inr (c, root, uid, gid)"
    and r: "run_psteps (parent_steps h ?c @ child_steps h ?c root uid gid cmd) s1 = (True, s')" and s1: "ct_env s1 = ct_env s" "ct_fds s1 = ct_fds s"
  have priv: "privileges_dropped h c uid gid (set (ct_calls s'))"
    using launched_privileges [OF r] by (simp add: privileges_dropped_def caps_kept_def)
  have land: "use_landlock c \<longrightarrow> (\<exists>rs. apply_landlock (rh_ll_in h) c = (0, Some rs) \<and> C_landlock rs \<in> set (ct_calls s'))"
    using launched_landlock [OF r] by (simp add: landlock_fd)
  obtain s2 where s2: "run_psteps (final_steps h ?c cmd) s2 = (True, s')" "ct_env s2 = ct_env s" "ct_fds s2 = ct_fds s"
    using final_state [OF r] s1 by metis
  have env: "ct_env s' = (if use_env_sanitize c then sanitize_env c (ct_env s) else ct_env s)"
    using final_does(1) [OF s2(1)] s2(2) by (simp add: sanitize_env_def)
  have fds: "\<forall>fd \<in> set (ct_fds s'). fd \<in> set (ct_fds s) \<and> (fd < 3 \<or> max_fd h \<le> fd)" using final_does(2) [OF s2(1)] s2(3) by simp
  have "use_seccomp c \<longrightarrow> apply_seccomp (rh_sc h) (h_target (rh_host h)) c = (0, ct_filter s')"
    using final_does(3) [OF s2(1)] by (simp add: seccomp_fd)
  moreover have "\<not> filter_empty c" using root_policy_accepts [OF p] by blast
  ultimately have sc: "use_seccomp c \<longrightarrow> (\<exists>f. apply_seccomp (rh_sc h) (h_target (rh_host h)) c = (0, Some f) \<and> ct_filter s' = Some f)"
    using seccomp_filter_there by metis
  show ?thesis using p priv land env fds sc by blast
qed

text \<open>Witness: a container that keeps one capability.\<close>

theorem container_privileges_witness:
  "\<exists>s'. root_main (demo_rhost True) demo_ropts [''sh''] demo_cont = (Execed ''sh'' [''sh''], s') \<and>
     {C_setuid 1000, C_setgid 1000, C_capbset_drop 21, C_no_new_privs} \<subseteq> set (ct_calls s') \<and> ct_filter s' \<noteq> None"
proof -
  obtain s' where e: "root_main (demo_rhost True) demo_ropts [''sh''] demo_cont = (Execed ''sh'' [''sh''], s')" using demo_root_execs by blast
  have cfg: "use_seccomp demo_rcfg" "caps_kept demo_rcfg = [40]" "cap_last_cap (demo_rhost True) = 40"
    by (simp_all add: demo_rcfg_def root_config0_def empty_config_def caps_kept_def cap_last_cap_def demo_rhost_def)
  have p: "privileges_dropped (demo_rhost True) demo_rcfg 1000 1000 (set (ct_calls s'))" "ct_filter s' \<noteq> None"
    using container_privileges [OF e] cfg(1) by (auto simp: demo_root_policy)
  have "21 \<in> set [0..cap_last_cap (demo_rhost True)]" "21 \<notin> set (caps_kept demo_rcfg)" by (simp_all add: cfg)
  then have "C_capbset_drop 21 \<in> set (ct_calls s')" using p(1) by (auto simp: privileges_dropped_def demo_rhost_def)
  then show ?thesis using e p by (auto simp: privileges_dropped_def)
qed

text \<open>
  The ids of the target.  It runs as uid 0 exactly when no \<^verbatim>\<open>--uid\<close> is given and either the
  user has uid 0 on the host or, being unknown there, a \<^verbatim>\<open>--gid\<close> alone is given; likewise for the
  gid.  So a user that exists only in the container, launched with one of the two options, runs
  with the other id 0.\<close>

theorem target_ids:
  assumes "root_policy h opts argv = Inr (c, root, uid, gid)"
  shows "\<exists>user. username c = Some user \<and>
    (uid = 0 \<longleftrightarrow> cfg_uid c = 0 \<and> (case rh_getpwnam h user of Some (u, g) \<Rightarrow> u = 0 | None \<Rightarrow> cfg_gid c \<noteq> 0)) \<and>
    (gid = 0 \<longleftrightarrow> cfg_gid c = 0 \<and> (case rh_getpwnam h user of Some (u, g) \<Rightarrow> g = 0 | None \<Rightarrow> cfg_uid c \<noteq> 0))"
proof -
  obtain user where "username c = Some user" "root_ids h user c = Some (uid, gid)" using root_policy_accepts [OF assms] by blast
  then show ?thesis by (auto simp: root_ids_def Let_def split: option.splits if_splits)
qed

definition ghost_cfg :: Config where
  "ghost_cfg = demo_rcfg\<lparr>username := Some ''ghost'', cfg_gid := 1000\<rparr>"

lemma root_opts_append: "root_opts h (xs @ ys) c = (case root_opts h xs c of Inl r \<Rightarrow> Inl r | Inr c' \<Rightarrow> root_opts h ys c')"
  by (induction xs arbitrary: c) (auto split: sum.splits)

lemma ghost_policy:
  "root_policy (demo_rhost b) (demo_ropts @ [R_username ''ghost'', R_gid ''1000'']) [''sh''] = Inr (ghost_cfg, ''/srv'', 0, 1000)"
proof -
  have "parse_id ''1000'' = Some 1000" by code_simp
  then have "root_opts (demo_rhost b) (demo_ropts @ [R_username ''ghost'', R_gid ''1000'']) root_config0 = Inr ghost_cfg"
    by (simp add: root_opts_append demo_root_opts root_opt_def or_exit_def Let_def ghost_cfg_def)
  moreover have "root_profile (demo_rhost b) (demo_ropts @ [R_username ''ghost'', R_gid ''1000'']) = Inr root_config0"
    by (simp add: root_profile_def demo_ropts_def)
  moreover have "config_check_additive demo_ll ghost_cfg = 0" by code_simp
  then have "root_checks (demo_rhost b) [''sh''] ghost_cfg = Inr (ghost_cfg, ''/srv'', 0, 1000)"
    by (simp add: root_checks_def default_filter_def filter_empty_def landlock_acceptable_def root_ids_def check_rootdir_ownership_def
        demo_rhost_def demo_host_def mode_defs path_has_dotdot_def char_at_def ghost_cfg_def demo_rcfg_def root_config0_def empty_config_def)
  ultimately show ?thesis by (simp add: root_policy_def)
qed

text \<open>Witness: the user \<^verbatim>\<open>ghost\<close>, unknown on the host, with \<^verbatim>\<open>--gid 1000\<close>: the launcher drops to uid 0.\<close>

theorem target_ids_witness:
  "root_policy (demo_rhost True) (demo_ropts @ [R_username ''ghost'', R_gid ''1000'']) [''sh''] = Inr (ghost_cfg, ''/srv'', 0, 1000) \<and>
   rh_getpwnam (demo_rhost True) ''ghost'' = None \<and> cfg_gid ghost_cfg \<noteq> 0"
  using target_ids [OF ghost_policy [of True]] ghost_policy [of True] by (auto simp: ghost_cfg_def demo_rhost_def split: option.splits)

section \<open>The flags of a mount\<close>

text \<open>
  What the calls do to the flags of the container's root and of a mount at one path: a bind mount
  copies them, \<^verbatim>\<open>mount_setattr\<close> adds to them, a remount replaces them.
\<close>

fun mount_effect :: "string \<Rightarrow> rcall \<Rightarrow> u64 \<times> u64 \<Rightarrow> u64 \<times> u64" where
  "mount_effect p (C_setattr At_root d f) (r, m) = (r OR f, m)"
| "mount_effect p (C_remount At_root d f) (r, m) = (f, m)"
| "mount_effect p (C_bind_self q) (r, m) = (if q = p then (r, r) else (r, m))"
| "mount_effect p (C_setattr At_flags q f) (r, m) = (if q = p then (r, m OR f) else (r, m))"
| "mount_effect p (C_remount At_flags q f) (r, m) = (if q = p then (r, f) else (r, m))"
| "mount_effect p _ (r, m) = (r, m)"

definition mount_state :: "string \<Rightarrow> rcall list \<Rightarrow> u64 \<times> u64" where
  "mount_state p ks = fold (mount_effect p) ks (0, 0)"

text \<open>
  With one mount-flag directive, the path ends with the flags of the container's root and those
  of the directive when \<^verbatim>\<open>mount_setattr\<close> works, and with those of the directive alone when the
  launcher falls back to a remount: the nosuid and nodev of the root are lost at that path.\<close>

theorem mount_flag_result:
  assumes "apply_mount_flags h c s = (True, s')" and "mount_flags c = [r]"
  shows "mount_state (mf_path r) (ct_calls s') =
    (let root = fst (mount_state (mf_path r) (ct_calls s)); f = bits (mf_flags r)
     in (root, if rh_has_setattr h \<and> rh_call h (C_setattr At_flags (mf_path r) f) = 0 then root OR f else f))"
proof -
  obtain r0 m0 where m: "mount_state (mf_path r) (ct_calls s) = (r0, m0)" by fastforce
  have "flag_one h r s = (True, s')" using assms by (auto simp: apply_mount_flags_def split: prod.splits bool.splits)
  then show ?thesis using m
    by (auto simp: flag_one_def Let_def call_def remount_with_flags_def mount_state_def split: if_splits prod.splits bool.splits)
qed

definition ro_data :: Config where
  "ro_data = demo_rcfg\<lparr>mount_flags := [\<lparr>mf_path = ''/data'', mf_flags = RDONLY\<rparr>]\<rparr>"

text \<open>Witness: \<^verbatim>\<open>mount-ro /data\<close> on a kernel without \<^verbatim>\<open>mount_setattr\<close>, after the root was made nosuid and nodev.\<close>

theorem mount_flag_result_witness:
  "\<exists>s s'. run_psteps (enter_root (demo_rhost False) ''/srv'' ro_data) demo_cont = (True, s) \<and>
     mount_state ''/data'' (ct_calls s) = (NOSUID OR NODEV, 0) \<and> apply_mount_flags (demo_rhost False) ro_data s = (True, s') \<and>
     mount_state ''/data'' (ct_calls s') = (NOSUID OR NODEV, RDONLY)"
proof -
  let ?h = "demo_rhost False"
  obtain s where s: "run_psteps (enter_root ?h ''/srv'' ro_data) demo_cont = (True, s)" "mount_state ''/data'' (ct_calls s) = (NOSUID OR NODEV, 0)"
    by (simp add: enter_root_def call_def call_unless_def remount_with_flags_def demo_rhost_def demo_cont_def mount_state_def
        ro_data_def demo_rcfg_def root_config0_def empty_config_def)
  moreover obtain s' where a: "apply_mount_flags ?h ro_data s = (True, s')"
    by (simp add: apply_mount_flags_def flag_one_def Let_def char_at_def path_has_dotdot_def call_def remount_with_flags_def demo_rhost_def ro_data_def)
  moreover have "mount_flags ro_data = [\<lparr>mf_path = ''/data'', mf_flags = RDONLY\<rparr>]" by (simp add: ro_data_def)
  ultimately show ?thesis using mount_flag_result [OF a] by (auto simp: Let_def demo_rhost_def bits_eq ms_defs)
qed

section \<open>PID 1\<close>

lemma reaper_skips:
  assumes "list_all (\<lambda>w. w = W_eintr \<or> (\<exists>p st. w = W_child p st \<and> p \<noteq> pid)) ws"
  shows "reaper pid (ws @ rest) = reaper pid rest"
  using assms by (induction ws) auto

text \<open>
  C30: PID 1 outlives signals and orphans: whatever interruptions and children of others it sees
  first, once the target has ended it returns, and the launcher's exit code is the target's own, or
  128 plus the number of the signal that killed it.\<close>

theorem target_status_returned:
  assumes "list_all (\<lambda>w. w = W_eintr \<or> (\<exists>p st. w = W_child p st \<and> p \<noteq> pid)) ws"
  shows "map_option (\<lambda>st. root_exit (W_exited (init_exit st))) (reaper pid (ws @ W_child pid st # rest)) =
    Some (case st of W_exited n \<Rightarrow> int n | W_signaled n \<Rightarrow> 128 + int n)"
  by (simp add: reaper_skips [OF assms] root_exit_def init_exit_def split: wstatus.splits)

text \<open>Witness: a forwarded signal, an orphan, then the target killed by signal 15.\<close>

theorem target_status_returned_witness:
  "map_option (\<lambda>st. root_exit (W_exited (init_exit st))) (reaper 2 [W_eintr, W_child 7 (W_exited 1), W_child 2 (W_signaled 15)]) = Some 143"
  using target_status_returned [of 2 "[W_eintr, W_child 7 (W_exited 1)]" "W_signaled 15" "[]"] by simp

lemma small_number_native:
  assumes "0 \<le> nr" and "nr < 0x40000000"
  shows "(word_of_int nr :: u32) AND X32_BIT = 0"
proof -
  have "nr div 2 ^ 30 = 0" using assms by simp
  then have "\<not> bit nr 30" unfolding bit_iff_odd by simp
  then have "\<not> bit (word_of_int nr :: u32) 30" by (simp only: bit_word_of_int_iff) simp
  then have "(word_of_int nr :: u32) AND 2 ^ 30 = 0" unfolding and_exp_eq_0_iff_not_bit .
  then show ?thesis by (simp add: X32_BIT_def)
qed

lemma number_in_words:
  assumes "0 \<le> nr" and "nr \<le> 0x7fffffff" and "list_all (\<lambda>n. 0 \<le> n \<and> n \<le> 0x7fffffff) nrs"
  shows "(word_of_int nr :: u32) \<in> word_of_int ` set nrs \<longleftrightarrow> nr \<in> set nrs"
proof
  assume "(word_of_int nr :: u32) \<in> word_of_int ` set nrs"
  then obtain m where m: "m \<in> set nrs" "(word_of_int nr :: u32) = word_of_int m" by blast
  moreover have "0 \<le> m \<and> m \<le> 0x7fffffff" using assms(3) m(1) by (simp add: list_all_iff)
  ultimately show "nr \<in> set nrs" using assms(1,2) by (simp add: word_of_int_eq_iff take_bit_int_eq_self)
qed simp

lemma reaper_number:
  assumes "target_ok t" and "n \<in> set reaper_syscalls" and "0 \<le> resolve_syscall t n"
  shows "resolve_syscall t n < 0x40000000"
proof -
  have "list_all (\<lambda>n. n \<in> fst ` set syscall_names \<and> strtol 0 n = (0, n, False)) reaper_syscalls" by code_simp
  then have n: "n \<in> fst ` set syscall_names" "strtol 0 n = (0, n, False)" using assms(2) by (auto simp: list_all_iff)
  show ?thesis
  proof (cases "nr_of t n")
    case None
    then have "resolve_syscall t n = - 1" by (simp add: resolve_syscall_def syscall_table_lookup n(2))
    then show ?thesis by simp
  next
    case (Some nr)
    then have "resolve_syscall t n = nr" by (rule resolve_syscall_listed [OF n(1)])
    then show ?thesis using assms(1) Some n(1) by (fastforce simp: target_ok_def)
  qed
qed

text \<open>
  PID 1 never filters away what it lives on: when it installs a filter, that filter lets every
  system call of its loop through, for an allow-list and for a deny-list.\<close>

theorem init_filter_allows_reaper:
  assumes "target_ok (h_target (rh_host h))" and "list_all (\<lambda>n. 0 \<le> n \<and> n \<le> 0x7fffffff) (allowed_syscalls c @ blocked_syscalls c)"
    and "container_init h c s = (True, s')" and "ct_init_filter s = None" and "ct_init_filter s' = Some f" and "n \<in> set reaper_syscalls"
  shows "run_filter \<lparr>sd_nr = word_of_int (resolve_syscall (h_target (rh_host h)) n), sd_arch = audit_arch (h_target (rh_host h)), sd_arg0 = x\<rparr> f a =
    Some SECCOMP_RET_ALLOW"
proof -
  let ?t = "h_target (rh_host h)" and ?nr = "resolve_syscall (h_target (rh_host h)) n"
  have cov: "policy_covers_reaper ?t c" and ap: "\<exists>r. apply_seccomp (rh_sc h) ?t c = (r, Some f)"
    using assms(3-5) by (auto simp: container_init_def call_def split: if_splits prod.splits)
  then have nr: "0 \<le> ?nr" "if seccomp_allow_mode c then ?nr \<in> set (allowed_syscalls c) else ?nr \<notin> set (blocked_syscalls c)"
    using assms(6) by (auto simp: policy_covers_reaper_def list_all_iff Let_def)
  have small: "?nr < 0x40000000" by (rule reaper_number [OF assms(1,6) nr(1)])
  have mem: "(word_of_int ?nr :: u32) \<in> word_of_int ` set nrs \<longleftrightarrow> ?nr \<in> set nrs"
    if "list_all (\<lambda>n. 0 \<le> n \<and> n \<le> 0x7fffffff) nrs" for nrs
    by (rule number_in_words [OF nr(1) _ that]) (use small in simp)
  obtain r where "apply_seccomp (rh_sc h) ?t c = (r, Some f)" using ap by blast
  from apply_seccomp_filter [OF this] show ?thesis
    using nr mem [of "allowed_syscalls c"] mem [of "blocked_syscalls c"] assms(2) small_number_native [OF nr(1) small]
    by (elim disjE conjE) (simp_all add: run_seccomp_prog)
qed

text \<open>Witness: the small container, whose deny-list names \<^verbatim>\<open>ptrace\<close>; PID 1 filters itself and may still wait.\<close>

theorem init_filter_allows_reaper_witness:
  "\<exists>s' f. container_init (demo_rhost True) demo_rcfg demo_cont = (True, s') \<and> ct_init_filter s' = Some f \<and>
     run_filter \<lparr>sd_nr = word_of_int (resolve_syscall demo_target ''wait4''), sd_arch = audit_arch demo_target, sd_arg0 = 0\<rparr> f 0 = Some SECCOMP_RET_ALLOW"
proof -
  let ?h = "demo_rhost True"
  have t: "h_target (rh_host ?h) = demo_target" by (simp add: demo_rhost_def demo_host_def)
  have ok: "target_ok demo_target" by (auto simp: target_ok_def demo_target_def split: if_splits)
  have cov: "policy_covers_reaper demo_target demo_rcfg" by code_simp
  have "fst (apply_seccomp demo_env demo_target demo_rcfg) = 0" "snd (apply_seccomp demo_env demo_target demo_rcfg) \<noteq> None" by code_simp+
  then obtain f where f: "apply_seccomp demo_env demo_target demo_rcfg = (0, Some f)" by (metis option.exhaust prod.collapse)
  have u: "use_seccomp demo_rcfg" "rh_sc ?h = demo_env" "rh_call ?h C_fork = 0" "ct_init_filter demo_cont = None"
    by (simp_all add: demo_rcfg_def root_config0_def demo_rhost_def demo_cont_def)
  obtain s' where s': "container_init ?h demo_rcfg demo_cont = (True, s')" "ct_init_filter s' = Some f"
    by (simp add: container_init_def call_def u t cov f)
  have l: "list_all (\<lambda>n. 0 \<le> n \<and> n \<le> 0x7fffffff) (allowed_syscalls demo_rcfg @ blocked_syscalls demo_rcfg)"
    by (simp add: demo_rcfg_def root_config0_def)
  have n: "''wait4'' \<in> set reaper_syscalls" by (simp add: reaper_syscalls_def)
  show ?thesis using init_filter_allows_reaper [OF _ l s'(1) u(4) s'(2) n, of 0 0] s' ok by (simp add: t)
qed

end
