(* ===== verification/Actor_Wrapper.thy ===== *)
theory Actor_Wrapper
  imports Step_Runs Seccomp_Filter Env_Sanitize Profile_Source
begin

text \<open>
  The launcher of actor binaries, \<^verbatim>\<open>src/compartment-bpf/tools/compartment-actor-wrapper.c\<close>, in its two
  builds: the generic wrapper, which is told its target, and a generated one, whose target and
  environment names are baked in.  It closes descriptors, pins the target, gives up privileges,
  replaces the environment, installs a deny-list and executes the pinned file.  Memory does not
  run out.
\<close>

section \<open>Dangerous names\<close>

definition DANGEROUS_ENV_NAMES :: "string list" where
  "DANGEROUS_ENV_NAMES =
     [''LD_PRELOAD'', ''LD_AUDIT'', ''LD_LIBRARY_PATH'', ''LD_DEBUG'', ''LD_DEBUG_OUTPUT'', ''LD_PROFILE'', ''LD_TRACE_LOADED_OBJECTS'',
      ''LD_BIND_NOW'', ''LD_BIND_NOT'', ''LD_DYNAMIC_WEAK'', ''LD_HWCAP_MASK'', ''LD_ORIGIN_PATH'', ''LD_POINTER_GUARD'',
      ''LD_PROFILE_OUTPUT'', ''LD_SHOW_AUXV'', ''LD_USE_LOAD_BIAS'', ''GLIBC_TUNABLES'', ''GCONV_PATH'', ''GETCONF_DIR'',
      ''LOCPATH'', ''LOCALDOMAIN'', ''NLSPATH'', ''RES_OPTIONS'', ''RESOLV_HOST_CONF'', ''HOSTALIASES'', ''NIS_PATH'', ''IFS'',
      ''MALLOC_TRACE'', ''MALLOC_CHECK_'', ''MALLOC_TOP_PAD_'', ''MALLOC_ARENA_TEST'', ''MALLOC_ARENA_MAX'', ''MALLOC_CONF'',
      ''BASH_ENV'', ''ENV'', ''CDPATH'', ''BASHOPTS'', ''SHELLOPTS'', ''NSS_PATH'', ''NSS_STRICT_NOLOGIN'',
      ''OPENSSL_CONF'', ''OPENSSL_ENGINES'', ''OPENSSL_MODULES'', ''SSL_CERT_FILE'', ''SSL_CERT_DIR'', ''CURL_CA_BUNDLE'', ''CURL_HOME'',
      ''KRB5_CONFIG'', ''KRB5CCNAME'', ''SASL_PATH'', ''SASL_CONF_PATH'', ''PYTHONPATH'', ''PYTHONSTARTUP'', ''PYTHONHOME'', ''PYTHONINSPECT'',
      ''PERL5LIB'', ''PERL5OPT'', ''PERL5DB'', ''RUBYLIB'', ''RUBYOPT'', ''NODE_OPTIONS'', ''NODE_PATH'',
      ''JAVA_TOOL_OPTIONS'', ''_JAVA_OPTIONS'', ''JDK_JAVA_OPTIONS'', ''GIT_EXEC_PATH'', ''GIT_TRACE'', ''GIT_TEMPLATE_DIR'']"

definition env_is_dangerous :: "string \<Rightarrow> bool" where
  "env_is_dangerous name \<longleftrightarrow> has_prefix ''BASH_FUNC_'' name \<or> name \<in> set DANGEROUS_ENV_NAMES"

section \<open>The system and the process\<close>

definition ENOSYS :: nat where "ENOSYS = 38"
definition S_IXUSR :: u32 where "S_IXUSR = 0x40"

record tstat =
  ts_mode :: u32
  ts_size :: int

record whost =
  wh_at_base :: nat                            \<comment> \<open>\<^verbatim>\<open>getauxval(AT_BASE)\<close>, 0 when linked statically\<close>
  wh_target :: target                          \<comment> \<open>the \<^verbatim>\<open>__NR_*\<close> of the build\<close>
  wh_dumpable :: bool
  wh_nnp :: bool
  wh_ambient :: nat                            \<comment> \<open>\<^verbatim>\<open>errno\<close>, 0 for success\<close>
  wh_close_range :: bool
  wh_open_max :: int
  wh_open :: "string \<Rightarrow> (nat \<times> tstat option) option"  \<comment> \<open>the inode and its \<^verbatim>\<open>fstat\<close>\<close>
  wh_clearenv :: bool
  wh_setenv_path :: bool
  wh_seccomp :: nat
  wh_prctl_seccomp :: bool
  wh_exec :: "nat \<Rightarrow> bool"

record wproc =
  wp_fds :: "int list"
  wp_dumpable :: bool
  wp_nnp :: bool
  wp_ambient_clear :: bool
  wp_environ :: "string list"
  wp_envp :: "string list"                     \<comment> \<open>for \<^verbatim>\<open>execveat\<close>\<close>
  wp_filter :: "sock_filter list option"

datatype wresult = W_exit int | W_exec nat "string list" "string list"

section \<open>Hardening\<close>

text \<open>
  Each step is given whether degraded operation is allowed: \<^verbatim>\<open>warn_or_die\<close> goes on then, \<^verbatim>\<open>die\<close> never.
\<close>

definition set_undumpable :: "whost \<Rightarrow> bool \<Rightarrow> wproc step" where
  "set_undumpable h degraded p = (if wh_dumpable h then (True, p\<lparr>wp_dumpable := False\<rparr>) else (degraded, p))"

definition set_nnp :: "whost \<Rightarrow> wproc step" where
  "set_nnp h p = (if wh_nnp h then (True, p\<lparr>wp_nnp := True\<rparr>) else (False, p))"

definition clear_ambient :: "whost \<Rightarrow> bool \<Rightarrow> wproc step" where
  "clear_ambient h degraded p =
     (if wh_ambient h = 0 then (True, p\<lparr>wp_ambient_clear := True\<rparr>)
      else if wh_ambient h \<noteq> EINVAL \<and> wh_ambient h \<noteq> ENOSYS then (degraded, p)
      else (True, p))"

definition harden_prctl :: "whost \<Rightarrow> bool \<Rightarrow> wproc step" where
  "harden_prctl h degraded = run_psteps [set_undumpable h degraded, set_nnp h, clear_ambient h degraded]"

definition open_max :: "whost \<Rightarrow> int" where
  "open_max h = (if wh_open_max h \<le> 0 then 1024 else wh_open_max h)"

definition wrapper_close_fds :: "whost \<Rightarrow> wproc step" where
  "wrapper_close_fds h p =
     (True, if wh_close_range h then p\<lparr>wp_fds := filter (\<lambda>fd. fd < 3) (wp_fds p)\<rparr>
            else p\<lparr>wp_fds := filter (\<lambda>fd. fd < 3 \<or> fd \<ge> open_max h) (wp_fds p)\<rparr>)"

section \<open>Environment\<close>

text \<open>
  \<^verbatim>\<open>getenv\<close> of the GNU C library: the value of the first entry that starts with the name and an
  equals sign, whatever else the name contains; the empty name is never found.
\<close>

definition getenv :: "string list \<Rightarrow> string \<Rightarrow> string option" where
  "getenv env name =
     (if name = [] then None else map_option (drop (length name + 1)) (List.find (has_prefix (name @ ''='')) env))"

fun setenv :: "string \<Rightarrow> string \<Rightarrow> string list \<Rightarrow> string list" where
  "setenv name v [] = [name @ ''='' @ v]"
| "setenv name v (e # env) = (if has_prefix (name @ ''='') e then (name @ ''='' @ v) # env else e # setenv name v env)"

text \<open>An allow-list; \<^term>\<open>None\<close> when a name is refused.\<close>

definition allow_add :: "string list \<Rightarrow> string \<Rightarrow> string list option" where
  "allow_add al name = (if env_is_dangerous name then None else Some (al @ [name]))"

definition FIXED_PATH :: string where "FIXED_PATH = ''/usr/sbin:/usr/bin:/sbin:/bin''"

definition snapshot :: "string list \<Rightarrow> string list \<Rightarrow> string list" where
  "snapshot al env = List.map_filter (\<lambda>n. map_option (\<lambda>v. n @ ''='' @ v) (getenv env n)) al"

text \<open>
  The mirror of the new environment in \<^verbatim>\<open>environ\<close>: a name ends at its first equals sign, and
  \<^verbatim>\<open>setenv\<close> refuses the empty name.
\<close>

definition mirror :: "string list \<Rightarrow> string list \<Rightarrow> string list" where
  "mirror snap env =
     fold (\<lambda>e env. if entry_name e = [] then env else setenv (entry_name e) (drop (length (entry_name e) + 1) e) env) snap env"

definition scrub_env :: "whost \<Rightarrow> bool \<Rightarrow> string list \<Rightarrow> wproc step" where
  "scrub_env h degraded al p =
     (let snap = snapshot al (wp_environ p)
      in if \<not> wh_clearenv h \<and> \<not> degraded then (False, p)
         else let env = (if wh_clearenv h then [] else wp_environ p)
              in if \<not> wh_setenv_path h \<and> \<not> degraded then (False, p\<lparr>wp_environ := env\<rparr>)
                 else (True, p\<lparr>wp_environ := mirror snap (if wh_setenv_path h then setenv ''PATH'' FIXED_PATH env else env), wp_envp := (''PATH='' @ FIXED_PATH) # snap\<rparr>))"

section \<open>The deny-list\<close>

definition DENY :: "string list" where
  "DENY = [''ptrace'', ''process_vm_readv'', ''process_vm_writev'', ''pidfd_getfd'', ''kcmp'', ''bpf'', ''perf_event_open'', ''userfaultfd'',
     ''keyctl'', ''add_key'', ''request_key'', ''open_by_handle_at'', ''name_to_handle_at'', ''mount'', ''umount2'', ''move_mount'',
     ''open_tree'', ''fsopen'', ''fsmount'', ''fsconfig'', ''fspick'', ''mount_setattr'']"

definition deny_numbers :: "target \<Rightarrow> int list" where
  "deny_numbers t = List.map_filter (nr_of t) DENY"

definition WRAPPER_AUDIT_ARCH :: u32 where "WRAPPER_AUDIT_ARCH = 0xC000003E"
definition WRAPPER_PR_SET_MM :: u32 where "WRAPPER_PR_SET_MM = 35"

definition RET_EPERM :: u32 where "RET_EPERM = SECCOMP_RET_ERRNO OR (EPERM_NO AND 0xFFFF)"

definition prctl_insns :: "target \<Rightarrow> sock_filter list" where
  "prctl_insns t =
     (case nr_of t ''prctl'' of
        None \<Rightarrow> []
      | Some nr \<Rightarrow>
          [BPF_JUMP BPF_JMP_JEQ_K (word_of_int nr) 0 3,
           BPF_STMT BPF_LD_W_ABS 16,
           BPF_JUMP BPF_JMP_JEQ_K WRAPPER_PR_SET_MM 0 1,
           BPF_STMT BPF_RET_K RET_EPERM,
           BPF_STMT BPF_LD_W_ABS 0])"

definition wrapper_prog :: "target \<Rightarrow> sock_filter list" where
  "wrapper_prog t =
     [BPF_STMT BPF_LD_W_ABS 4,
      BPF_JUMP BPF_JMP_JEQ_K WRAPPER_AUDIT_ARCH 1 0,
      BPF_STMT BPF_RET_K SECCOMP_RET_KILL_PROCESS,
      BPF_STMT BPF_LD_W_ABS 0]
     @ prctl_insns t @ rule_insns RET_EPERM (deny_numbers t) @ [BPF_STMT BPF_RET_K SECCOMP_RET_ALLOW]"

definition install_seccomp :: "whost \<Rightarrow> bool \<Rightarrow> wproc step" where
  "install_seccomp h degraded p =
     (let installed = (True, p\<lparr>wp_filter := Some (wrapper_prog (wh_target h))\<rparr>)
      in if wh_seccomp h = 0 then installed
         else if wh_seccomp h = ENOSYS then (if wh_prctl_seccomp h then installed else (degraded, p))
         else (degraded, p))"

section \<open>The command line\<close>

datatype build = Generic | Generated string "string list"  \<comment> \<open>target and names\<close>

record wopts =
  wo_degraded :: bool
  wo_verbose :: bool
  wo_actor :: "string option"
  wo_allow :: "string list"

fun generic_opts :: "wopts \<Rightarrow> string list \<Rightarrow> int + (wopts \<times> string list)" where
  "generic_opts w [] = Inr (w, [])"
| "generic_opts w (a # rest) =
     (if a = ''-h'' \<or> a = ''--help'' then Inl 0
      else if a = ''-v'' \<or> a = ''--verbose'' then generic_opts (w\<lparr>wo_verbose := True\<rparr>) rest
      else if a = ''--insecure-allow-degraded'' then generic_opts (w\<lparr>wo_degraded := True\<rparr>) rest
      else if a = ''--actor'' then
        (case rest of [] \<Rightarrow> Inl 127 | n # rest' \<Rightarrow> generic_opts (w\<lparr>wo_actor := Some n\<rparr>) rest')
      else if a = ''--allow-env'' then
        (case rest of
           [] \<Rightarrow> Inl 127
         | n # rest' \<Rightarrow>
             (case allow_add (wo_allow w) n of None \<Rightarrow> Inl 127 | Some al \<Rightarrow> generic_opts (w\<lparr>wo_allow := al\<rparr>) rest'))
      else if a = ''--'' then Inr (w, rest)
      else Inl 127)"

fun generated_opts :: "wopts \<Rightarrow> string list \<Rightarrow> wopts \<times> string list" where
  "generated_opts w [] = (w, [])"
| "generated_opts w (a # rest) =
     (if a = ''--insecure-allow-degraded'' then generated_opts (w\<lparr>wo_degraded := True\<rparr>) rest
      else if a = ''-v'' \<or> a = ''--verbose'' then generated_opts (w\<lparr>wo_verbose := True\<rparr>) rest
      else (w, a # rest))"

fun allow_all :: "string list \<Rightarrow> string list \<Rightarrow> string list option" where
  "allow_all al [] = Some al"
| "allow_all al (n # ns) = (case allow_add al n of None \<Rightarrow> None | Some al' \<Rightarrow> allow_all al' ns)"

definition base_name :: "string \<Rightarrow> string" where
  "base_name t = rev (takeWhile (\<lambda>c. c \<noteq> CHR ''/'') (rev t))"

definition wopts0 :: wopts where
  "wopts0 = \<lparr>wo_degraded = False, wo_verbose = False, wo_actor = None, wo_allow = []\<rparr>"

text \<open>The options, the target and the arguments of the target.\<close>

definition wrapper_cli :: "build \<Rightarrow> string list \<Rightarrow> int + (wopts \<times> string \<times> string list)" where
  "wrapper_cli b argv =
     (case b of
        Generated target names \<Rightarrow>
          (case generated_opts wopts0 argv of
             (w, args) \<Rightarrow>
               (case allow_all [] names of None \<Rightarrow> Inl 127 | Some al \<Rightarrow> Inr (w\<lparr>wo_allow := al\<rparr>, target, base_name target # args)))
      | Generic \<Rightarrow>
          (case generic_opts wopts0 argv of
             Inl r \<Rightarrow> Inl r
           | Inr (w, []) \<Rightarrow> Inl 127
           | Inr (w, target # args) \<Rightarrow>
               if char_at target 0 \<noteq> CHR ''/'' then Inl 127 else Inr (w, target, base_name target # args)))"

section \<open>The run\<close>

text \<open>The pinned target: its inode, when \<^verbatim>\<open>fstat\<close> finds it acceptable.\<close>

definition target_ok_stat :: "tstat \<Rightarrow> bool" where
  "target_ok_stat st \<longleftrightarrow>
     ts_mode st AND S_IFMT \<noteq> S_IFLNK \<and> ts_mode st AND S_IFMT = S_IFREG \<and> ts_size st \<noteq> 0 \<and>
     ts_mode st AND S_IWOTH = 0 \<and> ts_mode st AND S_IXUSR \<noteq> 0"

definition pin_target :: "whost \<Rightarrow> string \<Rightarrow> nat option" where
  "pin_target h target =
     (case wh_open h target of
        Some (ino, Some st) \<Rightarrow> if target_ok_stat st then Some ino else None
      | _ \<Rightarrow> None)"

definition wrapper_main :: "whost \<Rightarrow> build \<Rightarrow> string list \<Rightarrow> wproc \<Rightarrow> wresult \<times> wproc" where
  "wrapper_main h b argv p =
     (if wh_at_base h \<noteq> 0 then (W_exit 2, p)
      else case wrapper_cli b argv of
        Inl r \<Rightarrow> (W_exit r, p)
      | Inr (w, target, args) \<Rightarrow>
          (case wrapper_close_fds h p of
             (_, p1) \<Rightarrow>
               (case pin_target h target of
                  None \<Rightarrow> (W_exit 127, p1)
                | Some ino \<Rightarrow>
                    (case run_psteps [harden_prctl h (wo_degraded w), scrub_env h (wo_degraded w) (wo_allow w), install_seccomp h (wo_degraded w)] p1 of
                       (False, p2) \<Rightarrow> (W_exit 127, p2)
                     | (True, p2) \<Rightarrow> (if wh_exec h ino then W_exec ino args (wp_envp p2) else W_exit 127, p2)))))"

end
