(* ===== verification/Wrapper_Policy.thy ===== *)
theory Wrapper_Policy
  imports Actor_Wrapper
begin

text \<open>
  What the actor wrapper guarantees of the program it executes, and where its deny-list and its
  check of environment names end.
\<close>

section \<open>The steps\<close>

lemma harden_does:
  assumes "harden_prctl h g p = (True, p')"
  shows "wp_nnp p' \<and> wp_fds p' = wp_fds p \<and> wp_environ p' = wp_environ p \<and>
    (\<not> g \<longrightarrow> \<not> wp_dumpable p' \<and> (wp_ambient_clear p' \<or> wh_ambient h \<in> {EINVAL, ENOSYS}))"
  using assms by (cases g) (auto simp: harden_prctl_def set_undumpable_def set_nnp_def clear_ambient_def split: if_splits)

lemma scrub_does:
  assumes "scrub_env h g al p = (True, p')"
  shows "\<exists>e. p' = p\<lparr>wp_environ := e, wp_envp := (''PATH='' @ FIXED_PATH) # snapshot al (wp_environ p)\<rparr>"
  using assms by (auto simp: scrub_env_def Let_def split: if_splits)

lemma seccomp_does:
  assumes "install_seccomp h g p = (True, p')"
  shows "wp_fds p' = wp_fds p \<and> wp_dumpable p' = wp_dumpable p \<and> wp_nnp p' = wp_nnp p \<and> wp_ambient_clear p' = wp_ambient_clear p \<and>
    wp_envp p' = wp_envp p \<and> (\<not> g \<longrightarrow> wp_filter p' = Some (wrapper_prog (wh_target h)))"
  using assms by (auto simp: install_seccomp_def Let_def split: if_splits)

text \<open>The names a command line or a build allows have passed the check.\<close>

lemma allow_add_clean: "allow_add al n = Some al' \<Longrightarrow> list_all (\<lambda>n. \<not> env_is_dangerous n) al \<Longrightarrow> list_all (\<lambda>n. \<not> env_is_dangerous n) al'"
  by (auto simp: allow_add_def split: if_splits)

lemma allow_all_clean: "allow_all al ns = Some al' \<Longrightarrow> list_all (\<lambda>n. \<not> env_is_dangerous n) al \<Longrightarrow> list_all (\<lambda>n. \<not> env_is_dangerous n) al'"
proof (induction ns arbitrary: al)
  case (Cons n ns)
  then obtain a where "allow_add al n = Some a" "allow_all a ns = Some al'" by (auto split: option.splits)
  then show ?case using Cons.IH allow_add_clean Cons.prems(2) by blast
qed simp

lemma generic_opts_step:
  assumes "generic_opts w (a # args) = Inr (w', rest)"
  shows "(w', rest) = (w, args) \<or>
    (\<exists>v args'. generic_opts v args' = Inr (w', rest) \<and> length args' \<le> length args \<and>
       (wo_allow v = wo_allow w \<or> (\<exists>n. allow_add (wo_allow w) n = Some (wo_allow v))))"
proof -
  consider "a = ''-v'' \<or> a = ''--verbose''" | "a = ''--insecure-allow-degraded''" | "a = ''--actor''" | "a = ''--allow-env''" | "a = ''--''"
    using assms by (auto split: if_splits)
  then show ?thesis
  proof cases
    case 1
    then have "generic_opts (w\<lparr>wo_verbose := True\<rparr>) args = Inr (w', rest)" using assms by auto
    then show ?thesis by fastforce
  next
    case 2
    then have "generic_opts (w\<lparr>wo_degraded := True\<rparr>) args = Inr (w', rest)" using assms by simp
    then show ?thesis by fastforce
  next
    case 3
    then obtain n args' where "args = n # args'" "generic_opts (w\<lparr>wo_actor := Some n\<rparr>) args' = Inr (w', rest)"
      using assms by (auto split: list.splits)
    then show ?thesis by fastforce
  next
    case 4
    then obtain n args' al where "args = n # args'" "allow_add (wo_allow w) n = Some al" "generic_opts (w\<lparr>wo_allow := al\<rparr>) args' = Inr (w', rest)"
      using assms by (auto split: list.splits option.splits)
    then show ?thesis by fastforce
  next
    case 5
    then show ?thesis using assms by simp
  qed
qed

lemma generic_opts_clean:
  "generic_opts w args = Inr (w', rest) \<Longrightarrow> list_all (\<lambda>n. \<not> env_is_dangerous n) (wo_allow w) \<Longrightarrow>
   list_all (\<lambda>n. \<not> env_is_dangerous n) (wo_allow w')"
proof (induction "length args" arbitrary: w args rule: less_induct)
  case less
  show ?case
  proof (cases args)
    case Nil
    then show ?thesis using less.prems by simp
  next
    case (Cons a args0)
    show ?thesis using generic_opts_step [OF less.prems(1) [unfolded Cons]]
    proof (elim disjE exE conjE)
      assume "(w', rest) = (w, args0)"
      then show ?thesis using less.prems(2) by simp
    next
      fix v args' assume v: "generic_opts v args' = Inr (w', rest)" "length args' \<le> length args0" "wo_allow v = wo_allow w"
      show ?thesis by (rule less.hyps [OF _ v(1)]) (use v Cons less.prems(2) in auto)
    next
      fix v args' n assume v: "generic_opts v args' = Inr (w', rest)" "length args' \<le> length args0" "allow_add (wo_allow w) n = Some (wo_allow v)"
      show ?thesis by (rule less.hyps [OF _ v(1)]) (use v Cons less.prems(2) allow_add_clean in auto)
    qed
  qed
qed

lemma wrapper_cli_clean:
  "wrapper_cli b argv = Inr (w, target, args) \<Longrightarrow> list_all (\<lambda>n. \<not> env_is_dangerous n) (wo_allow w)"
proof (cases b)
  case Generic
  assume "wrapper_cli b argv = Inr (w, target, args)"
  then obtain w' rest where "generic_opts wopts0 argv = Inr (w', rest)" "w' = w"
    using Generic by (auto simp: wrapper_cli_def split: sum.splits list.splits if_splits)
  then show ?thesis using generic_opts_clean by (auto simp: wopts0_def)
next
  case (Generated t names)
  assume "wrapper_cli b argv = Inr (w, target, args)"
  then obtain al where "allow_all [] names = Some al" "wo_allow w = al"
    using Generated by (auto simp: wrapper_cli_def split: prod.splits option.splits)
  then show ?thesis using allow_all_clean by auto
qed

lemma wrapper_execs:
  assumes "wrapper_main h b argv p = (W_exec ino args env, p')"
  obtains w target p1 p2 where "wrapper_cli b argv = Inr (w, target, args)" "wh_at_base h = 0" "pin_target h target = Some ino"
    "harden_prctl h (wo_degraded w) (snd (wrapper_close_fds h p)) = (True, p1)"
    "scrub_env h (wo_degraded w) (wo_allow w) p1 = (True, p2)" "install_seccomp h (wo_degraded w) p2 = (True, p')" "env = wp_envp p'"
proof -
  have base: "wh_at_base h = 0" using assms by (auto simp: wrapper_main_def split: if_splits)
  obtain w target args' where c: "wrapper_cli b argv = Inr (w, target, args')"
    using assms base by (auto simp: wrapper_main_def split: sum.splits)
  obtain ino' where i: "pin_target h target = Some ino'"
    using assms base c by (auto simp: wrapper_main_def split: option.splits prod.splits)
  let ?ss = "[harden_prctl h (wo_degraded w), scrub_env h (wo_degraded w) (wo_allow w), install_seccomp h (wo_degraded w)]"
  obtain ok q where r: "run_psteps ?ss (snd (wrapper_close_fds h p)) = (ok, q)" by fastforce
  have e: "ok \<and> q = p' \<and> args' = args \<and> ino' = ino \<and> env = wp_envp p'"
    using assms base c i r by (cases ok) (auto simp: wrapper_main_def case_prod_beta simp del: run_psteps.simps split: if_splits)
  then have "run_psteps ?ss (snd (wrapper_close_fds h p)) = (True, p')" using r by simp
  then obtain p1 p2 where "harden_prctl h (wo_degraded w) (snd (wrapper_close_fds h p)) = (True, p1)"
    "scrub_env h (wo_degraded w) (wo_allow w) p1 = (True, p2)" "install_seccomp h (wo_degraded w) p2 = (True, p')"
    unfolding run_psteps_True by auto
  then show thesis using that [of w target p1 p2] base c i e by simp
qed

section \<open>The filter\<close>

lemma run_prctl:
  "run_filter d (prctl_insns t @ rest) (sd_nr d) =
     (if (case nr_of t ''prctl'' of Some nr \<Rightarrow> sd_nr d = word_of_int nr \<and> ucast (sd_arg0 d) = WRAPPER_PR_SET_MM | None \<Rightarrow> False)
      then Some RET_EPERM else run_filter d rest (sd_nr d))"
  by (simp add: prctl_insns_def load_abs_def split: option.splits)

lemma wrapper_verdict:
  "run_filter d (wrapper_prog t) a =
     Some (if sd_arch d \<noteq> WRAPPER_AUDIT_ARCH then SECCOMP_RET_KILL_PROCESS
           else if (case nr_of t ''prctl'' of Some nr \<Rightarrow> sd_nr d = word_of_int nr \<and> ucast (sd_arg0 d) = WRAPPER_PR_SET_MM | None \<Rightarrow> False)
             then RET_EPERM
           else if sd_nr d \<in> word_of_int ` set (deny_numbers t) then RET_EPERM
           else SECCOMP_RET_ALLOW)"
  by (simp add: wrapper_prog_def load_abs_def run_prctl run_rules)

section \<open>Environment names\<close>

lemma getenv_entry: "getenv env n = Some v \<Longrightarrow> n \<noteq> [] \<and> n @ ''='' @ v \<in> set env"
proof -
  assume g: "getenv env n = Some v"
  then obtain e where e: "List.find (has_prefix (n @ ''='')) env = Some e" "v = drop (length n + 1) e" "n \<noteq> []"
    by (auto simp: getenv_def split: if_splits)
  then have "e \<in> set env" "take (length n + 1) e = n @ ''=''" by (auto simp: find_Some_iff has_prefix_def)
  then show ?thesis using e by (metis append.assoc append_take_drop_id)
qed

lemma snapshot_entry: "e \<in> set (snapshot al env) \<longleftrightarrow> (\<exists>n v. n \<in> set al \<and> getenv env n = Some v \<and> e = n @ ''='' @ v)"
  by (force simp: snapshot_def List.map_filter_def)

lemma entry_name_plain: "CHR ''='' \<notin> set n \<Longrightarrow> entry_name (n @ ''='' @ v) = n"
  by (simp add: entry_name_def takeWhile_append2 takeWhile_append)

section \<open>A small system\<close>

definition demo_whost :: whost where
  "demo_whost =
     \<lparr>wh_at_base = 0, wh_target = \<lparr>nr_of = (\<lambda>n. if n = ''prctl'' then Some 157 else if n = ''mount'' then Some 165 else if n = ''bpf'' then Some 321 else None),
        x86_64 = True, audit_arch = 0xC000003E\<rparr>,
      wh_dumpable = True, wh_nnp = True, wh_ambient = 0, wh_close_range = True, wh_open_max = 1024,
      wh_open = (\<lambda>p. if p = ''/bin/app'' then Some (7, Some \<lparr>ts_mode = 0x81ED, ts_size = 4096\<rparr>) else None),
      wh_clearenv = True, wh_setenv_path = True, wh_seccomp = 0, wh_prctl_seccomp = True, wh_exec = (\<lambda>_. True)\<rparr>"

definition demo_wproc :: wproc where
  "demo_wproc = \<lparr>wp_fds = [0, 1, 2, 5], wp_dumpable = True, wp_nnp = False, wp_ambient_clear = False,
     wp_environ = [''PATH=/tmp'', ''LD_PRELOAD=/x.so='', ''LANG=C''], wp_envp = [], wp_filter = None\<rparr>"

definition smuggling_args :: "string list" where
  "smuggling_args = [''--allow-env'', ''LANG'', ''--allow-env'', ''LD_PRELOAD=/x.so'', ''--'', ''/bin/app'', ''-c'']"

lemma demo_wrapper_cli:
  "wrapper_cli Generic smuggling_args = Inr (wopts0\<lparr>wo_allow := [''LANG'', ''LD_PRELOAD=/x.so'']\<rparr>, ''/bin/app'', [''app'', ''-c''])"
  by code_simp

lemma demo_wrapper_run:
  "\<exists>p'. wrapper_main demo_whost Generic smuggling_args demo_wproc =
     (W_exec 7 [''app'', ''-c''] [''PATH='' @ FIXED_PATH, ''LANG=C'', ''LD_PRELOAD=/x.so=''], p')"
proof -
  have pin: "pin_target demo_whost ''/bin/app'' = Some 7" by code_simp
  have snap: "snapshot [''LANG'', ''LD_PRELOAD=/x.so''] (wp_environ demo_wproc) = [''LANG=C'', ''LD_PRELOAD=/x.so='']" by code_simp
  show ?thesis unfolding wrapper_main_def demo_wrapper_cli
    using pin snap by (simp add: wrapper_close_fds_def harden_prctl_def set_undumpable_def set_nnp_def clear_ambient_def scrub_env_def
        install_seccomp_def Let_def wopts0_def) (simp add: demo_whost_def)
qed

section \<open>Properties\<close>

text \<open>
  C10: an actor is executed only by a statically linked wrapper, from the inode that was opened and
  checked, with no-new-privs set, without inherited descriptors up to the limit and with the fixed
  path and the allowed variables as its whole environment; and unless degraded operation was
  asked for, it is not dumpable, its ambient capabilities are cleared where the kernel has them and
  the deny-list is installed.\<close>

theorem actor_exec_hardened:
  assumes "wrapper_main h b argv p = (W_exec ino args env, p')"
  shows "\<exists>w target. wrapper_cli b argv = Inr (w, target, args) \<and> wh_at_base h = 0 \<and>
    (\<exists>st. wh_open h target = Some (ino, Some st) \<and> target_ok_stat st) \<and> wp_nnp p' \<and>
    (\<forall>fd \<in> set (wp_fds p'). fd \<in> set (wp_fds p) \<and> (fd < 3 \<or> \<not> wh_close_range h \<and> open_max h \<le> fd)) \<and>
    env = (''PATH='' @ FIXED_PATH) # snapshot (wo_allow w) (wp_environ p) \<and>
    (\<not> wo_degraded w \<longrightarrow> \<not> wp_dumpable p' \<and> (wp_ambient_clear p' \<or> wh_ambient h \<in> {EINVAL, ENOSYS}) \<and>
       wp_filter p' = Some (wrapper_prog (wh_target h)))"
proof (rule wrapper_execs [OF assms])
  fix w target p1 p2
  assume c: "wrapper_cli b argv = Inr (w, target, args)" "wh_at_base h = 0" and i: "pin_target h target = Some ino"
    and s: "harden_prctl h (wo_degraded w) (snd (wrapper_close_fds h p)) = (True, p1)"
      "scrub_env h (wo_degraded w) (wo_allow w) p1 = (True, p2)" "install_seccomp h (wo_degraded w) p2 = (True, p')"
    and e: "env = wp_envp p'"
  have st: "\<exists>st. wh_open h target = Some (ino, Some st) \<and> target_ok_stat st"
    using i by (auto simp: pin_target_def split: option.splits prod.splits if_splits)
  note d = harden_does [OF s(1)] seccomp_does [OF s(3)]
  obtain x where x: "p2 = p1\<lparr>wp_environ := x, wp_envp := (''PATH='' @ FIXED_PATH) # snapshot (wo_allow w) (wp_environ p1)\<rparr>"
    using scrub_does [OF s(2)] by blast
  have "wp_environ (snd (wrapper_close_fds h p)) = wp_environ p" by (simp add: wrapper_close_fds_def)
  then have "env = (''PATH='' @ FIXED_PATH) # snapshot (wo_allow w) (wp_environ p)" using d x e by simp
  moreover have "\<forall>fd \<in> set (wp_fds p'). fd \<in> set (wp_fds p) \<and> (fd < 3 \<or> \<not> wh_close_range h \<and> open_max h \<le> fd)"
    using d x by (auto simp: wrapper_close_fds_def split: if_splits)
  ultimately show ?thesis using c st d x by (intro exI [of _ w] exI [of _ target]) auto
qed

text \<open>Witness: a generic wrapper that starts \<^verbatim>\<open>/bin/app\<close>.\<close>

theorem actor_exec_hardened_witness:
  "\<exists>p'. fst (wrapper_main demo_whost Generic smuggling_args demo_wproc) = W_exec 7 [''app'', ''-c''] [''PATH='' @ FIXED_PATH, ''LANG=C'', ''LD_PRELOAD=/x.so='']
     \<and> snd (wrapper_main demo_whost Generic smuggling_args demo_wproc) = p' \<and> wp_nnp p' \<and> wp_filter p' = Some (wrapper_prog (wh_target demo_whost))"
proof -
  obtain p' where r: "wrapper_main demo_whost Generic smuggling_args demo_wproc =
      (W_exec 7 [''app'', ''-c''] [''PATH='' @ FIXED_PATH, ''LANG=C'', ''LD_PRELOAD=/x.so=''], p')"
    using demo_wrapper_run by blast
  have "wp_nnp p' \<and> wp_filter p' = Some (wrapper_prog (wh_target demo_whost))"
    using actor_exec_hardened [OF r] by (auto simp: demo_wrapper_cli wopts0_def)
  then show ?thesis using r by simp
qed

text \<open>
  C11: a dangerous variable reaches an actor only through an allowed name that itself contains an
  equals sign: every other name has been checked against the list.  The witness is such a name:
  \<^verbatim>\<open>--allow-env LD_PRELOAD=/x.so\<close> passes the check and hands the caller's \<^verbatim>\<open>LD_PRELOAD\<close> to the
  actor.\<close>

theorem dangerous_names_need_equals:
  assumes "wrapper_main h b argv p = (W_exec ino args env, p')" and "e \<in> set env" and "env_is_dangerous (entry_name e)"
  shows "\<exists>w target n v. wrapper_cli b argv = Inr (w, target, args) \<and> n \<in> set (wo_allow w) \<and> \<not> env_is_dangerous n \<and>
    CHR ''='' \<in> set n \<and> e = n @ ''='' @ v \<and> e \<in> set (wp_environ p)"
proof (rule wrapper_execs [OF assms(1)])
  fix w target p1 p2
  assume c: "wrapper_cli b argv = Inr (w, target, args)"
    and s: "harden_prctl h (wo_degraded w) (snd (wrapper_close_fds h p)) = (True, p1)"
      "scrub_env h (wo_degraded w) (wo_allow w) p1 = (True, p2)" "install_seccomp h (wo_degraded w) p2 = (True, p')" and e: "env = wp_envp p'"
  have "wp_environ p1 = wp_environ p" using harden_does [OF s(1)] by (simp add: wrapper_close_fds_def)
  then have "env = (''PATH='' @ FIXED_PATH) # snapshot (wo_allow w) (wp_environ p)" using scrub_does [OF s(2)] seccomp_does [OF s(3)] e by auto
  moreover have "\<not> env_is_dangerous (entry_name (''PATH='' @ FIXED_PATH))" by code_simp
  ultimately have "e \<in> set (snapshot (wo_allow w) (wp_environ p))" using assms(2,3) by auto
  then obtain n v where n: "n \<in> set (wo_allow w)" "getenv (wp_environ p) n = Some v" "e = n @ ''='' @ v" unfolding snapshot_entry by blast
  have clean: "\<not> env_is_dangerous n" using wrapper_cli_clean [OF c] n(1) by (simp add: list_all_iff)
  have "CHR ''='' \<in> set n" by (rule ccontr) (use clean entry_name_plain [of n v] assms(3) n(3) in simp)
  then show ?thesis using c n clean getenv_entry [OF n(2)] by blast
qed

text \<open>Witness: the name \<^verbatim>\<open>LD_PRELOAD=/x.so\<close>, which is not on the list.\<close>

theorem dangerous_names_need_equals_witness:
  "\<exists>p' env. wrapper_main demo_whost Generic smuggling_args demo_wproc = (W_exec 7 [''app'', ''-c''] env, p') \<and>
     ''LD_PRELOAD=/x.so='' \<in> set env \<and> env_is_dangerous (entry_name ''LD_PRELOAD=/x.so='') \<and> \<not> env_is_dangerous ''LD_PRELOAD=/x.so''"
proof -
  obtain p' where r: "wrapper_main demo_whost Generic smuggling_args demo_wproc =
      (W_exec 7 [''app'', ''-c''] [''PATH='' @ FIXED_PATH, ''LANG=C'', ''LD_PRELOAD=/x.so=''], p')"
    using demo_wrapper_run by blast
  have d: "env_is_dangerous (entry_name ''LD_PRELOAD=/x.so='')" by code_simp
  obtain w target n v where "wrapper_cli Generic smuggling_args = Inr (w, target, [''app'', ''-c''])" "n \<in> set (wo_allow w)" "\<not> env_is_dangerous n"
    "''LD_PRELOAD=/x.so='' = n @ ''='' @ v"
    using dangerous_names_need_equals [OF r _ d] by auto
  moreover from this have "n = ''LD_PRELOAD=/x.so''" by (auto simp: demo_wrapper_cli)
  ultimately show ?thesis using r d by auto
qed

section \<open>Where the deny-list ends\<close>

lemma x32_number_fresh:
  assumes "0 \<le> nr" and "nr < 0x40000000" and "0 \<le> m" and "m < 0x40000000"
  shows "(word_of_int nr :: u32) OR X32_BIT \<noteq> word_of_int m"
proof
  assume eq: "(word_of_int nr :: u32) OR X32_BIT = word_of_int m"
  have "m div 2 ^ 30 = 0" using assms(3,4) by simp
  then have "\<not> bit m 30" unfolding bit_iff_odd by simp
  then have "\<not> bit (word_of_int m :: u32) 30" by (simp only: bit_word_of_int_iff) simp
  moreover have "bit (2 ^ 30 :: u32) 30" by (simp only: bit_exp_iff) simp
  then have "bit ((word_of_int nr :: u32) OR X32_BIT) 30" unfolding X32_BIT_def by (simp only: bit_or_iff) simp
  ultimately show False using eq by simp
qed

text \<open>Numbers below the x32 range, as every \<^verbatim>\<open>__NR_*\<close> of x86-64 is.\<close>

definition native_numbers :: "target \<Rightarrow> bool" where
  "native_numbers t \<longleftrightarrow> list_all (\<lambda>n. case nr_of t n of None \<Rightarrow> True | Some nr \<Rightarrow> 0 \<le> nr \<and> nr < 0x40000000) (''prctl'' # DENY)"

lemma deny_number: "native_numbers t \<Longrightarrow> nr \<in> set (deny_numbers t) \<Longrightarrow> 0 \<le> nr \<and> nr < 0x40000000"
  by (fastforce simp: native_numbers_def deny_numbers_def List.map_filter_def list_all_iff split: option.splits)

lemma prctl_number: "native_numbers t \<Longrightarrow> nr_of t ''prctl'' = Some nr \<Longrightarrow> 0 \<le> nr \<and> nr < 0x40000000"
  by (simp add: native_numbers_def)

text \<open>
  The wrapper's filter denies exactly the listed system calls and \<^verbatim>\<open>prctl(PR_SET_MM)\<close>, kills a
  foreign architecture and lets everything else through, so it lets every listed call through in
  its x32 numbering, which the filter of the launchers kills.\<close>

theorem x32_calls_not_denied:
  assumes "native_numbers t" and "nr \<in> set (deny_numbers t)" and "x86_64 t" and "audit_arch t = WRAPPER_AUDIT_ARCH"
    and "sd_nr d = word_of_int nr" and "sd_arch d = WRAPPER_AUDIT_ARCH"
  shows "run_filter d (wrapper_prog t) a = Some RET_EPERM \<and>
    run_filter (d\<lparr>sd_nr := sd_nr d OR X32_BIT\<rparr>) (wrapper_prog t) a = Some SECCOMP_RET_ALLOW \<and>
    seccomp_verdict t c (d\<lparr>sd_nr := sd_nr d OR X32_BIT\<rparr>) = SECCOMP_RET_KILL_PROCESS"
proof (intro conjI)
  note nr = deny_number [OF assms(1,2)]
  have fresh: "(word_of_int nr :: u32) OR X32_BIT \<noteq> word_of_int m" if "0 \<le> m \<and> m < 0x40000000" for m
    using x32_number_fresh nr that by blast
  show "run_filter d (wrapper_prog t) a = Some RET_EPERM" using assms(2,5,6) by (simp add: wrapper_verdict)
  have "(word_of_int nr :: u32) OR X32_BIT \<notin> word_of_int ` set (deny_numbers t)" using fresh deny_number [OF assms(1)] by blast
  moreover have "\<not> (case nr_of t ''prctl'' of Some m \<Rightarrow> (word_of_int nr :: u32) OR X32_BIT = word_of_int m \<and> (ucast (sd_arg0 d) :: u32) = WRAPPER_PR_SET_MM | None \<Rightarrow> False)"
    using fresh prctl_number [OF assms(1)] by (auto split: option.splits)
  ultimately show "run_filter (d\<lparr>sd_nr := sd_nr d OR X32_BIT\<rparr>) (wrapper_prog t) a = Some SECCOMP_RET_ALLOW"
    unfolding wrapper_verdict using assms(5,6) by (auto split: option.splits)
  have "((word_of_int nr :: u32) OR X32_BIT) AND X32_BIT = X32_BIT" by (simp add: and.commute)
  moreover have "X32_BIT \<noteq> 0" by (simp add: X32_BIT_def)
  ultimately show "seccomp_verdict t c (d\<lparr>sd_nr := sd_nr d OR X32_BIT\<rparr>) = SECCOMP_RET_KILL_PROCESS"
    using assms(3-6) by (simp add: seccomp_verdict_def)
qed

text \<open>Witness: \<^verbatim>\<open>bpf\<close>, 321 on x86-64.\<close>

theorem x32_calls_not_denied_witness:
  "run_filter \<lparr>sd_nr = 321, sd_arch = WRAPPER_AUDIT_ARCH, sd_arg0 = 0\<rparr> (wrapper_prog (wh_target demo_whost)) 0 = Some RET_EPERM \<and>
   run_filter \<lparr>sd_nr = 321 OR X32_BIT, sd_arch = WRAPPER_AUDIT_ARCH, sd_arg0 = 0\<rparr> (wrapper_prog (wh_target demo_whost)) 0 = Some SECCOMP_RET_ALLOW"
proof -
  let ?t = "wh_target demo_whost"
  have "native_numbers ?t" "321 \<in> set (deny_numbers ?t)" by code_simp+
  moreover have "x86_64 ?t" "audit_arch ?t = WRAPPER_AUDIT_ARCH" by (simp_all add: demo_whost_def WRAPPER_AUDIT_ARCH_def)
  ultimately show ?thesis using x32_calls_not_denied [of ?t 321 "\<lparr>sd_nr = 321, sd_arch = WRAPPER_AUDIT_ARCH, sd_arg0 = 0\<rparr>" 0 empty_config] by simp
qed

end
