(* ===== verification/Pin_Lifecycle.thy ===== *)
theory Pin_Lifecycle
  imports Seal_Loader
begin

text \<open>
  How a policy is made persistent and removed again (\<^verbatim>\<open>src/compartment-bpf/compartment-bpf.c\<close>,
  \<^verbatim>\<open>--pin\<close> and \<^verbatim>\<open>--unpin\<close>): the pin tree under \<^verbatim>\<open>/sys/fs/bpf/compartment\<close>, the sentinel that guards its
  removal by a passphrase, the self-protection maps, the lock, the roll-backs and the wait for
  the kernel to release the programs.  The state is the pin tree with the maps of its programs; a
  pin directory is the list of its entries, and a link pin has the id of its program.  An
  operation returns its result and the list of the changes it made, in order, so that the state
  after every prefix of them is a state in which the process can be killed.  What the kernel and
  \<^verbatim>\<open>libsodium\<close> answer is a parameter; the lock is held for the whole of an action, so actions do not
  interleave.
\<close>

section \<open>State, changes and host\<close>

definition PIN_ROOT :: string where "PIN_ROOT = ''/sys/fs/bpf/compartment''"
definition SENTINEL_PATH :: string where "SENTINEL_PATH = ''/run/compartment-bpf/unpin-sentinel''"
definition EROFS :: nat where "EROFS = 30"
definition BPF_FS_MAGIC :: nat where "BPF_FS_MAGIC = 0xcafe4a11"

record pinfs =
  pf_links_dir :: bool                          \<comment> \<open>the directories exist\<close>
  pf_maps_dir :: bool
  pf_links :: "(string \<times> nat) list"
  pf_maps :: "string list"
  pf_sentinel :: "(bool \<times> string) option"        \<comment> \<open>type, owner and mode are right; the contents\<close>
  pf_kernel :: maps                             \<comment> \<open>the maps of the pinned programs\<close>

datatype effect =
    Made_dir string
  | Pinned_link string nat
  | Pinned_map string
  | Unlinked_link string
  | Unlinked_map string
  | Made_sentinel bool
  | Wrote_sentinel string
  | Removed_sentinel
  | Set_maps maps

fun apply_effect :: "effect \<Rightarrow> pinfs \<Rightarrow> pinfs" where
  "apply_effect (Made_dir d) s =
     (if d = PIN_ROOT @ ''/links'' then s\<lparr>pf_links_dir := True\<rparr>
      else if d = PIN_ROOT @ ''/maps'' then s\<lparr>pf_maps_dir := True\<rparr> else s)"
| "apply_effect (Pinned_link n i) s = s\<lparr>pf_links := pf_links s @ [(n, i)]\<rparr>"
| "apply_effect (Pinned_map n) s = s\<lparr>pf_maps := pf_maps s @ [n]\<rparr>"
| "apply_effect (Unlinked_link n) s = s\<lparr>pf_links := filter (\<lambda>e. fst e \<noteq> n) (pf_links s)\<rparr>"
| "apply_effect (Unlinked_map n) s = s\<lparr>pf_maps := filter (\<lambda>m. m \<noteq> n) (pf_maps s)\<rparr>"
| "apply_effect (Made_sentinel right) s = s\<lparr>pf_sentinel := Some (right, [])\<rparr>"
| "apply_effect (Wrote_sentinel c) s = s\<lparr>pf_sentinel := map_option (\<lambda>(right, _). (right, c)) (pf_sentinel s)\<rparr>"
| "apply_effect Removed_sentinel s = s\<lparr>pf_sentinel := None\<rparr>"
| "apply_effect (Set_maps M) s = s\<lparr>pf_kernel := M\<rparr>"

definition after :: "effect list \<Rightarrow> pinfs \<Rightarrow> pinfs" where "after = fold apply_effect"

datatype ftype = F_dir | F_reg | F_other

record phost =
  ph_statfs :: "nat option"                     \<comment> \<open>the file system type of \<^verbatim>\<open>/sys/fs/bpf\<close>\<close>
  ph_mkdir :: "string \<Rightarrow> nat"                    \<comment> \<open>\<^verbatim>\<open>errno\<close> of \<^verbatim>\<open>mkdir\<close>, 0 for success\<close>
  ph_isdir :: "string \<Rightarrow> bool option"            \<comment> \<open>\<^verbatim>\<open>stat\<close>: whether it is a directory\<close>
  ph_attached :: "string \<Rightarrow> nat option"          \<comment> \<open>the program of an attached link\<close>
  ph_pin :: "string \<Rightarrow> bool"                     \<comment> \<open>a pin at a free path succeeds\<close>
  ph_obj_get :: "string \<Rightarrow> nat"                  \<comment> \<open>\<^verbatim>\<open>errno\<close> of \<^verbatim>\<open>bpf_obj_get\<close> at a pin, 0 for success\<close>
  ph_obj_info :: "string \<Rightarrow> bool"
  ph_unlink :: "string \<Rightarrow> bool"
  ph_opendir :: "string \<Rightarrow> bool"
  ph_lock_open :: "nat \<times> bool"                  \<comment> \<open>\<^verbatim>\<open>errno\<close> for the lock file, and whether the fallback opens\<close>
  ph_flock :: bool
  ph_load :: "maps option"                      \<comment> \<open>the maps once the object and the profile are loaded\<close>
  ph_attach :: bool                             \<comment> \<open>the freeze, the attachment and the ring buffer\<close>
  ph_aborted :: "nat \<Rightarrow> bool"                    \<comment> \<open>a signal before the first and the second check\<close>
  ph_env_pass :: "string option"
  ph_malloc :: bool
  ph_tty :: bool
  ph_getpass :: "string option"
  ph_sodium :: bool
  ph_sentinel_dir :: bool
  ph_pwhash :: "string \<Rightarrow> string option"
  ph_pwverify :: "string \<Rightarrow> string \<Rightarrow> bool"
  ph_sentinel_create :: bool
  ph_sentinel_write :: bool
  ph_sentinel_stat :: "bool option"             \<comment> \<open>of the new file: type, owner and mode are right\<close>
  ph_sentinel_read :: bool
  ph_realpath :: "string \<Rightarrow> nat + string"
  ph_lstat :: "string \<Rightarrow> ftype option"
  ph_prog_errno :: "nat \<Rightarrow> nat \<Rightarrow> nat"            \<comment> \<open>of a program id at a time in milliseconds\<close>
  ph_binary :: "string \<Rightarrow> (ustat \<times> u32) option option"  \<comment> \<open>\<^verbatim>\<open>open\<close>, \<^verbatim>\<open>fstat\<close> with the owner\<close>
  ph_successors :: "string list"                \<comment> \<open>\<^verbatim>\<open>--authorize-loader\<close>\<close>
  ph_self_protect :: bool
  ph_map_ids :: "(u32 option) option list"      \<comment> \<open>of the loaded maps of the object; \<^term>\<open>Some None\<close> without info\<close>
  ph_map_id_update :: "u32 \<Rightarrow> bool"
  ph_update :: "inode_key \<Rightarrow> bool"
  ph_cfg_update :: bool
  ph_freeze :: bool
  ph_pin_root_stat :: "ustat option"
  ph_stat :: "string \<Rightarrow> nat + u64"               \<comment> \<open>\<^verbatim>\<open>errno\<close>, or the inode number\<close>

section \<open>Names\<close>

definition KNOWN_LINK_NAMES :: "string list" where
  "KNOWN_LINK_NAMES =
     [''comp_inode_unlink'', ''comp_inode_rename'', ''comp_inode_rmdir'', ''comp_inode_create'', ''comp_inode_mkdir'', ''comp_inode_mknod'',
      ''comp_inode_symlink'', ''comp_inode_link'', ''comp_file_open'', ''comp_file_permission'', ''comp_file_truncate'', ''comp_inode_setattr'',
      ''comp_mmap_file'', ''comp_file_mprotect'', ''comp_inode_setxattr'', ''comp_inode_removexattr'', ''comp_bprm_committed_creds'',
      ''comp_bprm_check_security'', ''comp_task_alloc'', ''comp_task_prctl'', ''comp_ptrace_access_check'', ''comp_ptrace_traceme'',
      ''comp_inode_set_acl'', ''comp_inode_remove_acl'', ''comp_file_ioctl'', ''comp_file_ioctl_compat'', ''comp_sb_mount'', ''comp_sb_umount'',
      ''comp_move_mount'', ''comp_bpf_map'']"

definition KNOWN_MAP_NAMES :: "string list" where
  "KNOWN_MAP_NAMES =
     [''sealed_inodes'', ''sealed_dirs'', ''sealed_devs'', ''audit_rb'', ''deny_total'', ''audit_drop_total'', ''actor_mismatch_total'',
      ''launcher_to_actor'', ''actor_marker_map'', ''policy_state_map'', ''abi_version_map'', ''strict_launch_missing_total'',
      ''strict_launch_allowed_total'', ''marker_set_total'', ''marker_set_fail_total'', ''marker_clear_foreign_exec_total'',
      ''marker_copy_fork_total'', ''marker_stale_generation_total'', ''prctl_set_mm_exe_file_denied_total'', ''ptrace_access_denied_total'',
      ''ptrace_traceme_denied_total'', ''bpf_self_denied_total'', ''pin_tamper_denied_total'']"

text \<open>The pins of \<^verbatim>\<open>pin_links\<close>, in its order; two only when their link is attached.\<close>

definition pin_names :: "phost \<Rightarrow> string list" where
  "pin_names h =
     [''comp_inode_unlink'', ''comp_inode_rename'', ''comp_inode_rmdir'', ''comp_inode_create'', ''comp_inode_mkdir'', ''comp_inode_mknod'',
      ''comp_inode_symlink'', ''comp_inode_link'', ''comp_file_open'', ''comp_file_permission'', ''comp_file_truncate'', ''comp_inode_setattr'',
      ''comp_mmap_file'', ''comp_file_mprotect'', ''comp_inode_setxattr'', ''comp_inode_removexattr'', ''comp_bprm_committed_creds'',
      ''comp_task_alloc'', ''comp_task_prctl'', ''comp_ptrace_access_check'', ''comp_ptrace_traceme'',
      ''comp_inode_set_acl'', ''comp_inode_remove_acl'', ''comp_file_ioctl''] @
     (if ph_attached h ''comp_file_ioctl_compat'' \<noteq> None then [''comp_file_ioctl_compat''] else []) @
     [''comp_sb_mount'', ''comp_sb_umount'', ''comp_move_mount''] @
     (if ph_attached h ''comp_bpf_map'' \<noteq> None then [''comp_bpf_map''] else [])"

definition counter_names :: "string list" where
  "counter_names =
     [''deny_total'', ''audit_drop_total'', ''actor_mismatch_total'', ''strict_launch_missing_total'', ''strict_launch_allowed_total'',
      ''marker_set_total'', ''marker_set_fail_total'', ''marker_clear_foreign_exec_total'', ''marker_copy_fork_total'',
      ''marker_stale_generation_total'', ''prctl_set_mm_exe_file_denied_total'', ''ptrace_access_denied_total'', ''ptrace_traceme_denied_total'',
      ''bpf_self_denied_total'', ''pin_tamper_denied_total'', ''launcher_to_actor'', ''policy_state_map'', ''abi_version_map'']"

definition link_path :: "string \<Rightarrow> string" where "link_path n = PIN_ROOT @ ''/links/'' @ n"
definition map_path :: "string \<Rightarrow> string" where "map_path n = PIN_ROOT @ ''/maps/'' @ n"

section \<open>Pinning\<close>

text \<open>\<^verbatim>\<open>inode_setattr\<close> is attached in one of two variants and pinned under one name.\<close>

definition attached_prog :: "phost \<Rightarrow> string \<Rightarrow> nat option" where
  "attached_prog h n =
     (if n = ''comp_inode_setattr''
      then (case ph_attached h ''comp_inode_setattr'' of Some i \<Rightarrow> Some i | None \<Rightarrow> ph_attached h ''comp_inode_setattr_legacy'')
      else ph_attached h n)"

definition ensure_bpffs :: "phost \<Rightarrow> bool" where
  "ensure_bpffs h = (case ph_statfs h of None \<Rightarrow> False | Some f_type \<Rightarrow> f_type = BPF_FS_MAGIC)"

definition ensure_dir :: "phost \<Rightarrow> string \<Rightarrow> bool \<times> effect list" where
  "ensure_dir h path =
     (if ph_mkdir h path \<noteq> 0 \<and> ph_mkdir h path \<noteq> EEXIST then (False, [])
      else let es = (if ph_mkdir h path = 0 \<or> ph_isdir h path = Some True then [Made_dir path] else [])
           in (ph_isdir h path = Some True, es))"

definition pin_one_link :: "phost \<Rightarrow> string \<Rightarrow> pinfs \<Rightarrow> effect option" where
  "pin_one_link h n s =
     (case attached_prog h n of
        None \<Rightarrow> None
      | Some i \<Rightarrow>
          if n \<in> fst ` set (pf_links s) then None
          else if \<not> ph_pin h (link_path n) then None
          else Some (Pinned_link n i))"

definition pin_one_map :: "phost \<Rightarrow> string \<Rightarrow> pinfs \<Rightarrow> effect option" where
  "pin_one_map h n s =
     (if n \<in> set (pf_maps s) then None
      else if \<not> ph_pin h (map_path n) then None
      else Some (Pinned_map n))"

text \<open>Pins in a row; whether all were made, the names done so far and the changes.\<close>

fun pin_each :: "(string \<Rightarrow> pinfs \<Rightarrow> effect option) \<Rightarrow> string list \<Rightarrow> pinfs \<Rightarrow> bool \<times> string list \<times> effect list" where
  "pin_each f [] s = (True, [], [])"
| "pin_each f (n # ns) s =
     (case f n s of
        None \<Rightarrow> (False, [], [])
      | Some e \<Rightarrow> (case pin_each f ns (apply_effect e s) of (ok, pinned, es) \<Rightarrow> (ok, n # pinned, e # es)))"

text \<open>The roll-backs: an \<^verbatim>\<open>unlink\<close> that fails is only reported.\<close>

definition unlink_pinned_links :: "phost \<Rightarrow> string list \<Rightarrow> effect list" where
  "unlink_pinned_links h ns = map Unlinked_link (filter (\<lambda>n. ph_unlink h (link_path n)) ns)"

definition unlink_pinned_maps :: "phost \<Rightarrow> string list \<Rightarrow> effect list" where
  "unlink_pinned_maps h ns = map Unlinked_map (filter (\<lambda>n. ph_unlink h (map_path n)) ns)"

definition pin_links :: "phost \<Rightarrow> pinfs \<Rightarrow> bool \<times> effect list" where
  "pin_links h s =
     (if \<not> ensure_bpffs h then (False, [])
      else case ensure_dir h PIN_ROOT of
        (False, es) \<Rightarrow> (False, es)
      | (True, es) \<Rightarrow>
          (case ensure_dir h (PIN_ROOT @ ''/links'') of
             (False, es1) \<Rightarrow> (False, es @ es1)
           | (True, es1) \<Rightarrow>
               (case pin_each (pin_one_link h) (pin_names h) s of
                  (True, pinned, es2) \<Rightarrow> (True, es @ es1 @ es2)
                | (False, pinned, es2) \<Rightarrow> (False, es @ es1 @ es2 @ unlink_pinned_links h pinned))))"

definition pin_counter_maps :: "phost \<Rightarrow> pinfs \<Rightarrow> bool \<times> effect list" where
  "pin_counter_maps h s =
     (case ensure_dir h (PIN_ROOT @ ''/maps'') of
        (False, es) \<Rightarrow> (False, es)
      | (True, es) \<Rightarrow>
          (case pin_each (pin_one_map h) counter_names s of
             (True, pinned, es1) \<Rightarrow> (True, es @ es1)
           | (False, pinned, es1) \<Rightarrow> (False, es @ es1 @ unlink_pinned_maps h pinned)))"

text \<open>\<^verbatim>\<open>bpf_obj_get\<close>: \<^verbatim>\<open>ENOENT\<close> where there is no pin.\<close>

definition link_errno :: "phost \<Rightarrow> pinfs \<Rightarrow> string \<Rightarrow> nat" where
  "link_errno h s n = (if n \<in> fst ` set (pf_links s) then ph_obj_get h (link_path n) else ENOENT)"

definition pin_tree_exists :: "phost \<Rightarrow> pinfs \<Rightarrow> bool" where
  "pin_tree_exists h s \<longleftrightarrow> list_ex (\<lambda>n. link_errno h s n = 0 \<or> link_errno h s n \<noteq> ENOENT) KNOWN_LINK_NAMES"

section \<open>The sentinel\<close>

definition ed11_read_passphrase :: "phost \<Rightarrow> string option" where
  "ed11_read_passphrase h =
     (case ph_env_pass h of
        Some env \<Rightarrow>
          if env \<noteq> [] then (if length env > 4096 then None else if \<not> ph_malloc h then None else Some env)
          else if \<not> ph_tty h then None
          else (case ph_getpass h of None \<Rightarrow> None | Some p \<Rightarrow> if \<not> ph_malloc h then None else Some p)
      | None \<Rightarrow>
          if \<not> ph_tty h then None
          else (case ph_getpass h of None \<Rightarrow> None | Some p \<Rightarrow> if \<not> ph_malloc h then None else Some p))"

definition ed11_unpin_sentinel_unlink :: "phost \<Rightarrow> effect list" where
  "ed11_unpin_sentinel_unlink h = (if ph_unlink h SENTINEL_PATH then [Removed_sentinel] else [])"

definition ed11_write_sentinel :: "phost \<Rightarrow> string \<Rightarrow> pinfs \<Rightarrow> bool \<times> effect list" where
  "ed11_write_sentinel h pass s =
     (if \<not> ph_sodium h then (False, [])
      else if \<not> ph_sentinel_dir h then (False, [])
      else if pf_sentinel s \<noteq> None \<and> \<not> ph_unlink h SENTINEL_PATH then (False, [])
      else case ph_pwhash h pass of
        None \<Rightarrow> (False, [Removed_sentinel])
      | Some hash \<Rightarrow>
          if \<not> ph_sentinel_create h then (False, [Removed_sentinel])
          else let made = [Removed_sentinel, Made_sentinel (ph_sentinel_stat h = Some True)]
               in if \<not> ph_sentinel_write h then (False, made @ ed11_unpin_sentinel_unlink h)
                  else if ph_sentinel_stat h \<noteq> Some True
                  then (False, made @ [Wrote_sentinel hash] @ ed11_unpin_sentinel_unlink h)
                  else (True, made @ [Wrote_sentinel hash]))"

definition ed11_pin_maybe_write_sentinel :: "phost \<Rightarrow> pinfs \<Rightarrow> bool \<times> effect list" where
  "ed11_pin_maybe_write_sentinel h s =
     (case ed11_read_passphrase h of
        None \<Rightarrow> (True, [])
      | Some pass \<Rightarrow> if pass = [] then (True, []) else ed11_write_sentinel h pass s)"

text \<open>The gate of \<^verbatim>\<open>--unpin\<close>; the buffer holds 127 characters of the contents.\<close>

definition ed11_unpin_authgate :: "phost \<Rightarrow> pinfs \<Rightarrow> bool" where
  "ed11_unpin_authgate h s =
     (case pf_sentinel s of
        None \<Rightarrow> True
      | Some (right, contents) \<Rightarrow>
          ph_sentinel_read h \<and> right \<and> ph_sodium h \<and> contents \<noteq> [] \<and>
          (case ed11_read_passphrase h of None \<Rightarrow> False | Some pass \<Rightarrow> ph_pwverify h (take 127 contents) pass))"

section \<open>Self-protection\<close>

definition resolve_binary_key :: "phost \<Rightarrow> string \<Rightarrow> inode_key option" where
  "resolve_binary_key h path =
     (case ph_binary h path of
        Some (Some (st, uid)) \<Rightarrow>
          if \<not> s_isreg st then None
          else if uid \<noteq> 0 then None
          else if us_mode st AND (S_IWOTH OR S_IWGRP) \<noteq> 0 then None
          else map_option (\<lambda>dev. \<lparr>ik_dev = dev, ik_ino = us_ino st\<rparr>) (kernel_dev st)
      | _ \<Rightarrow> None)"

text \<open>An update fails when the map is full.\<close>

definition COMPARTMENT_MAX_LOADER_IDS :: nat where "COMPARTMENT_MAX_LOADER_IDS = 8"

definition add_loader :: "phost \<Rightarrow> string \<Rightarrow> inode_key list \<Rightarrow> inode_key list option" where
  "add_loader h path ks =
     (case resolve_binary_key h path of
        None \<Rightarrow> None
      | Some k \<Rightarrow>
          if \<not> ph_update h k then None
          else if k \<in> set ks then Some ks
          else if length ks \<ge> COMPARTMENT_MAX_LOADER_IDS then None else Some (ks @ [k]))"

fun add_loaders :: "phost \<Rightarrow> string list \<Rightarrow> inode_key list \<Rightarrow> inode_key list option" where
  "add_loaders h [] ks = Some ks"
| "add_loaders h (p # ps) ks = (case add_loader h p ks of None \<Rightarrow> None | Some ks' \<Rightarrow> add_loaders h ps ks')"

text \<open>The ids of the loaded maps of the object.\<close>

fun add_map_ids :: "phost \<Rightarrow> (u32 option) option list \<Rightarrow> (u32 \<rightharpoonup> u8) \<Rightarrow> (u32 \<rightharpoonup> u8) option" where
  "add_map_ids h [] ids = Some ids"
| "add_map_ids h (m # ms) ids =
     (case m of
        None \<Rightarrow> add_map_ids h ms ids
      | Some None \<Rightarrow> None
      | Some (Some i) \<Rightarrow> if \<not> ph_map_id_update h i then None else add_map_ids h ms (ids(i \<mapsto> 1)))"

definition self_protect_populate_early :: "phost \<Rightarrow> maps \<Rightarrow> maps option" where
  "self_protect_populate_early h M =
     (if \<not> ph_self_protect h then Some M
      else case add_loaders h (''/proc/self/exe'' # ph_successors h) [] of
        None \<Rightarrow> None
      | Some ks \<Rightarrow>
          (case add_map_ids h (ph_map_ids h) (protected_map_ids M) of
             None \<Rightarrow> None
           | Some ids \<Rightarrow>
               if \<not> ph_cfg_update h then None
               else Some (M\<lparr>loader_ids := (\<lambda>k. if k \<in> set ks then Some 1 else loader_ids M k),
                            protected_map_ids := ids,
                            self_protect_cfg_map := Some \<lparr>sp_pin_dev = 0, sp_enabled = 1\<rparr>\<rparr>)))"

text \<open>The paths of phase 2 with whether their absence is tolerated.\<close>

definition protect_paths :: "(string \<times> bool) list" where
  "protect_paths =
     [(''/sys/fs/bpf'', False), (PIN_ROOT, False), (PIN_ROOT @ ''/links'', False), (PIN_ROOT @ ''/maps'', False)] @
     map (\<lambda>n. (link_path n, True)) KNOWN_LINK_NAMES @ map (\<lambda>n. (map_path n, True)) KNOWN_MAP_NAMES"

text \<open>What a failing step has already written stays in the maps.\<close>

fun protect_each :: "phost \<Rightarrow> u64 \<Rightarrow> (string \<times> bool) list \<Rightarrow> maps \<Rightarrow> bool \<times> maps" where
  "protect_each h dev [] M = (True, M)"
| "protect_each h dev ((path, optional) # ps) M =
     (case ph_stat h path of
        Inl e \<Rightarrow> if optional \<and> e = ENOENT then protect_each h dev ps M else (False, M)
      | Inr ino \<Rightarrow>
          let k = \<lparr>ik_dev = dev, ik_ino = ino\<rparr>
          in if \<not> ph_update h k then (False, M) else protect_each h dev ps (M\<lparr>protected_pins := (protected_pins M)(k \<mapsto> 1)\<rparr>))"

definition pin_root_dev :: "phost \<Rightarrow> u64 option" where
  "pin_root_dev h = (case ph_pin_root_stat h of None \<Rightarrow> None | Some st \<Rightarrow> kernel_dev st)"

definition self_protect_record_pins :: "phost \<Rightarrow> maps \<Rightarrow> bool \<times> maps" where
  "self_protect_record_pins h M =
     (if \<not> ph_self_protect h then (True, M)
      else case pin_root_dev h of
        None \<Rightarrow> (False, M)
      | Some dev \<Rightarrow>
          (case protect_each h dev protect_paths M of
             (False, M') \<Rightarrow> (False, M')
           | (True, M') \<Rightarrow>
               if \<not> ph_cfg_update h then (False, M')
               else (ph_freeze h, M'\<lparr>self_protect_cfg_map := Some \<lparr>sp_pin_dev = dev, sp_enabled = 1\<rparr>\<rparr>)))"

section \<open>Removal\<close>

text \<open>The names removed, and whether the sweep went through: it stops at the first failing \<^verbatim>\<open>unlinkat\<close>.\<close>

fun sweep_known :: "(string \<Rightarrow> bool) \<Rightarrow> string list \<Rightarrow> string list \<Rightarrow> bool \<times> string list" where
  "sweep_known unlinks table [] = (True, [])"
| "sweep_known unlinks table (n # ns) =
     (if n \<notin> set table then sweep_known unlinks table ns
      else if \<not> unlinks n then (False, [])
      else (case sweep_known unlinks table ns of (ok, removed) \<Rightarrow> (ok, n # removed)))"

definition sweep_links :: "phost \<Rightarrow> pinfs \<Rightarrow> bool \<times> effect list" where
  "sweep_links h s =
     (if \<not> pf_links_dir s then (True, [])
      else if \<not> ph_opendir h (PIN_ROOT @ ''/links'') then (False, [])
      else case sweep_known (\<lambda>n. ph_unlink h (link_path n)) KNOWN_LINK_NAMES (map fst (pf_links s)) of
        (ok, removed) \<Rightarrow> (ok, map Unlinked_link removed))"

definition sweep_maps :: "phost \<Rightarrow> pinfs \<Rightarrow> bool \<times> effect list" where
  "sweep_maps h s =
     (if \<not> pf_maps_dir s then (True, [])
      else if \<not> ph_opendir h (PIN_ROOT @ ''/maps'') then (False, [])
      else case sweep_known (\<lambda>n. ph_unlink h (map_path n)) KNOWN_MAP_NAMES (pf_maps s) of
        (ok, removed) \<Rightarrow> (ok, map Unlinked_map removed))"

datatype resolved = Nothing_to_do | Refused | Hard_error | Candidate string string

definition unpin_resolve :: "phost \<Rightarrow> string option \<Rightarrow> resolved" where
  "unpin_resolve h requested =
     (case ph_realpath h PIN_ROOT of
        Inl e \<Rightarrow> if e = ENOENT then Nothing_to_do else Hard_error
      | Inr root \<Rightarrow>
          if length root \<ge> PATH_MAX then Hard_error
          else case requested of
            None \<Rightarrow> Candidate root root
          | Some req \<Rightarrow>
              if char_at req 0 \<noteq> CHR ''/'' then Refused
              else case ph_realpath h req of
                Inl e \<Rightarrow> Refused
              | Inr cand \<Rightarrow>
                  if length cand \<ge> PATH_MAX then Hard_error
                  else if cand = root then Candidate root cand
                  else if has_prefix root cand \<and> char_at cand (length root) = CHR ''/'' then Candidate root cand
                  else Refused)"

text \<open>The ids of the programs behind the link pins, without repetition; the array has 64 places.\<close>

fun collect_ids :: "phost \<Rightarrow> pinfs \<Rightarrow> string \<Rightarrow> string list \<Rightarrow> nat list \<Rightarrow> nat list option" where
  "collect_ids h s dir [] ids = Some ids"
| "collect_ids h s dir (n # ns) ids =
     (if length dir + 1 + length n \<ge> PATH_MAX then None
      else if link_errno h s n = ENOENT then collect_ids h s dir ns ids
      else if link_errno h s n \<noteq> 0 then None
      else if \<not> ph_obj_info h (link_path n) then None
      else case map_of (pf_links s) n of
        None \<Rightarrow> None
      | Some i \<Rightarrow>
          if i = 0 \<or> i \<in> set ids then collect_ids h s dir ns ids
          else if length ids \<ge> 64 then None
          else collect_ids h s dir ns (ids @ [i]))"

definition collect_link_prog_ids :: "phost \<Rightarrow> pinfs \<Rightarrow> string \<Rightarrow> nat list option" where
  "collect_link_prog_ids h s dir = collect_ids h s dir KNOWN_LINK_NAMES []"

text \<open>One poll: an error, or how many programs are still there.\<close>

fun poll_programs :: "phost \<Rightarrow> nat \<Rightarrow> nat list \<Rightarrow> nat option" where
  "poll_programs h t [] = Some 0"
| "poll_programs h t (i # ids) =
     (if ph_prog_errno h t i = ENOENT then poll_programs h t ids
      else if ph_prog_errno h t i \<noteq> 0 then None
      else map_option Suc (poll_programs h t ids))"

function wait_program_drain :: "phost \<Rightarrow> nat list \<Rightarrow> nat \<Rightarrow> nat \<Rightarrow> bool" where
  "wait_program_drain h ids timeout_ms waited =
     (case poll_programs h waited ids of
        None \<Rightarrow> False
      | Some alive \<Rightarrow>
          if alive = 0 then True
          else if waited \<ge> timeout_ms then False
          else wait_program_drain h ids timeout_ms (waited + 100))"
  by pat_completeness auto
termination
  by (relation "measure (\<lambda>(h, ids, timeout_ms, waited). timeout_ms - waited)") auto

declare wait_program_drain.simps [simp del]

definition unpin_drain_or_warn :: "phost \<Rightarrow> nat list \<Rightarrow> int" where
  "unpin_drain_or_warn h ids = (if ids = [] \<or> wait_program_drain h ids 60000 0 then 0 else 1)"

section \<open>The actions\<close>

definition pin_lifecycle_lock :: "phost \<Rightarrow> bool" where
  "pin_lifecycle_lock h =
     (let (e, fallback) = ph_lock_open h
      in if e \<noteq> 0 \<and> e \<notin> {nat EACCES, EROFS, ENOENT} then False
         else if e \<noteq> 0 \<and> \<not> fallback then False
         else ph_flock h)"

definition unpin_root :: "phost \<Rightarrow> string \<Rightarrow> pinfs \<Rightarrow> int \<times> effect list" where
  "unpin_root h root s =
     (if length root + 6 \<ge> PATH_MAX then (1, [])
      else case collect_link_prog_ids h s (root @ ''/links'') of
        None \<Rightarrow> (1, [])
      | Some ids \<Rightarrow>
          (case sweep_links h s of
             (False, es1) \<Rightarrow> (1, es1)
           | (True, es1) \<Rightarrow>
               (case sweep_maps h (after es1 s) of
                  (False, es2) \<Rightarrow> (1, es1 @ es2)
                | (True, es2) \<Rightarrow> (unpin_drain_or_warn h ids, es1 @ es2 @ ed11_unpin_sentinel_unlink h))))"

definition unpin_dir :: "phost \<Rightarrow> string \<Rightarrow> string \<Rightarrow> pinfs \<Rightarrow> int \<times> effect list" where
  "unpin_dir h root cand s =
     (if cand = root @ ''/links'' then
        (case collect_link_prog_ids h s cand of
           None \<Rightarrow> (1, [])
         | Some ids \<Rightarrow> (case sweep_links h s of (False, es) \<Rightarrow> (1, es) | (True, es) \<Rightarrow> (unpin_drain_or_warn h ids, es)))
      else if cand = root @ ''/maps'' then (case sweep_maps h s of (False, es) \<Rightarrow> (1, es) | (True, es) \<Rightarrow> (0, es))
      else (1, []))"

definition leaf_prog_ids :: "pinfs \<Rightarrow> string \<Rightarrow> nat list" where
  "leaf_prog_ids s leaf = (case map_of (pf_links s) leaf of Some p \<Rightarrow> if p = 0 then [] else [p] | None \<Rightarrow> [])"

definition unpin_leaf :: "phost \<Rightarrow> string \<Rightarrow> string \<Rightarrow> pinfs \<Rightarrow> int \<times> effect list" where
  "unpin_leaf h root cand s =
     (case last_index (CHR ''/'') cand of
        None \<Rightarrow> (1, [])
      | Some i \<Rightarrow>
          let parent = take i cand; leaf = drop (Suc i) cand
          in if i = 0 then (1, [])
             else if parent = root @ ''/links'' then
               if leaf \<notin> set KNOWN_LINK_NAMES then (1, [])
               else if link_errno h s leaf \<noteq> 0 \<or> \<not> ph_obj_info h cand then (1, [])
               else if \<not> ph_unlink h cand then (1, [])
               else (unpin_drain_or_warn h (leaf_prog_ids s leaf),
                     [Unlinked_link leaf])
             else if parent = root @ ''/maps'' then
               if leaf \<notin> set KNOWN_MAP_NAMES then (1, [])
               else if \<not> ph_unlink h cand then (1, [])
               else (0, [Unlinked_map leaf])
             else (1, []))"

definition unpin_action :: "phost \<Rightarrow> string option \<Rightarrow> pinfs \<Rightarrow> int \<times> effect list" where
  "unpin_action h requested s =
     (if \<not> ensure_bpffs h then (1, [])
      else if \<not> pin_lifecycle_lock h then (1, [])
      else if \<not> ed11_unpin_authgate h s then (1, [])
      else case unpin_resolve h requested of
        Hard_error \<Rightarrow> (1, [])
      | Nothing_to_do \<Rightarrow> (if requested = None then 0 else 1, [])
      | Refused \<Rightarrow> (if requested = None then 0 else 1, [])
      | Candidate root cand \<Rightarrow>
          if cand = root then unpin_root h root s
          else if length root + 6 \<ge> PATH_MAX then (1, [])
          else (case ph_lstat h cand of
                  None \<Rightarrow> (1, [])
                | Some F_dir \<Rightarrow> unpin_dir h root cand s
                | Some F_reg \<Rightarrow> unpin_leaf h root cand s
                | Some F_other \<Rightarrow> (1, [])))"

text \<open>The roll-back of \<^verbatim>\<open>--pin\<close> after the links: the sweeps' results are not looked at.\<close>

definition undo_pin :: "phost \<Rightarrow> bool \<Rightarrow> pinfs \<Rightarrow> effect list" where
  "undo_pin h maps_too s =
     (let es = (if maps_too then snd (sweep_maps h s) else [])
      in es @ snd (sweep_links h (after es s)) @ ed11_unpin_sentinel_unlink h)"

text \<open>
  The part of \<^verbatim>\<open>--pin\<close> under the lock, from the link pins on and as a whole; \<^term>\<open>M\<close> are the maps of the
  attached programs, which belong to the tree from the first pin on.
\<close>

definition pin_finish :: "phost \<Rightarrow> maps \<Rightarrow> pinfs \<Rightarrow> int \<times> effect list" where
  "pin_finish h M s =
     (if ph_aborted h 1 then (1, undo_pin h False s)
      else case pin_counter_maps h s of
        (False, es) \<Rightarrow> (1, es @ undo_pin h False (after es s))
      | (True, es) \<Rightarrow>
          (case self_protect_record_pins h M of
             (False, M') \<Rightarrow> (1, (es @ [Set_maps M']) @ undo_pin h True (after (es @ [Set_maps M']) s))
           | (True, M') \<Rightarrow> (0, es @ [Set_maps M'])))"

definition pin_window :: "phost \<Rightarrow> maps \<Rightarrow> pinfs \<Rightarrow> int \<times> effect list" where
  "pin_window h M s =
     (if \<not> pin_lifecycle_lock h then (1, [])
      else if ph_aborted h 0 then (1, [])
      else if pin_tree_exists h s then (1, [])
      else case ed11_pin_maybe_write_sentinel h s of
        (False, es) \<Rightarrow> (1, es)
      | (True, es) \<Rightarrow>
          let s1 = after (es @ [Set_maps M]) s
          in case pin_links h s1 of
               (False, es1) \<Rightarrow> (1, es @ [Set_maps M] @ es1 @ ed11_unpin_sentinel_unlink h)
             | (True, es1) \<Rightarrow> (case pin_finish h M (after es1 s1) of (rc, es2) \<Rightarrow> (rc, es @ [Set_maps M] @ es1 @ es2)))"

text \<open>\<^verbatim>\<open>--pin\<close>, from the advisory check on; a failing load leaves everything as it was.\<close>

definition pin_action :: "phost \<Rightarrow> pinfs \<Rightarrow> int \<times> effect list" where
  "pin_action h s =
     (if pin_tree_exists h s then (1, [])
      else case ph_load h of
        None \<Rightarrow> (1, [])
      | Some M0 \<Rightarrow>
          (case self_protect_populate_early h M0 of
             None \<Rightarrow> (1, [])
           | Some M \<Rightarrow> if \<not> ph_attach h then (1, []) else pin_window h M s))"

end
