(* ===== verification/Pin_Policy.thy ===== *)
theory Pin_Policy
  imports Pin_Lifecycle Seal_Load_Policy
begin

text \<open>
  What the pin life cycle guarantees.  A run is a sequence of \<^verbatim>\<open>--pin\<close> and \<^verbatim>\<open>--unpin\<close> processes, each of
  which may be killed between any two of its changes.  A locale carries an invariant through the
  moments of a run; it is interpreted on the two facts the sentinel is for: pins never stand
  without it, and without its passphrase nothing changes.  The rest is about single actions: a
  \<^verbatim>\<open>--pin\<close> takes effect wholly or not at all, an authorised \<^verbatim>\<open>--unpin\<close> undoes it and returns 0 only when
  the programs are gone, and with self-protection the pins it recorded are the ones the LSM
  programs defend.
\<close>

section \<open>Sequences of changes\<close>

lemma after_simps [simp]:
  "after [] s = s" "after (e # es) s = after es (apply_effect e s)" "after (es @ es') s = after es' (after es s)"
  by (simp_all add: after_def)

text \<open>A predicate holds before, between and after the changes.\<close>

fun along :: "(pinfs \<Rightarrow> bool) \<Rightarrow> pinfs \<Rightarrow> effect list \<Rightarrow> bool" where
  "along P s [] = P s"
| "along P s (e # es) = (P s \<and> along P (apply_effect e s) es)"

lemma along_after: "along P s es \<Longrightarrow> P (after es s)"
  by (induction es arbitrary: s) auto

lemma along_append [simp]: "along P s (es @ es') \<longleftrightarrow> along P s es \<and> along P (after es s) es'"
  by (induction es arbitrary: s) (auto simp: along_after elim: along.elims)

lemma along_take: "along P s es \<Longrightarrow> P (after (take k es) s)"
  by (metis along_after along_append append_take_drop_id)

fun pins_link :: "effect \<Rightarrow> bool" where
  "pins_link (Pinned_link n i) = True"
| "pins_link _ = False"

fun on_sentinel :: "effect \<Rightarrow> bool" where
  "on_sentinel (Made_sentinel r) = True"
| "on_sentinel (Wrote_sentinel c) = True"
| "on_sentinel Removed_sentinel = True"
| "on_sentinel _ = False"

lemma sentinel_kept: "\<forall>e\<in>set es. \<not> on_sentinel e \<Longrightarrow> pf_sentinel (after es s) = pf_sentinel s"
proof (induction es arbitrary: s)
  case (Cons e es)
  then show ?case by (cases e) auto
qed simp

lemma links_dir_kept: "pf_links_dir s \<Longrightarrow> pf_links_dir (after es s)"
proof (induction es arbitrary: s)
  case (Cons e es)
  from Cons.prems have "pf_links_dir (apply_effect e s)" by (cases e) auto
  then show ?case using Cons.IH by simp
qed simp

lemma maps_dir_kept: "pf_maps_dir s \<Longrightarrow> pf_maps_dir (after es s)"
proof (induction es arbitrary: s)
  case (Cons e es)
  from Cons.prems have "pf_maps_dir (apply_effect e s)" by (cases e) auto
  then show ?case using Cons.IH by simp
qed simp

lemma after_unlinked_links [simp]:
  "after (map Unlinked_link ns) s = s\<lparr>pf_links := filter (\<lambda>e. fst e \<notin> set ns) (pf_links s)\<rparr>"
  by (induction ns arbitrary: s) (auto intro: filter_cong simp: conj_commute)

lemma after_unlinked_maps [simp]:
  "after (map Unlinked_map ns) s = s\<lparr>pf_maps := filter (\<lambda>n. n \<notin> set ns) (pf_maps s)\<rparr>"
  by (induction ns arbitrary: s) (auto intro: filter_cong simp: conj_commute)

lemma after_pinned_links:
  "after (map (\<lambda>n. Pinned_link n (f n)) ns) s = s\<lparr>pf_links := pf_links s @ map (\<lambda>n. (n, f n)) ns\<rparr>"
  by (induction ns arbitrary: s) auto

lemma after_pinned_maps [simp]: "after (map Pinned_map ns) s = s\<lparr>pf_maps := pf_maps s @ ns\<rparr>"
  by (induction ns arbitrary: s) auto

section \<open>Parts of the actions\<close>

definition known_links :: "pinfs \<Rightarrow> string list" where
  "known_links s = filter (\<lambda>n. n \<in> set KNOWN_LINK_NAMES) (map fst (pf_links s))"

text \<open>What the system promises: an existing pin is not reported as absent, and removal by root works.\<close>

definition finds_pins :: "phost \<Rightarrow> bool" where "finds_pins h \<longleftrightarrow> (\<forall>p. ph_obj_get h p \<noteq> ENOENT)"
definition can_remove :: "phost \<Rightarrow> bool" where "can_remove h \<longleftrightarrow> (\<forall>p. ph_unlink h p \<and> ph_opendir h p)"

lemma pin_tree_exists_iff: "finds_pins h \<Longrightarrow> pin_tree_exists h s \<longleftrightarrow> known_links s \<noteq> []"
  by (auto simp: pin_tree_exists_def known_links_def link_errno_def finds_pins_def list_ex_iff filter_empty_conv ENOENT_def)

lemma pin_names_known: "set (pin_names h) \<subseteq> set KNOWN_LINK_NAMES"
  by (auto simp: pin_names_def KNOWN_LINK_NAMES_def split: if_splits)

lemma counter_names_known: "set counter_names \<subseteq> set KNOWN_MAP_NAMES"
  by (simp add: counter_names_def KNOWN_MAP_NAMES_def)

definition prog_of :: "phost \<Rightarrow> string \<Rightarrow> nat" where "prog_of h n = the (attached_prog h n)"

lemma pin_one_link_Some:
  "pin_one_link h n s = Some e \<Longrightarrow> e = Pinned_link n (prog_of h n) \<and> (\<forall>x\<in>set (pf_links s). fst x \<noteq> n)"
  by (auto simp: pin_one_link_def prog_of_def split: option.splits if_splits)

lemma pin_each_links:
  "pin_each (pin_one_link h) ns s = (ok, pinned, es) \<Longrightarrow>
     es = map (\<lambda>n. Pinned_link n (prog_of h n)) pinned \<and> (ok \<longrightarrow> pinned = ns) \<and> set pinned \<subseteq> set ns \<and>
     (\<forall>x\<in>set (pf_links s). fst x \<notin> set pinned)"
proof (induction ns arbitrary: s ok pinned es)
  case (Cons n ns)
  show ?case
  proof (cases "pin_one_link h n s")
    case (Some e)
    obtain ok' pinned' es' where r: "pin_each (pin_one_link h) ns (apply_effect e s) = (ok', pinned', es')"
      using prod_cases3 by blast
    have "ok = ok'" "pinned = n # pinned'" "es = e # es'" using Cons.prems by (simp_all add: Some r)
    then show ?thesis using Cons.IH [OF r] pin_one_link_Some [OF Some] by auto
  qed (use Cons.prems in auto)
qed simp

lemma pin_each_maps:
  "pin_each (pin_one_map h) ns s = (ok, pinned, es) \<Longrightarrow>
     es = map Pinned_map pinned \<and> (ok \<longrightarrow> pinned = ns) \<and> set pinned \<subseteq> set ns \<and> (\<forall>n\<in>set (pf_maps s). n \<notin> set pinned)"
proof (induction ns arbitrary: s ok pinned es)
  case (Cons n ns)
  show ?case
  proof (cases "pin_one_map h n s")
    case (Some e)
    obtain ok' pinned' es' where r: "pin_each (pin_one_map h) ns (apply_effect e s) = (ok', pinned', es')"
      using prod_cases3 by blast
    have "e = Pinned_map n \<and> n \<notin> set (pf_maps s)" using Some by (auto simp: pin_one_map_def split: if_splits)
    moreover have "ok = ok'" "pinned = n # pinned'" "es = e # es'" using Cons.prems by (simp_all add: Some r)
    ultimately show ?thesis using Cons.IH [OF r] by auto
  qed (use Cons.prems in auto)
qed simp

text \<open>Making a directory changes nothing else, and on success the directory is there.\<close>

lemma ensure_dir_effects: "ensure_dir h p = (ok, es) \<Longrightarrow> (es = [] \<or> es = [Made_dir p]) \<and> (ok \<longrightarrow> es = [Made_dir p])"
  by (auto simp: ensure_dir_def Let_def split: if_splits)

lemma made_dir_frame [simp]:
  "pf_links (apply_effect (Made_dir d) s) = pf_links s" "pf_maps (apply_effect (Made_dir d) s) = pf_maps s"
  "pf_sentinel (apply_effect (Made_dir d) s) = pf_sentinel s" "pf_kernel (apply_effect (Made_dir d) s) = pf_kernel s"
  by simp_all

declare apply_effect.simps(1) [simp del]

lemma pin_links_effects:
  assumes "pin_links h s = (ok, es)"
  obtains (dirs) "\<not> ok" and "set es \<subseteq> range Made_dir"
  | (pins) pinned where
      "es = Made_dir PIN_ROOT # Made_dir (PIN_ROOT @ ''/links'') # map (\<lambda>n. Pinned_link n (prog_of h n)) pinned @
         (if ok then [] else unlink_pinned_links h pinned)"
      and "ok \<Longrightarrow> pinned = pin_names h" and "set pinned \<subseteq> set (pin_names h)"
      and "\<forall>x\<in>set (pf_links s). fst x \<notin> set pinned"
proof -
  obtain ok1 es1 ok2 es2 where d: "ensure_dir h PIN_ROOT = (ok1, es1)" "ensure_dir h (PIN_ROOT @ ''/links'') = (ok2, es2)"
    using prod.exhaust by metis
  note made = ensure_dir_effects [OF d(1)] ensure_dir_effects [OF d(2)]
  obtain ok3 pinned es3 where p: "pin_each (pin_one_link h) (pin_names h) s = (ok3, pinned, es3)"
    using prod_cases3 by blast
  show ?thesis
  proof (cases "ensure_bpffs h \<and> ok1 \<and> ok2")
    case True
    then show ?thesis using pins [of pinned] made pin_each_links [OF p] assms
      by (simp add: pin_links_def d p split: bool.splits)
  next
    case False
    then have "\<not> ok \<and> set es \<subseteq> {Made_dir PIN_ROOT, Made_dir (PIN_ROOT @ ''/links'')}" using assms made
      by (auto simp: pin_links_def d split: if_splits bool.splits)
    then show ?thesis using dirs by blast
  qed
qed

lemma pin_counter_maps_effects:
  assumes "pin_counter_maps h s = (ok, es)"
  obtains (dirs) "\<not> ok" and "set es \<subseteq> range Made_dir"
  | (pins) pinned where
      "es = Made_dir (PIN_ROOT @ ''/maps'') # map Pinned_map pinned @ (if ok then [] else unlink_pinned_maps h pinned)"
      and "ok \<Longrightarrow> pinned = counter_names" and "set pinned \<subseteq> set counter_names" and "\<forall>n\<in>set (pf_maps s). n \<notin> set pinned"
proof -
  obtain ok1 es1 where d: "ensure_dir h (PIN_ROOT @ ''/maps'') = (ok1, es1)"
    using prod.exhaust by metis
  obtain ok3 pinned es3 where p: "pin_each (pin_one_map h) counter_names s = (ok3, pinned, es3)"
    using prod_cases3 by blast
  show ?thesis
  proof (cases ok1)
    case True
    then show ?thesis using pins [of pinned] ensure_dir_effects [OF d] pin_each_maps [OF p] assms
      by (simp add: pin_counter_maps_def d p split: bool.splits)
  next
    case False
    then have "\<not> ok \<and> set es \<subseteq> {Made_dir (PIN_ROOT @ ''/maps'')}" using assms ensure_dir_effects [OF d]
      by (auto simp: pin_counter_maps_def d)
    then show ?thesis using dirs by blast
  qed
qed

lemma sweep_known_removed:
  "sweep_known u table ns = (ok, removed) \<Longrightarrow>
     set removed \<subseteq> set table \<inter> set ns \<and> (ok \<longrightarrow> removed = filter (\<lambda>n. n \<in> set table) ns) \<and> ((\<forall>n\<in>set ns. u n) \<longrightarrow> ok)"
proof (induction ns arbitrary: ok removed)
  case (Cons n ns)
  obtain ok' removed' where r: "sweep_known u table ns = (ok', removed')" using prod.exhaust by blast
  show ?case using Cons.prems Cons.IH [OF r] by (auto simp: r split: if_splits)
qed simp

definition known_maps :: "pinfs \<Rightarrow> string list" where
  "known_maps s = filter (\<lambda>n. n \<in> set KNOWN_MAP_NAMES) (pf_maps s)"

text \<open>A sweep removes names of its table only; one that goes through leaves none of them.\<close>

lemma sweep_links_effects:
  assumes "sweep_links h s = (ok, es)"
  obtains ns where "es = map Unlinked_link ns" and "set ns \<subseteq> set KNOWN_LINK_NAMES"
    and "ok \<Longrightarrow> pf_links_dir s \<Longrightarrow> ns = known_links s" and "can_remove h \<Longrightarrow> ok"
proof (cases "pf_links_dir s \<and> ph_opendir h (PIN_ROOT @ ''/links'')")
  case True
  obtain ok' ns where k: "sweep_known (\<lambda>n. ph_unlink h (link_path n)) KNOWN_LINK_NAMES (map fst (pf_links s)) = (ok', ns)"
    using prod.exhaust by blast
  then show ?thesis using that [of ns] assms True sweep_known_removed [OF k]
    by (auto simp: sweep_links_def known_links_def can_remove_def)
qed (use that [of "[]"] assms in \<open>auto simp: sweep_links_def can_remove_def split: if_splits\<close>)

lemma sweep_maps_effects:
  assumes "sweep_maps h s = (ok, es)"
  obtains ns where "es = map Unlinked_map ns" and "set ns \<subseteq> set KNOWN_MAP_NAMES"
    and "ok \<Longrightarrow> pf_maps_dir s \<Longrightarrow> ns = known_maps s" and "can_remove h \<Longrightarrow> ok"
proof (cases "pf_maps_dir s \<and> ph_opendir h (PIN_ROOT @ ''/maps'')")
  case True
  obtain ok' ns where k: "sweep_known (\<lambda>n. ph_unlink h (map_path n)) KNOWN_MAP_NAMES (pf_maps s) = (ok', ns)"
    using prod.exhaust by blast
  then show ?thesis using that [of ns] assms True sweep_known_removed [OF k]
    by (auto simp: sweep_maps_def known_maps_def can_remove_def)
qed (use that [of "[]"] assms in \<open>auto simp: sweep_maps_def can_remove_def split: if_splits\<close>)

section \<open>Runs\<close>

datatype action = Pin phost | Unpin phost "string option"

fun effects_of :: "action \<Rightarrow> pinfs \<Rightarrow> effect list" where
  "effects_of (Pin h) s = snd (pin_action h s)"
| "effects_of (Unpin h req) s = snd (unpin_action h req s)"

fun host_of :: "action \<Rightarrow> phost" where
  "host_of (Pin h) = h"
| "host_of (Unpin h req) = h"

text \<open>The states in which processes of \<^term>\<open>A\<close>, one after the other and each possibly killed, can leave a tree.\<close>

inductive runs :: "action set \<Rightarrow> pinfs \<Rightarrow> pinfs \<Rightarrow> bool" for A s where
  runs_start: "runs A s s"
| runs_step: "runs A s s' \<Longrightarrow> a \<in> A \<Longrightarrow> runs A s (after (take k (effects_of a s')) s')"

locale killable =
  fixes A :: "action set" and P :: "pinfs \<Rightarrow> bool"
  assumes moments: "\<lbrakk>a \<in> A; P s\<rbrakk> \<Longrightarrow> along P s (effects_of a s)"
begin

lemma runs_keep: "runs A s s' \<Longrightarrow> P s \<Longrightarrow> P s'"
  by (induction rule: runs.induct) (use moments along_take in blast)+

end

section \<open>Pins stand behind the sentinel\<close>

definition dirs_ok :: "pinfs \<Rightarrow> bool" where
  "dirs_ok s \<longleftrightarrow> (pf_links s \<noteq> [] \<longrightarrow> pf_links_dir s)"

definition sealed_by :: "string set \<Rightarrow> pinfs \<Rightarrow> bool" where
  "sealed_by H s \<longleftrightarrow> (\<exists>hash\<in>H. pf_sentinel s = Some (True, hash))"

definition gated :: "string set \<Rightarrow> pinfs \<Rightarrow> bool" where
  "gated H s \<longleftrightarrow> dirs_ok s \<and> (known_links s \<noteq> [] \<longrightarrow> sealed_by H s)"

lemma gated_behind_sentinel:
  assumes "sealed_by H s" and "pf_links_dir s" and "\<forall>e\<in>set es. \<not> on_sentinel e"
  shows "along (gated H) s es" and "sealed_by H (after es s)" and "pf_links_dir (after es s)"
proof -
  show *: "sealed_by H (after es s)" using sentinel_kept [OF assms(3)] assms(1) by (simp add: sealed_by_def)
  show "pf_links_dir (after es s)" using assms(2) by (rule links_dir_kept)
  show "along (gated H) s es" using assms
  proof (induction es arbitrary: s)
    case (Cons e es)
    have "sealed_by H (apply_effect e s)" using Cons.prems sentinel_kept [of "[e]" s] by (simp add: sealed_by_def)
    moreover have "pf_links_dir (apply_effect e s)" using Cons.prems links_dir_kept [of s "[e]"] by simp
    ultimately show ?case using Cons by (simp add: gated_def dirs_ok_def)
  qed (simp add: gated_def dirs_ok_def)
qed

lemma no_new_links:
  assumes "\<not> pins_link e" and "dirs_ok s"
  shows "dirs_ok (apply_effect e s)" and "set (known_links (apply_effect e s)) \<subseteq> set (known_links s)"
proof -
  have "set (pf_links (apply_effect e s)) \<subseteq> set (pf_links s)" using assms by (cases e) auto
  moreover from this have "pf_links s = [] \<Longrightarrow> pf_links (apply_effect e s) = []" by auto
  moreover have "pf_links_dir s \<Longrightarrow> pf_links_dir (apply_effect e s)" using links_dir_kept [of s "[e]"] by simp
  ultimately show "dirs_ok (apply_effect e s)" "set (known_links (apply_effect e s)) \<subseteq> set (known_links s)"
    using assms by (auto simp: dirs_ok_def known_links_def)
qed

lemma gated_without_links:
  assumes "known_links s = []" and "dirs_ok s" and "\<forall>e\<in>set es. \<not> pins_link e"
  shows "along (gated H) s es" and "known_links (after es s) = []" and "dirs_ok (after es s)"
proof -
  have "along (gated H) s es \<and> known_links (after es s) = [] \<and> dirs_ok (after es s)" using assms
  proof (induction es arbitrary: s)
    case (Cons e es)
    then show ?case using no_new_links [of e s] by (auto simp: gated_def)
  qed (simp add: gated_def)
  then show "along (gated H) s es" "known_links (after es s) = []" "dirs_ok (after es s)" by auto
qed

lemma gated_removing:
  assumes "gated H s" and "\<forall>e\<in>set es. \<not> pins_link e \<and> \<not> on_sentinel e"
  shows "along (gated H) s es" and "gated H (after es s)"
proof -
  show "along (gated H) s es" using assms
  proof (induction es arbitrary: s)
    case (Cons e es)
    have "gated H (apply_effect e s)"
      using Cons.prems no_new_links [of e s] sentinel_kept [of "[e]" s] by (auto simp: gated_def sealed_by_def)
    then show ?case using Cons by simp
  qed simp
  then show "gated H (after es s)" by (rule along_after)
qed

text \<open>The hash the sentinel of a \<^verbatim>\<open>--pin\<close> gets.\<close>

definition pass_hash :: "phost \<Rightarrow> string option" where
  "pass_hash h = (case ed11_read_passphrase h of None \<Rightarrow> None | Some p \<Rightarrow> if p = [] then None else ph_pwhash h p)"

lemma write_sentinel_effects:
  assumes "ed11_write_sentinel h p s = (ok, es)"
  shows "\<forall>e\<in>set es. \<not> pins_link e"
    and "ok \<Longrightarrow> \<exists>hash. ph_pwhash h p = Some hash \<and> es = [Removed_sentinel, Made_sentinel True, Wrote_sentinel hash]"
  using assms
  by (auto simp: ed11_write_sentinel_def ed11_unpin_sentinel_unlink_def Let_def split: if_splits option.splits)

lemma maybe_sentinel_effects:
  assumes "ed11_pin_maybe_write_sentinel h s = (ok, es)"
  shows "\<forall>e\<in>set es. \<not> pins_link e"
    and "ok \<Longrightarrow> (es = [] \<and> ed11_read_passphrase h \<in> {None, Some []}) \<or>
      (\<exists>hash. pass_hash h = Some hash \<and> es = [Removed_sentinel, Made_sentinel True, Wrote_sentinel hash])"
proof -
  show "\<forall>e\<in>set es. \<not> pins_link e"
    using assms write_sentinel_effects(1) by (auto simp: ed11_pin_maybe_write_sentinel_def split: option.splits if_splits)
  show "(es = [] \<and> ed11_read_passphrase h \<in> {None, Some []}) \<or>
      (\<exists>hash. pass_hash h = Some hash \<and> es = [Removed_sentinel, Made_sentinel True, Wrote_sentinel hash])" if ok
    using that assms write_sentinel_effects(2) [of h _ s ok es]
    by (fastforce simp: ed11_pin_maybe_write_sentinel_def pass_hash_def split: option.splits if_splits)
qed

lemma rollback_effects:
  "\<forall>e\<in>set (unlink_pinned_links h ns). \<not> pins_link e \<and> \<not> on_sentinel e"
  "\<forall>e\<in>set (unlink_pinned_maps h ns). \<not> pins_link e \<and> \<not> on_sentinel e"
  "\<forall>e\<in>set (ed11_unpin_sentinel_unlink h). \<not> pins_link e"
  by (auto simp: unlink_pinned_links_def unlink_pinned_maps_def ed11_unpin_sentinel_unlink_def)

text \<open>Removing the links in full opens the gate for the removal of the sentinel.\<close>

lemma gated_sweep_links:
  assumes "gated H s" and "sweep_links h s = (ok, es)"
  shows "along (gated H) s es" and "ok \<Longrightarrow> known_links (after es s) = []" and "dirs_ok (after es s)"
proof -
  obtain ns where es: "es = map Unlinked_link ns" and all: "ok \<Longrightarrow> pf_links_dir s \<Longrightarrow> ns = known_links s"
    using sweep_links_effects [OF assms(2)] by metis
  show "along (gated H) s es" using gated_removing(1) [OF assms(1), of es] by (auto simp: es)
  show "dirs_ok (after es s)" using gated_removing(2) [OF assms(1), of es] by (auto simp: es gated_def)
  show "known_links (after es s) = []" if ok
  proof (cases "pf_links_dir s")
    case True
    then show ?thesis using all [OF that True] by (auto simp: es known_links_def filter_empty_conv)
  qed (use assms(1) in \<open>auto simp: es known_links_def gated_def dirs_ok_def\<close>)
qed

lemma gated_undo:
  assumes "can_remove h" and "gated H s"
  shows "along (gated H) s (undo_pin h maps_too s)"
proof -
  define es where "es = (if maps_too then snd (sweep_maps h s) else [])"
  obtain ok0 es0 where m: "sweep_maps h s = (ok0, es0)" using prod.exhaust by blast
  obtain ns where "es0 = map Unlinked_map ns" using sweep_maps_effects [OF m] by metis
  then have "\<forall>e\<in>set es. \<not> pins_link e \<and> \<not> on_sentinel e" by (auto simp: es_def m)
  note mid = gated_removing [OF assms(2) this]
  obtain ok es' where l: "sweep_links h (after es s) = (ok, es')" using prod.exhaust by blast
  have ok using sweep_links_effects [OF l] assms(1) by metis
  note links = gated_sweep_links [OF mid(2) l]
  show ?thesis
    using mid(1) links(1) gated_without_links(1) [OF links(2) [OF \<open>ok\<close>] links(3) rollback_effects(3) [of h], of H]
    by (simp add: undo_pin_def flip: es_def) (simp add: l)
qed

text \<open>What \<^verbatim>\<open>--pin\<close> does after its checks.\<close>

lemma pin_action_window:
  assumes "snd (pin_action h s) \<noteq> []"
  obtains M where "\<not> pin_tree_exists h s" and "pin_action h s = pin_window h M s"
  using assms by (auto simp: pin_action_def split: if_splits option.splits)

lemma made_dirs_frame:
  "set es \<subseteq> range Made_dir \<Longrightarrow>
     pf_links (after es s) = pf_links s \<and> pf_maps (after es s) = pf_maps s \<and> pf_sentinel (after es s) = pf_sentinel s
     \<and> pf_kernel (after es s) = pf_kernel s"
proof (induction es arbitrary: s)
  case (Cons e es)
  then obtain d where "e = Made_dir d" by auto
  then show ?case using Cons by simp
qed simp

lemma links_dir_made [simp]: "pf_links_dir (apply_effect (Made_dir (PIN_ROOT @ ''/links'')) s)"
  by (simp add: apply_effect.simps(1))

lemma maps_dir_made [simp]: "pf_maps_dir (apply_effect (Made_dir (PIN_ROOT @ ''/maps'')) s)"
  by (simp add: apply_effect.simps(1))

text \<open>\<^verbatim>\<open>pin_links\<close> pins everything or, when removal works, nothing.\<close>

lemma pin_links_result:
  assumes "pin_links h s = (ok, es)"
  shows "ok \<Longrightarrow> pf_links (after es s) = pf_links s @ map (\<lambda>n. (n, prog_of h n)) (pin_names h)"
    and "ok \<Longrightarrow> pf_links_dir (after es s)"
    and "\<not> ok \<Longrightarrow> can_remove h \<Longrightarrow> pf_links (after es s) = pf_links s"
    and "pf_maps (after es s) = pf_maps s" and "pf_sentinel (after es s) = pf_sentinel s"
    and "pf_kernel (after es s) = pf_kernel s"
  by (cases rule: pin_links_effects [OF assms];
      simp add: made_dirs_frame after_pinned_links unlink_pinned_links_def can_remove_def links_dir_kept filter_empty_conv
        filter_id_conv)+

lemma pin_links_kinds:
  assumes "pin_links h s = (ok, es)"
  shows "\<forall>e\<in>set es. \<not> on_sentinel e"
  by (cases rule: pin_links_effects [OF assms]) (use rollback_effects(1) [of h] in auto)

lemma pin_counter_maps_result:
  assumes "pin_counter_maps h s = (ok, es)"
  shows "ok \<Longrightarrow> pf_maps (after es s) = pf_maps s @ counter_names"
    and "ok \<Longrightarrow> pf_maps_dir (after es s)"
    and "\<not> ok \<Longrightarrow> can_remove h \<Longrightarrow> pf_maps (after es s) = pf_maps s"
    and "pf_links (after es s) = pf_links s" and "pf_sentinel (after es s) = pf_sentinel s"
    and "pf_kernel (after es s) = pf_kernel s"
  by (cases rule: pin_counter_maps_effects [OF assms];
      simp add: made_dirs_frame unlink_pinned_maps_def can_remove_def maps_dir_kept filter_empty_conv filter_id_conv)+

lemma pin_counter_maps_kinds:
  assumes "pin_counter_maps h s = (ok, es)"
  shows "\<forall>e\<in>set es. \<not> on_sentinel e \<and> \<not> pins_link e"
  by (cases rule: pin_counter_maps_effects [OF assms]) (use rollback_effects(2) [of h] in auto)

text \<open>Once the sentinel and the links are in place, the window stays behind the sentinel to its end.\<close>

lemma gated_finish:
  assumes "can_remove h" and "sealed_by H s" and "pf_links_dir s"
  shows "along (gated H) s (snd (pin_finish h M s))"
proof -
  have "gated H s" using assms by (simp add: gated_def dirs_ok_def)
  note undo = gated_undo [OF assms(1) this, of False]
  obtain ok es where c: "pin_counter_maps h s = (ok, es)" using prod.exhaust by blast
  obtain ok' M' where r: "self_protect_record_pins h M = (ok', M')" using prod.exhaust by blast
  have more: "along (gated H) s (es @ tail)" "along (gated H) s ((es @ tail) @ undo_pin h m (after (es @ tail) s))"
    if "set tail \<subseteq> range Set_maps" for tail m
  proof -
    have "\<forall>e\<in>set (es @ tail). \<not> on_sentinel e" using pin_counter_maps_kinds [OF c] that by auto
    note 3 = gated_behind_sentinel(1) [OF assms(2,3) this]
    show "along (gated H) s (es @ tail)" by (rule 3)
    show "along (gated H) s ((es @ tail) @ undo_pin h m (after (es @ tail) s))"
      using 3 gated_undo [OF assms(1) along_after [OF 3], of m] by (subst along_append) blast
  qed
  show ?thesis using undo more(2) [of "[]" False] more(1) [of "[Set_maps M']"] more(2) [of "[Set_maps M']" True]
    by (cases ok; cases ok') (simp_all add: pin_finish_def c r)
qed

lemma gated_pin_links:
  assumes "sealed_by H s" and "known_links s = []" and "dirs_ok s" and "pin_links h s = (ok, es)"
  shows "along (gated H) s es"
  using assms(4)
proof (cases rule: pin_links_effects)
  case dirs
  then have "\<forall>e\<in>set es. \<not> pins_link e" by auto
  then show ?thesis using gated_without_links(1) assms(2,3) by blast
next
  case (pins pinned)
  let ?d = "[Made_dir PIN_ROOT, Made_dir (PIN_ROOT @ ''/links'')]"
  let ?ps = "map (\<lambda>n. Pinned_link n (prog_of h n)) pinned @ (if ok then [] else unlink_pinned_links h pinned)"
  have es: "es = ?d @ ?ps" using pins(1) by simp
  have "sealed_by H (after ?d s)" using assms(1) by (simp add: sealed_by_def)
  moreover have "\<forall>e\<in>set ?ps. \<not> on_sentinel e" using rollback_effects(1) [of h pinned] by auto
  ultimately have "along (gated H) (after ?d s) ?ps"
    using gated_behind_sentinel(1) [of H "after ?d s" ?ps] by simp
  then show ?thesis using gated_without_links(1) [OF assms(2,3), of ?d H] unfolding es along_append by simp
qed

lemma gated_window_sealed:
  assumes "can_remove h" and "sealed_by H s" and "known_links s = []" and "dirs_ok s" and "pin_links h s = (ok, es)"
  shows "ok \<Longrightarrow> along (gated H) s (es @ snd (pin_finish h M (after es s)))"
    and "\<not> ok \<Longrightarrow> along (gated H) s (es @ ed11_unpin_sentinel_unlink h)"
proof -
  note pins = gated_pin_links [OF assms(2-5)]
  have "sealed_by H (after es s)" using assms(2) pin_links_result(5) [OF assms(5)] by (simp add: sealed_by_def)
  then show "ok \<Longrightarrow> along (gated H) s (es @ snd (pin_finish h M (after es s)))"
    using pins gated_finish [OF assms(1)] pin_links_result(2) [OF assms(5)] by simp
  assume "\<not> ok"
  then have "known_links (after es s) = []" "dirs_ok (after es s)"
    using pin_links_result(3) [OF assms(5) _ assms(1)] assms(3) along_after [OF pins]
    by (simp_all add: known_links_def gated_def)
  then show "along (gated H) s (es @ ed11_unpin_sentinel_unlink h)"
    using pins gated_without_links(1) [OF _ _ rollback_effects(3)] by simp
qed

text \<open>A \<^verbatim>\<open>--pin\<close> that is given a passphrase and can undo what it does.\<close>

definition guards :: "phost \<Rightarrow> bool" where
  "guards h \<longleftrightarrow> can_remove h \<and> finds_pins h \<and> ed11_read_passphrase h \<notin> {None, Some []}"

lemma gated_window:
  assumes "guards h" and "\<And>hash. pass_hash h = Some hash \<Longrightarrow> hash \<in> H" and "gated H s" and "\<not> pin_tree_exists h s"
  shows "along (gated H) s (snd (pin_window h M s))"
proof -
  have bare: "known_links s = []" "dirs_ok s" using assms by (simp_all add: pin_tree_exists_iff gated_def guards_def)
  obtain ok es where w: "ed11_pin_maybe_write_sentinel h s = (ok, es)" using prod.exhaust by blast
  have nopin: "\<forall>e\<in>set (es @ [Set_maps M]). \<not> pins_link e" using maybe_sentinel_effects(1) [OF w] by auto
  have first: "along (gated H) s (es @ [Set_maps M])" using gated_without_links(1) [OF bare nopin] .
  show ?thesis
  proof (cases ok)
    case True
    obtain hash where h: "pass_hash h = Some hash" "es = [Removed_sentinel, Made_sentinel True, Wrote_sentinel hash]"
      using maybe_sentinel_effects(2) [OF w True] assms(1) by (auto simp: guards_def)
    define s1 where "s1 = (after es s)\<lparr>pf_kernel := M\<rparr>"
    have now: "after (es @ [Set_maps M]) s = s1" by (simp add: s1_def)
    obtain ok1 es1 where l: "pin_links h s1 = (ok1, es1)" using prod.exhaust by blast
    have "sealed_by H s1" using h assms(2) by (simp add: s1_def sealed_by_def)
    note 2 = gated_window_sealed [OF _ this gated_without_links(2,3) [OF bare nopin, unfolded now] l]
    have "snd (pin_window h M s) \<in> {[], (es @ [Set_maps M]) @ es1 @ (if ok1 then snd (pin_finish h M (after es1 s1))
        else ed11_unpin_sentinel_unlink h)}"
      by (cases ok1; cases "pin_finish h M (after es1 s1)") (simp_all add: pin_window_def w True Let_def l flip: s1_def)
    then show ?thesis using assms(1,3) first 2(1) [of M] 2(2) by (auto simp: guards_def simp flip: s1_def)
  qed (use first assms(3) in \<open>simp add: pin_window_def w\<close>)
qed

lemma gated_pin:
  assumes "guards h" and "\<And>hash. pass_hash h = Some hash \<Longrightarrow> hash \<in> H" and "gated H s"
  shows "along (gated H) s (snd (pin_action h s))"
proof (cases "snd (pin_action h s) = []")
  case False
  then show ?thesis using gated_window [OF assms] pin_action_window by metis
qed (use assms(3) in simp)

lemma unpin_root_effects:
  assumes "gated H s"
  shows "along (gated H) s (snd (unpin_root h root s))"
proof -
  obtain ok es where l: "sweep_links h s = (ok, es)" using prod.exhaust by blast
  note 1 = gated_sweep_links [OF assms l]
  obtain ok' es' where m: "sweep_maps h (after es s) = (ok', es')" using prod.exhaust by blast
  obtain ns where ns: "es' = map Unlinked_map ns" using sweep_maps_effects [OF m] by metis
  have "\<forall>e\<in>set (es' @ ed11_unpin_sentinel_unlink h). \<not> pins_link e" using rollback_effects(3) [of h] ns by auto
  then have "along (gated H) (after es s) (es' @ ed11_unpin_sentinel_unlink h)" if ok
    using gated_without_links(1) [OF 1(2) [OF that] 1(3)] by blast
  then show ?thesis using assms 1(1)
    by (cases ok; cases ok') (auto simp: unpin_root_def l m split: option.splits)
qed

lemma gated_unpin:
  assumes "gated H s"
  shows "along (gated H) s (snd (unpin_action h req s))"
proof -
  have dir: "along (gated H) s (snd (unpin_dir h root cand s))" for root cand
  proof -
    obtain ok es where l: "sweep_links h s = (ok, es)" using prod.exhaust by blast
    obtain ok' es' where m: "sweep_maps h s = (ok', es')" using prod.exhaust by blast
    obtain ns where "es' = map Unlinked_map ns" using sweep_maps_effects [OF m] by metis
    then have "along (gated H) s es'" using gated_removing(1) [OF assms, of es'] by auto
    then show ?thesis using assms gated_sweep_links(1) [OF assms l]
      by (cases ok; cases ok') (auto simp: unpin_dir_def l m split: option.splits)
  qed
  have "\<forall>e\<in>set (snd (unpin_leaf h root cand s)). \<not> pins_link e \<and> \<not> on_sentinel e"
    for root cand by (auto simp: unpin_leaf_def Let_def split: option.splits if_splits)
  then have leaf: "along (gated H) s (snd (unpin_leaf h root cand s))" for root cand
    using gated_removing(1) [OF assms] by blast
  show ?thesis using assms unpin_root_effects [OF assms] dir leaf
    by (auto simp: unpin_action_def split: resolved.splits option.splits ftype.splits)
qed

text \<open>The hashes the processes of a run may write.\<close>

definition hashes :: "action set \<Rightarrow> string set" where
  "hashes A = {hash. \<exists>h. Pin h \<in> A \<and> pass_hash h = Some hash}"

interpretation gate: killable "{a. case a of Pin h \<Rightarrow> Pin h \<in> A \<and> guards h | Unpin h r \<Rightarrow> True}" "gated (hashes A)" for A
proof
  fix a s
  assume a: "a \<in> {a. case a of Pin h \<Rightarrow> Pin h \<in> A \<and> guards h | Unpin h r \<Rightarrow> True}" and s: "gated (hashes A) s"
  show "along (gated (hashes A)) s (effects_of a s)"
  proof (cases a)
    case (Pin h)
    then show ?thesis using a gated_pin [OF _ _ s, of h] by (auto simp: hashes_def)
  qed (simp add: gated_unpin [OF s])
qed

lemma runs_mono: "runs A s s' \<Longrightarrow> A \<subseteq> B \<Longrightarrow> runs B s s'"
proof (induction rule: runs.induct)
  case (runs_step s' a k)
  then have "runs B s s'" "a \<in> B" by auto
  then show ?case by (rule runs.runs_step)
qed (rule runs_start)

section \<open>Single actions\<close>

definition unknown_links :: "pinfs \<Rightarrow> (string \<times> nat) list" where
  "unknown_links s = filter (\<lambda>x. fst x \<notin> set KNOWN_LINK_NAMES) (pf_links s)"

definition unknown_maps :: "pinfs \<Rightarrow> string list" where
  "unknown_maps s = filter (\<lambda>n. n \<notin> set KNOWN_MAP_NAMES) (pf_maps s)"

lemma sweep_links_all:
  assumes "sweep_links h s = (True, es)" and "dirs_ok s"
  shows "after es s = s\<lparr>pf_links := unknown_links s\<rparr>"
proof -
  obtain ns where ns: "es = map Unlinked_link ns" "pf_links_dir s \<Longrightarrow> ns = known_links s" "set ns \<subseteq> set KNOWN_LINK_NAMES"
    using sweep_links_effects [OF assms(1)] by metis
  show ?thesis
  proof (cases "pf_links_dir s")
    case True
    then have "filter (\<lambda>x. fst x \<notin> set ns) (pf_links s) = unknown_links s"
      unfolding unknown_links_def by (intro filter_cong) (auto simp: ns known_links_def)
    then show ?thesis by (simp add: ns(1))
  qed (use assms(2) in \<open>simp add: ns(1) dirs_ok_def unknown_links_def\<close>)
qed

lemma sweep_maps_all:
  assumes "sweep_maps h s = (True, es)" and "pf_maps_dir s"
  shows "after es s = s\<lparr>pf_maps := unknown_maps s\<rparr>"
proof -
  obtain ns where ns: "es = map Unlinked_map ns" "ns = known_maps s"
    using sweep_maps_effects [OF assms(1)] assms(2) by metis
  have "filter (\<lambda>n. n \<notin> set ns) (pf_maps s) = unknown_maps s"
    unfolding unknown_maps_def by (intro filter_cong) (auto simp: ns known_maps_def)
  then show ?thesis by (simp add: ns(1))
qed

lemma undo_pin_result:
  assumes "can_remove h" and "pf_links_dir s" and "b \<Longrightarrow> pf_maps_dir s"
  shows "after (undo_pin h b s) s
    = s\<lparr>pf_links := unknown_links s, pf_maps := (if b then unknown_maps s else pf_maps s), pf_sentinel := None\<rparr>"
proof -
  define es where "es = (if b then snd (sweep_maps h s) else [])"
  obtain ok' es' where m: "sweep_maps h s = (ok', es')" using prod.exhaust by blast
  have "ok'" using sweep_maps_effects [OF m] assms(1) by metis
  then have 1: "after es s = s\<lparr>pf_maps := (if b then unknown_maps s else pf_maps s)\<rparr>"
    using sweep_maps_all [of h s es'] m assms(3) by (simp add: es_def)
  obtain ok1 es1 where l: "sweep_links h (after es s) = (ok1, es1)" using prod.exhaust by blast
  have ok1 using sweep_links_effects [OF l] assms(1) by metis
  then have "after es1 (after es s) = (after es s)\<lparr>pf_links := unknown_links (after es s)\<rparr>"
    using sweep_links_all [of h "after es s" es1] l assms(2) 1 by (simp add: dirs_ok_def)
  moreover have "undo_pin h b s = es @ es1 @ [Removed_sentinel]" using assms(1)
    unfolding undo_pin_def Let_def es_def [symmetric] l snd_conv by (simp add: ed11_unpin_sentinel_unlink_def can_remove_def)
  ultimately show ?thesis by (simp add: 1 unknown_links_def)
qed

lemma pin_finish_success:
  assumes "pin_finish h M s = (0, es)"
  shows "pf_links (after es s) = pf_links s" and "pf_maps (after es s) = pf_maps s @ counter_names"
    and "pf_sentinel (after es s) = pf_sentinel s" and "pf_maps_dir (after es s)"
    and "self_protect_record_pins h M = (True, pf_kernel (after es s))"
proof -
  obtain ok es0 where c: "pin_counter_maps h s = (ok, es0)" using prod.exhaust by blast
  obtain ok' M' where r: "self_protect_record_pins h M = (ok', M')" using prod.exhaust by blast
  have "ok \<and> ok' \<and> es = es0 @ [Set_maps M']" using assms
    by (auto simp: pin_finish_def c r split: if_splits bool.splits)
  then show "pf_links (after es s) = pf_links s" "pf_maps (after es s) = pf_maps s @ counter_names"
    "pf_sentinel (after es s) = pf_sentinel s" "pf_maps_dir (after es s)"
    "self_protect_record_pins h M = (True, pf_kernel (after es s))"
    using pin_counter_maps_result [OF c] r by simp_all
qed

lemma pin_finish_failure:
  assumes "pin_finish h M s = (rc, es)" and "rc \<noteq> 0" and "can_remove h" and "pf_links_dir s"
  shows "pf_links (after es s) = unknown_links s" and "pf_maps (after es s) \<in> {pf_maps s, unknown_maps s}"
    and "pf_sentinel (after es s) = None"
proof -
  obtain ok es0 where c: "pin_counter_maps h s = (ok, es0)" using prod.exhaust by blast
  obtain ok' M' where r: "self_protect_record_pins h M = (ok', M')" using prod.exhaust by blast
  define s3 where "s3 = (if ph_aborted h 1 then s else if ok then (after es0 s)\<lparr>pf_kernel := M'\<rparr> else after es0 s)"
  define b where "b \<longleftrightarrow> \<not> ph_aborted h 1 \<and> ok"
  have dir: "pf_links_dir s3" using links_dir_kept [OF assms(4), of es0] assms(4) by (simp add: s3_def)
  have maps: "b \<Longrightarrow> pf_maps_dir s3" using pin_counter_maps_result(2) [OF c] by (simp add: s3_def b_def)
  have "after es s = after (undo_pin h b s3) s3" using assms(1,2)
    by (auto simp: pin_finish_def c r s3_def b_def split: if_splits bool.splits)
  with undo_pin_result [OF assms(3) dir, of b] maps have s': "after es s
    = s3\<lparr>pf_links := unknown_links s3, pf_maps := (if b then unknown_maps s3 else pf_maps s3), pf_sentinel := None\<rparr>" by simp
  have "pf_links s3 = pf_links s" using pin_counter_maps_result(4) [OF c] by (simp add: s3_def)
  then show "pf_links (after es s) = unknown_links s" by (simp add: s' unknown_links_def)
  show "pf_sentinel (after es s) = None" by (simp add: s')
  have "unknown_maps s3 = unknown_maps s" if ok "\<not> ph_aborted h 1"
    using pin_counter_maps_result(1) [OF c that(1)] that counter_names_known
    by (auto simp: s3_def unknown_maps_def filter_empty_conv)
  moreover have "pf_maps s3 = pf_maps s" if "\<not> b"
    using pin_counter_maps_result(3) [OF c _ assms(3)] that by (auto simp: s3_def b_def)
  ultimately show "pf_maps (after es s) \<in> {pf_maps s, unknown_maps s}" by (cases b) (auto simp: s' b_def)
qed

text \<open>The steps of the window that were reached.\<close>

lemma pin_window_cases:
  assumes "pin_window h M s = (rc, es)"
  obtains (refused) "rc = 1" and "es = []"
  | (no_sentinel) "rc = 1" and "ed11_pin_maybe_write_sentinel h s = (False, es)" and "\<not> pin_tree_exists h s"
  | (no_links) es1 es2 where "rc = 1" and "\<not> pin_tree_exists h s" and "ed11_pin_maybe_write_sentinel h s = (True, es1)"
      and "pin_links h ((after es1 s)\<lparr>pf_kernel := M\<rparr>) = (False, es2)"
      and "es = es1 @ [Set_maps M] @ es2 @ ed11_unpin_sentinel_unlink h"
  | (links) es1 es2 es3 where "\<not> pin_tree_exists h s" and "ed11_pin_maybe_write_sentinel h s = (True, es1)"
      and "pin_links h ((after es1 s)\<lparr>pf_kernel := M\<rparr>) = (True, es2)"
      and "pin_finish h M (after es2 ((after es1 s)\<lparr>pf_kernel := M\<rparr>)) = (rc, es3)"
      and "es = es1 @ [Set_maps M] @ es2 @ es3"
proof -
  obtain ok1 es1 where w: "ed11_pin_maybe_write_sentinel h s = (ok1, es1)" using prod.exhaust by blast
  obtain ok2 es2 where l: "pin_links h ((after es1 s)\<lparr>pf_kernel := M\<rparr>) = (ok2, es2)" using prod.exhaust by blast
  obtain rc3 es3 where f: "pin_finish h M (after es2 ((after es1 s)\<lparr>pf_kernel := M\<rparr>)) = (rc3, es3)" using prod.exhaust by blast
  have "rc = 1 \<and> es = [] \<or> rc = 1 \<and> \<not> ok1 \<and> es = es1 \<and> \<not> pin_tree_exists h s
    \<or> rc = 1 \<and> \<not> pin_tree_exists h s \<and> ok1 \<and> \<not> ok2 \<and> es = es1 @ [Set_maps M] @ es2 @ ed11_unpin_sentinel_unlink h
    \<or> \<not> pin_tree_exists h s \<and> ok1 \<and> ok2 \<and> rc = rc3 \<and> es = es1 @ [Set_maps M] @ es2 @ es3"
    using assms by (cases ok1; cases ok2) (auto simp: pin_window_def w l f Let_def split: if_splits)
  then show ?thesis using that w l f by metis
qed

text \<open>The sentinel after a \<^verbatim>\<open>--pin\<close> that succeeded.\<close>

definition sentinel_after :: "phost \<Rightarrow> pinfs \<Rightarrow> (bool \<times> string) option" where
  "sentinel_after h s =
     (if ed11_read_passphrase h \<in> {None, Some []} then pf_sentinel s else map_option (Pair True) (pass_hash h))"

lemma sentinel_written:
  assumes "ed11_pin_maybe_write_sentinel h s = (True, es)"
  shows "after es s = s\<lparr>pf_sentinel := sentinel_after h s\<rparr>" and "pass_hash h = None \<Longrightarrow> ed11_read_passphrase h \<in> {None, Some []}"
  using maybe_sentinel_effects(2) [OF assms] by (auto simp: sentinel_after_def pass_hash_def split: option.splits)

lemma sentinel_not_written:
  assumes "ed11_pin_maybe_write_sentinel h s = (False, es)" and "can_remove h"
  shows "pf_links (after es s) = pf_links s" and "pf_maps (after es s) = pf_maps s"
    and "pf_sentinel (after es s) \<in> {None, pf_sentinel s}"
  using assms
  by (auto simp: ed11_pin_maybe_write_sentinel_def ed11_write_sentinel_def ed11_unpin_sentinel_unlink_def can_remove_def Let_def
      split: option.splits if_splits)

lemma pin_action_success:
  assumes "pin_action h s = (0, es)"
  obtains M0 M where "\<not> pin_tree_exists h s" and "ph_load h = Some M0" and "self_protect_populate_early h M0 = Some M"
    and "self_protect_record_pins h M = (True, pf_kernel (after es s))"
    and "pf_links (after es s) = pf_links s @ map (\<lambda>n. (n, prog_of h n)) (pin_names h)"
    and "pf_maps (after es s) = pf_maps s @ counter_names" and "pf_sentinel (after es s) = sentinel_after h s"
    and "pf_links_dir (after es s)" and "pf_maps_dir (after es s)"
    and "pass_hash h = None \<Longrightarrow> ed11_read_passphrase h \<in> {None, Some []}"
proof -
  obtain M0 M where M: "ph_load h = Some M0" "self_protect_populate_early h M0 = Some M" "pin_window h M s = (0, es)"
    using assms by (auto simp: pin_action_def split: if_splits option.splits)
  show ?thesis using M(3)
  proof (cases rule: pin_window_cases)
    case (links es1 es2 es3)
    note w = sentinel_written [OF links(2)] and l = pin_links_result [OF links(3)] and f = pin_finish_success [OF links(4)]
    have s': "after es s = after es3 (after es2 ((after es1 s)\<lparr>pf_kernel := M\<rparr>))" by (simp add: links(5))
    have "pf_links_dir (after es s)" unfolding s' using links_dir_kept [OF l(2)] by simp
    then show ?thesis using that [OF links(1) M(1,2)] l f w(2) unfolding s' by (simp add: w(1))
  qed simp_all
qed

lemma pin_action_failure:
  assumes "pin_action h s = (rc, es)" and "rc \<noteq> 0" and "can_remove h" and "finds_pins h"
  shows "pf_links (after es s) = pf_links s" and "pf_maps (after es s) \<in> {pf_maps s, unknown_maps s}"
    and "pf_sentinel (after es s) \<in> {None, pf_sentinel s}"
proof -
  have "pf_links (after es s) = pf_links s \<and> pf_maps (after es s) \<in> {pf_maps s, unknown_maps s} \<and>
    pf_sentinel (after es s) \<in> {None, pf_sentinel s}"
  proof (cases "es = []")
    case False
    then obtain M where M: "pin_window h M s = (rc, es)"
      using assms(1) by (auto simp: pin_action_def split: if_splits option.splits)
    have unl: "ed11_unpin_sentinel_unlink h = [Removed_sentinel]"
      using assms(3) by (simp add: ed11_unpin_sentinel_unlink_def can_remove_def)
    from M show ?thesis
    proof (cases rule: pin_window_cases)
      case no_sentinel
      then show ?thesis using sentinel_not_written [OF no_sentinel(2) assms(3)] by simp
    next
      case (no_links es1 es2)
      note w = sentinel_written(1) [OF no_links(3)] and l = pin_links_result [OF no_links(4)]
      then show ?thesis using assms(3) by (simp add: no_links(5) unl)
    next
      case (links es1 es2 es3)
      note w = sentinel_written(1) [OF links(2)] and l = pin_links_result [OF links(3)]
      note f = pin_finish_failure [OF links(4) assms(2,3) l(2)]
      have "known_links s = []" using links(1) assms(4) by (simp add: pin_tree_exists_iff)
      then have "unknown_links (after es2 ((after es1 s)\<lparr>pf_kernel := M\<rparr>)) = pf_links s"
        using l(1) pin_names_known [of h]
        by (auto simp: w unknown_links_def known_links_def filter_empty_conv filter_id_conv)
      then show ?thesis using f l(4) by (simp add: links(5) w unknown_maps_def)
    qed (use False in simp)
  qed simp
  then show "pf_links (after es s) = pf_links s" "pf_maps (after es s) \<in> {pf_maps s, unknown_maps s}"
    "pf_sentinel (after es s) \<in> {None, pf_sentinel s}" by auto
qed

section \<open>Waiting for the programs\<close>

lemma poll_programs_zero: "poll_programs h t ids = Some 0 \<longleftrightarrow> (\<forall>i\<in>set ids. ph_prog_errno h t i = ENOENT)"
  by (induction ids) auto

lemma poll_programs_error: "poll_programs h t ids = None \<longleftrightarrow> (\<exists>i\<in>set ids. ph_prog_errno h t i \<notin> {0, ENOENT})"
  by (induction ids) (auto simp: ENOENT_def)

text \<open>The wait ends with success exactly when a poll within the time finds every program gone and none before it fails.\<close>

lemma wait_program_drain_iff:
  "wait_program_drain h ids timeout w \<longleftrightarrow>
     (\<exists>k. poll_programs h (w + 100 * k) ids = Some 0 \<and> (\<forall>j<k. poll_programs h (w + 100 * j) ids \<noteq> None \<and> w + 100 * j < timeout))"
proof (induction h ids timeout w rule: wait_program_drain.induct)
  case (1 h ids timeout w)
  note unfold = wait_program_drain.simps [of h ids timeout w]
  show ?case
  proof (cases "poll_programs h w ids")
    case None
    with unfold show ?thesis by (auto simp: gr0_conv_Suc) (metis None add.right_neutral mult_0_right neq0_conv option.distinct(1))
  next
    case (Some alive)
    show ?thesis
    proof (cases "alive = 0 \<or> w \<ge> timeout")
      case True
      then show ?thesis using Some unfold by (auto intro: exI [of _ 0]) (metis add.right_neutral gr0I leD mult_0_right option.inject)
    next
      case False
      have shift: "w + 100 + 100 * k = w + 100 * Suc k" for k by simp
      have "wait_program_drain h ids timeout w = wait_program_drain h ids timeout (w + 100)" using Some False unfold by simp
      also have "\<dots> \<longleftrightarrow> (\<exists>k. poll_programs h (w + 100 * Suc k) ids = Some 0 \<and>
          (\<forall>j<k. poll_programs h (w + 100 * Suc j) ids \<noteq> None \<and> w + 100 * Suc j < timeout))"
        using 1 [OF Some] False by (simp only: shift) simp
      also have "\<dots> \<longleftrightarrow> (\<exists>k. poll_programs h (w + 100 * k) ids = Some 0 \<and>
          (\<forall>j<k. poll_programs h (w + 100 * j) ids \<noteq> None \<and> w + 100 * j < timeout))" (is "?l \<longleftrightarrow> ?r")
      proof
        assume ?l
        then obtain k where "poll_programs h (w + 100 * Suc k) ids = Some 0"
          "\<forall>j<k. poll_programs h (w + 100 * Suc j) ids \<noteq> None \<and> w + 100 * Suc j < timeout" by blast
        then show ?r using Some False by (intro exI [of _ "Suc k"]) (auto simp: less_Suc_eq_0_disj)
      next
        assume ?r
        then obtain k where k: "poll_programs h (w + 100 * k) ids = Some 0"
          "\<forall>j<k. poll_programs h (w + 100 * j) ids \<noteq> None \<and> w + 100 * j < timeout" by blast
        then obtain k' where "k = Suc k'" using Some False by (cases k) auto
        then show ?l using k by (intro exI [of _ k']) auto
      qed
      finally show ?thesis .
    qed
  qed
qed

lemma drained:
  assumes "unpin_drain_or_warn h ids = 0" and "i \<in> set ids"
  shows "\<exists>t\<le>60000. ph_prog_errno h t i = ENOENT"
proof -
  obtain k where k: "poll_programs h (100 * k) ids = Some 0" "\<forall>j<k. 100 * j < 60000"
    using assms by (auto simp: unpin_drain_or_warn_def wait_program_drain_iff split: if_splits)
  have "100 * k \<le> 60000"
  proof (cases k)
    case (Suc j)
    then show ?thesis using k(2) [rule_format, of j] by simp
  qed simp
  then show ?thesis using k(1) assms(2) by (intro exI [of _ "100 * k"]) (simp add: poll_programs_zero)
qed

lemma drains:
  assumes "\<And>t i. ph_prog_errno h t i \<in> {0, ENOENT}" and "\<And>i. ph_prog_errno h 60000 i = ENOENT"
  shows "unpin_drain_or_warn h ids = 0"
proof -
  let ?gone = "\<lambda>k. poll_programs h (100 * k) ids = Some 0"
  have "?gone 600" using assms(2) by (simp add: poll_programs_zero)
  then have "?gone (LEAST k. ?gone k)" "(LEAST k. ?gone k) \<le> 600"
    using LeastI [of ?gone 600] Least_le [of ?gone 600] by simp_all
  moreover have "poll_programs h t ids \<noteq> None" for t using assms(1) by (auto simp: poll_programs_error)
  ultimately have "wait_program_drain h ids 60000 0"
    unfolding wait_program_drain_iff by (intro exI [of _ "LEAST k. ?gone k"]) auto
  then show ?thesis by (simp add: unpin_drain_or_warn_def)
qed

lemma collect_ids_mono: "collect_ids h s dir ns ids = Some ids' \<Longrightarrow> set ids \<subseteq> set ids'"
  by (induction h s dir ns ids rule: collect_ids.induct) (auto split: if_splits option.splits)

lemma collect_ids_all:
  "collect_ids h s dir ns ids = Some ids' \<Longrightarrow> finds_pins h \<Longrightarrow> n \<in> set ns \<Longrightarrow> map_of (pf_links s) n = Some i \<Longrightarrow> i \<noteq> 0
     \<Longrightarrow> i \<in> set ids'"
proof (induction h s dir ns ids rule: collect_ids.induct)
  case (2 h s dir m ns ids)
  have pinned: "link_errno h s n \<noteq> ENOENT"
    using 2(5) imageI [OF map_of_SomeD [OF 2(7)], of fst] by (simp add: link_errno_def finds_pins_def)
  show ?case
  proof (cases "m = n")
    case True
    then show ?thesis using 2(4,7,8) pinned collect_ids_mono [of h s dir ns ids ids'] collect_ids_mono [of h s dir ns "ids @ [i]" ids']
      by (auto split: if_splits)
  next
    case False
    then have "n \<in> set ns" using 2(6) by simp
    then show ?thesis using 2 by (auto split: if_splits option.splits)
  qed
qed simp

lemma collect_ids_room:
  "\<lbrakk>\<forall>p. ph_obj_get h p = 0; \<forall>p. ph_obj_info h p; \<forall>n\<in>set ns. length dir + 1 + length n < PATH_MAX; length ids + length ns \<le> 64\<rbrakk>
     \<Longrightarrow> \<exists>ids'. collect_ids h s dir ns ids = Some ids'"
proof (induction h s dir ns ids rule: collect_ids.induct)
  case (2 h s dir n ns ids)
  show ?case
  proof (cases "n \<in> fst ` set (pf_links s)")
    case True
    then obtain i where "map_of (pf_links s) n = Some i" by (metis map_of_eq_None_iff not_None_eq)
    then show ?thesis using 2 True by (auto simp: link_errno_def ENOENT_def)
  qed (use 2 in \<open>auto simp: link_errno_def\<close>)
qed simp

end
