(* ===== verification/Pin_Guarantees.thy ===== *)
theory Pin_Guarantees
  imports Pin_Policy Seal_Policy
begin

text \<open>
  The properties of the pin life cycle, with a concrete system on which each is applied, and the
  cases in which the passphrase does not protect what the messages say it protects.
\<close>

section \<open>Self-protection in the maps\<close>

lemma add_loaders_keys:
  "add_loaders h ps ks = Some ks' \<Longrightarrow> set ks' = set ks \<union> {k. \<exists>p\<in>set ps. resolve_binary_key h p = Some k}"
proof (induction ps arbitrary: ks)
  case (Cons p ps)
  then obtain k ks1 where 1: "resolve_binary_key h p = Some k" "add_loader h p ks = Some ks1" "add_loaders h ps ks1 = Some ks'"
    by (auto simp: add_loader_def split: option.splits if_splits)
  then have "set ks1 = insert k (set ks)" by (auto simp: add_loader_def split: if_splits)
  then show ?case using Cons.IH [OF 1(3)] 1(1) by auto
qed auto

lemma add_loaders_bound:
  "add_loaders h ps ks = Some ks' \<Longrightarrow> length ks \<le> COMPARTMENT_MAX_LOADER_IDS \<Longrightarrow> length ks' \<le> COMPARTMENT_MAX_LOADER_IDS"
  by (induction ps arbitrary: ks) (fastforce simp: add_loader_def split: option.splits if_splits)+

lemma add_map_ids_all:
  "add_map_ids h ms ids = Some ids' \<Longrightarrow> ids' i \<noteq> None \<longleftrightarrow> ids i \<noteq> None \<or> Some (Some i) \<in> set ms"
  by (induction h ms ids rule: add_map_ids.induct) (auto split: option.splits if_splits)

lemma protect_each_frame:
  "protect_each h dev ps M = (ok, M') \<Longrightarrow> \<exists>pp. M' = M\<lparr>protected_pins := pp\<rparr>"
proof (induction h dev ps M rule: protect_each.induct)
  case (1 h dev M)
  then have "M' = M\<lparr>protected_pins := protected_pins M\<rparr>" by simp
  then show ?case by blast
next
  case (2 h dev path optional ps M)
  have refl: "\<exists>pp. M = M\<lparr>protected_pins := pp\<rparr>" by (rule exI [of _ "protected_pins M"]) simp
  show ?case using 2 refl by (cases "ph_stat h path") (fastforce simp: Let_def split: if_splits)+
qed

lemma protect_each_pins:
  "protect_each h dev ps M = (True, M') \<Longrightarrow>
     (protected_pins M k \<noteq> None \<longrightarrow> protected_pins M' k \<noteq> None) \<and>
     (\<forall>path\<in>fst ` set ps. \<forall>ino. ph_stat h path = Inr ino \<longrightarrow> protected_pins M' \<lparr>ik_dev = dev, ik_ino = ino\<rparr> \<noteq> None)"
proof (induction h dev ps M arbitrary: k rule: protect_each.induct)
  case (2 h dev path optional ps M)
  show ?case
  proof (cases "ph_stat h path")
    case (Inl e)
    then have rest: "protect_each h dev ps M = (True, M')" and c: "optional \<and> e = ENOENT"
      using 2(3) by (auto split: if_splits)
    show ?thesis using 2(1) [OF Inl c rest] Inl by simp
  next
    case (Inr ino)
    define k0 where "k0 = \<lparr>ik_dev = dev, ik_ino = ino\<rparr>"
    have up: "ph_update h k0" and rest: "protect_each h dev ps (M\<lparr>protected_pins := (protected_pins M)(k0 \<mapsto> 1)\<rparr>) = (True, M')"
      using 2(3) Inr by (auto simp: Let_def k0_def split: if_splits)
    note IH = 2(2) [OF Inr k0_def, of k] 2(2) [OF Inr k0_def, of k0]
    show ?thesis using IH up rest Inr by (auto simp: k0_def)
  qed
qed simp

lemma protected_links: "n \<in> set KNOWN_LINK_NAMES \<Longrightarrow> link_path n \<in> fst ` set protect_paths"
  by (force simp: protect_paths_def)

lemma protected_maps: "n \<in> set KNOWN_MAP_NAMES \<Longrightarrow> map_path n \<in> fst ` set protect_paths"
  by (force simp: protect_paths_def)

text \<open>The maps of a pinned policy: those that were loaded, with the self-protection filled in.\<close>

lemma pinned_maps:
  assumes "pin_action h s = (0, es)" and "ph_self_protect h"
  obtains M0 dev pp ids lo where "ph_load h = Some M0" and "pin_root_dev h = Some dev"
    and "pf_kernel (after es s) = M0\<lparr>loader_ids := lo, protected_map_ids := ids,
      protected_pins := pp, self_protect_cfg_map := Some \<lparr>sp_pin_dev = dev, sp_enabled = 1\<rparr>\<rparr>"
    and "\<And>k. lo k \<noteq> None \<longleftrightarrow>
      loader_ids M0 k \<noteq> None \<or> (\<exists>p\<in>set (''/proc/self/exe'' # ph_successors h). resolve_binary_key h p = Some k)"
    and "\<And>i. ids i \<noteq> None \<longleftrightarrow> protected_map_ids M0 i \<noteq> None \<or> Some (Some i) \<in> set (ph_map_ids h)"
    and "\<And>path ino. path \<in> fst ` set protect_paths \<Longrightarrow> ph_stat h path = Inr ino \<Longrightarrow> pp \<lparr>ik_dev = dev, ik_ino = ino\<rparr> \<noteq> None"
proof -
  obtain M0 M where M: "ph_load h = Some M0" "self_protect_populate_early h M0 = Some M"
    "self_protect_record_pins h M = (True, pf_kernel (after es s))"
    by (rule pin_action_success [OF assms(1)])
  obtain ks ids where early: "add_loaders h (''/proc/self/exe'' # ph_successors h) [] = Some ks"
    "add_map_ids h (ph_map_ids h) (protected_map_ids M0) = Some ids"
    "M = M0\<lparr>loader_ids := (\<lambda>k. if k \<in> set ks then Some 1 else loader_ids M0 k), protected_map_ids := ids,
       self_protect_cfg_map := Some \<lparr>sp_pin_dev = 0, sp_enabled = 1\<rparr>\<rparr>"
    using M(2) assms(2) by (auto simp: self_protect_populate_early_def split: option.splits if_splits)
  obtain dev M1 where late: "pin_root_dev h = Some dev" "protect_each h dev protect_paths M = (True, M1)"
    "pf_kernel (after es s) = M1\<lparr>self_protect_cfg_map := Some \<lparr>sp_pin_dev = dev, sp_enabled = 1\<rparr>\<rparr>"
    using M(3) assms(2) by (auto simp: self_protect_record_pins_def split: option.splits if_splits prod.splits bool.splits)
  obtain pp where pp: "M1 = M\<lparr>protected_pins := pp\<rparr>" using protect_each_frame [OF late(2)] by blast
  show ?thesis
  proof (rule that [OF M(1) late(1)])
    show "pf_kernel (after es s) = M0\<lparr>loader_ids := (\<lambda>k. if k \<in> set ks then Some 1 else loader_ids M0 k), protected_map_ids := ids,
      protected_pins := pp, self_protect_cfg_map := Some \<lparr>sp_pin_dev = dev, sp_enabled = 1\<rparr>\<rparr>"
      by (simp add: late(3) pp early(3))
    show "pp \<lparr>ik_dev = dev, ik_ino = ino\<rparr> \<noteq> None" if "path \<in> fst ` set protect_paths" "ph_stat h path = Inr ino" for path ino
    proof -
      have "protected_pins M1 \<lparr>ik_dev = dev, ik_ino = ino\<rparr> \<noteq> None" using protect_each_pins [OF late(2)] that by blast
      then show ?thesis by (simp add: pp)
    qed
  qed (use add_loaders_keys [OF early(1)] add_map_ids_all [OF early(2)] in auto)
qed

section \<open>A system that says yes\<close>

lemma pin_each_links_ok:
  "distinct ns \<Longrightarrow> \<forall>x\<in>set (pf_links s). fst x \<notin> set ns \<Longrightarrow> \<forall>n\<in>set ns. attached_prog h n \<noteq> None \<Longrightarrow> \<forall>p. ph_pin h p
     \<Longrightarrow> \<exists>pinned es. pin_each (pin_one_link h) ns s = (True, pinned, es)"
proof (induction ns arbitrary: s)
  case (Cons n ns)
  then have 1: "pin_one_link h n s = Some (Pinned_link n (prog_of h n))" by (auto simp: pin_one_link_def prog_of_def)
  have "\<forall>x\<in>set (pf_links (apply_effect (Pinned_link n (prog_of h n)) s)). fst x \<notin> set ns" using Cons.prems by auto
  then obtain pinned es where "pin_each (pin_one_link h) ns (apply_effect (Pinned_link n (prog_of h n)) s) = (True, pinned, es)"
    using Cons.IH Cons.prems by (meson distinct.simps(2) list.set_intros(2))
  then show ?case by (simp only: pin_each.simps 1 option.case prod.case) blast
qed simp

lemma pin_each_maps_ok:
  "distinct ns \<Longrightarrow> \<forall>n\<in>set (pf_maps s). n \<notin> set ns \<Longrightarrow> \<forall>p. ph_pin h p \<Longrightarrow> \<exists>pinned es. pin_each (pin_one_map h) ns s = (True, pinned, es)"
proof (induction ns arbitrary: s)
  case (Cons n ns)
  then have 1: "pin_one_map h n s = Some (Pinned_map n)" by (auto simp: pin_one_map_def)
  have "\<forall>m\<in>set (pf_maps (apply_effect (Pinned_map n) s)). m \<notin> set ns" using Cons.prems by auto
  then obtain pinned es where "pin_each (pin_one_map h) ns (apply_effect (Pinned_map n) s) = (True, pinned, es)"
    using Cons.IH Cons.prems by (meson distinct.simps(2))
  then show ?case by (simp only: pin_each.simps 1 option.case prod.case) blast
qed simp

lemma protect_each_ok:
  "\<forall>p. \<exists>ino. ph_stat h p = Inr ino \<Longrightarrow> \<forall>k. ph_update h k \<Longrightarrow> fst (protect_each h dev ps M)"
proof (induction ps arbitrary: M)
  case (Cons p ps)
  obtain path optional ino where "p = (path, optional)" "ph_stat h path = Inr ino" using Cons.prems(1) by (metis surj_pair)
  then show ?case using Cons by (simp add: Let_def)
qed simp

lemma pin_names_distinct: "distinct (pin_names h)" "distinct counter_names"
  by (simp_all add: pin_names_def counter_names_def)

text \<open>Nothing is in the way of \<^verbatim>\<open>--pin\<close>.\<close>

definition willing :: "phost \<Rightarrow> bool" where
  "willing h \<longleftrightarrow> ensure_bpffs h \<and> pin_lifecycle_lock h \<and> (\<forall>p. ensure_dir h p = (True, [Made_dir p])) \<and> ph_attach h
     \<and> (\<forall>n\<in>set (pin_names h). attached_prog h n \<noteq> None) \<and> (\<forall>p. ph_pin h p) \<and> finds_pins h \<and> can_remove h \<and> \<not> ph_aborted h 0 \<and> \<not> ph_aborted h 1
     \<and> (ed11_read_passphrase h \<in> {None, Some []} \<or> pass_hash h \<noteq> None) \<and> ph_sodium h \<and> ph_sentinel_dir h \<and> ph_sentinel_create h \<and> ph_sentinel_write h \<and> ph_sentinel_stat h = Some True
     \<and> (\<exists>M0. ph_load h = Some M0 \<and> self_protect_populate_early h M0 \<noteq> None)
     \<and> (ph_self_protect h \<longrightarrow> pin_root_dev h \<noteq> None) \<and> (\<forall>p. \<exists>ino. ph_stat h p = Inr ino) \<and> (\<forall>k. ph_update h k) \<and> ph_cfg_update h \<and> ph_freeze h"

lemma record_pins_ok: "willing h \<Longrightarrow> fst (self_protect_record_pins h M)"
  using protect_each_ok [of h _ protect_paths M]
  by (auto simp: willing_def self_protect_record_pins_def split: option.splits prod.splits bool.splits) (metis fst_conv)+

lemma willing_pin:
  assumes "willing h" and "known_links s = []" and "\<forall>n\<in>set (pf_maps s). n \<notin> set counter_names"
  shows "fst (pin_action h s) = 0"
proof -
  obtain M0 M where M: "ph_load h = Some M0" "self_protect_populate_early h M0 = Some M" using assms(1) by (auto simp: willing_def)
  have no_tree: "\<not> pin_tree_exists h s" using assms(1,2) by (simp add: willing_def pin_tree_exists_iff)
  obtain ok1 es1 where w: "ed11_pin_maybe_write_sentinel h s = (ok1, es1)" using prod.exhaust by blast
  have ok1 using w assms(1)
    by (auto simp: willing_def ed11_pin_maybe_write_sentinel_def ed11_write_sentinel_def pass_hash_def can_remove_def Let_def
        split: option.splits if_splits)
  note s1 = sentinel_written(1) [OF w [unfolded \<open>ok1\<close> [THEN eqTrueI]]]
  define s2 where "s2 = (after es1 s)\<lparr>pf_kernel := M\<rparr>"
  have "\<forall>x\<in>set (pf_links s2). fst x \<notin> set (pin_names h)"
    using assms(2) pin_names_known [of h] by (auto simp: s2_def s1 known_links_def filter_empty_conv)
  then obtain pinned es0 where "pin_each (pin_one_link h) (pin_names h) s2 = (True, pinned, es0)"
    using pin_each_links_ok pin_names_distinct(1) assms(1) unfolding willing_def by metis
  then obtain es2 where l: "pin_links h s2 = (True, es2)" using assms(1) by (simp add: willing_def pin_links_def)
  have "\<forall>n\<in>set (pf_maps (after es2 s2)). n \<notin> set counter_names"
    using assms(3) pin_links_result(4) [OF l] by (simp add: s2_def s1)
  then obtain pinned' es0' where "pin_each (pin_one_map h) counter_names (after es2 s2) = (True, pinned', es0')"
    using pin_each_maps_ok pin_names_distinct(2) assms(1) unfolding willing_def by metis
  then obtain es3 where c: "pin_counter_maps h (after es2 s2) = (True, es3)" using assms(1)
    by (simp add: willing_def pin_counter_maps_def)
  obtain M' where r: "self_protect_record_pins h M = (True, M')" using record_pins_ok [OF assms(1), of M] by (metis prod.collapse)
  show ?thesis using assms(1) M no_tree w \<open>ok1\<close> l c r
    by (simp add: pin_action_def pin_window_def pin_finish_def willing_def Let_def flip: s2_def)
qed

section \<open>Unknown entries\<close>

fun names_known :: "effect \<Rightarrow> bool" where
  "names_known (Pinned_link n i) = (n \<in> set KNOWN_LINK_NAMES)"
| "names_known (Pinned_map n) = (n \<in> set KNOWN_MAP_NAMES)"
| "names_known (Unlinked_link n) = (n \<in> set KNOWN_LINK_NAMES)"
| "names_known (Unlinked_map n) = (n \<in> set KNOWN_MAP_NAMES)"
| "names_known _ = True"

lemma unknown_step:
  assumes "names_known e"
  shows "unknown_links (apply_effect e s) = unknown_links s" and "unknown_maps (apply_effect e s) = unknown_maps s"
  using assms
  by (cases e; auto simp: unknown_links_def unknown_maps_def intro!: filter_cong)+

lemma unknown_along:
  "\<forall>e\<in>set es. names_known e \<Longrightarrow> along (\<lambda>s'. unknown_links s' = unknown_links s \<and> unknown_maps s' = unknown_maps s) s es"
proof -
  have "\<forall>e\<in>set es. names_known e \<Longrightarrow> unknown_links s' = L \<Longrightarrow> unknown_maps s' = N \<Longrightarrow>
    along (\<lambda>s'. unknown_links s' = L \<and> unknown_maps s' = N) s' es" for s' L N
    by (induction es arbitrary: s') (auto simp: unknown_step)
  then show "\<forall>e\<in>set es. names_known e \<Longrightarrow> along (\<lambda>s'. unknown_links s' = unknown_links s \<and> unknown_maps s' = unknown_maps s) s es"
    by blast
qed

lemma sweep_names:
  "\<forall>e\<in>set (snd (sweep_links h s)). names_known e" "\<forall>e\<in>set (snd (sweep_maps h s)). names_known e"
proof -
  obtain ok es ok' es' where r: "sweep_links h s = (ok, es)" "sweep_maps h s = (ok', es')" using prod.exhaust by metis
  obtain ns ns' where "es = map Unlinked_link ns" "set ns \<subseteq> set KNOWN_LINK_NAMES"
    "es' = map Unlinked_map ns'" "set ns' \<subseteq> set KNOWN_MAP_NAMES"
    using sweep_links_effects [OF r(1)] sweep_maps_effects [OF r(2)] by metis
  then show "\<forall>e\<in>set (snd (sweep_links h s)). names_known e" "\<forall>e\<in>set (snd (sweep_maps h s)). names_known e"
    by (auto simp: r)
qed

lemma sentinel_names: "\<forall>e\<in>set (ed11_unpin_sentinel_unlink h). names_known e"
  "\<forall>e\<in>set (snd (ed11_pin_maybe_write_sentinel h s)). names_known e"
  by (auto simp: ed11_unpin_sentinel_unlink_def ed11_pin_maybe_write_sentinel_def ed11_write_sentinel_def Let_def split: option.splits)

lemma undo_names: "\<forall>e\<in>set (undo_pin h b s). names_known e"
  using sweep_names sentinel_names(1) by (auto simp: undo_pin_def Let_def)

lemma pin_links_names: "\<forall>e\<in>set (snd (pin_links h s)). names_known e"
proof -
  obtain ok es where r: "pin_links h s = (ok, es)" using prod.exhaust by blast
  then have "\<forall>e\<in>set es. names_known e"
    by (cases rule: pin_links_effects) (use pin_names_known [of h] in \<open>auto simp: unlink_pinned_links_def\<close>)
  then show ?thesis by (simp add: r)
qed

lemma pin_maps_names: "\<forall>e\<in>set (snd (pin_counter_maps h s)). names_known e"
proof -
  obtain ok es where r: "pin_counter_maps h s = (ok, es)" using prod.exhaust by blast
  then have "\<forall>e\<in>set es. names_known e"
    by (cases rule: pin_counter_maps_effects) (use counter_names_known in \<open>auto simp: unlink_pinned_maps_def\<close>)
  then show ?thesis by (simp add: r)
qed

lemma pin_finish_names: "\<forall>e\<in>set (snd (pin_finish h M s)). names_known e"
proof -
  obtain ok es where r: "pin_counter_maps h s = (ok, es)" using prod.exhaust by blast
  obtain ok' M' where r': "self_protect_record_pins h M = (ok', M')" using prod.exhaust by blast
  show ?thesis using pin_maps_names [of h s] undo_names
    by (cases ok; cases ok') (auto simp: pin_finish_def r r')
qed

lemma pin_action_names: "\<forall>e\<in>set (snd (pin_action h s)). names_known e"
proof (cases "snd (pin_action h s) = []")
  case False
  then obtain M where M: "pin_action h s = pin_window h M s" using pin_action_window by metis
  obtain rc es where w: "pin_window h M s = (rc, es)" using prod.exhaust by blast
  then have "\<forall>e\<in>set es. names_known e"
  proof (cases rule: pin_window_cases)
    case no_sentinel
    then show ?thesis using sentinel_names(2) [of h s] by simp
  next
    case (no_links es1 es2)
    have "\<forall>e\<in>set es1. names_known e" "\<forall>e\<in>set es2. names_known e"
      using sentinel_names(2) [of h s] pin_links_names [of h "(after es1 s)\<lparr>pf_kernel := M\<rparr>"] no_links(3,4) by simp_all
    then show ?thesis using sentinel_names(1) by (auto simp: no_links(5))
  next
    case (links es1 es2 es3)
    have "\<forall>e\<in>set es1. names_known e" "\<forall>e\<in>set es2. names_known e" "\<forall>e\<in>set es3. names_known e"
      using sentinel_names(2) [of h s] pin_links_names [of h "(after es1 s)\<lparr>pf_kernel := M\<rparr>"] links(2,3)
        pin_finish_names [of h M "after es2 ((after es1 s)\<lparr>pf_kernel := M\<rparr>)"] links(4) by simp_all
    then show ?thesis by (auto simp: links(5))
  qed simp
  then show ?thesis by (simp add: M w)
qed simp

lemma unpin_action_names: "\<forall>e\<in>set (snd (unpin_action h req s)). names_known e"
proof -
  obtain ok es where l: "sweep_links h s = (ok, es)" using prod.exhaust by blast
  obtain ok1 es1 where m: "sweep_maps h s = (ok1, es1)" using prod.exhaust by blast
  obtain ok2 es2 where m2: "sweep_maps h (after es s) = (ok2, es2)" using prod.exhaust by blast
  have known: "\<forall>e\<in>set es. names_known e" "\<forall>e\<in>set es1. names_known e" "\<forall>e\<in>set es2. names_known e"
    using sweep_names(1) [of h s] sweep_names(2) [of h s] sweep_names(2) [of h "after es s"] l m m2 by simp_all
  have "\<forall>e\<in>set (snd (unpin_root h root s)). names_known e" for root
    using known sentinel_names(1) [of h] by (cases ok; cases ok2) (auto simp: unpin_root_def l m2 split: option.splits)
  moreover have "\<forall>e\<in>set (snd (unpin_dir h root cand s)). names_known e" for root cand
    using known by (cases ok; cases ok1) (auto simp: unpin_dir_def l m split: option.splits)
  moreover have "\<forall>e\<in>set (snd (unpin_leaf h root cand s)). names_known e" for root cand
    by (auto simp: unpin_leaf_def Let_def split: option.splits if_splits)
  ultimately show ?thesis
    by (auto simp: unpin_action_def split: resolved.splits option.splits ftype.splits if_splits)
qed

interpretation unknown: killable UNIV "\<lambda>s. unknown_links s = L \<and> unknown_maps s = N" for L N
proof
  fix a s
  assume s: "unknown_links s = L \<and> unknown_maps s = N"
  have "\<forall>e\<in>set (effects_of a s). names_known e" by (cases a) (simp_all add: pin_action_names unpin_action_names)
  then show "along (\<lambda>s. unknown_links s = L \<and> unknown_maps s = N) s (effects_of a s)" using unknown_along s by blast
qed

interpretation locked: killable "{a. effects_of a s0 = []}" "\<lambda>s. s = s0" for s0
  by unfold_locales simp

section \<open>A concrete system\<close>

definition demo_loaded_maps :: maps where
  "demo_loaded_maps = demo_maps\<lparr>loader_ids := Map.empty, protected_pins := Map.empty, protected_map_ids := Map.empty,
     self_protect_cfg_map := None\<rparr>"

definition pin_stat :: "u32 \<Rightarrow> u32 \<Rightarrow> u64 \<Rightarrow> ustat" where
  "pin_stat major minor ino = \<lparr>us_mode = 0x81ED, us_major = major, us_minor = minor, us_ino = ino, us_nlink = 1, us_size = 0\<rparr>"

definition demo_phost :: phost where
  "demo_phost =
     \<lparr>ph_statfs = Some BPF_FS_MAGIC, ph_mkdir = (\<lambda>_. 0), ph_isdir = (\<lambda>_. Some True), ph_attached = (\<lambda>_. Some 7),
      ph_pin = (\<lambda>_. True), ph_obj_get = (\<lambda>_. 0), ph_obj_info = (\<lambda>_. True), ph_unlink = (\<lambda>_. True), ph_opendir = (\<lambda>_. True),
      ph_lock_open = (0, True), ph_flock = True, ph_load = Some demo_loaded_maps, ph_attach = True, ph_aborted = (\<lambda>_. False),
      ph_env_pass = Some ''sesame'', ph_malloc = True, ph_tty = False, ph_getpass = None, ph_sodium = True, ph_sentinel_dir = True,
      ph_pwhash = (\<lambda>p. Some (CHR ''$'' # p)), ph_pwverify = (\<lambda>c p. c = CHR ''$'' # p), ph_sentinel_create = True,
      ph_sentinel_write = True, ph_sentinel_stat = Some True, ph_sentinel_read = True, ph_realpath = Inr,
      ph_lstat = (\<lambda>_. Some F_reg), ph_prog_errno = (\<lambda>t i. if t < 200 then 0 else ENOENT),
      ph_binary = (\<lambda>_. Some (Some (pin_stat 0 5 99, 0))), ph_successors = [], ph_self_protect = True,
      ph_map_ids = [Some (Some 77), None], ph_map_id_update = (\<lambda>_. True), ph_update = (\<lambda>_. True), ph_cfg_update = True,
      ph_freeze = True, ph_pin_root_stat = Some (pin_stat 0 5 1), ph_stat = (\<lambda>_. Inr 13)\<rparr>"

definition boot :: pinfs where
  "boot = \<lparr>pf_links_dir = False, pf_maps_dir = False, pf_links = [], pf_maps = [''mine''], pf_sentinel = None, pf_kernel = demo_maps\<rparr>"

lemma demo_facts:
  "ensure_bpffs demo_phost" "pin_lifecycle_lock demo_phost" "finds_pins demo_phost" "can_remove demo_phost"
  "ed11_read_passphrase demo_phost = Some ''sesame''" "pass_hash demo_phost = Some ''$sesame''"
  by (simp_all add: demo_phost_def ensure_bpffs_def pin_lifecycle_lock_def finds_pins_def can_remove_def ed11_read_passphrase_def
      pass_hash_def ENOENT_def)

lemma demo_key: "resolve_binary_key demo_phost p = Some \<lparr>ik_dev = 5, ik_ino = 99\<rparr>"
  by (simp add: resolve_binary_key_def demo_phost_def pin_stat_def s_isreg_def S_IFMT_def S_IFREG_def S_IWOTH_def S_IWGRP_def
      kernel_dev_def)

lemma demo_willing: "willing demo_phost"
proof -
  have "self_protect_populate_early demo_phost demo_loaded_maps \<noteq> None"
    using demo_key by (simp add: self_protect_populate_early_def add_loader_def)
       (simp add: demo_phost_def COMPARTMENT_MAX_LOADER_IDS_def)
  moreover have "pin_root_dev demo_phost \<noteq> None" by (simp add: pin_root_dev_def demo_phost_def pin_stat_def kernel_dev_def)
  moreover have "attached_prog demo_phost n \<noteq> None" for n by (simp add: attached_prog_def demo_phost_def)
  ultimately show ?thesis using demo_facts by (simp add: willing_def) (simp add: demo_phost_def ensure_dir_def)
qed

lemma boot_facts: "known_links boot = []" "\<forall>n\<in>set (pf_maps boot). n \<notin> set counter_names"
  by (simp_all add: boot_def known_links_def counter_names_def)

lemmas demo_pin_ok = willing_pin [OF demo_willing boot_facts]

section \<open>Properties\<close>

text \<open>
  C12: starting without pins, let any sequence of \<^verbatim>\<open>--pin\<close> processes that are given a passphrase and of
  \<^verbatim>\<open>--unpin\<close> processes run, each possibly killed at any moment.  As long as the removals of the \<^verbatim>\<open>--pin\<close> processes
  succeed (every \<^verbatim>\<open>unlink\<close> and \<^verbatim>\<open>opendir\<close> of their rollback, see \<^verbatim>\<open>rollback_drops_gate\<close>) and an existing pin is
  not reported to them as absent, in every state they can leave behind in which a pin of
  the policy exists, the sentinel exists with the right type, owner and mode and holds the hash
  of a passphrase that one of the \<^verbatim>\<open>--pin\<close> processes was given: pins never stand without their gate.
\<close>

theorem pins_never_without_sentinel:
  assumes "runs A s s'" and "\<forall>h. Pin h \<in> A \<longrightarrow> ed11_read_passphrase h \<notin> {None, Some []}"
    and "\<forall>h p. Pin h \<in> A \<longrightarrow> ph_unlink h p \<and> ph_opendir h p"
    and "\<forall>h p. Pin h \<in> A \<longrightarrow> ph_obj_get h p \<noteq> ENOENT"
    and "pf_links s = []" and "known_links s' \<noteq> []"
  shows "\<exists>h p hash. Pin h \<in> A \<and> ed11_read_passphrase h = Some p \<and> p \<noteq> [] \<and> ph_pwhash h p = Some hash \<and>
    pf_sentinel s' = Some (True, hash)"
proof -
  have "gated (hashes A) s" using assms(5) by (simp add: gated_def dirs_ok_def known_links_def)
  moreover have "A \<subseteq> {a. case a of Pin h \<Rightarrow> Pin h \<in> A \<and> guards h | Unpin h r \<Rightarrow> True}"
    using assms(2-4) by (auto simp: guards_def can_remove_def finds_pins_def split: action.splits)
  ultimately have "gated (hashes A) s'" using gate.runs_keep runs_mono [OF assms(1)] by blast
  then show ?thesis using assms(6)
    by (fastforce simp: gated_def sealed_by_def hashes_def pass_hash_def split: option.splits if_splits)
qed

lemma demo_pinned:
  defines "es \<equiv> snd (pin_action demo_phost boot)"
  shows "pin_action demo_phost boot = (0, es)" and "known_links (after es boot) \<noteq> []"
    and "pf_sentinel (after es boot) = Some (True, ''$sesame'')"
    and "runs {Pin demo_phost} boot (after es boot)"
proof -
  show p: "pin_action demo_phost boot = (0, es)" using demo_pin_ok by (metis es_def prod.collapse)
  have "pf_links (after es boot) = pf_links boot @ map (\<lambda>n. (n, prog_of demo_phost n)) (pin_names demo_phost)"
    and sn: "pf_sentinel (after es boot) = sentinel_after demo_phost boot"
    using pin_action_success [OF p] by metis+
  then show "known_links (after es boot) \<noteq> []"
    by (auto simp: known_links_def KNOWN_LINK_NAMES_def pin_names_def)
  show "pf_sentinel (after es boot) = Some (True, ''$sesame'')" using demo_facts by (simp add: sn sentinel_after_def)
  show "runs {Pin demo_phost} boot (after es boot)"
    using runs_step [OF runs_start, where a = "Pin demo_phost" and A = "{Pin demo_phost}" and k = "length es" and s = boot]
    by (simp add: es_def)
qed

theorem pins_never_without_sentinel_witness:
  "\<exists>h p hash. Pin h \<in> {Pin demo_phost} \<and> ed11_read_passphrase h = Some p \<and> p \<noteq> [] \<and> ph_pwhash h p = Some hash \<and>
    pf_sentinel (after (snd (pin_action demo_phost boot)) boot) = Some (True, hash)"
  using pins_never_without_sentinel [OF demo_pinned(4) _ _ _ _ demo_pinned(2)] demo_facts
  by (simp add: can_remove_def finds_pins_def boot_def)

text \<open>
  C13: once a policy is pinned behind the hash of a passphrase, no sequence of \<^verbatim>\<open>--pin\<close> and \<^verbatim>\<open>--unpin\<close> processes
  that are not given this passphrase changes anything of the pin tree, the sentinel or the maps, whatever paths they
  name and wherever they are killed.  The hash verifies only its own passphrase, and an existing pin is not
  reported as absent.
\<close>

theorem unpin_needs_passphrase:
  assumes "runs A s s'" and "known_links s \<noteq> []" and "pf_sentinel s = Some (right, hash)"
    and "\<forall>a\<in>A. finds_pins (host_of a) \<and> ed11_read_passphrase (host_of a) \<noteq> Some p \<and>
      (\<forall>q. ph_pwverify (host_of a) (take 127 hash) q \<longrightarrow> q = p)"
  shows "s' = s"
proof -
  have "effects_of a s = []" if "a \<in> A" for a
  proof (cases a)
    case (Pin h)
    then have "pin_tree_exists h s" using assms(2,4) that by (auto simp: pin_tree_exists_iff)
    then show ?thesis by (simp add: Pin pin_action_def)
  next
    case (Unpin h req)
    then have "\<not> ed11_unpin_authgate h s" using assms(3,4) that by (auto simp: ed11_unpin_authgate_def split: option.splits)
    then show ?thesis by (simp add: Unpin unpin_action_def)
  qed
  then have "A \<subseteq> {a. effects_of a s = []}" by blast
  then show ?thesis using locked.runs_keep runs_mono [OF assms(1)] by blast
qed

text \<open>Somebody with another passphrase.\<close>

definition demo_intruder :: phost where
  "demo_intruder = demo_phost\<lparr>ph_env_pass := Some ''guess''\<rparr>"

theorem unpin_needs_passphrase_witness:
  "after (snd (unpin_action demo_intruder None (after (snd (pin_action demo_phost boot)) boot)))
     (after (snd (pin_action demo_phost boot)) boot) = after (snd (pin_action demo_phost boot)) boot"
    (is "after ?es ?s = ?s")
proof -
  have "runs {Unpin demo_intruder None} ?s (after (take (length ?es) (effects_of (Unpin demo_intruder None) ?s)) ?s)"
    by (rule runs_step [OF runs_start]) simp
  then have r: "runs {Unpin demo_intruder None} ?s (after ?es ?s)" by simp
  show ?thesis
    by (rule unpin_needs_passphrase [OF r demo_pinned(2,3), where p = "''sesame''"])
      (simp add: demo_intruder_def demo_phost_def finds_pins_def ed11_read_passphrase_def ENOENT_def)
qed

text \<open>
  Nothing but the names of the policy is ever touched: whatever \<^verbatim>\<open>--pin\<close> and \<^verbatim>\<open>--unpin\<close> processes run, with
  whatever paths and failures and wherever they are killed, the entries of the two directories
  with other names stay, in their order.
\<close>

theorem unknown_entries_kept:
  assumes "runs A s s'"
  shows "unknown_links s' = unknown_links s \<and> unknown_maps s' = unknown_maps s"
  using unknown.runs_keep [OF runs_mono [OF assms subset_UNIV], of "unknown_links s" "unknown_maps s"] by simp

theorem unknown_entries_kept_witness:
  "unknown_maps (after (snd (pin_action demo_phost boot)) boot) = [''mine'']"
  using unknown_entries_kept [OF demo_pinned(4)] by (simp add: unknown_maps_def boot_def KNOWN_MAP_NAMES_def)

text \<open>
  \<^verbatim>\<open>--pin\<close> takes effect wholly or not at all.  When it returns 0, every link of the policy is pinned with the program
  attached to it, every counter map is pinned and the sentinel holds the hash of the passphrase,
  if one was given; otherwise, as long as the system lets it remove what it made, the links are those from before, the maps
  are those from before (at most without stale ones of the policy) and the sentinel is gone or the old one.
\<close>

theorem pin_all_or_nothing:
  assumes "pin_action h s = (rc, es)" and "can_remove h" and "finds_pins h"
  shows "if rc = 0
    then pf_links (after es s) = pf_links s @ map (\<lambda>n. (n, the (attached_prog h n))) (pin_names h) \<and>
      pf_maps (after es s) = pf_maps s @ counter_names \<and> pf_sentinel (after es s) = sentinel_after h s
    else pf_links (after es s) = pf_links s \<and> pf_maps (after es s) \<in> {pf_maps s, unknown_maps s} \<and>
      pf_sentinel (after es s) \<in> {None, pf_sentinel s}"
proof (cases "rc = 0")
  case True
  then have p: "pin_action h s = (0, es)" using assms(1) by simp
  show ?thesis by (rule pin_action_success [OF p]) (simp add: True prog_of_def)
next
  case False
  then show ?thesis using pin_action_failure [OF assms(1) False assms(2,3)] by simp
qed

theorem pin_all_or_nothing_witness:
  "pf_maps (after (snd (pin_action demo_phost boot)) boot) = ''mine'' # counter_names"
  using pin_all_or_nothing [OF demo_pinned(1) demo_facts(4,3)] by (simp add: boot_def)

section \<open>Removal\<close>

text \<open>A system that lets the holder of the passphrase remove the tree; the programs are released within the minute.\<close>

definition able :: "phost \<Rightarrow> string \<Rightarrow> bool" where
  "able u root \<longleftrightarrow> ensure_bpffs u \<and> pin_lifecycle_lock u \<and> can_remove u \<and> (\<forall>p. ph_obj_get u p = 0) \<and> (\<forall>p. ph_obj_info u p) \<and>
     ph_realpath u PIN_ROOT = Inr root \<and> length root + 40 < PATH_MAX \<and> ph_sentinel_read u \<and> ph_sodium u \<and>
     (\<forall>t i. ph_prog_errno u t i \<in> {0, ENOENT}) \<and> (\<forall>i. ph_prog_errno u 60000 i = ENOENT)"

lemma known_name_sizes: "length KNOWN_LINK_NAMES = 30" "\<forall>n\<in>set KNOWN_LINK_NAMES. length n \<le> 25"
  by (simp_all add: KNOWN_LINK_NAMES_def)

lemma able_root_unpin:
  assumes "able u root" and "pf_links_dir s" and "pf_maps_dir s"
  obtains es where "unpin_root u root s = (0, es)" and "after es s = s\<lparr>pf_links := unknown_links s, pf_maps := unknown_maps s, pf_sentinel := None\<rparr>"
proof -
  obtain ids where c: "collect_link_prog_ids u s (root @ ''/links'') = Some ids"
    using collect_ids_room [of u KNOWN_LINK_NAMES "root @ ''/links''" "[]" s] assms(1) known_name_sizes
    by (fastforce simp: collect_link_prog_ids_def able_def)
  obtain ok es where l: "sweep_links u s = (ok, es)" using prod.exhaust by blast
  obtain ok' es' where m: "sweep_maps u (after es s) = (ok', es')" using prod.exhaust by blast
  have ok: "ok = True" "ok' = True" using sweep_links_effects [OF l] sweep_maps_effects [OF m] assms(1) unfolding able_def by metis+
  have 1: "after es s = s\<lparr>pf_links := unknown_links s\<rparr>"
    using sweep_links_all l assms(2) ok by (auto simp: dirs_ok_def)
  have 2: "after es' (after es s) = (after es s)\<lparr>pf_maps := unknown_maps (after es s)\<rparr>"
    using sweep_maps_all m ok maps_dir_kept [OF assms(3)] by blast
  have "unpin_root u root s = (0, es @ es' @ [Removed_sentinel])"
    using assms(1) c l m ok drains [of u ids]
    by (simp add: unpin_root_def able_def ed11_unpin_sentinel_unlink_def can_remove_def)
  then show ?thesis using that 1 2 by (simp add: unknown_maps_def)
qed

text \<open>
  C31: pinning and removing are inverse: after a successful \<^verbatim>\<open>--pin\<close> with a passphrase, \<^verbatim>\<open>--unpin\<close> without an argument by
  somebody who gives the same passphrase returns 0 and restores the link directory exactly, leaves the map
  directory with the entries that are not the policy's own, and removes the sentinel.  The hash of a passphrase
  fits the buffer and verifies it.
\<close>

theorem pin_unpin_roundtrip:
  assumes "pin_action h s = (0, es)" and "finds_pins h" and "able u root"
    and "ed11_read_passphrase h = Some p" and "p \<noteq> []" and "ed11_read_passphrase u = Some p"
    and "\<forall>hash. ph_pwhash h p = Some hash \<longrightarrow> hash \<noteq> [] \<and> length hash < 128 \<and> ph_pwverify u hash p"
  shows "fst (unpin_action u None (after es s)) = 0 \<and>
    pf_links (after (snd (unpin_action u None (after es s))) (after es s)) = pf_links s \<and>
    pf_maps (after (snd (unpin_action u None (after es s))) (after es s)) = unknown_maps s \<and>
    pf_sentinel (after (snd (unpin_action u None (after es s))) (after es s)) = None"
proof -
  define s1 where "s1 = after es s"
  obtain M0 M where p: "\<not> pin_tree_exists h s" "pf_links s1 = pf_links s @ map (\<lambda>n. (n, prog_of h n)) (pin_names h)"
    "pf_maps s1 = pf_maps s @ counter_names" "pf_sentinel s1 = sentinel_after h s" "pf_links_dir s1" "pf_maps_dir s1"
    "pass_hash h = None \<Longrightarrow> ed11_read_passphrase h \<in> {None, Some []}"
    using pin_action_success [OF assms(1)] unfolding s1_def by metis
  obtain hash where hash: "ph_pwhash h p = Some hash" "pf_sentinel s1 = Some (True, hash)"
    using p(4,7) assms(4,5) by (auto simp: sentinel_after_def pass_hash_def)
  have gate: "ed11_unpin_authgate u s1" using hash assms(3,6,7) by (simp add: ed11_unpin_authgate_def able_def)
  obtain es' where r: "unpin_root u root s1 = (0, es')"
    "after es' s1 = s1\<lparr>pf_links := unknown_links s1, pf_maps := unknown_maps s1, pf_sentinel := None\<rparr>"
    by (rule able_root_unpin [OF assms(3) p(5,6)])
  have "unpin_action u None s1 = (0, es')" using assms(3) gate r(1)
    by (simp add: unpin_action_def unpin_resolve_def able_def)
  moreover have "unknown_links s1 = pf_links s"
    using p(1,2) assms(2) pin_names_known [of h] unfolding unknown_links_def p(2)
    by (auto simp: pin_tree_exists_iff known_links_def filter_empty_conv filter_id_conv)
  moreover have "unknown_maps s1 = unknown_maps s"
    using counter_names_known unfolding unknown_maps_def p(3) by (auto simp: filter_empty_conv)
  ultimately show ?thesis using r(2) by (simp flip: s1_def)
qed

lemma demo_able: "able demo_phost PIN_ROOT"
  using demo_facts by (simp add: able_def) (simp add: demo_phost_def PIN_ROOT_def PATH_MAX_def)

theorem pin_unpin_roundtrip_witness:
  "pf_links (after (snd (unpin_action demo_phost None (after (snd (pin_action demo_phost boot)) boot)))
     (after (snd (pin_action demo_phost boot)) boot)) = []"
  using pin_unpin_roundtrip [OF demo_pinned(1) demo_facts(3) demo_able demo_facts(5) _ demo_facts(5)]
  by (simp add: boot_def) (simp add: demo_phost_def)

lemma unpin_leaf_zero:
  assumes "unpin_leaf h root cand s = (0, es)"
  shows "\<exists>leaf. es = [Unlinked_link leaf] \<and> unpin_drain_or_warn h (leaf_prog_ids s leaf) = 0 \<or> es = [Unlinked_map leaf]"
  using assms by (auto simp: unpin_leaf_def Let_def split: option.splits if_splits)

text \<open>The ways \<^verbatim>\<open>--unpin\<close> returns 0: nothing removed, only maps removed, or links removed and drained.\<close>

lemma unpin_zero_cases:
  assumes "unpin_action h req s = (0, es)"
  shows "(\<exists>ns. es = map Unlinked_map ns) \<or> (\<exists>dir ids. collect_link_prog_ids h s dir = Some ids \<and> unpin_drain_or_warn h ids = 0) \<or>
    (\<exists>leaf. es = [Unlinked_link leaf] \<and>
       unpin_drain_or_warn h (leaf_prog_ids s leaf) = 0)"
    (is "?P es")
proof -
  obtain ok es1 where l: "sweep_links h s = (ok, es1)" using prod.exhaust by blast
  obtain ok1 es2 where m: "sweep_maps h s = (ok1, es2)" using prod.exhaust by blast
  obtain ok2 es3 where m2: "sweep_maps h (after es1 s) = (ok2, es3)" using prod.exhaust by blast
  obtain ns where ns: "es2 = map Unlinked_map ns" using sweep_maps_effects [OF m] by metis
  have none: "?P []" by (intro disjI1 exI [of _ "[]"]) simp
  have "?P es" if "unpin_root h root s = (0, es)" for root
    using that by (cases ok; cases ok2) (auto simp: unpin_root_def l m2 split: option.splits if_splits)
  moreover have "?P es" if "unpin_dir h root cand s = (0, es)" for root cand
    using that ns by (cases ok; cases ok1) (auto simp: unpin_dir_def l m split: option.splits if_splits)
  moreover have "?P es" if "unpin_leaf h root cand s = (0, es)" for root cand
    using unpin_leaf_zero [OF that] by (metis list.simps(8,9))
  ultimately show ?thesis using assms none
    unfolding unpin_action_def by (auto simp del: map_is_Nil_conv split: if_split_asm resolved.split_asm option.split_asm ftype.split_asm)
qed

text \<open>
  When \<^verbatim>\<open>--unpin\<close>, of the whole tree, a directory or a single pin, returns 0, every program whose link pin it removed
  has been released by the kernel: a look-up of its id within the sixty seconds of the wait found nothing.
\<close>

theorem unpin_zero_means_released:
  assumes "unpin_action h req s = (0, es)" and "finds_pins h" and "map_of (pf_links s) n = Some i" and "i \<noteq> 0"
    and "n \<notin> fst ` set (pf_links (after es s))"
  shows "\<exists>t\<le>60000. ph_prog_errno h t i = ENOENT"
proof -
  have in_s: "n \<in> fst ` set (pf_links s)" using map_of_SomeD [OF assms(3)] by force
  have known: "n \<in> set KNOWN_LINK_NAMES"
  proof (rule ccontr)
    assume no: "n \<notin> set KNOWN_LINK_NAMES"
    have "along (\<lambda>s'. unknown_links s' = unknown_links s \<and> unknown_maps s' = unknown_maps s) s es"
      using unknown_along unpin_action_names [of h req s] assms(1) by simp
    then have "unknown_links (after es s) = unknown_links s" using along_after by fast
    moreover have "(n, i) \<in> set (unknown_links s)" using map_of_SomeD [OF assms(3)] no by (simp add: unknown_links_def)
    ultimately have "(n, i) \<in> set (unknown_links (after es s))" by simp
    then have "(n, i) \<in> set (pf_links (after es s))" by (simp add: unknown_links_def)
    then show False using assms(5) by force
  qed
  have collected: "i \<in> set ids" if "collect_link_prog_ids h s dir = Some ids" for dir ids
    using collect_ids_all [of h s dir KNOWN_LINK_NAMES "[]" ids] that assms(2-4) known by (simp add: collect_link_prog_ids_def)
  have still: "es \<noteq> map Unlinked_map ns" for ns using assms(5) in_s by auto
  consider (dir) dir ids where "collect_link_prog_ids h s dir = Some ids" "unpin_drain_or_warn h ids = 0"
    | (leaf) leaf where "es = [Unlinked_link leaf]" "unpin_drain_or_warn h (leaf_prog_ids s leaf) = 0"
    using unpin_zero_cases [OF assms(1)] still by blast
  then show ?thesis
  proof cases
    case (dir dir ids)
    then show ?thesis using drained collected by blast
  next
    case (leaf leaf)
    then have "n = leaf" using assms(5) in_s by auto
    then show ?thesis using drained [OF leaf(2)] assms(3,4) by (simp add: leaf_prog_ids_def)
  qed
qed

definition demo_tree :: pinfs where
  "demo_tree = boot\<lparr>pf_links_dir := True, pf_maps_dir := True, pf_links := [(''comp_inode_unlink'', 7)]\<rparr>"

theorem unpin_zero_means_released_witness:
  "\<exists>t\<le>60000. ph_prog_errno demo_phost t 7 = ENOENT"
proof -
  have dirs: "pf_links_dir demo_tree" "pf_maps_dir demo_tree" by (simp_all add: demo_tree_def)
  obtain es where r: "unpin_root demo_phost PIN_ROOT demo_tree = (0, es)"
    "after es demo_tree = demo_tree\<lparr>pf_links := unknown_links demo_tree, pf_maps := unknown_maps demo_tree, pf_sentinel := None\<rparr>"
    by (rule able_root_unpin [OF demo_able dirs])
  have "ed11_unpin_authgate demo_phost demo_tree" by (simp add: ed11_unpin_authgate_def demo_tree_def boot_def)
  then have u: "unpin_action demo_phost None demo_tree = (0, es)"
    using demo_able r(1) by (simp add: unpin_action_def unpin_resolve_def able_def)
  have gone: "''comp_inode_unlink'' \<notin> fst ` set (pf_links (after es demo_tree))" unfolding r(2)
    by (simp add: unknown_links_def KNOWN_LINK_NAMES_def demo_tree_def)
  show ?thesis
    by (rule unpin_zero_means_released [OF u demo_facts(3) _ _ gone]) (simp_all add: demo_tree_def)
qed

section \<open>The pinned policy in the kernel\<close>

text \<open>
  C14: from \<^verbatim>\<open>--pin --self-protect\<close> to the verdict of the LSM programs.  When it returns 0, the seals and launchers in the
  kernel are those of the loaded profile; a program that is neither the image that pinned nor one of the
  authorised successors cannot unlink, rename or remove a pinned link or map or mount over it, and gets no
  descriptor to any map of the policy.
\<close>

theorem pinned_tree_protected:
  assumes "pin_action h s = (0, es)" and "ph_self_protect h" and "ph_load h = Some M0" and "loader_ids M0 = Map.empty"
    and "pin_root_dev h = Some dev"
    and "path \<in> link_path ` set KNOWN_LINK_NAMES \<union> map_path ` set KNOWN_MAP_NAMES" and "ph_stat h path = Inr ino"
    and "dentry_inode K d = Some a" and "inode_key_of K (Some a) = \<lparr>ik_dev = dev, ik_ino = ino\<rparr>"
    and "\<forall>p\<in>set (''/proc/self/exe'' # ph_successors h). resolve_binary_key h p \<noteq> caller_key K"
    and "Some (Some i) \<in> set (ph_map_ids h)"
  shows "list_all (lsm_denied K (pf_kernel (after es s)))
      [Unlink d, Rmdir d, Rename d other, Rename other d, Mount \<lparr>p_mnt = pm, p_dentry = d\<rparr> MS_BIND, Bpf_map (Some i)] \<and>
    sealed_inodes (pf_kernel (after es s)) = sealed_inodes M0 \<and> sealed_dirs (pf_kernel (after es s)) = sealed_dirs M0 \<and>
    launcher_to_actor (pf_kernel (after es s)) = launcher_to_actor M0"
proof -
  obtain pp ids lo where M: "pf_kernel (after es s) = M0\<lparr>loader_ids := lo, protected_map_ids := ids,
      protected_pins := pp, self_protect_cfg_map := Some \<lparr>sp_pin_dev = dev, sp_enabled = 1\<rparr>\<rparr>"
    and lo: "\<And>k. lo k \<noteq> None \<longleftrightarrow> (\<exists>p\<in>set (''/proc/self/exe'' # ph_successors h). resolve_binary_key h p = Some k)"
    and ids: "\<And>i. Some (Some i) \<in> set (ph_map_ids h) \<Longrightarrow> ids i \<noteq> None"
    and pp: "\<And>path ino. path \<in> fst ` set protect_paths \<Longrightarrow> ph_stat h path = Inr ino \<Longrightarrow> pp \<lparr>ik_dev = dev, ik_ino = ino\<rparr> \<noteq> None"
    by (rule pinned_maps [OF assms(1,2)]) (use assms(3-5) in simp)
  define M' where "M' = pf_kernel (after es s)"
  have "dev \<noteq> 0" using assms(5) by (auto simp: pin_root_dev_def kernel_dev_nonzero split: option.splits)
  moreover have "path \<in> fst ` set protect_paths" using assms(6) protected_links protected_maps by blast
  moreover have loader: "\<not> is_loader K M'" using assms(10) lo by (auto simp: is_loader_def M'_def M split: option.splits)
  ultimately have "pin_denied K M' (dentry_inode K d)"
    using pp [OF _ assms(7)] assms(8,9) by (simp add: pin_denied_def self_protect_def M'_def M Let_def)
  then have "list_all (lsm_denied K M')
      [Unlink d, Rmdir d, Rename d other, Rename other d, Mount \<lparr>p_mnt = pm, p_dentry = d\<rparr> MS_BIND, Bpf_map (Some i)]"
    using loader ids [OF assms(11)]
    by (simp add: map_fd_denied_def unlink_denied_def rename_denied_def mount_denied_def attaches_def path_mount_op_def MS_BIND_def
        MS_REMOUNT_def self_protect_def) (simp add: M'_def M)
  then show ?thesis by (simp add: M'_def M)
qed

theorem pinned_tree_protected_witness:
  "lsm_denied demo_kernel (pf_kernel (after (snd (pin_action demo_phost boot)) boot)) (Unlink (Some 3))"
proof -
  have "resolve_binary_key demo_phost p \<noteq> caller_key demo_kernel" for p
    by (simp add: demo_key demo_kernel_def caller_key_def file_inode_def inode_key_of_def sb_dev_def)
  then show ?thesis
    using pinned_tree_protected [OF demo_pinned(1), where dev = 5 and path = "link_path ''comp_inode_unlink''" and ino = 13
        and K = demo_kernel and d = "Some 3" and a = 13 and i = 77 and ?M0.0 = demo_loaded_maps]
    by (simp add: demo_phost_def demo_loaded_maps_def pin_root_dev_def kernel_dev_def pin_stat_def KNOWN_LINK_NAMES_def demo_kernel_def
        dentry_inode_def inode_key_of_def sb_dev_def)
qed

section \<open>Where the gate is not what the messages say\<close>

text \<open>
  C32: a passphrase of more than 4096 bytes is reported as too long and then treated as if none had been given: \<^verbatim>\<open>--pin\<close>
  goes on and leaves the sentinel as it found it.  Without an earlier sentinel the pinned policy is open to every \<^verbatim>\<open>--unpin\<close>
  that reaches the gate; with one left over from an earlier boot of the tree, \<^verbatim>\<open>--unpin\<close> asks for the old passphrase
  although \<^verbatim>\<open>--pin\<close> announced that it would require none.
\<close>

theorem overlong_passphrase_ignored:
  assumes "pin_action h s = (0, es)" and "ph_env_pass h = Some env" and "length env > 4096"
  shows "pf_sentinel (after es s) = pf_sentinel s \<and>
    (pf_sentinel s = None \<longrightarrow> ed11_unpin_authgate u (after es s)) \<and>
    (pf_sentinel s \<noteq> None \<and> ed11_read_passphrase u = None \<longrightarrow> \<not> ed11_unpin_authgate u (after es s))"
proof -
  have "ed11_read_passphrase h = None" using assms(2,3) by (auto simp: ed11_read_passphrase_def)
  then have "pf_sentinel (after es s) = pf_sentinel s"
    using pin_action_success [OF assms(1)] by (metis insertI1 sentinel_after_def)
  then show ?thesis by (auto simp: ed11_unpin_authgate_def split: option.splits)
qed

definition demo_overlong :: phost where
  "demo_overlong = demo_phost\<lparr>ph_env_pass := Some (replicate 5000 CHR ''a''), ph_self_protect := False\<rparr>"

theorem overlong_passphrase_ignored_witness:
  "ed11_unpin_authgate demo_intruder (after (snd (pin_action demo_overlong boot)) boot)"
proof -
  have "self_protect_populate_early demo_overlong M = Some M" for M
    by (simp add: self_protect_populate_early_def demo_overlong_def)
  moreover have "ed11_read_passphrase demo_overlong = None" by (simp add: demo_overlong_def ed11_read_passphrase_def)
  moreover have "attached_prog demo_overlong = attached_prog demo_phost" "pin_names demo_overlong = pin_names demo_phost"
    "ensure_bpffs demo_overlong = ensure_bpffs demo_phost" "pin_lifecycle_lock demo_overlong = pin_lifecycle_lock demo_phost"
    "ensure_dir demo_overlong = ensure_dir demo_phost" "pin_root_dev demo_overlong = pin_root_dev demo_phost"
    "finds_pins demo_overlong = finds_pins demo_phost" "can_remove demo_overlong = can_remove demo_phost"
    by (auto simp: fun_eq_iff attached_prog_def pin_names_def ensure_bpffs_def pin_lifecycle_lock_def ensure_dir_def pin_root_dev_def
        finds_pins_def can_remove_def demo_overlong_def split: option.splits)
  ultimately have "willing demo_overlong" using demo_willing unfolding willing_def by (auto simp: demo_overlong_def)
  from willing_pin [OF this boot_facts]
  have "pin_action demo_overlong boot = (0, snd (pin_action demo_overlong boot))" by (metis prod.collapse)
  from overlong_passphrase_ignored [OF this, of "replicate 5000 CHR ''a''" demo_intruder]
  show ?thesis by (simp add: demo_overlong_def boot_def)
qed

text \<open>
  A \<^verbatim>\<open>--pin\<close> that is interrupted after the links undoes them without looking at the result and then removes the sentinel:
  when the links cannot be removed but the sentinel can, the policy stays pinned and open to every \<^verbatim>\<open>--unpin\<close>
  that reaches the gate.
\<close>

theorem rollback_drops_gate:
  assumes "ph_aborted h 1" and "\<forall>n. \<not> ph_unlink h (link_path n)" and "ph_unlink h SENTINEL_PATH"
  shows "pf_links (after (snd (pin_finish h M s)) s) = pf_links s \<and> ed11_unpin_authgate u (after (snd (pin_finish h M s)) s)"
proof -
  have "snd (sweep_known (\<lambda>n. ph_unlink h (link_path n)) table ns) = []" for table ns
    using assms(2) by (induction ns) simp_all
  then have "snd (sweep_links h s) = []" by (simp add: sweep_links_def split: prod.splits) (metis snd_conv)
  then show ?thesis using assms by (simp add: pin_finish_def undo_pin_def ed11_unpin_sentinel_unlink_def ed11_unpin_authgate_def)
qed

theorem rollback_drops_gate_witness:
  "ed11_unpin_authgate demo_intruder
     (after (snd (pin_finish (demo_phost\<lparr>ph_aborted := (\<lambda>_. True), ph_unlink := (\<lambda>p. p = SENTINEL_PATH)\<rparr>) demo_loaded_maps demo_tree)) demo_tree)"
  using rollback_drops_gate [of "demo_phost\<lparr>ph_aborted := (\<lambda>_. True), ph_unlink := (\<lambda>p. p = SENTINEL_PATH)\<rparr>"
      demo_loaded_maps demo_tree demo_intruder]
  by (simp add: SENTINEL_PATH_def link_path_def PIN_ROOT_def)

end
