(* ===== verification/Observe_Profile.thy ===== *)
theory Observe_Profile
  imports Seal_Loader User_Launch
begin

text \<open>
  \<^verbatim>\<open>compartment-bpf observe\<close> (\<^verbatim>\<open>src/compartment-bpf/compartment-observe.c\<close>): it watches what the binaries of
  some actors touch and drafts a profile from it.  Modelled are the command line, the choice and checks of the
  actors, the path hints of observed inodes and the draft itself, line by line.  The answers of the system are the parameter
  \<^verbatim>\<open>ohost\<close>; the observations are the entries of the BPF map, in the order in which they are read.
\<close>

section \<open>Operations and files\<close>

definition AO_OP_CREATE :: u32 where "AO_OP_CREATE = 5"
definition AO_OP_RENAME :: u32 where "AO_OP_RENAME = 7"
definition AO_OP_MKDIR :: u32 where "AO_OP_MKDIR = 8"
definition AO_OP_MKNOD :: u32 where "AO_OP_MKNOD = 11"
definition AO_OP_SYMLINK :: u32 where "AO_OP_SYMLINK = 12"
definition AO_OP_RENAME_DST :: u32 where "AO_OP_RENAME_DST = 13"
definition AO_MAX_ACTORS :: nat where "AO_MAX_ACTORS = 32"
definition AO_MAX_OBSERVED :: nat where "AO_MAX_OBSERVED = 65536"
definition AO_DIR_COLLAPSE :: nat where "AO_DIR_COLLAPSE = 3"
definition AO_PROFILE_ACTOR_NAME_MAX :: nat where "AO_PROFILE_ACTOR_NAME_MAX = 16"

definition op_class_str :: "u32 \<Rightarrow> string" where
  "op_class_str op =
     (case map_of (zip [1, 2, 3, 4, 5, 6, 7, 8, 9, 10, 11, 12, 13]
        [''open_r'', ''open_w'', ''open_rw'', ''open_trunc'', ''create'', ''unlink'', ''rename'', ''mkdir'', ''rmdir'', ''link'',
         ''mknod'', ''symlink'', ''rename_dst'']) op of Some s \<Rightarrow> s | None \<Rightarrow> ''?'')"

text \<open>The shift is one of 32-bit numbers.\<close>

definition to_kernel_dev :: "ustat \<Rightarrow> u64" where
  "to_kernel_dev st = ucast (push_bit 20 (us_major st) OR (us_minor st AND 0xfffff))"

record actor_reg =
  ar_name :: string
  ar_path :: string
  ar_dev :: u64
  ar_ino :: u64
  ar_slot :: u32

record observed =
  ob_slot :: u32
  ob_op :: u32
  ob_dev :: u64
  ob_ino :: u64
  ob_pdev :: u64
  ob_pino :: u64
  ob_count :: u64
  ob_current :: bool                  \<comment> \<open>\<^verbatim>\<open>under_current_actor\<close>\<close>
  ob_lineage :: bool                  \<comment> \<open>\<^verbatim>\<open>under_actor_lineage\<close>\<close>

record obs_entry = observed +
  oe_path :: string                   \<comment> \<open>the hints; empty when unresolved\<close>
  oe_parent :: string

record ohost =
  oh_files :: lhost                   \<comment> \<open>what the opens of the loader see\<close>
  oh_realpath :: "string \<Rightarrow> string option"
  oh_PATH :: "string option"
  oh_access_x :: "string \<Rightarrow> bool"
  oh_stat :: "string \<Rightarrow> ustat option"
  oh_fds :: "(ustat option \<times> string) list option"  \<comment> \<open>the open files of all processes with their links, in order; \<^term>\<open>[]\<close> when unreadable\<close>
  oh_mounts :: "string option"        \<comment> \<open>\<^verbatim>\<open>/proc/mounts\<close>\<close>
  oh_abi_cell :: "u32 option"
  oh_policy_state :: bool             \<comment> \<open>the map of older versions is pinned\<close>
  oh_now :: string
  oh_watch :: bool                    \<comment> \<open>everything from opening the BPF object to the child\<close>
  oh_observed :: "observed list"
  oh_launchers :: "(u32 \<times> u64 \<times> u64 \<times> u64) list"  \<comment> \<open>slot, device, inode and count\<close>
  oh_drops :: u64
  oh_overflow :: u64
  oh_output :: bool                   \<comment> \<open>the array of entries is allocated and the output file opens\<close>
  oh_dirs :: "u32 \<Rightarrow> bool"             \<comment> \<open>the array of directories for the actor of a slot is allocated\<close>
  oh_finish :: bool                   \<comment> \<open>the child could be ended, the files written and closed\<close>

section \<open>Actors\<close>

definition actor_name_valid_profile :: "string \<Rightarrow> bool" where
  "actor_name_valid_profile name =
     (if name = [] then False
      else if length name + 1 > AO_PROFILE_ACTOR_NAME_MAX then False
      else if \<not> (is_alpha (name ! 0) \<or> name ! 0 = CHR ''_'') then False
      else list_all (\<lambda>c. is_alnum c \<or> c = CHR ''_'' \<or> c = CHR ''-'') (drop 1 name))"

text \<open>The name and whether it differs from what was asked for.\<close>

definition normalize_actor_name :: "string \<Rightarrow> nat \<Rightarrow> (string \<times> bool) option" where
  "normalize_actor_name src dstsz =
     (if dstsz < 2 then None
      else if src = [] then Some (take (dstsz - 1) ''_actor'', True)
      else let prefix = (if is_alpha (src ! 0) \<or> src ! 0 = CHR ''_'' then [] else ''_'');
               dst = take (dstsz - 1) (prefix @ map (\<lambda>c. if is_alnum c \<or> c = CHR ''_'' \<or> c = CHR ''-'' then c else CHR ''_'') src)
           in if \<not> actor_name_valid_profile dst then Some (take (dstsz - 1) ''_actor'', True)
              else Some (dst, length src + 1 > dstsz \<or> dst \<noteq> src))"

definition actor_name_in_use :: "actor_reg list \<Rightarrow> string \<Rightarrow> bool" where
  "actor_name_in_use actors name = list_ex (\<lambda>a. ar_name a = name) actors"

definition resolve_existing_path :: "ohost \<Rightarrow> string \<Rightarrow> string option" where
  "resolve_existing_path h path =
     (if path = [] then None
      else case oh_realpath h path of
        None \<Rightarrow> None
      | Some p \<Rightarrow> if length p \<ge> PATH_MAX then None else Some p)"

text \<open>The loop over the directories of \<^verbatim>\<open>PATH\<close>.\<close>

fun search_command :: "ohost \<Rightarrow> string \<Rightarrow> string list \<Rightarrow> string option" where
  "search_command h cmd [] = None"
| "search_command h cmd (dir # dirs) =
     (let cand = dir @ ''/'' @ cmd
      in if length cand \<ge> PATH_MAX then search_command h cmd dirs
         else if \<not> oh_access_x h cand then search_command h cmd dirs
         else case resolve_existing_path h cand of
           Some p \<Rightarrow> Some p
         | None \<Rightarrow> search_command h cmd dirs)"

definition resolve_command_path :: "ohost \<Rightarrow> string \<Rightarrow> string option" where
  "resolve_command_path h cmd =
     (if cmd = [] then None
      else if CHR ''/'' \<in> set cmd then resolve_existing_path h cmd
      else let path = (case oh_PATH h of
                 Some p \<Rightarrow> if p \<noteq> [] then p else ''/usr/local/sbin:/usr/local/bin:/usr/sbin:/usr/bin:/sbin:/bin''
               | None \<Rightarrow> ''/usr/local/sbin:/usr/local/bin:/usr/sbin:/usr/bin:/sbin:/bin'')
           in search_command h cmd (tokens (\<lambda>c. c = CHR '':'') path))"

definition validate_loader_compatible_actor_path :: "ohost \<Rightarrow> string \<Rightarrow> bool" where
  "validate_loader_compatible_actor_path h path =
     (case lh_opath (oh_files h) path of
        Some (Some st) \<Rightarrow>
          if \<not> s_isreg st then False
          else if us_mode st AND 0x49 = 0 then False
          else if us_size st = 0 then False
          else if us_mode st AND (S_IWGRP OR S_IWOTH) \<noteq> 0 then False
          else if length path \<ge> PATH_MAX then False
          else case last_index (CHR ''/'') path of
            None \<Rightarrow> False
          | Some i \<Rightarrow>
              (case lh_odir (oh_files h) (if i = 0 then ''/'' else take i path) of
                 Some (Some pst) \<Rightarrow> us_mode pst AND (S_IWGRP OR S_IWOTH) = 0
               | _ \<Rightarrow> False)
      | _ \<Rightarrow> False)"

definition path_to_file_id :: "ohost \<Rightarrow> string \<Rightarrow> (u64 \<times> u64) option" where
  "path_to_file_id h path = map_option (\<lambda>st. (to_kernel_dev st, us_ino st)) (oh_stat h path)"

section \<open>Path hints\<close>

definition strip_deleted :: "string \<Rightarrow> string" where
  "strip_deleted path =
     (if length path \<ge> 10 \<and> drop (length path - 10) path = '' (deleted)'' then take (length path - 10) path else path)"

definition sanitize_observed_path :: "string \<Rightarrow> string option" where
  "sanitize_observed_path path =
     (if path = [] then None
      else let p = strip_deleted path
           in if char_at p 0 \<noteq> CHR ''/'' then None
              else if list_ex (\<lambda>c. c = NL \<or> c = CR \<or> c = CHR ''#'' \<or> c = CHR '' '' \<or> c = TAB) p then None
              else Some p)"

fun scan_fds :: "u64 \<Rightarrow> u64 \<Rightarrow> (ustat option \<times> string) list \<Rightarrow> string option" where
  "scan_fds dev ino [] = None"
| "scan_fds dev ino ((st, link) # fds) =
     (case st of
        None \<Rightarrow> scan_fds dev ino fds
      | Some us \<Rightarrow>
          if to_kernel_dev us = dev \<and> us_ino us = ino \<and> link \<noteq> [] then
            (case sanitize_observed_path (take (PATH_MAX - 1) link) of
               Some p \<Rightarrow> Some p
             | None \<Rightarrow> scan_fds dev ino fds)
          else scan_fds dev ino fds)"

definition resolve_by_procfd :: "ohost \<Rightarrow> u64 \<Rightarrow> u64 \<Rightarrow> string option" where
  "resolve_by_procfd h dev ino = (case oh_fds h of None \<Rightarrow> None | Some fds \<Rightarrow> scan_fds dev ino fds)"

definition mountpoint_field :: "string \<Rightarrow> string option" where
  "mountpoint_field line =
     (case scan_field 255 line of
        None \<Rightarrow> None
      | Some (_, r1) \<Rightarrow> (case scan_field 255 r1 of None \<Rightarrow> None | Some (mnt, _) \<Rightarrow> Some mnt))"

function scan_mounts :: "ohost \<Rightarrow> u64 \<Rightarrow> string \<Rightarrow> string option" where
  "scan_mounts h dev s =
     (if s = [] then None
      else let (l, r) = fgets 512 s
           in case mountpoint_field (cstr l) of
                None \<Rightarrow> scan_mounts h dev r
              | Some mnt \<Rightarrow>
                  (case oh_stat h mnt of
                     None \<Rightarrow> scan_mounts h dev r
                   | Some st \<Rightarrow>
                       if to_kernel_dev st \<noteq> dev then scan_mounts h dev r
                       else case sanitize_observed_path mnt of
                         None \<Rightarrow> scan_mounts h dev r
                       | Some mp \<Rightarrow> Some mp))"
  by pat_completeness auto
termination
proof (relation "measure (\<lambda>(_, _, s). length s)", goal_cases)
  case 1
  show ?case by simp
next
  case (2 h dev s x l r)
  then have "fst (fgets 512 s) \<noteq> []" by (intro fgets_consumes) simp_all
  then have "l \<noteq> []" using 2 by (metis fst_conv)
  then show ?case using fgets_split [of 512 s l r] 2 by auto
next
  case (3 h dev s x l r)
  then have "fst (fgets 512 s) \<noteq> []" by (intro fgets_consumes) simp_all
  then have "l \<noteq> []" using 3 by (metis fst_conv)
  then show ?case using fgets_split [of 512 s l r] 3 by auto
next
  case (4 h dev s x l r)
  then have "fst (fgets 512 s) \<noteq> []" by (intro fgets_consumes) simp_all
  then have "l \<noteq> []" using 4 by (metis fst_conv)
  then show ?case using fgets_split [of 512 s l r] 4 by auto
next
  case (5 h dev s x l r)
  then have "fst (fgets 512 s) \<noteq> []" by (intro fgets_consumes) simp_all
  then have "l \<noteq> []" using 5 by (metis fst_conv)
  then show ?case using fgets_split [of 512 s l r] 5 by auto
qed

declare scan_mounts.simps [simp del]

definition dev_to_mountpoint :: "ohost \<Rightarrow> u64 \<Rightarrow> string option" where
  "dev_to_mountpoint h dev = (case oh_mounts h of None \<Rightarrow> None | Some s \<Rightarrow> scan_mounts h dev s)"

fun show_hex :: "nat \<Rightarrow> string" where
  "show_hex n =
     (if n < 16 then [''0123456789abcdef'' ! n] else show_hex (n div 16) @ [''0123456789abcdef'' ! (n mod 16)])"

declare show_hex.simps [simp del]

definition parent_hint :: "string \<Rightarrow> string" where
  "parent_hint p = (case last_index (CHR ''/'') p of None \<Rightarrow> [] | Some i \<Rightarrow> if i = 0 then ''/'' else take i p)"

datatype resolution = By_fd | By_mount | Unresolved

text \<open>The hint, the hint for the parent, and how it was found.\<close>

definition resolve_path :: "ohost \<Rightarrow> u64 \<Rightarrow> u64 \<Rightarrow> string \<times> string \<times> resolution" where
  "resolve_path h dev ino =
     (case resolve_by_procfd h dev ino of
        Some p \<Rightarrow> (p, parent_hint p, By_fd)
      | None \<Rightarrow>
          (case dev_to_mountpoint h dev of
             Some mp \<Rightarrow> ((if mp = ''/'' then [] else mp) @ ''/<ino='' @ show_nat (unat ino) @ ''>'', [], By_mount)
           | None \<Rightarrow> (''<dev=0x'' @ show_hex (unat dev) @ '',ino='' @ show_nat (unat ino) @ ''>'', [], Unresolved)))"

section \<open>The draft\<close>

definition is_create_like_op :: "u32 \<Rightarrow> bool" where
  "is_create_like_op op \<longleftrightarrow> op = AO_OP_CREATE \<or> op = AO_OP_MKDIR \<or> op = AO_OP_MKNOD \<or> op = AO_OP_SYMLINK"

definition forces_dir_rule_op :: "u32 \<Rightarrow> bool" where
  "forces_dir_rule_op op \<longleftrightarrow> is_create_like_op op \<or> op = AO_OP_RENAME \<or> op = AO_OP_RENAME_DST"

definition same_emitted_rule :: "obs_entry \<Rightarrow> obs_entry \<Rightarrow> bool" where
  "same_emitted_rule a b \<longleftrightarrow>
     (ob_dev a = ob_dev b \<and> ob_ino a = ob_ino b) \<or> (oe_path a \<noteq> [] \<and> oe_path b \<noteq> [] \<and> oe_path a = oe_path b)"

definition earlier_rule_for_group :: "obs_entry list \<Rightarrow> nat \<Rightarrow> obs_entry \<Rightarrow> bool" where
  "earlier_rule_for_group entries n needle =
     list_ex (\<lambda>prev. ob_slot prev = ob_slot needle \<and> \<not> is_create_like_op (ob_op prev) \<and>
                ob_pdev prev = ob_pdev needle \<and> ob_pino prev = ob_pino needle \<and> same_emitted_rule prev needle)
       (take n entries)"

definition is_broad_root :: "string \<Rightarrow> bool" where
  "is_broad_root path \<longleftrightarrow>
     path \<in> {''/'', ''/usr'', ''/etc'', ''/var'', ''/var/lib'', ''/run'', ''/tmp'', ''/opt'', ''/home'', ''/snap'', ''/lib'', ''/lib64''}"

definition detect_runtime_abi :: "ohost \<Rightarrow> bool \<Rightarrow> u32" where
  "detect_runtime_abi h force_old =
     (if force_old then 4
      else case oh_abi_cell h of
        Some abi \<Rightarrow> if abi \<ge> 4 \<and> abi \<le> COMPARTMENT_ABI_VERSION then abi else COMPARTMENT_ABI_VERSION
      | None \<Rightarrow> if oh_policy_state h then 4 else COMPARTMENT_ABI_VERSION)"

record dir_group =
  dg_dev :: u64
  dg_ino :: u64
  dg_path :: string
  dg_count :: nat
  dg_creates :: bool
  dg_force :: bool

fun update_first :: "('a \<Rightarrow> bool) \<Rightarrow> ('a \<Rightarrow> 'a) \<Rightarrow> 'a list \<Rightarrow> 'a list" where
  "update_first P f [] = []"
| "update_first P f (x # xs) = (if P x then f x # xs else x # update_first P f xs)"

text \<open>A directory that is not there yet is added as long as there are fewer than 512.\<close>

definition put_group :: "(dir_group \<Rightarrow> dir_group) \<Rightarrow> dir_group \<Rightarrow> dir_group list \<Rightarrow> dir_group list" where
  "put_group f g gs =
     (let same = (\<lambda>d. dg_dev d = dg_dev g \<and> dg_ino d = dg_ino g)
      in if list_ex same gs then update_first same f gs
         else if length gs < 512 then gs @ [g] else gs)"

definition group_entry :: "actor_reg \<Rightarrow> obs_entry \<Rightarrow> dir_group list \<Rightarrow> dir_group list" where
  "group_entry a e gs =
     (if ob_slot e \<noteq> ar_slot a then gs
      else if ob_lineage e \<and> \<not> ob_current e then gs
      else if is_create_like_op (ob_op e) then
        put_group (\<lambda>d. d\<lparr>dg_creates := True, dg_force := True\<rparr>)
          \<lparr>dg_dev = ob_dev e, dg_ino = ob_ino e, dg_path = oe_path e, dg_count = 0, dg_creates = True, dg_force = True\<rparr> gs
      else if ob_pdev e = 0 \<and> ob_pino e = 0 then gs
      else put_group (\<lambda>d. d\<lparr>dg_count := Suc (dg_count d), dg_force := dg_force d \<or> forces_dir_rule_op (ob_op e),
                            dg_path := (if dg_path d = [] then oe_parent e else dg_path d)\<rparr>)
             \<lparr>dg_dev = ob_pdev e, dg_ino = ob_pino e, dg_path = oe_parent e, dg_count = 1, dg_creates = False,
              dg_force = forces_dir_rule_op (ob_op e)\<rparr> gs)"

definition dir_groups :: "actor_reg \<Rightarrow> obs_entry list \<Rightarrow> dir_group list" where
  "dir_groups a entries = fold (group_entry a) entries []"

text \<open>The rules for the files of a directory.\<close>

definition file_rule :: "actor_reg \<Rightarrow> string \<Rightarrow> string" where
  "file_rule a path = ''seal '' @ path @ '' no-write no-unlink no-rename actor='' @ ar_name a"

definition file_rules :: "actor_reg \<Rightarrow> obs_entry list \<Rightarrow> dir_group \<Rightarrow> string list" where
  "file_rules a entries g =
     concat (map (\<lambda>i. let e = entries ! i
        in if ob_slot e \<noteq> ar_slot a then []
           else if is_create_like_op (ob_op e) then []
           else if ob_pdev e \<noteq> dg_dev g \<or> ob_pino e \<noteq> dg_ino g then []
           else if oe_path e = [] then []
           else if earlier_rule_for_group entries i e then []
           else [file_rule a (oe_path e)]) [0..<length entries])"

definition dir_rule :: "actor_reg \<Rightarrow> string \<Rightarrow> string" where
  "dir_rule a path = ''seal '' @ path @ '' no-write no-unlink no-rename no-chmod actor='' @ ar_name a"

definition collapses :: "u32 \<Rightarrow> dir_group \<Rightarrow> bool" where
  "collapses abi g \<longleftrightarrow>
     (dg_count g \<ge> AO_DIR_COLLAPSE \<or> (abi \<ge> 5 \<and> dg_force g)) \<and> char_at (dg_path g) 0 = CHR ''/'' \<and> \<not> is_broad_root (dg_path g)"

definition hint_or_unresolved :: "string \<Rightarrow> string" where
  "hint_or_unresolved p = (if p \<noteq> [] then p else ''<unresolved-parent>'')"

definition group_rules :: "u32 \<Rightarrow> actor_reg \<Rightarrow> obs_entry list \<Rightarrow> dir_group \<Rightarrow> string list" where
  "group_rules abi a entries g =
     (if collapses abi g then
        (if abi \<ge> 5 then
           [if abi \<ge> 6 then ''# recursive subtree directory rule.''
            else ''# directory destination rule; one-level child protection, not recursive.'',
            dir_rule a (dg_path g)]
         else ''# enumerated fallback (dir-destination not supported):'' # file_rules a entries g) @
        (if dg_creates g \<and> abi < 6 then
           [''# WARNING: actor created new files under '' @ dg_path g @ ''.'',
            ''# Directory-destination seals cover immediate child files only.'',
            ''# Full subtree write protection requires sealing observed subdirs'',
            ''# or a future recursive-subtree primitive.'']
         else []) @
        (if dg_creates g \<and> abi < 5 then
           [''# WARNING: actor created entries under '' @ dg_path g @
              '', but the running enforcement ABI lacks directory-destination support.'',
            ''# Create-like activity cannot be represented precisely as per-file rules before child allocation.'']
         else [])
      else if dg_count g > 0 then
        file_rules a entries g @
        (if dg_creates g then
           [''# WARNING: actor created entries under '' @ hint_or_unresolved (dg_path g) @ ''.'',
            ''# Per-file fallback cannot name child paths before allocation; enable directory-destination-capable enforcement for precise create coverage.'']
         else [])
      else if dg_creates g then
        [''# WARNING: actor created entries under '' @ hint_or_unresolved (dg_path g) @ '' but no stable child path could be emitted.'',
         ''# Directory-destination support is required for precise create-only coverage.'']
      else [])"

definition unresolved_notes :: "actor_reg \<Rightarrow> obs_entry list \<Rightarrow> string list" where
  "unresolved_notes a entries =
     map (\<lambda>e. ''# unresolved: op='' @ op_class_str (ob_op e) @ '' dev=0x'' @ show_hex (unat (ob_dev e)) @ '' ino='' @
             show_nat (unat (ob_ino e)) @ '' count='' @ show_nat (unat (ob_count e)))
       (filter (\<lambda>e. ob_slot e = ar_slot a \<and> \<not> is_create_like_op (ob_op e) \<and> ob_pdev e = 0 \<and> ob_pino e = 0) entries)"

definition launcher_notes :: "ohost \<Rightarrow> bool \<Rightarrow> actor_reg \<Rightarrow> string list" where
  "launcher_notes h no_resolve a =
     (let ls = filter (\<lambda>(slot, _). slot = ar_slot a) (oh_launchers h)
      in if ls = [] then [''# (none observed)'']
         else map (\<lambda>(slot, dev, ino, count).
           if no_resolve then ''# parent dev=0x'' @ show_hex (unat dev) @ '' ino='' @ show_nat (unat ino) @ '' count='' @ show_nat (unat count)
           else ''# parent '' @ fst (resolve_path h dev ino) @ '' count='' @ show_nat (unat count)) ls)"

text \<open>Without memory for the directories an actor has no rules and no notes, and the draft goes on.\<close>

definition actor_block :: "ohost \<Rightarrow> bool \<Rightarrow> u32 \<Rightarrow> obs_entry list \<Rightarrow> actor_reg \<Rightarrow> string list" where
  "actor_block h no_resolve abi entries a =
     [[], ''# target: '' @ ar_name a, ''actor '' @ ar_name a @ '' = '' @ ar_path a, ''seal '' @ ar_path a @ '' full'',
      [], ''# observed launchers:''] @ launcher_notes h no_resolve a @
     (if \<not> oh_dirs h (ar_slot a) then []
      else [[]] @ concat (map (group_rules abi a entries) (dir_groups a entries)) @ unresolved_notes a entries)"

fun commas :: "string list \<Rightarrow> string" where
  "commas [] = []"
| "commas [n] = n"
| "commas (n # ns) = n @ '','' @ commas ns"

definition count_note :: "string \<Rightarrow> string \<Rightarrow> nat \<Rightarrow> string list" where
  "count_note pre post n = (if n > 0 then [pre @ show_nat n @ post] else [])"

definition profile_header :: "ohost \<Rightarrow> u32 \<Rightarrow> actor_reg list \<Rightarrow> resolution list \<Rightarrow> string list" where
  "profile_header h abi actors res =
     [''# generated by compartment-bpf observe'', ''#@compartment-bpf-profile-status: candidate'', ''# generated: '' @ oh_now h,
      ''# actors: '' @ commas (map ar_name actors), ''# observed_at: '' @ oh_now h,
      ''# validation: candidate only; run deny-first before enforcing''] @
     (if abi < 5 then
        [''# WARNING: running compartment-bpf does not expose exact directory-destination'',
         ''# semantics here. Emitting per-file rules as fallback.''] else []) @
     count_note ''# WARNING: '' '' ringbuf events dropped; observed_files map is authoritative.'' (unat (oh_drops h)) @
     count_note ''# WARNING: '' ('' observed_files overflow(s); map full '' @ [CHR 0xE2, CHR 0x80, CHR 0x94] @ '' some observations lost.'') (unat (oh_overflow h)) @
     count_note ''# WARNING: '' '' path resolution failure(s) (no path found); dev/ino records preserved.''
       (length (filter (\<lambda>r. r = Unresolved) res)) @
     count_note ''# NOTE: '' '' path(s) resolved via mountpoint fallback (dev/ino synthetic path, not /proc/fd).''
       (length (filter (\<lambda>r. r = By_mount) res))"

text \<open>The lines of the draft, without their newlines; \<^term>\<open>res\<close> are the resolutions made for the entries.\<close>

definition emit_profile :: "ohost \<Rightarrow> bool \<Rightarrow> bool \<Rightarrow> obs_entry list \<Rightarrow> resolution list \<Rightarrow> actor_reg list \<Rightarrow> string list" where
  "emit_profile h no_resolve no_dir_dest entries res actors =
     (let abi = detect_runtime_abi h no_dir_dest
      in profile_header h abi actors res @ concat (map (actor_block h no_resolve abi entries) actors))"

section \<open>The observations\<close>

text \<open>An entry with its hints, and the resolutions that were made for it.\<close>

definition hinted :: "ohost \<Rightarrow> bool \<Rightarrow> observed \<Rightarrow> obs_entry \<times> resolution list" where
  "hinted h no_resolve ob =
     (if no_resolve then (observed.extend ob \<lparr>oe_path = [], oe_parent = []\<rparr>, [])
      else case resolve_path h (ob_dev ob) (ob_ino ob) of
        (p, parent, r) \<Rightarrow>
          if parent = [] \<and> (ob_pdev ob \<noteq> 0 \<or> ob_pino ob \<noteq> 0) then
            (case resolve_path h (ob_pdev ob) (ob_pino ob) of
               (pp, _, r') \<Rightarrow> (observed.extend ob \<lparr>oe_path = p, oe_parent = pp\<rparr>, [r, r']))
          else (observed.extend ob \<lparr>oe_path = p, oe_parent = parent\<rparr>, [r]))"

section \<open>The command line\<close>

datatype oformat = FMT_PROFILE | FMT_COMPACT | FMT_JSONL | FMT_AUDIT

record oopts =
  oo_actors :: "actor_reg list"
  oo_pid_seed :: int
  oo_format :: oformat
  oo_include_stat :: bool
  oo_no_resolve :: bool
  oo_no_dir_dest :: bool
  oo_cmd :: "string list"

definition initial_oopts :: oopts where
  "initial_oopts = \<lparr>oo_actors = [], oo_pid_seed = - 1, oo_format = FMT_PROFILE, oo_include_stat = False, oo_no_resolve = False,
     oo_no_dir_dest = False, oo_cmd = []\<rparr>"

definition add_actor :: "string \<Rightarrow> oopts \<Rightarrow> oopts option" where
  "add_actor arg opts =
     (let name = takeWhile (\<lambda>c. c \<noteq> CHR ''='') arg
      in if CHR ''='' \<notin> set arg then None
         else if length (oo_actors opts) \<ge> AO_MAX_ACTORS then None
         else if name = [] \<or> length name \<ge> 64 then None
         else if \<not> actor_name_valid_profile name then None
         else if actor_name_in_use (oo_actors opts) name then None
         else Some (opts\<lparr>oo_actors := oo_actors opts @
           [\<lparr>ar_name = name, ar_path = take (PATH_MAX - 1) (drop (Suc (length name)) arg), ar_dev = 0, ar_ino = 0,
             ar_slot = of_nat (length (oo_actors opts))\<rparr>]\<rparr>))"

text \<open>\<^verbatim>\<open>atoi\<close>: the number of \<^verbatim>\<open>strtol\<close> as an \<^verbatim>\<open>int\<close>.\<close>

definition atoi :: "string \<Rightarrow> int" where
  "atoi s = sint (word_of_int (fst (strtol 10 s)) :: u32)"

definition format_named :: "string \<Rightarrow> oformat option" where
  "format_named s =
     (if s = ''profile'' then Some FMT_PROFILE else if s = ''compact'' then Some FMT_COMPACT
      else if s = ''jsonl'' then Some FMT_JSONL else if s = ''audit'' then Some FMT_AUDIT else None)"

text \<open>The options, or the exit code.\<close>

fun observe_args :: "string list \<Rightarrow> oopts \<Rightarrow> int + oopts" where
  "observe_args [] opts = Inr opts"
| "observe_args (a # rest) opts =
     (if a \<in> {''--actor'', ''--pid'', ''--duration'', ''--format'', ''-o'', ''--provenance-out''} then
        (case rest of
           [] \<Rightarrow> Inl 2
         | arg # rest' \<Rightarrow>
             if a = ''--actor'' then (case add_actor arg opts of None \<Rightarrow> Inl 2 | Some opts' \<Rightarrow> observe_args rest' opts')
             else if a = ''--pid'' then observe_args rest' (opts\<lparr>oo_pid_seed := atoi arg\<rparr>)
             else if a = ''--format'' then
               (case format_named arg of None \<Rightarrow> Inl 2 | Some f \<Rightarrow> observe_args rest' (opts\<lparr>oo_format := f\<rparr>))
             else observe_args rest' opts)
      else if a = ''--verbose'' then observe_args rest opts
      else if a = ''--include-stat'' then observe_args rest (opts\<lparr>oo_include_stat := True\<rparr>)
      else if a = ''--no-resolve-paths'' then observe_args rest (opts\<lparr>oo_no_resolve := True\<rparr>)
      else if a = ''--no-dir-dest'' then observe_args rest (opts\<lparr>oo_no_dir_dest := True\<rparr>)
      else if a = ''--'' then Inr (opts\<lparr>oo_cmd := rest\<rparr>)
      else if a = ''-h'' \<or> a = ''--help'' then Inl 0
      else Inl 2)"

text \<open>The actor named after the command when none is given.\<close>

definition infer_actor :: "ohost \<Rightarrow> oopts \<Rightarrow> (actor_reg list) option" where
  "infer_actor h opts =
     (case oo_cmd opts of
        cmd # _ \<Rightarrow>
          if oo_actors opts \<noteq> [] then Some (oo_actors opts)
          else (case resolve_command_path h cmd of
            None \<Rightarrow> None
          | Some p \<Rightarrow>
              let base = (case last_index (CHR ''/'') p of None \<Rightarrow> p | Some i \<Rightarrow> drop (Suc i) p)
              in (case normalize_actor_name base AO_PROFILE_ACTOR_NAME_MAX of
                    None \<Rightarrow> None
                  | Some (name, _) \<Rightarrow> Some [\<lparr>ar_name = name, ar_path = p, ar_dev = 0, ar_ino = 0, ar_slot = 0\<rparr>]))
      | [] \<Rightarrow> Some (oo_actors opts))"

definition resolve_actor :: "ohost \<Rightarrow> actor_reg \<Rightarrow> actor_reg option" where
  "resolve_actor h a =
     (case resolve_existing_path h (ar_path a) of
        None \<Rightarrow> None
      | Some p \<Rightarrow>
          if \<not> validate_loader_compatible_actor_path h p then None
          else map_option (\<lambda>(dev, ino). a\<lparr>ar_path := p, ar_dev := dev, ar_ino := ino\<rparr>) (path_to_file_id h p))"

fun resolve_actors :: "ohost \<Rightarrow> actor_reg list \<Rightarrow> (actor_reg list) option" where
  "resolve_actors h [] = Some []"
| "resolve_actors h (a # as) =
     (case resolve_actor h a of
        None \<Rightarrow> None
      | Some a' \<Rightarrow> map_option (Cons a') (resolve_actors h as))"

text \<open>The exit code, and the draft if one is written.\<close>

definition observe_main :: "ohost \<Rightarrow> string list \<Rightarrow> int \<times> (string list) option" where
  "observe_main h args =
     (case observe_args args initial_oopts of
        Inl rc \<Rightarrow> (rc, None)
      | Inr opts \<Rightarrow>
          if oo_pid_seed opts \<ge> 0 then (2, None)
          else if oo_include_stat opts then (2, None)
          else if oo_actors opts = [] \<and> oo_cmd opts = [] then (2, None)
          else case infer_actor h opts of
            None \<Rightarrow> (1, None)
          | Some actors \<Rightarrow>
              (case resolve_actors h actors of
                 None \<Rightarrow> (1, None)
               | Some actors' \<Rightarrow>
                   if \<not> oh_watch h then (1, None)
                   else if oo_format opts \<noteq> FMT_PROFILE then (if oh_finish h then 0 else 1, None)
                   else if \<not> oh_output h then (1, None)
                   else let hs = map (hinted h (oo_no_resolve opts)) (take AO_MAX_OBSERVED (oh_observed h))
                        in (if oh_finish h then 0 else 1, Some (emit_profile h (oo_no_resolve opts) (oo_no_dir_dest opts) (map fst hs) (concat (map snd hs)) actors'))))"

end
