(* ===== verification/Observe_Policy.thy ===== *)
theory Observe_Policy
  imports Observe_Profile Load_Guarantees User_Dump
begin

text \<open>
  Lemmas about the drafts of \<^verbatim>\<open>observe\<close> and the loader that reads them: agreement on names, devices and actor
  binaries; the candidate mark; the lines of a draft and how the loader reads each of them back; hints, directory groups and
  their rules; the actors of the command line; the coverage of what was seen; and rules for inodes without a path.
\<close>

section \<open>Agreement with the loader\<close>

lemma names_agree: "actor_name_valid_profile name = actor_name_valid name"
  by (cases name) (auto simp: actor_name_valid_profile_def actor_name_valid_def AO_PROFILE_ACTOR_NAME_MAX_def ACTOR_NAME_MAX_def)

lemma devices_agree:
  assumes "kernel_dev st = Some dev"
  shows "to_kernel_dev st = dev"
proof -
  have "us_major st < 2 ^ 12" "us_minor st < 2 ^ 20" and dev: "dev = push_bit 20 (ucast (us_major st)) OR ucast (us_minor st)"
    using assms by (auto simp: kernel_dev_def Let_def not_le split: if_splits)
  then have small: "us_major st AND mask 12 = us_major st" "us_minor st AND mask 20 = us_minor st"
    by (simp_all only: less_mask_eq)
  have high: "bit (us_major st) n \<Longrightarrow> n < 12" for n
    using small(1) by (metis bit_and_iff bit_mask_iff)
  have "us_minor st AND 0xfffff = us_minor st"
    using small(2) by (simp add: mask_eq_exp_minus_1)
  then show ?thesis unfolding dev to_kernel_dev_def
    by (intro bit_word_eqI) (auto simp: bit_simps dest: high)
qed

text \<open>What \<^verbatim>\<open>observe\<close> asks of a binary is what the loader asks, the file system and the device apart.\<close>

lemma resolve_actor_fields:
  assumes "resolve_actor h a = Some a'"
  shows "validate_loader_compatible_actor_path h (ar_path a')" "path_to_file_id h (ar_path a') = Some (ar_dev a', ar_ino a')"
    "ar_name a' = ar_name a" "ar_slot a' = ar_slot a" "oh_realpath h (ar_path a) = Some (ar_path a')"
  using assms by (auto simp: resolve_actor_def resolve_existing_path_def split: option.splits if_splits)

lemma parent_checked:
  assumes "validate_loader_compatible_actor_path h p"
  shows "\<not> parent_writable (oh_files h) p"
  using assms unfolding validate_loader_compatible_actor_path_def parent_writable_def
  by (auto simp: or.commute split: option.splits if_splits)

lemma regular_not_link: "s_isreg st \<Longrightarrow> \<not> s_islnk st"
  by (simp add: s_isreg_def s_islnk_def S_IFMT_def S_IFREG_def S_IFLNK_def)

lemma validated_resolves:
  assumes "validate_loader_compatible_actor_path h p" and "lh_opath (oh_files h) p = Some (Some st)"
    and "\<not> anon_bdev_refuse (oh_files h) p"
  shows "actor_resolve_one (oh_files h) p = map_option (\<lambda>dev. \<lparr>ik_dev = dev, ik_ino = us_ino st\<rparr>) (kernel_dev st)"
proof -
  have "s_isreg st" "us_mode st AND (S_IWGRP OR S_IWOTH) = 0" "us_size st \<noteq> 0" "us_mode st AND 0x49 \<noteq> 0"
    using assms(1,2) by (auto simp: validate_loader_compatible_actor_path_def split: if_splits)
  then show ?thesis using assms(2,3) parent_checked [OF assms(1)] regular_not_link
    by (simp add: actor_resolve_one_def or.commute)
qed

lemma resolved_validates:
  assumes "actor_resolve_one (oh_files h) p = Some k"
  shows "validate_loader_compatible_actor_path h p" "\<not> anon_bdev_refuse (oh_files h) p"
    "\<exists>st dev. lh_opath (oh_files h) p = Some (Some st) \<and> kernel_dev st = Some dev"
  using assms unfolding validate_loader_compatible_actor_path_def actor_resolve_one_def parent_writable_def
  by (auto simp: or.commute split: option.splits if_splits)

section \<open>Candidates\<close>

lemma candidate_kept:
  assumes "ls_candidate st \<or> ls_errs st \<noteq> 0"
  shows "ls_candidate (conf_loop h skel po s st) \<or> ls_errs (conf_loop h skel po s st) \<noteq> 0"
proof (rule conf_loop_keeps [where P = "\<lambda>st. ls_candidate st \<or> ls_errs st \<noteq> 0", OF _ _ assms])
  fix line and st :: lstate
  assume st: "ls_candidate st \<or> ls_errs st \<noteq> 0"
  have path: "ls_candidate (snd (seal_path h skel p f a s)) = ls_candidate s" for p f a s
    by (auto simp: seal_path_def seal_path_load_def seal_path_dry_def Let_def split: option.splits)
  have seal: "ls_candidate (seal_line h skel po rest s) = ls_candidate s" for rest s
    by (auto simp: seal_line_def sealed_one_def failed_def Let_def path split: option.splits)
  have actor: "ls_candidate (actor_declared h po decl s) = ls_candidate s" for decl s
    by (auto simp: actor_declared_def failed_def Let_def split: option.splits prod.splits)
  show "ls_candidate (conf_line h skel po line st) \<or> ls_errs (conf_line h skel po line st) \<noteq> 0"
  proof (cases "ls_candidate st")
    case True
    then show ?thesis by (auto simp: conf_line_def conf_directive_def seal actor failed_def split: option.splits)
  next
    case False
    then show ?thesis using st conf_line_errs [of st h skel po line] by simp
  qed
qed (simp add: failed_def)

lemma validate_errs: "ls_errs st \<le> ls_errs (validate_profile h st)"
  by (auto simp: validate_profile_def strict_validate_launchers_def count_err_def Let_def)

lemma conclude_errs:
  assumes "ls_errs st \<noteq> 0 \<or> ls_candidate st \<and> lo_pin opts \<and> \<not> lo_allow_candidate opts"
  shows "fst (conclude_load h opts st) = - 1"
proof -
  let ?st1 = "count_err (\<not> lh_conf_ok h) st"
  let ?st2 = "count_err (ls_candidate ?st1 \<and> lo_pin opts \<and> \<not> lo_allow_candidate opts) ?st1"
  have "ls_errs ?st2 \<noteq> 0" using assms by (auto simp: count_err_def failed_def)
  then have "ls_errs (if lo_parse_only opts then ?st2 else validate_profile h ?st2) \<noteq> 0"
    using validate_errs [of ?st2 h] by simp
  then show ?thesis by (simp add: conclude_load_def Let_def)
qed

section \<open>Reading a draft back\<close>

text \<open>A path that the loader reads as one word of a line, and one that may even end a line.\<close>

definition tidy :: "string \<Rightarrow> bool" where
  "tidy p \<longleftrightarrow> absolute p \<and> (\<forall>c \<in> set p. \<not> is_tok_sep c \<and> c \<noteq> CHR ''#'')"

definition solid :: "string \<Rightarrow> bool" where
  "solid p \<longleftrightarrow> absolute p \<and> (\<forall>c \<in> set p. \<not> is_space c \<and> c \<noteq> CHR ''#'')"

lemma sep_space: "is_tok_sep c \<Longrightarrow> is_space c"
  by (auto simp: is_space_def is_tok_sep_def)

lemma solid_tidy: "solid p \<Longrightarrow> tidy p"
  unfolding solid_def tidy_def by (blast dest: sep_space)

lemma tidy_nonempty: "tidy p \<Longrightarrow> p \<noteq> []"
  by (cases p) (simp_all add: tidy_def absolute_def)

text \<open>Words and the separators after them.\<close>

lemma tokens_acc_word: "\<forall>c \<in> set w. \<not> sep c \<Longrightarrow> tokens_acc sep acc (w @ s) = tokens_acc sep (rev w @ acc) s"
  by (induction w arbitrary: acc) auto

lemma tokens_word: "w \<noteq> [] \<Longrightarrow> \<forall>c \<in> set w. \<not> sep c \<Longrightarrow> sep d \<Longrightarrow> tokens sep (w @ d # s) = w # tokens sep s"
  by (simp add: tokens_def tokens_acc_word)

lemma tokens_last: "w \<noteq> [] \<Longrightarrow> \<forall>c \<in> set w. \<not> sep c \<Longrightarrow> tokens sep w = [w]"
  using tokens_acc_word [of w sep "[]" "[]"] by (simp add: tokens_def)

lemma strtok_word: "w \<noteq> [] \<Longrightarrow> \<forall>c \<in> set w. \<not> sep c \<Longrightarrow> sep d \<Longrightarrow> strtok sep (w @ d # s) = Some (w, s)"
  by (cases w) (simp_all add: strtok_def Let_def)

lemma trim_id: "s \<noteq> [] \<Longrightarrow> \<not> is_space (hd s) \<Longrightarrow> \<not> is_space (last s) \<Longrightarrow> trim s = s"
  by (cases s) (auto simp: trim_def rdropWhile_id)

lemma trim_word_end:
  "p \<noteq> [] \<Longrightarrow> \<not> is_space (hd p) \<Longrightarrow> w \<noteq> [] \<Longrightarrow> \<forall>c \<in> set w. \<not> is_space c \<Longrightarrow> trim (p @ w) = p @ w"
  by (rule trim_id) simp_all

lemma trim_newline: "s \<noteq> [] \<Longrightarrow> \<not> is_space (hd s) \<Longrightarrow> \<not> is_space (last s) \<Longrightarrow> trim (s @ [NL]) = s"
proof -
  assume s: "s \<noteq> []" "\<not> is_space (hd s)" "\<not> is_space (last s)"
  then have "dropWhile is_space (s @ [NL]) = s @ [NL]" by (cases s) simp_all
  moreover have "is_space NL" by (simp add: is_space_def)
  ultimately show ?thesis using s by (simp add: trim_def rdropWhile_append rdropWhile_id)
qed

lemma name_chars:
  assumes "actor_name_valid name"
  shows "name \<noteq> []" "\<forall>c \<in> set name. is_alnum c \<or> c = CHR ''_'' \<or> c = CHR ''-''"
  using assms by (auto simp: actor_name_valid_def is_alnum_def list_all_iff split: list.splits)

lemma alnum_range:
  assumes "is_alnum c \<or> c = CHR ''_'' \<or> c = CHR ''-''"
  shows "45 \<le> (of_char c :: nat)"
  using assms unfolding is_alnum_def is_alpha_def is_digit_def digit_val_def Let_def by (auto split: if_splits)

lemma space_range: "is_space c \<Longrightarrow> (of_char c :: nat) \<le> 32"
  by (auto simp: is_space_def)

lemma alnum_solid:
  assumes "is_alnum c \<or> c = CHR ''_'' \<or> c = CHR ''-''"
  shows "\<not> is_space c" "\<not> is_tok_sep c" "\<not> is_flag_tok_sep c" "c \<noteq> CHR ''#''"
proof -
  show space: "\<not> is_space c" using alnum_range [OF assms] space_range [of c] by fastforce
  then show sep: "\<not> is_tok_sep c" by (blast dest: sep_space)
  show "c \<noteq> CHR ''#''" using alnum_range [OF assms] by auto
  have "c \<noteq> CHR '',''" using alnum_range [OF assms] by auto
  then show "\<not> is_flag_tok_sep c" using sep by (simp add: is_flag_tok_sep_def)
qed

lemma name_solid:
  assumes "actor_name_valid name"
  shows "\<forall>c \<in> set name. \<not> is_space c" "\<forall>c \<in> set name. \<not> is_tok_sep c" "\<forall>c \<in> set name. \<not> is_flag_tok_sep c"
    "\<forall>c \<in> set name. c \<noteq> CHR ''#''"
  using name_chars(2) [OF assms] alnum_solid by simp_all

text \<open>The flags of the rules.\<close>

lemma parse_rule_flags:
  assumes "actor_name_valid name"
  shows "parse_flagspec (''no-write no-unlink no-rename actor='' @ name) = Some (SEAL_NO_WRITE OR SEAL_NO_UNLINK OR SEAL_NO_RENAME, Some name)"
    and "parse_flagspec (''no-write no-unlink no-rename no-chmod actor='' @ name) = Some (SEAL_NO_WRITE OR SEAL_NO_UNLINK OR SEAL_NO_RENAME OR SEAL_NO_CHMOD, Some name)"
proof -
  note n = name_chars [OF assms] name_solid [OF assms]
  have n_not: "\<not> is_space CHR ''n''" by (simp add: is_space_def)
  have last: "tokens is_flag_tok_sep (''actor='' @ name) = [''actor='' @ name]"
    using n(1,5) by (intro tokens_last) (auto simp: is_flag_tok_sep_def is_tok_sep_def)
  have words: "tokens is_flag_tok_sep (w @ '' '' @ s) = w # tokens is_flag_tok_sep s"
    if "w \<in> {''no-write'', ''no-unlink'', ''no-rename'', ''no-chmod''}" for w s
    using that tokens_word [of w is_flag_tok_sep "CHR '' ''" s] by (auto simp: is_flag_tok_sep_def is_tok_sep_def)
  have w: "tokens is_flag_tok_sep (''no-write no-unlink no-rename actor='' @ name) = [''no-write'', ''no-unlink'', ''no-rename'', ''actor='' @ name]"
    "tokens is_flag_tok_sep (''no-write no-unlink no-rename no-chmod actor='' @ name) = [''no-write'', ''no-unlink'', ''no-rename'', ''no-chmod'', ''actor='' @ name]"
    using words [of "''no-write''" "''no-unlink no-rename actor='' @ name"] words [of "''no-unlink''" "''no-rename actor='' @ name"]
      words [of "''no-rename''" "''actor='' @ name"] words [of "''no-write''" "''no-unlink no-rename no-chmod actor='' @ name"]
      words [of "''no-unlink''" "''no-rename no-chmod actor='' @ name"] words [of "''no-rename''" "''no-chmod actor='' @ name"]
      words [of "''no-chmod''" "''actor='' @ name"] last by simp_all
  have t: "trim (''no-write no-unlink no-rename actor='' @ name) = ''no-write no-unlink no-rename actor='' @ name"
    "trim (''no-write no-unlink no-rename no-chmod actor='' @ name) = ''no-write no-unlink no-rename no-chmod actor='' @ name"
    using n_not by (simp_all only: trim_word_end [OF _ _ n(1,3)] list.sel list.simps not_False_eq_True)
  show "parse_flagspec (''no-write no-unlink no-rename actor='' @ name) = Some (SEAL_NO_WRITE OR SEAL_NO_UNLINK OR SEAL_NO_RENAME, Some name)"
    unfolding parse_flagspec_def t w using assms
    by (simp add: has_prefix_def SEAL_NO_WRITE_def SEAL_NO_UNLINK_def SEAL_NO_RENAME_def SEAL_STRICT_LAUNCH_def)
  show "parse_flagspec (''no-write no-unlink no-rename no-chmod actor='' @ name) = Some (SEAL_NO_WRITE OR SEAL_NO_UNLINK OR SEAL_NO_RENAME OR SEAL_NO_CHMOD, Some name)"
    unfolding parse_flagspec_def t w using assms
    by (simp add: has_prefix_def SEAL_NO_WRITE_def SEAL_NO_UNLINK_def SEAL_NO_RENAME_def SEAL_NO_CHMOD_def SEAL_STRICT_LAUNCH_def)
qed

lemma parse_full: "parse_flagspec ''full'' = Some (SEAL_FULL, None)"
  by code_simp

text \<open>Lines of a draft: empty ones, comments, and rules about one path.\<close>

lemma silent_line:
  assumes "l = [] \<or> hd l = CHR ''#''"
  shows "conf_line h skel po (l @ [NL]) st = st\<lparr>ls_candidate := ls_candidate st \<or> is_candidate_line (l @ [NL])\<rparr>"
proof -
  have "trim (takeWhile (\<lambda>c. c \<noteq> CHR ''#'') (l @ [NL])) = []"
    using assms by (cases l) (simp_all add: trim_def rdropWhile_def is_space_def)
  then show ?thesis by (simp add: conf_line_def conf_directive_def strtok_def)
qed

lemma takeWhile_all: "\<forall>c \<in> set s. P c \<Longrightarrow> takeWhile P s = s"
  by (simp add: takeWhile_eq_all_conv)

lemma directive_line:
  assumes "d \<noteq> []" and "\<forall>c \<in> set d. \<not> is_space c \<and> c \<noteq> CHR ''#''" and "\<forall>c \<in> set rest. c \<noteq> CHR ''#''"
    and "rest \<noteq> []" and "\<not> is_space (last rest)"
  shows "strtok is_tok_sep (trim (takeWhile (\<lambda>c. c \<noteq> CHR ''#'') ((d @ CHR '' '' # rest) @ [NL]))) = Some (d, rest)"
proof -
  let ?l = "d @ CHR '' '' # rest"
  have "takeWhile (\<lambda>c. c \<noteq> CHR ''#'') (?l @ [NL]) = ?l @ [NL]" using assms by (intro takeWhile_all) auto
  moreover have "trim (?l @ [NL]) = ?l" using assms by (intro trim_newline) (auto simp: hd_append)
  moreover have "strtok is_tok_sep ?l = Some (d, rest)"
  proof (rule strtok_word [OF assms(1)])
    show "\<forall>c \<in> set d. \<not> is_tok_sep c" using assms(2) sep_space by blast
  qed (simp add: is_tok_sep_def)
  ultimately show ?thesis by simp
qed

lemma seal_directive:
  assumes "tidy p" and "parse_flagspec spec = Some (flags, name)" and "\<forall>c \<in> set spec. c \<noteq> CHR ''#''"
    and "spec \<noteq> []" and "\<not> is_space (last spec)"
    and "name = None \<or> (\<exists>n ag. name = Some n \<and> profile_find_actor (ls_ps st) n = Some ag)"
  shows "conf_line h skel True ((''seal '' @ p @ '' '' @ spec) @ [NL]) st =
    st\<lparr>ls_candidate := ls_candidate st \<or> is_candidate_line ((''seal '' @ p @ '' '' @ spec) @ [NL]), ls_sealed := Suc (ls_sealed st)\<rparr>"
proof -
  have abs: "absolute p" using assms(1) by (simp add: tidy_def)
  have d: "strtok is_tok_sep (trim (takeWhile (\<lambda>c. c \<noteq> CHR ''#'') ((''seal'' @ CHR '' '' # p @ CHR '' '' # spec) @ [NL]))) =
      Some (''seal'', p @ CHR '' '' # spec)"
    using assms(1,3,4,5) by (intro directive_line) (auto simp: tidy_def is_space_def)
  have t: "strtok is_tok_sep (p @ CHR '' '' # spec) = Some (p, spec)"
  proof (rule strtok_word [OF tidy_nonempty [OF assms(1)]])
    show "\<forall>c \<in> set p. \<not> is_tok_sep c" using assms(1) by (simp add: tidy_def)
  qed (simp add: is_tok_sep_def)
  show ?thesis
  proof (cases name)
    case None
    then show ?thesis using d t abs assms(2) by (simp add: conf_line_def conf_directive_def seal_line_def Let_def sealed_one_def)
  next
    case (Some n)
    then obtain ag where "profile_find_actor (ls_ps st) n = Some ag" using assms(6) by auto
    then show ?thesis using d t abs Some assms(2)
      by (simp add: conf_line_def conf_directive_def seal_line_def Let_def sealed_one_def)
  qed
qed

lemma known_actor: "n \<in> set (map ag_name (ps_actors ps)) \<Longrightarrow> \<exists>ag. profile_find_actor ps n = Some ag"
proof -
  assume "n \<in> set (map ag_name (ps_actors ps))"
  then have "profile_find_actor ps n \<noteq> None" by (auto simp: profile_find_actor_def find_None_iff)
  then show ?thesis by blast
qed

text \<open>The lines of an actor block after its first seal.\<close>

definition rule_line :: "string \<Rightarrow> string \<Rightarrow> bool" where
  "rule_line name l \<longleftrightarrow> l = [] \<or> hd l = CHR ''#'' \<or>
     (\<exists>p. tidy p \<and> (l = ''seal '' @ p @ '' no-write no-unlink no-rename actor='' @ name \<or>
                  l = ''seal '' @ p @ '' no-write no-unlink no-rename no-chmod actor='' @ name))"

definition quiet :: "lstate \<Rightarrow> lstate \<Rightarrow> bool" where
  "quiet st st' \<longleftrightarrow> ls_errs st' = ls_errs st \<and> ls_ps st' = ls_ps st \<and> ls_sealed st \<le> ls_sealed st'"

lemma rule_line_quiet:
  assumes "rule_line name l" and "actor_name_valid name" and "name \<in> set (map ag_name (ps_actors (ls_ps st)))"
  shows "quiet st (conf_line h skel True (l @ [NL]) st)"
  using assms(1) unfolding rule_line_def
proof (elim disjE exE conjE)
  note n = name_chars [OF assms(2)] name_solid [OF assms(2)]
  fix p
  assume p: "tidy p"
  let ?f = "''no-write no-unlink no-rename actor='' @ name" and ?d = "''no-write no-unlink no-rename no-chmod actor='' @ name"
  have ends: "\<forall>c \<in> set ?f. c \<noteq> CHR ''#''" "\<not> is_space (last ?f)" "\<forall>c \<in> set ?d. c \<noteq> CHR ''#''" "\<not> is_space (last ?d)"
    using n(1,3,6) by (simp_all add: last_in_set)
  { assume "l = ''seal '' @ p @ '' no-write no-unlink no-rename actor='' @ name"
    then show ?thesis
      using seal_directive [OF p parse_rule_flags(1) [OF assms(2)] ends(1) _ ends(2), of st h skel] known_actor [OF assms(3)]
      by (simp add: quiet_def) }
  { assume "l = ''seal '' @ p @ '' no-write no-unlink no-rename no-chmod actor='' @ name"
    then show ?thesis
      using seal_directive [OF p parse_rule_flags(2) [OF assms(2)] ends(3) _ ends(4), of st h skel] known_actor [OF assms(3)]
      by (simp add: quiet_def) }
qed (use silent_line [of l h skel True st] in \<open>simp_all add: quiet_def\<close>)

lemma rule_lines_quiet:
  "\<forall>l \<in> set ls. rule_line name l \<Longrightarrow> actor_name_valid name \<Longrightarrow> name \<in> set (map ag_name (ps_actors (ls_ps st))) \<Longrightarrow>
   quiet st (run_lines h skel True ls st)"
proof (induction ls arbitrary: st)
  case (Cons l ls)
  have "quiet st (conf_line h skel True (l @ [NL]) st)" using Cons.prems by (intro rule_line_quiet [of name]) simp_all
  moreover from this have "quiet (conf_line h skel True (l @ [NL]) st) (run_lines h skel True ls (conf_line h skel True (l @ [NL]) st))"
    using Cons.prems by (intro Cons.IH) (simp_all add: quiet_def)
  ultimately show ?case by (simp add: quiet_def run_lines_def)
qed (simp add: quiet_def run_lines_def)

lemma silent_lines: "\<forall>l \<in> set ls. l = [] \<or> hd l = CHR ''#'' \<Longrightarrow> quiet st (run_lines h skel True ls st)"
proof (induction ls arbitrary: st)
  case (Cons l ls)
  have "quiet st (conf_line h skel True (l @ [NL]) st)"
    using Cons.prems silent_line [of l h skel True st] by (simp add: quiet_def)
  moreover have "quiet (conf_line h skel True (l @ [NL]) st) (run_lines h skel True ls (conf_line h skel True (l @ [NL]) st))"
    using Cons by simp
  ultimately show ?case by (simp add: quiet_def run_lines_def)
qed (simp add: quiet_def run_lines_def)

lemma actor_directive:
  assumes "solid p" and "actor_name_valid name" and "profile_find_actor (ls_ps st) name = None"
  shows "conf_line h skel True ((''actor '' @ name @ '' = '' @ p) @ [NL]) st =
    st\<lparr>ls_candidate := ls_candidate st \<or> is_candidate_line ((''actor '' @ name @ '' = '' @ p) @ [NL]),
       ls_ps := profile_state_add_actor (ls_ps st) \<lparr>ag_name = name, ag_paths = [p], ag_bin = None, ag_strict = False,
         ag_launcher = None, ag_launcher_key = zero_key, ag_slot = 0\<rparr>\<rparr>"
proof -
  note n = name_chars [OF assms(2)] name_solid [OF assms(2)]
  have p: "absolute p" "p \<noteq> []" "\<forall>c \<in> set p. \<not> is_tok_sep c"
    using assms(1) solid_tidy [OF assms(1)] tidy_nonempty by (auto simp: tidy_def solid_def)
  have space: "is_tok_sep CHR '' ''" by (simp add: is_tok_sep_def)
  have d: "strtok is_tok_sep (trim (takeWhile (\<lambda>c. c \<noteq> CHR ''#'') ((''actor'' @ CHR '' '' # name @ '' = '' @ p) @ [NL]))) =
      Some (''actor'', name @ '' = '' @ p)"
    using assms(1) n(1,6) p(2) by (intro directive_line) (auto simp: solid_def is_space_def)
  have "tokens is_tok_sep (name @ '' = '' @ p) = name # tokens is_tok_sep (''='' @ CHR '' '' # p)"
    using tokens_word [OF n(1) n(4) space] by simp
  also have "tokens is_tok_sep (''='' @ CHR '' '' # p) = [''='', p]"
    using tokens_word [of "''=''" is_tok_sep "CHR '' ''" p] space tokens_last [OF p(2,3)] by (simp add: is_tok_sep_def)
  finally have t: "parse_actor_decl (name @ '' = '' @ p) (ls_ps st) = Some (profile_state_add_actor (ls_ps st)
      \<lparr>ag_name = name, ag_paths = [p], ag_bin = None, ag_strict = False, ag_launcher = None, ag_launcher_key = zero_key, ag_slot = 0\<rparr>)"
    using assms(2,3) p(1) by (simp add: parse_actor_decl_def COMPARTMENT_MAX_ACTORS_PER_SEAL_def)
  show ?thesis using d t by (simp add: conf_line_def conf_directive_def actor_declared_def)
qed

text \<open>An actor block declares its actor and counts at least the seal of its binary.\<close>

definition declares :: "lstate \<Rightarrow> string \<Rightarrow> string \<Rightarrow> lstate \<Rightarrow> bool" where
  "declares st name p st' \<longleftrightarrow>
     ls_errs st' = ls_errs st \<and> ls_sealed st < ls_sealed st' \<and>
     map (\<lambda>ag. (ag_name ag, ag_paths ag)) (ps_actors (ls_ps st')) =
       map (\<lambda>ag. (ag_name ag, ag_paths ag)) (ps_actors (ls_ps st)) @ [(name, [p])]"

lemma block_declares:
  assumes "solid p" and "actor_name_valid name" and "name \<notin> set (map ag_name (ps_actors (ls_ps st)))"
    and "\<forall>l \<in> set pre. l = [] \<or> hd l = CHR ''#''" and "\<forall>l \<in> set post. rule_line name l"
  shows "declares st name p (run_lines h skel True
    (pre @ [''actor '' @ name @ '' = '' @ p, ''seal '' @ p @ '' full''] @ post) st)"
proof -
  let ?st1 = "run_lines h skel True pre st"
  let ?st2 = "conf_line h skel True ((''actor '' @ name @ '' = '' @ p) @ [NL]) ?st1"
  let ?st3 = "conf_line h skel True ((''seal '' @ p @ '' '' @ ''full'') @ [NL]) ?st2"
  have quiet1: "quiet st ?st1" using assms(4) by (rule silent_lines)
  have "profile_find_actor (ls_ps ?st1) name = None"
    using quiet1 assms(3) by (auto simp: quiet_def profile_find_actor_def find_None_iff)
  note st2 = actor_directive [OF assms(1,2) this, of h skel]
  have "\<forall>c \<in> set ''full''. c \<noteq> CHR ''#''" "\<not> is_space (last ''full'')" by (simp_all add: is_space_def)
  note st3 = seal_directive [OF solid_tidy [OF assms(1)] parse_full this(1) _ this(2), of ?st2 h skel]
  have "quiet ?st3 (run_lines h skel True post ?st3)"
    using assms(2,5) st2 st3 by (intro rule_lines_quiet [of _ name]) (simp_all add: profile_state_add_actor_def)
  moreover have "run_lines h skel True (pre @ [''actor '' @ name @ '' = '' @ p, ''seal '' @ p @ '' full''] @ post) st =
      run_lines h skel True post ?st3"
    by (simp add: run_lines_def)
  ultimately show ?thesis using st2 st3 quiet1
    by (simp add: declares_def quiet_def profile_state_add_actor_def)
qed

section \<open>Hints\<close>

lemma sanitized_tidy: "sanitize_observed_path q = Some p \<Longrightarrow> tidy p"
proof -
  assume "sanitize_observed_path q = Some p"
  then have p: "char_at p 0 = CHR ''/''" "\<forall>c \<in> set p. c \<noteq> NL \<and> c \<noteq> CR \<and> c \<noteq> CHR ''#'' \<and> c \<noteq> CHR '' '' \<and> c \<noteq> TAB"
    by (auto simp: sanitize_observed_path_def Let_def list_ex_iff split: if_splits)
  have "absolute p" using p(1) by (cases p) (simp_all add: absolute_def char_at_def)
  then show ?thesis using p(2) by (simp add: tidy_def is_tok_sep_def)
qed

lemma scan_fds_tidy: "scan_fds dev ino fds = Some p \<Longrightarrow> tidy p"
  by (induction dev ino fds rule: scan_fds.induct) (auto split: option.splits if_splits dest: sanitized_tidy)

lemma scan_mounts_tidy: "scan_mounts h dev s = Some p \<Longrightarrow> tidy p"
proof (induction h dev s rule: scan_mounts.induct)
  case (1 h dev s)
  obtain l r where lr: "fgets 512 s = (l, r)" by fastforce
  have "(if s = [] then None
      else case mountpoint_field (cstr l) of
        None \<Rightarrow> scan_mounts h dev r
      | Some mnt \<Rightarrow> (case oh_stat h mnt of
          None \<Rightarrow> scan_mounts h dev r
        | Some st \<Rightarrow> if to_kernel_dev st \<noteq> dev then scan_mounts h dev r
            else case sanitize_observed_path mnt of None \<Rightarrow> scan_mounts h dev r | Some mp \<Rightarrow> Some mp)) = Some p"
    using 1(5) scan_mounts.simps [of h dev s] lr by (cases "s = []") simp_all
  then show ?case using 1(1-4) [of "(l, r)" l r] lr by (auto split: if_splits option.splits dest: sanitized_tidy)
qed

lemma show_nat_plain: "c \<in> set (show_nat n) \<Longrightarrow> \<not> is_tok_sep c \<and> c \<noteq> CHR ''#''"
proof -
  assume "c \<in> set (show_nat n)"
  then obtain d :: nat where "c = char_of (48 + d)" "d < 10" using show_nat_digits by blast
  then have "(of_char c :: nat) \<ge> 48" by simp
  then show ?thesis by (auto simp: is_tok_sep_def)
qed

lemma tidy_append: "tidy p \<Longrightarrow> \<forall>c \<in> set q. \<not> is_tok_sep c \<and> c \<noteq> CHR ''#'' \<Longrightarrow> tidy (p @ q)"
  by (cases p) (auto simp: tidy_def absolute_def)

text \<open>A hint that starts with a slash is tidy; it starts with one unless it is unresolved.\<close>

lemma resolve_path_tidy:
  assumes "resolve_path h dev ino = (p, parent, r)"
  shows "r \<noteq> Unresolved \<Longrightarrow> tidy p" "r = Unresolved \<Longrightarrow> hd p = CHR ''<''" "parent = [] \<or> tidy parent"
proof -
  have fd: "tidy q" if "resolve_by_procfd h dev ino = Some q" for q
    using that by (auto simp: resolve_by_procfd_def split: option.splits dest: scan_fds_tidy)
  have mount: "tidy q" if "dev_to_mountpoint h dev = Some q" for q
    using that by (auto simp: dev_to_mountpoint_def split: option.splits dest: scan_mounts_tidy)
  have suffix: "tidy ((if mp = ''/'' then [] else mp) @ ''/<ino='' @ show_nat n @ ''>'')" if "tidy mp" for mp n
  proof -
    have s: "\<forall>c \<in> set (show_nat n). \<not> is_tok_sep c \<and> c \<noteq> CHR ''#''" using show_nat_plain by blast
    then have "tidy (''/<ino='' @ show_nat n @ ''>'')" by (auto simp: tidy_def absolute_def is_tok_sep_def)
    moreover from s have "\<forall>c \<in> set (''/<ino='' @ show_nat n @ ''>''). \<not> is_tok_sep c \<and> c \<noteq> CHR ''#''" by (auto simp: is_tok_sep_def)
    ultimately show ?thesis using tidy_append [OF that] by simp
  qed
  have up: "parent_hint q = [] \<or> tidy (parent_hint q)" if t: "tidy q" for q
  proof -
    obtain q' where q: "q = CHR ''/'' # q'" using t by (cases q) (simp_all add: tidy_def absolute_def)
    have "tidy (take (Suc i) q)" for i
      using t q by (auto simp: tidy_def absolute_def dest: in_set_takeD)
    moreover have "tidy ''/''" by (simp add: tidy_def absolute_def is_tok_sep_def)
    ultimately show ?thesis by (auto simp: parent_hint_def gr0_conv_Suc split: option.splits)
  qed
  show "r \<noteq> Unresolved \<Longrightarrow> tidy p" "r = Unresolved \<Longrightarrow> hd p = CHR ''<''" "parent = [] \<or> tidy parent"
    using assms fd mount suffix up by (auto simp: resolve_path_def split: option.splits)
qed

definition hint_ok :: "string \<Rightarrow> bool" where
  "hint_ok p \<longleftrightarrow> (char_at p 0 = CHR ''/'' \<longrightarrow> tidy p)"

lemma resolve_hint_ok: "hint_ok (fst (resolve_path h dev ino))" "hint_ok (fst (snd (resolve_path h dev ino)))"
proof -
  obtain p parent r where r: "resolve_path h dev ino = (p, parent, r)" by (cases "resolve_path h dev ino")
  note t = resolve_path_tidy [OF r]
  have "hint_ok p" using t(1,2) by (cases "r = Unresolved"; cases p) (auto simp: hint_ok_def char_at_def)
  moreover have "hint_ok parent" using t(3) by (auto simp: hint_ok_def char_at_def)
  ultimately show "hint_ok (fst (resolve_path h dev ino))" "hint_ok (fst (snd (resolve_path h dev ino)))" by (simp_all add: r)
qed

text \<open>An inode that is open somewhere or lies on a mounted file system.\<close>

definition resolvable :: "ohost \<Rightarrow> u64 \<Rightarrow> u64 \<Rightarrow> bool" where
  "resolvable h dev ino \<longleftrightarrow> resolve_by_procfd h dev ino \<noteq> None \<or> dev_to_mountpoint h dev \<noteq> None"

lemma hinted_ok:
  assumes "hinted h no_resolve ob = (e, rs)"
  shows "hint_ok (oe_path e)" "hint_ok (oe_parent e)" "resolvable h (ob_dev ob) (ob_ino ob) \<Longrightarrow> oe_path e = [] \<or> tidy (oe_path e)"
proof -
  obtain p parent r where r: "resolve_path h (ob_dev ob) (ob_ino ob) = (p, parent, r)" by (cases "resolve_path h (ob_dev ob) (ob_ino ob)")
  obtain p' parent' r' where r': "resolve_path h (ob_pdev ob) (ob_pino ob) = (p', parent', r')"
    by (cases "resolve_path h (ob_pdev ob) (ob_pino ob)")
  have ok: "hint_ok p" "hint_ok parent" "hint_ok p'" "hint_ok []"
    using resolve_hint_ok [of h] r r' by (metis fst_conv snd_conv)+ (simp add: hint_ok_def char_at_def)
  have e: "oe_path e \<in> {[], p}" "oe_parent e \<in> {[], parent, p'}"
    using assms r r' by (auto simp: hinted_def observed.extend_def split: if_splits)
  then show "hint_ok (oe_path e)" "hint_ok (oe_parent e)" using ok by auto
  assume "resolvable h (ob_dev ob) (ob_ino ob)"
  then have "r \<noteq> Unresolved" using r by (auto simp: resolvable_def resolve_path_def split: option.splits)
  then show "oe_path e = [] \<or> tidy (oe_path e)" using e(1) resolve_path_tidy(1) [OF r] by auto
qed

section \<open>Groups and their rules\<close>

lemma in_update_first: "x \<in> set (update_first P f xs) \<Longrightarrow> x \<in> set xs \<or> (\<exists>y \<in> set xs. P y \<and> x = f y)"
  by (induction xs) (auto split: if_splits)

text \<open>
  The path of a group is a hint of an entry of that directory: what holds of the hints of the entries, with the
  directory they are filed under, holds of the groups.
\<close>

definition filed :: "(u64 \<Rightarrow> u64 \<Rightarrow> string \<Rightarrow> bool) \<Rightarrow> obs_entry \<Rightarrow> bool" where
  "filed Q e \<longleftrightarrow> (if is_create_like_op (ob_op e) then Q (ob_dev e) (ob_ino e) (oe_path e) else Q (ob_pdev e) (ob_pino e) (oe_parent e))"

lemma put_group_all:
  assumes "\<forall>g \<in> set gs. Q (dg_dev g) (dg_ino g) (dg_path g)" and "Q (dg_dev new) (dg_ino new) (dg_path new)"
    and "\<And>d. dg_dev (f d) = dg_dev d \<and> dg_ino (f d) = dg_ino d \<and> dg_path (f d) \<in> {dg_path d, dg_path new}"
  shows "\<forall>g \<in> set (put_group f new gs). Q (dg_dev g) (dg_ino g) (dg_path g)"
proof
  fix g assume g: "g \<in> set (put_group f new gs)"
  then consider "g \<in> set gs" | "g = new" | d where "d \<in> set gs" "dg_dev d = dg_dev new" "dg_ino d = dg_ino new" "g = f d"
    by (auto simp: put_group_def Let_def dest!: in_update_first split: if_splits)
  then show "Q (dg_dev g) (dg_ino g) (dg_path g)"
  proof cases
    case (3 d)
    then show ?thesis using assms(1,2) assms(3) [of d] by auto
  qed (use assms(1,2) in simp_all)
qed

lemma groups_filed:
  assumes "\<forall>e \<in> set entries. ob_slot e = ar_slot a \<longrightarrow> filed Q e"
  shows "\<forall>g \<in> set (dir_groups a entries). Q (dg_dev g) (dg_ino g) (dg_path g)"
proof -
  have step: "\<forall>g \<in> set (group_entry a e gs). Q (dg_dev g) (dg_ino g) (dg_path g)"
    if gs: "\<forall>g \<in> set gs. Q (dg_dev g) (dg_ino g) (dg_path g)" and e: "ob_slot e = ar_slot a \<longrightarrow> filed Q e" for e gs
  proof -
    let ?made = "put_group (\<lambda>d. d\<lparr>dg_creates := True, dg_force := True\<rparr>)
          \<lparr>dg_dev = ob_dev e, dg_ino = ob_ino e, dg_path = oe_path e, dg_count = 0, dg_creates = True, dg_force = True\<rparr> gs"
    let ?seen = "put_group (\<lambda>d. d\<lparr>dg_count := Suc (dg_count d), dg_force := dg_force d \<or> forces_dir_rule_op (ob_op e),
                            dg_path := (if dg_path d = [] then oe_parent e else dg_path d)\<rparr>)
             \<lparr>dg_dev = ob_pdev e, dg_ino = ob_pino e, dg_path = oe_parent e, dg_count = 1, dg_creates = False,
              dg_force = forces_dir_rule_op (ob_op e)\<rparr> gs"
    have "\<forall>g \<in> set ?made. Q (dg_dev g) (dg_ino g) (dg_path g)" if "ob_slot e = ar_slot a" "is_create_like_op (ob_op e)"
      using gs e that by (intro put_group_all) (simp_all add: filed_def)
    moreover have "\<forall>g \<in> set ?seen. Q (dg_dev g) (dg_ino g) (dg_path g)" if "ob_slot e = ar_slot a" "\<not> is_create_like_op (ob_op e)"
      using gs e that by (intro put_group_all) (simp_all add: filed_def)
    ultimately show ?thesis using gs by (simp only: group_entry_def split: if_split) simp
  qed
  have "\<forall>g \<in> set (fold (group_entry a) es gs). Q (dg_dev g) (dg_ino g) (dg_path g)"
    if "\<forall>g \<in> set gs. Q (dg_dev g) (dg_ino g) (dg_path g)" "\<forall>e \<in> set es. ob_slot e = ar_slot a \<longrightarrow> filed Q e" for es gs
    using that
  proof (induction es arbitrary: gs)
    case (Cons e es)
    have "\<forall>g \<in> set (group_entry a e gs). Q (dg_dev g) (dg_ino g) (dg_path g)" using Cons.prems by (intro step) simp_all
    then show ?case using Cons by simp
  qed simp
  from this [of "[]" entries] show ?thesis using assms by (simp add: dir_groups_def)
qed

lemma group_hints:
  assumes "\<forall>e \<in> set entries. hint_ok (oe_path e) \<and> hint_ok (oe_parent e)"
  shows "\<forall>g \<in> set (dir_groups a entries). hint_ok (dg_path g)"
  using groups_filed [of entries a "\<lambda>_ _ p. hint_ok p"] assms by (simp add: filed_def)

lemma file_rules_lines:
  assumes "\<forall>e \<in> set entries. oe_path e = [] \<or> tidy (oe_path e)"
  shows "\<forall>l \<in> set (file_rules a entries g). rule_line (ar_name a) l"
  using assms by (auto simp: file_rules_def file_rule_def Let_def rule_line_def split: if_splits)

lemma comment_line [simp]: "rule_line n (CHR ''#'' # s)" "rule_line n []"
  by (simp_all add: rule_line_def)

lemma group_rules_lines:
  assumes "\<forall>e \<in> set entries. oe_path e = [] \<or> tidy (oe_path e)" and "hint_ok (dg_path g)"
  shows "\<forall>l \<in> set (group_rules abi a entries g). rule_line (ar_name a) l"
proof -
  have "rule_line (ar_name a) (dir_rule a (dg_path g))" if "collapses abi g"
    using that assms(2) by (auto simp: collapses_def hint_ok_def dir_rule_def rule_line_def)
  then show ?thesis using file_rules_lines [OF assms(1)]
    by (auto simp: group_rules_def)
qed

section \<open>Actors of the command line\<close>

text \<open>They have names the loader takes, all different, and their index for a slot.\<close>

definition actors_ok :: "actor_reg list \<Rightarrow> bool" where
  "actors_ok as \<longleftrightarrow> length as \<le> AO_MAX_ACTORS \<and> (\<forall>a \<in> set as. actor_name_valid (ar_name a)) \<and> distinct (map ar_name as)
     \<and> map ar_slot as = map of_nat [0..<length as]"

lemma add_actor_ok: "add_actor arg opts = Some opts' \<Longrightarrow> actors_ok (oo_actors opts) \<Longrightarrow> actors_ok (oo_actors opts') \<and> oo_actors opts' \<noteq> []"
  by (fastforce simp: add_actor_def actors_ok_def Let_def names_agree actor_name_in_use_def list_ex_iff split: if_splits)

text \<open>One option of the command line: the end, or a shorter command line with the same actors or one more.\<close>

lemma observe_args_next:
  assumes "observe_args (a # rest) opts = Inr opts'"
  shows "oo_actors opts' = oo_actors opts \<or>
    (\<exists>rest' opts1. length rest' < length (a # rest) \<and> observe_args rest' opts1 = Inr opts' \<and>
       (oo_actors opts1 = oo_actors opts \<or> (\<exists>arg. add_actor arg opts = Some opts1)))"
proof -
  define G where "G \<longleftrightarrow> oo_actors opts' = oo_actors opts \<or>
    (\<exists>rest' opts1. length rest' < length (a # rest) \<and> observe_args rest' opts1 = Inr opts' \<and>
       (oo_actors opts1 = oo_actors opts \<or> (\<exists>arg. add_actor arg opts = Some opts1)))"
  have step: G if "observe_args r o1 = Inr opts'" "oo_actors o1 = oo_actors opts" "length r \<le> length rest" for r o1
    using that unfolding G_def by (intro disjI2 exI [of _ r] exI [of _ o1]) simp
  have added: G if "(case add_actor arg opts of None \<Rightarrow> Inl 2 | Some o1 \<Rightarrow> observe_args r o1) = Inr opts'"
    and "length r \<le> length rest" for arg r
  proof (cases "add_actor arg opts")
    case (Some o1)
    then show ?thesis using that unfolding G_def by (intro disjI2 exI [of _ r] exI [of _ o1]) auto
  qed (use that in simp)
  have fmt: G if "(case format_named arg of None \<Rightarrow> Inl 2 | Some f \<Rightarrow> observe_args r (opts\<lparr>oo_format := f\<rparr>)) = Inr opts'"
    and "length r \<le> length rest" for arg r
    using that step by (cases "format_named arg") simp_all
  have ended: G if "Inr (opts\<lparr>oo_cmd := rest\<rparr>) = (Inr opts' :: int + oopts)" using that by (auto simp: G_def)
  have G using assms [unfolded observe_args.simps(2)]
    by (simp only: split: if_split_asm list.split_asm)
       ((erule added, simp; fail) | (erule fmt, simp; fail) | (erule ended; fail) | (erule step, simp, simp; fail) | (simp; fail))+
  then show ?thesis by (simp add: G_def)
qed

lemma observe_args_ok:
  "observe_args args opts = Inr opts' \<Longrightarrow> actors_ok (oo_actors opts) \<Longrightarrow> actors_ok (oo_actors opts')"
proof (induction args arbitrary: opts rule: length_induct)
  case (1 args)
  show ?case
  proof (cases args)
    case Nil
    then show ?thesis using 1 by simp
  next
    case (Cons a rest)
    then show ?thesis using observe_args_next [of a rest opts opts'] 1 add_actor_ok by metis
  qed
qed

lemma normalized_valid:
  assumes "normalize_actor_name src AO_PROFILE_ACTOR_NAME_MAX = Some (name, changed)"
  shows "actor_name_valid name"
proof -
  have "actor_name_valid (take (AO_PROFILE_ACTOR_NAME_MAX - 1) ''_actor'')" by code_simp
  then show ?thesis using assms by (auto simp: normalize_actor_name_def Let_def names_agree split: if_splits)
qed

lemma infer_actor_ok:
  assumes "infer_actor h opts = Some as" and "actors_ok (oo_actors opts)"
  shows "actors_ok as" "oo_actors opts = [] \<Longrightarrow> oo_cmd opts = [] \<Longrightarrow> as = []" "oo_actors opts \<noteq> [] \<or> oo_cmd opts \<noteq> [] \<Longrightarrow> as \<noteq> []"
  using assms
  by (auto simp: infer_actor_def actors_ok_def AO_MAX_ACTORS_def Let_def dest: normalized_valid split: list.splits if_splits option.splits)

lemma resolve_actors_ok:
  assumes "resolve_actors h as = Some as'"
  shows "list_all2 (\<lambda>a a'. ar_name a' = ar_name a \<and> ar_slot a' = ar_slot a \<and> oh_realpath h (ar_path a) = Some (ar_path a')) as as'"
  using assms
  by (induction as arbitrary: as') (auto split: option.splits dest: resolve_actor_fields)

lemma resolved_actors:
  assumes "resolve_actors h as = Some as'" and "actors_ok as"
  shows "actors_ok as'" "length as' = length as" "\<forall>a \<in> set as'. \<exists>q. oh_realpath h q = Some (ar_path a)"
proof -
  note l = resolve_actors_ok [OF assms(1)]
  then show len: "length as' = length as" by (simp add: list_all2_lengthD)
  have names: "map ar_name as' = map ar_name as" "map ar_slot as' = map ar_slot as"
    using l by (auto simp: list_all2_conv_all_nth intro!: nth_equalityI)
  have "\<forall>a \<in> set as'. actor_name_valid (ar_name a)"
  proof
    fix a
    assume "a \<in> set as'"
    then have "ar_name a \<in> ar_name ` set as" using names(1) by (metis image_eqI list.set_map)
    then show "actor_name_valid (ar_name a)" using assms(2) by (auto simp: actors_ok_def)
  qed
  then show "actors_ok as'" using assms(2) names len by (simp add: actors_ok_def)
  show "\<forall>a \<in> set as'. \<exists>q. oh_realpath h q = Some (ar_path a)"
  proof
    fix a
    assume "a \<in> set as'"
    then obtain i where "i < length as'" "a = as' ! i" by (auto simp: in_set_conv_nth)
    then have "oh_realpath h (ar_path (as ! i)) = Some (ar_path a)" using l by (simp add: list_all2_conv_all_nth)
    then show "\<exists>q. oh_realpath h q = Some (ar_path a)" by blast
  qed
qed

section \<open>The whole draft\<close>

lemma run_lines_append [simp]: "run_lines h skel po (xs @ ys) st = run_lines h skel po ys (run_lines h skel po xs st)"
  by (simp add: run_lines_def)

definition entries_ok :: "obs_entry list \<Rightarrow> bool" where
  "entries_ok entries \<longleftrightarrow> (\<forall>e \<in> set entries. hint_ok (oe_path e) \<and> hint_ok (oe_parent e) \<and> (oe_path e = [] \<or> tidy (oe_path e)))"

lemma launcher_notes_silent: "\<forall>l \<in> set (launcher_notes h no_resolve a). rule_line n l"
  by (auto simp: launcher_notes_def Let_def)

lemma actor_block_declares:
  assumes "solid (ar_path a)" and "actor_name_valid (ar_name a)" and "ar_name a \<notin> set (map ag_name (ps_actors (ls_ps st)))"
    and "entries_ok entries"
  shows "declares st (ar_name a) (ar_path a) (run_lines lh skel True (actor_block h no_resolve abi entries a) st)"
proof -
  let ?post = "[[], ''# observed launchers:''] @ launcher_notes h no_resolve a @
     (if \<not> oh_dirs h (ar_slot a) then []
      else [[]] @ concat (map (group_rules abi a entries) (dir_groups a entries)) @ unresolved_notes a entries)"
  have "\<forall>g \<in> set (dir_groups a entries). hint_ok (dg_path g)"
    using assms(4) by (intro group_hints) (simp add: entries_ok_def)
  then have "\<forall>l \<in> set (group_rules abi a entries g). rule_line (ar_name a) l" if "g \<in> set (dir_groups a entries)" for g
    using that assms(4) by (intro group_rules_lines) (simp_all add: entries_ok_def)
  moreover have "\<forall>l \<in> set (unresolved_notes a entries). rule_line (ar_name a) l" by (auto simp: unresolved_notes_def)
  ultimately have "\<forall>l \<in> set ?post. rule_line (ar_name a) l"
    using launcher_notes_silent [of h no_resolve a "ar_name a"] by auto
  from block_declares [OF assms(1-3) _ this, of "[[], ''# target: '' @ ar_name a]" lh skel]
  show ?thesis by (simp add: actor_block_def)
qed

lemma actor_blocks_declare:
  assumes "entries_ok entries" and "\<forall>a \<in> set as. solid (ar_path a) \<and> actor_name_valid (ar_name a)" and "distinct (map ar_name as)"
    and "set (map ar_name as) \<inter> set (map ag_name (ps_actors (ls_ps st))) = {}"
  shows "let st' = run_lines lh skel True (concat (map (actor_block h no_resolve abi entries) as)) st
    in ls_errs st' = ls_errs st \<and> ls_sealed st + length as \<le> ls_sealed st' \<and>
       map (\<lambda>ag. (ag_name ag, ag_paths ag)) (ps_actors (ls_ps st')) =
       map (\<lambda>ag. (ag_name ag, ag_paths ag)) (ps_actors (ls_ps st)) @ map (\<lambda>a. (ar_name a, [ar_path a])) as"
  using assms(2-4)
proof (induction as arbitrary: st)
  case (Cons a as)
  let ?st1 = "run_lines lh skel True (actor_block h no_resolve abi entries a) st"
  have d: "declares st (ar_name a) (ar_path a) ?st1"
    using Cons.prems assms(1) by (intro actor_block_declares) auto
  then have "map (\<lambda>ag. (ag_name ag, ag_paths ag)) (ps_actors (ls_ps ?st1)) =
      map (\<lambda>ag. (ag_name ag, ag_paths ag)) (ps_actors (ls_ps st)) @ [(ar_name a, [ar_path a])]"
    by (simp add: declares_def)
  from arg_cong [of _ _ "map fst", OF this]
  have "map ag_name (ps_actors (ls_ps ?st1)) = map ag_name (ps_actors (ls_ps st)) @ [ar_name a]" by (simp add: comp_def)
  from arg_cong [of _ _ set, OF this]
  have "ag_name ` set (ps_actors (ls_ps ?st1)) = insert (ar_name a) (ag_name ` set (ps_actors (ls_ps st)))" by simp
  then show ?case using Cons.prems Cons.IH [of ?st1] d by (simp add: declares_def Let_def)
qed (simp add: run_lines_def)

lemma header_silent: "\<forall>l \<in> set (profile_header h abi actors rs). l = [] \<or> hd l = CHR ''#''"
  by (auto simp: profile_header_def count_note_def)

lemma draft_runs:
  assumes "entries_ok entries" and "\<forall>a \<in> set as. solid (ar_path a)" and "actors_ok as"
  shows "let st = run_lines lh skel True (emit_profile h no_resolve no_dir_dest entries rs as) (initial_lstate M)
    in ls_errs st = 0 \<and> length as \<le> ls_sealed st \<and>
       map (\<lambda>ag. (ag_name ag, ag_paths ag)) (ps_actors (ls_ps st)) = map (\<lambda>a. (ar_name a, [ar_path a])) as"
proof -
  let ?st = "run_lines lh skel True (profile_header h (detect_runtime_abi h no_dir_dest) as rs) (initial_lstate M)"
  have q: "quiet (initial_lstate M) ?st" by (intro silent_lines header_silent)
  then have "ps_actors (ls_ps ?st) = []" "ls_errs ?st = 0" by (simp_all add: quiet_def initial_lstate_def)
  then show ?thesis
    using actor_blocks_declare [of entries as ?st lh skel h no_resolve "detect_runtime_abi h no_dir_dest"] assms
    by (simp add: emit_profile_def Let_def actors_ok_def)
qed

lemma observe_main_drafts:
  assumes "observe_main h args = (0, Some draft)"
  obtains opts asked actors where "observe_args args initial_oopts = Inr opts" and "infer_actor h opts = Some asked"
    and "resolve_actors h asked = Some actors" and "actors_ok actors" and "actors \<noteq> []"
    and "draft = emit_profile h (oo_no_resolve opts) (oo_no_dir_dest opts)
      (map (fst \<circ> hinted h (oo_no_resolve opts)) (take AO_MAX_OBSERVED (oh_observed h)))
      (concat (map (snd \<circ> hinted h (oo_no_resolve opts)) (take AO_MAX_OBSERVED (oh_observed h)))) actors"
proof -
  obtain opts asked actors where o: "observe_args args initial_oopts = Inr opts" "infer_actor h opts = Some asked"
      "resolve_actors h asked = Some actors" and ne: "oo_actors opts \<noteq> [] \<or> oo_cmd opts \<noteq> []"
    and d: "draft = emit_profile h (oo_no_resolve opts) (oo_no_dir_dest opts)
      (map (fst \<circ> hinted h (oo_no_resolve opts)) (take AO_MAX_OBSERVED (oh_observed h)))
      (concat (map (snd \<circ> hinted h (oo_no_resolve opts)) (take AO_MAX_OBSERVED (oh_observed h)))) actors"
    using assms by (auto simp: observe_main_def Let_def comp_def split: sum.splits if_splits option.splits)
  have "actors_ok (oo_actors opts)"
    using observe_args_ok [OF o(1)] by (simp add: initial_oopts_def actors_ok_def)
  note i = infer_actor_ok [OF o(2) this]
  note r = resolved_actors [OF o(3) i(1)]
  have "actors \<noteq> []" using i(3) [OF ne] r(2) by auto
  then show thesis by (rule that [OF o r(1) _ d])
qed

section \<open>Coverage\<close>

definition has_group :: "u64 \<Rightarrow> u64 \<Rightarrow> dir_group list \<Rightarrow> bool" where
  "has_group dev ino gs \<longleftrightarrow> (\<exists>g \<in> set gs. dg_dev g = dev \<and> dg_ino g = ino \<and> 0 < dg_count g)"

lemma length_update_first [simp]: "length (update_first P f xs) = length xs"
  by (induction xs) auto

lemma update_first_keeps:
  "\<exists>x \<in> set xs. Q x \<Longrightarrow> (\<And>x. Q x \<Longrightarrow> Q (f x)) \<Longrightarrow> \<exists>x \<in> set (update_first P f xs). Q x"
  by (induction xs) auto

lemma update_first_hits: "list_ex P xs \<Longrightarrow> \<exists>x \<in> set xs. P x \<and> f x \<in> set (update_first P f xs)"
  by (induction xs) auto

lemma put_group_length: "length gs \<le> length (put_group f g gs)"
  by (simp add: put_group_def Let_def)

lemma put_group_keeps:
  assumes "has_group dev ino gs" and "\<And>d. dg_dev (f d) = dg_dev d \<and> dg_ino (f d) = dg_ino d \<and> dg_count d \<le> dg_count (f d)"
  shows "has_group dev ino (put_group f g gs)"
proof -
  have "\<exists>g \<in> set (update_first P f gs). dg_dev g = dev \<and> dg_ino g = ino \<and> 0 < dg_count g" for P
    using assms(1) unfolding has_group_def
    by (rule update_first_keeps) (metis assms(2) less_le_trans)
  then show ?thesis using assms(1) by (auto simp: put_group_def Let_def has_group_def)
qed

lemma put_group_has:
  assumes "length (put_group f g gs) < 512" and "\<And>d. dg_dev (f d) = dg_dev d \<and> dg_ino (f d) = dg_ino d \<and> 0 < dg_count (f d)"
    and "0 < dg_count g"
  shows "has_group (dg_dev g) (dg_ino g) (put_group f g gs)"
proof (cases "list_ex (\<lambda>d. dg_dev d = dg_dev g \<and> dg_ino d = dg_ino g) gs")
  case True
  from update_first_hits [OF this, of f] obtain x where x: "dg_dev x = dg_dev g" "dg_ino x = dg_ino g"
      "f x \<in> set (put_group f g gs)" using True by (auto simp: put_group_def Let_def)
  then show ?thesis unfolding has_group_def using assms(2) by (intro bexI [of _ "f x"]) simp_all
next
  case False
  then show ?thesis using assms(1,3) by (auto simp: put_group_def has_group_def Let_def split: if_splits)
qed

lemma group_entry_keeps:
  "length gs \<le> length (group_entry a e gs)" "has_group dev ino gs \<Longrightarrow> has_group dev ino (group_entry a e gs)"
  unfolding group_entry_def by (simp_all add: put_group_length put_group_keeps)

lemma groups_keep:
  "length gs \<le> length (fold (group_entry a) es gs)" "has_group dev ino gs \<Longrightarrow> has_group dev ino (fold (group_entry a) es gs)"
proof (induction es arbitrary: gs)
  case (Cons e es)
  case 1
  then show ?case using Cons.IH(1) [of "group_entry a e gs"] group_entry_keeps(1) [of gs a e] by simp
next
  case (Cons e es)
  case 2
  then show ?case using Cons.IH(2) [of "group_entry a e gs"] group_entry_keeps(2) [of dev ino gs a e] by simp
qed simp_all

definition own_access :: "actor_reg \<Rightarrow> 'a observed_scheme \<Rightarrow> bool" where
  "own_access a e \<longleftrightarrow> ob_slot e = ar_slot a \<and> \<not> (ob_lineage e \<and> \<not> ob_current e) \<and> \<not> is_create_like_op (ob_op e)
     \<and> (ob_pdev e \<noteq> 0 \<or> ob_pino e \<noteq> 0)"

lemma access_grouped:
  assumes "e \<in> set entries" and "own_access a e" and "length (dir_groups a entries) < 512"
  shows "has_group (ob_pdev e) (ob_pino e) (dir_groups a entries)"
proof -
  obtain pre post where es: "entries = pre @ e # post" using assms(1) by (meson split_list)
  let ?gs = "group_entry a e (fold (group_entry a) pre [])"
  have groups: "dir_groups a entries = fold (group_entry a) post ?gs" by (simp add: dir_groups_def es)
  have "length ?gs < 512" using groups_keep(1) [of ?gs a post] assms(3) groups by simp
  then have "has_group (ob_pdev e) (ob_pino e) ?gs"
    using assms(2) put_group_has [where g = "\<lparr>dg_dev = ob_pdev e, dg_ino = ob_pino e, dg_path = oe_parent e, dg_count = 1,
      dg_creates = False, dg_force = forces_dir_rule_op (ob_op e)\<rparr>"] by (auto simp: group_entry_def own_access_def)
  then show ?thesis unfolding groups by (rule groups_keep(2))
qed

text \<open>Files with one hint per inode: every access to a directory is enumerated, once per path.\<close>

definition one_hint :: "obs_entry list \<Rightarrow> bool" where
  "one_hint entries \<longleftrightarrow> (\<forall>x \<in> set entries. \<forall>y \<in> set entries. ob_dev x = ob_dev y \<and> ob_ino x = ob_ino y \<longrightarrow> oe_path x = oe_path y)"

lemma file_enumerated:
  assumes "one_hint entries" and "i < length entries" and "ob_slot (entries ! i) = ar_slot a"
    and "\<not> is_create_like_op (ob_op (entries ! i))" and "ob_pdev (entries ! i) = dg_dev g" and "ob_pino (entries ! i) = dg_ino g"
    and "oe_path (entries ! i) \<noteq> []"
  shows "file_rule a (oe_path (entries ! i)) \<in> set (file_rules a entries g)"
  using assms(2-)
proof (induction i rule: less_induct)
  case (less i)
  show ?case
  proof (cases "earlier_rule_for_group entries i (entries ! i)")
    case True
    then obtain prev where "prev \<in> set (take i entries)" and prev: "ob_slot prev = ar_slot a" "\<not> is_create_like_op (ob_op prev)"
        "ob_pdev prev = dg_dev g" "ob_pino prev = dg_ino g" "same_emitted_rule prev (entries ! i)"
      using less.prems by (auto simp: earlier_rule_for_group_def list_ex_iff)
    then obtain j where j: "j < i" "prev = entries ! j" using less.prems(1) by (auto simp: in_set_conv_nth)
    have "oe_path (entries ! j) = oe_path (entries ! i)"
      using prev(5) assms(1) j less.prems(1) by (auto simp: same_emitted_rule_def one_hint_def)
    then show ?thesis using less.IH [OF j(1)] prev j less.prems by simp
  next
    case False
    then show ?thesis using less.prems by (auto simp: file_rules_def Let_def intro!: bexI [of _ i])
  qed
qed

lemma group_covers:
  assumes "has_group (ob_pdev e) (ob_pino e) (dir_groups a entries)" and "one_hint entries" and "e \<in> set entries"
    and "own_access a e" and "oe_path e \<noteq> []"
  obtains g where "g \<in> set (dir_groups a entries)" and "dg_dev g = ob_pdev e" and "dg_ino g = ob_pino e"
    and "file_rule a (oe_path e) \<in> set (group_rules abi a entries g) \<or> dir_rule a (dg_path g) \<in> set (group_rules abi a entries g)"
proof -
  obtain g where g: "g \<in> set (dir_groups a entries)" "dg_dev g = ob_pdev e" "dg_ino g = ob_pino e" "0 < dg_count g"
    using assms(1) by (auto simp: has_group_def)
  obtain i where i: "i < length entries" "e = entries ! i" using assms(3) by (auto simp: in_set_conv_nth)
  have "file_rule a (oe_path e) \<in> set (file_rules a entries g)"
    unfolding i(2) using assms(4,5) g i by (intro file_enumerated [OF assms(2)]) (simp_all add: own_access_def)
  then have "file_rule a (oe_path e) \<in> set (group_rules abi a entries g) \<or> dir_rule a (dg_path g) \<in> set (group_rules abi a entries g)"
    using g(4) by (simp add: group_rules_def)
  then show thesis using g by (intro that)
qed

lemma hinted_fields:
  "ob_slot (fst (hinted h nr ob)) = ob_slot ob" "ob_op (fst (hinted h nr ob)) = ob_op ob" "ob_dev (fst (hinted h nr ob)) = ob_dev ob"
  "ob_ino (fst (hinted h nr ob)) = ob_ino ob" "ob_pdev (fst (hinted h nr ob)) = ob_pdev ob" "ob_pino (fst (hinted h nr ob)) = ob_pino ob"
  "ob_current (fst (hinted h nr ob)) = ob_current ob" "ob_lineage (fst (hinted h nr ob)) = ob_lineage ob"
  "oe_path (fst (hinted h nr ob)) = (if nr then [] else fst (resolve_path h (ob_dev ob) (ob_ino ob)))"
  by (auto simp: hinted_def observed.extend_def split: prod.splits)

lemma hinted_one_hint: "one_hint (map (fst \<circ> hinted h nr) obs)"
  by (auto simp: one_hint_def hinted_fields)

lemma resolve_path_nonempty: "fst (resolve_path h dev ino) \<noteq> []"
proof -
  obtain p parent r where r: "resolve_path h dev ino = (p, parent, r)" by (cases "resolve_path h dev ino")
  then show ?thesis using resolve_path_tidy(1) [OF r] tidy_nonempty
    by (cases "r = Unresolved") (auto simp: resolve_path_def split: option.splits)
qed

text \<open>
  A file that is still open, under the name by which it was reached: its link leads to it, and the directory of the link
  is the one the access was made in.
\<close>

definition hint_true :: "ohost \<Rightarrow> 'a observed_scheme \<Rightarrow> bool" where
  "hint_true h ob \<longleftrightarrow> (\<exists>p. resolve_by_procfd h (ob_dev ob) (ob_ino ob) = Some p \<and> path_to_file_id h p = Some (ob_dev ob, ob_ino ob) \<and>
     (\<not> is_create_like_op (ob_op ob) \<longrightarrow> path_to_file_id h (parent_hint p) = Some (ob_pdev ob, ob_pino ob)))"

text \<open>The directory an observation is filed under.\<close>

definition in_dir :: "'a observed_scheme \<Rightarrow> u64 \<times> u64" where
  "in_dir ob = (if is_create_like_op (ob_op ob) then (ob_dev ob, ob_ino ob) else (ob_pdev ob, ob_pino ob))"

lemma parent_hint_nonempty: "absolute p \<Longrightarrow> parent_hint p \<noteq> []"
proof -
  assume "absolute p"
  then obtain p' where p: "p = CHR ''/'' # p'" by (cases p) (simp_all add: absolute_def)
  then show ?thesis by (cases "last_index (CHR ''/'') p'") (simp_all add: parent_hint_def)
qed

lemma hint_true_hints:
  assumes "hint_true h ob"
  shows "path_to_file_id h (oe_path (fst (hinted h False ob))) = Some (ob_dev ob, ob_ino ob)"
    "\<not> is_create_like_op (ob_op ob) \<Longrightarrow> path_to_file_id h (oe_parent (fst (hinted h False ob))) = Some (ob_pdev ob, ob_pino ob)"
proof -
  obtain p where p: "resolve_by_procfd h (ob_dev ob) (ob_ino ob) = Some p" "path_to_file_id h p = Some (ob_dev ob, ob_ino ob)"
    "\<not> is_create_like_op (ob_op ob) \<longrightarrow> path_to_file_id h (parent_hint p) = Some (ob_pdev ob, ob_pino ob)"
    using assms by (auto simp: hint_true_def)
  have r: "resolve_path h (ob_dev ob) (ob_ino ob) = (p, parent_hint p, By_fd)" by (simp add: resolve_path_def p(1))
  have "tidy p" using resolve_path_tidy(1) [OF r] by simp
  then have "parent_hint p \<noteq> []" using parent_hint_nonempty by (simp add: tidy_def)
  then have "fst (hinted h False ob) = observed.extend ob \<lparr>oe_path = p, oe_parent = parent_hint p\<rparr>" by (simp add: hinted_def r)
  then show "path_to_file_id h (oe_path (fst (hinted h False ob))) = Some (ob_dev ob, ob_ino ob)"
    "\<not> is_create_like_op (ob_op ob) \<Longrightarrow> path_to_file_id h (oe_parent (fst (hinted h False ob))) = Some (ob_pdev ob, ob_pino ob)"
    using p(2,3) by (simp_all add: observed.extend_def)
qed

text \<open>An access by the actor itself is covered by a rule for the file or one for its directory, by their own paths.\<close>

lemma access_covered:
  fixes obs :: "observed list"
  assumes "entries = map (fst \<circ> hinted h False) obs" and "ob \<in> set obs" and "a \<in> set actors" and "own_access a ob"
    and "length (dir_groups a entries) < 512" and "oh_dirs h (ar_slot a)"
    and "\<forall>x \<in> set obs. ob_slot x = ar_slot a \<and> in_dir x = in_dir ob \<longrightarrow> hint_true h x"
  shows "\<exists>p. path_to_file_id h p = Some (ob_dev ob, ob_ino ob) \<and>
      file_rule a p \<in> set (emit_profile h no_resolve no_dir_dest entries rs actors) \<or>
    path_to_file_id h p = Some (ob_pdev ob, ob_pino ob) \<and>
      dir_rule a p \<in> set (emit_profile h no_resolve no_dir_dest entries rs actors)"
proof -
  let ?e = "fst (hinted h False ob)" and ?abi = "detect_runtime_abi h no_dir_dest"
  let ?Q = "\<lambda>dev ino p. (dev, ino) = in_dir ob \<longrightarrow> path_to_file_id h p = Some (dev, ino)"
  have e: "?e \<in> set entries" "own_access a ?e" "oe_path ?e \<noteq> []"
    using assms(1,2,4) resolve_path_nonempty by (auto simp: own_access_def hinted_fields)
  note grouped = access_grouped [OF e(1,2) assms(5)]
  have one: "one_hint entries" unfolding assms(1) by (rule hinted_one_hint)
  obtain g where g: "g \<in> set (dir_groups a entries)" "dg_dev g = ob_pdev ?e" "dg_ino g = ob_pino ?e"
    and r: "file_rule a (oe_path ?e) \<in> set (group_rules ?abi a entries g) \<or> dir_rule a (dg_path g) \<in> set (group_rules ?abi a entries g)"
    by (rule group_covers [OF grouped one e])
  have own: "in_dir ob = (ob_pdev ob, ob_pino ob)" "ob_slot ob = ar_slot a" using assms(4) by (simp_all add: own_access_def in_dir_def)
  have "\<forall>e \<in> set entries. ob_slot e = ar_slot a \<longrightarrow> filed ?Q e"
    using assms(7) hint_true_hints unfolding assms(1) filed_def by (auto simp: hinted_fields in_dir_def)
  from groups_filed [OF this] have "path_to_file_id h (dg_path g) = Some (ob_pdev ob, ob_pino ob)"
    using g own(1) by (simp add: hinted_fields)
  moreover have "path_to_file_id h (oe_path ?e) = Some (ob_dev ob, ob_ino ob)"
    using hint_true_hints(1) assms(2,7) own by blast
  moreover have "set (group_rules ?abi a entries g) \<subseteq> set (emit_profile h no_resolve no_dir_dest entries rs actors)"
    using g(1) assms(3,6) by (auto simp: emit_profile_def actor_block_def Let_def)
  ultimately show ?thesis using r by blast
qed

section \<open>Unresolved hints\<close>

lemma show_hex_plain: "c \<in> set (show_hex n) \<Longrightarrow> \<not> is_tok_sep c \<and> c \<noteq> CHR ''#''"
proof (induction n rule: show_hex.induct)
  case (1 n)
  have digits: "\<forall>d < 16. \<not> is_tok_sep (''0123456789abcdef'' ! d) \<and> ''0123456789abcdef'' ! d \<noteq> CHR ''#''"
    by (simp add: All_less_Suc eval_nat_numeral is_tok_sep_def)
  show ?case
  proof (cases "n < 16")
    case True
    then show ?thesis using 1(2) digits by (subst (asm) show_hex.simps) simp
  next
    case False
    then have "c \<in> set (show_hex (n div 16)) \<or> c = ''0123456789abcdef'' ! (n mod 16)"
      using 1(2) by (subst (asm) show_hex.simps) auto
    then show ?thesis using 1(1) [OF False] digits by auto
  qed
qed

lemma unresolved_rule_fails:
  assumes "resolve_path h dev ino = (p, parent, Unresolved)" and "actor_name_valid (ar_name a)"
  shows "ls_errs (conf_line lh skel po (file_rule a p @ [NL]) st) \<noteq> 0"
proof -
  note n = name_chars [OF assms(2)] name_solid [OF assms(2)]
  let ?spec = "''no-write no-unlink no-rename actor='' @ ar_name a"
  have p: "p = ''<dev=0x'' @ show_hex (unat dev) @ '',ino='' @ show_nat (unat ino) @ ''>''"
    using assms(1) by (auto simp: resolve_path_def split: option.splits)
  have plain: "\<forall>c \<in> set p. \<not> is_tok_sep c \<and> c \<noteq> CHR ''#''"
    using show_hex_plain show_nat_plain by (auto simp: p is_tok_sep_def)
  have "\<forall>c \<in> set (p @ CHR '' '' # ?spec). c \<noteq> CHR ''#''" using plain n(6) by auto
  moreover have "\<not> is_space (last (p @ CHR '' '' # ?spec))" using n(1,3) by simp
  ultimately have d: "strtok is_tok_sep (trim (takeWhile (\<lambda>c. c \<noteq> CHR ''#'') ((''seal'' @ CHR '' '' # p @ CHR '' '' # ?spec) @ [NL]))) =
      Some (''seal'', p @ CHR '' '' # ?spec)"
    by (intro directive_line) (simp_all add: is_space_def)
  have t: "strtok is_tok_sep (p @ CHR '' '' # ?spec) = Some (p, ?spec)"
    using plain by (intro strtok_word) (simp_all add: p is_tok_sep_def)
  have "\<not> absolute p" by (simp add: p absolute_def)
  then have fails: "ls_errs (seal_line lh skel po (p @ CHR '' '' # ?spec) s) \<noteq> 0" for s
    unfolding seal_line_def t option.case prod.case
    by (auto simp: Let_def sealed_one_def seal_path_def split: option.splits)
  show ?thesis using d fails by (simp add: conf_line_def conf_directive_def file_rule_def)
qed

end
