(* ===== verification/Observe_Kernel.thy ===== *)
theory Observe_Kernel
  imports Seal_Hooks Observe_Profile "HOL-Library.AList"
begin

text \<open>
  The kernel half of \<^verbatim>\<open>observe\<close> (\<^verbatim>\<open>src/compartment-bpf/compartment-observe.bpf.c\<close>): two markers per task, the
  programs that set, copy and clear them, and the programs that count what marked tasks do to files.  They run on the kernel
  objects of \<^verbatim>\<open>Seal_Kernel\<close>; what else they read of the kernel, and what the kernel answers when an entry is put into a hash
  map, is the parameter \<^verbatim>\<open>okernel\<close>.  Hash maps are association lists.  A program runs as one step: the races between a
  look-up and an insertion on two processors are left out.
\<close>

section \<open>Events, operations and counters\<close>

definition AO_EV_ACTOR_EXEC :: u32 where "AO_EV_ACTOR_EXEC = 1"
definition AO_EV_ACTOR_EXEC_HELPER :: u32 where "AO_EV_ACTOR_EXEC_HELPER = 3"
definition AO_EV_FS_FIRST_SIGHTING :: u32 where "AO_EV_FS_FIRST_SIGHTING = 6"
definition AO_EV_FS_CREATE :: u32 where "AO_EV_FS_CREATE = 7"
definition AO_EV_FS_UNLINK :: u32 where "AO_EV_FS_UNLINK = 8"
definition AO_EV_FS_RENAME :: u32 where "AO_EV_FS_RENAME = 9"
definition AO_EV_FS_MKDIR :: u32 where "AO_EV_FS_MKDIR = 10"
definition AO_EV_FS_RMDIR :: u32 where "AO_EV_FS_RMDIR = 11"
definition AO_EV_FS_LINK :: u32 where "AO_EV_FS_LINK = 12"
definition AO_EV_FS_MKNOD :: u32 where "AO_EV_FS_MKNOD = 13"
definition AO_EV_FS_SYMLINK :: u32 where "AO_EV_FS_SYMLINK = 14"

definition AO_OP_OPEN_R :: u32 where "AO_OP_OPEN_R = 1"
definition AO_OP_OPEN_W :: u32 where "AO_OP_OPEN_W = 2"
definition AO_OP_OPEN_RW :: u32 where "AO_OP_OPEN_RW = 3"
definition AO_OP_OPEN_TRUNC :: u32 where "AO_OP_OPEN_TRUNC = 4"
definition AO_OP_UNLINK :: u32 where "AO_OP_UNLINK = 6"
definition AO_OP_RMDIR :: u32 where "AO_OP_RMDIR = 9"
definition AO_OP_LINK :: u32 where "AO_OP_LINK = 10"

definition O_TRUNC_FLAG :: u32 where "O_TRUNC_FLAG = 0x200"
definition O_RDWR_FLAG :: u32 where "O_RDWR_FLAG = 2"
definition O_ACCMODE :: u32 where "O_ACCMODE = 3"

datatype ocounter =
  C_EVENTS_SEEN_TOTAL | C_EVENTS_SAMPLED_TOTAL | C_EVENTS_RINGBUF_DROP_TOTAL | C_OBSERVED_FILES_TOTAL |
  C_OBSERVED_FILES_OVERFLOW_TOTAL | C_CURRENT_ACTOR_COPY_FORK_TOTAL | C_LINEAGE_COPY_FORK_TOTAL |
  C_LINEAGE_EXEC_HELPER_TOTAL | C_PATH_RESOLVE_FAIL_TOTAL

section \<open>State\<close>

record current_actor_marker =
  cm_slot :: u32
  cm_generation :: u32

record lineage_marker =
  lm_origin_slot :: u32
  lm_generation :: u32
  lm_observation_only :: u8

record observed_key =
  qk_slot :: u32
  qk_op :: u32
  qk_dev :: u64
  qk_ino :: u64
  qk_pdev :: u64
  qk_pino :: u64

text \<open>The two flags are bytes that only hold 0 and 1; \<^verbatim>\<open>flags_seen\<close>, which nothing sets, is left out.\<close>

record observed_value =
  ov_count :: u64
  ov_first_ns :: u64
  ov_last_ns :: u64
  ov_sample_pid :: u32
  ov_sample_tgid :: u32
  ov_current :: bool
  ov_lineage :: bool

record ao_launcher_key =
  lk_slot :: u32
  lk_pdev :: u64
  lk_pino :: u64

record ao_launcher_value =
  lv_count :: u64
  lv_sample_pid :: u32
  lv_sample_ppid :: u32
  lv_sample_cgroup :: u64

record ao_event =
  ev_type :: u32
  ev_slot :: u32
  ev_dev :: u64
  ev_ino :: u64
  ev_pdev :: u64
  ev_pino :: u64
  ev_op :: u32
  ev_pid :: u32
  ev_tgid :: u32
  ev_ppid :: u32
  ev_ts_ns :: u64
  ev_cgroup :: u64
  ev_current :: bool
  ev_lineage :: bool

record ostate =
  os_targets :: "inode_key \<rightharpoonup> u32"
  os_current :: "addr \<rightharpoonup> current_actor_marker"
  os_lineage :: "addr \<rightharpoonup> lineage_marker"
  os_files :: "(observed_key \<times> observed_value) list"
  os_launchers :: "(ao_launcher_key \<times> ao_launcher_value) list"
  os_counters :: "ocounter \<Rightarrow> u64"
  os_events :: "ao_event list"
  os_room :: nat                       \<comment> \<open>records the ring buffer still has room for\<close>

definition MAX_OBSERVED_FILES :: nat where "MAX_OBSERVED_FILES = 65536"
definition MAX_OBSERVED_LAUNCHERS :: nat where "MAX_OBSERVED_LAUNCHERS = 256"

record okernel =
  on_k :: kernel
  on_flags :: "addr \<Rightarrow> u32"           \<comment> \<open>\<^verbatim>\<open>f_flags\<close>\<close>
  on_parent :: "addr \<Rightarrow> addr option"  \<comment> \<open>\<^verbatim>\<open>real_parent\<close>\<close>
  on_tgid :: "addr \<Rightarrow> u32"
  on_cgroup :: u64
  on_insert :: "nat \<Rightarrow> nat \<Rightarrow> int"    \<comment> \<open>putting an absent key into a hash map of some limit that has so many entries\<close>
  on_lane2 :: bool                      \<comment> \<open>\<^verbatim>\<open>enable_lane2\<close>\<close>
  on_generation :: u32

section \<open>Helpers\<close>

definition cnt_inc :: "ocounter \<Rightarrow> ostate \<Rightarrow> ostate" where
  "cnt_inc k st = st\<lparr>os_counters := (os_counters st)(k := os_counters st k + 1)\<rparr>"

definition inode_to_id :: "kernel \<Rightarrow> addr option \<Rightarrow> inode_key option" where
  "inode_to_id K i =
     (case i of
        None \<Rightarrow> None
      | Some a \<Rightarrow> Some \<lparr>ik_dev = (case i_sb (k_inode K a) of Some sb \<Rightarrow> ucast (s_dev (k_sb K sb)) | None \<Rightarrow> 0),
                      ik_ino = i_ino (k_inode K a)\<rparr>)"

definition file_to_id :: "kernel \<Rightarrow> addr option \<Rightarrow> inode_key option" where
  "file_to_id K f = (case f of None \<Rightarrow> None | Some _ \<Rightarrow> inode_to_id K (file_inode K f))"

text \<open>An id that could not be read stays zero.\<close>

definition id_or_zero :: "inode_key option \<Rightarrow> inode_key" where
  "id_or_zero i = (case i of Some k \<Rightarrow> k | None \<Rightarrow> zero_key)"

text \<open>The slot as a signed number, -1 when the task has no marker, and whether it is that of the lineage.\<close>

definition resolve_lane2_actor :: "addr option \<Rightarrow> ostate \<Rightarrow> int \<times> bool" where
  "resolve_lane2_actor t st =
     (case t of
        None \<Rightarrow> (- 1, False)
      | Some a \<Rightarrow>
          (case os_current st a of
             Some cam \<Rightarrow> (sint (cm_slot cam), False)
           | None \<Rightarrow> (case os_lineage st a of Some lm \<Rightarrow> (sint (lm_origin_slot lm), True) | None \<Rightarrow> (- 1, False))))"

definition emit :: "okernel \<Rightarrow> u32 \<Rightarrow> u32 \<Rightarrow> inode_key \<Rightarrow> inode_key \<Rightarrow> u32 \<Rightarrow> bool \<Rightarrow> bool \<Rightarrow> ostate \<Rightarrow> ostate" where
  "emit N type slot fid pfid op cur lin st =
     (if os_room st = 0 then cnt_inc C_EVENTS_RINGBUF_DROP_TOTAL st
      else let K = on_k N; e =
        \<lparr>ev_type = type, ev_slot = slot, ev_dev = ik_dev fid, ev_ino = ik_ino fid, ev_pdev = ik_dev pfid, ev_pino = ik_ino pfid,
         ev_op = op, ev_pid = ucast (k_pid_tgid K), ev_tgid = ucast (drop_bit 32 (k_pid_tgid K)),
         ev_ppid = (case k_current K of None \<Rightarrow> 0 | Some t \<Rightarrow> (case on_parent N t of None \<Rightarrow> 0 | Some p \<Rightarrow> on_tgid N p)),
         ev_ts_ns = k_ktime_ns K, ev_cgroup = on_cgroup N, ev_current = cur, ev_lineage = lin\<rparr>
      in cnt_inc C_EVENTS_SAMPLED_TOTAL (st\<lparr>os_events := os_events st @ [e], os_room := os_room st - 1\<rparr>))"

definition observed_again :: "u64 \<Rightarrow> bool \<Rightarrow> observed_value \<Rightarrow> observed_value" where
  "observed_again ts lin v =
     v\<lparr>ov_count := ov_count v + 1, ov_last_ns := ts, ov_current := ov_current v \<or> \<not> lin, ov_lineage := ov_lineage v \<or> lin\<rparr>"

definition agg_obs :: "okernel \<Rightarrow> observed_key \<Rightarrow> u32 \<Rightarrow> bool \<Rightarrow> ostate \<Rightarrow> ostate" where
  "agg_obs N key type lin st =
     (let K = on_k N; ts = k_ktime_ns K
      in case map_of (os_files st) key of
           Some v \<Rightarrow> st\<lparr>os_files := AList.update key (observed_again ts lin v) (os_files st)\<rparr>
         | None \<Rightarrow>
             let nv = \<lparr>ov_count = 1, ov_first_ns = ts, ov_last_ns = ts, ov_sample_pid = ucast (k_pid_tgid K),
                       ov_sample_tgid = ucast (drop_bit 32 (k_pid_tgid K)), ov_current = \<not> lin, ov_lineage = lin\<rparr>;
                 r = on_insert N MAX_OBSERVED_FILES (length (os_files st))
             in if r = 0 then
                  emit N type (qk_slot key) \<lparr>ik_dev = qk_dev key, ik_ino = qk_ino key\<rparr> \<lparr>ik_dev = qk_pdev key, ik_ino = qk_pino key\<rparr>
                    (qk_op key) (\<not> lin) lin
                    (cnt_inc C_OBSERVED_FILES_TOTAL (st\<lparr>os_files := os_files st @ [(key, nv)]\<rparr>))
                else if r = - 28 then cnt_inc C_OBSERVED_FILES_OVERFLOW_TOTAL st
                else st)"

section \<open>Markers\<close>

text \<open>\<^verbatim>\<open>bpf_task_storage_get\<close> with \<^verbatim>\<open>F_CREATE\<close>: the storage is there or can be made.\<close>

definition storage_there :: "okernel \<Rightarrow> 'a option \<Rightarrow> bool" where
  "storage_there N m \<longleftrightarrow> m \<noteq> None \<or> k_storage_ok (on_k N)"

definition record_launcher :: "okernel \<Rightarrow> addr \<Rightarrow> u32 \<Rightarrow> ostate \<Rightarrow> ostate" where
  "record_launcher N t slot st =
     (let K = on_k N
      in case on_parent N t of
           None \<Rightarrow> st
         | Some p \<Rightarrow>
             (case file_to_id K (t_exe_file (k_task K p)) of
                None \<Rightarrow> st
              | Some pfid \<Rightarrow>
                  let lk = \<lparr>lk_slot = slot, lk_pdev = ik_dev pfid, lk_pino = ik_ino pfid\<rparr>
                  in case map_of (os_launchers st) lk of
                       Some lv \<Rightarrow> st\<lparr>os_launchers := AList.update lk (lv\<lparr>lv_count := lv_count lv + 1\<rparr>) (os_launchers st)\<rparr>
                     | None \<Rightarrow>
                         if on_insert N MAX_OBSERVED_LAUNCHERS (length (os_launchers st)) = 0
                         then st\<lparr>os_launchers := os_launchers st @
                           [(lk, \<lparr>lv_count = 1, lv_sample_pid = ucast (k_pid_tgid K), lv_sample_ppid = on_tgid N p,
                                  lv_sample_cgroup = on_cgroup N\<rparr>)]\<rparr>
                         else st))"

definition ao_bprm :: "okernel \<Rightarrow> addr option \<Rightarrow> int \<Rightarrow> ostate \<Rightarrow> int \<times> ostate" where
  "ao_bprm N f ret st =
     (if ret \<noteq> 0 then (ret, st)
      else case k_current (on_k N) of
        None \<Rightarrow> (0, st)
      | Some t \<Rightarrow>
          let st = cnt_inc C_EVENTS_SEEN_TOTAL st
          in case file_to_id (on_k N) f of
               None \<Rightarrow> (0, st)
             | Some exec_id \<Rightarrow>
                 (case os_targets st exec_id of
                    Some slot \<Rightarrow>
                      let gen = on_generation N;
                          st = (if storage_there N (os_current st t)
                                then st\<lparr>os_current := (os_current st)(t \<mapsto> \<lparr>cm_slot = slot, cm_generation = gen\<rparr>)\<rparr> else st);
                          st = (if storage_there N (os_lineage st t)
                                then st\<lparr>os_lineage := (os_lineage st)(t \<mapsto> \<lparr>lm_origin_slot = slot, lm_generation = gen, lm_observation_only = 1\<rparr>)\<rparr>
                                else st);
                          st = record_launcher N t slot st
                      in (0, emit N AO_EV_ACTOR_EXEC slot exec_id zero_key 0 True True st)
                  | None \<Rightarrow>
                      (case os_current st t of
                         None \<Rightarrow> (0, st)
                       | Some cam \<Rightarrow>
                           (0, emit N AO_EV_ACTOR_EXEC_HELPER (cm_slot cam) exec_id zero_key 0 False True
                              (cnt_inc C_LINEAGE_EXEC_HELPER_TOTAL (st\<lparr>os_current := (os_current st)(t := None)\<rparr>))))))"

definition ao_task_alloc :: "okernel \<Rightarrow> addr \<Rightarrow> int \<Rightarrow> ostate \<Rightarrow> int \<times> ostate" where
  "ao_task_alloc N child ret st =
     (if ret \<noteq> 0 then (ret, st)
      else case k_current (on_k N) of
        None \<Rightarrow> (0, st)
      | Some p \<Rightarrow>
          let st = (case os_current st p of
                Some cam \<Rightarrow> if storage_there N (os_current st child)
                           then cnt_inc C_CURRENT_ACTOR_COPY_FORK_TOTAL (st\<lparr>os_current := (os_current st)(child \<mapsto> cam)\<rparr>) else st
              | None \<Rightarrow> st);
              st = (case os_lineage st p of
                Some lm \<Rightarrow> if storage_there N (os_lineage st child)
                          then cnt_inc C_LINEAGE_COPY_FORK_TOTAL (st\<lparr>os_lineage := (os_lineage st)(child \<mapsto> lm)\<rparr>) else st
              | None \<Rightarrow> st)
          in (0, st))"

definition ao_task_free :: "addr \<Rightarrow> ostate \<Rightarrow> ostate" where
  "ao_task_free t st = st\<lparr>os_current := (os_current st)(t := None), os_lineage := (os_lineage st)(t := None)\<rparr>"

section \<open>Files\<close>

text \<open>What the programs for files share: they do nothing for a task without a marker.\<close>

definition lane2 :: "okernel \<Rightarrow> int \<Rightarrow> (u32 \<Rightarrow> bool \<Rightarrow> ostate \<Rightarrow> ostate) \<Rightarrow> ostate \<Rightarrow> int \<times> ostate" where
  "lane2 N ret act st =
     (if ret \<noteq> 0 then (ret, st)
      else if \<not> on_lane2 N then (0, st)
      else case resolve_lane2_actor (k_current (on_k N)) st of
        (slot, lin) \<Rightarrow> if slot < 0 then (0, st) else (0, act (word_of_int slot) lin st))"

definition op_key :: "u32 \<Rightarrow> u32 \<Rightarrow> inode_key \<Rightarrow> inode_key \<Rightarrow> observed_key" where
  "op_key slot op fid pfid =
     \<lparr>qk_slot = slot, qk_op = op, qk_dev = ik_dev fid, qk_ino = ik_ino fid, qk_pdev = ik_dev pfid, qk_pino = ik_ino pfid\<rparr>"

definition open_class :: "okernel \<Rightarrow> addr option \<Rightarrow> u32" where
  "open_class N file =
     (if file_fmode (on_k N) file AND FMODE_WRITE \<noteq> 0 then
        let flags = (case file of Some a \<Rightarrow> on_flags N a | None \<Rightarrow> 0)
        in if flags AND O_TRUNC_FLAG \<noteq> 0 then AO_OP_OPEN_TRUNC
           else if flags AND O_ACCMODE = O_RDWR_FLAG then AO_OP_OPEN_RW
           else AO_OP_OPEN_W
      else AO_OP_OPEN_R)"

definition ao_file_open :: "okernel \<Rightarrow> addr option \<Rightarrow> int \<Rightarrow> ostate \<Rightarrow> int \<times> ostate" where
  "ao_file_open N file ret =
     lane2 N ret (\<lambda>slot lin st.
       case file_to_id (on_k N) file of
         None \<Rightarrow> cnt_inc C_PATH_RESOLVE_FAIL_TOTAL st
       | Some fid \<Rightarrow>
           let K = on_k N;
               pfid = id_or_zero (inode_to_id K (dentry_inode K (dentry_parent K (file_dentry K file))))
           in agg_obs N (op_key slot (open_class N file) fid pfid) AO_EV_FS_FIRST_SIGHTING lin st)"

text \<open>The programs for new entries, which know only the directory, and those for entries that are there.\<close>

definition observe_dir :: "okernel \<Rightarrow> u32 \<Rightarrow> u32 \<Rightarrow> addr option \<Rightarrow> int \<Rightarrow> ostate \<Rightarrow> int \<times> ostate" where
  "observe_dir N op type dir ret =
     lane2 N ret (\<lambda>slot lin st.
       case inode_to_id (on_k N) dir of
         None \<Rightarrow> st
       | Some dfid \<Rightarrow> agg_obs N (op_key slot op dfid zero_key) type lin st)"

definition observe_entry :: "okernel \<Rightarrow> u32 \<Rightarrow> u32 \<Rightarrow> addr option \<Rightarrow> addr option \<Rightarrow> int \<Rightarrow> ostate \<Rightarrow> int \<times> ostate" where
  "observe_entry N op type dentry dir ret =
     lane2 N ret (\<lambda>slot lin st.
       case inode_to_id (on_k N) (dentry_inode (on_k N) dentry) of
         None \<Rightarrow> st
       | Some fid \<Rightarrow> agg_obs N (op_key slot op fid (id_or_zero (inode_to_id (on_k N) dir))) type lin st)"

definition ao_inode_create :: "okernel \<Rightarrow> addr option \<Rightarrow> int \<Rightarrow> ostate \<Rightarrow> int \<times> ostate" where
  "ao_inode_create N dir = observe_dir N AO_OP_CREATE AO_EV_FS_CREATE dir"

definition ao_inode_mkdir :: "okernel \<Rightarrow> addr option \<Rightarrow> int \<Rightarrow> ostate \<Rightarrow> int \<times> ostate" where
  "ao_inode_mkdir N dir = observe_dir N AO_OP_MKDIR AO_EV_FS_MKDIR dir"

definition ao_inode_mknod :: "okernel \<Rightarrow> addr option \<Rightarrow> int \<Rightarrow> ostate \<Rightarrow> int \<times> ostate" where
  "ao_inode_mknod N dir = observe_dir N AO_OP_MKNOD AO_EV_FS_MKNOD dir"

definition ao_inode_symlink :: "okernel \<Rightarrow> addr option \<Rightarrow> int \<Rightarrow> ostate \<Rightarrow> int \<times> ostate" where
  "ao_inode_symlink N dir = observe_dir N AO_OP_SYMLINK AO_EV_FS_SYMLINK dir"

definition ao_inode_unlink :: "okernel \<Rightarrow> addr option \<Rightarrow> addr option \<Rightarrow> int \<Rightarrow> ostate \<Rightarrow> int \<times> ostate" where
  "ao_inode_unlink N dir victim = observe_entry N AO_OP_UNLINK AO_EV_FS_UNLINK victim dir"

definition ao_inode_rmdir :: "okernel \<Rightarrow> addr option \<Rightarrow> addr option \<Rightarrow> int \<Rightarrow> ostate \<Rightarrow> int \<times> ostate" where
  "ao_inode_rmdir N dir dentry = observe_entry N AO_OP_RMDIR AO_EV_FS_RMDIR dentry dir"

definition ao_inode_link :: "okernel \<Rightarrow> addr option \<Rightarrow> addr option \<Rightarrow> int \<Rightarrow> ostate \<Rightarrow> int \<times> ostate" where
  "ao_inode_link N old_dentry dir = observe_entry N AO_OP_LINK AO_EV_FS_LINK old_dentry dir"

definition ao_inode_rename :: "okernel \<Rightarrow> addr option \<Rightarrow> addr option \<Rightarrow> addr option \<Rightarrow> int \<Rightarrow> ostate \<Rightarrow> int \<times> ostate" where
  "ao_inode_rename N old_dir old_dentry new_dir ret =
     lane2 N ret (\<lambda>slot lin st.
       let K = on_k N
       in case inode_to_id K (dentry_inode K old_dentry) of
            None \<Rightarrow> st
          | Some fid \<Rightarrow>
              let old_dfid = id_or_zero (inode_to_id K old_dir); new_dfid = id_or_zero (inode_to_id K new_dir);
                  st = agg_obs N (op_key slot AO_OP_RENAME fid old_dfid) AO_EV_FS_RENAME lin st
              in if ik_dev new_dfid \<noteq> 0 \<or> ik_ino new_dfid \<noteq> 0
                 then agg_obs N (op_key slot AO_OP_RENAME_DST fid new_dfid) AO_EV_FS_RENAME lin st
                 else st)"

text \<open>What the user program reads back of an entry.\<close>

definition as_observed :: "observed_key \<times> observed_value \<Rightarrow> observed" where
  "as_observed kv = (case kv of (k, v) \<Rightarrow>
     \<lparr>ob_slot = qk_slot k, ob_op = qk_op k, ob_dev = qk_dev k, ob_ino = qk_ino k, ob_pdev = qk_pdev k, ob_pino = qk_pino k,
      ob_count = ov_count v, ob_current = ov_current v, ob_lineage = ov_lineage v\<rparr>)"

end
