(* ===== verification/Observe_Runs.thy ===== *)
theory Observe_Runs
  imports Observe_Kernel
begin

text \<open>
  Runs of the programs of \<^verbatim>\<open>Observe_Kernel\<close>.  The map of observed files is compared with the log of the accesses that
  marked tasks made, one entry per access; the markers are compared with the binaries the tasks asked to execute.
\<close>

section \<open>Calls\<close>

datatype ocall =
    File_open "addr option" | Inode_create "addr option" | Inode_mkdir "addr option" | Inode_mknod "addr option"
  | Inode_symlink "addr option" | Inode_unlink "addr option" "addr option" | Inode_rmdir "addr option" "addr option"
  | Inode_link "addr option" "addr option" | Inode_rename "addr option" "addr option" "addr option"
  | Bprm_check "addr option" | Task_alloc addr | Task_free addr

fun ohook :: "okernel \<Rightarrow> ocall \<Rightarrow> ostate \<Rightarrow> ostate" where
  "ohook N (File_open f) st = snd (ao_file_open N f 0 st)"
| "ohook N (Inode_create d) st = snd (ao_inode_create N d 0 st)"
| "ohook N (Inode_mkdir d) st = snd (ao_inode_mkdir N d 0 st)"
| "ohook N (Inode_mknod d) st = snd (ao_inode_mknod N d 0 st)"
| "ohook N (Inode_symlink d) st = snd (ao_inode_symlink N d 0 st)"
| "ohook N (Inode_unlink d v) st = snd (ao_inode_unlink N d v 0 st)"
| "ohook N (Inode_rmdir d v) st = snd (ao_inode_rmdir N d v 0 st)"
| "ohook N (Inode_link v d) st = snd (ao_inode_link N v d 0 st)"
| "ohook N (Inode_rename od v nd) st = snd (ao_inode_rename N od v nd 0 st)"
| "ohook N (Bprm_check f) st = snd (ao_bprm N f 0 st)"
| "ohook N (Task_alloc c) st = snd (ao_task_alloc N c 0 st)"
| "ohook N (Task_free t) st = ao_task_free t st"

section \<open>What a call should leave behind\<close>

text \<open>The operation, the file and its directory; for a new entry only the directory, in the place of the file.\<close>

fun touched :: "okernel \<Rightarrow> ocall \<Rightarrow> (u32 \<times> inode_key \<times> inode_key) list" where
  "touched N (File_open f) =
     (case file_to_id (on_k N) f of
        None \<Rightarrow> []
      | Some fid \<Rightarrow> [(open_class N f, fid, id_or_zero (inode_to_id (on_k N) (dentry_inode (on_k N) (dentry_parent (on_k N) (file_dentry (on_k N) f)))))])"
| "touched N (Inode_create d) = map (\<lambda>k. (AO_OP_CREATE, k, zero_key)) (case inode_to_id (on_k N) d of None \<Rightarrow> [] | Some k \<Rightarrow> [k])"
| "touched N (Inode_mkdir d) = map (\<lambda>k. (AO_OP_MKDIR, k, zero_key)) (case inode_to_id (on_k N) d of None \<Rightarrow> [] | Some k \<Rightarrow> [k])"
| "touched N (Inode_mknod d) = map (\<lambda>k. (AO_OP_MKNOD, k, zero_key)) (case inode_to_id (on_k N) d of None \<Rightarrow> [] | Some k \<Rightarrow> [k])"
| "touched N (Inode_symlink d) = map (\<lambda>k. (AO_OP_SYMLINK, k, zero_key)) (case inode_to_id (on_k N) d of None \<Rightarrow> [] | Some k \<Rightarrow> [k])"
| "touched N (Inode_unlink d v) =
     map (\<lambda>k. (AO_OP_UNLINK, k, id_or_zero (inode_to_id (on_k N) d)))
       (case inode_to_id (on_k N) (dentry_inode (on_k N) v) of None \<Rightarrow> [] | Some k \<Rightarrow> [k])"
| "touched N (Inode_rmdir d v) =
     map (\<lambda>k. (AO_OP_RMDIR, k, id_or_zero (inode_to_id (on_k N) d)))
       (case inode_to_id (on_k N) (dentry_inode (on_k N) v) of None \<Rightarrow> [] | Some k \<Rightarrow> [k])"
| "touched N (Inode_link v d) =
     map (\<lambda>k. (AO_OP_LINK, k, id_or_zero (inode_to_id (on_k N) d)))
       (case inode_to_id (on_k N) (dentry_inode (on_k N) v) of None \<Rightarrow> [] | Some k \<Rightarrow> [k])"
| "touched N (Inode_rename od v nd) =
     (case inode_to_id (on_k N) (dentry_inode (on_k N) v) of
        None \<Rightarrow> []
      | Some k \<Rightarrow> (AO_OP_RENAME, k, id_or_zero (inode_to_id (on_k N) od)) #
          (if id_or_zero (inode_to_id (on_k N) nd) = zero_key then [] else [(AO_OP_RENAME_DST, k, id_or_zero (inode_to_id (on_k N) nd))]))"
| "touched N (Bprm_check f) = []"
| "touched N (Task_alloc c) = []"
| "touched N (Task_free t) = []"

text \<open>The accesses to be logged, with whether they count for the lineage only: none without a marker.\<close>

definition accesses :: "okernel \<Rightarrow> ocall \<Rightarrow> ostate \<Rightarrow> (observed_key \<times> bool) list" where
  "accesses N c st =
     (case resolve_lane2_actor (k_current (on_k N)) st of
        (slot, lin) \<Rightarrow>
          if on_lane2 N \<and> 0 \<le> slot then map (\<lambda>(op, fid, pfid). (op_key (word_of_int slot) op fid pfid, lin)) (touched N c) else [])"

text \<open>The map of observed files holds a log: every access that was made, how often, and for whom.\<close>

definition entry_logs :: "(observed_key \<times> bool) list \<Rightarrow> observed_key \<Rightarrow> observed_value option \<Rightarrow> bool" where
  "entry_logs log k entry =
     (case entry of
        None \<Rightarrow> k \<notin> fst ` set log
      | Some v \<Rightarrow> k \<in> fst ` set log \<and> ov_count v = of_nat (count_list (map fst log) k) \<and>
                 (ov_current v \<longleftrightarrow> (k, False) \<in> set log) \<and> (ov_lineage v \<longleftrightarrow> (k, True) \<in> set log))"

definition holds_log :: "ostate \<Rightarrow> (observed_key \<times> bool) list \<Rightarrow> bool" where
  "holds_log st log \<longleftrightarrow> distinct (map fst (os_files st)) \<and> (\<forall>k. entry_logs log k (map_of (os_files st) k))"

text \<open>What \<^verbatim>\<open>bpf(2)\<close> says of a hash map: an absent key is put in as long as there are fewer than \<^verbatim>\<open>max_entries\<close>, else \<^verbatim>\<open>E2BIG\<close>.\<close>

definition bpf_hash_map :: "okernel \<Rightarrow> bool" where
  "bpf_hash_map N \<longleftrightarrow> (\<forall>m n. on_insert N m n = (if n < m then 0 else - 7))"

section \<open>One access\<close>

lemma cnt_inc_fields [simp]:
  "os_files (cnt_inc c st) = os_files st" "os_current (cnt_inc c st) = os_current st" "os_lineage (cnt_inc c st) = os_lineage st"
  "os_targets (cnt_inc c st) = os_targets st" "os_launchers (cnt_inc c st) = os_launchers st"
  "c' \<noteq> c \<Longrightarrow> os_counters (cnt_inc c st) c' = os_counters st c'"
  by (simp_all add: cnt_inc_def)

lemma emit_fields [simp]:
  "os_files (emit N ty sl f p op cur lin st) = os_files st" "os_current (emit N ty sl f p op cur lin st) = os_current st"
  "os_lineage (emit N ty sl f p op cur lin st) = os_lineage st" "os_targets (emit N ty sl f p op cur lin st) = os_targets st"
  "os_counters (emit N ty sl f p op cur lin st) C_OBSERVED_FILES_OVERFLOW_TOTAL = os_counters st C_OBSERVED_FILES_OVERFLOW_TOTAL"
  by (simp_all add: emit_def Let_def)

lemma agg_obs_markers [simp]:
  "os_current (agg_obs N k ty lin st) = os_current st" "os_lineage (agg_obs N k ty lin st) = os_lineage st"
  "os_targets (agg_obs N k ty lin st) = os_targets st"
  by (simp_all add: agg_obs_def Let_def split: option.splits)

lemma count_list_snoc: "count_list (xs @ [x]) y = count_list xs y + (if x = y then 1 else 0)"
  by (induction xs) auto

lemma entry_other: "k' \<noteq> k \<Longrightarrow> entry_logs (log @ [(k, lin)]) k' o1 = entry_logs log k' o1"
  by (auto simp: entry_logs_def count_list_snoc split: option.splits)

lemma entry_again: "entry_logs log k (Some v) \<Longrightarrow> entry_logs (log @ [(k, lin)]) k (Some (observed_again ts lin v))"
  by (auto simp: entry_logs_def count_list_snoc observed_again_def)

lemma entry_new:
  "entry_logs log k None \<Longrightarrow> ov_count v = 1 \<Longrightarrow> ov_current v = (\<not> lin) \<Longrightarrow> ov_lineage v = lin \<Longrightarrow> entry_logs (log @ [(k, lin)]) k (Some v)"
  by (force simp: entry_logs_def count_list_snoc count_list_0_iff)

lemma holds_log_put:
  assumes "holds_log st log" and "map_of (os_files st') = (map_of (os_files st))(k \<mapsto> v)" and "distinct (map fst (os_files st'))"
    and "entry_logs (log @ [(k, lin)]) k (Some v)"
  shows "holds_log st' (log @ [(k, lin)])"
  unfolding holds_log_def
proof (intro conjI allI assms(3))
  fix k'
  show "entry_logs (log @ [(k, lin)]) k' (map_of (os_files st') k')"
    using assms(1,4) by (cases "k' = k") (simp_all add: assms(2) entry_other holds_log_def)
qed

lemma agg_obs_logs:
  assumes "holds_log st log" and "map_of (os_files st) k \<noteq> None \<or> on_insert N MAX_OBSERVED_FILES (length (os_files st)) = 0"
  shows "holds_log (agg_obs N k ty lin st) (log @ [(k, lin)])"
proof (cases "map_of (os_files st) k")
  case (Some v)
  let ?v = "observed_again (k_ktime_ns (on_k N)) lin v"
  have files: "os_files (agg_obs N k ty lin st) = AList.update k ?v (os_files st)"
    using Some by (simp add: agg_obs_def Let_def)
  show ?thesis
  proof (rule holds_log_put [OF assms(1)])
    show "map_of (os_files (agg_obs N k ty lin st)) = (map_of (os_files st))(k \<mapsto> ?v)" unfolding files by (rule update_conv')
    show "distinct (map fst (os_files (agg_obs N k ty lin st)))"
      unfolding files using assms(1) by (simp add: holds_log_def distinct_update)
    show "entry_logs (log @ [(k, lin)]) k (Some ?v)" using assms(1) Some by (intro entry_again) (metis holds_log_def)
  qed
next
  case None
  then obtain v where files: "os_files (agg_obs N k ty lin st) = os_files st @ [(k, v)]"
    and v: "ov_count v = 1" "ov_current v = (\<not> lin)" "ov_lineage v = lin"
    using assms(2) by (simp add: agg_obs_def Let_def)
  show ?thesis
  proof (rule holds_log_put [OF assms(1)])
    show "map_of (os_files (agg_obs N k ty lin st)) = (map_of (os_files st))(k \<mapsto> v)"
      unfolding files using None by (auto simp: map_add_def fun_eq_iff split: option.splits)
    show "distinct (map fst (os_files (agg_obs N k ty lin st)))"
      unfolding files using assms(1) None by (simp add: holds_log_def map_of_eq_None_iff)
    show "entry_logs (log @ [(k, lin)]) k (Some v)" using assms(1) None v by (intro entry_new) (metis holds_log_def)+
  qed
qed

lemma length_alist_update: "length xs \<le> length (AList.update k v xs)"
  by (induction xs) auto

lemma agg_obs_length: "length (os_files st) \<le> length (os_files (agg_obs N k ty lin st))"
  by (simp add: agg_obs_def Let_def length_alist_update split: option.splits)

section \<open>One call\<close>

lemma bprm_files: "os_files (snd (ao_bprm N f r st)) = os_files st"
proof -
  have "os_files (record_launcher N t sl s) = os_files s" for t sl s
    by (auto simp: record_launcher_def Let_def split: option.splits)
  then show ?thesis by (simp add: ao_bprm_def Let_def split: option.splits)
qed

lemma alloc_files: "os_files (snd (ao_task_alloc N c r st)) = os_files st"
  by (simp add: ao_task_alloc_def Let_def split: option.splits)

lemma lane2_files:
  assumes "\<And>slot. os_files (act (word_of_int slot) (snd (resolve_lane2_actor (k_current (on_k N)) st)) st) =
      os_files (fold (\<lambda>(k, lin). agg_obs N k ty lin)
        (map (\<lambda>(op, fid, pfid). (op_key (word_of_int slot) op fid pfid, snd (resolve_lane2_actor (k_current (on_k N)) st))) (touched N c)) st)"
  shows "os_files (snd (lane2 N 0 act st)) = os_files (fold (\<lambda>(k, lin). agg_obs N k ty lin) (accesses N c st) st)"
  using assms by (cases "resolve_lane2_actor (k_current (on_k N)) st") (simp add: lane2_def accesses_def)

lemma dir_files:
  assumes "touched N c = map (\<lambda>k. (op, k, zero_key)) (case inode_to_id (on_k N) d of None \<Rightarrow> [] | Some k \<Rightarrow> [k])"
  shows "os_files (snd (observe_dir N op ty d 0 st)) = os_files (fold (\<lambda>(k, lin). agg_obs N k ty lin) (accesses N c st) st)"
  unfolding observe_dir_def by (rule lane2_files) (simp add: assms split: option.splits)

lemma entry_files:
  assumes "touched N c = map (\<lambda>k. (op, k, id_or_zero (inode_to_id (on_k N) d)))
      (case inode_to_id (on_k N) (dentry_inode (on_k N) v) of None \<Rightarrow> [] | Some k \<Rightarrow> [k])"
  shows "os_files (snd (observe_entry N op ty v d 0 st)) = os_files (fold (\<lambda>(k, lin). agg_obs N k ty lin) (accesses N c st) st)"
  unfolding observe_entry_def by (rule lane2_files) (simp add: assms split: option.splits)

lemma key_is_zero: "k = zero_key \<longleftrightarrow> ik_dev k = 0 \<and> ik_ino k = 0"
  by (cases k) (simp add: zero_key_def)

lemma ohook_files: "\<exists>ty. os_files (ohook N c st) = os_files (fold (\<lambda>(k, lin). agg_obs N k ty lin) (accesses N c st) st)"
proof (cases c)
  case (File_open f)
  have "os_files (snd (ao_file_open N f 0 st)) = os_files (fold (\<lambda>(k, lin). agg_obs N k AO_EV_FS_FIRST_SIGHTING lin) (accesses N c st) st)"
    unfolding ao_file_open_def by (rule lane2_files) (simp add: File_open Let_def split: option.splits)
  then show ?thesis using File_open by auto
next
  case (Inode_rename od v nd)
  have "os_files (snd (ao_inode_rename N od v nd 0 st)) = os_files (fold (\<lambda>(k, lin). agg_obs N k AO_EV_FS_RENAME lin) (accesses N c st) st)"
    unfolding ao_inode_rename_def by (rule lane2_files) (auto simp: Inode_rename Let_def key_is_zero split: option.splits)
  then show ?thesis using Inode_rename by auto
next
  case (Bprm_check f)
  then show ?thesis by (simp add: bprm_files accesses_def split: prod.splits)
next
  case (Task_alloc t)
  then show ?thesis by (simp add: alloc_files accesses_def split: prod.splits)
next
  case (Task_free t)
  then show ?thesis by (simp add: ao_task_free_def accesses_def split: prod.splits)
qed (auto simp: ao_inode_create_def ao_inode_mkdir_def ao_inode_mknod_def ao_inode_symlink_def ao_inode_unlink_def ao_inode_rmdir_def
    ao_inode_link_def intro!: exI dir_files entry_files)

definition roomy :: "okernel \<Rightarrow> bool" where
  "roomy N \<longleftrightarrow> (\<forall>n < MAX_OBSERVED_FILES. on_insert N MAX_OBSERVED_FILES n = 0)"

lemma bpf_hash_map_roomy: "bpf_hash_map N \<Longrightarrow> roomy N"
  by (simp add: bpf_hash_map_def roomy_def)

lemma fold_agg_length: "length (os_files st) \<le> length (os_files (fold (\<lambda>(k, lin). agg_obs N k ty lin) as st))"
proof (induction as arbitrary: st)
  case (Cons a as)
  obtain k lin where a: "a = (k, lin)" by fastforce
  show ?case using Cons [of "agg_obs N k ty lin st"] agg_obs_length [of st N k ty lin] by (simp add: a)
qed simp

lemma fold_agg_logs:
  "holds_log st log \<Longrightarrow> roomy N \<Longrightarrow> length (os_files (fold (\<lambda>(k, lin). agg_obs N k ty lin) as st)) < MAX_OBSERVED_FILES \<Longrightarrow>
   holds_log (fold (\<lambda>(k, lin). agg_obs N k ty lin) as st) (log @ as)"
proof (induction as arbitrary: st log)
  case (Cons a as)
  obtain k lin where a: "a = (k, lin)" by fastforce
  have "length (os_files st) < MAX_OBSERVED_FILES"
    using Cons.prems(3) fold_agg_length [of st N ty "a # as"] by simp
  then have "holds_log (agg_obs N k ty lin st) (log @ [(k, lin)])"
    using Cons.prems(1,2) by (intro agg_obs_logs) (simp_all add: roomy_def)
  from Cons.IH [OF this Cons.prems(2)] show ?case using Cons.prems(3) by (simp add: a)
qed simp

lemma holds_log_files: "os_files st = os_files st' \<Longrightarrow> holds_log st log = holds_log st' log"
  by (simp add: holds_log_def)

lemma ohook_logs:
  assumes "holds_log st log" and "roomy N" and "length (os_files (ohook N c st)) < MAX_OBSERVED_FILES"
  shows "holds_log (ohook N c st) (log @ accesses N c st)"
proof -
  obtain ty where f: "os_files (ohook N c st) = os_files (fold (\<lambda>(k, lin). agg_obs N k ty lin) (accesses N c st) st)"
    using ohook_files by blast
  then have "holds_log (fold (\<lambda>(k, lin). agg_obs N k ty lin) (accesses N c st) st) (log @ accesses N c st)"
    using assms by (intro fold_agg_logs) simp_all
  then show ?thesis using holds_log_files [OF f] by simp
qed

lemma ohook_length: "length (os_files st) \<le> length (os_files (ohook N c st))"
  using ohook_files [of N c st] fold_agg_length [of st N] by metis

section \<open>Runs\<close>

type_synonym orun = "(okernel \<times> ocall) list"

fun run_programs :: "orun \<Rightarrow> ostate \<Rightarrow> ostate" where
  "run_programs [] st = st"
| "run_programs ((N, c) # xs) st = run_programs xs (ohook N c st)"

fun access_log :: "orun \<Rightarrow> ostate \<Rightarrow> (observed_key \<times> bool) list" where
  "access_log [] st = []"
| "access_log ((N, c) # xs) st = accesses N c st @ access_log xs (ohook N c st)"

lemma run_programs_length: "length (os_files st) \<le> length (os_files (run_programs xs st))"
  by (induction xs st rule: run_programs.induct) (auto intro: order_trans [OF ohook_length])

lemma run_programs_logs:
  "holds_log st log \<Longrightarrow> \<forall>(N, c) \<in> set xs. roomy N \<Longrightarrow> length (os_files (run_programs xs st)) < MAX_OBSERVED_FILES \<Longrightarrow>
   holds_log (run_programs xs st) (log @ access_log xs st)"
proof (induction xs st arbitrary: log rule: run_programs.induct)
  case (2 N c xs st)
  have "holds_log (ohook N c st) (log @ accesses N c st)"
    using 2(2-4) run_programs_length [of "ohook N c st" xs] by (intro ohook_logs) simp_all
  from 2(1) [OF this] 2(3,4) show ?case by simp
qed simp

section \<open>A full map\<close>

lemma fold_agg_overflow:
  assumes "bpf_hash_map N"
  shows "os_counters (agg_obs N k ty lin st) C_OBSERVED_FILES_OVERFLOW_TOTAL = os_counters st C_OBSERVED_FILES_OVERFLOW_TOTAL"
  using assms by (simp add: agg_obs_def Let_def bpf_hash_map_def split: option.splits)

lemma lane2_overflow:
  assumes "\<And>slot lin. os_counters (act slot lin st) C_OBSERVED_FILES_OVERFLOW_TOTAL = os_counters st C_OBSERVED_FILES_OVERFLOW_TOTAL"
  shows "os_counters (snd (lane2 N r act st)) C_OBSERVED_FILES_OVERFLOW_TOTAL = os_counters st C_OBSERVED_FILES_OVERFLOW_TOTAL"
  using assms by (simp add: lane2_def split: prod.splits)

lemma ohook_overflow:
  assumes "bpf_hash_map N"
  shows "os_counters (ohook N c st) C_OBSERVED_FILES_OVERFLOW_TOTAL = os_counters st C_OBSERVED_FILES_OVERFLOW_TOTAL"
proof -
  have launcher: "os_counters (record_launcher N t sl s) = os_counters s" for t sl s
    by (auto simp: record_launcher_def Let_def split: option.splits)
  have dir: "os_counters (snd (observe_dir N op ty d 0 st)) C_OBSERVED_FILES_OVERFLOW_TOTAL = os_counters st C_OBSERVED_FILES_OVERFLOW_TOTAL"
    for op ty d unfolding observe_dir_def by (rule lane2_overflow) (simp add: fold_agg_overflow assms split: option.splits)
  have entry: "os_counters (snd (observe_entry N op ty v d 0 st)) C_OBSERVED_FILES_OVERFLOW_TOTAL = os_counters st C_OBSERVED_FILES_OVERFLOW_TOTAL"
    for op ty v d unfolding observe_entry_def by (rule lane2_overflow) (simp add: fold_agg_overflow assms split: option.splits)
  show ?thesis
  proof (cases c)
    case (File_open f)
    have "os_counters (snd (ao_file_open N f 0 st)) C_OBSERVED_FILES_OVERFLOW_TOTAL = os_counters st C_OBSERVED_FILES_OVERFLOW_TOTAL"
      unfolding ao_file_open_def by (rule lane2_overflow) (simp add: fold_agg_overflow assms Let_def split: option.splits)
    then show ?thesis using File_open by simp
  next
    case (Inode_rename od v nd)
    have "os_counters (snd (ao_inode_rename N od v nd 0 st)) C_OBSERVED_FILES_OVERFLOW_TOTAL = os_counters st C_OBSERVED_FILES_OVERFLOW_TOTAL"
      unfolding ao_inode_rename_def by (rule lane2_overflow) (simp add: fold_agg_overflow assms Let_def split: option.splits)
    then show ?thesis using Inode_rename by simp
  qed (simp_all add: ao_inode_create_def ao_inode_mkdir_def ao_inode_mknod_def ao_inode_symlink_def ao_inode_unlink_def
      ao_inode_rmdir_def ao_inode_link_def dir entry ao_bprm_def ao_task_alloc_def ao_task_free_def launcher Let_def split: option.splits)
qed

section \<open>Markers\<close>

text \<open>
  The binary a task last asked to execute, or its parent before the fork; the actor that binary or the last one before it was;
  and whether storage for markers could always be made.
\<close>

record osys =
  oy_state :: ostate
  oy_image :: "addr \<Rightarrow> inode_key option"
  oy_origin :: "addr \<Rightarrow> u32 option"
  oy_storage :: bool

inductive ostep :: "osys \<Rightarrow> osys \<Rightarrow> bool" where
  exec: "k_current (on_k N) = Some t \<Longrightarrow> file_to_id (on_k N) f = Some k \<Longrightarrow> ao_bprm N f 0 (oy_state s) = (0, st') \<Longrightarrow>
     ostep s (s\<lparr>oy_state := st', oy_image := (oy_image s)(t := Some k),
       oy_origin := (oy_origin s)(t := (case os_targets (oy_state s) k of Some sl \<Rightarrow> Some sl | None \<Rightarrow> oy_origin s t)),
       oy_storage := oy_storage s \<and> k_storage_ok (on_k N)\<rparr>)"
| fork: "k_current (on_k N) = Some p \<Longrightarrow> os_current (oy_state s) child = None \<Longrightarrow> os_lineage (oy_state s) child = None \<Longrightarrow>
     ao_task_alloc N child 0 (oy_state s) = (0, st') \<Longrightarrow>
     ostep s (s\<lparr>oy_state := st', oy_image := (oy_image s)(child := oy_image s p), oy_origin := (oy_origin s)(child := oy_origin s p),
       oy_storage := oy_storage s \<and> k_storage_ok (on_k N)\<rparr>)"
| exit: "ostep s (s\<lparr>oy_state := ao_task_free t (oy_state s), oy_image := (oy_image s)(t := None), oy_origin := (oy_origin s)(t := None)\<rparr>)"
| access: "(\<And>f. c \<noteq> Bprm_check f) \<Longrightarrow> (\<And>t. c \<noteq> Task_alloc t) \<Longrightarrow> (\<And>t. c \<noteq> Task_free t) \<Longrightarrow>
     ostep s (s\<lparr>oy_state := ohook N c (oy_state s)\<rparr>)"

definition oinitial :: "osys \<Rightarrow> bool" where
  "oinitial s \<longleftrightarrow> os_current (oy_state s) = Map.empty \<and> os_lineage (oy_state s) = Map.empty \<and> oy_image s = (\<lambda>_. None)
     \<and> oy_origin s = (\<lambda>_. None)"

inductive oreachable :: "osys \<Rightarrow> bool" where
  ostart: "oinitial s \<Longrightarrow> oreachable s"
| onext: "oreachable s \<Longrightarrow> ostep s s' \<Longrightarrow> oreachable s'"

text \<open>The marker a task should have as the actor itself, from its image.\<close>

definition own_slot :: "osys \<Rightarrow> addr \<Rightarrow> u32 option" where
  "own_slot s t = Option.bind (oy_image s t) (os_targets (oy_state s))"

definition markers_ok :: "osys \<Rightarrow> bool" where
  "markers_ok s \<longleftrightarrow> (\<forall>t.
     (\<forall>m. os_current (oy_state s) t = Some m \<longrightarrow> own_slot s t = Some (cm_slot m)) \<and>
     (\<forall>m. os_lineage (oy_state s) t = Some m \<longrightarrow> oy_origin s t \<noteq> None) \<and>
     (oy_storage s \<longrightarrow> map_option cm_slot (os_current (oy_state s) t) = own_slot s t \<and>
                     map_option lm_origin_slot (os_lineage (oy_state s) t) = oy_origin s t))"

lemma access_markers:
  assumes "\<And>f. c \<noteq> Bprm_check f" and "\<And>t. c \<noteq> Task_alloc t" and "\<And>t. c \<noteq> Task_free t"
  shows "os_current (ohook N c st) = os_current st" "os_lineage (ohook N c st) = os_lineage st" "os_targets (ohook N c st) = os_targets st"
  using assms
  by (cases c; simp add: ao_file_open_def ao_inode_rename_def ao_inode_create_def ao_inode_mkdir_def ao_inode_mknod_def ao_inode_symlink_def
      ao_inode_unlink_def ao_inode_rmdir_def ao_inode_link_def observe_dir_def observe_entry_def lane2_def Let_def split: option.splits prod.splits)+

lemma bprm_markers:
  assumes "k_current (on_k N) = Some t" and "file_to_id (on_k N) f = Some k" and "ao_bprm N f 0 st = (0, st')"
  shows "os_targets st' = os_targets st"
    and "os_current st' = (case os_targets st k of
        Some sl \<Rightarrow> if storage_there N (os_current st t) then (os_current st)(t \<mapsto> \<lparr>cm_slot = sl, cm_generation = on_generation N\<rparr>) else os_current st
      | None \<Rightarrow> (os_current st)(t := None))"
    and "os_lineage st' = (case os_targets st k of
        Some sl \<Rightarrow> if storage_there N (os_lineage st t)
          then (os_lineage st)(t \<mapsto> \<lparr>lm_origin_slot = sl, lm_generation = on_generation N, lm_observation_only = 1\<rparr>) else os_lineage st
      | None \<Rightarrow> os_lineage st)"
proof -
  have launcher: "os_current (record_launcher N u sl s) = os_current s" "os_lineage (record_launcher N u sl s) = os_lineage s"
    "os_targets (record_launcher N u sl s) = os_targets s" for u sl s
    by (auto simp: record_launcher_def Let_def split: option.splits)
  show "os_targets st' = os_targets st"
    and "os_current st' = (case os_targets st k of
        Some sl \<Rightarrow> if storage_there N (os_current st t) then (os_current st)(t \<mapsto> \<lparr>cm_slot = sl, cm_generation = on_generation N\<rparr>) else os_current st
      | None \<Rightarrow> (os_current st)(t := None))"
    and "os_lineage st' = (case os_targets st k of
        Some sl \<Rightarrow> if storage_there N (os_lineage st t)
          then (os_lineage st)(t \<mapsto> \<lparr>lm_origin_slot = sl, lm_generation = on_generation N, lm_observation_only = 1\<rparr>) else os_lineage st
      | None \<Rightarrow> os_lineage st)"
    using assms by (auto simp: ao_bprm_def Let_def launcher fun_upd_idem_iff split: option.splits)
qed

lemma alloc_markers:
  assumes "k_current (on_k N) = Some p" and "os_current st child = None" and "os_lineage st child = None"
    and "ao_task_alloc N child 0 st = (0, st')"
  shows "os_targets st' = os_targets st"
    and "os_current st' = (if k_storage_ok (on_k N) then (os_current st)(child := os_current st p) else os_current st)"
    and "os_lineage st' = (if k_storage_ok (on_k N) then (os_lineage st)(child := os_lineage st p) else os_lineage st)"
  using assms by (auto simp: ao_task_alloc_def Let_def storage_there_def fun_upd_idem_iff split: option.splits if_splits)

lemma markers_step:
  assumes "markers_ok s" and "ostep s s'"
  shows "markers_ok s'"
  using assms(2)
proof (cases rule: ostep.cases)
  case (exec N t f k st')
  note m = bprm_markers [OF exec(2-4)]
  show ?thesis using assms(1) unfolding markers_ok_def own_slot_def exec(1)
    by (auto simp: m storage_there_def split: option.splits if_splits)
next
  case (fork N p child st')
  note m = alloc_markers [OF fork(2-5)]
  show ?thesis using assms(1) unfolding markers_ok_def own_slot_def fork(1)
    by (auto simp: m fork(3,4) split: if_splits)
next
  case (exit t)
  show ?thesis using assms(1) unfolding markers_ok_def own_slot_def exit by (auto simp: ao_task_free_def)
next
  case (access c N)
  note m = access_markers [OF access(2-4)]
  show ?thesis using assms(1) unfolding markers_ok_def own_slot_def access(1) by (simp add: m)
qed

lemma markers_reachable: "oreachable s \<Longrightarrow> markers_ok s"
proof (induction rule: oreachable.induct)
  case (ostart s)
  then show ?case by (simp add: oinitial_def markers_ok_def own_slot_def)
next
  case (onext s s')
  show ?case using onext.IH onext.hyps(2) by (rule markers_step)
qed

end
