(* ===== verification/Observe_Guarantees.thy ===== *)
theory Observe_Guarantees
  imports Observe_Policy Observe_Runs
begin

text \<open>
  What the drafts of \<^verbatim>\<open>observe\<close> are worth to the loader: both resolve actor binaries alike, a draft is never pinned by
  accident, it parses and declares the actors that were watched, what an actor was seen to touch is covered, and a rule for an
  inode without a path makes the whole draft unusable.
\<close>

section \<open>A session\<close>

text \<open>The editor of \<^verbatim>\<open>Load_Guarantees\<close> opens two files of \<^verbatim>\<open>/srv/app\<close> for writing; both are still open.\<close>

definition demo_seen :: "u64 \<Rightarrow> observed" where
  "demo_seen ino = \<lparr>ob_slot = 0, ob_op = 2, ob_dev = 5, ob_ino = ino, ob_pdev = 5, ob_pino = 30, ob_count = 1,
     ob_current = True, ob_lineage = False\<rparr>"

definition demo_watch :: ohost where
  "demo_watch =
     \<lparr>oh_files = seal_host, oh_realpath = (\<lambda>p. if p = ''/bin/ed'' then Some p else None), oh_PATH = None, oh_access_x = (\<lambda>_. True),
      oh_stat = (\<lambda>p. if p = ''/'' then Some (demo_stat 0x41ED 2) else if p = ''/srv/app'' then Some (demo_stat 0x41ED 30)
         else if p = ''/srv/app/db'' then Some (demo_stat 0x81A4 31) else if p = ''/srv/app/log'' then Some (demo_stat 0x81A4 32)
         else Option.bind (demo_files p) id),
      oh_fds = Some [(None, ''gone''), (Some (demo_stat 0x81A4 31), ''/srv/app/db''), (Some (demo_stat 0x81A4 32), ''/srv/app/log'')],
      oh_mounts = Some (''dev / ext4 rw 0 0'' @ [NL]), oh_abi_cell = None, oh_policy_state = False, oh_now = ''now'',
      oh_watch = True, oh_observed = [demo_seen 31, demo_seen 32], oh_launchers = [], oh_drops = 0, oh_overflow = 0,
      oh_output = True, oh_dirs = (\<lambda>_. True), oh_finish = True\<rparr>"

definition demo_draft :: "string list" where
  "demo_draft =
     [''# generated by compartment-bpf observe'', ''#@compartment-bpf-profile-status: candidate'', ''# generated: now'',
      ''# actors: ed'', ''# observed_at: now'', ''# validation: candidate only; run deny-first before enforcing'',
      [], ''# target: ed'', ''actor ed = /bin/ed'', ''seal /bin/ed full'', [], ''# observed launchers:'', ''# (none observed)'', [],
      ''seal /srv/app/db no-write no-unlink no-rename actor=ed'', ''seal /srv/app/log no-write no-unlink no-rename actor=ed'']"

definition demo_actor :: actor_reg where
  "demo_actor = \<lparr>ar_name = ''ed'', ar_path = ''/bin/ed'', ar_dev = 5, ar_ino = 19, ar_slot = 0\<rparr>"

lemma demo_devs: "to_kernel_dev (demo_stat mode ino) = 5" "us_ino (demo_stat mode ino) = ino"
  by (simp_all add: to_kernel_dev_def demo_stat_def)

lemma demo_resolves_actor:
  "resolve_actors demo_watch [\<lparr>ar_name = ''ed'', ar_path = ''/bin/ed'', ar_dev = 0, ar_ino = 0, ar_slot = 0\<rparr>] = Some [demo_actor]"
proof -
  have "validate_loader_compatible_actor_path demo_watch ''/bin/ed''" by code_simp
  moreover have "path_to_file_id demo_watch ''/bin/ed'' = Some (5, 19)" by code_simp
  moreover have "resolve_existing_path demo_watch ''/bin/ed'' = Some ''/bin/ed''" by (simp add: resolve_existing_path_def demo_watch_def PATH_MAX_def)
  ultimately show ?thesis by (simp add: resolve_actor_def demo_actor_def)
qed

lemma demo_args:
  "observe_args [''--actor'', ''ed=/bin/ed''] initial_oopts =
     Inr (initial_oopts\<lparr>oo_actors := [\<lparr>ar_name = ''ed'', ar_path = ''/bin/ed'', ar_dev = 0, ar_ino = 0, ar_slot = 0\<rparr>]\<rparr>)"
proof -
  have "actor_name_valid_profile ''ed''" by code_simp
  then show ?thesis by (simp add: add_actor_def Let_def initial_oopts_def AO_MAX_ACTORS_def actor_name_in_use_def PATH_MAX_def)
qed

lemma demo_mount: "dev_to_mountpoint demo_watch 5 = Some ''/''"
proof -
  have f: "fgets 512 (''dev / ext4 rw 0 0'' @ [NL]) = (''dev / ext4 rw 0 0'' @ [NL], [])"
    using fgets_newline [of "''dev / ext4 rw 0 0''" 512 "[]"] by simp
  have m: "mountpoint_field (cstr (''dev / ext4 rw 0 0'' @ [NL])) = Some ''/''" by code_simp
  have s: "oh_stat demo_watch ''/'' = Some (demo_stat 0x41ED 2)" "sanitize_observed_path ''/'' = Some ''/''"
    by (simp_all add: demo_watch_def sanitize_observed_path_def strip_deleted_def char_at_def)
  have "scan_mounts demo_watch 5 (''dev / ext4 rw 0 0'' @ [NL]) = Some ''/''"
    by (subst scan_mounts.simps) (use f m s in \<open>simp add: demo_devs\<close>)
  then show ?thesis by (simp add: dev_to_mountpoint_def demo_watch_def)
qed

lemma demo_fd:
  "resolve_by_procfd demo_watch 5 31 = Some ''/srv/app/db''" "resolve_by_procfd demo_watch 5 32 = Some ''/srv/app/log''"
proof -
  have s: "sanitize_observed_path ''/srv/app/db'' = Some ''/srv/app/db''" "sanitize_observed_path ''/srv/app/log'' = Some ''/srv/app/log''"
    by code_simp+
  then show "resolve_by_procfd demo_watch 5 31 = Some ''/srv/app/db''" "resolve_by_procfd demo_watch 5 32 = Some ''/srv/app/log''"
    by (simp_all add: resolve_by_procfd_def demo_watch_def demo_devs PATH_MAX_def)
qed

lemma demo_parents: "parent_hint ''/srv/app/db'' = ''/srv/app''" "parent_hint ''/srv/app/log'' = ''/srv/app''"
  by code_simp+

lemma demo_hints:
  "resolve_path demo_watch 5 31 = (''/srv/app/db'', ''/srv/app'', By_fd)" "resolve_path demo_watch 5 32 = (''/srv/app/log'', ''/srv/app'', By_fd)"
  by (simp_all add: resolve_path_def demo_fd demo_parents)

lemma demo_ids:
  "path_to_file_id demo_watch ''/srv/app'' = Some (5, 30)" "path_to_file_id demo_watch ''/srv/app/db'' = Some (5, 31)"
  "path_to_file_id demo_watch ''/srv/app/log'' = Some (5, 32)"
  by (simp_all add: path_to_file_id_def demo_watch_def demo_devs)

lemma demo_hint_true: "hint_true demo_watch (demo_seen 31)" "hint_true demo_watch (demo_seen 32)"
  by (simp_all add: hint_true_def demo_seen_def demo_fd demo_parents demo_ids)

definition demo_entries :: "obs_entry list" where
  "demo_entries = map (fst \<circ> hinted demo_watch False) [demo_seen 31, demo_seen 32]"

lemma demo_entries_eq:
  "demo_entries = [observed.extend (demo_seen 31) \<lparr>oe_path = ''/srv/app/db'', oe_parent = ''/srv/app''\<rparr>,
     observed.extend (demo_seen 32) \<lparr>oe_path = ''/srv/app/log'', oe_parent = ''/srv/app''\<rparr>]"
  "concat (map (snd \<circ> hinted demo_watch False) [demo_seen 31, demo_seen 32]) = [By_fd, By_fd]"
  by (simp_all add: demo_entries_def hinted_def demo_seen_def demo_hints)

lemma demo_groups:
  "dir_groups demo_actor demo_entries =
     [\<lparr>dg_dev = 5, dg_ino = 30, dg_path = ''/srv/app'', dg_count = 2, dg_creates = False, dg_force = False\<rparr>]"
  unfolding demo_entries_eq
  by (simp add: dir_groups_def group_entry_def put_group_def demo_seen_def demo_actor_def observed.extend_def is_create_like_op_def
      forces_dir_rule_op_def AO_OP_CREATE_def AO_OP_MKDIR_def AO_OP_MKNOD_def AO_OP_SYMLINK_def AO_OP_RENAME_def AO_OP_RENAME_DST_def)

lemma demo_file_rules:
  "file_rules demo_actor demo_entries
     \<lparr>dg_dev = 5, dg_ino = 30, dg_path = ''/srv/app'', dg_count = 2, dg_creates = False, dg_force = False\<rparr> =
     [file_rule demo_actor ''/srv/app/db'', file_rule demo_actor ''/srv/app/log'']"
  unfolding demo_entries_eq
  by (simp add: file_rules_def demo_seen_def demo_actor_def observed.extend_def is_create_like_op_def AO_OP_CREATE_def AO_OP_MKDIR_def
      AO_OP_MKNOD_def AO_OP_SYMLINK_def earlier_rule_for_group_def same_emitted_rule_def upt_rec)

lemma demo_unresolved: "unresolved_notes demo_actor demo_entries = []"
  unfolding demo_entries_eq by (simp add: unresolved_notes_def demo_seen_def observed.extend_def)

lemma demo_emitted:
  "emit_profile demo_watch False False demo_entries [By_fd, By_fd] [demo_actor] = demo_draft"
proof -
  have abi: "detect_runtime_abi demo_watch False = COMPARTMENT_ABI_VERSION" by (simp add: detect_runtime_abi_def demo_watch_def)
  have f: "oh_now demo_watch = ''now''" "oh_launchers demo_watch = []" "oh_drops demo_watch = 0" "oh_overflow demo_watch = 0"
    "ar_name demo_actor = ''ed''" "ar_path demo_actor = ''/bin/ed''" "oh_dirs demo_watch (ar_slot demo_actor)"
    by (simp_all add: demo_watch_def demo_actor_def)
  show ?thesis unfolding emit_profile_def abi Let_def
    by (simp add: actor_block_def demo_groups demo_unresolved demo_file_rules group_rules_def collapses_def AO_DIR_COLLAPSE_def
        launcher_notes_def profile_header_def count_note_def COMPARTMENT_ABI_VERSION_def demo_draft_def file_rule_def f)
qed

lemma demo_drafts: "observe_main demo_watch [''--actor'', ''ed=/bin/ed''] = (0, Some demo_draft)"
proof -
  have h: "oh_watch demo_watch" "oh_output demo_watch" "oh_finish demo_watch" "oh_observed demo_watch = [demo_seen 31, demo_seen 32]"
    by (simp_all add: demo_watch_def)
  have e: "map fst (map (hinted demo_watch False) [demo_seen 31, demo_seen 32]) = demo_entries"
    "concat (map snd (map (hinted demo_watch False) [demo_seen 31, demo_seen 32])) = [By_fd, By_fd]"
    using demo_entries_eq(2) by (simp_all add: demo_entries_def)
  show ?thesis unfolding observe_main_def demo_args sum.case Let_def h
    using demo_resolves_actor demo_emitted e
    by (simp add: initial_oopts_def infer_actor_def h AO_MAX_OBSERVED_def)
qed

lemma demo_draft_plain: "\<forall>l \<in> set demo_draft. plain_line l"
  by (simp add: demo_draft_def plain_line_def CONF_LINE_def)

section \<open>Properties\<close>

text \<open>
  C38: the loader resolves the binary of an actor exactly when \<^verbatim>\<open>observe\<close> takes it, its file system may hold
  actors and its device number fits, and then to the device and inode that \<^verbatim>\<open>observe\<close> watches; the only thing asked of the
  system is that both see the same file at that path.
\<close>

theorem observe_agrees_with_loader:
  assumes "lh_opath (oh_files h) p = Some (oh_stat h p)"
  shows "actor_resolve_one (oh_files h) p =
    (if validate_loader_compatible_actor_path h p \<and> \<not> anon_bdev_refuse (oh_files h) p \<and> Option.bind (oh_stat h p) kernel_dev \<noteq> None
     then map_option (\<lambda>(dev, ino). \<lparr>ik_dev = dev, ik_ino = ino\<rparr>) (path_to_file_id h p) else None)"
proof (cases "validate_loader_compatible_actor_path h p \<and> \<not> anon_bdev_refuse (oh_files h) p \<and> Option.bind (oh_stat h p) kernel_dev \<noteq> None")
  case True
  then obtain st dev where st: "oh_stat h p = Some st" "kernel_dev st = Some dev" by (cases "oh_stat h p") auto
  have "actor_resolve_one (oh_files h) p = map_option (\<lambda>dev. \<lparr>ik_dev = dev, ik_ino = us_ino st\<rparr>) (kernel_dev st)"
    using True st assms by (intro validated_resolves) simp_all
  then show ?thesis using True st devices_agree [OF st(2)] by (simp add: path_to_file_id_def)
next
  case False
  have "actor_resolve_one (oh_files h) p = None"
  proof (rule ccontr)
    assume "actor_resolve_one (oh_files h) p \<noteq> None"
    then obtain k where k: "actor_resolve_one (oh_files h) p = Some k" by blast
    then show False using resolved_validates [OF k] False assms by auto
  qed
  then show ?thesis unfolding if_not_P [OF False] .
qed

theorem observe_agrees_with_loader_witness:
  "actor_resolve_one seal_host ''/bin/ed'' = Some \<lparr>ik_dev = 5, ik_ino = 19\<rparr>"
proof -
  have "validate_loader_compatible_actor_path demo_watch ''/bin/ed''" "\<not> anon_bdev_refuse seal_host ''/bin/ed''"
    "path_to_file_id demo_watch ''/bin/ed'' = Some (5, 19)" "Option.bind (oh_stat demo_watch ''/bin/ed'') kernel_dev = Some 5"
    "lh_opath seal_host ''/bin/ed'' = Some (oh_stat demo_watch ''/bin/ed'')"
    by code_simp+
  moreover have "oh_files demo_watch = seal_host" by (simp add: demo_watch_def)
  ultimately show ?thesis using observe_agrees_with_loader [of demo_watch "''/bin/ed''"] by simp
qed

text \<open>
  C36: a draft is a candidate: whatever was observed and however the paths were resolved, the loader does not pin it unless
  it is told to accept candidates.
\<close>

theorem candidate_refused:
  assumes "observe_main h args = (0, Some draft)" and "lo_pin opts" and "\<not> lo_allow_candidate opts"
  shows "fst (load_conf lh opts (Some (unlines draft)) M) = - 1"
  using assms(1)
proof (cases rule: observe_main_drafts)
  case (1 oopts asked actors)
  then obtain rest where d: "draft = ''# generated by compartment-bpf observe'' # ''#@compartment-bpf-profile-status: candidate'' # rest"
    by (simp add: emit_profile_def profile_header_def Let_def)
  let ?ls = "[''# generated by compartment-bpf observe'', ''#@compartment-bpf-profile-status: candidate'']"
  let ?skel = "lo_skel opts" and ?po = "lo_parse_only opts"
  have "\<forall>l \<in> set ?ls. plain_line l" by (simp add: plain_line_def CONF_LINE_def)
  from conf_loop_lines [OF this, of lh ?skel ?po "unlines rest" "initial_lstate M"]
  have loop: "conf_loop lh ?skel ?po (unlines draft) (initial_lstate M) =
      conf_loop lh ?skel ?po (unlines rest) (run_lines lh ?skel ?po ?ls (initial_lstate M))"
    by (simp add: d unlines_def)
  have "is_candidate_line (''#@compartment-bpf-profile-status: candidate'' @ [NL])" by code_simp
  then have "ls_candidate (run_lines lh ?skel ?po ?ls (initial_lstate M))"
    using silent_line [of "''#@compartment-bpf-profile-status: candidate''"] by (simp add: run_lines_def)
  from candidate_kept [OF disjI1 [OF this], of lh ?skel ?po "unlines rest"] show ?thesis
    unfolding load_conf_def option.case loop using assms(2,3) by (intro conclude_errs) blast
qed

theorem candidate_refused_witness:
  "observe_main demo_watch [''--actor'', ''ed=/bin/ed''] = (0, Some demo_draft) \<and>
   fst (load_conf seal_host demo_opts (Some (unlines demo_draft)) bare_maps) = - 1"
  using candidate_refused [OF demo_drafts, of demo_opts seal_host bare_maps] demo_drafts by (simp add: demo_opts_def)

text \<open>
  C37: a draft is a profile.  If the paths of the actors are single words, every observed inode is open somewhere or on
  a mounted file system, and every line fits the buffer of the loader, then checking the draft reports no error and declares
  exactly the actors that were watched, in their order and with their binaries.
\<close>

theorem draft_parses:
  assumes "observe_main h args = (0, Some draft)" and "\<forall>l \<in> set draft. plain_line l"
    and "\<forall>q p. oh_realpath h q = Some p \<longrightarrow> solid p" and "\<forall>ob \<in> set (oh_observed h). resolvable h (ob_dev ob) (ob_ino ob)"
    and "lo_parse_only opts" and "\<not> lo_skel opts" and "\<not> lo_pin opts \<or> lo_allow_candidate opts" and "lh_conf_ok lh"
  shows "\<exists>oopts asked actors st. observe_args args initial_oopts = Inr oopts \<and> infer_actor h oopts = Some asked \<and>
    resolve_actors h asked = Some actors \<and> load_conf lh opts (Some (unlines draft)) M = (0, st) \<and>
    map (\<lambda>ag. (ag_name ag, ag_paths ag)) (ps_actors (ls_ps st)) = map (\<lambda>a. (ar_name a, [ar_path a])) actors"
  using assms(1)
proof (cases rule: observe_main_drafts)
  case (1 oopts asked actors)
  let ?obs = "take AO_MAX_OBSERVED (oh_observed h)" and ?nr = "oo_no_resolve oopts"
  let ?st = "run_lines lh False True draft (initial_lstate M)"
  have "actors_ok asked" using infer_actor_ok(1) [OF 1(2)] observe_args_ok [OF 1(1)]
    by (simp add: initial_oopts_def actors_ok_def)
  then have solid: "\<forall>a \<in> set actors. solid (ar_path a)" using resolved_actors(3) [OF 1(3)] assms(3) by blast
  have "entries_ok (map (fst \<circ> hinted h ?nr) ?obs)"
    unfolding entries_ok_def
  proof
    fix e
    assume "e \<in> set (map (fst \<circ> hinted h ?nr) ?obs)"
    then obtain ob where "ob \<in> set (oh_observed h)" "hinted h ?nr ob = (e, snd (hinted h ?nr ob))" by (auto dest: in_set_takeD)
    then show "hint_ok (oe_path e) \<and> hint_ok (oe_parent e) \<and> (oe_path e = [] \<or> tidy (oe_path e))"
      using hinted_ok assms(4) by blast
  qed
  from draft_runs [OF this solid 1(4), of lh False h ?nr "oo_no_dir_dest oopts" "concat (map (snd \<circ> hinted h ?nr) ?obs)" M]
  have st: "ls_errs ?st = 0" "length actors \<le> ls_sealed ?st"
    "map (\<lambda>ag. (ag_name ag, ag_paths ag)) (ps_actors (ls_ps ?st)) = map (\<lambda>a. (ar_name a, [ar_path a])) actors"
    by (simp_all add: 1(6) Let_def)
  have "0 < ls_sealed ?st" using st(2) 1(5) by (cases actors) auto
  then have "load_conf lh opts (Some (unlines draft)) M = (0, ?st)"
    using st(1) assms(5-8) by (auto simp: load_conf_lines [OF assms(2)] conclude_load_def Let_def count_err_def)
  then show ?thesis using 1(1-3) st(3) by blast
qed

definition check_opts :: load_opts where
  "check_opts = \<lparr>lo_skel = False, lo_parse_only = True, lo_allow_empty = False, lo_pin = False, lo_allow_candidate = False\<rparr>"

theorem draft_parses_witness:
  "\<exists>st. load_conf seal_host check_opts (Some (unlines demo_draft)) bare_maps = (0, st) \<and>
     map (\<lambda>ag. (ag_name ag, ag_paths ag)) (ps_actors (ls_ps st)) = [(''ed'', [''/bin/ed''])]"
proof -
  have "\<forall>q p. oh_realpath demo_watch q = Some p \<longrightarrow> solid p"
    by (simp add: demo_watch_def solid_def absolute_def is_space_def)
  moreover have "\<forall>ob \<in> set (oh_observed demo_watch). resolvable demo_watch (ob_dev ob) (ob_ino ob)"
    using demo_mount by (auto simp: resolvable_def demo_watch_def demo_seen_def)
  moreover have "lh_conf_ok seal_host" by (simp add: seal_host_def)
  ultimately obtain oopts asked actors st where r: "observe_args [''--actor'', ''ed=/bin/ed''] initial_oopts = Inr oopts"
      "infer_actor demo_watch oopts = Some asked" "resolve_actors demo_watch asked = Some actors"
      "load_conf seal_host check_opts (Some (unlines demo_draft)) bare_maps = (0, st)"
      "map (\<lambda>ag. (ag_name ag, ag_paths ag)) (ps_actors (ls_ps st)) = map (\<lambda>a. (ar_name a, [ar_path a])) actors"
    using draft_parses [OF demo_drafts demo_draft_plain, of check_opts seal_host bare_maps] by (auto simp: check_opts_def)
  have "asked = [\<lparr>ar_name = ''ed'', ar_path = ''/bin/ed'', ar_dev = 0, ar_ino = 0, ar_slot = 0\<rparr>]"
    using r(1,2) demo_args by (auto simp: infer_actor_def initial_oopts_def)
  then have "actors = [demo_actor]" using r(3) demo_resolves_actor by simp
  then show ?thesis using r(4,5) by (simp add: demo_actor_def)
qed

text \<open>
  C40: an inode that is neither open nor on a mounted file system gets its numbers for a path, and the rule drafted for it is
  one no loader takes: with such a line the whole profile is refused, in every mode.
\<close>

theorem unresolved_hint_refused:
  assumes "\<forall>l \<in> set draft. plain_line l" and "resolve_path h dev ino = (p, parent, Unresolved)" and "file_rule a p \<in> set draft"
    and "actor_name_valid (ar_name a)"
  shows "fst (load_conf lh opts (Some (unlines draft)) M) = - 1"
proof -
  let ?skel = "lo_skel opts" and ?po = "lo_parse_only opts" and ?l = "file_rule a p"
  obtain pre post where d: "draft = pre @ ?l # post" using assms(3) by (meson split_list)
  let ?st = "run_lines lh ?skel ?po pre (initial_lstate M)"
  have "ls_errs (conf_line lh ?skel ?po (?l @ [NL]) ?st) \<noteq> 0" by (rule unresolved_rule_fails [OF assms(2,4)])
  then have "ls_errs (run_lines lh ?skel ?po draft (initial_lstate M)) \<noteq> 0"
    using run_lines_errs [of "conf_line lh ?skel ?po (?l @ [NL]) ?st" lh ?skel ?po post] by (simp add: d run_lines_def)
  then show ?thesis unfolding load_conf_lines [OF assms(1)] by (intro conclude_errs) simp
qed

theorem unresolved_hint_refused_witness:
  "fst (load_conf seal_host check_opts (Some (unlines [''actor ed = /bin/ed'', ''seal /bin/ed full'',
     ''seal <dev=0x6,ino=7> no-write no-unlink no-rename actor=ed''])) bare_maps) = - 1"
proof -
  have s: "show_hex 6 = ''6''" "show_nat 7 = ''7''" by code_simp+
  have "resolve_path (demo_watch\<lparr>oh_fds := None, oh_mounts := None\<rparr>) 6 7 = (''<dev=0x6,ino=7>'', [], Unresolved)"
    by (simp add: resolve_path_def resolve_by_procfd_def dev_to_mountpoint_def s)
  from unresolved_hint_refused [OF _ this, of "[''actor ed = /bin/ed'', ''seal /bin/ed full'',
      ''seal <dev=0x6,ino=7> no-write no-unlink no-rename actor=ed'']" demo_actor]
  show ?thesis by (simp add: plain_line_def CONF_LINE_def file_rule_def demo_actor_def actor_name_valid_def ACTOR_NAME_MAX_def is_alnum_def is_alpha_def)
qed

section \<open>From the kernel to the draft\<close>

text \<open>Task 1, a child of task 2, executes the editor, which opens the two files for writing.\<close>

definition demo_okernel :: okernel where
  "demo_okernel =
     \<lparr>on_k = \<lparr>k_inode = (\<lambda>a. \<lparr>i_ino = of_nat a, i_sb = Some 0, i_mode = 0x81ED, i_nlink = 1\<rparr>),
              k_sb = (\<lambda>_. \<lparr>s_dev = 5, s_root = None\<rparr>),
              k_dentry = (\<lambda>a. \<lparr>d_inode = Some a, d_parent = Some 30\<rparr>),
              k_file = (\<lambda>a. \<lparr>f_mode = 2, f_inode = Some a, f_dentry = Some a\<rparr>),
              k_mount = (\<lambda>_. \<lparr>mnt_root = None, mnt_sb = None\<rparr>),
              k_task = (\<lambda>_. \<lparr>t_exe_file = Some 13, t_real_parent_tgid = 2\<rparr>),
              k_current = Some 1, k_pid_tgid = 0, k_uid_gid = 0, k_ktime_ns = 7, k_comm = ''ed'', k_storage_ok = True\<rparr>,
      on_flags = (\<lambda>_. 1), on_parent = (\<lambda>_. Some 2), on_tgid = (\<lambda>_. 2), on_cgroup = 0,
      on_insert = (\<lambda>m n. if n < m then 0 else - 7), on_lane2 = True, on_generation = 1\<rparr>"

definition demo_ostate :: ostate where
  "demo_ostate =
     \<lparr>os_targets = [\<lparr>ik_dev = 5, ik_ino = 19\<rparr> \<mapsto> 0], os_current = Map.empty, os_lineage = Map.empty, os_files = [], os_launchers = [],
      os_counters = (\<lambda>_. 0), os_events = [], os_room = 8\<rparr>"

definition demo_calls :: orun where
  "demo_calls = [(demo_okernel, Bprm_check (Some 19)), (demo_okernel, File_open (Some 31)), (demo_okernel, File_open (Some 32))]"

definition demo_key :: "u64 \<Rightarrow> observed_key" where
  "demo_key ino = \<lparr>qk_slot = 0, qk_op = 2, qk_dev = 5, qk_ino = ino, qk_pdev = 5, qk_pino = 30\<rparr>"

lemma demo_hash_map: "bpf_hash_map demo_okernel"
  by (simp add: bpf_hash_map_def demo_okernel_def)

lemma demo_exec:
  "accesses demo_okernel (Bprm_check (Some 19)) demo_ostate = []"
  "os_current (ohook demo_okernel (Bprm_check (Some 19)) demo_ostate) 1 = Some \<lparr>cm_slot = 0, cm_generation = 1\<rparr>"
  "os_files (ohook demo_okernel (Bprm_check (Some 19)) demo_ostate) = []"
proof -
  show "accesses demo_okernel (Bprm_check (Some 19)) demo_ostate = []" by (simp add: accesses_def split: prod.split)
  show "os_current (ohook demo_okernel (Bprm_check (Some 19)) demo_ostate) 1 = Some \<lparr>cm_slot = 0, cm_generation = 1\<rparr>" by code_simp
  show "os_files (ohook demo_okernel (Bprm_check (Some 19)) demo_ostate) = []" by (simp add: bprm_files) (simp add: demo_ostate_def)
qed

lemma demo_open:
  assumes "os_current st 1 = Some \<lparr>cm_slot = 0, cm_generation = 1\<rparr>"
  shows "accesses demo_okernel (File_open (Some n)) st = [(demo_key (of_nat n), False)]"
    and "ohook demo_okernel (File_open (Some n)) st = agg_obs demo_okernel (demo_key (of_nat n)) AO_EV_FS_FIRST_SIGHTING False st"
proof -
  have k: "k_current (on_k demo_okernel) = Some (Suc 0)" "on_lane2 demo_okernel" by (simp_all add: demo_okernel_def)
  have r: "resolve_lane2_actor (Some (Suc 0)) st = (0, False)" using assms by (simp add: resolve_lane2_actor_def)
  have f: "file_to_id (on_k demo_okernel) (Some n) = Some \<lparr>ik_dev = 5, ik_ino = of_nat n\<rparr>"
    "inode_to_id (on_k demo_okernel) (dentry_inode (on_k demo_okernel) (dentry_parent (on_k demo_okernel) (file_dentry (on_k demo_okernel) (Some n)))) =
      Some \<lparr>ik_dev = 5, ik_ino = 30\<rparr>" "open_class demo_okernel (Some n) = 2"
    by (simp_all add: demo_okernel_def file_to_id_def inode_to_id_def file_inode_def dentry_inode_def dentry_parent_def file_dentry_def
        open_class_def file_fmode_def FMODE_WRITE_def O_TRUNC_FLAG_def O_ACCMODE_def O_RDWR_FLAG_def AO_OP_OPEN_W_def)
  show "accesses demo_okernel (File_open (Some n)) st = [(demo_key (of_nat n), False)]"
    by (simp add: accesses_def k r f op_key_def id_or_zero_def demo_key_def)
  show "ohook demo_okernel (File_open (Some n)) st = agg_obs demo_okernel (demo_key (of_nat n)) AO_EV_FS_FIRST_SIGHTING False st"
    by (simp add: ao_file_open_def lane2_def k r f op_key_def id_or_zero_def demo_key_def Let_def)
qed

lemma demo_new:
  assumes "map_of (os_files st) (demo_key i) = None" and "length (os_files st) < MAX_OBSERVED_FILES"
  shows "map as_observed (os_files (agg_obs demo_okernel (demo_key i) ty False st)) = map as_observed (os_files st) @ [demo_seen i]"
proof -
  have "on_insert demo_okernel MAX_OBSERVED_FILES (length (os_files st)) = 0"
    using assms(2) by (simp add: demo_okernel_def)
  then show ?thesis using assms(1) by (simp add: agg_obs_def Let_def as_observed_def demo_key_def demo_seen_def)
qed

text \<open>The states after the exec and after the first open.\<close>

definition demo_execed :: ostate where
  "demo_execed = ohook demo_okernel (Bprm_check (Some 19)) demo_ostate"

definition demo_opened :: ostate where
  "demo_opened = agg_obs demo_okernel (demo_key 31) AO_EV_FS_FIRST_SIGHTING False demo_execed"

lemma demo_opened_files: "map as_observed (os_files demo_opened) = [demo_seen 31]" "length (os_files demo_opened) = 1"
  "map_of (os_files demo_opened) (demo_key 32) = None"
proof -
  have e: "os_files demo_execed = []" using demo_exec(3) by (simp add: demo_execed_def)
  then show m: "map as_observed (os_files demo_opened) = [demo_seen 31]"
    using demo_new [of demo_execed 31 AO_EV_FS_FIRST_SIGHTING] by (simp add: demo_opened_def MAX_OBSERVED_FILES_def)
  then show "length (os_files demo_opened) = 1" by (metis length_map length_Cons list.size(3) One_nat_def)
  show "map_of (os_files demo_opened) (demo_key 32) = None"
    using m by (auto simp: map_of_eq_None_iff as_observed_def demo_seen_def demo_key_def map_eq_Cons_conv)
qed

lemma demo_run:
  "run_programs demo_calls demo_ostate = agg_obs demo_okernel (demo_key 32) AO_EV_FS_FIRST_SIGHTING False demo_opened"
  "access_log demo_calls demo_ostate = [(demo_key 31, False), (demo_key 32, False)]"
proof -
  have c: "os_current demo_execed 1 = Some \<lparr>cm_slot = 0, cm_generation = 1\<rparr>" using demo_exec(2) by (simp add: demo_execed_def)
  have o: "ohook demo_okernel (File_open (Some 31)) demo_execed = demo_opened" using demo_open(2) [OF c, of 31] by (simp add: demo_opened_def)
  have c': "os_current demo_opened 1 = Some \<lparr>cm_slot = 0, cm_generation = 1\<rparr>" using c by (simp add: demo_opened_def)
  show "run_programs demo_calls demo_ostate = agg_obs demo_okernel (demo_key 32) AO_EV_FS_FIRST_SIGHTING False demo_opened"
    unfolding demo_calls_def run_programs.simps demo_execed_def [symmetric] o using demo_open(2) [OF c', of 32] by simp
  show "access_log demo_calls demo_ostate = [(demo_key 31, False), (demo_key 32, False)]"
    unfolding demo_calls_def access_log.simps demo_execed_def [symmetric] o
    using demo_open(1) [OF c, of 31] demo_open(1) [OF c', of 32] demo_exec(1) by simp
qed

lemma demo_files_seen: "map as_observed (os_files (run_programs demo_calls demo_ostate)) = [demo_seen 31, demo_seen 32]"
  using demo_new [of demo_opened 32 AO_EV_FS_FIRST_SIGHTING] demo_opened_files by (simp add: demo_run MAX_OBSERVED_FILES_def)

lemma demo_length: "length (os_files (run_programs demo_calls demo_ostate)) = 2"
  using arg_cong [OF demo_files_seen, of length] by simp

lemma demo_all_documented: "\<forall>(N, c) \<in> set demo_calls. bpf_hash_map N"
  using demo_hash_map by (simp add: demo_calls_def)

text \<open>
  C34: the map of observed files is exact.  After any run of the programs on a kernel whose hash maps behave as documented,
  and as long as the map is not full, its keys are the accesses that marked tasks made to files, each with the number of times
  it was made and with whether the actor itself and whether only its lineage made it.
\<close>

theorem observations_exact:
  assumes "os_files st = []" and "\<forall>(N, c) \<in> set xs. bpf_hash_map N" and "length (os_files (run_programs xs st)) < MAX_OBSERVED_FILES"
  shows "holds_log (run_programs xs st) (access_log xs st)"
proof -
  have "holds_log st []" using assms(1) by (simp add: holds_log_def entry_logs_def)
  moreover have "\<forall>(N, c) \<in> set xs. roomy N" using assms(2) bpf_hash_map_roomy by blast
  ultimately show ?thesis using run_programs_logs [of st "[]" xs] assms(3) by simp
qed

theorem observations_exact_witness:
  "holds_log (run_programs demo_calls demo_ostate) [(demo_key 31, False), (demo_key 32, False)]"
proof -
  have "os_files demo_ostate = []" by (simp add: demo_ostate_def)
  from observations_exact [OF this demo_all_documented] show ?thesis by (simp add: demo_length demo_run(2) MAX_OBSERVED_FILES_def)
qed

text \<open>
  C35: an access is attributed to an actor itself exactly when the task's image is that actor's binary.  In every reachable
  state a task with the marker of an actor last asked to execute the binary of that slot, or was cloned from a task that did;
  as long as markers could be stored, every such task has the marker, and every descendant of an actor the one for its lineage.
\<close>

theorem attribution_exact:
  assumes "oreachable s"
  shows "(case os_current (oy_state s) t of
      Some m \<Rightarrow> Option.bind (oy_image s t) (os_targets (oy_state s)) = Some (cm_slot m)
    | None \<Rightarrow> \<not> oy_storage s \<or> Option.bind (oy_image s t) (os_targets (oy_state s)) = None) \<and>
    (\<not> oy_storage s \<or> map_option lm_origin_slot (os_lineage (oy_state s) t) = oy_origin s t)"
proof -
  have m: "\<And>m. os_current (oy_state s) t = Some m \<Longrightarrow> own_slot s t = Some (cm_slot m)"
    "oy_storage s \<Longrightarrow> map_option cm_slot (os_current (oy_state s) t) = own_slot s t"
    "oy_storage s \<Longrightarrow> map_option lm_origin_slot (os_lineage (oy_state s) t) = oy_origin s t"
    using markers_reachable [OF assms] by (auto simp: markers_ok_def)
  then show ?thesis by (cases "os_current (oy_state s) t") (auto simp: own_slot_def)
qed

definition demo_osys :: osys where
  "demo_osys = \<lparr>oy_state = demo_ostate, oy_image = (\<lambda>_. None), oy_origin = (\<lambda>_. None), oy_storage = True\<rparr>"

definition demo_osys1 :: osys where
  "demo_osys1 = \<lparr>oy_state = snd (ao_bprm demo_okernel (Some 19) 0 demo_ostate), oy_image = [1 \<mapsto> \<lparr>ik_dev = 5, ik_ino = 19\<rparr>],
     oy_origin = [1 \<mapsto> 0], oy_storage = True\<rparr>"

lemma demo_ostep: "ostep demo_osys demo_osys1"
proof -
  have c: "k_current (on_k demo_okernel) = Some 1" "k_storage_ok (on_k demo_okernel)" by (simp_all add: demo_okernel_def)
  have f: "file_to_id (on_k demo_okernel) (Some 19) = Some \<lparr>ik_dev = 5, ik_ino = 19\<rparr>"
    "os_targets demo_ostate \<lparr>ik_dev = 5, ik_ino = 19\<rparr> = Some 0" by code_simp+
  have b: "ao_bprm demo_okernel (Some 19) 0 (oy_state demo_osys) = (0, snd (ao_bprm demo_okernel (Some 19) 0 demo_ostate))"
    using c(1) by (simp add: prod_eq_iff demo_osys_def ao_bprm_def Let_def split: option.split)
  from ostep.exec [OF c(1) f(1) b] show ?thesis by (simp add: demo_osys_def demo_osys1_def c f)
qed

theorem attribution_exact_witness: "map_option cm_slot (os_current (oy_state demo_osys1) 1) = Some 0"
proof -
  have "oinitial demo_osys" by (simp add: oinitial_def demo_osys_def demo_ostate_def)
  then have r: "oreachable demo_osys1" using demo_ostep by (blast intro: oreachable.intros)
  have "os_targets (oy_state demo_osys1) \<lparr>ik_dev = 5, ik_ino = 19\<rparr> = Some 0" by code_simp
  then have "Option.bind (oy_image demo_osys1 1) (os_targets (oy_state demo_osys1)) = Some 0" "oy_storage demo_osys1"
    by (simp_all add: demo_osys1_def)
  then show ?thesis using attribution_exact [OF r, of 1] by (auto split: option.splits)
qed

text \<open>
  C39: a full map goes unnoticed.  The program counts an overflow when the kernel answers \<^verbatim>\<open>-ENOSPC\<close>, but for a full hash map
  the documented answer is \<^verbatim>\<open>-E2BIG\<close>: no run of the programs, from any state, moves the overflow counter; and in a state that a
  run leaves with 65536 entries, recording an access to a file that is not among them leaves no trace at all.
\<close>

theorem full_map_unnoticed:
  assumes "\<forall>(N, c) \<in> set xs. bpf_hash_map N" and "bpf_hash_map N"
  shows "os_counters (run_programs xs st) C_OBSERVED_FILES_OVERFLOW_TOTAL = os_counters st C_OBSERVED_FILES_OVERFLOW_TOTAL \<and>
    (MAX_OBSERVED_FILES \<le> length (os_files (run_programs xs st)) \<and> key \<notin> fst ` set (os_files (run_programs xs st)) \<longrightarrow>
      agg_obs N key type lin (run_programs xs st) = run_programs xs st)"
proof (intro conjI impI)
  show "os_counters (run_programs xs st) C_OBSERVED_FILES_OVERFLOW_TOTAL = os_counters st C_OBSERVED_FILES_OVERFLOW_TOTAL"
    using assms(1) by (induction xs st rule: run_programs.induct) (simp_all add: ohook_overflow)
  assume "MAX_OBSERVED_FILES \<le> length (os_files (run_programs xs st)) \<and> key \<notin> fst ` set (os_files (run_programs xs st))"
  then show "agg_obs N key type lin (run_programs xs st) = run_programs xs st"
    using assms(2) by (simp add: agg_obs_def Let_def bpf_hash_map_def map_of_eq_None_iff [THEN iffD2])
qed

text \<open>Witness: the editor opens one file after another until the map is full, and then one for reading.\<close>

definition filling_calls :: "nat \<Rightarrow> orun" where
  "filling_calls n = (demo_okernel, Bprm_check (Some 19)) # map (\<lambda>i. (demo_okernel, File_open (Some i))) [0..<n]"

lemma run_programs_append: "run_programs (xs @ ys) st = run_programs ys (run_programs xs st)"
  by (induction xs st rule: run_programs.induct) simp_all

lemma demo_new_key:
  assumes "map_of (os_files st) (demo_key i) = None" and "length (os_files st) < MAX_OBSERVED_FILES"
  shows "map fst (os_files (agg_obs demo_okernel (demo_key i) ty False st)) = map fst (os_files st) @ [demo_key i]"
proof -
  have "on_insert demo_okernel MAX_OBSERVED_FILES (length (os_files st)) = 0" using assms(2) by (simp add: demo_okernel_def)
  then show ?thesis using assms(1) by (simp add: agg_obs_def Let_def)
qed

lemma filled:
  "n \<le> MAX_OBSERVED_FILES \<Longrightarrow>
   map fst (os_files (run_programs (filling_calls n) demo_ostate)) = map (\<lambda>i. demo_key (of_nat i)) [0..<n] \<and>
   os_current (run_programs (filling_calls n) demo_ostate) 1 = Some \<lparr>cm_slot = 0, cm_generation = 1\<rparr>"
proof (induction n)
  case 0
  show ?case using demo_exec by (simp add: filling_calls_def)
next
  case (Suc n)
  let ?st = "run_programs (filling_calls n) demo_ostate"
  have ih: "map fst (os_files ?st) = map (\<lambda>i. demo_key (of_nat i)) [0..<n]" "os_current ?st 1 = Some \<lparr>cm_slot = 0, cm_generation = 1\<rparr>"
    using Suc by simp_all
  have next_state: "run_programs (filling_calls (Suc n)) demo_ostate =
      agg_obs demo_okernel (demo_key (of_nat n)) AO_EV_FS_FIRST_SIGHTING False ?st"
    using demo_open(2) [OF ih(2), of n] run_programs_append [of "filling_calls n" "[(demo_okernel, File_open (Some n))]" demo_ostate]
    by (simp add: filling_calls_def)
  have len: "length (os_files ?st) = n" using arg_cong [OF ih(1), of length] by simp
  have ne: "(of_nat n :: u64) \<noteq> of_nat i" if "i < n" for i
    using that Suc.prems by (simp add: word_of_nat_eq_iff take_bit_nat_eq_self MAX_OBSERVED_FILES_def)
  have "demo_key (of_nat n) \<notin> set (map fst (os_files ?st))"
  proof
    assume "demo_key (of_nat n) \<in> set (map fst (os_files ?st))"
    then obtain i where i: "i < n" "demo_key (of_nat n) = demo_key (of_nat i)" unfolding ih(1) by auto
    from i(2) have "(of_nat n :: u64) = of_nat i" by (simp only: demo_key_def observed_key.ext_inject)
    then show False using ne [OF i(1)] by blast
  qed
  then have new: "map_of (os_files ?st) (demo_key (of_nat n)) = None" by (simp add: map_of_eq_None_iff)
  have "map fst (os_files (run_programs (filling_calls (Suc n)) demo_ostate)) = map (\<lambda>i. demo_key (of_nat i)) [0..<Suc n]"
    unfolding next_state using demo_new_key [OF new] len Suc.prems ih(1) by simp
  moreover have "os_current (run_programs (filling_calls (Suc n)) demo_ostate) 1 = Some \<lparr>cm_slot = 0, cm_generation = 1\<rparr>"
    unfolding next_state using ih(2) by simp
  ultimately show ?case by blast
qed

theorem full_map_unnoticed_witness:
  "let st = run_programs (filling_calls MAX_OBSERVED_FILES) demo_ostate
   in length (os_files st) = MAX_OBSERVED_FILES \<and> os_counters st C_OBSERVED_FILES_OVERFLOW_TOTAL = 0 \<and>
      agg_obs demo_okernel (demo_key 31\<lparr>qk_op := 1\<rparr>) AO_EV_FS_FIRST_SIGHTING False st = st"
proof -
  let ?st = "run_programs (filling_calls MAX_OBSERVED_FILES) demo_ostate"
  have keys: "map fst (os_files ?st) = map (\<lambda>i. demo_key (of_nat i)) [0..<MAX_OBSERVED_FILES]"
    using filled [of MAX_OBSERVED_FILES] by simp
  have len: "length (os_files ?st) = MAX_OBSERVED_FILES" using arg_cong [OF keys, of length] by simp
  have "demo_key 31\<lparr>qk_op := 1\<rparr> \<notin> set (map fst (os_files ?st))" unfolding keys by (auto simp: demo_key_def)
  moreover have "\<forall>(N, c) \<in> set (filling_calls MAX_OBSERVED_FILES). bpf_hash_map N"
    using demo_hash_map by (auto simp: filling_calls_def)
  moreover have "os_counters demo_ostate C_OBSERVED_FILES_OVERFLOW_TOTAL = 0" by (simp add: demo_ostate_def)
  ultimately show ?thesis
    using full_map_unnoticed [of "filling_calls MAX_OBSERVED_FILES" demo_okernel demo_ostate "demo_key 31\<lparr>qk_op := 1\<rparr>"
        AO_EV_FS_FIRST_SIGHTING False] demo_hash_map len by (simp add: Let_def)
qed



end
