(* ===== verification/Spec2Isabelle.thy ===== *)
theory Spec2Isabelle
  imports Comp_Prelude Syscall_Tables Policy_Config Seccomp_Filter Env_Sanitize Landlock_Rules
    Profile_Source Profile_Loader Profile_Policy
    Seal_Kernel Seal_Checks Seal_Hooks Seal_Spec Seal_Decisions Seal_Policy Strict_Launch Subtree_Depth
    Audit_Trail Seal_Loader Seal_Load_Policy Load_Guarantees Step_Runs User_Launch User_Mechanisms User_Policy User_Dump
    Root_Launch Root_Policy Root_Guarantees Actor_Wrapper Wrapper_Policy Pin_Lifecycle Pin_Policy Pin_Guarantees
    Observe_Profile Observe_Policy Observe_Kernel Observe_Runs Observe_Guarantees
begin

text \<open>
  A verification of \<^verbatim>\<open>compartment\<close>, a toolkit that confines processes on Linux.

  \<^bold>\<open>The program.\<close>  \<^verbatim>\<open>compartment.h\<close> holds what the launchers share: the policy record
  \<^verbatim>\<open>Config\<close> with its bounded arrays, the loader of profile files, the generator of the seccomp
  filter, the Landlock rules, the environment sanitiser and the audit log.  \<^verbatim>\<open>compartment-user.c\<close>
  is the unprivileged launcher: it merges command line and profile into one policy, puts the
  mechanisms in force and executes a command or, as a login shell, the real shell.
  \<^verbatim>\<open>compartment-root.c\<close> is the privileged one: it builds a container of namespaces, mounts and
  dropped privileges around the target and stays behind as PID 1.  \<^verbatim>\<open>compartment-bpf/\<close> seals files
  system-wide: the loader \<^verbatim>\<open>compartment-bpf.c\<close> turns a profile of seals and actors into BPF maps,
  and the LSM programs of \<^verbatim>\<open>compartment.bpf.c\<close> decide every operation on a sealed file from them.
  \<^verbatim>\<open>compartment-bpf --pin\<close> makes a policy outlive its loader, behind a passphrase if one is given, and
  \<^verbatim>\<open>compartment-bpf observe\<close> (\<^verbatim>\<open>compartment-observe.c\<close> with the programs of \<^verbatim>\<open>compartment-observe.bpf.c\<close>) watches
  actors at work and drafts a profile for them.

  \<^bold>\<open>Shared parts\<close> (\<^verbatim>\<open>src/compartment.h\<close>).
  \<^item> \<^verbatim>\<open>Comp_Prelude\<close>: C strings as lists of characters, \<^verbatim>\<open>strtol\<close> and \<^verbatim>\<open>strtoul\<close> with their wrap-around and
    range errors, and list lemmas.
  \<^item> \<^verbatim>\<open>Syscall_Tables\<close>: the name tables; numbers come from a \<^verbatim>\<open>target\<close>, the headers of the build.
  \<^item> \<^verbatim>\<open>Policy_Config\<close>: \<^verbatim>\<open>Config\<close> and every \<^verbatim>\<open>cfg_add_*\<close>; arrays never overflow or truncate.  The two
    strings that are freed when they are replaced, \<^verbatim>\<open>workdir\<close> and \<^verbatim>\<open>audit_log_dir\<close>, have addresses, and a small
    heap says which addresses were freed.
  \<^item> \<^verbatim>\<open>Seccomp_Filter\<close>: the classic BPF program, an interpreter for its opcodes, and that the
    program computes the action the policy means.
  \<^item> \<^verbatim>\<open>Env_Sanitize\<close>, \<^verbatim>\<open>Landlock_Rules\<close>: what is left of the environment; the rules that are installed,
    their rights, and the additivity check against a specification on path components.
  \<^item> \<^verbatim>\<open>Profile_Source\<close>, \<^verbatim>\<open>Profile_Loader\<close>, \<^verbatim>\<open>Profile_Policy\<close>: trust of files and directories, lines,
    variables, every directive, inheritance and the search path; loading is a transaction on the fields of
    the policy, only adds rules and mount flags, keeps the bounds, and cycles of \<^verbatim>\<open>inherit\<close> are rejected.  A
    rejected profile can free strings that its caller still points to.
  \<^item> \<^verbatim>\<open>Audit_Trail\<close>: records are single printable lines; the log is opened in a private directory.

  \<^bold>\<open>The launchers.\<close>
  \<^item> \<^verbatim>\<open>Step_Runs\<close>: runs of fallible steps that keep a log, the contract of a step (a locale, interpreted
    on every mechanism of both launchers), and what a run did in which order.
  \<^item> \<^verbatim>\<open>User_Launch\<close>, \<^verbatim>\<open>User_Mechanisms\<close>, \<^verbatim>\<open>User_Policy\<close>, \<^verbatim>\<open>User_Dump\<close>: \<^verbatim>\<open>compartment-user.c\<close>, its built-in
    profiles, pre-flight check, masks, capability drops, descriptors and both modes; an exec happens only
    with the policy in force; the dump of a policy that the profile format can hold loads back into an
    equivalent one.
  \<^item> \<^verbatim>\<open>Root_Launch\<close>, \<^verbatim>\<open>Root_Policy\<close>, \<^verbatim>\<open>Root_Guarantees\<close>: \<^verbatim>\<open>compartment-root.c\<close>.  A launch is the sequence of
    its system calls that succeeded; which succeed is the host.  The order of the calls, the file
    system, the ids and capabilities of the target, and PID 1.  \<^verbatim>\<open>Root_Policy\<close> also shows of both launchers that none
    goes on with a policy whose strings were freed.
  \<^item> \<^verbatim>\<open>Actor_Wrapper\<close>, \<^verbatim>\<open>Wrapper_Policy\<close>: the launcher of actor binaries (\<^verbatim>\<open>compartment-bpf/tools/\<close>), what it
    guarantees of the actor, and the names and system calls its lists miss.

  \<^bold>\<open>The seals.\<close>
  \<^item> \<^verbatim>\<open>Seal_Kernel\<close>: the wire types of \<^verbatim>\<open>compartment-abi.h\<close> and an abstract kernel of inodes, dentries,
    files, mounts and tasks; the BPF maps are a record.
  \<^item> \<^verbatim>\<open>Seal_Checks\<close>, \<^verbatim>\<open>Seal_Hooks\<close>: the helpers and programs of \<^verbatim>\<open>compartment.bpf.c\<close>, check by check.
  \<^item> \<^verbatim>\<open>Seal_Spec\<close>, \<^verbatim>\<open>Seal_Decisions\<close>, \<^verbatim>\<open>Seal_Policy\<close>: what each hook must deny, stated without the walk
    and the telemetry, and that the programs refine it; every denial is counted and reported.
  \<^item> \<^verbatim>\<open>Strict_Launch\<close>, \<^verbatim>\<open>Subtree_Depth\<close>: step relations for fork and exec and for changes of the directory
    tree, with the invariants of launch markers and of the depth cap.
  \<^item> \<^verbatim>\<open>Seal_Loader\<close>, \<^verbatim>\<open>Seal_Load_Policy\<close>, \<^verbatim>\<open>Load_Guarantees\<close>: \<^verbatim>\<open>load_conf\<close> of \<^verbatim>\<open>compartment-bpf.c\<close> and what a
    profile that loaded guarantees of the verdicts.
  \<^item> \<^verbatim>\<open>Pin_Lifecycle\<close>, \<^verbatim>\<open>Pin_Policy\<close>, \<^verbatim>\<open>Pin_Guarantees\<close>: \<^verbatim>\<open>--pin\<close> and \<^verbatim>\<open>--unpin\<close> as lists of effects on the
    directories of the pins and the passphrase sentinel.  A process may be killed after any effect; the locale of
    killable runs carries the invariants over sequences of such processes.  As long as the removals of \<^verbatim>\<open>--pin\<close> succeed, pins
    are never without the sentinel; unpinning needs the passphrase and undoes pinning, and a self-protected tree is out of reach of other programs.

  \<^bold>\<open>The observer.\<close>
  \<^item> \<^verbatim>\<open>Observe_Kernel\<close>, \<^verbatim>\<open>Observe_Runs\<close>: the programs of \<^verbatim>\<open>compartment-observe.bpf.c\<close> on the kernel of
    \<^verbatim>\<open>Seal_Kernel\<close>; runs of them against the log of accesses, and a step relation for the markers of tasks.
  \<^item> \<^verbatim>\<open>Observe_Profile\<close>, \<^verbatim>\<open>Observe_Policy\<close>, \<^verbatim>\<open>Observe_Guarantees\<close>: the command line, path hints and draft of
    \<^verbatim>\<open>compartment-observe.c\<close>.  The map of observations is exact until it is full, what an actor accessed is covered
    by the draft as long as the files are still open where it reached them, the draft is read back by the loader of \<^verbatim>\<open>Seal_Loader\<close> and is never pinned by accident; and how observations get lost.

  \<^bold>\<open>Bounds.\<close>  The ancestor walk has the source's bound of 8 directories as its recursion argument.
  Inheritance recurses on the levels left below \<^verbatim>\<open>MAX_INHERIT_DEPTH\<close>.  Buffers are written out as
  \<^term>\<open>take\<close> of their size, and lines are read in pieces of the buffer.  All other loops are structural
  or have a termination proof, so every function is total; the loop of PID 1 consumes the results of
  \<^verbatim>\<open>waitpid\<close> and is shown to return once the target has ended.

  \<^bold>\<open>Parameters.\<close>  The kernel and the C library are records of functions (\<^verbatim>\<open>host\<close>, \<^verbatim>\<open>ll_env\<close>,
  \<^verbatim>\<open>seccomp_env\<close>, \<^verbatim>\<open>audit_env\<close>, \<^verbatim>\<open>uhost\<close>, \<^verbatim>\<open>rhost\<close>, \<^verbatim>\<open>whost\<close>, \<^verbatim>\<open>lhost\<close>, \<^verbatim>\<open>phost\<close>, \<^verbatim>\<open>ohost\<close>, \<^verbatim>\<open>okernel\<close>); the model decides nothing about
  them, and the theorems hold for all of them unless a hypothesis says otherwise.

  \<^bold>\<open>Not modelled.\<close>  Diagnostics and help texts; the verification of installed binaries and the
  dry-run listings; in \<^verbatim>\<open>compartment-bpf.c\<close> loading and attachment through libbpf, the probes that choose
  between variants of a program, statistics and status commands, and how the memory of a passphrase is
  cleared; in \<^verbatim>\<open>compartment-observe.c\<close> the live formats, the provenance file and the termination of the child; the
  archived \<^verbatim>\<open>shell-guard\<close>, which is not built.  The BPF programs run one at a time: races between processors are not
  modelled.  A launch of \<^verbatim>\<open>compartment-root\<close> is one sequence of calls: the parent has finished
  when the child starts, and what PID 1 does after the fork is put before the last steps of the
  target.
\<close>

end
